(* ===== verification/Prelude.thy ===== *)
theory Prelude
  imports
    Main
    "HOL-Library.Finite_Map"
    "HOL-Library.List_Lexorder"
    "HOL-Library.Char_ord"
    "HOL-Library.Multiset"
    "HOL-Library.Word"
begin

text \<open>
  What the components share.

  \<^item> The result type of Go code: \<open>'a res\<close> is \<open>go_error + 'a\<close>. An \<open>Error\<close> is a returned
    \<^verbatim>\<open>error\<close> value, a \<open>Panic\<close> is a run-time panic (an explicit
    \<^verbatim>\<open>panic(..)\<close>, a nil pointer dereference, an index out of range). \<open>bindE\<close> sequences two
    fallible steps, and \<open>mapE\<close>, \<open>filterE\<close> and \<open>fmmapE\<close> are loops whose body may fail.
  \<^item> Go maps with string keys: finite maps \<open>(string, 'v) fmap\<close>. Go leaves the iteration order of a map
    unspecified. A loop whose outcome does not depend on the order runs over \<open>entries m\<close>, the entries in ascending key
    order. A loop whose outcome does depend on it runs over \<open>range_by ord m\<close>, where \<open>ord\<close> is an arbitrary
    function that proposes an order of the keys: a proposal that is not a permutation of the keys is ignored, so a statement for all
    \<open>ord\<close> is a statement for all iteration orders, with no side condition.
  \<^item> Go slices: \<open>'a slice\<close> is \<open>'a list option\<close>, because \<^verbatim>\<open>reflect.DeepEqual\<close>
    tells the nil slice from the empty one. \<open>elems\<close> reads the elements.
  \<^item> Strings are byte lists, compared as Go compares them (lexicographically, by byte value).
\<close>

section \<open>Results\<close>

datatype go_error = Error string | Panic string

type_synonym 'a res = "go_error + 'a"

named_theorems res_simps \<open>rewrite rules for fallible computations\<close>
named_theorems res_dest \<open>what a successful loop tells about its iterations\<close>

definition bindE :: "'e + 'a \<Rightarrow> ('a \<Rightarrow> 'e + 'b) \<Rightarrow> 'e + 'b" where
  "bindE m f = (case m of Inl e \<Rightarrow> Inl e | Inr x \<Rightarrow> f x)"

lemma bindE_Inl [simp]: "bindE (Inl e) f = Inl e"
  by (simp add: bindE_def)

lemma bindE_Inr [simp]: "bindE (Inr x) f = f x"
  by (simp add: bindE_def)

lemma bindE_eq_Inr [res_simps]: "bindE m f = Inr y \<longleftrightarrow> (\<exists>x. m = Inr x \<and> f x = Inr y)"
  by (cases m) auto

lemma bindE_cong [fundef_cong]:
  "m = m' \<Longrightarrow> (\<And>x. m' = Inr x \<Longrightarrow> f x = f' x) \<Longrightarrow> bindE m f = bindE m' f'"
  by (cases m') auto

definition is_ok :: "'e + 'a \<Rightarrow> bool" where
  "is_ok r = (case r of Inl _ \<Rightarrow> False | Inr _ \<Rightarrow> True)"

lemma is_ok_simps [simp]: "is_ok (Inr x)" "\<not> is_ok (Inl e)"
  by (simp_all add: is_ok_def)

lemma is_ok_iff: "is_ok r \<longleftrightarrow> (\<exists>x. r = Inr x)"
  by (cases r) auto

lemma is_ok_bindE: "is_ok m \<Longrightarrow> (\<And>x. m = Inr x \<Longrightarrow> is_ok (f x)) \<Longrightarrow> is_ok (bindE m f)"
  by (cases m) auto

text \<open>\<open>no_panic\<close>: the code may return an error but does not crash.\<close>

definition no_panic :: "'a res \<Rightarrow> bool" where
  "no_panic r = (case r of Inl (Panic _) \<Rightarrow> False | _ \<Rightarrow> True)"

lemma no_panic_simps [simp]: "no_panic (Inr x)" "no_panic (Inl (Error e))" "\<not> no_panic (Inl (Panic e))"
  by (simp_all add: no_panic_def)

lemma is_ok_no_panic: "is_ok r \<Longrightarrow> no_panic r"
  by (cases r) auto

lemma no_panic_bindE:
  "no_panic m \<Longrightarrow> (\<And>x. m = Inr x \<Longrightarrow> no_panic (f x)) \<Longrightarrow> no_panic (bindE m f)"
  by (cases m) (auto simp: no_panic_def)

text \<open>Reading through a pointer that may be nil.\<close>

definition deref :: "string \<Rightarrow> 'a option \<Rightarrow> 'a res" where
  "deref what p = (case p of None \<Rightarrow> Inl (Panic what) | Some x \<Rightarrow> Inr x)"

lemma deref_simps [simp]: "deref w (Some x) = Inr x" "deref w None = Inl (Panic w)"
  by (simp_all add: deref_def)

lemma deref_eq_Inr [res_simps]: "deref w p = Inr x \<longleftrightarrow> p = Some x"
  by (cases p) auto

section \<open>Loops whose body may fail\<close>

fun mapE :: "('a \<Rightarrow> 'e + 'b) \<Rightarrow> 'a list \<Rightarrow> 'e + 'b list" where
  "mapE f [] = Inr []"
| "mapE f (x # xs) = bindE (f x) (\<lambda>y. bindE (mapE f xs) (\<lambda>ys. Inr (y # ys)))"

fun filterE :: "('a \<Rightarrow> 'e + bool) \<Rightarrow> 'a list \<Rightarrow> 'e + 'a list" where
  "filterE f [] = Inr []"
| "filterE f (x # xs) =
     bindE (f x) (\<lambda>b. bindE (filterE f xs) (\<lambda>ys. Inr (if b then x # ys else ys)))"

lemma mapE_eq_Inr [res_dest]: "mapE f xs = Inr ys \<Longrightarrow> list_all2 (\<lambda>x y. f x = Inr y) xs ys"
  by (induction xs arbitrary: ys) (auto simp: res_simps)

lemma list_all2_left: "list_all2 P xs ys \<Longrightarrow> x \<in> set xs \<Longrightarrow> \<exists>y\<in>set ys. P x y"
  by (induction rule: list_all2_induct) auto

lemma list_all2_right: "list_all2 P xs ys \<Longrightarrow> y \<in> set ys \<Longrightarrow> \<exists>x\<in>set xs. P x y"
  by (induction rule: list_all2_induct) auto

lemma is_ok_mapE: "(\<And>x. x \<in> set xs \<Longrightarrow> is_ok (f x)) \<Longrightarrow> is_ok (mapE f xs)"
  by (induction xs) (auto intro!: is_ok_bindE)

lemma mapE_pure: "(\<And>x. x \<in> set xs \<Longrightarrow> f x = Inr (g x)) \<Longrightarrow> mapE f xs = Inr (map g xs)"
  by (induction xs) auto

lemma filterE_eq_Inr [res_dest]:
  "filterE f xs = Inr ys \<Longrightarrow> ys = filter (\<lambda>x. f x = Inr True) xs"
  by (induction xs arbitrary: ys) (auto simp: res_simps)

lemma filterE_total: "filterE f xs = Inr ys \<Longrightarrow> x \<in> set xs \<Longrightarrow> \<exists>b. f x = Inr b"
  by (induction xs arbitrary: ys) (auto simp: res_simps)

lemma is_ok_filterE: "(\<And>x. x \<in> set xs \<Longrightarrow> is_ok (f x)) \<Longrightarrow> is_ok (filterE f xs)"
  by (induction xs) (auto intro!: is_ok_bindE)

lemma filterE_pure: "(\<And>x. x \<in> set xs \<Longrightarrow> f x = Inr (P x)) \<Longrightarrow> filterE f xs = Inr (filter P xs)"
  by (induction xs) auto

section \<open>Slices\<close>

type_synonym 'a slice = "'a list option"

definition elems :: "'a slice \<Rightarrow> 'a list" where
  "elems s = (case s of None \<Rightarrow> [] | Some xs \<Rightarrow> xs)"

lemma elems_simps [simp]: "elems None = []" "elems (Some xs) = xs"
  by (simp_all add: elems_def)

section \<open>Maps with string keys and their iteration\<close>

definition entries :: "(string, 'v) fmap \<Rightarrow> (string \<times> 'v) list" where
  "entries m = sorted_list_of_fmap m"

definition keys_of :: "(string, 'v) fmap \<Rightarrow> string list" where
  "keys_of m = map fst (entries m)"

definition map_len :: "(string, 'v) fmap \<Rightarrow> nat" where
  "map_len m = length (entries m)"

lemma keys_of_eq: "keys_of m = sorted_list_of_fset (fmdom m)"
  by (simp add: keys_of_def entries_def sorted_list_of_fmap_def comp_def)

lemma set_keys_of [simp]: "set (keys_of m) = fmdom' m"
  by (simp add: keys_of_eq fmdom'_alt_def)

lemma distinct_keys_of [simp]: "distinct (keys_of m)"
  by (simp add: keys_of_eq sorted_list_of_fset.rep_eq)

lemma sorted_keys_of [simp]: "sorted (keys_of m)"
  by (simp add: keys_of_eq sorted_list_of_fset.rep_eq)

lemma length_keys_of [simp]: "length (keys_of m) = map_len m"
  by (simp add: keys_of_def map_len_def)

lemma map_of_entries [simp]: "map_of (entries m) = fmlookup m"
  by (simp add: entries_def)

lemma distinct_entries: "distinct (map fst (entries m))"
  using distinct_keys_of [of m] by (simp add: keys_of_def)

lemma in_entries_iff [simp]: "(k, v) \<in> set (entries m) \<longleftrightarrow> fmlookup m k = Some v"
  using map_of_eq_Some_iff [OF distinct_entries, of m k v] by simp

lemma map_len_0_iff: "map_len m = 0 \<longleftrightarrow> m = fmempty"
proof
  assume "map_len m = 0"
  then have "fmdom' m = {}"
    by (metis length_0_conv length_keys_of list.set(1) set_keys_of)
  then show "m = fmempty"
    by (intro fmap_ext) (auto simp: fmlookup_dom'_iff)
qed (auto simp: map_len_def entries_def sorted_list_of_fmap_def sorted_list_of_fset.rep_eq)

lemma card_fmdom' [simp]: "card (fmdom' m) = map_len m"
  by (metis distinct_card distinct_keys_of length_keys_of set_keys_of)

text \<open>An iteration order proposed by \<open>ord\<close>.\<close>

type_synonym iter_order = "string list \<Rightarrow> string list"

definition order_keys :: "iter_order \<Rightarrow> string list \<Rightarrow> string list" where
  "order_keys ord ks = (if mset (ord ks) = mset ks then ord ks else ks)"

definition range_by :: "iter_order \<Rightarrow> (string, 'v) fmap \<Rightarrow> (string \<times> 'v) list" where
  "range_by ord m = List.map_filter (\<lambda>k. map_option (Pair k) (fmlookup m k)) (order_keys ord (keys_of m))"

lemma mset_order_keys [simp]: "mset (order_keys ord ks) = mset ks"
  by (simp add: order_keys_def)

lemma set_order_keys [simp]: "set (order_keys ord ks) = set ks"
  by (metis mset_order_keys mset_eq_setD)

lemma distinct_order_keys [simp]: "distinct (order_keys ord ks) = distinct ks"
  by (metis mset_order_keys mset_eq_imp_distinct_iff)

lemma in_range_by_iff [simp]: "(k, v) \<in> set (range_by ord m) \<longleftrightarrow> fmlookup m k = Some v"
  by (auto simp: range_by_def List.map_filter_def fmlookup_dom'_iff intro!: image_eqI [where x = k])

lemma map_fst_range_by: "map fst (range_by ord m) = order_keys ord (keys_of m)"
proof -
  have "\<And>k. k \<in> set (order_keys ord (keys_of m)) \<Longrightarrow> \<exists>v. fmlookup m k = Some v"
    by (simp add: fmlookup_dom'_iff)
  then have "map fst (List.map_filter (\<lambda>k. map_option (Pair k) (fmlookup m k)) ks) = ks"
    if "set ks \<subseteq> set (order_keys ord (keys_of m))" for ks
    using that by (induction ks) (force simp: List.map_filter_def)+
  then show ?thesis by (simp add: range_by_def)
qed

lemma distinct_fst_range_by [simp]: "distinct (map fst (range_by ord m))"
  by (simp add: map_fst_range_by)

lemma distinct_range_by [simp]: "distinct (range_by ord m)"
  using distinct_fst_range_by [of ord m] by (simp add: distinct_map)

lemma length_range_by [simp]: "length (range_by ord m) = map_len m"
  by (metis length_map map_fst_range_by length_keys_of mset_order_keys size_mset)

text \<open>Deleting a list of keys.\<close>

definition delete_keys :: "string list \<Rightarrow> (string, 'v) fmap \<Rightarrow> (string, 'v) fmap" where
  "delete_keys ks m = fold fmdrop ks m"

lemma fmlookup_delete_keys [simp]:
  "fmlookup (delete_keys ks m) k = (if k \<in> set ks then None else fmlookup m k)"
  unfolding delete_keys_def by (induction ks arbitrary: m) auto

text \<open>A loop that rewrites every entry of a map and may fail.\<close>

definition fmmapE :: "(string \<Rightarrow> 'a \<Rightarrow> 'e + 'b) \<Rightarrow> (string, 'a) fmap \<Rightarrow> 'e + (string, 'b) fmap" where
  "fmmapE f m =
     bindE (mapE (\<lambda>(k, v). bindE (f k v) (\<lambda>w. Inr (k, w))) (entries m)) (\<lambda>es. Inr (fmap_of_list es))"

lemma list_all2_map_of:
  assumes "list_all2 (\<lambda>(k, v) e. \<exists>w. f k v = Inr w \<and> e = (k, w)) xs ys"
  shows "map_of ys k = (case map_of xs k of None \<Rightarrow> None | Some v \<Rightarrow> Some (projr (f k v)))"
  using assms by (induction rule: list_all2_induct) auto

lemma fmmapE_lookup [res_dest]:
  assumes "fmmapE f m = Inr m'"
  shows "fmlookup m' k = (case fmlookup m k of None \<Rightarrow> None | Some v \<Rightarrow> Some (projr (f k v)))"
proof -
  from assms obtain es where es: "mapE (\<lambda>(k, v). bindE (f k v) (\<lambda>w. Inr (k, w))) (entries m) = Inr es"
    and m': "m' = fmap_of_list es"
    by (auto simp: fmmapE_def res_simps)
  from mapE_eq_Inr [OF es]
  have "list_all2 (\<lambda>(k, v) e. \<exists>w. f k v = Inr w \<and> e = (k, w)) (entries m) es"
    by (rule list_all2_mono) (auto simp: res_simps)
  from list_all2_map_of [OF this, of k] show ?thesis
    by (simp add: m' fmlookup_of_list)
qed

lemma fmmapE_ok:
  assumes "fmmapE f m = Inr m'" and "fmlookup m k = Some v"
  shows "\<exists>w. f k v = Inr w \<and> fmlookup m' k = Some w"
proof -
  from assms(1) obtain es where es: "mapE (\<lambda>(k, v). bindE (f k v) (\<lambda>w. Inr (k, w))) (entries m) = Inr es"
    by (auto simp: fmmapE_def res_simps)
  have "(k, v) \<in> set (entries m)" using assms(2) by simp
  with mapE_eq_Inr [OF es] obtain e where "bindE (f k v) (\<lambda>w. Inr (k, w)) = Inr e"
    by (auto simp: list_all2_conv_all_nth in_set_conv_nth split: prod.splits)
  then obtain w where "f k v = Inr w" by (auto simp: res_simps)
  then show ?thesis using fmmapE_lookup [OF assms(1), of k] assms(2) by simp
qed

lemma fmmapE_backwards:
  assumes "fmmapE f m = Inr m'" and "fmlookup m' k = Some w"
  shows "\<exists>v. fmlookup m k = Some v \<and> f k v = Inr w"
proof -
  from fmmapE_lookup [OF assms(1), of k] assms(2) obtain v where v: "fmlookup m k = Some v"
    by (auto split: option.splits)
  from fmmapE_ok [OF assms(1) v] assms(2) v show ?thesis by auto
qed

lemma is_ok_fmmapE:
  "(\<And>k v. fmlookup m k = Some v \<Longrightarrow> is_ok (f k v)) \<Longrightarrow> is_ok (fmmapE f m)"
  unfolding fmmapE_def by (intro is_ok_bindE is_ok_mapE) (auto intro!: is_ok_bindE)

lemma fmmapE_dom: "fmmapE f m = Inr m' \<Longrightarrow> fmdom' m' = fmdom' m"
  by (fastforce simp: fmlookup_dom'_iff dest: fmmapE_ok fmmapE_backwards)

text \<open>A loop in which each iteration changes at most the entry of its own key.\<close>

lemma fold_keyed:
  assumes "distinct (map key xs)"
    and "\<And>x s w. x \<in> set xs \<Longrightarrow> look (f x s) w = (if w = key x then g x (look s w) else look s w)"
  shows "look (fold f xs s) w =
    (case find (\<lambda>x. key x = w) xs of None \<Rightarrow> look s w | Some x \<Rightarrow> g x (look s w))"
  using assms
proof (induction xs arbitrary: s)
  case (Cons x xs)
  have none: "find (\<lambda>x. key x = w) xs = None" if "key x = w"
    using Cons.prems(1) that by (auto simp: find_None_iff image_iff)
  show ?case
    using Cons.prems Cons.IH [of "f x s"] by (cases "key x = w") (auto simp: none split: option.splits)
qed simp

lemma find_entries: "find (\<lambda>x. fst x = v) (entries m) = map_option (Pair v) (fmlookup m v)"
proof (cases "fmlookup m v")
  case None
  then show ?thesis by (auto simp: find_None_iff)
next
  case (Some x)
  then have "find (\<lambda>x. fst x = v) (entries m) \<noteq> None"
    by (auto simp: find_None_iff intro!: bexI [where x = "(v, x)"])
  then obtain e where e: "find (\<lambda>x. fst x = v) (entries m) = Some e" by auto
  then have "fst e = v" "e \<in> set (entries m)"
    by (auto simp: find_Some_iff)
  with Some e show ?thesis by (cases e) auto
qed

lemma fold_entries:
  assumes "\<And>k v s w. fmlookup m k = Some v \<Longrightarrow>
      look (f (k, v) s) w = (if w = k then g k v (look s w) else look s w)"
  shows "look (fold f (entries m) s) w =
    (case fmlookup m w of None \<Rightarrow> look s w | Some v \<Rightarrow> g w v (look s w))"
proof -
  have "look (f x s) w = (if w = fst x then g (fst x) (snd x) (look s w) else look s w)"
    if "x \<in> set (entries m)" for x s w
    using assms [of "fst x" "snd x"] that by (metis in_entries_iff prod.collapse)
  from fold_keyed [OF distinct_entries [of m], of look f "\<lambda>x. g (fst x) (snd x)" s w, OF this]
  show ?thesis by (simp add: find_entries split: option.splits)
qed

section \<open>Go string helpers\<close>

fun has_prefix :: "string \<Rightarrow> string \<Rightarrow> bool" where
  "has_prefix s [] = True"
| "has_prefix [] (p # ps) = False"
| "has_prefix (c # s) (p # ps) = (c = p \<and> has_prefix s ps)"

lemma has_prefix_iff: "has_prefix s p \<longleftrightarrow> (\<exists>t. s = p @ t)"
  by (induction s p rule: has_prefix.induct) auto

section \<open>Words\<close>

lemma one_le_word: "1 \<le> w \<longleftrightarrow> w \<noteq> (0 :: 'a::len word)"
  by (metis not_less word_less_1)

end
