(* ===== verification/Util.thy ===== *)
theory Util
  imports Prelude
begin

text \<open>
  \<^verbatim>\<open>internal/util/slice.go\<close> and the name helpers of \<^verbatim>\<open>internal/common/common.go\<close>.
  The loops of \<^verbatim>\<open>slice.go\<close> are recursive functions over the slice's elements. The locale
  \<open>slice_ops\<close> is the contract the sentinel relies on when it computes with sets of standby
  uids kept in slices; it is interpreted on \<open>StringInSlice\<close>, \<open>CommonElements\<close>,
  \<open>Difference\<close> and \<open>CompareStringSliceNoOrder\<close>.
\<close>

section \<open>Slices of strings\<close>

fun StringInSlice :: "string list \<Rightarrow> string \<Rightarrow> bool" where
  "StringInSlice [] e = False"
| "StringInSlice (v # s) e = (if v = e then True else StringInSlice s e)"

fun compareLoop :: "string list \<Rightarrow> string list \<Rightarrow> bool" where
  "compareLoop [] b = True"
| "compareLoop (v # a) [] = False"
| "compareLoop (v # a) (w # b) = (if v \<noteq> w then False else compareLoop a b)"

definition CompareStringSlice :: "string list \<Rightarrow> string list \<Rightarrow> bool" where
  "CompareStringSlice a b = (if length a \<noteq> length b then False else compareLoop a b)"

definition CompareStringSliceNoOrder :: "string list \<Rightarrow> string list \<Rightarrow> bool" where
  "CompareStringSliceNoOrder a b =
     (if length a \<noteq> length b then False else compareLoop (sort a) (sort b))"

fun CommonElements :: "string list \<Rightarrow> string list \<Rightarrow> string list" where
  "CommonElements [] b = []"
| "CommonElements (v # a) b =
     (if StringInSlice b v then v # CommonElements a b else CommonElements a b)"

fun Difference :: "string list \<Rightarrow> string list \<Rightarrow> string list" where
  "Difference [] b = []"
| "Difference (v # a) b =
     (if \<not> StringInSlice b v then v # Difference a b else Difference a b)"

lemma StringInSlice_iff [simp]: "StringInSlice s e \<longleftrightarrow> e \<in> set s"
  by (induction s) auto

lemma CommonElements_filter: "CommonElements a b = filter (\<lambda>v. v \<in> set b) a"
  by (induction a) auto

lemma Difference_filter: "Difference a b = filter (\<lambda>v. v \<notin> set b) a"
  by (induction a) auto

lemma compareLoop_iff: "length a = length b \<Longrightarrow> compareLoop a b \<longleftrightarrow> a = b"
  by (induction a b rule: compareLoop.induct) auto

lemma CompareStringSlice_iff: "CompareStringSlice a b \<longleftrightarrow> a = b"
  by (auto simp: CompareStringSlice_def compareLoop_iff)

lemma NoOrder_mset: "CompareStringSliceNoOrder a b \<longleftrightarrow> mset a = mset b"
proof -
  have "sort a = sort b \<longleftrightarrow> mset a = mset b"
    by (metis mset_sort properties_for_sort sorted_sort)
  moreover have "mset a = mset b \<Longrightarrow> length a = length b"
    by (metis size_mset)
  ultimately show ?thesis
    by (auto simp: CompareStringSliceNoOrder_def compareLoop_iff)
qed

section \<open>The contract of the slice operations\<close>

locale slice_ops =
  fixes memb :: "string list \<Rightarrow> string \<Rightarrow> bool"
    and common :: "string list \<Rightarrow> string list \<Rightarrow> string list"
    and diff :: "string list \<Rightarrow> string list \<Rightarrow> string list"
    and same :: "string list \<Rightarrow> string list \<Rightarrow> bool"
  assumes memb_set: "memb s e \<longleftrightarrow> e \<in> set s"
    and set_common: "set (common a b) = set a \<inter> set b"
    and set_diff: "set (diff a b) = set a - set b"
    and distinct_common: "distinct a \<Longrightarrow> distinct (common a b)"
    and distinct_diff: "distinct a \<Longrightarrow> distinct (diff a b)"
    and same_mset: "same a b \<longleftrightarrow> mset a = mset b"
begin

lemma common_subset_right: "set (common a b) \<subseteq> set b"
  by (simp add: set_common)

lemma common_empty_iff: "common a b = [] \<longleftrightarrow> set a \<inter> set b = {}"
  by (metis set_common set_empty)

lemma common_diff_partition:
  "set (common a b) \<union> set (diff a b) = set a \<and> set (common a b) \<inter> set (diff a b) = {}"
  by (auto simp: set_common set_diff)

text \<open>
  The sentinel's refresh of the known in-sync standbys: from the known ones keep those still
  required, then add the required ones the master reports now.
\<close>

lemma refresh_set:
  "set (common known req @ diff (common cur req) (common known req)) =
     (set known \<union> set cur) \<inter> set req"
  by (auto simp: set_common set_diff)

lemma refresh_distinct:
  "distinct known \<Longrightarrow> distinct cur \<Longrightarrow>
     distinct (common known req @ diff (common cur req) (common known req))"
  by (auto simp: distinct_common distinct_diff set_common set_diff)

lemma same_set: "same a b \<Longrightarrow> set a = set b"
  by (auto simp: same_mset dest: mset_eq_setD)

lemma diff_empty_same:
  assumes "distinct a" "distinct b" "set b \<subseteq> set a" "diff a b = []"
  shows "same a b"
proof -
  from assms(4) have "set a \<subseteq> set b" by (metis Diff_eq_empty_iff set_diff list.set(1))
  with assms have "set a = set b" by blast
  with assms(1,2) show ?thesis by (simp add: same_mset set_eq_iff_mset_eq_distinct)
qed

end

interpretation uids: slice_ops StringInSlice CommonElements Difference CompareStringSliceNoOrder
  by unfold_locales
    (auto simp: CommonElements_filter Difference_filter NoOrder_mset)

section \<open>Names of stolon objects inside postgres\<close>

definition stolonPrefix :: string where
  "stolonPrefix = ''stolon_''"

definition StolonName :: "string \<Rightarrow> string" where
  "StolonName name = stolonPrefix @ name"

definition NameFromStolonName :: "string \<Rightarrow> string" where
  "NameFromStolonName s = (if has_prefix s stolonPrefix then drop (length stolonPrefix) s else s)"

definition IsStolonName :: "string \<Rightarrow> bool" where
  "IsStolonName name = has_prefix name stolonPrefix"

text \<open>
  Naming a database for postgres and reading the name back is the identity, the name is
  recognised as a stolon name, and a recognised name is always the stolon name of what
  \<^verbatim>\<open>NameFromStolonName\<close> returns.
\<close>

theorem StolonName_roundtrip:
  "NameFromStolonName (StolonName n) = n \<and> IsStolonName (StolonName n) \<and>
   (IsStolonName s \<longleftrightarrow> StolonName (NameFromStolonName s) = s)"
  by (auto simp: NameFromStolonName_def StolonName_def IsStolonName_def has_prefix_iff)

text \<open>
  \<^verbatim>\<open>CompareStringSliceNoOrder\<close> holds exactly when the two slices have the same elements
  with the same multiplicities, and \<^verbatim>\<open>CompareStringSlice\<close> exactly when they are equal.
\<close>

theorem compare_slices_correct:
  "CompareStringSliceNoOrder a b = (mset a = mset b) \<and> CompareStringSlice a b = (a = b)"
  by (simp add: NoOrder_mset CompareStringSlice_iff)

end
