(* ===== verification/Postgres.thy ===== *)
theory Postgres
  imports Util
begin

text \<open>
  The pure part of \<^verbatim>\<open>internal/postgresql/utils.go\<close>: WAL segment names, log sequence numbers,
  versions and replication slot names. Positions in the log are \<open>64 word\<close> and the parts of a
  WAL file name \<open>32 word\<close>, as in the code. The functions that talk to a postgres server over
  SQL are not modelled.
\<close>

type_synonym uint16 = "16 word"
type_synonym uint32 = "32 word"
type_synonym uint64 = "64 word"

section \<open>Replication slot names\<close>

definition slot_char :: "char \<Rightarrow> bool" where
  "slot_char c = (c \<in> set ''abcdefghijklmnopqrstuvwxyz0123456789_'')"

definition IsValidReplSlotName :: "string \<Rightarrow> bool" where
  "IsValidReplSlotName name = (name \<noteq> [] \<and> list_all slot_char name)"

section \<open>WAL file names\<close>

definition WalSegSize :: uint32 where
  "WalSegSize = 16 * 1024 * 1024"

definition hex_digit :: "nat \<Rightarrow> char" where
  "hex_digit d = char_of (if d < 10 then 48 + d else 55 + d)"

text \<open>The last \<open>n\<close> upper case hexadecimal digits of a number: \<^verbatim>\<open>%0nX\<close> on a number that has at
  most \<open>n\<close> digits.\<close>

fun hexn :: "nat \<Rightarrow> nat \<Rightarrow> string" where
  "hexn 0 x = []"
| "hexn (Suc n) x = hex_digit (x div 16 ^ n mod 16) # hexn n x"

definition IsWalFileName :: "string \<Rightarrow> bool" where
  "IsWalFileName name =
     (length name = 24 \<and> list_all (\<lambda>c. c \<in> set ''0123456789ABCDEF'') name)"

definition XlogPosToWalFileNameNoTimeline :: "uint64 \<Rightarrow> string" where
  "XlogPosToWalFileNameNoTimeline XLogPos =
     (let id = ucast (drop_bit 32 XLogPos) :: uint32;
          offset = ucast XLogPos :: uint32;
          seg = offset div WalSegSize
      in hexn 8 (unat id) @ hexn 8 (unat seg))"

definition WalFileNameNoTimeLine :: "string \<Rightarrow> string res" where
  "WalFileNameNoTimeLine name =
     (if \<not> IsWalFileName name then Inl (Error ''bad wal file name'')
      else Inr (take 16 (drop 8 name)))"

lemma length_hexn [simp]: "length (hexn n x) = n"
  by (induction n) auto

lemma hex_digit_less: "a < 16 \<Longrightarrow> b < 16 \<Longrightarrow> hex_digit a < hex_digit b \<longleftrightarrow> a < b"
  by (auto simp: hex_digit_def less_char_def)

lemma hex_digit_eq: "a < 16 \<Longrightarrow> b < 16 \<Longrightarrow> hex_digit a = hex_digit b \<longleftrightarrow> a = b"
  by (metis hex_digit_less nat_neq_iff order_less_irrefl)

lemma hex_digit_wal: "d < 16 \<Longrightarrow> hex_digit d \<in> set ''0123456789ABCDEF''"
proof -
  assume "d < 16"
  then have "d \<in> set [0..<16]" by simp
  moreover have "list_all (\<lambda>d. hex_digit d \<in> set ''0123456789ABCDEF'') [0..<16]"
    by code_simp
  ultimately show ?thesis unfolding list_all_iff by blast
qed

lemma hexn_wal: "list_all (\<lambda>c. c \<in> set ''0123456789ABCDEF'') (hexn n x)"
  using hex_digit_wal by (induction n) simp_all

lemma mod_power_Suc:
  "(x::nat) mod 16 ^ Suc n = 16 ^ n * (x div 16 ^ n mod 16) + x mod 16 ^ n"
  using mod_mult2_eq [of x "16 ^ n" 16] by (simp add: mult.commute)

lemma digit_le:
  assumes "(r::nat) < m" "s < m"
  shows "m * a + r \<le> m * b + s \<longleftrightarrow> a < b \<or> a = b \<and> r \<le> s"
proof (cases a b rule: linorder_cases)
  case less
  then have "m * Suc a \<le> m * b" by (intro mult_le_mono2) simp
  then show ?thesis using assms less by simp
next
  case greater
  then have "m * Suc b \<le> m * a" by (intro mult_le_mono2) simp
  then show ?thesis using assms greater by simp
qed simp

lemma hexn_le: "hexn n x \<le> hexn n y \<longleftrightarrow> x mod 16 ^ n \<le> y mod 16 ^ n"
proof (induction n)
  case (Suc n)
  have "hexn (Suc n) x \<le> hexn (Suc n) y \<longleftrightarrow>
    x div 16 ^ n mod 16 < y div 16 ^ n mod 16 \<or>
    x div 16 ^ n mod 16 = y div 16 ^ n mod 16 \<and> x mod 16 ^ n \<le> y mod 16 ^ n"
    by (simp add: hex_digit_less hex_digit_eq Suc)
  also have "\<dots> \<longleftrightarrow> x mod 16 ^ Suc n \<le> y mod 16 ^ Suc n"
    unfolding mod_power_Suc by (subst digit_le) simp_all
  finally show ?case .
qed simp

lemma hexn_eq: "hexn n x = hexn n y \<longleftrightarrow> x mod 16 ^ n = y mod 16 ^ n"
  by (metis hexn_le order_antisym order_refl)

lemma append_le_append:
  "length (a::string) = length b \<Longrightarrow> a @ c \<le> b @ d \<longleftrightarrow> a < b \<or> a = b \<and> c \<le> d"
  by (induction a b rule: list_induct2) auto

lemma uint64_bound: "unat (p :: uint64) < 2 ^ 64"
  using unsigned_less [of p, where ?'a = nat] by simp

lemma unat_xlog_id: "unat (ucast (drop_bit 32 (p::uint64)) :: uint32) = unat p div 2 ^ 32"
proof -
  have "unat p div 2 ^ 32 < 2 ^ 32"
    using uint64_bound [of p] by (simp add: less_mult_imp_div_less)
  then show ?thesis
    by (simp add: unsigned_ucast_eq drop_bit_eq_div take_bit_eq_mod unat_div_distrib)
qed

lemma unat_xlog_seg:
  "unat ((ucast (p::uint64) :: uint32) div WalSegSize) = unat p mod 2 ^ 32 div 2 ^ 24"
  by (simp add: unat_div_distrib unsigned_ucast_eq take_bit_eq_mod WalSegSize_def)

lemma wal_segment_split:
  "(n::nat) div 2 ^ 24 = 256 * (n div 2 ^ 32) + n mod 2 ^ 32 div 2 ^ 24"
proof -
  have "n = 2 ^ 32 * (n div 2 ^ 32) + n mod 2 ^ 32" by simp
  also have "\<dots> = 2 ^ 24 * (256 * (n div 2 ^ 32)) + n mod 2 ^ 32" by simp
  finally have "n div 2 ^ 24 = (2 ^ 24 * (256 * (n div 2 ^ 32)) + n mod 2 ^ 32) div 2 ^ 24"
    by (rule arg_cong)
  also have "\<dots> = 256 * (n div 2 ^ 32) + n mod 2 ^ 32 div 2 ^ 24"
    by (subst div_mult_self4) simp_all
  finally show ?thesis .
qed

text \<open>
  The comparison the sentinel makes between WAL file names, ignoring the timeline, is the
  comparison of the 16MiB segments the two positions lie in: the string order of the names agrees
  with the order of the segment numbers.
\<close>

theorem wal_name_order:
  "XlogPosToWalFileNameNoTimeline p \<le> XlogPosToWalFileNameNoTimeline q \<longleftrightarrow>
     unat p div 2 ^ 24 \<le> unat q div 2 ^ 24"
proof -
  let ?i = "\<lambda>p::uint64. unat p div 2 ^ 32"
  let ?s = "\<lambda>p::uint64. unat p mod 2 ^ 32 div 2 ^ 24"
  have i: "?i p < 16 ^ 8" for p :: uint64
    using uint64_bound [of p] by (simp add: less_mult_imp_div_less)
  have s: "?s p < 256" for p :: uint64
    by (simp add: less_mult_imp_div_less)
  have "XlogPosToWalFileNameNoTimeline p \<le> XlogPosToWalFileNameNoTimeline q \<longleftrightarrow>
     ?i p < ?i q \<or> ?i p = ?i q \<and> ?s p \<le> ?s q"
    using i [of p] i [of q] s [of p] s [of q]
    by (auto simp: XlogPosToWalFileNameNoTimeline_def Let_def unat_xlog_id unat_xlog_seg
        append_le_append less_le hexn_le hexn_eq)
  also have "\<dots> \<longleftrightarrow> 256 * ?i p + ?s p \<le> 256 * ?i q + ?s q"
    by (rule digit_le [OF s s, symmetric])
  finally show ?thesis using wal_segment_split [of "unat p"] wal_segment_split [of "unat q"] by simp
qed

text \<open>
  A WAL name built from a position, prefixed with an eight digit timeline, is a well-formed WAL
  file name, and cutting the timeline off gives the built name back.
\<close>

theorem wal_name_roundtrip:
  "WalFileNameNoTimeLine (hexn 8 tli @ XlogPosToWalFileNameNoTimeline p) =
     Inr (XlogPosToWalFileNameNoTimeline p)"
  by (simp add: WalFileNameNoTimeLine_def IsWalFileName_def XlogPosToWalFileNameNoTimeline_def
      Let_def hexn_wal del: list.set)

end
