(* ===== verification/Pgutils.thy ===== *)
theory Pgutils
  imports Postgres
begin

text \<open>
  The parsers of \<^verbatim>\<open>internal/postgresql/utils.go\<close>: log sequence numbers, timeline history files, versions and
  the expansion of the data restore command, with what they use of \<^verbatim>\<open>strings\<close>,
  \<^verbatim>\<open>strconv\<close> and the regular expressions. Numbers are read as naturals and then bounded by the width, as
  \<^verbatim>\<open>strconv\<close> does.
\<close>

section \<open>Standard library\<close>

text \<open>
  \<^verbatim>\<open>strings.Split\<close> with a separator of one character; \<open>acc\<close> is the current part, reversed.
\<close>

fun splitAcc :: "char \<Rightarrow> string \<Rightarrow> string \<Rightarrow> string list" where
  "splitAcc sep acc [] = [rev acc]"
| "splitAcc sep acc (c # s) = (if c = sep then rev acc # splitAcc sep [] s else splitAcc sep (c # acc) s)"

definition Split :: "string \<Rightarrow> char \<Rightarrow> string list" where
  "Split s sep = splitAcc sep [] s"

definition digit_val :: "char \<Rightarrow> nat option" where
  "digit_val c =
     (let n = of_char c :: nat
      in if 48 \<le> n \<and> n \<le> 57 then Some (n - 48)
         else if 97 \<le> n \<and> n \<le> 122 then Some (n - 97 + 10)
         else if 65 \<le> n \<and> n \<le> 90 then Some (n - 65 + 10)
         else None)"

fun parse_digits :: "nat \<Rightarrow> nat \<Rightarrow> string \<Rightarrow> nat option" where
  "parse_digits base acc [] = Some acc"
| "parse_digits base acc (c # s) =
     (case digit_val c of
        None \<Rightarrow> None
      | Some d \<Rightarrow> if d < base then parse_digits base (acc * base + d) s else None)"

definition ParseUint :: "string \<Rightarrow> nat \<Rightarrow> nat \<Rightarrow> nat res" where
  "ParseUint s base bitSize =
     (if s = '''' then Inl (Error ''invalid syntax'')
      else case parse_digits base 0 s of
             None \<Rightarrow> Inl (Error ''invalid syntax'')
           | Some n \<Rightarrow> if n < 2 ^ bitSize then Inr n else Inl (Error ''value out of range''))"

definition Atoi :: "string \<Rightarrow> int res" where
  "Atoi s =
     (let neg = (s \<noteq> '''' \<and> hd s = CHR ''-'');
          digits = (if s \<noteq> '''' \<and> (hd s = CHR ''-'' \<or> hd s = CHR ''+'') then tl s else s)
      in bindE (ParseUint digits 10 64) (\<lambda>n.
           if neg then (if n \<le> 2 ^ 63 then Inr (- int n) else Inl (Error ''value out of range''))
           else if n < 2 ^ 63 then Inr (int n) else Inl (Error ''value out of range'')))"

section \<open>Log sequence numbers\<close>

definition PGLsnToInt :: "string \<Rightarrow> uint64 res" where
  "PGLsnToInt lsn =
     (case Split lsn (CHR ''/'') of
        [p0, p1] \<Rightarrow>
          bindE (ParseUint p0 16 32) (\<lambda>a.
          bindE (ParseUint p1 16 32) (\<lambda>b.
            Inr (or (push_bit 32 (of_nat a)) (of_nat b))))
      | _ \<Rightarrow> Inl (Error (''bad pg_lsn: '' @ lsn)))"

section \<open>Timeline history files\<close>

record TimelineHistory =
  th_TimelineID :: uint64
  th_SwitchPoint :: uint64
  th_Reason :: string

text \<open>White space as the regular expressions have it.\<close>

definition re_space :: "char \<Rightarrow> bool" where
  "re_space c \<longleftrightarrow> c \<in> {CHR 0x09, CHR 0x0A, CHR 0x0C, CHR 0x0D, CHR 0x20}"

text \<open>
  The match of \<^verbatim>\<open>(\S+)\s+(\S+)\s+(.*)$\<close> on a line: the leftmost match starts at the first word, and the repetitions
  take all they can.
\<close>

definition historyMatch :: "string \<Rightarrow> (string \<times> string \<times> string) option" where
  "historyMatch l =
     (let s0 = dropWhile re_space l;
          m1 = takeWhile (\<lambda>c. \<not> re_space c) s0; s1 = dropWhile (\<lambda>c. \<not> re_space c) s0;
          s2 = dropWhile re_space s1;
          m2 = takeWhile (\<lambda>c. \<not> re_space c) s2; s3 = dropWhile (\<lambda>c. \<not> re_space c) s2
      in if m1 = '''' \<or> s1 = '''' \<or> m2 = '''' \<or> s3 = '''' then None
         else Some (m1, m2, dropWhile re_space s3))"

text \<open>\<^verbatim>\<open>bufio.ScanLines\<close>: no empty last line, and a trailing carriage return is dropped.\<close>

definition dropCR :: "string \<Rightarrow> string" where
  "dropCR l = (if l \<noteq> '''' \<and> last l = CHR 0x0D then butlast l else l)"

definition ScanLines :: "string \<Rightarrow> string list" where
  "ScanLines s =
     (let ls = Split s (CHR 0x0A)
      in map dropCR (if last ls = '''' then butlast ls else ls))"

fun parseHistoryLines :: "string list \<Rightarrow> TimelineHistory list res" where
  "parseHistoryLines [] = Inr []"
| "parseHistoryLines (l # ls) =
     (case historyMatch l of
        None \<Rightarrow> parseHistoryLines ls
      | Some (m1, m2, m3) \<Rightarrow>
          bindE (ParseUint m1 10 64) (\<lambda>t.
          bindE (PGLsnToInt m2) (\<lambda>p.
          bindE (parseHistoryLines ls) (\<lambda>tlsh.
            Inr (\<lparr>th_TimelineID = of_nat t, th_SwitchPoint = p, th_Reason = m3\<rparr> # tlsh)))))"

definition parseTimelinesHistory :: "string \<Rightarrow> TimelineHistory list res" where
  "parseTimelinesHistory contents = parseHistoryLines (ScanLines contents)"

section \<open>Versions\<close>

definition ParseVersion :: "string \<Rightarrow> (int \<times> int) res" where
  "ParseVersion v =
     (case Split v (CHR ''.'') of
        [] \<Rightarrow> Inl (Error ''bad version'')
      | [p0] \<Rightarrow> bindE (Atoi p0) (\<lambda>maj. Inr (maj, 0))
      | p0 # p1 # _ \<Rightarrow> bindE (Atoi p0) (\<lambda>maj. bindE (Atoi p1) (\<lambda>min. Inr (maj, min))))"

text \<open>
  The group of \<^verbatim>\<open>.* \(PostgreSQL\) ([0-9\.]+).*\<close>: in the first line that has it, what follows the last occurrence of
  the product name that is followed by a digit or a dot.
\<close>

definition version_char :: "char \<Rightarrow> bool" where
  "version_char c \<longleftrightarrow> c \<in> set ''0123456789.''"

fun versionInLine :: "string \<Rightarrow> string option" where
  "versionInLine [] = None"
| "versionInLine (c # s) =
     (case versionInLine s of
        Some v \<Rightarrow> Some v
      | None \<Rightarrow>
          (let p = '' (PostgreSQL) ''; l = c # s
           in if take (length p) l = p \<and> takeWhile version_char (drop (length p) l) \<noteq> ''''
              then Some (takeWhile version_char (drop (length p) l)) else None))"

definition ParseBinaryVersion :: "string \<Rightarrow> (int \<times> int) res" where
  "ParseBinaryVersion v =
     (case List.map_filter versionInLine (Split v (CHR 0x0A)) of
        [] \<Rightarrow> Inl (Error ''failed to parse postgres binary version'')
      | m # _ \<Rightarrow> ParseVersion m)"

section \<open>The data restore command\<close>

fun expand :: "string \<Rightarrow> string \<Rightarrow> string" where
  "expand dataDir (c # d # s) =
     (if c = CHR ''%'' \<and> d = CHR ''d'' then dataDir @ expand dataDir s
      else if c = CHR ''%'' \<and> d = CHR ''%'' then CHR ''%'' # expand dataDir s
      else c # expand dataDir (d # s))"
| "expand dataDir s = s"

section \<open>Printing\<close>

text \<open>\<^verbatim>\<open>%d\<close> and \<^verbatim>\<open>%X\<close>.\<close>

fun print_nat :: "nat \<Rightarrow> nat \<Rightarrow> string" where
  "print_nat b n = (if b < 2 \<or> n < b then [hex_digit n] else print_nat b (n div b) @ [hex_digit (n mod b)])"

declare print_nat.simps [simp del]

text \<open>How postgres prints a position and a line of a history file.\<close>

definition lsn_text :: "uint64 \<Rightarrow> string" where
  "lsn_text p = print_nat 16 (unat p div 2 ^ 32) @ ''/'' @ print_nat 16 (unat p mod 2 ^ 32)"

definition history_line :: "TimelineHistory \<Rightarrow> string" where
  "history_line h = print_nat 10 (unat (th_TimelineID h)) @ [CHR 0x09] @ lsn_text (th_SwitchPoint h) @ [CHR 0x09] @ th_Reason h"

lemma digit_val_hex: "d < 16 \<Longrightarrow> digit_val (hex_digit d) = Some d"
  by (auto simp: digit_val_def hex_digit_def Let_def)

lemma parse_digits_append:
  "parse_digits base acc (s @ t) = Option.bind (parse_digits base acc s) (\<lambda>a. parse_digits base a t)"
  by (induction s arbitrary: acc) (auto split: option.split)

lemma parse_print: "2 \<le> b \<Longrightarrow> b \<le> 16 \<Longrightarrow> parse_digits b 0 (print_nat b n) = Some n"
proof (induction b n rule: print_nat.induct)
  case (1 b n)
  show ?case
  proof (cases "n < b")
    case True
    then show ?thesis using 1(2,3) by (simp add: print_nat.simps [of b n] digit_val_hex)
  next
    case False
    have "n mod b < b" using 1(2) by simp
    then have "n mod b < 16" using 1(3) by linarith
    moreover have "parse_digits b 0 (print_nat b (n div b)) = Some (n div b)" using 1 False by simp
    ultimately show ?thesis using False 1(2) \<open>n mod b < b\<close>
      by (simp add: print_nat.simps [of b n] parse_digits_append digit_val_hex div_mult_mod_eq)
  qed
qed

lemma print_nat_nonempty: "print_nat b n \<noteq> []"
  by (subst print_nat.simps) simp

definition hex_chars :: string where "hex_chars = ''0123456789ABCDEF''"

lemma print_nat_chars: "2 \<le> b \<Longrightarrow> b \<le> 16 \<Longrightarrow> set (print_nat b n) \<subseteq> set hex_chars"
proof (induction b n rule: print_nat.induct)
  case (1 b n)
  have "n mod b < b" using 1(2) by simp
  then have "n mod b < 16" using 1(3) by linarith
  then show ?case
    using 1 hex_digit_wal [of n] hex_digit_wal [of "n mod b"] unfolding hex_chars_def [symmetric] by (subst print_nat.simps) auto
qed

lemma ParseUint_print: "2 \<le> b \<Longrightarrow> b \<le> 16 \<Longrightarrow> n < 2 ^ bits \<Longrightarrow> ParseUint (print_nat b n) b bits = Inr n"
  by (simp add: ParseUint_def print_nat_nonempty parse_print)

lemma splitAcc_none: "sep \<notin> set s \<Longrightarrow> splitAcc sep acc s = [rev acc @ s]"
  by (induction s arbitrary: acc) auto

lemma splitAcc_append: "sep \<notin> set a \<Longrightarrow> splitAcc sep acc (a @ sep # t) = (rev acc @ a) # splitAcc sep [] t"
  by (induction a arbitrary: acc) auto

lemma unat64: "unat (p :: uint64) < 2 ^ 64"
  using unsigned_less [of p] by simp

lemma word_halves: "or (push_bit 32 (of_nat (unat p div 2 ^ 32))) (of_nat (unat p mod 2 ^ 32)) = (p :: uint64)"
proof -
  have p: "p = or (push_bit 32 (drop_bit 32 p)) (take_bit 32 p)"
    by (rule bit_word_eqI) (auto simp: bit_simps)
  have "of_nat (unat p div 2 ^ 32) = (of_nat (drop_bit 32 (unat p)) :: uint64)" by (simp add: drop_bit_eq_div)
  also have "\<dots> = drop_bit 32 p" by (rule bit_word_eqI) (auto simp: bit_simps)
  finally have d: "of_nat (unat p div 2 ^ 32) = drop_bit 32 p" .
  have "of_nat (unat p mod 2 ^ 32) = (of_nat (take_bit 32 (unat p)) :: uint64)" by (simp add: take_bit_eq_mod)
  also have "\<dots> = take_bit 32 p" by (rule bit_word_eqI) (auto simp: bit_simps)
  finally show ?thesis using d p by simp
qed

lemma hex_chars_not: "c \<in> set hex_chars \<Longrightarrow> \<not> re_space c \<and> c \<noteq> CHR ''/'' \<and> c \<noteq> CHR 0x0A"
proof -
  have "list_all (\<lambda>c. \<not> re_space c \<and> c \<noteq> CHR ''/'' \<and> c \<noteq> CHR 0x0A) hex_chars" by code_simp
  then show "c \<in> set hex_chars \<Longrightarrow> ?thesis" unfolding list_all_iff by blast
qed

lemma number_chars: "2 \<le> b \<Longrightarrow> b \<le> 16 \<Longrightarrow> c \<in> set (print_nat b n) \<Longrightarrow> \<not> re_space c \<and> c \<noteq> CHR ''/'' \<and> c \<noteq> CHR 0x0A"
  using print_nat_chars [of b n] hex_chars_not by blast

lemma lsn_roundtrip: "PGLsnToInt (lsn_text p) = Inr p"
proof -
  have s: "CHR ''/'' \<notin> set (print_nat 16 n)" for n using number_chars [of 16 "CHR ''/''" n] by auto
  have "unat p div 2 ^ 32 < 2 ^ 32" using unat64 [of p] by (simp add: less_mult_imp_div_less)
  then have "ParseUint (print_nat 16 (unat p div 2 ^ 32)) 16 32 = Inr (unat p div 2 ^ 32)"
    "ParseUint (print_nat 16 (unat p mod 2 ^ 32)) 16 32 = Inr (unat p mod 2 ^ 32)"
    using ParseUint_print [of 16 _ 32] by simp_all
  then show ?thesis
    using word_halves [of p] by (simp add: PGLsnToInt_def lsn_text_def Split_def splitAcc_append [OF s] splitAcc_none [OF s])
qed

lemma takeWhile_stop: "\<forall>c\<in>set a. P c \<Longrightarrow> \<not> P x \<Longrightarrow> takeWhile P (a @ x # t) = a \<and> dropWhile P (a @ x # t) = x # t"
  by (induction a) auto

lemma lsn_chars: "c \<in> set (lsn_text p) \<Longrightarrow> \<not> re_space c \<and> c \<noteq> CHR 0x0A"
  using number_chars [of 16 c] by (auto simp: lsn_text_def re_space_def)

definition plain_reason :: "string \<Rightarrow> bool" where
  "plain_reason r \<longleftrightarrow> CHR 0x0A \<notin> set r \<and> (r \<noteq> '''' \<longrightarrow> \<not> re_space (hd r) \<and> last r \<noteq> CHR 0x0D)"

lemma historyMatch_line:
  assumes "plain_reason (th_Reason h)"
  shows "historyMatch (history_line h) = Some (print_nat 10 (unat (th_TimelineID h)), lsn_text (th_SwitchPoint h), th_Reason h)"
proof -
  let ?t = "print_nat 10 (unat (th_TimelineID h))" and ?p = "lsn_text (th_SwitchPoint h)" and ?r = "th_Reason h"
  have tab: "re_space (CHR 0x09)" by (simp add: re_space_def)
  have t: "\<forall>c\<in>set ?t. \<not> re_space c"
    using number_chars [of 10] by simp
  have p: "\<forall>c\<in>set ?p. \<not> re_space c" using lsn_chars by blast
  have tn: "?t \<noteq> []" and pn: "?p \<noteq> []" by (simp_all add: print_nat_nonempty lsn_text_def)
  have d0: "dropWhile re_space (?t @ CHR 0x09 # ?p @ CHR 0x09 # ?r) = ?t @ CHR 0x09 # ?p @ CHR 0x09 # ?r"
    using t tn by (cases ?t) auto
  have d1: "dropWhile re_space (CHR 0x09 # ?p @ CHR 0x09 # ?r) = ?p @ CHR 0x09 # ?r"
    using p pn tab by (cases ?p) auto
  have d2: "dropWhile re_space (CHR 0x09 # ?r) = ?r"
    using assms tab by (cases ?r) (auto simp: plain_reason_def)
  have w1: "takeWhile (\<lambda>c. \<not> re_space c) (?t @ CHR 0x09 # ?p @ CHR 0x09 # ?r) = ?t \<and>
      dropWhile (\<lambda>c. \<not> re_space c) (?t @ CHR 0x09 # ?p @ CHR 0x09 # ?r) = CHR 0x09 # ?p @ CHR 0x09 # ?r"
    using takeWhile_stop [of ?t "\<lambda>c. \<not> re_space c" "CHR 0x09"] t tab by blast
  have w2: "takeWhile (\<lambda>c. \<not> re_space c) (?p @ CHR 0x09 # ?r) = ?p \<and>
      dropWhile (\<lambda>c. \<not> re_space c) (?p @ CHR 0x09 # ?r) = CHR 0x09 # ?r"
    using takeWhile_stop [of ?p "\<lambda>c. \<not> re_space c" "CHR 0x09"] p tab by blast
  have l: "history_line h = ?t @ CHR 0x09 # ?p @ CHR 0x09 # ?r" by (simp add: history_line_def)
  show ?thesis
    unfolding historyMatch_def Let_def l by (simp only: d0 w1 [THEN conjunct1] w1 [THEN conjunct2] d1 w2 [THEN conjunct1] w2 [THEN conjunct2] d2)
      (use tn pn in simp)
qed

lemma history_line_newline: "plain_reason (th_Reason h) \<Longrightarrow> CHR 0x0A \<notin> set (history_line h)"
  using number_chars [of 10 "CHR 0x0A"] lsn_chars [of "CHR 0x0A"]
  by (auto simp: history_line_def plain_reason_def)

lemma history_line_CR: "plain_reason (th_Reason h) \<Longrightarrow> dropCR (history_line h) = history_line h"
  by (cases "th_Reason h = []") (auto simp: history_line_def plain_reason_def dropCR_def)

lemma split_lines:
  "\<forall>l\<in>set ls. CHR 0x0A \<notin> set l \<Longrightarrow> Split (concat (map (\<lambda>l. l @ [CHR 0x0A]) ls)) (CHR 0x0A) = ls @ ['''']"
  by (induction ls) (simp_all add: Split_def splitAcc_append)

lemma parse_history_lines:
  "\<forall>h\<in>set hs. plain_reason (th_Reason h) \<Longrightarrow> parseHistoryLines (map history_line hs) = Inr hs"
proof (induction hs)
  case (Cons h hs)
  have "ParseUint (print_nat 10 (unat (th_TimelineID h))) 10 64 = Inr (unat (th_TimelineID h))"
    using unat64 [of "th_TimelineID h"] by (intro ParseUint_print) simp_all
  then show ?case using Cons by (simp add: historyMatch_line lsn_roundtrip)
qed simp

text \<open>
  Timeline history files. The parser reads back every history file as postgres writes it, for timelines and switch points of
  the full 64 bits, if the reasons are one line and do not start with white space or end with a carriage return.
\<close>

theorem history_roundtrip:
  assumes "\<forall>h\<in>set hs. plain_reason (th_Reason h)"
  shows "parseTimelinesHistory (concat (map (\<lambda>h. history_line h @ [CHR 0x0A]) hs)) = Inr hs"
proof -
  let ?ls = "map history_line hs"
  have n: "\<forall>l\<in>set ?ls. CHR 0x0A \<notin> set l" using assms history_line_newline by auto
  have "map dropCR ?ls = ?ls" using assms history_line_CR by (simp cong: map_cong)
  moreover have "concat (map (\<lambda>h. history_line h @ [CHR 0x0A]) hs) = concat (map (\<lambda>l. l @ [CHR 0x0A]) ?ls)"
    by (simp add: comp_def)
  ultimately have "ScanLines (concat (map (\<lambda>h. history_line h @ [CHR 0x0A]) hs)) = ?ls"
    using split_lines [OF n] by (simp add: ScanLines_def)
  then show ?thesis using parse_history_lines [OF assms] by (simp add: parseTimelinesHistory_def)
qed

theorem history_roundtrip_witness:
  "parseTimelinesHistory (history_line \<lparr>th_TimelineID = 1, th_SwitchPoint = 0x3000060, th_Reason = ''no recovery target specified''\<rparr> @ [CHR 0x0A]) =
     Inr [\<lparr>th_TimelineID = 1, th_SwitchPoint = 0x3000060, th_Reason = ''no recovery target specified''\<rparr>]"
  using history_roundtrip [of "[\<lparr>th_TimelineID = 1, th_SwitchPoint = 0x3000060, th_Reason = ''no recovery target specified''\<rparr>]"]
  by (simp add: plain_reason_def re_space_def)

end
