(* ===== verification/Connstring.thy ===== *)
theory Connstring
  imports Postgres
begin

text \<open>
  \<^verbatim>\<open>internal/postgresql/connstring.go\<close>: connection parameters, the parser of libpq style connection strings and
  the printer. A string is the list of its runes here (the code converts it to runes before it scans it), and a character is one
  of the 256 runes up to U+00FF; the runes above are not represented. The keeper compares recovery parameters that
  contain printed connection strings, and postgres parses them; the round trip shows for which parameters the
  parser reads back what the printer wrote.
\<close>

section \<open>Connection parameters\<close>

type_synonym ConnParams = "(string, string) fmap"

definition ConnParams_Set :: "string \<Rightarrow> string \<Rightarrow> ConnParams \<Rightarrow> ConnParams" where
  "ConnParams_Set k v cp = fmupd k v cp"

definition ConnParams_Get :: "ConnParams \<Rightarrow> string \<Rightarrow> string" where
  "ConnParams_Get cp k = (case fmlookup cp k of None \<Rightarrow> '''' | Some v \<Rightarrow> v)"

definition ConnParams_Del :: "string \<Rightarrow> ConnParams \<Rightarrow> ConnParams" where
  "ConnParams_Del k cp = fmdrop k cp"

definition ConnParams_Isset :: "ConnParams \<Rightarrow> string \<Rightarrow> bool" where
  "ConnParams_Isset cp k \<longleftrightarrow> fmlookup cp k \<noteq> None"

section \<open>The parser\<close>

text \<open>
  \<^verbatim>\<open>unicode.IsSpace\<close> on the runes up to U+00FF: next line (U+0085) and the no-break space (U+00A0) are white
  space too.
\<close>

definition IsSpace :: "char \<Rightarrow> bool" where
  "IsSpace c \<longleftrightarrow> c \<in> {CHR 0x09, CHR 0x0A, CHR 0x0B, CHR 0x0C, CHR 0x0D, CHR 0x20, CHR 0x85, CHR 0xA0}"

text \<open>The scanner is the rest of the input. \<open>None\<close> is the end of the text.\<close>

fun SkipSpaces :: "string \<Rightarrow> (char \<times> string) option" where
  "SkipSpaces [] = None"
| "SkipSpaces (r # s) = (if IsSpace r then SkipSpaces s else Some (r, s))"

text \<open>
  The loop for the key, with the current rune \<open>r\<close>: the key, and the rune it stops at with the rest, or
  \<open>None\<close> at the end.
\<close>

fun scanKey :: "string \<Rightarrow> char \<Rightarrow> string \<Rightarrow> string \<times> (char \<times> string) option" where
  "scanKey key r [] = (if IsSpace r \<or> r = CHR ''='' then (key, Some (r, [])) else (key @ [r], None))"
| "scanKey key r (r' # s) =
     (if IsSpace r \<or> r = CHR ''='' then (key, Some (r, r' # s)) else scanKey (key @ [r]) r' s)"

text \<open>The value that is not quoted: a backslash (92) takes the next rune as it is.\<close>

fun scanValue :: "string \<Rightarrow> char \<Rightarrow> string \<Rightarrow> (string \<times> string) res" where
  "scanValue val r [] =
     (if IsSpace r then Inr (val, [])
      else if r = CHR 92 then Inl (Error ''missing character after backslash'')
      else Inr (val @ [r], []))"
| "scanValue val r [c] =
     (if IsSpace r then Inr (val, [c])
      else if r = CHR 92 then Inr (val @ [c], [])
      else scanValue (val @ [r]) c [])"
| "scanValue val r (c # r' # s) =
     (if IsSpace r then Inr (val, c # r' # s)
      else if r = CHR 92 then scanValue (val @ [c]) r' s
      else scanValue (val @ [r]) c (r' # s))"

text \<open>The quoted value, up to the closing quote (39).\<close>

fun scanQuoted :: "string \<Rightarrow> string \<Rightarrow> (string \<times> string) res" where
  "scanQuoted val [] = Inl (Error ''unterminated quoted string literal in connection string'')"
| "scanQuoted val [r] =
     (if r = CHR 39 then Inr (val, [])
      else Inl (Error ''unterminated quoted string literal in connection string''))"
| "scanQuoted val (r # c # s) =
     (if r = CHR 39 then Inr (val, c # s)
      else if r = CHR 92 then scanQuoted (val @ [c]) s
      else scanQuoted (val @ [r]) (c # s))"

lemma SkipSpaces_shorter: "SkipSpaces s = Some (r, s') \<Longrightarrow> length s' < length s"
  by (induction s) (auto split: if_splits)

lemma scanKey_shorter: "scanKey key r s = (k, Some (r', s')) \<Longrightarrow> length s' \<le> length s"
  by (induction key r s rule: scanKey.induct) (auto split: if_splits)

lemma scanValue_shorter: "scanValue val r s = Inr (v, s') \<Longrightarrow> length s' \<le> length s"
  by (induction val r s rule: scanValue.induct) (auto split: if_splits)

lemma scanQuoted_shorter: "scanQuoted val s = Inr (v, s') \<Longrightarrow> length s' \<le> length s"
  by (induction val s rule: scanQuoted.induct) (auto split: if_splits)

text \<open>
  One round of the loop, from the first rune of the key: the key, the value and the rest of the input, \<open>None\<close> if the input
  ended after the equals sign.
\<close>

definition parseItem :: "char \<Rightarrow> string \<Rightarrow> (string \<times> string \<times> string option) res" where
  "parseItem r s =
     (case scanKey [] r s of (key, stop) \<Rightarrow>
       (case (case stop of
                None \<Rightarrow> None
              | Some (r, s) \<Rightarrow> if r \<noteq> CHR ''='' then SkipSpaces s else Some (r, s)) of
          None \<Rightarrow> Inl (Error ''missing = after key'')
        | Some (r, s) \<Rightarrow>
            if r \<noteq> CHR ''='' then Inl (Error ''missing = after key'')
            else
              (case SkipSpaces s of
                 None \<Rightarrow> Inr (key, '''', None)
               | Some (r, s) \<Rightarrow>
                   bindE (if r \<noteq> CHR 39 then scanValue [] r s else scanQuoted [] s) (\<lambda>(val, s).
                     Inr (key, val, Some s)))))"

lemma parseItem_shorter:
  assumes "parseItem r s = Inr (key, val, Some s')"
  shows "length s' \<le> length s"
proof -
  from assms obtain k stop where k: "scanKey [] r s = (k, stop)" by fastforce
  with assms obtain r2 s2 where 2: "stop = Some (r2, s2)" by (cases stop) (auto simp: parseItem_def)
  with scanKey_shorter [of "[]" r s k] k have l2: "length s2 \<le> length s" by simp
  from assms k 2 obtain r3 s3 where 3: "(if r2 \<noteq> CHR ''='' then SkipSpaces s2 else Some (r2, s2)) = Some (r3, s3)"
    by (cases "if r2 \<noteq> CHR ''='' then SkipSpaces s2 else Some (r2, s2)") (auto simp: parseItem_def)
  then have l3: "length s3 \<le> length s2" using SkipSpaces_shorter [of s2 r3 s3] by (auto split: if_splits)
  from assms k 2 3 obtain r4 s4 where 4: "SkipSpaces s3 = Some (r4, s4)"
    "(if r4 \<noteq> CHR 39 then scanValue [] r4 s4 else scanQuoted [] s4) = Inr (val, s')"
    by (cases "SkipSpaces s3") (auto simp: parseItem_def res_simps split: if_splits)
  then show ?thesis
    using l2 l3 SkipSpaces_shorter [OF 4(1)] scanValue_shorter [of "[]" r4 s4 val s'] scanQuoted_shorter [of "[]" s4 val s']
    by (auto split: if_splits)
qed

text \<open>The loop of \<^verbatim>\<open>ParseConnString\<close>; every round consumes input.\<close>

function parseLoop :: "ConnParams \<Rightarrow> string \<Rightarrow> ConnParams res" where
  "parseLoop p s =
     (case SkipSpaces s of
        None \<Rightarrow> Inr p
      | Some (r, s) \<Rightarrow>
          (case parseItem r s of
             Inl e \<Rightarrow> Inl e
           | Inr (key, val, None) \<Rightarrow> Inr (ConnParams_Set key val p)
           | Inr (key, val, Some s) \<Rightarrow> parseLoop (ConnParams_Set key val p) s))"
  by pat_completeness auto

termination
  by (relation "measure (\<lambda>(p, s). length s)") (auto dest!: SkipSpaces_shorter parseItem_shorter)

declare parseLoop.simps [simp del]

definition ParseConnString :: "string \<Rightarrow> ConnParams res" where
  "ParseConnString name = parseLoop fmempty name"

section \<open>The printer\<close>

definition escape :: "string \<Rightarrow> string" where
  "escape v = concat (map (\<lambda>c. if c \<in> {CHR 0x20, CHR 39, CHR 92} then [CHR 92, c] else [c]) v)"

fun join_sp :: "string list \<Rightarrow> string" where
  "join_sp [] = ''''"
| "join_sp [x] = x"
| "join_sp (x # xs) = x @ '' '' @ join_sp xs"

definition kv_string :: "string \<times> string \<Rightarrow> string" where
  "kv_string kv = (case kv of (k, v) \<Rightarrow> k @ ''='' @ escape v)"

definition ConnString :: "ConnParams \<Rightarrow> string" where
  "ConnString p = join_sp (sort (map kv_string (filter (\<lambda>(_, v). v \<noteq> '''') (entries p))))"

section \<open>The round trip\<close>

definition plain_key :: "string \<Rightarrow> bool" where
  "plain_key k \<longleftrightarrow> k \<noteq> '''' \<and> (\<forall>c\<in>set k. \<not> IsSpace c \<and> c \<noteq> CHR ''='')"

text \<open>A value whose only white space is the space character: the only one the printer escapes.\<close>

definition plain_value :: "string \<Rightarrow> bool" where
  "plain_value v \<longleftrightarrow> (\<forall>c\<in>set v. IsSpace c \<longrightarrow> c = CHR 0x20)"

lemma escape_simps [simp]:
  "escape [] = []"
  "escape (c # v) = (if c \<in> {CHR 0x20, CHR 39, CHR 92} then [CHR 92, c] else [c]) @ escape v"
  by (simp_all add: escape_def)

lemma scanKey_plain:
  assumes "\<forall>c\<in>set (r # k). \<not> IsSpace c \<and> c \<noteq> CHR ''=''"
  shows "scanKey acc r (k @ CHR ''='' # s) = (acc @ r # k, Some (CHR ''='', s))"
  using assms
proof (induction k arbitrary: acc r)
  case Nil
  then show ?case by (cases s) (auto simp: IsSpace_def)
qed auto

text \<open>What follows a value: the end, or a space and more.\<close>

definition rest_of :: "string option \<Rightarrow> string" where
  "rest_of t = (case t of None \<Rightarrow> '''' | Some s \<Rightarrow> CHR 0x20 # s)"

lemma scanValue_space: "IsSpace r \<Longrightarrow> scanValue acc r s = Inr (acc, s)"
  by (cases s; cases "tl s") auto

lemma scanValue_plain:
  assumes "plain_value v" and "escape v @ rest_of t = r # s" and "v \<noteq> ''''"
  shows "scanValue acc r s = Inr (acc @ v, case t of None \<Rightarrow> '''' | Some s \<Rightarrow> s)"
  using assms
proof (induction v arbitrary: acc r s)
  case (Cons c v)
  have pv: "plain_value v" using Cons.prems(1) by (simp add: plain_value_def)
  have sp: "IsSpace (CHR 0x20)" "\<not> IsSpace (CHR 92)" "\<not> IsSpace (CHR 39)" by (simp_all add: IsSpace_def)
  show ?case
  proof (cases "v = ''''")
    case True
    then show ?thesis
      using Cons.prems sp by (cases t; cases "the t") (auto simp: rest_of_def plain_value_def scanValue_space split: if_splits)
  next
    case False
    then have "escape v @ rest_of t \<noteq> []" by (cases v) auto
    then obtain r' s' where e: "escape v @ rest_of t = r' # s'" by (meson neq_Nil_conv)
    have "scanValue acc r s = scanValue (acc @ [c]) r' s'"
    proof (cases "c \<in> {CHR 0x20, CHR 39, CHR 92}")
      case True
      then have "r = CHR 92" "s = c # r' # s'" using Cons.prems(2) e by auto
      then show ?thesis using sp by simp
    next
      case f: False
      then have "r = c" "s = r' # s'" using Cons.prems(2) e by auto
      moreover have "\<not> IsSpace c" using Cons.prems(1) f by (auto simp: plain_value_def)
      ultimately show ?thesis using f by (cases s') simp_all
    qed
    then show ?thesis using Cons.IH [OF pv e False, of "acc @ [c]"] by simp
  qed
qed simp

lemma parse_item:
  assumes "plain_key k" and "plain_value v" and "v \<noteq> ''''" and "kv_string (k, v) @ rest_of t = r # s"
  shows "parseItem r s = Inr (k, v, Some (case t of None \<Rightarrow> '''' | Some s \<Rightarrow> s))" and "\<not> IsSpace r"
proof -
  obtain c k' where k: "k = c # k'" using assms(1) by (cases k) (auto simp: plain_key_def)
  then have r: "r = c" "s = k' @ CHR ''='' # escape v @ rest_of t" using assms(4) by (simp_all add: kv_string_def)
  then show "\<not> IsSpace r" using assms(1) k by (simp add: plain_key_def)
  have key: "scanKey [] r s = (k, Some (CHR ''='', escape v @ rest_of t))"
    using scanKey_plain [of c k' "[]" "escape v @ rest_of t"] assms(1) k r by (simp add: plain_key_def)
  have "escape v @ rest_of t \<noteq> []" using assms(3) by (cases v) auto
  then obtain r' s' where e: "escape v @ rest_of t = r' # s'" by (meson neq_Nil_conv)
  have "\<not> IsSpace r' \<and> r' \<noteq> CHR 39"
  proof (cases v)
    case (Cons c v')
    have "\<not> IsSpace (CHR 92)" by (simp add: IsSpace_def)
    then show ?thesis using e assms(2) Cons by (auto simp: plain_value_def split: if_splits)
  qed (use assms(3) in simp)
  then show "parseItem r s = Inr (k, v, Some (case t of None \<Rightarrow> '''' | Some s \<Rightarrow> s))"
    using scanValue_plain [OF assms(2) e assms(3), of "[]"] by (simp add: parseItem_def key e)
qed

lemma parseLoop_item:
  assumes "plain_key k" and "plain_value v" and "v \<noteq> ''''"
  shows "parseLoop p (kv_string (k, v) @ rest_of t) = parseLoop (fmupd k v p) (case t of None \<Rightarrow> '''' | Some s \<Rightarrow> s)"
proof -
  have "kv_string (k, v) @ rest_of t \<noteq> []" using assms(1) by (simp add: kv_string_def plain_key_def)
  then obtain r s where rs: "kv_string (k, v) @ rest_of t = r # s" by (meson neq_Nil_conv)
  note i = parse_item [OF assms rs]
  show ?thesis
    by (subst parseLoop.simps) (simp add: rs i ConnParams_Set_def)
qed

lemma parseLoop_items:
  assumes "\<forall>(k, v)\<in>set es. plain_key k \<and> plain_value v \<and> v \<noteq> ''''"
  shows "parseLoop p (join_sp (map kv_string es)) = Inr (fold (\<lambda>(k, v) m. fmupd k v m) es p)"
  using assms
proof (induction es arbitrary: p)
  case Nil
  show ?case by (simp add: parseLoop.simps)
next
  case (Cons e es)
  obtain k v where e: "e = (k, v)" by fastforce
  have kv: "plain_key k" "plain_value v" "v \<noteq> ''''" using Cons.prems e by auto
  have "join_sp (map kv_string (e # es)) = kv_string (k, v) @ rest_of (if es = [] then None else Some (join_sp (map kv_string es)))"
    using e by (cases es) (simp_all add: rest_of_def)
  then show ?case
    using parseLoop_item [OF kv, of p "if es = [] then None else Some (join_sp (map kv_string es))"]
      Cons.IH [of "fmupd k v p"] Cons.prems e by (cases es) (simp_all add: parseLoop.simps [of _ "[]"])
qed

lemma sort_map: "sort (map f xs) = map f (sort_key f xs)"
  by (rule properties_for_sort) (simp_all add: mset_map)

lemma lookup_fold_upd:
  "distinct (map fst es) \<Longrightarrow>
     fmlookup (fold (\<lambda>(k, v) m. fmupd k v m) es p) x =
     (if x \<in> fst ` set es then map_of es x else fmlookup p x)"
  by (induction es arbitrary: p) (auto simp: image_iff split: prod.splits)

text \<open>
  C35. Connection strings. The parser reads back what the printer wrote, up to parameters with an empty value, for all
  parameters whose keys are not empty and have no white space and no equals sign, and whose values have no white space (of
  Unicode, so no tab, no line break and no no-break space) other than the space character, in whatever order the map is iterated.
\<close>

theorem ConnString_roundtrip:
  assumes "\<And>k v. fmlookup p k = Some v \<Longrightarrow> plain_key k \<and> plain_value v"
  shows "ParseConnString (ConnString p) = Inr (fmfilter (\<lambda>k. fmlookup p k \<noteq> Some '''') p)"
proof -
  let ?es = "filter (\<lambda>(_, v). v \<noteq> '''') (entries p)" and ?s = "sort_key kv_string"
  have set: "(k, v) \<in> set (?s ?es) \<longleftrightarrow> fmlookup p k = Some v \<and> v \<noteq> ''''" for k v by simp
  have "mset (map fst (?s ?es)) = mset (map fst ?es)" by (simp add: mset_map)
  then have d: "distinct (map fst (?s ?es))"
    using mset_eq_imp_distinct_iff distinct_map_filter [OF distinct_entries] by metis
  have "\<forall>(k, v)\<in>set (?s ?es). plain_key k \<and> plain_value v \<and> v \<noteq> ''''" using assms by auto
  from parseLoop_items [OF this, of fmempty]
  have parse: "ParseConnString (ConnString p) = Inr (fold (\<lambda>(k, v) m. fmupd k v m) (?s ?es) fmempty)"
    by (simp add: ParseConnString_def ConnString_def sort_map)
  have "fmlookup (fold (\<lambda>(k, v) m. fmupd k v m) (?s ?es) fmempty) x = fmlookup (fmfilter (\<lambda>k. fmlookup p k \<noteq> Some '''') p) x" for x
  proof (cases "x \<in> fst ` set (?s ?es)")
    case True
    then obtain v where v: "(x, v) \<in> set (?s ?es)" by force
    then have "map_of (?s ?es) x = Some v" using d by simp
    then show ?thesis using True v set [of x v] by (simp only: lookup_fold_upd [OF d]) auto
  next
    case False
    then have "\<And>v. fmlookup p x = Some v \<Longrightarrow> v = ''''" by force
    then show ?thesis using False by (cases "fmlookup p x") (simp_all only: lookup_fold_upd [OF d], auto)
  qed
  then show ?thesis using parse by (metis fmap_ext)
qed

theorem ConnString_roundtrip_witness:
  "ParseConnString (ConnString (fmap_of_list [(''host'', ''a''), (''password'', ''it'' @ [CHR 39] @ ''s x'')])) =
     Inr (fmap_of_list [(''host'', ''a''), (''password'', ''it'' @ [CHR 39] @ ''s x'')])"
proof -
  let ?p = "fmap_of_list [(''host'', ''a''), (''password'', ''it'' @ [CHR 39] @ ''s x'')]"
  have "fmlookup ?p k = Some v \<Longrightarrow> plain_key k \<and> plain_value v" for k v
    by (auto simp: plain_key_def plain_value_def IsSpace_def split: if_splits)
  from ConnString_roundtrip [OF this] have "ParseConnString (ConnString ?p) = Inr (fmfilter (\<lambda>k. fmlookup ?p k \<noteq> Some '''') ?p)" .
  moreover have "fmfilter (\<lambda>k. fmlookup ?p k \<noteq> Some '''') ?p = ?p" by (intro fmap_ext) auto
  ultimately show ?thesis by simp
qed

end
