(* ===== verification/Cluster.thy ===== *)
theory Cluster
  imports Postgres
begin

text \<open>
  The cluster data of \<^verbatim>\<open>internal/cluster/cluster.go\<close> and
  \<^verbatim>\<open>internal/cluster/member.go\<close>: its types, the defaults and the validation of a cluster specification, and
  the constructors.

  \<^item> A struct is a record whose fields carry a prefix (\<open>cs_\<close> ClusterSpec, \<open>c_\<close> Cluster,
    \<open>cst_\<close> ClusterStatus, \<open>k_\<close> Keeper, \<open>ks_\<close> KeeperStatus, \<open>dbs_\<close> DBSpec,
    \<open>st_\<close> DBStatus, \<open>db_\<close> DB, \<open>p_\<close> Proxy, \<open>ps_\<close> ProxySpec, \<open>cd_\<close>
    ClusterData, \<open>ki_\<close> KeeperInfo, \<open>pst_\<close> PostgresState, \<open>pi_\<close> ProxyInfo).
  \<^item> A pointer field that the code tests for nil is an option. The pointers to the specification of a keeper and of a
    database, which the code always sets and never tests, are not: stored cluster data with a JSON null there, which would make the
    programs panic, is not represented. The string typed enumerations are datatypes with one constructor per named constant and one
    (\<open>..Other\<close>) for any other string.
  \<^item> Durations are \<open>int\<close> nanoseconds; a \<^verbatim>\<open>time.Time\<close> is the \<open>int\<close> number of
    nanoseconds since the zero time, so \<^verbatim>\<open>IsZero\<close> is \<open>= 0\<close>. Generations and log positions are
    64 bit words, the counts of a specification 16 or 32 bit words.
  \<^item> \<^verbatim>\<open>DeepCopy\<close> is the identity on values.
\<close>

type_synonym duration = int
type_synonym gotime = int
type_synonym int64 = "64 word"

section \<open>Enumerations\<close>

datatype FollowType = FollowTypeInternal | FollowTypeExternal | FollowTypeOther string
datatype ClusterPhase = ClusterPhaseInitializing | ClusterPhaseNormal | ClusterPhaseOther string
datatype ClusterRole = ClusterRoleMaster | ClusterRoleStandby | ClusterRoleOther string
datatype ClusterInitMode =
  ClusterInitModeNew | ClusterInitModePITR | ClusterInitModeExisting | ClusterInitModeOther string
datatype DBInitMode =
  DBInitModeNone | DBInitModeExisting | DBInitModeNew | DBInitModePITR | DBInitModeResync
  | DBInitModeOther string
datatype SUReplAccessMode = SUReplAccessAll | SUReplAccessStrict | SUReplAccessOther string
datatype Role = RoleUndefined | RoleMaster | RoleStandby | RoleOther string

fun init_mode_name :: "ClusterInitMode \<Rightarrow> string" where
  "init_mode_name ClusterInitModeNew = ''new''"
| "init_mode_name ClusterInitModePITR = ''pitr''"
| "init_mode_name ClusterInitModeExisting = ''existing''"
| "init_mode_name (ClusterInitModeOther s) = s"

fun access_mode_name :: "SUReplAccessMode \<Rightarrow> string" where
  "access_mode_name SUReplAccessAll = ''all''"
| "access_mode_name SUReplAccessStrict = ''strict''"
| "access_mode_name (SUReplAccessOther s) = s"

section \<open>Configuration records\<close>

type_synonym PGParameters = "(string, string) fmap option"

record ArchiveRecoverySettings =
  ar_RestoreCommand :: string

record RecoveryTargetSettings =
  rt_RecoveryTarget :: string
  rt_RecoveryTargetLsn :: string
  rt_RecoveryTargetName :: string
  rt_RecoveryTargetTime :: string
  rt_RecoveryTargetXid :: string
  rt_RecoveryTargetTimeline :: string

record StandbySettings =
  ss_PrimaryConninfo :: string
  ss_PrimarySlotName :: string
  ss_RecoveryMinApplyDelay :: string

record FollowConfig =
  fc_Type :: FollowType
  fc_DBUID :: string
  fc_StandbySettings :: "StandbySettings option"
  fc_ArchiveRecoverySettings :: "ArchiveRecoverySettings option"

record PostgresBinaryVersion =
  pv_Maj :: int
  pv_Min :: int

record NewConfig =
  nc_Locale :: string
  nc_Encoding :: string
  nc_DataChecksums :: bool

record PITRConfig =
  pc_DataRestoreCommand :: string
  pc_ArchiveRecoverySettings :: "ArchiveRecoverySettings option"
  pc_RecoveryTargetSettings :: "RecoveryTargetSettings option"

record ExistingConfig =
  ec_KeeperUID :: string

record StandbyConfig =
  sc_StandbySettings :: "StandbySettings option"
  sc_ArchiveRecoverySettings :: "ArchiveRecoverySettings option"

record ClusterSpec =
  cs_SleepInterval :: "duration option"
  cs_RequestTimeout :: "duration option"
  cs_ConvergenceTimeout :: "duration option"
  cs_InitTimeout :: "duration option"
  cs_SyncTimeout :: "duration option"
  cs_FailInterval :: "duration option"
  cs_DeadKeeperRemovalInterval :: "duration option"
  cs_MaxStandbys :: "uint16 option"
  cs_MaxStandbysPerSender :: "uint16 option"
  cs_MaxStandbyLag :: "uint32 option"
  cs_SynchronousReplication :: "bool option"
  cs_MinSynchronousStandbys :: "uint16 option"
  cs_MaxSynchronousStandbys :: "uint16 option"
  cs_AdditionalWalSenders :: "uint16 option"
  cs_AdditionalMasterReplicationSlots :: "string slice"
  cs_UsePgrewind :: "bool option"
  cs_InitMode :: "ClusterInitMode option"
  cs_MergePgParameters :: "bool option"
  cs_Role :: "ClusterRole option"
  cs_NewConfig :: "NewConfig option"
  cs_PITRConfig :: "PITRConfig option"
  cs_ExistingConfig :: "ExistingConfig option"
  cs_StandbyConfig :: "StandbyConfig option"
  cs_DefaultSUReplAccessMode :: "SUReplAccessMode option"
  cs_PGParameters :: PGParameters
  cs_PGHBA :: "string slice"

section \<open>Cluster, keepers, databases and proxy\<close>

record ClusterStatus =
  cst_CurrentGeneration :: int64
  cst_Phase :: ClusterPhase
  cst_Master :: string

record Cluster =
  c_UID :: string
  c_Generation :: int64
  c_ChangeTime :: gotime
  c_Spec :: "ClusterSpec option"
  c_Status :: ClusterStatus

record KeeperStatus =
  ks_Healthy :: bool
  ks_LastHealthyTime :: gotime
  ks_BootUUID :: string
  ks_PostgresBinaryVersion :: PostgresBinaryVersion
  ks_ForceFail :: bool

record Keeper =
  k_UID :: string
  k_Generation :: int64
  k_ChangeTime :: gotime
  k_Status :: KeeperStatus

record PostgresTimelineHistory =
  tlh_TimelineID :: uint64
  tlh_SwitchPoint :: uint64
  tlh_Reason :: string

type_synonym PostgresTimelinesHistory = "PostgresTimelineHistory list"

record DBSpec =
  dbs_KeeperUID :: string
  dbs_RequestTimeout :: duration
  dbs_MaxStandbys :: uint16
  dbs_SynchronousReplication :: bool
  dbs_UsePgrewind :: bool
  dbs_AdditionalWalSenders :: uint16
  dbs_AdditionalReplicationSlots :: "string slice"
  dbs_InitMode :: DBInitMode
  dbs_NewConfig :: "NewConfig option"
  dbs_PITRConfig :: "PITRConfig option"
  dbs_PGParameters :: PGParameters
  dbs_PGHBA :: "string slice"
  dbs_Role :: Role
  dbs_FollowConfig :: "FollowConfig option"
  dbs_Followers :: "string slice"
  dbs_IncludeConfig :: bool
  dbs_SynchronousStandbys :: "string slice"
  dbs_ExternalSynchronousStandbys :: "string slice"

record DBStatus =
  st_Healthy :: bool
  st_CurrentGeneration :: int64
  st_ListenAddress :: string
  st_Port :: string
  st_SystemID :: string
  st_TimelineID :: uint64
  st_XLogPos :: uint64
  st_TimelinesHistory :: PostgresTimelinesHistory
  st_PGParameters :: PGParameters
  st_CurSynchronousStandbys :: "string slice"
  st_SynchronousStandbys :: "string slice"
  st_OlderWalFile :: string

record DB =
  db_UID :: string
  db_Generation :: int64
  db_ChangeTime :: gotime
  db_Spec :: DBSpec
  db_Status :: DBStatus

record ProxySpec =
  ps_MasterDBUID :: string
  ps_EnabledProxies :: "string slice"

record Proxy =
  p_UID :: string
  p_Generation :: int64
  p_ChangeTime :: gotime
  p_Spec :: ProxySpec

type_synonym Keepers = "(string, Keeper) fmap"
type_synonym DBs = "(string, DB) fmap"

record ClusterData =
  cd_FormatVersion :: uint64
  cd_ChangeTime :: gotime
  cd_Cluster :: "Cluster option"
  cd_Keepers :: Keepers
  cd_DBs :: DBs
  cd_Proxy :: "Proxy option"

section \<open>What the members publish (member.go)\<close>

record PostgresState =
  pst_UID :: string
  pst_Generation :: int64
  pst_ListenAddress :: string
  pst_Port :: string
  pst_Healthy :: bool
  pst_SystemID :: string
  pst_TimelineID :: uint64
  pst_XLogPos :: uint64
  pst_TimelinesHistory :: PostgresTimelinesHistory
  pst_PGParameters :: PGParameters
  pst_SynchronousStandbys :: "string slice"
  pst_OlderWalFile :: string

record KeeperInfo =
  ki_InfoUID :: string
  ki_UID :: string
  ki_ClusterUID :: string
  ki_BootUUID :: string
  ki_PostgresBinaryVersion :: PostgresBinaryVersion
  ki_PostgresState :: "PostgresState option"

record ProxyInfo =
  pi_InfoUID :: string
  pi_UID :: string
  pi_Generation :: int64

record SentinelInfo =
  si_UID :: string

type_synonym KeepersInfo = "(string, KeeperInfo) fmap"
type_synonym ProxiesInfo = "(string, ProxyInfo) fmap"

fun GetTimelineHistory :: "PostgresTimelinesHistory \<Rightarrow> uint64 \<Rightarrow> PostgresTimelineHistory option" where
  "GetTimelineHistory [] i = None"
| "GetTimelineHistory (tlh # tlsh) i =
     (if tlh_TimelineID tlh = i then Some tlh else GetTimelineHistory tlsh i)"

section \<open>Constants and defaults\<close>

definition second :: duration where "second = 1000000000"

definition CurrentCDFormatVersion :: uint64 where "CurrentCDFormatVersion = 1"
definition NoGeneration :: int64 where "NoGeneration = 0"
definition InitialGeneration :: int64 where "InitialGeneration = 1"

definition DefaultProxyCheckInterval :: duration where "DefaultProxyCheckInterval = 5 * second"
definition DefaultProxyTimeoutInterval :: duration where "DefaultProxyTimeoutInterval = 15 * second"
definition DefaultDBNotIncreasingXLogPosTimes :: int where "DefaultDBNotIncreasingXLogPosTimes = 10"
definition DefaultSleepInterval :: duration where "DefaultSleepInterval = 5 * second"
definition DefaultRequestTimeout :: duration where "DefaultRequestTimeout = 10 * second"
definition DefaultConvergenceTimeout :: duration where "DefaultConvergenceTimeout = 30 * second"
definition DefaultInitTimeout :: duration where "DefaultInitTimeout = 5 * 60 * second"
definition DefaultSyncTimeout :: duration where "DefaultSyncTimeout = 30 * 60 * second"
definition DefaultFailInterval :: duration where "DefaultFailInterval = 20 * second"
definition DefaultDeadKeeperRemovalInterval :: duration where
  "DefaultDeadKeeperRemovalInterval = 48 * 3600 * second"
definition DefaultMaxStandbys :: uint16 where "DefaultMaxStandbys = 20"
definition DefaultMaxStandbysPerSender :: uint16 where "DefaultMaxStandbysPerSender = 3"
definition DefaultMaxStandbyLag :: uint32 where "DefaultMaxStandbyLag = 1024 * 1204"
definition DefaultSynchronousReplication :: bool where "DefaultSynchronousReplication = False"
definition DefaultMinSynchronousStandbys :: uint16 where "DefaultMinSynchronousStandbys = 1"
definition DefaultMaxSynchronousStandbys :: uint16 where "DefaultMaxSynchronousStandbys = 1"
definition DefaultAdditionalWalSenders :: uint16 where "DefaultAdditionalWalSenders = 5"
definition DefaultUsePgrewind :: bool where "DefaultUsePgrewind = False"
definition DefaultMergePGParameter :: bool where "DefaultMergePGParameter = True"
definition DefaultRole :: ClusterRole where "DefaultRole = ClusterRoleMaster"
definition DefaultSUReplAccess :: SUReplAccessMode where "DefaultSUReplAccess = SUReplAccessAll"

lemmas default_defs =
  DefaultProxyCheckInterval_def DefaultProxyTimeoutInterval_def DefaultSleepInterval_def
  DefaultRequestTimeout_def DefaultConvergenceTimeout_def DefaultInitTimeout_def
  DefaultSyncTimeout_def DefaultFailInterval_def DefaultDeadKeeperRemovalInterval_def
  DefaultMaxStandbys_def DefaultMaxStandbysPerSender_def DefaultMaxStandbyLag_def
  DefaultSynchronousReplication_def DefaultMinSynchronousStandbys_def
  DefaultMaxSynchronousStandbys_def DefaultAdditionalWalSenders_def DefaultUsePgrewind_def
  DefaultMergePGParameter_def DefaultRole_def DefaultSUReplAccess_def second_def

section \<open>Specification defaults\<close>

text \<open>
  Each \<^verbatim>\<open>if s.X == nil { s.X = default }\<close> of \<^verbatim>\<open>WithDefaults\<close> is
  \<open>or_default\<close>; \<open>val\<close> reads a field that has a default, which is the dereference
  \<^verbatim>\<open>*s.X\<close> after \<^verbatim>\<open>WithDefaults\<close> (see \<open>WithDefaults_total\<close>).
\<close>

definition or_default :: "'a option \<Rightarrow> 'a \<Rightarrow> 'a option" where
  "or_default p d = (case p of None \<Rightarrow> Some d | Some x \<Rightarrow> Some x)"

definition WithDefaults :: "ClusterSpec \<Rightarrow> ClusterSpec" where
  "WithDefaults os = os\<lparr>
     cs_SleepInterval := or_default (cs_SleepInterval os) DefaultSleepInterval,
     cs_RequestTimeout := or_default (cs_RequestTimeout os) DefaultRequestTimeout,
     cs_ConvergenceTimeout := or_default (cs_ConvergenceTimeout os) DefaultConvergenceTimeout,
     cs_InitTimeout := or_default (cs_InitTimeout os) DefaultInitTimeout,
     cs_SyncTimeout := or_default (cs_SyncTimeout os) DefaultSyncTimeout,
     cs_FailInterval := or_default (cs_FailInterval os) DefaultFailInterval,
     cs_DeadKeeperRemovalInterval :=
       or_default (cs_DeadKeeperRemovalInterval os) DefaultDeadKeeperRemovalInterval,
     cs_MaxStandbys := or_default (cs_MaxStandbys os) DefaultMaxStandbys,
     cs_MaxStandbysPerSender := or_default (cs_MaxStandbysPerSender os) DefaultMaxStandbysPerSender,
     cs_MaxStandbyLag := or_default (cs_MaxStandbyLag os) DefaultMaxStandbyLag,
     cs_SynchronousReplication :=
       or_default (cs_SynchronousReplication os) DefaultSynchronousReplication,
     cs_UsePgrewind := or_default (cs_UsePgrewind os) DefaultUsePgrewind,
     cs_MinSynchronousStandbys :=
       or_default (cs_MinSynchronousStandbys os) DefaultMinSynchronousStandbys,
     cs_MaxSynchronousStandbys :=
       or_default (cs_MaxSynchronousStandbys os) DefaultMaxSynchronousStandbys,
     cs_AdditionalWalSenders := or_default (cs_AdditionalWalSenders os) DefaultAdditionalWalSenders,
     cs_MergePgParameters := or_default (cs_MergePgParameters os) DefaultMergePGParameter,
     cs_DefaultSUReplAccessMode := or_default (cs_DefaultSUReplAccessMode os) DefaultSUReplAccess,
     cs_Role := or_default (cs_Role os) DefaultRole\<rparr>"

definition val :: "'a option \<Rightarrow> 'a \<Rightarrow> 'a" where
  "val p d = (case p of None \<Rightarrow> d | Some x \<Rightarrow> x)"

definition def_SleepInterval where "def_SleepInterval s = val (cs_SleepInterval s) DefaultSleepInterval"
definition def_RequestTimeout where "def_RequestTimeout s = val (cs_RequestTimeout s) DefaultRequestTimeout"
definition def_ConvergenceTimeout where
  "def_ConvergenceTimeout s = val (cs_ConvergenceTimeout s) DefaultConvergenceTimeout"
definition def_InitTimeout where "def_InitTimeout s = val (cs_InitTimeout s) DefaultInitTimeout"
definition def_SyncTimeout where "def_SyncTimeout s = val (cs_SyncTimeout s) DefaultSyncTimeout"
definition def_FailInterval where "def_FailInterval s = val (cs_FailInterval s) DefaultFailInterval"
definition def_DeadKeeperRemovalInterval where
  "def_DeadKeeperRemovalInterval s =
     val (cs_DeadKeeperRemovalInterval s) DefaultDeadKeeperRemovalInterval"
definition def_MaxStandbys where "def_MaxStandbys s = val (cs_MaxStandbys s) DefaultMaxStandbys"
definition def_MaxStandbysPerSender where
  "def_MaxStandbysPerSender s = val (cs_MaxStandbysPerSender s) DefaultMaxStandbysPerSender"
definition def_MaxStandbyLag where "def_MaxStandbyLag s = val (cs_MaxStandbyLag s) DefaultMaxStandbyLag"
definition def_SynchronousReplication where
  "def_SynchronousReplication s = val (cs_SynchronousReplication s) DefaultSynchronousReplication"
definition def_UsePgrewind where "def_UsePgrewind s = val (cs_UsePgrewind s) DefaultUsePgrewind"
definition def_MinSynchronousStandbys where
  "def_MinSynchronousStandbys s = val (cs_MinSynchronousStandbys s) DefaultMinSynchronousStandbys"
definition def_MaxSynchronousStandbys where
  "def_MaxSynchronousStandbys s = val (cs_MaxSynchronousStandbys s) DefaultMaxSynchronousStandbys"
definition def_AdditionalWalSenders where
  "def_AdditionalWalSenders s = val (cs_AdditionalWalSenders s) DefaultAdditionalWalSenders"
definition def_MergePgParameters where
  "def_MergePgParameters s = val (cs_MergePgParameters s) DefaultMergePGParameter"
definition def_SUReplAccessMode where
  "def_SUReplAccessMode s = val (cs_DefaultSUReplAccessMode s) DefaultSUReplAccess"
definition def_Role where "def_Role s = val (cs_Role s) DefaultRole"

lemmas def_field_defs =
  def_SleepInterval_def def_RequestTimeout_def def_ConvergenceTimeout_def def_InitTimeout_def
  def_SyncTimeout_def def_FailInterval_def def_DeadKeeperRemovalInterval_def def_MaxStandbys_def
  def_MaxStandbysPerSender_def def_MaxStandbyLag_def def_SynchronousReplication_def
  def_UsePgrewind_def def_MinSynchronousStandbys_def def_MaxSynchronousStandbys_def
  def_AdditionalWalSenders_def def_MergePgParameters_def def_SUReplAccessMode_def def_Role_def

lemma or_default_val: "or_default p d = Some (val p d)"
  by (cases p) (simp_all add: or_default_def val_def)

lemma val_or_default [simp]: "val (or_default p d) d' = val p d"
  by (simp add: or_default_val) (simp add: val_def)

lemma or_default_idem [simp]: "or_default (or_default p d) d = or_default p d"
  by (simp add: or_default_val) (simp add: val_def)

definition DefSpec :: "Cluster \<Rightarrow> ClusterSpec res" where
  "DefSpec c = bindE (deref ''nil Spec'' (c_Spec c)) (\<lambda>s. Inr (WithDefaults s))"

text \<open>
  \<^verbatim>\<open>WithDefaults\<close> is idempotent, leaves every field that was set alone, gives every defaulted
  field a value and changes nothing else: the two specifications differ at most in fields that were
  unset.
\<close>

theorem WithDefaults_total:
  "WithDefaults (WithDefaults s) = WithDefaults s \<and>
   cs_SleepInterval (WithDefaults s) = Some (def_SleepInterval s) \<and>
   cs_RequestTimeout (WithDefaults s) = Some (def_RequestTimeout s) \<and>
   cs_ConvergenceTimeout (WithDefaults s) = Some (def_ConvergenceTimeout s) \<and>
   cs_InitTimeout (WithDefaults s) = Some (def_InitTimeout s) \<and>
   cs_SyncTimeout (WithDefaults s) = Some (def_SyncTimeout s) \<and>
   cs_FailInterval (WithDefaults s) = Some (def_FailInterval s) \<and>
   cs_DeadKeeperRemovalInterval (WithDefaults s) = Some (def_DeadKeeperRemovalInterval s) \<and>
   cs_MaxStandbys (WithDefaults s) = Some (def_MaxStandbys s) \<and>
   cs_MaxStandbysPerSender (WithDefaults s) = Some (def_MaxStandbysPerSender s) \<and>
   cs_MaxStandbyLag (WithDefaults s) = Some (def_MaxStandbyLag s) \<and>
   cs_SynchronousReplication (WithDefaults s) = Some (def_SynchronousReplication s) \<and>
   cs_MinSynchronousStandbys (WithDefaults s) = Some (def_MinSynchronousStandbys s) \<and>
   cs_MaxSynchronousStandbys (WithDefaults s) = Some (def_MaxSynchronousStandbys s) \<and>
   cs_AdditionalWalSenders (WithDefaults s) = Some (def_AdditionalWalSenders s) \<and>
   cs_UsePgrewind (WithDefaults s) = Some (def_UsePgrewind s) \<and>
   cs_MergePgParameters (WithDefaults s) = Some (def_MergePgParameters s) \<and>
   cs_DefaultSUReplAccessMode (WithDefaults s) = Some (def_SUReplAccessMode s) \<and>
   cs_Role (WithDefaults s) = Some (def_Role s) \<and>
   cs_InitMode (WithDefaults s) = cs_InitMode s \<and>
   cs_AdditionalMasterReplicationSlots (WithDefaults s) = cs_AdditionalMasterReplicationSlots s \<and>
   cs_NewConfig (WithDefaults s) = cs_NewConfig s \<and>
   cs_PITRConfig (WithDefaults s) = cs_PITRConfig s \<and>
   cs_ExistingConfig (WithDefaults s) = cs_ExistingConfig s \<and>
   cs_StandbyConfig (WithDefaults s) = cs_StandbyConfig s \<and>
   cs_PGParameters (WithDefaults s) = cs_PGParameters s \<and> cs_PGHBA (WithDefaults s) = cs_PGHBA s"
  by (simp add: WithDefaults_def def_field_defs or_default_val) (simp add: val_def)

section \<open>Validation\<close>

definition validateReplicationSlot :: "string \<Rightarrow> string option" where
  "validateReplicationSlot replicationSlot =
     (if \<not> IsValidReplSlotName replicationSlot
      then Some (''wrong replication slot name: '' @ replicationSlot)
      else if IsStolonName replicationSlot
      then Some (''replication slot name is reserved: '' @ replicationSlot)
      else None)"

fun first_error :: "('a \<Rightarrow> string option) \<Rightarrow> 'a list \<Rightarrow> string option" where
  "first_error f [] = None"
| "first_error f (x # xs) = (case f x of None \<Rightarrow> first_error f xs | Some e \<Rightarrow> Some e)"

definition validateHBAEntry :: "string \<Rightarrow> string option" where
  "validateHBAEntry e =
     (if CHR 0x0A \<in> set e then Some ''pgHBA entries cannot contain newline characters'' else None)"

text \<open>The \<^verbatim>\<open>switch *s.InitMode\<close> of \<^verbatim>\<open>Validate\<close>.\<close>

definition validateInitMode :: "ClusterSpec \<Rightarrow> ClusterInitMode \<Rightarrow> string option" where
  "validateInitMode s mode =
     (case mode of
        ClusterInitModeNew \<Rightarrow>
          (if def_Role s = ClusterRoleStandby
           then Some ''invalid cluster role standby when initMode is new'' else None)
      | ClusterInitModeExisting \<Rightarrow>
          (case cs_ExistingConfig s of
             None \<Rightarrow> Some ''existingConfig undefined. Required when initMode is existing''
           | Some ec \<Rightarrow>
               if ec_KeeperUID ec = '''' then Some ''existingConfig.keeperUID undefined'' else None)
      | ClusterInitModePITR \<Rightarrow>
          (case cs_PITRConfig s of
             None \<Rightarrow> Some ''pitrConfig undefined. Required when initMode is pitr''
           | Some pc \<Rightarrow>
               if pc_DataRestoreCommand pc = ''''
               then Some ''pitrConfig.DataRestoreCommand undefined''
               else if pc_RecoveryTargetSettings pc \<noteq> None \<and> def_Role s = ClusterRoleStandby
               then Some ''cannot define pitrConfig.RecoveryTargetSettings when required cluster role is standby''
               else None)
      | ClusterInitModeOther m \<Rightarrow> Some (''unknown initMode: '' @ m))"

definition validateAccessAndRole :: "ClusterSpec \<Rightarrow> ClusterInitMode \<Rightarrow> string option" where
  "validateAccessAndRole s mode =
     (case def_SUReplAccessMode s of
        SUReplAccessOther m \<Rightarrow> Some (''unknown defaultSUReplAccessMode: '' @ m)
      | _ \<Rightarrow>
          (case def_Role s of
             ClusterRoleMaster \<Rightarrow> None
           | ClusterRoleStandby \<Rightarrow>
               (case cs_StandbyConfig s of
                  None \<Rightarrow> Some ''standbyConfig undefined. Required when cluster role is standby''
                | Some _ \<Rightarrow> None)
           | ClusterRoleOther _ \<Rightarrow> Some (''unknown role: '' @ init_mode_name mode)))"

text \<open>\<open>None\<close> is the nil error.\<close>

definition Validate :: "ClusterSpec \<Rightarrow> string option" where
  "Validate s =
     (if def_SleepInterval s < 0 then Some ''sleepInterval must be positive''
      else if def_RequestTimeout s < 0 then Some ''requestTimeout must be positive''
      else if def_ConvergenceTimeout s < 0 then Some ''convergenceTimeout must be positive''
      else if def_InitTimeout s < 0 then Some ''initTimeout must be positive''
      else if def_SyncTimeout s < 0 then Some ''syncTimeout must be positive''
      else if def_DeadKeeperRemovalInterval s < 0
      then Some ''deadKeeperRemovalInterval must be positive''
      else if def_FailInterval s < 0 then Some ''failInterval must be positive''
      else if def_MaxStandbys s < 1 then Some ''maxStandbys must be at least 1''
      else if def_MaxStandbysPerSender s < 1 then Some ''maxStandbysPerSender must be at least 1''
      else if def_MinSynchronousStandbys s < 1
      then Some ''minSynchronousStandbys must be at least 1''
      else if def_MaxSynchronousStandbys s < 1
      then Some ''maxSynchronousStandbys must be at least 1''
      else if def_MaxSynchronousStandbys s < def_MinSynchronousStandbys s
      then Some ''maxSynchronousStandbys must be greater or equal to minSynchronousStandbys''
      else (case cs_InitMode s of
              None \<Rightarrow> Some ''initMode undefined''
            | Some mode \<Rightarrow>
               (case first_error validateReplicationSlot (elems (cs_AdditionalMasterReplicationSlots s)) of
                  Some e \<Rightarrow> Some e
                | None \<Rightarrow>
                   (case first_error validateHBAEntry (elems (cs_PGHBA s)) of
                      Some e \<Rightarrow> Some e
                    | None \<Rightarrow>
                       (case validateInitMode s mode of
                          Some e \<Rightarrow> Some e
                        | None \<Rightarrow> validateAccessAndRole s mode)))))"

definition UpdateSpec :: "Cluster \<Rightarrow> ClusterSpec \<Rightarrow> Cluster res" where
  "UpdateSpec c ns =
     (case Validate ns of
        Some e \<Rightarrow> Inl (Error (''invalid cluster spec: '' @ e))
      | None \<Rightarrow>
          bindE (deref ''nil Spec'' (c_Spec c)) (\<lambda>s.
          bindE (deref ''nil InitMode'' (cs_InitMode s)) (\<lambda>dsMode.
          bindE (deref ''nil InitMode'' (cs_InitMode ns)) (\<lambda>dnsMode.
            if dsMode \<noteq> dnsMode then Inl (Error ''cannot change cluster init mode'')
            else if def_Role s = ClusterRoleMaster \<and> def_Role ns = ClusterRoleStandby
            then Inl (Error ''cannot update a cluster from master role to standby role'')
            else Inr (c\<lparr>c_Spec := Some ns\<rparr>)))))"

section \<open>Constructors and lookups\<close>

definition NewCluster :: "gotime \<Rightarrow> string \<Rightarrow> ClusterSpec option \<Rightarrow> Cluster" where
  "NewCluster tnow uid cs =
     \<lparr>c_UID = uid, c_Generation = InitialGeneration, c_ChangeTime = tnow, c_Spec = cs,
      c_Status = \<lparr>cst_CurrentGeneration = 0, cst_Phase = ClusterPhaseInitializing, cst_Master = ''''\<rparr>\<rparr>"

definition NewClusterData :: "Cluster \<Rightarrow> ClusterData" where
  "NewClusterData c =
     \<lparr>cd_FormatVersion = CurrentCDFormatVersion, cd_ChangeTime = 0, cd_Cluster = Some c,
      cd_Keepers = fmempty, cd_DBs = fmempty,
      cd_Proxy = Some \<lparr>p_UID = '''', p_Generation = 0, p_ChangeTime = 0,
                       p_Spec = \<lparr>ps_MasterDBUID = '''', ps_EnabledProxies = None\<rparr>\<rparr>\<rparr>"

definition NewKeeperFromKeeperInfo :: "gotime \<Rightarrow> KeeperInfo \<Rightarrow> Keeper" where
  "NewKeeperFromKeeperInfo tnow ki =
     \<lparr>k_UID = ki_UID ki, k_Generation = InitialGeneration, k_ChangeTime = 0,
      k_Status = \<lparr>ks_Healthy = True, ks_LastHealthyTime = tnow, ks_BootUUID = ki_BootUUID ki,
                  ks_PostgresBinaryVersion = \<lparr>pv_Maj = 0, pv_Min = 0\<rparr>, ks_ForceFail = False\<rparr>\<rparr>"

definition SortedKeys :: "Keepers \<Rightarrow> string list" where
  "SortedKeys kss = sort (keys_of kss)"

definition FindDB :: "iter_order \<Rightarrow> ClusterData \<Rightarrow> Keeper \<Rightarrow> DB option" where
  "FindDB ord cd keeper =
     map_option snd (find (\<lambda>(_, db). dbs_KeeperUID (db_Spec db) = k_UID keeper) (range_by ord (cd_DBs cd)))"

text \<open>
  The zero value of a \<^verbatim>\<open>DBSpec\<close>, which a composite literal \<^verbatim>\<open>&cluster.DBSpec{..}\<close>
  starts from.
\<close>

definition zero_DBSpec :: DBSpec where
  "zero_DBSpec =
     \<lparr>dbs_KeeperUID = '''', dbs_RequestTimeout = 0, dbs_MaxStandbys = 0,
      dbs_SynchronousReplication = False, dbs_UsePgrewind = False, dbs_AdditionalWalSenders = 0,
      dbs_AdditionalReplicationSlots = None, dbs_InitMode = DBInitModeOther '''',
      dbs_NewConfig = None, dbs_PITRConfig = None, dbs_PGParameters = None, dbs_PGHBA = None,
      dbs_Role = RoleOther '''', dbs_FollowConfig = None, dbs_Followers = None,
      dbs_IncludeConfig = False, dbs_SynchronousStandbys = None,
      dbs_ExternalSynchronousStandbys = None\<rparr>"

definition zero_DBStatus :: DBStatus where
  "zero_DBStatus =
     \<lparr>st_Healthy = False, st_CurrentGeneration = 0, st_ListenAddress = '''', st_Port = '''',
      st_SystemID = '''', st_TimelineID = 0, st_XLogPos = 0, st_TimelinesHistory = [],
      st_PGParameters = None, st_CurSynchronousStandbys = None, st_SynchronousStandbys = None,
      st_OlderWalFile = ''''\<rparr>"

definition newDB :: "string \<Rightarrow> DBSpec \<Rightarrow> DB" where
  "newDB uid spec =
     \<lparr>db_UID = uid, db_Generation = InitialGeneration, db_ChangeTime = 0, db_Spec = spec,
      db_Status = zero_DBStatus\<rparr>"

section \<open>Properties of specifications\<close>

lemma first_error_None_iff: "first_error f xs = None \<longleftrightarrow> (\<forall>x\<in>set xs. f x = None)"
  by (induction xs) (auto split: option.splits)

lemma FindDB_None_iff:
  "FindDB ord cd k = None \<longleftrightarrow>
     (\<forall>u db. fmlookup (cd_DBs cd) u = Some db \<longrightarrow> dbs_KeeperUID (db_Spec db) \<noteq> k_UID k)"
  by (auto simp: FindDB_def find_None_iff)

lemma FindDB_SomeD:
  "FindDB ord cd k = Some db \<Longrightarrow>
     dbs_KeeperUID (db_Spec db) = k_UID k \<and> (\<exists>u. fmlookup (cd_DBs cd) u = Some db)"
  by (auto simp: FindDB_def find_Some_iff) (metis in_range_by_iff nth_mem length_range_by)

text \<open>What a valid specification is, field by field.\<close>

definition valid_numbers :: "ClusterSpec \<Rightarrow> bool" where
  "valid_numbers s \<longleftrightarrow>
     0 \<le> def_SleepInterval s \<and> 0 \<le> def_RequestTimeout s \<and> 0 \<le> def_ConvergenceTimeout s \<and>
     0 \<le> def_InitTimeout s \<and> 0 \<le> def_SyncTimeout s \<and> 0 \<le> def_DeadKeeperRemovalInterval s \<and>
     0 \<le> def_FailInterval s \<and> 1 \<le> def_MaxStandbys s \<and> 1 \<le> def_MaxStandbysPerSender s \<and>
     1 \<le> def_MinSynchronousStandbys s \<and> def_MinSynchronousStandbys s \<le> def_MaxSynchronousStandbys s"

definition valid_lists :: "ClusterSpec \<Rightarrow> bool" where
  "valid_lists s \<longleftrightarrow>
     list_all (\<lambda>r. IsValidReplSlotName r \<and> \<not> IsStolonName r) (elems (cs_AdditionalMasterReplicationSlots s)) \<and>
     list_all (\<lambda>e. CHR 0x0A \<notin> set e) (elems (cs_PGHBA s))"

definition valid_modes :: "ClusterSpec \<Rightarrow> bool" where
  "valid_modes s \<longleftrightarrow>
     def_SUReplAccessMode s \<in> {SUReplAccessAll, SUReplAccessStrict} \<and>
     (case def_Role s of
        ClusterRoleMaster \<Rightarrow> True
      | ClusterRoleStandby \<Rightarrow> cs_StandbyConfig s \<noteq> None
      | ClusterRoleOther _ \<Rightarrow> False) \<and>
     (case cs_InitMode s of
        Some ClusterInitModeNew \<Rightarrow> def_Role s \<noteq> ClusterRoleStandby
      | Some ClusterInitModeExisting \<Rightarrow>
          (case cs_ExistingConfig s of None \<Rightarrow> False | Some ec \<Rightarrow> ec_KeeperUID ec \<noteq> '''')
      | Some ClusterInitModePITR \<Rightarrow>
          (case cs_PITRConfig s of
             None \<Rightarrow> False
           | Some pc \<Rightarrow> pc_DataRestoreCommand pc \<noteq> '''' \<and>
               \<not> (pc_RecoveryTargetSettings pc \<noteq> None \<and> def_Role s = ClusterRoleStandby))
      | _ \<Rightarrow> False)"

lemma validateInitMode_None:
  "validateInitMode s m = None \<longleftrightarrow>
     (case m of
        ClusterInitModeNew \<Rightarrow> def_Role s \<noteq> ClusterRoleStandby
      | ClusterInitModeExisting \<Rightarrow>
          (case cs_ExistingConfig s of None \<Rightarrow> False | Some ec \<Rightarrow> ec_KeeperUID ec \<noteq> '''')
      | ClusterInitModePITR \<Rightarrow>
          (case cs_PITRConfig s of
             None \<Rightarrow> False
           | Some pc \<Rightarrow> pc_DataRestoreCommand pc \<noteq> '''' \<and>
               \<not> (pc_RecoveryTargetSettings pc \<noteq> None \<and> def_Role s = ClusterRoleStandby))
      | _ \<Rightarrow> False)"
  by (cases m) (simp_all add: validateInitMode_def split: option.splits)

lemma validateAccessAndRole_None:
  "validateAccessAndRole s m = None \<longleftrightarrow>
     def_SUReplAccessMode s \<in> {SUReplAccessAll, SUReplAccessStrict} \<and>
     (case def_Role s of
        ClusterRoleMaster \<Rightarrow> True
      | ClusterRoleStandby \<Rightarrow> cs_StandbyConfig s \<noteq> None
      | ClusterRoleOther _ \<Rightarrow> False)"
  by (cases "def_SUReplAccessMode s"; cases "def_Role s")
    (simp_all add: validateAccessAndRole_def split: option.splits)

lemma validate_lists:
  "first_error validateReplicationSlot (elems (cs_AdditionalMasterReplicationSlots s)) = None \<and>
   first_error validateHBAEntry (elems (cs_PGHBA s)) = None \<longleftrightarrow> valid_lists s"
  by (auto simp: valid_lists_def first_error_None_iff list_all_iff validateReplicationSlot_def
      validateHBAEntry_def)

lemma valid_numbers_alt:
  "valid_numbers s \<longleftrightarrow>
     \<not> def_SleepInterval s < 0 \<and> \<not> def_RequestTimeout s < 0 \<and> \<not> def_ConvergenceTimeout s < 0 \<and>
     \<not> def_InitTimeout s < 0 \<and> \<not> def_SyncTimeout s < 0 \<and> \<not> def_DeadKeeperRemovalInterval s < 0 \<and>
     \<not> def_FailInterval s < 0 \<and> \<not> def_MaxStandbys s < 1 \<and> \<not> def_MaxStandbysPerSender s < 1 \<and>
     \<not> def_MinSynchronousStandbys s < 1 \<and> \<not> def_MaxSynchronousStandbys s < 1 \<and>
     \<not> def_MaxSynchronousStandbys s < def_MinSynchronousStandbys s"
  by (auto simp: valid_numbers_def not_less one_le_word)

lemma Validate_iff: "Validate s = None \<longleftrightarrow> valid_numbers s \<and> valid_lists s \<and> valid_modes s"
proof (cases "valid_numbers s")
  case True
  then have "Validate s = None \<longleftrightarrow>
      (case cs_InitMode s of
         None \<Rightarrow> False
       | Some m \<Rightarrow> valid_lists s \<and> validateInitMode s m = None \<and> validateAccessAndRole s m = None)"
    by (simp add: Validate_def valid_numbers_alt flip: validate_lists split: option.splits)
  then show ?thesis
    using True
    by (auto simp: valid_modes_def validateInitMode_None validateAccessAndRole_None split: option.splits)
next
  case False
  then have "Validate s \<noteq> None"
    unfolding valid_numbers_alt Validate_def by (auto split: if_split)
  with False show ?thesis by simp
qed

text \<open>
  C32. \<^verbatim>\<open>UpdateSpec\<close> on a cluster whose current specification is valid never panics, and it succeeds
  exactly when the new specification is valid, keeps the init mode and does not move the cluster from
  the master to the standby role; it then replaces the specification and nothing else.
\<close>

theorem UpdateSpec_correct:
  assumes "c_Spec c = Some s" and "Validate s = None"
  shows "no_panic (UpdateSpec c ns) \<and>
    (UpdateSpec c ns = Inr c' \<longleftrightarrow>
       Validate ns = None \<and> cs_InitMode ns = cs_InitMode s \<and>
       \<not> (def_Role s = ClusterRoleMaster \<and> def_Role ns = ClusterRoleStandby) \<and>
       c' = c\<lparr>c_Spec := Some ns\<rparr>)"
proof (cases "Validate ns")
  case None
  then obtain m m' where "cs_InitMode ns = Some m" "cs_InitMode s = Some m'"
    using assms(2) by (fastforce simp: Validate_iff valid_modes_def split: option.splits)
  with None assms(1) show ?thesis
    by (auto simp: UpdateSpec_def)
next
  case (Some e)
  then show ?thesis by (simp add: UpdateSpec_def)
qed

definition example_spec :: ClusterSpec where
  "example_spec =
     \<lparr>cs_SleepInterval = None, cs_RequestTimeout = None, cs_ConvergenceTimeout = None,
      cs_InitTimeout = None, cs_SyncTimeout = None, cs_FailInterval = None,
      cs_DeadKeeperRemovalInterval = None, cs_MaxStandbys = None, cs_MaxStandbysPerSender = None,
      cs_MaxStandbyLag = None, cs_SynchronousReplication = None, cs_MinSynchronousStandbys = None,
      cs_MaxSynchronousStandbys = None, cs_AdditionalWalSenders = None,
      cs_AdditionalMasterReplicationSlots = None, cs_UsePgrewind = None,
      cs_InitMode = Some ClusterInitModeNew, cs_MergePgParameters = None, cs_Role = None,
      cs_NewConfig = None, cs_PITRConfig = None, cs_ExistingConfig = None, cs_StandbyConfig = None,
      cs_DefaultSUReplAccessMode = None, cs_PGParameters = None, cs_PGHBA = None\<rparr>"

lemma example_spec_valid: "Validate example_spec = None"
  by code_simp

theorem UpdateSpec_correct_witness:
  "no_panic (UpdateSpec (NewCluster 0 ''c'' (Some example_spec)) example_spec) \<and>
   UpdateSpec (NewCluster 0 ''c'' (Some example_spec)) example_spec =
     Inr (NewCluster 0 ''c'' (Some example_spec))"
proof -
  have s: "c_Spec (NewCluster 0 ''c'' (Some example_spec)) = Some example_spec"
    by (simp add: NewCluster_def)
  have r: "def_Role example_spec = ClusterRoleMaster" by code_simp
  show ?thesis
    using UpdateSpec_correct [OF s example_spec_valid, of example_spec "NewCluster 0 ''c'' (Some example_spec)"] r
    by (simp add: example_spec_valid NewCluster_def)
qed

end
