(* ===== verification/Cluster_V0.thy ===== *)
theory Cluster_V0
  imports Cluster
begin

text \<open>
  The cluster data of an earlier release (\<^verbatim>\<open>internal/cluster/v0\<close>): the configuration with optional fields
  and its defaults (\<^verbatim>\<open>config.go\<close>), the cluster view with the roles of the keepers
  (\<^verbatim>\<open>clusterview.go\<close>) and the types of the members (\<^verbatim>\<open>member.go\<close>).

  A pointer that may be nil and a map that may be nil are options; the zero time is \<open>None\<close>. The methods
  \<^verbatim>\<open>Copy\<close> that are the identity on values are left out; those of the configuration, of the roles and of the
  cluster view are not, since they turn a nil map into an empty one.
\<close>

section \<open>Configuration\<close>

type_synonym uint = "64 word"

record v0_NilConfig =
  nc_RequestTimeout :: "duration option"
  nc_SleepInterval :: "duration option"
  nc_KeeperFailInterval :: "duration option"
  nc_MaxStandbysPerSender :: "uint option"
  nc_SynchronousReplication :: "bool option"
  nc_InitWithMultipleKeepers :: "bool option"
  nc_UsePGRewind :: "bool option"
  nc_PGParameters :: "PGParameters option"

record v0_Config =
  co_RequestTimeout :: duration
  co_SleepInterval :: duration
  co_KeeperFailInterval :: duration
  co_MaxStandbysPerSender :: uint
  co_SynchronousReplication :: bool
  co_InitWithMultipleKeepers :: bool
  co_UsePGRewind :: bool
  co_PGParameters :: PGParameters

definition v0_DefaultRequestTimeout :: duration where "v0_DefaultRequestTimeout = 10 * second"
definition v0_DefaultSleepInterval :: duration where "v0_DefaultSleepInterval = 5 * second"
definition v0_DefaultKeeperFailInterval :: duration where "v0_DefaultKeeperFailInterval = 20 * second"
definition v0_DefaultMaxStandbysPerSender :: uint where "v0_DefaultMaxStandbysPerSender = 3"
definition v0_DefaultSynchronousReplication :: bool where "v0_DefaultSynchronousReplication = False"
definition v0_DefaultInitWithMultipleKeepers :: bool where "v0_DefaultInitWithMultipleKeepers = False"
definition v0_DefaultUsePGRewind :: bool where "v0_DefaultUsePGRewind = False"

lemmas v0_defaults = v0_DefaultRequestTimeout_def v0_DefaultSleepInterval_def v0_DefaultKeeperFailInterval_def
  v0_DefaultMaxStandbysPerSender_def v0_DefaultSynchronousReplication_def v0_DefaultInitWithMultipleKeepers_def v0_DefaultUsePGRewind_def

text \<open>The copy of a map: a new map with the same entries.\<close>

definition copyMap :: "(string, 'v) fmap option \<Rightarrow> (string, 'v) fmap option" where
  "copyMap m = Some (case m of None \<Rightarrow> fmempty | Some a \<Rightarrow> a)"

definition v0_NilConfig_Copy :: "v0_NilConfig option \<Rightarrow> v0_NilConfig option" where
  "v0_NilConfig_Copy c = (case c of None \<Rightarrow> None | Some c \<Rightarrow> Some (c\<lparr>nc_PGParameters := map_option copyMap (nc_PGParameters c)\<rparr>))"

definition v0_Config_Copy :: "v0_Config option \<Rightarrow> v0_Config option" where
  "v0_Config_Copy c = (case c of None \<Rightarrow> None | Some c \<Rightarrow> Some (c\<lparr>co_PGParameters := copyMap (co_PGParameters c)\<rparr>))"

definition v0_Validate :: "v0_NilConfig \<Rightarrow> string option" where
  "v0_Validate c =
     (if \<exists>d\<in>set_option (nc_RequestTimeout c). d < 0 then Some ''request_timeout must be positive''
      else if \<exists>d\<in>set_option (nc_SleepInterval c). d < 0 then Some ''sleep_interval must be positive''
      else if \<exists>d\<in>set_option (nc_KeeperFailInterval c). d < 0 then Some ''keeper_fail_interval must be positive''
      else if \<exists>n\<in>set_option (nc_MaxStandbysPerSender c). n < 1 then Some ''max_standbys_per_sender must be at least 1''
      else None)"

text \<open>Reading a configuration: \<open>parsed\<close> is what the JSON library made of the bytes.\<close>

definition v0_UnmarshalJSON :: "string + v0_NilConfig \<Rightarrow> v0_NilConfig res" where
  "v0_UnmarshalJSON parsed =
     (case parsed of
        Inl err \<Rightarrow> Inl (Error err)
      | Inr c \<Rightarrow> (case v0_Validate c of Some err \<Rightarrow> Inl (Error (''config validation failed: '' @ err)) | None \<Rightarrow> Inr c))"

definition v0_MergeDefaults :: "v0_NilConfig \<Rightarrow> v0_NilConfig" where
  "v0_MergeDefaults c = c\<lparr>
     nc_RequestTimeout := or_default (nc_RequestTimeout c) v0_DefaultRequestTimeout,
     nc_SleepInterval := or_default (nc_SleepInterval c) v0_DefaultSleepInterval,
     nc_KeeperFailInterval := or_default (nc_KeeperFailInterval c) v0_DefaultKeeperFailInterval,
     nc_MaxStandbysPerSender := or_default (nc_MaxStandbysPerSender c) v0_DefaultMaxStandbysPerSender,
     nc_SynchronousReplication := or_default (nc_SynchronousReplication c) v0_DefaultSynchronousReplication,
     nc_InitWithMultipleKeepers := or_default (nc_InitWithMultipleKeepers c) v0_DefaultInitWithMultipleKeepers,
     nc_UsePGRewind := or_default (nc_UsePGRewind c) v0_DefaultUsePGRewind,
     nc_PGParameters := or_default (nc_PGParameters c) (Some fmempty)\<rparr>"

text \<open>Every field is dereferenced; a nil configuration and a nil field panic.\<close>

definition v0_ToConfig :: "v0_NilConfig option \<Rightarrow> v0_Config res" where
  "v0_ToConfig c =
     bindE (deref ''nil config'' (v0_NilConfig_Copy c)) (\<lambda>nc.
     let nc = v0_MergeDefaults nc in
     bindE (deref ''nil RequestTimeout'' (nc_RequestTimeout nc)) (\<lambda>requestTimeout.
     bindE (deref ''nil SleepInterval'' (nc_SleepInterval nc)) (\<lambda>sleepInterval.
     bindE (deref ''nil KeeperFailInterval'' (nc_KeeperFailInterval nc)) (\<lambda>keeperFailInterval.
     bindE (deref ''nil MaxStandbysPerSender'' (nc_MaxStandbysPerSender nc)) (\<lambda>maxStandbysPerSender.
     bindE (deref ''nil SynchronousReplication'' (nc_SynchronousReplication nc)) (\<lambda>synchronousReplication.
     bindE (deref ''nil InitWithMultipleKeepers'' (nc_InitWithMultipleKeepers nc)) (\<lambda>initWithMultipleKeepers.
     bindE (deref ''nil UsePGRewind'' (nc_UsePGRewind nc)) (\<lambda>usePGRewind.
     bindE (deref ''nil PGParameters'' (nc_PGParameters nc)) (\<lambda>pgParameters.
       Inr \<lparr>co_RequestTimeout = requestTimeout, co_SleepInterval = sleepInterval, co_KeeperFailInterval = keeperFailInterval,
            co_MaxStandbysPerSender = maxStandbysPerSender, co_SynchronousReplication = synchronousReplication,
            co_InitWithMultipleKeepers = initWithMultipleKeepers, co_UsePGRewind = usePGRewind, co_PGParameters = pgParameters\<rparr>)))))))))"

definition v0_emptyConfig :: v0_NilConfig where
  "v0_emptyConfig =
     \<lparr>nc_RequestTimeout = None, nc_SleepInterval = None, nc_KeeperFailInterval = None, nc_MaxStandbysPerSender = None,
      nc_SynchronousReplication = None, nc_InitWithMultipleKeepers = None, nc_UsePGRewind = None, nc_PGParameters = None\<rparr>"

definition v0_NewDefaultConfig :: "v0_Config res" where
  "v0_NewDefaultConfig = v0_ToConfig (Some (v0_MergeDefaults v0_emptyConfig))"

section \<open>Members\<close>

record v0_KeeperInfo =
  oki_ID :: string
  oki_ClusterViewVersion :: int64
  oki_ListenAddress :: string
  oki_Port :: string
  oki_PGListenAddress :: string
  oki_PGPort :: string

record v0_PostgresState =
  ops_Initialized :: bool
  ops_Role :: Role
  ops_SystemID :: string
  ops_TimelineID :: uint64
  ops_XLogPos :: uint64
  ops_TimelinesHistory :: PostgresTimelinesHistory

record v0_KeeperState =
  oks_ID :: string
  oks_ErrorStartTime :: "gotime option"
  oks_Healthy :: bool
  oks_ClusterViewVersion :: int64
  oks_ListenAddress :: string
  oks_Port :: string
  oks_PGListenAddress :: string
  oks_PGPort :: string
  oks_PGState :: "v0_PostgresState option"

type_synonym v0_KeepersState = "(string, v0_KeeperState) fmap"

definition v0_SortedKeys :: "iter_order \<Rightarrow> v0_KeepersState \<Rightarrow> string list" where
  "v0_SortedKeys ord kss = sort (map fst (range_by ord kss))"

definition v0_NewFromKeeperInfo :: "v0_KeeperInfo \<Rightarrow> v0_KeepersState \<Rightarrow> v0_KeepersState res" where
  "v0_NewFromKeeperInfo ki kss =
     (if fmlookup kss (oki_ID ki) \<noteq> None then Inl (Error ''keeperState with this id already exists'')
      else Inr (fmupd (oki_ID ki)
        \<lparr>oks_ID = oki_ID ki, oks_ErrorStartTime = None, oks_Healthy = False, oks_ClusterViewVersion = oki_ClusterViewVersion ki,
         oks_ListenAddress = oki_ListenAddress ki, oks_Port = oki_Port ki, oks_PGListenAddress = oki_PGListenAddress ki,
         oks_PGPort = oki_PGPort ki, oks_PGState = None\<rparr> kss))"

definition v0_ChangedFromKeeperInfo :: "v0_KeeperInfo \<Rightarrow> v0_KeeperState \<Rightarrow> bool res" where
  "v0_ChangedFromKeeperInfo ki ks =
     (if oks_ID ks \<noteq> oki_ID ki then Inl (Error ''different IDs'')
      else Inr (oks_ClusterViewVersion ks \<noteq> oki_ClusterViewVersion ki \<or> oks_ListenAddress ks \<noteq> oki_ListenAddress ki \<or>
        oks_Port ks \<noteq> oki_Port ki \<or> oks_PGListenAddress ks \<noteq> oki_PGListenAddress ki \<or> oks_PGPort ks \<noteq> oki_PGPort ki))"

definition v0_UpdateFromKeeperInfo :: "v0_KeeperInfo \<Rightarrow> v0_KeeperState \<Rightarrow> v0_KeeperState res" where
  "v0_UpdateFromKeeperInfo ki ks =
     (if oks_ID ks \<noteq> oki_ID ki then Inl (Error ''different IDs'')
      else Inr (ks\<lparr>oks_ClusterViewVersion := oki_ClusterViewVersion ki, oks_ListenAddress := oki_ListenAddress ki,
        oks_Port := oki_Port ki, oks_PGListenAddress := oki_PGListenAddress ki, oks_PGPort := oki_PGPort ki\<rparr>))"

definition v0_SetError :: "gotime \<Rightarrow> v0_KeeperState \<Rightarrow> v0_KeeperState" where
  "v0_SetError now ks = (if oks_ErrorStartTime ks = None then ks\<lparr>oks_ErrorStartTime := Some now\<rparr> else ks)"

definition v0_CleanError :: "v0_KeeperState \<Rightarrow> v0_KeeperState" where
  "v0_CleanError ks = ks\<lparr>oks_ErrorStartTime := None\<rparr>"

section \<open>Cluster view\<close>

record v0_KeeperRole =
  okr_ID :: string
  okr_Follow :: string

type_synonym v0_KeepersRole = "(string, v0_KeeperRole) fmap option"

record v0_ProxyConf =
  opc_Host :: string
  opc_Port :: string

record v0_ClusterView =
  cv_Version :: int64
  cv_Master :: string
  cv_KeepersRole :: v0_KeepersRole
  cv_ProxyConf :: "v0_ProxyConf option"
  cv_Config :: "v0_NilConfig option"
  cv_ChangeTime :: "gotime option"

record v0_ClusterData =
  ocd_FormatVersion :: uint64
  ocd_KeepersState :: v0_KeepersState
  ocd_ClusterView :: "v0_ClusterView option"

definition v0_CurrentCDFormatVersion :: uint64 where "v0_CurrentCDFormatVersion = 0"

definition v0_NewKeepersRole :: v0_KeepersRole where
  "v0_NewKeepersRole = Some fmempty"

text \<open>Adding to a nil map panics.\<close>

definition v0_Add :: "string \<Rightarrow> string \<Rightarrow> v0_KeepersRole \<Rightarrow> v0_KeepersRole res" where
  "v0_Add uid follow ksr =
     (case ksr of
        None \<Rightarrow> Inl (Panic ''assignment to entry in nil map'')
      | Some m \<Rightarrow>
          if fmlookup m uid \<noteq> None then Inl (Error ''keeperRole with this id already exists'')
          else Inr (Some (fmupd uid \<lparr>okr_ID = uid, okr_Follow = follow\<rparr> m)))"

definition v0_NewClusterView :: v0_ClusterView where
  "v0_NewClusterView =
     \<lparr>cv_Version = 0, cv_Master = '''', cv_KeepersRole = v0_NewKeepersRole, cv_ProxyConf = None, cv_Config = Some v0_emptyConfig,
      cv_ChangeTime = None\<rparr>"

text \<open>The master is compared with itself.\<close>

definition v0_Equals :: "v0_ClusterView option \<Rightarrow> v0_ClusterView option \<Rightarrow> bool res" where
  "v0_Equals cv ncv =
     (case cv of
        None \<Rightarrow> Inr (ncv = None)
      | Some cv \<Rightarrow>
          bindE (deref ''nil ClusterView'' ncv) (\<lambda>ncv.
            Inr (cv_Version cv = cv_Version ncv \<and> cv_Master cv = cv_Master cv \<and> cv_KeepersRole cv = cv_KeepersRole ncv \<and>
                 cv_ProxyConf cv = cv_ProxyConf ncv \<and> cv_Config cv = cv_Config ncv)))"

definition v0_ClusterView_Copy :: "v0_ClusterView option \<Rightarrow> v0_ClusterView option" where
  "v0_ClusterView_Copy cv =
     (case cv of
        None \<Rightarrow> None
      | Some cv \<Rightarrow> Some (cv\<lparr>cv_KeepersRole := copyMap (cv_KeepersRole cv), cv_Config := v0_NilConfig_Copy (cv_Config cv)\<rparr>))"

definition v0_GetFollowersIDs :: "iter_order \<Rightarrow> string \<Rightarrow> v0_ClusterView \<Rightarrow> string list" where
  "v0_GetFollowersIDs ord uid cv =
     sort (map fst (filter (\<lambda>(_, kr). okr_Follow kr = uid) (range_by ord (case cv_KeepersRole cv of None \<Rightarrow> fmempty | Some m \<Rightarrow> m))))"

section \<open>Properties\<close>

lemma copyMap_idem [simp]: "copyMap (copyMap m) = copyMap m"
  by (simp add: copyMap_def)

lemma copyMap_Some: "copyMap m = m \<longleftrightarrow> m \<noteq> None"
  by (cases m) (simp_all add: copyMap_def)

lemma v0_MergeDefaults_idem: "v0_MergeDefaults (v0_MergeDefaults c) = v0_MergeDefaults c"
  by (simp add: v0_MergeDefaults_def or_default_def split: option.splits)

text \<open>The fields of the complete configuration: the field that is set, or the default.\<close>

definition completes :: "v0_NilConfig \<Rightarrow> v0_Config \<Rightarrow> bool" where
  "completes c cfg \<longleftrightarrow>
     co_RequestTimeout cfg = val (nc_RequestTimeout c) v0_DefaultRequestTimeout \<and>
     co_SleepInterval cfg = val (nc_SleepInterval c) v0_DefaultSleepInterval \<and>
     co_KeeperFailInterval cfg = val (nc_KeeperFailInterval c) v0_DefaultKeeperFailInterval \<and>
     co_MaxStandbysPerSender cfg = val (nc_MaxStandbysPerSender c) v0_DefaultMaxStandbysPerSender \<and>
     co_SynchronousReplication cfg = val (nc_SynchronousReplication c) v0_DefaultSynchronousReplication \<and>
     co_InitWithMultipleKeepers cfg = val (nc_InitWithMultipleKeepers c) v0_DefaultInitWithMultipleKeepers \<and>
     co_UsePGRewind cfg = val (nc_UsePGRewind c) v0_DefaultUsePGRewind \<and>
     co_PGParameters cfg = copyMap (val (nc_PGParameters c) None)"

lemma v0_ToConfig_completes: "\<exists>cfg. v0_ToConfig (Some c) = Inr cfg \<and> completes c cfg"
  by (simp add: v0_ToConfig_def v0_NilConfig_Copy_def deref_def v0_MergeDefaults_def or_default_def val_def completes_def copyMap_def
      split: option.splits)

lemma completes_unique: "completes c cfg \<Longrightarrow> completes c cfg' \<Longrightarrow> cfg = cfg'"
  by (rule v0_Config.equality) (simp_all add: completes_def)

lemma completes_MergeDefaults: "completes (v0_MergeDefaults c) cfg \<longleftrightarrow> completes c cfg"
  by (simp add: completes_def v0_MergeDefaults_def or_default_def val_def copyMap_def split: option.splits)

lemma v0_Validate_sound:
  assumes "v0_Validate c = None"
  shows "0 \<le> val (nc_RequestTimeout c) v0_DefaultRequestTimeout \<and> 0 \<le> val (nc_SleepInterval c) v0_DefaultSleepInterval \<and>
    0 \<le> val (nc_KeeperFailInterval c) v0_DefaultKeeperFailInterval \<and> 1 \<le> val (nc_MaxStandbysPerSender c) v0_DefaultMaxStandbysPerSender"
proof (intro conjI)
  show "0 \<le> val (nc_RequestTimeout c) v0_DefaultRequestTimeout"
    using assms by (cases "nc_RequestTimeout c") (auto simp: v0_Validate_def val_def v0_defaults second_def split: if_splits)
  show "0 \<le> val (nc_SleepInterval c) v0_DefaultSleepInterval"
    using assms by (cases "nc_SleepInterval c") (auto simp: v0_Validate_def val_def v0_defaults second_def split: if_splits)
  show "0 \<le> val (nc_KeeperFailInterval c) v0_DefaultKeeperFailInterval"
    using assms by (cases "nc_KeeperFailInterval c") (auto simp: v0_Validate_def val_def v0_defaults second_def split: if_splits)
  have "\<not> val (nc_MaxStandbysPerSender c) v0_DefaultMaxStandbysPerSender < 1"
    using assms by (cases "nc_MaxStandbysPerSender c") (auto simp: v0_Validate_def val_def v0_defaults split: if_splits)
  then show "1 \<le> val (nc_MaxStandbysPerSender c) v0_DefaultMaxStandbysPerSender" by (rule leI)
qed

text \<open>
  The old configuration. A configuration that can be read is complete: \<^verbatim>\<open>ToConfig\<close> does not panic, keeps
  every field that is set and takes the defaults for the others, its intervals are not negative and at least one standby per sender
  is allowed, and merging the defaults before makes no difference.
\<close>

theorem v0_config_complete:
  assumes "v0_UnmarshalJSON parsed = Inr c"
  shows "\<exists>cfg. v0_ToConfig (Some c) = Inr cfg \<and> completes c cfg \<and> v0_ToConfig (Some (v0_MergeDefaults c)) = Inr cfg \<and>
    0 \<le> co_RequestTimeout cfg \<and> 0 \<le> co_SleepInterval cfg \<and> 0 \<le> co_KeeperFailInterval cfg \<and> 1 \<le> co_MaxStandbysPerSender cfg"
proof -
  have ok: "v0_Validate c = None" using assms by (auto simp: v0_UnmarshalJSON_def split: sum.splits option.splits)
  obtain cfg where cfg: "v0_ToConfig (Some c) = Inr cfg" "completes c cfg" using v0_ToConfig_completes by blast
  obtain cfg' where cfg': "v0_ToConfig (Some (v0_MergeDefaults c)) = Inr cfg'" "completes (v0_MergeDefaults c) cfg'"
    using v0_ToConfig_completes by blast
  then have "cfg' = cfg" using completes_unique [OF _ cfg(2)] completes_MergeDefaults by blast
  moreover have "0 \<le> co_RequestTimeout cfg \<and> 0 \<le> co_SleepInterval cfg \<and> 0 \<le> co_KeeperFailInterval cfg \<and> 1 \<le> co_MaxStandbysPerSender cfg"
    using v0_Validate_sound [OF ok] cfg(2) by (simp add: completes_def)
  ultimately show ?thesis using cfg cfg'(1) by blast
qed

text \<open>A default configuration exists.\<close>

lemma v0_NewDefaultConfig_ok: "\<exists>cfg. v0_NewDefaultConfig = Inr cfg \<and> completes v0_emptyConfig cfg"
  using v0_ToConfig_completes [of "v0_MergeDefaults v0_emptyConfig"] by (simp add: v0_NewDefaultConfig_def completes_MergeDefaults)

text \<open>A keeper state that was created or updated from an information has not changed from it; errors keep their first time.\<close>

lemma v0_new_unchanged:
  assumes "v0_NewFromKeeperInfo ki kss = Inr kss'"
  shows "\<exists>ks. kss' = fmupd (oki_ID ki) ks kss \<and> fmlookup kss (oki_ID ki) = None \<and> v0_ChangedFromKeeperInfo ki ks = Inr False"
proof -
  have new: "fmlookup kss (oki_ID ki) = None" using assms by (simp add: v0_NewFromKeeperInfo_def split: if_splits)
  let ?ks = "\<lparr>oks_ID = oki_ID ki, oks_ErrorStartTime = None, oks_Healthy = False, oks_ClusterViewVersion = oki_ClusterViewVersion ki,
         oks_ListenAddress = oki_ListenAddress ki, oks_Port = oki_Port ki, oks_PGListenAddress = oki_PGListenAddress ki,
         oks_PGPort = oki_PGPort ki, oks_PGState = None\<rparr>"
  have "kss' = fmupd (oki_ID ki) ?ks kss" using assms new by (simp add: v0_NewFromKeeperInfo_def)
  moreover have "v0_ChangedFromKeeperInfo ki ?ks = Inr False" by (simp add: v0_ChangedFromKeeperInfo_def)
  ultimately show ?thesis using new by blast
qed

lemma v0_update_unchanged: "v0_UpdateFromKeeperInfo ki ks = Inr ks' \<Longrightarrow> v0_ChangedFromKeeperInfo ki ks' = Inr False"
  by (auto simp: v0_UpdateFromKeeperInfo_def v0_ChangedFromKeeperInfo_def split: if_splits)

lemma v0_unchanged_update: "v0_ChangedFromKeeperInfo ki ks = Inr False \<longleftrightarrow> v0_UpdateFromKeeperInfo ki ks = Inr ks"
  by (cases ks; cases ki) (auto simp: v0_UpdateFromKeeperInfo_def v0_ChangedFromKeeperInfo_def)

lemma v0_first_error: "v0_SetError t2 (v0_SetError t1 ks) = v0_SetError t1 ks" "v0_SetError t (v0_CleanError ks) = ks\<lparr>oks_ErrorStartTime := Some t\<rparr>"
  by (simp_all add: v0_SetError_def v0_CleanError_def)

text \<open>The followers are sorted, and do not depend on the order of the map.\<close>

lemma v0_followers:
  "set (v0_GetFollowersIDs ord uid cv) =
     {k. \<exists>m kr. cv_KeepersRole cv = Some m \<and> fmlookup m k = Some kr \<and> okr_Follow kr = uid}"
  "sorted (v0_GetFollowersIDs ord uid cv)" "distinct (v0_GetFollowersIDs ord uid cv)"
proof -
  show "set (v0_GetFollowersIDs ord uid cv) =
     {k. \<exists>m kr. cv_KeepersRole cv = Some m \<and> fmlookup m k = Some kr \<and> okr_Follow kr = uid}"
    by (force simp: v0_GetFollowersIDs_def image_iff split: option.splits)
  show "sorted (v0_GetFollowersIDs ord uid cv)" by (simp add: v0_GetFollowersIDs_def)
  show "distinct (v0_GetFollowersIDs ord uid cv)"
    unfolding v0_GetFollowersIDs_def distinct_sort by (rule distinct_map_filter) simp
qed

lemma v0_followers_order: "v0_GetFollowersIDs ord uid cv = v0_GetFollowersIDs ord' uid cv"
  by (rule sorted_distinct_set_unique) (simp_all add: v0_followers)

text \<open>
  Comparing cluster views. \<^verbatim>\<open>Equals\<close> ignores the time of the change, as it says, and also the master; a copy
  of a view is equal to it if its roles and its parameters are not nil.
\<close>

theorem v0_Equals_ignores_master:
  "v0_Equals (Some cv) (Some (cv\<lparr>cv_Master := m, cv_ChangeTime := t\<rparr>)) = Inr True"
  by (simp add: v0_Equals_def deref_def)

lemma v0_Equals_copy:
  assumes "cv_KeepersRole cv \<noteq> None" "\<forall>c ps. cv_Config cv = Some c \<and> nc_PGParameters c = Some ps \<longrightarrow> ps \<noteq> None"
  shows "v0_ClusterView_Copy (Some cv) = Some cv \<and> v0_Equals (Some cv) (v0_ClusterView_Copy (Some cv)) = Inr True"
proof -
  have "v0_NilConfig_Copy (cv_Config cv) = cv_Config cv"
  proof (cases "cv_Config cv")
    case (Some c)
    with assms(2) have "map_option copyMap (nc_PGParameters c) = nc_PGParameters c"
      by (cases "nc_PGParameters c") (simp_all add: copyMap_Some)
    then show ?thesis using Some by (simp add: v0_NilConfig_Copy_def)
  qed (simp add: v0_NilConfig_Copy_def)
  then have "v0_ClusterView_Copy (Some cv) = Some cv" using assms(1) copyMap_Some [of "cv_KeepersRole cv"] by (simp add: v0_ClusterView_Copy_def)
  then show ?thesis by (simp add: v0_Equals_def deref_def)
qed

theorem v0_config_complete_witness:
  "\<exists>cfg. v0_ToConfig (Some v0_emptyConfig) = Inr cfg \<and> 0 \<le> co_SleepInterval cfg"
proof -
  have "v0_UnmarshalJSON (Inr v0_emptyConfig) = Inr v0_emptyConfig" by (simp add: v0_UnmarshalJSON_def v0_Validate_def v0_emptyConfig_def)
  from v0_config_complete [OF this] show ?thesis by blast
qed

end
