(* ===== verification/Sentinel_State.thy ===== *)
theory Sentinel_State
  imports Cluster
begin

text \<open>
  The state of a sentinel (\<^verbatim>\<open>cmd/sentinel/cmd/sentinel.go\<close>) and how it turns what the members publish into
  the status part of the cluster data: error timers, keeper info histories, the health of keepers and databases, the active proxies,
  the convergence of databases.

  What a check reads from outside is the record \<open>Env\<close>: one reading of the monotonic clock and one of the wall clock per
  check, the results of the successive calls of \<^verbatim>\<open>UIDFn\<close>, of \<^verbatim>\<open>RandFn\<close>, and the
  iteration orders of the maps whose loops are order dependent (\<open>e_ord n\<close> for the loop number \<open>n\<close>, or for
  the ties of a sort that is not stable). The maps of a \<^verbatim>\<open>Sentinel\<close> that are nil before its first check as a
  leader are empty maps here: that check creates them before it writes to them.
\<close>

section \<open>State\<close>

record Env =
  e_now :: int
  e_wall :: gotime
  e_uidFn :: "nat \<Rightarrow> string"
  e_randFn :: "nat \<Rightarrow> nat"
  e_ord :: "nat \<Rightarrow> iter_order"

record KeeperInfoHistory =
  kih_KeeperInfo :: KeeperInfo
  kih_Seen :: bool
  kih_Timer :: int

record DBConvergenceInfo =
  dci_Generation :: int64
  dci_Timer :: int

record ProxyInfoHistory =
  pih_ProxyInfo :: ProxyInfo
  pih_Timer :: int

type_synonym KeeperInfoHistories = "(string, KeeperInfoHistory) fmap"
type_synonym ProxyInfoHistories = "(string, ProxyInfoHistory) fmap"

record Sentinel =
  s_uid :: string
  s_lastLeadershipCount :: nat
  s_leader :: bool
  s_leadershipCount :: nat
  s_initialClusterSpec :: "ClusterSpec option"
  s_sleepInterval :: duration
  s_requestTimeout :: duration
  s_keeperErrorTimers :: "(string, int) fmap"
  s_dbErrorTimers :: "(string, int) fmap"
  s_dbNotIncreasingXLogPos :: "(string, int) fmap"
  s_dbConvergenceInfos :: "(string, DBConvergenceInfo) fmap"
  s_keeperInfoHistories :: KeeperInfoHistories
  s_proxyInfoHistories :: ProxyInfoHistories

datatype ConvergenceState = Converging | Converged | ConvergenceFailed

definition Since :: "Env \<Rightarrow> int \<Rightarrow> duration" where
  "Since env start = e_now env - start"

definition cluster_of :: "ClusterData \<Rightarrow> Cluster res" where
  "cluster_of cd = deref ''nil Cluster'' (cd_Cluster cd)"

definition defspec_of :: "ClusterData \<Rightarrow> ClusterSpec res" where
  "defspec_of cd = bindE (cluster_of cd) DefSpec"

definition syncRepl :: "ClusterSpec \<Rightarrow> bool" where
  "syncRepl spec = (def_SynchronousReplication spec \<and> def_Role spec = ClusterRoleMaster)"

section \<open>Error timers\<close>

definition SetKeeperError :: "Env \<Rightarrow> string \<Rightarrow> Sentinel \<Rightarrow> Sentinel" where
  "SetKeeperError env uid s =
     (case fmlookup (s_keeperErrorTimers s) uid of
        None \<Rightarrow> s\<lparr>s_keeperErrorTimers := fmupd uid (e_now env) (s_keeperErrorTimers s)\<rparr>
      | Some _ \<Rightarrow> s)"

definition CleanKeeperError :: "string \<Rightarrow> Sentinel \<Rightarrow> Sentinel" where
  "CleanKeeperError uid s =
     (case fmlookup (s_keeperErrorTimers s) uid of
        Some _ \<Rightarrow> s\<lparr>s_keeperErrorTimers := fmdrop uid (s_keeperErrorTimers s)\<rparr>
      | None \<Rightarrow> s)"

definition SetDBError :: "Env \<Rightarrow> string \<Rightarrow> Sentinel \<Rightarrow> Sentinel" where
  "SetDBError env uid s =
     (case fmlookup (s_dbErrorTimers s) uid of
        None \<Rightarrow> s\<lparr>s_dbErrorTimers := fmupd uid (e_now env) (s_dbErrorTimers s)\<rparr>
      | Some _ \<Rightarrow> s)"

definition CleanDBError :: "string \<Rightarrow> Sentinel \<Rightarrow> Sentinel" where
  "CleanDBError uid s =
     (case fmlookup (s_dbErrorTimers s) uid of
        Some _ \<Rightarrow> s\<lparr>s_dbErrorTimers := fmdrop uid (s_dbErrorTimers s)\<rparr>
      | None \<Rightarrow> s)"

definition SetDBNotIncreasingXLogPos :: "string \<Rightarrow> Sentinel \<Rightarrow> Sentinel" where
  "SetDBNotIncreasingXLogPos uid s =
     (case fmlookup (s_dbNotIncreasingXLogPos s) uid of
        None \<Rightarrow> s\<lparr>s_dbNotIncreasingXLogPos := fmupd uid 1 (s_dbNotIncreasingXLogPos s)\<rparr>
      | Some n \<Rightarrow> s\<lparr>s_dbNotIncreasingXLogPos := fmupd uid (n + 1) (s_dbNotIncreasingXLogPos s)\<rparr>)"

definition CleanDBNotIncreasingXLogPos :: "string \<Rightarrow> Sentinel \<Rightarrow> Sentinel" where
  "CleanDBNotIncreasingXLogPos uid s =
     (case fmlookup (s_dbNotIncreasingXLogPos s) uid of
        Some _ \<Rightarrow> s\<lparr>s_dbNotIncreasingXLogPos := fmdrop uid (s_dbNotIncreasingXLogPos s)\<rparr>
      | None \<Rightarrow> s)"

definition isKeeperHealthy :: "Env \<Rightarrow> Sentinel \<Rightarrow> ClusterData \<Rightarrow> Keeper \<Rightarrow> bool res" where
  "isKeeperHealthy env s cd keeper =
     (case fmlookup (s_keeperErrorTimers s) (k_UID keeper) of
        None \<Rightarrow> Inr True
      | Some t \<Rightarrow>
          bindE (defspec_of cd) (\<lambda>spec.
            if Since env t > def_FailInterval spec then Inr False else Inr True))"

definition isDBHealthy :: "Env \<Rightarrow> Sentinel \<Rightarrow> ClusterData \<Rightarrow> DB \<Rightarrow> bool res" where
  "isDBHealthy env s cd db =
     (case fmlookup (s_dbErrorTimers s) (db_UID db) of
        None \<Rightarrow> Inr True
      | Some t \<Rightarrow>
          bindE (defspec_of cd) (\<lambda>spec.
            if Since env t > def_FailInterval spec then Inr False else Inr True))"

definition isDBIncreasingXLogPos :: "Sentinel \<Rightarrow> DB \<Rightarrow> bool" where
  "isDBIncreasingXLogPos s db =
     (case fmlookup (s_dbNotIncreasingXLogPos s) (db_UID db) of
        None \<Rightarrow> True
      | Some t \<Rightarrow> \<not> t > DefaultDBNotIncreasingXLogPosTimes)"

section \<open>updateKeepersStatus\<close>

text \<open>Remove keepers with wrong cluster UID.\<close>

definition dropForeignKeepers :: "Cluster \<Rightarrow> KeepersInfo \<Rightarrow> KeepersInfo" where
  "dropForeignKeepers c keepersInfo =
     delete_keys
       (map (\<lambda>(_, ki). ki_UID ki)
          (filter (\<lambda>(_, ki). ki_ClusterUID ki \<noteq> c_UID c) (entries keepersInfo)))
       keepersInfo"

definition firstRunHistories :: "KeepersInfo \<Rightarrow> KeeperInfoHistories \<Rightarrow> KeeperInfoHistories" where
  "firstRunHistories keepersInfo kihs =
     fold (\<lambda>(keeperUID, ki) m.
             fmupd keeperUID \<lparr>kih_KeeperInfo = ki, kih_Seen = False, kih_Timer = 0\<rparr> m)
       (entries keepersInfo) kihs"

text \<open>Keep only updated keepers info: which infos are removed, and the new histories. Both read
  the history as it was before the loop, since an iteration writes only its own key.\<close>

definition staleKeeperInfo :: "Env \<Rightarrow> Sentinel \<Rightarrow> KeeperInfoHistories \<Rightarrow> string \<Rightarrow> KeeperInfo \<Rightarrow> bool" where
  "staleKeeperInfo env s kihs keeperUID ki =
     (case fmlookup kihs keeperUID of
        None \<Rightarrow> False
      | Some kih \<Rightarrow>
          ki_InfoUID (kih_KeeperInfo kih) = ki_InfoUID ki \<and>
          (\<not> kih_Seen kih \<or> (kih_Seen kih \<and> Since env (kih_Timer kih) > s_sleepInterval s)))"

definition updateHistory :: "Env \<Rightarrow> string \<times> KeeperInfo \<Rightarrow> KeeperInfoHistories \<Rightarrow> KeeperInfoHistories" where
  "updateHistory env e kihs =
     (case e of (keeperUID, ki) \<Rightarrow>
       (case fmlookup kihs keeperUID of
          Some kih \<Rightarrow>
            (if ki_InfoUID (kih_KeeperInfo kih) \<noteq> ki_InfoUID ki
             then fmupd keeperUID \<lparr>kih_KeeperInfo = ki, kih_Seen = True, kih_Timer = e_now env\<rparr> kihs
             else kihs)
        | None \<Rightarrow>
            fmupd keeperUID \<lparr>kih_KeeperInfo = ki, kih_Seen = True, kih_Timer = e_now env\<rparr> kihs))"

definition dropStaleKeepers :: "Env \<Rightarrow> Sentinel \<Rightarrow> KeeperInfoHistories \<Rightarrow> KeepersInfo \<Rightarrow> KeepersInfo" where
  "dropStaleKeepers env s kihs keepersInfo =
     delete_keys
       (map (\<lambda>(_, ki). ki_UID ki)
          (filter (\<lambda>(keeperUID, ki). staleKeeperInfo env s kihs keeperUID ki) (entries keepersInfo)))
       keepersInfo"

text \<open>Create new keepers from keepersInfo.\<close>

definition addNewKeepers :: "Env \<Rightarrow> KeepersInfo \<Rightarrow> Keepers \<Rightarrow> Keepers" where
  "addNewKeepers env keepersInfo keepers =
     fold (\<lambda>(keeperUID, ki) ks.
             (case fmlookup ks keeperUID of
                Some _ \<Rightarrow> ks
              | None \<Rightarrow>
                  (let k = NewKeeperFromKeeperInfo (e_wall env) ki in fmupd (k_UID k) k ks)))
       (entries keepersInfo) keepers"

text \<open>Mark keepers without a keeperInfo as in error, update the status of the others.\<close>

definition markKeepers :: "Env \<Rightarrow> KeepersInfo \<Rightarrow> Keepers \<Rightarrow> Sentinel \<Rightarrow> Sentinel" where
  "markKeepers env keepersInfo keepers s =
     fold (\<lambda>(keeperUID, _) s.
             if fmlookup keepersInfo keeperUID = None then SetKeeperError env keeperUID s
             else CleanKeeperError keeperUID s)
       (entries keepers) s"

definition keeperStatusFromInfo :: "KeepersInfo \<Rightarrow> string \<Rightarrow> Keeper \<Rightarrow> Keeper" where
  "keeperStatusFromInfo keepersInfo keeperUID k =
     (case fmlookup keepersInfo keeperUID of
        None \<Rightarrow> k
      | Some ki \<Rightarrow>
          k\<lparr>k_Status := (k_Status k)\<lparr>
              ks_BootUUID := ki_BootUUID ki,
              ks_PostgresBinaryVersion :=
                \<lparr>pv_Maj = pv_Maj (ki_PostgresBinaryVersion ki),
                 pv_Min = pv_Min (ki_PostgresBinaryVersion ki)\<rparr>\<rparr>\<rparr>)"

text \<open>Update keepers' healthy states (the body of the loop).\<close>

definition keeperHealth :: "Env \<Rightarrow> Sentinel \<Rightarrow> ClusterData \<Rightarrow> Keeper \<Rightarrow> Keeper res" where
  "keeperHealth env s cd k =
     bindE (isKeeperHealthy env s cd k) (\<lambda>h.
       let healthy = (if ks_ForceFail (k_Status k) then False else h);
           st = (k_Status k)\<lparr>ks_ForceFail := False\<rparr>;
           st = (if ks_LastHealthyTime st = 0 then st\<lparr>ks_LastHealthyTime := e_wall env\<rparr> else st);
           st = (if healthy then st\<lparr>ks_LastHealthyTime := e_wall env\<rparr> else st)
       in Inr (k\<lparr>k_Status := st\<lparr>ks_Healthy := healthy\<rparr>\<rparr>))"

text \<open>
  Update dbs' states (the body of the loop): the reported state of a database, if its keeper has one
  for this database; then the timers and the status it leads to.
\<close>

definition reportedState :: "KeepersInfo \<Rightarrow> DB \<Rightarrow> PostgresState option" where
  "reportedState keepersInfo db =
     (case fmlookup keepersInfo (dbs_KeeperUID (db_Spec db)) of
        None \<Rightarrow> None
      | Some k \<Rightarrow>
          (case ki_PostgresState k of
             None \<Rightarrow> None
           | Some dbs \<Rightarrow> if pst_UID dbs \<noteq> db_UID db then None else Some dbs))"

definition dbTimers :: "Env \<Rightarrow> KeepersInfo \<Rightarrow> DB \<Rightarrow> Sentinel \<Rightarrow> Sentinel" where
  "dbTimers env keepersInfo db s =
     (case reportedState keepersInfo db of
        None \<Rightarrow> SetDBError env (db_UID db) s
      | Some dbs \<Rightarrow>
          (let s = (if st_XLogPos (db_Status db) = pst_XLogPos dbs
                    then SetDBNotIncreasingXLogPos (db_UID db) s
                    else CleanDBNotIncreasingXLogPos (db_UID db) s)
           in if pst_Healthy dbs then CleanDBError (db_UID db) s else SetDBError env (db_UID db) s))"

definition dbStatusFromInfo :: "KeepersInfo \<Rightarrow> DB \<Rightarrow> DB" where
  "dbStatusFromInfo keepersInfo db =
     (case reportedState keepersInfo db of
        None \<Rightarrow> db
      | Some dbs \<Rightarrow>
          (let st = (db_Status db)\<lparr>st_ListenAddress := pst_ListenAddress dbs,
                      st_Port := pst_Port dbs, st_CurrentGeneration := pst_Generation dbs\<rparr>
           in db\<lparr>db_Status :=
                (if pst_Healthy dbs
                 then st\<lparr>st_SystemID := pst_SystemID dbs, st_TimelineID := pst_TimelineID dbs,
                        st_XLogPos := pst_XLogPos dbs, st_TimelinesHistory := pst_TimelinesHistory dbs,
                        st_PGParameters := pst_PGParameters dbs,
                        st_CurSynchronousStandbys := pst_SynchronousStandbys dbs,
                        st_OlderWalFile := pst_OlderWalFile dbs\<rparr>
                 else st)\<rparr>))"

text \<open>Update dbs' healthy state (the body of the loop).\<close>

definition dbHealth :: "Env \<Rightarrow> Sentinel \<Rightarrow> ClusterData \<Rightarrow> DB \<Rightarrow> DB res" where
  "dbHealth env s cd db =
     bindE (isDBHealthy env s cd db) (\<lambda>h.
     bindE (deref ''nil Keeper'' (fmlookup (cd_Keepers cd) (dbs_KeeperUID (db_Spec db)))) (\<lambda>keeper.
       Inr (db\<lparr>db_Status := (db_Status db)\<lparr>
              st_Healthy := (if \<not> ks_Healthy (k_Status keeper) then False else h)\<rparr>\<rparr>)))"

definition updateKeepersStatus ::
  "Env \<Rightarrow> Sentinel \<Rightarrow> ClusterData \<Rightarrow> KeepersInfo \<Rightarrow> bool
     \<Rightarrow> (Sentinel \<times> ClusterData \<times> KeeperInfoHistories) res" where
  "updateKeepersStatus env s cd keepersInfo firstRun =
     bindE (cluster_of cd) (\<lambda>c.
       let kihs = s_keeperInfoHistories s;
           keepersInfo = dropForeignKeepers c keepersInfo
       in if firstRun then Inr (s, cd, firstRunHistories keepersInfo kihs)
          else
            let kihs' = fold (updateHistory env) (entries keepersInfo) kihs;
                keepersInfo = dropStaleKeepers env s kihs keepersInfo;
                keepers = addNewKeepers env keepersInfo (cd_Keepers cd);
                s = markKeepers env keepersInfo keepers s;
                keepers = fmmap_keys (keeperStatusFromInfo keepersInfo) keepers
            in bindE (fmmapE (\<lambda>_. keeperHealth env s cd) keepers) (\<lambda>keepers.
                 let cd = cd\<lparr>cd_Keepers := keepers\<rparr>;
                     s = fold (\<lambda>(_, db). dbTimers env keepersInfo db) (entries (cd_DBs cd)) s;
                     dbs = fmmap (dbStatusFromInfo keepersInfo) (cd_DBs cd)
                 in bindE (fmmapE (\<lambda>_. dbHealth env s cd) dbs) (\<lambda>dbs.
                      Inr (s, cd\<lparr>cd_DBs := dbs\<rparr>, kihs'))))"

section \<open>Active proxies\<close>

text \<open>
  \<^verbatim>\<open>activeProxiesInfos\<close> removes from \<^verbatim>\<open>pihs\<close> the entries of missing proxies and then
  assigns to \<^verbatim>\<open>pihs\<close> the copy it took before, so the removal is lost: the model starts from the whole
  history.
\<close>

definition updateProxyHistory :: "Env \<Rightarrow> string \<times> ProxyInfo \<Rightarrow> ProxyInfoHistories \<Rightarrow> ProxyInfoHistories" where
  "updateProxyHistory env e pihs =
     (case e of (_, pi) \<Rightarrow>
       (case fmlookup pihs (pi_UID pi) of
          Some pih \<Rightarrow>
            (if pi_InfoUID (pih_ProxyInfo pih) = pi_InfoUID pi then pihs
             else fmupd (pi_UID pi) \<lparr>pih_ProxyInfo = pi, pih_Timer = e_now env\<rparr> pihs)
        | None \<Rightarrow> fmupd (pi_UID pi) \<lparr>pih_ProxyInfo = pi, pih_Timer = e_now env\<rparr> pihs))"

definition staleProxy :: "Env \<Rightarrow> ProxyInfoHistories \<Rightarrow> ProxyInfo \<Rightarrow> bool" where
  "staleProxy env pihs pi =
     (case fmlookup pihs (pi_UID pi) of
        None \<Rightarrow> False
      | Some pih \<Rightarrow>
          pi_InfoUID (pih_ProxyInfo pih) = pi_InfoUID pi \<and>
          Since env (pih_Timer pih) > 2 * DefaultProxyTimeoutInterval)"

definition activeProxiesInfos :: "Env \<Rightarrow> Sentinel \<Rightarrow> ProxiesInfo \<Rightarrow> Sentinel \<times> ProxiesInfo" where
  "activeProxiesInfos env s proxiesInfo =
     (let pihs = s_proxyInfoHistories s
      in (s\<lparr>s_proxyInfoHistories := fold (updateProxyHistory env) (entries proxiesInfo) pihs\<rparr>,
          delete_keys
            (map (\<lambda>(_, pi). pi_UID pi) (filter (\<lambda>(_, pi). staleProxy env pihs pi) (entries proxiesInfo)))
            proxiesInfo))"

section \<open>Convergence\<close>

definition updateDBConvergenceInfo :: "Env \<Rightarrow> DB \<Rightarrow> Sentinel \<Rightarrow> Sentinel" where
  "updateDBConvergenceInfo env db s =
     (if st_CurrentGeneration (db_Status db) = db_Generation db
      then s\<lparr>s_dbConvergenceInfos := fmdrop (db_UID db) (s_dbConvergenceInfos s)\<rparr>
      else
        let nd = \<lparr>dci_Generation = db_Generation db, dci_Timer = e_now env\<rparr>
        in (case fmlookup (s_dbConvergenceInfos s) (db_UID db) of
              None \<Rightarrow> s\<lparr>s_dbConvergenceInfos := fmupd (db_UID db) nd (s_dbConvergenceInfos s)\<rparr>
            | Some d \<Rightarrow>
                (if dci_Generation d \<noteq> db_Generation db
                 then s\<lparr>s_dbConvergenceInfos := fmupd (db_UID db) nd (s_dbConvergenceInfos s)\<rparr>
                 else s)))"

definition updateDBConvergenceInfos :: "Env \<Rightarrow> ClusterData \<Rightarrow> Sentinel \<Rightarrow> Sentinel" where
  "updateDBConvergenceInfos env cd s =
     fold (\<lambda>(_, db). updateDBConvergenceInfo env db) (entries (cd_DBs cd)) s"

definition dbConvergenceState :: "Env \<Rightarrow> Sentinel \<Rightarrow> DB \<Rightarrow> duration \<Rightarrow> ConvergenceState res" where
  "dbConvergenceState env s db timeout =
     (if st_CurrentGeneration (db_Status db) = db_Generation db then Inr Converged
      else if timeout \<noteq> 0 then
        (case fmlookup (s_dbConvergenceInfos s) (db_UID db) of
           None \<Rightarrow> Inl (Panic ''no db convergence info for db'')
         | Some d \<Rightarrow>
             if Since env (dci_Timer d) > timeout then Inr ConvergenceFailed else Inr Converging)
      else Inr Converging)"


section \<open>Facts about timers and health\<close>

text \<open>
  What a pair of operations on a map of error timers promises: setting an error keeps the time of the
  first one, cleaning forgets it, and neither touches the timer of another member.
\<close>

locale error_timers =
  fixes timers :: "Sentinel \<Rightarrow> (string, int) fmap"
    and set_err :: "Env \<Rightarrow> string \<Rightarrow> Sentinel \<Rightarrow> Sentinel"
    and clean_err :: "string \<Rightarrow> Sentinel \<Rightarrow> Sentinel"
  assumes set_lookup: "fmlookup (timers (set_err env u s)) v =
      (if v = u \<and> fmlookup (timers s) u = None then Some (e_now env) else fmlookup (timers s) v)"
    and clean_lookup: "fmlookup (timers (clean_err u s)) v = (if v = u then None else fmlookup (timers s) v)"
begin

lemma set_idem: "timers (set_err env u (set_err env' u s)) = timers (set_err env' u s)"
  by (intro fmap_ext) (simp add: set_lookup)

lemma clean_set: "timers (clean_err u (set_err env u s)) = timers (clean_err u s)"
  by (intro fmap_ext) (simp add: set_lookup clean_lookup)

lemma mark_all:
  assumes "\<And>k v s. fmlookup m k = Some v \<Longrightarrow>
      timers (f (k, v) s) = timers (if bad k v then set_err env k s else clean_err k s)"
  shows "fmlookup (timers (fold f (entries m) s)) w =
    (case fmlookup m w of
       None \<Rightarrow> fmlookup (timers s) w
     | Some v \<Rightarrow> if bad w v then Some (case fmlookup (timers s) w of None \<Rightarrow> e_now env | Some t \<Rightarrow> t) else None)"
  by (subst fold_entries [where g = "\<lambda>k v r. if bad k v
        then Some (case r of None \<Rightarrow> e_now env | Some t \<Rightarrow> t) else None"])
    (auto simp: assms set_lookup clean_lookup split: option.splits)

end

interpretation keeper_errors: error_timers s_keeperErrorTimers SetKeeperError CleanKeeperError
  by unfold_locales (auto simp: SetKeeperError_def CleanKeeperError_def split: option.splits)

interpretation db_errors: error_timers s_dbErrorTimers SetDBError CleanDBError
  by unfold_locales (auto simp: SetDBError_def CleanDBError_def split: option.splits)

text \<open>The maps are keyed by the UID of their values.\<close>

definition uids_ok :: "ClusterData \<Rightarrow> bool" where
  "uids_ok cd = fmpred (\<lambda>k db. db_UID db = k) (cd_DBs cd)"

lemma uids_okD: "uids_ok cd \<Longrightarrow> fmlookup (cd_DBs cd) k = Some db \<Longrightarrow> db_UID db = k"
  by (auto simp: uids_ok_def)

definition keepers_ok :: "ClusterData \<Rightarrow> bool" where
  "keepers_ok cd = fmpred (\<lambda>k kp. k_UID kp = k) (cd_Keepers cd)"

definition infos_ok :: "KeepersInfo \<Rightarrow> bool" where
  "infos_ok kis = fmpred (\<lambda>k ki. ki_UID ki = k) kis"

lemma infos_okD: "infos_ok kis \<Longrightarrow> fmlookup kis u = Some ki \<Longrightarrow> ki_UID ki = u"
  by (auto simp: infos_ok_def)

lemma lookup_dropForeignKeepers:
  assumes "infos_ok kis"
  shows "fmlookup (dropForeignKeepers c kis) u = Some ki \<longleftrightarrow>
    fmlookup kis u = Some ki \<and> ki_ClusterUID ki = c_UID c"
  using infos_okD [OF assms]
  by (auto simp: dropForeignKeepers_def image_iff split: prod.splits)

lemma lookup_dropStaleKeepers:
  assumes "infos_ok kis"
  shows "fmlookup (dropStaleKeepers env s kihs kis) u = Some ki \<longleftrightarrow>
    fmlookup kis u = Some ki \<and> \<not> staleKeeperInfo env s kihs u ki"
  using infos_okD [OF assms]
  by (auto simp: dropStaleKeepers_def image_iff split: prod.splits)

lemma infos_ok_dropForeign: "infos_ok kis \<Longrightarrow> infos_ok (dropForeignKeepers c kis)"
  unfolding infos_ok_def [of "dropForeignKeepers c kis"]
  by (intro fmpredI) (metis lookup_dropForeignKeepers infos_okD)

text \<open>The infos that count: of this cluster, and changed since they were last seen (or only just seen).\<close>

definition freshInfos :: "Env \<Rightarrow> Sentinel \<Rightarrow> Cluster \<Rightarrow> KeepersInfo \<Rightarrow> KeepersInfo" where
  "freshInfos env s c kis = dropStaleKeepers env s (s_keeperInfoHistories s) (dropForeignKeepers c kis)"

lemma lookup_freshInfos:
  assumes "infos_ok kis"
  shows "fmlookup (freshInfos env s c kis) u = Some ki \<longleftrightarrow>
    fmlookup kis u = Some ki \<and> ki_ClusterUID ki = c_UID c \<and>
    \<not> staleKeeperInfo env s (s_keeperInfoHistories s) u ki"
  unfolding freshInfos_def
  by (simp add: lookup_dropStaleKeepers infos_ok_dropForeign assms lookup_dropForeignKeepers)

lemma lookup_addNewKeepers:
  assumes "infos_ok kis"
  shows "fmlookup (addNewKeepers env kis keepers) u =
    (case fmlookup keepers u of
       Some k \<Rightarrow> Some k
     | None \<Rightarrow> map_option (NewKeeperFromKeeperInfo (e_wall env)) (fmlookup kis u))"
proof -
  have "fmlookup (fold (\<lambda>(keeperUID, ki) ks.
             (case fmlookup ks keeperUID of
                Some _ \<Rightarrow> ks
              | None \<Rightarrow>
                  (let k = NewKeeperFromKeeperInfo (e_wall env) ki in fmupd (k_UID k) k ks))) es keepers) u =
    (case fmlookup keepers u of
       Some k \<Rightarrow> Some k
     | None \<Rightarrow> map_option (NewKeeperFromKeeperInfo (e_wall env)) (map_of es u))"
    if "\<forall>(a, b)\<in>set es. ki_UID b = a" for es
    using that
  proof (induction es arbitrary: keepers)
    case (Cons e es)
    then show ?case
      by (cases e) (simp add: Let_def NewKeeperFromKeeperInfo_def split: option.splits)
  qed (simp split: option.splits)
  moreover have "\<forall>(a, b)\<in>set (entries kis). ki_UID b = a"
    using infos_okD [OF assms] by auto
  ultimately show ?thesis by (simp add: addNewKeepers_def split: option.split)
qed

text \<open>The time since when a member is in error.\<close>

definition errorSince :: "Env \<Rightarrow> (string, int) fmap \<Rightarrow> string \<Rightarrow> int" where
  "errorSince env timers u = (case fmlookup timers u of None \<Rightarrow> e_now env | Some t \<Rightarrow> t)"

lemma lookup_markKeepers:
  "fmlookup (s_keeperErrorTimers (markKeepers env kis keepers s)) u =
     (if fmlookup keepers u = None then fmlookup (s_keeperErrorTimers s) u
      else if fmlookup kis u = None then Some (errorSince env (s_keeperErrorTimers s) u) else None)"
  unfolding markKeepers_def
  by (subst keeper_errors.mark_all [where env = env and bad = "\<lambda>k _. fmlookup kis k = None"])
    (auto simp: errorSince_def split: option.splits)

lemma timers_only_mark [simp]:
  "s_dbErrorTimers (markKeepers env kis keepers s) = s_dbErrorTimers s"
proof -
  have "s_dbErrorTimers (fold (\<lambda>(keeperUID, _) s.
             if fmlookup kis keeperUID = None then SetKeeperError env keeperUID s
             else CleanKeeperError keeperUID s) es s) = s_dbErrorTimers s" for es :: "(string \<times> Keeper) list"
    by (induction es arbitrary: s)
      (auto simp: SetKeeperError_def CleanKeeperError_def split: option.splits)
  then show ?thesis by (simp add: markKeepers_def)
qed

lemma isKeeperHealthy_iff:
  assumes "defspec_of cd = Inr spec"
  shows "isKeeperHealthy env s cd k = Inr b \<longleftrightarrow>
    (b \<longleftrightarrow> (case fmlookup (s_keeperErrorTimers s) (k_UID k) of
        None \<Rightarrow> True | Some t \<Rightarrow> e_now env - t \<le> def_FailInterval spec))"
  by (auto simp: isKeeperHealthy_def assms Since_def split: option.splits)

lemma isDBHealthy_iff:
  assumes "defspec_of cd = Inr spec"
  shows "isDBHealthy env s cd db = Inr b \<longleftrightarrow>
    (b \<longleftrightarrow> (case fmlookup (s_dbErrorTimers s) (db_UID db) of
        None \<Rightarrow> True | Some t \<Rightarrow> e_now env - t \<le> def_FailInterval spec))"
  by (auto simp: isDBHealthy_def assms Since_def split: option.splits)

lemma updateKeepersStatus_run:
  assumes "updateKeepersStatus env s cd kis False = Inr (s', cd', kihs)" and "cluster_of cd = Inr c"
  defines "fi \<equiv> freshInfos env s c kis"
  defines "keepers \<equiv> addNewKeepers env fi (cd_Keepers cd)"
  shows "fmmapE (\<lambda>_. keeperHealth env (markKeepers env fi keepers s) cd)
           (fmmap_keys (keeperStatusFromInfo fi) keepers) = Inr (cd_Keepers cd')"
    and "s' = fold (\<lambda>(_, db). dbTimers env fi db) (entries (cd_DBs cd)) (markKeepers env fi keepers s)"
    and "fmmapE (\<lambda>_. dbHealth env s' (cd\<lparr>cd_Keepers := cd_Keepers cd'\<rparr>))
           (fmmap (dbStatusFromInfo fi) (cd_DBs cd)) = Inr (cd_DBs cd')"
    and "cd' = cd\<lparr>cd_Keepers := cd_Keepers cd', cd_DBs := cd_DBs cd'\<rparr>"
  using assms(1)
  by (auto simp: updateKeepersStatus_def assms(2) Let_def res_simps fi_def keepers_def freshInfos_def)

lemma keeper_health:
  assumes "updateKeepersStatus env s cd kis False = Inr (s', cd', kihs)"
    and "cluster_of cd = Inr c" and "DefSpec c = Inr spec"
    and "keepers_ok cd" and "infos_ok kis"
    and "fmlookup (cd_Keepers cd) u = Some k"
  shows "\<exists>k'. fmlookup (cd_Keepers cd') u = Some k' \<and> \<not> ks_ForceFail (k_Status k') \<and>
    (ks_Healthy (k_Status k') \<longleftrightarrow>
       \<not> ks_ForceFail (k_Status k) \<and>
       (fmlookup (freshInfos env s c kis) u \<noteq> None \<or>
        e_now env - errorSince env (s_keeperErrorTimers s) u \<le> def_FailInterval spec))"
proof -
  note run = updateKeepersStatus_run [OF assms(1,2)]
  let ?fi = "freshInfos env s c kis"
  let ?keepers = "addNewKeepers env ?fi (cd_Keepers cd)"
  have io: "infos_ok ?fi"
    unfolding infos_ok_def by (intro fmpredI) (metis lookup_freshInfos infos_okD assms(5))
  have k: "fmlookup ?keepers u = Some k"
    by (simp add: lookup_addNewKeepers [OF io] assms(6))
  have uid: "k_UID (keeperStatusFromInfo ?fi u k) = u"
    using assms(4,6) by (auto simp: keepers_ok_def keeperStatusFromInfo_def split: option.splits)
  have ff: "ks_ForceFail (k_Status (keeperStatusFromInfo ?fi u k)) = ks_ForceFail (k_Status k)"
    by (auto simp: keeperStatusFromInfo_def split: option.splits)
  have "fmlookup (fmmap_keys (keeperStatusFromInfo ?fi) ?keepers) u = Some (keeperStatusFromInfo ?fi u k)"
    by (simp add: k)
  from fmmapE_ok [OF run(1) this] obtain k' where
    k': "keeperHealth env (markKeepers env ?fi ?keepers s) cd (keeperStatusFromInfo ?fi u k) = Inr k'"
    and l: "fmlookup (cd_Keepers cd') u = Some k'" by blast
  have ds: "defspec_of cd = Inr spec" using assms(2,3) by (simp add: defspec_of_def)
  from k' have "\<not> ks_ForceFail (k_Status k') \<and> (ks_Healthy (k_Status k') \<longleftrightarrow>
     \<not> ks_ForceFail (k_Status k) \<and>
       (fmlookup ?fi u \<noteq> None \<or>
        e_now env - errorSince env (s_keeperErrorTimers s) u \<le> def_FailInterval spec))"
    by (auto simp: keeperHealth_def res_simps isKeeperHealthy_iff [OF ds] uid ff lookup_markKeepers k Let_def
        split: if_splits option.splits)
  with l show ?thesis by blast
qed

text \<open>
  After a check that is not the first one of a leadership, a keeper is healthy exactly when it was not
  marked to be failed by the operator and it either published a fresh info or has been without one for at
  most the fail interval. The operator's mark is gone: it counts for one check.
\<close>

theorem keeper_health_correct:
  assumes "updateKeepersStatus env s cd kis False = Inr (s', cd', kihs)"
    and "cluster_of cd = Inr c" and "DefSpec c = Inr spec"
    and "keepers_ok cd" and "infos_ok kis"
    and "fmlookup (cd_Keepers cd) u = Some k"
  shows "\<exists>k'. fmlookup (cd_Keepers cd') u = Some k' \<and> \<not> ks_ForceFail (k_Status k') \<and>
    (ks_Healthy (k_Status k') \<longleftrightarrow>
       \<not> ks_ForceFail (k_Status k) \<and>
       (fmlookup (freshInfos env s c kis) u \<noteq> None \<or>
        e_now env - errorSince env (s_keeperErrorTimers s) u \<le> def_FailInterval spec))"
  by (rule keeper_health [OF assms])

lemma dbErrorTimers_dbTimers:
  "s_dbErrorTimers (dbTimers env fi db s) =
     s_dbErrorTimers (if (case reportedState fi db of None \<Rightarrow> True | Some st \<Rightarrow> \<not> pst_Healthy st)
       then SetDBError env (db_UID db) s else CleanDBError (db_UID db) s)"
  by (auto simp: dbTimers_def Let_def SetDBError_def CleanDBError_def SetDBNotIncreasingXLogPos_def
      CleanDBNotIncreasingXLogPos_def split: option.splits)

lemma lookup_dbTimers:
  assumes "uids_ok cd"
  shows "fmlookup (s_dbErrorTimers (fold (\<lambda>(_, db). dbTimers env fi db) (entries (cd_DBs cd)) s)) u =
    (case fmlookup (cd_DBs cd) u of
       None \<Rightarrow> fmlookup (s_dbErrorTimers s) u
     | Some db \<Rightarrow>
         if (case reportedState fi db of None \<Rightarrow> True | Some st \<Rightarrow> \<not> pst_Healthy st)
         then Some (errorSince env (s_dbErrorTimers s) u) else None)"
  by (subst db_errors.mark_all [where env = env and
        bad = "\<lambda>_ db. case reportedState fi db of None \<Rightarrow> True | Some st \<Rightarrow> \<not> pst_Healthy st"])
    (auto simp: dbErrorTimers_dbTimers uids_okD [OF assms] errorSince_def split: option.splits)

lemma dbStatusFromInfo_simps [simp]:
  "db_UID (dbStatusFromInfo fi db) = db_UID db"
  "db_Spec (dbStatusFromInfo fi db) = db_Spec db"
  "db_Generation (dbStatusFromInfo fi db) = db_Generation db"
  "reportedState fi (dbStatusFromInfo fi db) = reportedState fi db"
  by (auto simp: dbStatusFromInfo_def Let_def reportedState_def split: option.splits)

lemma db_health:
  assumes "updateKeepersStatus env s cd kis False = Inr (s', cd', kihs)"
    and "cluster_of cd = Inr c" and "DefSpec c = Inr spec" and "uids_ok cd"
    and "fmlookup (cd_DBs cd) u = Some db"
  shows "\<exists>db' k. fmlookup (cd_DBs cd') u = Some db' \<and>
    fmlookup (cd_Keepers cd') (dbs_KeeperUID (db_Spec db)) = Some k \<and>
    db_Spec db' = db_Spec db \<and> db_Generation db' = db_Generation db \<and>
    (st_Healthy (db_Status db') \<longleftrightarrow>
       ks_Healthy (k_Status k) \<and>
       ((\<exists>st. reportedState (freshInfos env s c kis) db = Some st \<and> pst_Healthy st) \<or>
        e_now env - errorSince env (s_dbErrorTimers s) u \<le> def_FailInterval spec))"
proof -
  note run = updateKeepersStatus_run [OF assms(1,2)]
  let ?fi = "freshInfos env s c kis"
  have "fmlookup (fmmap (dbStatusFromInfo ?fi) (cd_DBs cd)) u = Some (dbStatusFromInfo ?fi db)"
    by (simp add: assms(5))
  from fmmapE_ok [OF run(3) this] obtain db' where
    d: "dbHealth env s' (cd\<lparr>cd_Keepers := cd_Keepers cd'\<rparr>) (dbStatusFromInfo ?fi db) = Inr db'"
    and l: "fmlookup (cd_DBs cd') u = Some db'" by blast
  have ds: "defspec_of (cd\<lparr>cd_Keepers := cd_Keepers cd'\<rparr>) = Inr spec"
    using assms(2,3) by (simp add: defspec_of_def cluster_of_def)
  have uid: "db_UID db = u" using uids_okD [OF assms(4,5)] .
  have t: "fmlookup (s_dbErrorTimers s') u =
      (if (case reportedState ?fi db of None \<Rightarrow> True | Some st \<Rightarrow> \<not> pst_Healthy st)
       then Some (errorSince env (s_dbErrorTimers s) u) else None)"
    by (simp add: run(2) lookup_dbTimers [OF assms(4)] assms(5) errorSince_def)
  from d obtain k where "fmlookup (cd_Keepers cd') (dbs_KeeperUID (db_Spec db)) = Some k"
    and "db' = (dbStatusFromInfo ?fi db)\<lparr>db_Status := (db_Status (dbStatusFromInfo ?fi db))\<lparr>
              st_Healthy := (if \<not> ks_Healthy (k_Status k) then False
                else (\<exists>st. reportedState ?fi db = Some st \<and> pst_Healthy st) \<or>
                  e_now env - errorSince env (s_dbErrorTimers s) u \<le> def_FailInterval spec)\<rparr>\<rparr>"
    by (fastforce simp: dbHealth_def res_simps isDBHealthy_iff [OF ds] uid t split: if_splits option.splits)
  with l show ?thesis by auto
qed

text \<open>
  After such a check a database is healthy exactly when its keeper is, and the keeper's fresh info
  reports this database as healthy or it has not been reported so for at most the fail interval. The
  specification and the generation of a database are not changed.
\<close>

theorem db_health_correct:
  assumes "updateKeepersStatus env s cd kis False = Inr (s', cd', kihs)"
    and "cluster_of cd = Inr c" and "DefSpec c = Inr spec" and "uids_ok cd"
    and "fmlookup (cd_DBs cd) u = Some db"
  shows "\<exists>db' k. fmlookup (cd_DBs cd') u = Some db' \<and>
    fmlookup (cd_Keepers cd') (dbs_KeeperUID (db_Spec db)) = Some k \<and>
    db_Spec db' = db_Spec db \<and> db_Generation db' = db_Generation db \<and>
    (st_Healthy (db_Status db') \<longleftrightarrow>
       ks_Healthy (k_Status k) \<and>
       ((\<exists>st. reportedState (freshInfos env s c kis) db = Some st \<and> pst_Healthy st) \<or>
        e_now env - errorSince env (s_dbErrorTimers s) u \<le> def_FailInterval spec))"
  by (rule db_health [OF assms])

lemma is_ok_isKeeperHealthy: "defspec_of cd = Inr spec \<Longrightarrow> is_ok (isKeeperHealthy env s cd k)"
  by (simp add: isKeeperHealthy_def split: option.splits)

lemma is_ok_isDBHealthy: "defspec_of cd = Inr spec \<Longrightarrow> is_ok (isDBHealthy env s cd k)"
  by (simp add: isDBHealthy_def split: option.splits)

lemma defspec_of_keepers [simp]: "defspec_of (cd\<lparr>cd_Keepers := ks\<rparr>) = defspec_of cd"
  by (simp add: defspec_of_def cluster_of_def)

definition dbs_have_keepers :: "ClusterData \<Rightarrow> bool" where
  "dbs_have_keepers cd \<longleftrightarrow>
     fmpred (\<lambda>_ db. fmlookup (cd_Keepers cd) (dbs_KeeperUID (db_Spec db)) \<noteq> None) (cd_DBs cd)"

lemma dbs_have_keepersD:
  "dbs_have_keepers cd \<Longrightarrow> fmlookup (cd_DBs cd) u = Some db \<Longrightarrow>
     fmlookup (cd_Keepers cd) (dbs_KeeperUID (db_Spec db)) \<noteq> None"
  by (auto simp: dbs_have_keepers_def)

lemma is_ok_updateKeepersStatus:
  assumes "cluster_of cd = Inr c" and "DefSpec c = Inr spec"
    and "dbs_have_keepers cd" and "infos_ok kis"
  shows "is_ok (updateKeepersStatus env s cd kis firstRun)"
proof -
  have ds: "defspec_of cd = Inr spec" using assms(1,2) by (simp add: defspec_of_def)
  let ?fi = "freshInfos env s c kis"
  let ?keepers = "addNewKeepers env ?fi (cd_Keepers cd)"
  have io: "infos_ok ?fi"
    unfolding infos_ok_def by (intro fmpredI) (metis lookup_freshInfos infos_okD assms(4))
  have 1: "is_ok (fmmapE (\<lambda>_. keeperHealth env s1 cd) (fmmap_keys (keeperStatusFromInfo ?fi) ?keepers))" for s1
    by (intro is_ok_fmmapE) (auto simp: keeperHealth_def Let_def intro!: is_ok_bindE is_ok_isKeeperHealthy [OF ds])
  have 2: "is_ok (fmmapE (\<lambda>_. dbHealth env s2 (cd\<lparr>cd_Keepers := ks\<rparr>)) (fmmap (dbStatusFromInfo ?fi) (cd_DBs cd)))"
    if "fmmapE (\<lambda>_. keeperHealth env s1 cd) (fmmap_keys (keeperStatusFromInfo ?fi) ?keepers) = Inr ks" for s1 s2 ks
  proof (intro is_ok_fmmapE)
    fix u db' assume "fmlookup (fmmap (dbStatusFromInfo ?fi) (cd_DBs cd)) u = Some db'"
    then obtain db where db: "fmlookup (cd_DBs cd) u = Some db" "db' = dbStatusFromInfo ?fi db" by auto
    from dbs_have_keepersD [OF assms(3) db(1)]
    obtain k where k: "fmlookup (cd_Keepers cd) (dbs_KeeperUID (db_Spec db)) = Some k" by auto
    have "fmlookup ?keepers (dbs_KeeperUID (db_Spec db)) = Some k"
      by (simp add: lookup_addNewKeepers [OF io] k)
    with fmmapE_ok [OF that, of "dbs_KeeperUID (db_Spec db)"]
    obtain k' where "fmlookup ks (dbs_KeeperUID (db_Spec db)) = Some k'" by auto
    then show "is_ok (dbHealth env s2 (cd\<lparr>cd_Keepers := ks\<rparr>) db')"
      by (auto simp: dbHealth_def db(2) intro!: is_ok_bindE is_ok_isDBHealthy ds)
  qed
  show ?thesis
    by (auto simp: updateKeepersStatus_def assms(1) Let_def
        intro!: is_ok_bindE 1 [unfolded freshInfos_def] 2 [unfolded freshInfos_def])
qed

lemma lookup_firstRunHistories:
  "fmlookup (firstRunHistories kis kihs) u =
     (case fmlookup kis u of
        None \<Rightarrow> fmlookup kihs u
      | Some ki \<Rightarrow> Some \<lparr>kih_KeeperInfo = ki, kih_Seen = False, kih_Timer = 0\<rparr>)"
  unfolding firstRunHistories_def
  by (subst fold_entries [where g = "\<lambda>_ ki _. Some \<lparr>kih_KeeperInfo = ki, kih_Seen = False, kih_Timer = 0\<rparr>"])
    (auto split: option.splits)

text \<open>
  The first check after a sentinel gained the leadership changes neither the cluster data nor the
  timers, and an info that was already published then does not count as a sign of life later: only a new
  one does, whenever the later check happens.
\<close>

theorem firstRun_inert:
  assumes "cluster_of cd = Inr c" and "infos_ok kis"
  shows "\<exists>kihs. updateKeepersStatus env s cd kis True = Inr (s, cd, kihs) \<and>
    (\<forall>u ki. fmlookup kis u = Some ki \<and> ki_ClusterUID ki = c_UID c \<longrightarrow>
       fmlookup (freshInfos env' (s\<lparr>s_keeperInfoHistories := kihs\<rparr>) c kis) u = None)"
proof (intro exI conjI allI impI)
  let ?kihs = "firstRunHistories (dropForeignKeepers c kis) (s_keeperInfoHistories s)"
  show "updateKeepersStatus env s cd kis True = Inr (s, cd, ?kihs)"
    by (simp add: updateKeepersStatus_def assms(1) Let_def)
  fix u ki assume "fmlookup kis u = Some ki \<and> ki_ClusterUID ki = c_UID c"
  then have "fmlookup ?kihs u = Some \<lparr>kih_KeeperInfo = ki, kih_Seen = False, kih_Timer = 0\<rparr>"
    using lookup_dropForeignKeepers [OF assms(2), of c u ki]
    by (simp add: lookup_firstRunHistories)
  then have st: "staleKeeperInfo env' (s\<lparr>s_keeperInfoHistories := ?kihs\<rparr>) ?kihs u ki"
    by (simp add: staleKeeperInfo_def)
  show "fmlookup (freshInfos env' (s\<lparr>s_keeperInfoHistories := ?kihs\<rparr>) c kis) u = None"
  proof (rule ccontr)
    assume "fmlookup (freshInfos env' (s\<lparr>s_keeperInfoHistories := ?kihs\<rparr>) c kis) u \<noteq> None"
    then obtain ki' where "fmlookup (freshInfos env' (s\<lparr>s_keeperInfoHistories := ?kihs\<rparr>) c kis) u = Some ki'"
      by auto
    from this [unfolded lookup_freshInfos [OF assms(2)]] st \<open>fmlookup kis u = Some ki \<and> _\<close>
    show False by simp
  qed
qed

definition proxies_ok :: "ProxiesInfo \<Rightarrow> bool" where
  "proxies_ok pis = fmpred (\<lambda>k pi. pi_UID pi = k) pis"

lemma proxies_okD: "proxies_ok pis \<Longrightarrow> fmlookup pis u = Some pi \<Longrightarrow> pi_UID pi = u"
  by (auto simp: proxies_ok_def)

lemma lookup_proxyHistories:
  assumes "proxies_ok pis"
  shows "fmlookup (fold (updateProxyHistory env) (entries pis) pihs) u =
    (case fmlookup pis u of
       None \<Rightarrow> fmlookup pihs u
     | Some pi \<Rightarrow>
         (case fmlookup pihs u of
            None \<Rightarrow> Some \<lparr>pih_ProxyInfo = pi, pih_Timer = e_now env\<rparr>
          | Some pih \<Rightarrow>
              if pi_InfoUID (pih_ProxyInfo pih) = pi_InfoUID pi then Some pih
              else Some \<lparr>pih_ProxyInfo = pi, pih_Timer = e_now env\<rparr>))"
  by (subst fold_entries [where g = "\<lambda>_ pi r. case r of
          None \<Rightarrow> Some \<lparr>pih_ProxyInfo = pi, pih_Timer = e_now env\<rparr>
        | Some pih \<Rightarrow> if pi_InfoUID (pih_ProxyInfo pih) = pi_InfoUID pi then Some pih
            else Some \<lparr>pih_ProxyInfo = pi, pih_Timer = e_now env\<rparr>"])
    (auto simp: updateProxyHistory_def proxies_okD [OF assms] split: option.splits)

text \<open>
  A proxy is active exactly when it is registered and its info changed within the last 30 seconds or
  was not known before; and every registered proxy is in the history with its current info, with its
  timer started now or before.
\<close>

theorem activeProxies_correct:
  assumes "proxies_ok pis" and "activeProxiesInfos env s pis = (s', active)"
  shows "(fmlookup active u = Some pi \<longleftrightarrow>
      fmlookup pis u = Some pi \<and>
      \<not> (\<exists>pih. fmlookup (s_proxyInfoHistories s) u = Some pih \<and>
           pi_InfoUID (pih_ProxyInfo pih) = pi_InfoUID pi \<and> e_now env - pih_Timer pih > 30 * second)) \<and>
    (fmlookup pis u = Some pi \<longrightarrow>
      (\<exists>pih. fmlookup (s_proxyInfoHistories s') u = Some pih \<and>
         pi_InfoUID (pih_ProxyInfo pih) = pi_InfoUID pi \<and>
         (fmlookup (s_proxyInfoHistories s) u = Some pih \<or> pih_Timer pih = e_now env)))"
proof -
  have a: "active = delete_keys
            (map (\<lambda>(_, pi). pi_UID pi) (filter (\<lambda>(_, pi). staleProxy env (s_proxyInfoHistories s) pi) (entries pis)))
            pis"
    and s': "s' = s\<lparr>s_proxyInfoHistories := fold (updateProxyHistory env) (entries pis) (s_proxyInfoHistories s)\<rparr>"
    using assms(2) by (auto simp: activeProxiesInfos_def Let_def)
  have "fmlookup active u = Some pi \<longleftrightarrow> fmlookup pis u = Some pi \<and> \<not> staleProxy env (s_proxyInfoHistories s) pi"
    unfolding a using proxies_okD [OF assms(1)] by (auto simp: image_iff split: prod.splits)
  then show ?thesis
    using proxies_okD [OF assms(1), of u pi]
    by (auto simp: s' lookup_proxyHistories [OF assms(1)] staleProxy_def Since_def
        DefaultProxyTimeoutInterval_def split: option.splits)
qed

section \<open>Facts about convergence\<close>

lemma lookup_updateDBConvergenceInfos:
  assumes "uids_ok cd"
  shows "fmlookup (s_dbConvergenceInfos (updateDBConvergenceInfos env cd s)) u =
    (case fmlookup (cd_DBs cd) u of
       None \<Rightarrow> fmlookup (s_dbConvergenceInfos s) u
     | Some db \<Rightarrow>
         if st_CurrentGeneration (db_Status db) = db_Generation db then None
         else (case fmlookup (s_dbConvergenceInfos s) u of
                 None \<Rightarrow> Some \<lparr>dci_Generation = db_Generation db, dci_Timer = e_now env\<rparr>
               | Some d \<Rightarrow> if dci_Generation d \<noteq> db_Generation db
                   then Some \<lparr>dci_Generation = db_Generation db, dci_Timer = e_now env\<rparr> else Some d))"
  unfolding updateDBConvergenceInfos_def
  by (subst fold_entries [where look = "\<lambda>s. fmlookup (s_dbConvergenceInfos s)" and g = "\<lambda>_ db r.
        if st_CurrentGeneration (db_Status db) = db_Generation db then None
        else (case r of None \<Rightarrow> Some \<lparr>dci_Generation = db_Generation db, dci_Timer = e_now env\<rparr>
               | Some d \<Rightarrow> if dci_Generation d \<noteq> db_Generation db
                   then Some \<lparr>dci_Generation = db_Generation db, dci_Timer = e_now env\<rparr> else Some d)"])
    (auto simp: updateDBConvergenceInfo_def Let_def uids_okD [OF assms] split: option.splits)

text \<open>Every database that has not converged has a convergence timer, as \<^verbatim>\<open>dbConvergenceState\<close> needs.\<close>

definition convergence_ok :: "Sentinel \<Rightarrow> ClusterData \<Rightarrow> bool" where
  "convergence_ok s cd \<longleftrightarrow>
     fmpred (\<lambda>u db. st_CurrentGeneration (db_Status db) = db_Generation db \<or>
                fmlookup (s_dbConvergenceInfos s) u \<noteq> None) (cd_DBs cd)"

lemma is_ok_dbConvergenceState:
  assumes "convergence_ok s cd" and "uids_ok cd" and "fmlookup (cd_DBs cd) u = Some db"
  shows "is_ok (dbConvergenceState env s db timeout)"
  using assms(1,3) uids_okD [OF assms(2,3)]
  by (force simp: convergence_ok_def dbConvergenceState_def split: option.splits)

lemma updateDBConvergenceInfos_ok: "uids_ok cd \<Longrightarrow> convergence_ok (updateDBConvergenceInfos env cd s) cd"
  unfolding convergence_ok_def
  by (intro fmpredI) (simp add: lookup_updateDBConvergenceInfos split: option.splits)

text \<open>Since when a database is converging to its generation.\<close>

definition convergingSince :: "Env \<Rightarrow> Sentinel \<Rightarrow> DB \<Rightarrow> int" where
  "convergingSince env s db =
     (case fmlookup (s_dbConvergenceInfos s) (db_UID db) of
        None \<Rightarrow> e_now env
      | Some d \<Rightarrow> if dci_Generation d = db_Generation db then dci_Timer d else e_now env)"

text \<open>
  After the convergence timers were updated for the cluster data, asking for the state of convergence
  of one of its databases does not panic: the database has converged when it reports its generation, and
  otherwise its convergence has failed when a timeout is set and it passed since this generation was
  first seen.
\<close>

theorem convergence_timers_correct:
  assumes "uids_ok cd" and "fmlookup (cd_DBs cd) u = Some db"
  shows "dbConvergenceState env' (updateDBConvergenceInfos env cd s) db timeout = Inr
      (if st_CurrentGeneration (db_Status db) = db_Generation db then Converged
       else if timeout \<noteq> 0 \<and> e_now env' - convergingSince env s db > timeout then ConvergenceFailed
       else Converging)"
  using uids_okD [OF assms] assms(2)
  by (simp add: dbConvergenceState_def lookup_updateDBConvergenceInfos [OF assms(1)] convergingSince_def
      Since_def split: option.splits)

section \<open>An example\<close>

text \<open>
  A cluster with a master on keeper \<open>k1\<close> and a standby on keeper \<open>k2\<close>. Keeper \<open>k1\<close> has
  stopped publishing its info at time 0; the check runs 30 seconds later.
\<close>

definition example_keeper :: "string \<Rightarrow> Keeper" where
  "example_keeper u =
     \<lparr>k_UID = u, k_Generation = 1, k_ChangeTime = 0,
      k_Status = \<lparr>ks_Healthy = True, ks_LastHealthyTime = 1, ks_BootUUID = ''b'',
                  ks_PostgresBinaryVersion = \<lparr>pv_Maj = 9, pv_Min = 6\<rparr>, ks_ForceFail = False\<rparr>\<rparr>"

definition example_master :: DB where
  "example_master =
     \<lparr>db_UID = ''db1'', db_Generation = 1, db_ChangeTime = 0,
      db_Spec = zero_DBSpec\<lparr>dbs_KeeperUID := ''k1'', dbs_InitMode := DBInitModeNone,
        dbs_Role := RoleMaster, dbs_Followers := Some [''db2'']\<rparr>,
      db_Status = zero_DBStatus\<lparr>st_Healthy := True, st_CurrentGeneration := 1,
        st_SystemID := ''1'', st_TimelineID := 1, st_XLogPos := 100\<rparr>\<rparr>"

definition example_standby :: DB where
  "example_standby =
     \<lparr>db_UID = ''db2'', db_Generation = 1, db_ChangeTime = 0,
      db_Spec = zero_DBSpec\<lparr>dbs_KeeperUID := ''k2'', dbs_InitMode := DBInitModeNone,
        dbs_Role := RoleStandby, dbs_Followers := Some [],
        dbs_FollowConfig := Some \<lparr>fc_Type = FollowTypeInternal, fc_DBUID = ''db1'',
          fc_StandbySettings = None, fc_ArchiveRecoverySettings = None\<rparr>\<rparr>,
      db_Status = zero_DBStatus\<lparr>st_Healthy := True, st_CurrentGeneration := 1,
        st_SystemID := ''1'', st_TimelineID := 1, st_XLogPos := 90\<rparr>\<rparr>"

definition example_cluster :: Cluster where
  "example_cluster =
     \<lparr>c_UID = ''c'', c_Generation = 1, c_ChangeTime = 0, c_Spec = Some example_spec,
      c_Status = \<lparr>cst_CurrentGeneration = 0, cst_Phase = ClusterPhaseNormal, cst_Master = ''db1''\<rparr>\<rparr>"

definition example_cd :: ClusterData where
  "example_cd =
     \<lparr>cd_FormatVersion = 1, cd_ChangeTime = 0, cd_Cluster = Some example_cluster,
      cd_Keepers = fmap_of_list [(''k1'', example_keeper ''k1''), (''k2'', example_keeper ''k2'')],
      cd_DBs = fmap_of_list [(''db1'', example_master), (''db2'', example_standby)],
      cd_Proxy = Some \<lparr>p_UID = '''', p_Generation = 2, p_ChangeTime = 0,
        p_Spec = \<lparr>ps_MasterDBUID = ''db1'', ps_EnabledProxies = Some [''p1'']\<rparr>\<rparr>\<rparr>"

definition example_sentinel :: Sentinel where
  "example_sentinel =
     \<lparr>s_uid = ''s'', s_lastLeadershipCount = 1, s_leader = True, s_leadershipCount = 1,
      s_initialClusterSpec = None, s_sleepInterval = 5 * second, s_requestTimeout = 10 * second,
      s_keeperErrorTimers = fmap_of_list [(''k1'', 0)], s_dbErrorTimers = fmap_of_list [(''db1'', 0)],
      s_dbNotIncreasingXLogPos = fmempty, s_dbConvergenceInfos = fmempty,
      s_keeperInfoHistories = fmempty, s_proxyInfoHistories = fmempty\<rparr>"

definition example_env :: Env where
  "example_env =
     \<lparr>e_now = 30 * second, e_wall = 30 * second, e_uidFn = (\<lambda>i. ''new'' @ replicate i CHR ''x''),
      e_randFn = (\<lambda>_. 0), e_ord = (\<lambda>_ ks. ks)\<rparr>"

definition example_infos :: KeepersInfo where
  "example_infos = fmap_of_list [(''k2'',
     \<lparr>ki_InfoUID = ''i'', ki_UID = ''k2'', ki_ClusterUID = ''c'', ki_BootUUID = ''b'',
      ki_PostgresBinaryVersion = \<lparr>pv_Maj = 9, pv_Min = 6\<rparr>,
      ki_PostgresState = Some \<lparr>pst_UID = ''db2'', pst_Generation = 1, pst_ListenAddress = ''a'',
        pst_Port = ''5432'', pst_Healthy = True, pst_SystemID = ''1'', pst_TimelineID = 1,
        pst_XLogPos = 95, pst_TimelinesHistory = [], pst_PGParameters = None,
        pst_SynchronousStandbys = None, pst_OlderWalFile = ''''\<rparr>\<rparr>)]"

definition example_proxies :: ProxiesInfo where
  "example_proxies = fmap_of_list [(''p1'', \<lparr>pi_InfoUID = ''j'', pi_UID = ''p1'', pi_Generation = 2\<rparr>)]"

lemma example_facts:
  "cluster_of example_cd = Inr example_cluster"
  "DefSpec example_cluster = Inr (WithDefaults example_spec)"
  "fmlookup (cd_DBs example_cd) ''db1'' = Some example_master"
  "fmlookup (cd_DBs example_cd) ''db2'' = Some example_standby"
  by (simp_all add: cluster_of_def example_cd_def example_cluster_def DefSpec_def)

lemma example_wf:
  "uids_ok example_cd" "keepers_ok example_cd" "dbs_have_keepers example_cd"
  "infos_ok example_infos" "proxies_ok example_proxies" "convergence_ok example_sentinel example_cd"
  by code_simp+

definition example_status :: "Sentinel \<times> ClusterData \<times> KeeperInfoHistories" where
  "example_status = projr (updateKeepersStatus example_env example_sentinel example_cd example_infos False)"

definition example_s where "example_s = fst example_status"
definition example_cd1 where "example_cd1 = fst (snd example_status)"
definition example_kihs where "example_kihs = snd (snd example_status)"

lemma example_run:
  "updateKeepersStatus example_env example_sentinel example_cd example_infos False =
     Inr (example_s, example_cd1, example_kihs)"
  using is_ok_updateKeepersStatus [OF example_facts(1,2) example_wf(3,4), of example_env example_sentinel False]
  unfolding example_s_def example_cd1_def example_kihs_def example_status_def
  by (auto simp: is_ok_iff)

theorem keeper_health_correct_witness:
  "\<exists>k'. fmlookup (cd_Keepers example_cd1) ''k1'' = Some k' \<and> \<not> ks_Healthy (k_Status k')"
proof -
  have k: "fmlookup (cd_Keepers example_cd) ''k1'' = Some (example_keeper ''k1'')" by code_simp
  have f: "fmlookup (freshInfos example_env example_sentinel example_cluster example_infos) ''k1'' = None"
    by code_simp
  have t: "\<not> e_now example_env - errorSince example_env (s_keeperErrorTimers example_sentinel) ''k1''
      \<le> def_FailInterval (WithDefaults example_spec)"
    by code_simp
  show ?thesis
    using keeper_health_correct [OF example_run example_facts(1,2) example_wf(2,4) k] f t by auto
qed

theorem db_health_correct_witness:
  "\<exists>db'. fmlookup (cd_DBs example_cd1) ''db1'' = Some db' \<and> \<not> st_Healthy (db_Status db')"
proof -
  have f: "reportedState (freshInfos example_env example_sentinel example_cluster example_infos) example_master = None"
    by code_simp
  have t: "\<not> e_now example_env - errorSince example_env (s_dbErrorTimers example_sentinel) ''db1''
      \<le> def_FailInterval (WithDefaults example_spec)"
    by code_simp
  show ?thesis
    using db_health_correct [OF example_run example_facts(1,2) example_wf(1) example_facts(3)] f t by auto
qed

theorem firstRun_inert_witness:
  "\<exists>kihs. updateKeepersStatus example_env example_sentinel example_cd example_infos True =
     Inr (example_sentinel, example_cd, kihs) \<and>
     fmlookup (freshInfos example_env (example_sentinel\<lparr>s_keeperInfoHistories := kihs\<rparr>)
       example_cluster example_infos) ''k2'' = None"
proof -
  have "\<exists>ki. fmlookup example_infos ''k2'' = Some ki \<and> ki_ClusterUID ki = c_UID example_cluster"
    by (simp add: example_infos_def example_cluster_def)
  then show ?thesis
    using firstRun_inert [OF example_facts(1) example_wf(4), of example_env example_sentinel example_env] by blast
qed

theorem activeProxies_correct_witness:
  "\<exists>pi. fmlookup (snd (activeProxiesInfos example_env example_sentinel example_proxies)) ''p1'' = Some pi"
proof -
  have "\<exists>pi. fmlookup example_proxies ''p1'' = Some pi" "s_proxyInfoHistories example_sentinel = fmempty"
    by (simp_all add: example_proxies_def example_sentinel_def)
  then show ?thesis
    using activeProxies_correct [OF example_wf(5), of example_env example_sentinel
        "fst (activeProxiesInfos example_env example_sentinel example_proxies)"
        "snd (activeProxiesInfos example_env example_sentinel example_proxies)" "''p1''"] by auto
qed

theorem convergence_timers_correct_witness:
  "dbConvergenceState example_env (updateDBConvergenceInfos example_env example_cd example_sentinel)
     example_master 1 = Inr Converged"
proof -
  have "st_CurrentGeneration (db_Status example_master) = db_Generation example_master" by code_simp
  then show ?thesis
    using convergence_timers_correct [OF example_wf(1) example_facts(3), of example_env example_env example_sentinel 1]
    by simp
qed

end
