(* ===== verification/Sentinel_Select.thy ===== *)
theory Sentinel_Select
  imports Sentinel_State
begin

text \<open>
  How the sentinel classifies databases and ranks the candidates for a failover
  (\<^verbatim>\<open>cmd/sentinel/cmd/sentinel.go\<close>, from \<^verbatim>\<open>isDifferentTimelineBranch\<close> to
  \<^verbatim>\<open>findBestNewMasters\<close>). The locale \<open>status_split\<close> is the contract shared by
  \<^verbatim>\<open>validMastersByStatus\<close> and \<^verbatim>\<open>validStandbysByStatus\<close>; it is interpreted on both.
\<close>

section \<open>Timelines and lag\<close>

definition isDifferentTimelineBranch :: "DB \<Rightarrow> DB \<Rightarrow> bool" where
  "isDifferentTimelineBranch followedDB db =
     (let ftl = st_TimelineID (db_Status followedDB);
          tli = st_TimelineID (db_Status db)
      in if ftl < tli then True
         else if ftl = tli then
           (if tli \<le> 1 then False
            else
              (case (GetTimelineHistory (st_TimelinesHistory (db_Status followedDB)) (tli - 1),
                     GetTimelineHistory (st_TimelinesHistory (db_Status db)) (tli - 1)) of
                 (Some ftlh, Some tlh) \<Rightarrow>
                   if tlh_SwitchPoint ftlh = tlh_SwitchPoint tlh then False else True
               | _ \<Rightarrow> False))
         else
           (case GetTimelineHistory (st_TimelinesHistory (db_Status followedDB)) tli of
              Some ftlh \<Rightarrow> if tlh_SwitchPoint ftlh < st_XLogPos (db_Status db) then True else False
            | None \<Rightarrow> False))"

definition isLagBelowMax :: "ClusterData \<Rightarrow> DB \<Rightarrow> DB \<Rightarrow> bool res" where
  "isLagBelowMax cd curMasterDB db =
     bindE (defspec_of cd) (\<lambda>spec.
       if sint (st_XLogPos (db_Status curMasterDB) - st_XLogPos (db_Status db))
            > uint (def_MaxStandbyLag spec)
       then Inr False else Inr True)"

definition freeKeepers :: "iter_order \<Rightarrow> ClusterData \<Rightarrow> Keeper list" where
  "freeKeepers ord cd =
     map snd (filter (\<lambda>(_, keeper).
         ks_Healthy (k_Status keeper) \<and>
         list_all (\<lambda>(_, db). dbs_KeeperUID (db_Spec db) \<noteq> k_UID keeper) (entries (cd_DBs cd)))
       (range_by ord (cd_Keepers cd)))"

section \<open>Type, validity and status of a database\<close>

datatype DbType = dbTypeMaster | dbTypeStandby
datatype DbValidity = dbValidityValid | dbValidityInvalid | dbValidityUnknown
datatype DbStat = dbStatusGood | dbStatusFailed | dbStatusConverging

definition getDB :: "ClusterData \<Rightarrow> string \<Rightarrow> DB res" where
  "getDB cd dbUID =
     (case fmlookup (cd_DBs cd) dbUID of
        None \<Rightarrow> Inl (Panic ''requested unexisting db uid'')
      | Some db \<Rightarrow> Inr db)"

definition getMasterDB :: "ClusterData \<Rightarrow> DB res" where
  "getMasterDB cd =
     bindE (cluster_of cd) (\<lambda>c. deref ''nil masterDB'' (fmlookup (cd_DBs cd) (cst_Master (c_Status c))))"

definition dbType :: "ClusterData \<Rightarrow> string \<Rightarrow> DbType res" where
  "dbType cd dbUID =
     bindE (getDB cd dbUID) (\<lambda>db.
       case dbs_Role (db_Spec db) of
         RoleMaster \<Rightarrow> Inr dbTypeMaster
       | RoleStandby \<Rightarrow>
           bindE (deref ''nil FollowConfig'' (dbs_FollowConfig (db_Spec db))) (\<lambda>fc.
             if fc_Type fc = FollowTypeExternal then Inr dbTypeMaster else Inr dbTypeStandby)
       | _ \<Rightarrow> Inl (Panic ''invalid db type in db Spec''))"

definition dbValidity :: "ClusterData \<Rightarrow> string \<Rightarrow> DbValidity res" where
  "dbValidity cd dbUID =
     bindE (getDB cd dbUID) (\<lambda>db.
       if st_CurrentGeneration (db_Status db) = NoGeneration then Inr dbValidityUnknown
       else
         bindE (getMasterDB cd) (\<lambda>masterDB.
           if st_SystemID (db_Status db) \<noteq> '''' \<and>
              st_SystemID (db_Status db) \<noteq> st_SystemID (db_Status masterDB)
           then Inr dbValidityInvalid
           else if isDifferentTimelineBranch masterDB db then Inr dbValidityInvalid
           else Inr dbValidityValid))"

definition dbCanSync :: "Sentinel \<Rightarrow> ClusterData \<Rightarrow> string \<Rightarrow> bool res" where
  "dbCanSync s cd dbUID =
     bindE (getDB cd dbUID) (\<lambda>db.
     bindE (getMasterDB cd) (\<lambda>masterDB.
       if st_OlderWalFile (db_Status masterDB) = '''' then Inr True
       else if dbUID = db_UID masterDB then Inr True
       else
         bindE (dbType cd (db_UID db)) (\<lambda>t.
           if t \<noteq> dbTypeStandby then Inr True
           else if db_Generation db = InitialGeneration then Inr True
           else if \<not> st_Healthy (db_Status db) then Inr True
           else if st_XLogPos (db_Status db) = st_XLogPos (db_Status masterDB) then Inr True
           else if isDBIncreasingXLogPos s db then Inr True
           else
             let required = XlogPosToWalFileNameNoTimeline (st_XLogPos (db_Status db));
                 older = (case WalFileNameNoTimeLine (st_OlderWalFile (db_Status masterDB)) of
                            Inl _ \<Rightarrow> '''' | Inr n \<Rightarrow> n)
             in if required \<ge> older then Inr True else Inr False)))"

definition dbStatus :: "Env \<Rightarrow> Sentinel \<Rightarrow> ClusterData \<Rightarrow> string \<Rightarrow> DbStat res" where
  "dbStatus env s cd dbUID =
     bindE (getDB cd dbUID) (\<lambda>db.
     bindE (deref ''nil Keeper'' (fmlookup (cd_Keepers cd) (dbs_KeeperUID (db_Spec db)))) (\<lambda>keeper.
       if \<not> ks_Healthy (k_Status keeper) then Inr dbStatusFailed
       else
         bindE (defspec_of cd) (\<lambda>spec.
           let convergenceTimeout =
                 (if db_Generation db = InitialGeneration \<and>
                     dbs_InitMode (db_Spec db) = DBInitModeResync
                  then def_SyncTimeout spec else def_ConvergenceTimeout spec)
           in bindE (dbConvergenceState env s db convergenceTimeout) (\<lambda>convergenceState.
                case convergenceState of
                  ConvergenceFailed \<Rightarrow> Inr dbStatusFailed
                | Converging \<Rightarrow> Inr dbStatusConverging
                | Converged \<Rightarrow>
                    if \<not> st_Healthy (db_Status db) then Inr dbStatusFailed else Inr dbStatusGood))))"

section \<open>Databases by status\<close>

text \<open>
  The body of the loops of \<^verbatim>\<open>validMastersByStatus\<close> and \<^verbatim>\<open>validStandbysByStatus\<close>:
  \<open>None\<close> is the \<^verbatim>\<open>continue\<close>.
\<close>

definition validStatus ::
  "DbType \<Rightarrow> Env \<Rightarrow> Sentinel \<Rightarrow> ClusterData \<Rightarrow> string \<Rightarrow> DbStat option res" where
  "validStatus wanted env s cd dbUID =
     bindE (dbValidity cd dbUID) (\<lambda>v.
       if v \<noteq> dbValidityValid then Inr None
       else
         bindE (dbType cd dbUID) (\<lambda>t.
           if t \<noteq> wanted then Inr None
           else bindE (dbStatus env s cd dbUID) (\<lambda>status. Inr (Some status))))"

definition dbsWith :: "DbStat \<Rightarrow> (DB \<times> DbStat option) list \<Rightarrow> DBs" where
  "dbsWith status ds =
     fold (\<lambda>(db, r) m. if r = Some status then fmupd (db_UID db) db m else m) ds fmempty"

definition validByStatus ::
  "DbType \<Rightarrow> Env \<Rightarrow> Sentinel \<Rightarrow> ClusterData \<Rightarrow> (DBs \<times> DBs \<times> DBs) res" where
  "validByStatus wanted env s cd =
     bindE (mapE (\<lambda>(_, db). bindE (validStatus wanted env s cd (db_UID db)) (\<lambda>r. Inr (db, r)))
              (entries (cd_DBs cd)))
       (\<lambda>ds. Inr (dbsWith dbStatusGood ds, dbsWith dbStatusFailed ds, dbsWith dbStatusConverging ds))"

definition validMastersByStatus :: "Env \<Rightarrow> Sentinel \<Rightarrow> ClusterData \<Rightarrow> (DBs \<times> DBs \<times> DBs) res" where
  "validMastersByStatus = validByStatus dbTypeMaster"

definition validStandbysByStatus :: "Env \<Rightarrow> Sentinel \<Rightarrow> ClusterData \<Rightarrow> (DBs \<times> DBs \<times> DBs) res" where
  "validStandbysByStatus = validByStatus dbTypeStandby"

section \<open>Candidates\<close>

text \<open>
  The filter both candidate loops apply, and the sort by \<^verbatim>\<open>XLogPos\<close> (\<^verbatim>\<open>dbSlice\<close>).
  \<^verbatim>\<open>sort.Sort\<close> is not stable: databases with the same position come in an arbitrary order, which is proposed
  by \<open>ord\<close>.
\<close>

definition acceptable :: "ClusterData \<Rightarrow> DB \<Rightarrow> DB \<Rightarrow> bool res" where
  "acceptable cd masterDB db =
     (if st_TimelineID (db_Status db) \<noteq> st_TimelineID (db_Status masterDB) then Inr False
      else
        bindE (defspec_of cd) (\<lambda>spec.
          if \<not> syncRepl spec
          then bindE (isLagBelowMax cd masterDB db) (\<lambda>b. if \<not> b then Inr False else Inr True)
          else Inr True))"

definition xlog_of :: "DB \<Rightarrow> uint64" where
  "xlog_of db = st_XLogPos (db_Status db)"

definition positionIn :: "string list \<Rightarrow> string \<Rightarrow> nat" where
  "positionIn ks u = length (takeWhile (\<lambda>k. k \<noteq> u) ks)"

definition sortByXLogPos :: "iter_order \<Rightarrow> DB list \<Rightarrow> DB list" where
  "sortByXLogPos ord dbs =
     (let uids = order_keys ord (map db_UID dbs)
      in sort_key xlog_of (sort_key (\<lambda>db. positionIn uids (db_UID db)) dbs))"

definition findBestStandbys ::
  "iter_order \<Rightarrow> Env \<Rightarrow> Sentinel \<Rightarrow> ClusterData \<Rightarrow> DB \<Rightarrow> DB list res" where
  "findBestStandbys ord env s cd masterDB =
     bindE (validStandbysByStatus env s cd) (\<lambda>(goodStandbys, _, _).
     bindE (filterE (acceptable cd masterDB) (map snd (range_by ord goodStandbys))) (\<lambda>bestDBs.
       Inr (sortByXLogPos (e_ord env 8) bestDBs)))"

definition findBestNewMasters ::
  "iter_order \<Rightarrow> iter_order \<Rightarrow> Env \<Rightarrow> Sentinel \<Rightarrow> ClusterData \<Rightarrow> DB \<Rightarrow> DB list res" where
  "findBestNewMasters ordS ordM env s cd masterDB =
     bindE (findBestStandbys ordS env s cd masterDB) (\<lambda>bestNewMasters.
     bindE (validMastersByStatus env s cd) (\<lambda>(goodMasters, _, _).
     bindE (filterE (\<lambda>db. if db_UID db = db_UID masterDB then Inr False
                          else acceptable cd masterDB db)
              (map snd (range_by ordM goodMasters))) (\<lambda>more.
       Inr (sortByXLogPos (e_ord env 9) (bestNewMasters @ more)))))"

section \<open>Facts\<close>

lemma getDB_eq_Inr [res_simps]: "getDB cd u = Inr db \<longleftrightarrow> fmlookup (cd_DBs cd) u = Some db"
  by (simp add: getDB_def split: option.splits)

lemma dbStatus_Good:
  assumes "dbStatus env s cd u = Inr dbStatusGood"
  shows "\<exists>db k. fmlookup (cd_DBs cd) u = Some db \<and>
     fmlookup (cd_Keepers cd) (dbs_KeeperUID (db_Spec db)) = Some k \<and> ks_Healthy (k_Status k) \<and>
     st_Healthy (db_Status db) \<and> st_CurrentGeneration (db_Status db) = db_Generation db"
  using assms
  by (auto simp: dbStatus_def dbConvergenceState_def res_simps Let_def
      split: if_splits option.splits ConvergenceState.splits)

lemma fmlookup_dbsWith:
  assumes "distinct (map (db_UID \<circ> fst) ds)"
  shows "fmlookup (dbsWith st ds) u = Some db \<longleftrightarrow> (db, Some st) \<in> set ds \<and> db_UID db = u"
proof -
  have "fmlookup (fold (\<lambda>(db, r) m. if r = Some st then fmupd (db_UID db) db m else m) ds m) u = Some db
    \<longleftrightarrow> (db, Some st) \<in> set ds \<and> db_UID db = u \<or>
        (\<nexists>db'. (db', Some st) \<in> set ds \<and> db_UID db' = u) \<and> fmlookup m u = Some db" for m
    using assms
  proof (induction ds arbitrary: m)
    case (Cons d ds)
    then show ?case by (cases d) (force simp: image_iff)
  qed simp
  then show ?thesis by (simp add: dbsWith_def)
qed

text \<open>What the classification of the databases promises, for the type of database it is about.\<close>

locale status_split =
  fixes split :: "Env \<Rightarrow> Sentinel \<Rightarrow> ClusterData \<Rightarrow> (DBs \<times> DBs \<times> DBs) res"
    and t :: DbType
  assumes good_iff: "uids_ok cd \<Longrightarrow> split env s cd = Inr (g, f, c) \<Longrightarrow>
      fmlookup g u = Some db \<longleftrightarrow>
        fmlookup (cd_DBs cd) u = Some db \<and> validStatus t env s cd u = Inr (Some dbStatusGood)"
    and failed_iff: "uids_ok cd \<Longrightarrow> split env s cd = Inr (g, f, c) \<Longrightarrow>
      fmlookup f u = Some db \<longleftrightarrow>
        fmlookup (cd_DBs cd) u = Some db \<and> validStatus t env s cd u = Inr (Some dbStatusFailed)"
    and converging_iff: "uids_ok cd \<Longrightarrow> split env s cd = Inr (g, f, c) \<Longrightarrow>
      fmlookup c u = Some db \<longleftrightarrow>
        fmlookup (cd_DBs cd) u = Some db \<and> validStatus t env s cd u = Inr (Some dbStatusConverging)"
begin

lemma good_typed:
  assumes "uids_ok cd" "split env s cd = Inr (g, f, c)" "fmlookup g u = Some db"
  shows "fmlookup (cd_DBs cd) u = Some db \<and> dbValidity cd u = Inr dbValidityValid \<and>
    dbType cd u = Inr t \<and> dbStatus env s cd u = Inr dbStatusGood"
  using assms good_iff [OF assms(1,2)]
  by (auto simp: validStatus_def res_simps split: if_splits)

lemma good_healthy:
  assumes "uids_ok cd" "split env s cd = Inr (g, f, c)" "fmlookup g u = Some db"
  shows "st_Healthy (db_Status db) \<and> st_CurrentGeneration (db_Status db) = db_Generation db \<and>
    (\<exists>k. fmlookup (cd_Keepers cd) (dbs_KeeperUID (db_Spec db)) = Some k \<and> ks_Healthy (k_Status k))"
  using good_typed [OF assms] dbStatus_Good [of env s cd u] by auto

lemma good_uid:
  "uids_ok cd \<Longrightarrow> split env s cd = Inr (g, f, c) \<Longrightarrow> fmlookup g u = Some db \<Longrightarrow> db_UID db = u"
  using good_typed uids_okD by blast

lemma disjoint_classes:
  assumes "uids_ok cd" "split env s cd = Inr (g, f, c)"
  shows "fmdom' g \<inter> fmdom' f = {} \<and> fmdom' g \<inter> fmdom' c = {} \<and> fmdom' f \<inter> fmdom' c = {}"
  by (auto simp: fmlookup_dom'_iff good_iff [OF assms] failed_iff [OF assms] converging_iff [OF assms])

end

lemma validByStatus_pairs:
  assumes "uids_ok cd"
    and "mapE (\<lambda>(_, db). bindE (validStatus t env s cd (db_UID db)) (\<lambda>r. Inr (db, r)))
           (entries (cd_DBs cd)) = Inr ds"
  shows "distinct (map (db_UID \<circ> fst) ds)"
    and "(db, r) \<in> set ds \<longleftrightarrow>
      fmlookup (cd_DBs cd) (db_UID db) = Some db \<and> validStatus t env s cd (db_UID db) = Inr r"
proof -
  let ?f = "\<lambda>(k :: string, db). bindE (validStatus t env s cd (db_UID db)) (\<lambda>r. Inr (db, r))"
  have all: "list_all2 (\<lambda>x y. ?f x = Inr y) (entries (cd_DBs cd)) ds"
    using assms(2) by (rule mapE_eq_Inr)
  have f: "?f x = Inr y \<longleftrightarrow> (\<exists>k db r. x = (k, db) \<and> y = (db, r) \<and> validStatus t env s cd (db_UID db) = Inr r)"
    for x y by (auto simp: res_simps split: prod.splits)
  have ent: "db_UID (snd x) = fst x" if "x \<in> set (entries (cd_DBs cd))" for x
    using that uids_okD [OF assms(1)] by (metis in_entries_iff prod.collapse)
  have "list_all2 (\<lambda>x y. db_UID (fst y) = fst x) (entries (cd_DBs cd)) ds"
    using all by (rule list.rel_mono_strong) (auto simp: f dest: ent)
  then have "map (db_UID \<circ> fst) ds = map fst (entries (cd_DBs cd))"
    by (induction rule: list_all2_induct) auto
  then show "distinct (map (db_UID \<circ> fst) ds)" by (simp add: distinct_entries)
  show "(db, r) \<in> set ds \<longleftrightarrow>
      fmlookup (cd_DBs cd) (db_UID db) = Some db \<and> validStatus t env s cd (db_UID db) = Inr r"
  proof
    assume "(db, r) \<in> set ds"
    then obtain x where "x \<in> set (entries (cd_DBs cd))" "?f x = Inr (db, r)"
      using list_all2_right [OF all] by blast
    then show "fmlookup (cd_DBs cd) (db_UID db) = Some db \<and> validStatus t env s cd (db_UID db) = Inr r"
      using ent by (auto simp: f)
  next
    assume *: "fmlookup (cd_DBs cd) (db_UID db) = Some db \<and> validStatus t env s cd (db_UID db) = Inr r"
    then have "(db_UID db, db) \<in> set (entries (cd_DBs cd))" by simp
    then obtain y where "y \<in> set ds" "?f (db_UID db, db) = Inr y"
      using list_all2_left [OF all] by blast
    with * show "(db, r) \<in> set ds" by auto
  qed
qed

lemma validByStatus_iff:
  assumes "uids_ok cd" and "validByStatus t env s cd = Inr (g, f, c)"
  shows "fmlookup g u = Some db \<longleftrightarrow>
      fmlookup (cd_DBs cd) u = Some db \<and> validStatus t env s cd u = Inr (Some dbStatusGood)"
    and "fmlookup f u = Some db \<longleftrightarrow>
      fmlookup (cd_DBs cd) u = Some db \<and> validStatus t env s cd u = Inr (Some dbStatusFailed)"
    and "fmlookup c u = Some db \<longleftrightarrow>
      fmlookup (cd_DBs cd) u = Some db \<and> validStatus t env s cd u = Inr (Some dbStatusConverging)"
proof -
  from assms(2) obtain ds
    where ds: "mapE (\<lambda>(_, db). bindE (validStatus t env s cd (db_UID db)) (\<lambda>r. Inr (db, r)))
           (entries (cd_DBs cd)) = Inr ds"
      and "g = dbsWith dbStatusGood ds" "f = dbsWith dbStatusFailed ds" "c = dbsWith dbStatusConverging ds"
    by (auto simp: validByStatus_def res_simps)
  then show "fmlookup g u = Some db \<longleftrightarrow>
      fmlookup (cd_DBs cd) u = Some db \<and> validStatus t env s cd u = Inr (Some dbStatusGood)"
    and "fmlookup f u = Some db \<longleftrightarrow>
      fmlookup (cd_DBs cd) u = Some db \<and> validStatus t env s cd u = Inr (Some dbStatusFailed)"
    and "fmlookup c u = Some db \<longleftrightarrow>
      fmlookup (cd_DBs cd) u = Some db \<and> validStatus t env s cd u = Inr (Some dbStatusConverging)"
    using uids_okD [OF assms(1), of u db]
    by (auto simp: fmlookup_dbsWith [OF validByStatus_pairs(1) [OF assms(1) ds]]
        validByStatus_pairs(2) [OF assms(1) ds])
qed

interpretation masters: status_split validMastersByStatus dbTypeMaster
  unfolding validMastersByStatus_def by unfold_locales (simp_all add: validByStatus_iff)

interpretation standbys: status_split validStandbysByStatus dbTypeStandby
  unfolding validStandbysByStatus_def by unfold_locales (simp_all add: validByStatus_iff)




text \<open>What a candidate for an election or for a synchronous standby is.\<close>

definition candidate :: "Env \<Rightarrow> Sentinel \<Rightarrow> ClusterData \<Rightarrow> DB \<Rightarrow> DB \<Rightarrow> bool" where
  "candidate env s cd masterDB db \<longleftrightarrow>
     fmlookup (cd_DBs cd) (db_UID db) = Some db \<and>
     dbValidity cd (db_UID db) = Inr dbValidityValid \<and>
     dbStatus env s cd (db_UID db) = Inr dbStatusGood \<and>
     acceptable cd masterDB db = Inr True"

lemma acceptable_True:
  "acceptable cd masterDB db = Inr True \<Longrightarrow>
     st_TimelineID (db_Status db) = st_TimelineID (db_Status masterDB) \<and>
     (\<exists>spec. defspec_of cd = Inr spec \<and>
       (syncRepl spec \<or>
        sint (st_XLogPos (db_Status masterDB) - st_XLogPos (db_Status db)) \<le> uint (def_MaxStandbyLag spec)))"
  by (auto simp: acceptable_def isLagBelowMax_def res_simps split: if_splits)

lemma set_sortByXLogPos [simp]: "set (sortByXLogPos ord dbs) = set dbs"
  by (simp add: sortByXLogPos_def Let_def)

lemma findBestNewMasters_sorted:
  "findBestNewMasters ordS ordM env s cd m = Inr best \<Longrightarrow> sorted (map xlog_of best)"
  by (auto simp: findBestNewMasters_def res_simps sortByXLogPos_def Let_def)

lemma validStatus_Good:
  "validStatus t env s cd u = Inr (Some dbStatusGood) \<longleftrightarrow>
     dbValidity cd u = Inr dbValidityValid \<and> dbType cd u = Inr t \<and> dbStatus env s cd u = Inr dbStatusGood"
  by (auto simp: validStatus_def res_simps split: if_splits)

lemma in_range_by_snd:
  assumes "\<And>u db. fmlookup g u = Some db \<Longrightarrow> db_UID db = u"
  shows "db \<in> snd ` set (range_by ord g) \<longleftrightarrow> fmlookup g (db_UID db) = Some db"
proof
  assume "db \<in> snd ` set (range_by ord g)"
  then obtain u where "fmlookup g u = Some db" by auto
  then show "fmlookup g (db_UID db) = Some db" using assms by blast
next
  assume "fmlookup g (db_UID db) = Some db"
  then have "(db_UID db, db) \<in> set (range_by ord g)" by simp
  then show "db \<in> snd ` set (range_by ord g)" by (rule image_eqI [rotated]) simp
qed

lemma findBestStandbys_iff:
  assumes "uids_ok cd" and "findBestStandbys ord env s cd m = Inr best"
  shows "db \<in> set best \<longleftrightarrow> candidate env s cd m db \<and> dbType cd (db_UID db) = Inr dbTypeStandby"
proof -
  from assms(2) obtain g f c bestDBs where split: "validStandbysByStatus env s cd = Inr (g, f, c)"
    and fe: "filterE (acceptable cd m) (map snd (range_by ord g)) = Inr bestDBs"
    and best: "best = sortByXLogPos (e_ord env 8) bestDBs"
    by (auto simp: findBestStandbys_def res_simps)
  have "db \<in> set best \<longleftrightarrow> fmlookup g (db_UID db) = Some db \<and> acceptable cd m db = Inr True"
    using filterE_eq_Inr [OF fe] in_range_by_snd [OF standbys.good_uid [OF assms(1) split]]
    by (auto simp: best)
  then show ?thesis
    by (auto simp: standbys.good_iff [OF assms(1) split] validStatus_Good candidate_def)
qed

lemma findBestNewMasters_iff:
  assumes "uids_ok cd" and "findBestNewMasters ordS ordM env s cd m = Inr best"
  shows "db \<in> set best \<longleftrightarrow> candidate env s cd m db \<and>
    (dbType cd (db_UID db) = Inr dbTypeStandby \<or>
     dbType cd (db_UID db) = Inr dbTypeMaster \<and> db_UID db \<noteq> db_UID m)"
proof -
  from assms(2) obtain stb g f c more where stb: "findBestStandbys ordS env s cd m = Inr stb"
    and split: "validMastersByStatus env s cd = Inr (g, f, c)"
    and fe: "filterE (\<lambda>db. if db_UID db = db_UID m then Inr False else acceptable cd m db)
              (map snd (range_by ordM g)) = Inr more"
    and best: "best = sortByXLogPos (e_ord env 9) (stb @ more)"
    by (auto simp: findBestNewMasters_def res_simps)
  have "db \<in> set more \<longleftrightarrow>
      fmlookup g (db_UID db) = Some db \<and> db_UID db \<noteq> db_UID m \<and> acceptable cd m db = Inr True"
    using filterE_eq_Inr [OF fe] in_range_by_snd [OF masters.good_uid [OF assms(1) split]] by auto
  then have "db \<in> set more \<longleftrightarrow> candidate env s cd m db \<and> dbType cd (db_UID db) = Inr dbTypeMaster \<and> db_UID db \<noteq> db_UID m"
    by (auto simp: masters.good_iff [OF assms(1) split] validStatus_Good candidate_def)
  then show ?thesis
    by (auto simp: best findBestStandbys_iff [OF assms(1) stb])
qed

end
