(* ===== verification/Sentinel_Update.thy ===== *)
theory Sentinel_Update
  imports Sentinel_Select
begin

text \<open>
  \<^verbatim>\<open>updateCluster\<close> of \<^verbatim>\<open>cmd/sentinel/cmd/sentinel.go\<close>: from the current cluster data
  and the active proxies, the next cluster data. The Go function is one body of about 790 lines; here every section of it is a
  definition, and \<open>updateClusterNormal\<close> and \<open>updateCluster\<close> compose them in the order of the code.
  \<open>cd\<close> is the cluster data the function was given, \<open>newcd\<close> the copy it changes, \<open>spec\<close> is
  \<^verbatim>\<open>clusterSpec\<close>. An assignment through the pointer to the master database is an update of the entry of the
  master in \<open>newcd\<close>.

  The order dependent loops take their order from the environment: \<open>e_ord env n\<close> with 1 and 2 for the candidates of an
  election, 3 for the synchronous standbys in excess, 4 for the candidates for synchronous standbys, 5 for the previous synchronous
  standbys kept, 6 for the good standbys in excess, 7 for the free keepers; 0 is the (order independent) search for a keeper's
  database.
\<close>

section \<open>Assignments\<close>

definition modDB :: "string \<Rightarrow> (DB \<Rightarrow> DB) \<Rightarrow> ClusterData \<Rightarrow> ClusterData" where
  "modDB u f cd =
     (case fmlookup (cd_DBs cd) u of
        None \<Rightarrow> cd
      | Some db \<Rightarrow> cd\<lparr>cd_DBs := fmupd u (f db) (cd_DBs cd)\<rparr>)"

definition modSpec :: "string \<Rightarrow> (DBSpec \<Rightarrow> DBSpec) \<Rightarrow> ClusterData \<Rightarrow> ClusterData" where
  "modSpec u f = modDB u (\<lambda>db. db\<lparr>db_Spec := f (db_Spec db)\<rparr>)"

definition modStatus :: "string \<Rightarrow> (DBStatus \<Rightarrow> DBStatus) \<Rightarrow> ClusterData \<Rightarrow> ClusterData" where
  "modStatus u f = modDB u (\<lambda>db. db\<lparr>db_Status := f (db_Status db)\<rparr>)"

definition modCluster :: "(Cluster \<Rightarrow> Cluster) \<Rightarrow> ClusterData \<Rightarrow> ClusterData" where
  "modCluster f cd = cd\<lparr>cd_Cluster := map_option f (cd_Cluster cd)\<rparr>"

definition setMaster :: "string \<Rightarrow> ClusterData \<Rightarrow> ClusterData" where
  "setMaster u = modCluster (\<lambda>c. c\<lparr>c_Status := (c_Status c)\<lparr>cst_Master := u\<rparr>\<rparr>)"

definition setPhase :: "ClusterPhase \<Rightarrow> ClusterData \<Rightarrow> ClusterData" where
  "setPhase p = modCluster (\<lambda>c. c\<lparr>c_Status := (c_Status c)\<lparr>cst_Phase := p\<rparr>\<rparr>)"

section \<open>Cluster initialization\<close>

definition findInitialKeeper :: "Env \<Rightarrow> ClusterData \<Rightarrow> Keeper res" where
  "findInitialKeeper env cd =
     (if map_len (cd_Keepers cd) < 1 then Inl (Error ''no keepers registered'')
      else
        let r = e_randFn env (map_len (cd_Keepers cd));
            keys = sort (keys_of (cd_Keepers cd))
        in if r < length keys then deref ''nil Keeper'' (fmlookup (cd_Keepers cd) (keys ! r))
           else Inl (Panic ''index out of range''))"

text \<open>Add the database chosen for being the master and make it the master.\<close>

definition addMasterDB :: "string \<Rightarrow> DBSpec \<Rightarrow> ClusterData \<Rightarrow> ClusterData" where
  "addMasterDB uid dbspec newcd =
     setMaster uid (newcd\<lparr>cd_DBs := fmupd uid (newDB uid dbspec) (cd_DBs newcd)\<rparr>)"

text \<open>The database of the master is initialized: switch to the normal phase.\<close>

definition dbInitialized :: "ClusterSpec \<Rightarrow> string \<Rightarrow> DB \<Rightarrow> ClusterData \<Rightarrow> ClusterData" where
  "dbInitialized spec master db newcd =
     (let newcd = modSpec master (\<lambda>sp. sp\<lparr>dbs_InitMode := DBInitModeNone, dbs_IncludeConfig := False\<rparr>) newcd;
          newcd = (if def_MergePgParameters spec
                   then modCluster (\<lambda>c. c\<lparr>c_Spec := map_option
                          (\<lambda>sp. sp\<lparr>cs_PGParameters := st_PGParameters (db_Status db)\<rparr>) (c_Spec c)\<rparr>) newcd
                   else newcd)
      in setPhase ClusterPhaseNormal newcd)"

text \<open>The database failed to initialize: empty DBs and unset the master.\<close>

definition initFailed :: "ClusterData \<Rightarrow> ClusterData" where
  "initFailed newcd = setMaster '''' (newcd\<lparr>cd_DBs := fmempty\<rparr>)"

definition initModeNew :: "Env \<Rightarrow> Sentinel \<Rightarrow> ClusterSpec \<Rightarrow> string \<Rightarrow> ClusterData \<Rightarrow> ClusterData res" where
  "initModeNew env s spec master newcd =
     (if master = '''' then
        (case findInitialKeeper env newcd of
           Inl (Error e) \<Rightarrow> Inl (Error (''cannot choose initial master: '' @ e))
         | Inl e \<Rightarrow> Inl e
         | Inr k \<Rightarrow>
             Inr (addMasterDB (e_uidFn env 0)
               (zero_DBSpec\<lparr>dbs_KeeperUID := k_UID k, dbs_InitMode := DBInitModeNew,
                  dbs_NewConfig := cs_NewConfig spec, dbs_Role := RoleMaster,
                  dbs_Followers := Some [], dbs_IncludeConfig := def_MergePgParameters spec\<rparr>) newcd))
      else
        bindE (getDB newcd master) (\<lambda>db.
        bindE (dbConvergenceState env s db (def_InitTimeout spec)) (\<lambda>cstate.
          case cstate of
            Converged \<Rightarrow>
              Inr (if st_Healthy (db_Status db) then dbInitialized spec master db newcd else newcd)
          | Converging \<Rightarrow> Inr newcd
          | ConvergenceFailed \<Rightarrow> Inr (initFailed newcd))))"

definition initModeExisting :: "Env \<Rightarrow> Sentinel \<Rightarrow> ClusterSpec \<Rightarrow> string \<Rightarrow> ClusterData \<Rightarrow> ClusterData res" where
  "initModeExisting env s spec master newcd =
     (if master = '''' then
        bindE (deref ''nil ExistingConfig'' (cs_ExistingConfig spec)) (\<lambda>ec.
          case fmlookup (cd_Keepers newcd) (ec_KeeperUID ec) of
            None \<Rightarrow> Inl (Error (''keeper state not available: '' @ ec_KeeperUID ec))
          | Some k \<Rightarrow>
              Inr (addMasterDB (e_uidFn env 0)
                (zero_DBSpec\<lparr>dbs_KeeperUID := k_UID k, dbs_InitMode := DBInitModeExisting,
                   dbs_Role := RoleMaster, dbs_Followers := Some [],
                   dbs_IncludeConfig := def_MergePgParameters spec\<rparr>) newcd))
      else
        bindE (getDB newcd master) (\<lambda>db.
          if st_Healthy (db_Status db)
          then bindE (dbConvergenceState env s db (def_ConvergenceTimeout spec)) (\<lambda>cstate.
                 Inr (if cstate = Converged then dbInitialized spec master db newcd else newcd))
          else Inr newcd))"

text \<open>The role and follow configuration of a master: that of the cluster.\<close>

definition masterRole :: "ClusterSpec \<Rightarrow> (Role \<times> FollowConfig option) res" where
  "masterRole spec =
     (if def_Role spec = ClusterRoleStandby then
        bindE (deref ''nil StandbyConfig'' (cs_StandbyConfig spec)) (\<lambda>sc.
          Inr (RoleStandby,
               Some \<lparr>fc_Type = FollowTypeExternal, fc_DBUID = '''',
                     fc_StandbySettings = sc_StandbySettings sc,
                     fc_ArchiveRecoverySettings = sc_ArchiveRecoverySettings sc\<rparr>))
      else Inr (RoleMaster, None))"

definition initModePITR :: "Env \<Rightarrow> Sentinel \<Rightarrow> ClusterSpec \<Rightarrow> string \<Rightarrow> ClusterData \<Rightarrow> ClusterData res" where
  "initModePITR env s spec master newcd =
     (if master = '''' then
        (case findInitialKeeper env newcd of
           Inl (Error e) \<Rightarrow> Inl (Error (''cannot choose initial master: '' @ e))
         | Inl e \<Rightarrow> Inl e
         | Inr k \<Rightarrow>
             bindE (masterRole spec) (\<lambda>(role, followConfig).
               Inr (addMasterDB (e_uidFn env 0)
                 (zero_DBSpec\<lparr>dbs_KeeperUID := k_UID k, dbs_InitMode := DBInitModePITR,
                    dbs_PITRConfig := cs_PITRConfig spec, dbs_Role := role,
                    dbs_FollowConfig := followConfig, dbs_Followers := Some [],
                    dbs_IncludeConfig := def_MergePgParameters spec\<rparr>) newcd)))
      else
        bindE (getDB newcd master) (\<lambda>db.
        bindE (dbConvergenceState env s db 0) (\<lambda>cstate.
          case cstate of
            Converged \<Rightarrow>
              Inr (if st_Healthy (db_Status db) then dbInitialized spec master db newcd else newcd)
          | Converging \<Rightarrow> Inr newcd
          | ConvergenceFailed \<Rightarrow> Inr (initFailed newcd))))"

definition updateClusterInit :: "Env \<Rightarrow> Sentinel \<Rightarrow> ClusterSpec \<Rightarrow> string \<Rightarrow> ClusterData \<Rightarrow> ClusterData res" where
  "updateClusterInit env s spec master newcd =
     bindE (deref ''nil InitMode'' (cs_InitMode spec)) (\<lambda>mode.
       case mode of
         ClusterInitModeNew \<Rightarrow> initModeNew env s spec master newcd
       | ClusterInitModeExisting \<Rightarrow> initModeExisting env s spec master newcd
       | ClusterInitModePITR \<Rightarrow> initModePITR env s spec master newcd
       | ClusterInitModeOther m \<Rightarrow> Inl (Error (''unknown init mode '' @ m)))"

section \<open>Normal phase: keepers and election\<close>

text \<open>Remove old keepers. A keeper with a database is skipped, so no database is ever removed here.\<close>

definition removeDeadKeepers :: "Env \<Rightarrow> ClusterSpec \<Rightarrow> ClusterData \<Rightarrow> ClusterData \<Rightarrow> ClusterData" where
  "removeDeadKeepers env spec cd newcd =
     newcd\<lparr>cd_Keepers :=
       delete_keys
         (map (\<lambda>(_, k). k_UID k)
            (filter (\<lambda>(_, k). FindDB (e_ord env 0) cd k = None \<and>
                 e_wall env > ks_LastHealthyTime (k_Status k) + def_DeadKeeperRemovalInterval spec)
               (entries (cd_Keepers newcd))))
         (cd_Keepers newcd)\<rparr>"

definition masterOK :: "Env \<Rightarrow> Sentinel \<Rightarrow> ClusterSpec \<Rightarrow> DB \<Rightarrow> bool res" where
  "masterOK env s spec curMasterDB =
     bindE (dbConvergenceState env s curMasterDB (def_ConvergenceTimeout spec)) (\<lambda>cstate.
       Inr (st_Healthy (db_Status curMasterDB) \<and> cstate \<noteq> ConvergenceFailed))"

text \<open>With synchronous replication only a standby that is both required and known to be in sync may be
  chosen; otherwise the first candidate is.\<close>

definition chooseNewMaster :: "DB \<Rightarrow> DB list \<Rightarrow> DB option" where
  "chooseNewMaster curMasterDB bestNewMasters =
     (case bestNewMasters of
        [] \<Rightarrow> None
      | first # _ \<Rightarrow>
          if dbs_SynchronousReplication (db_Spec curMasterDB) then
            let commonSyncStandbys =
                  CommonElements (elems (st_SynchronousStandbys (db_Status curMasterDB)))
                                 (elems (dbs_SynchronousStandbys (db_Spec curMasterDB)))
            in if commonSyncStandbys = [] then None
               else find (\<lambda>nm. StringInSlice commonSyncStandbys (db_UID nm)) bestNewMasters
          else Some first)"

definition electMaster ::
  "Env \<Rightarrow> Sentinel \<Rightarrow> ClusterSpec \<Rightarrow> ClusterData \<Rightarrow> string \<Rightarrow> DB \<Rightarrow> string res" where
  "electMaster env s spec newcd curMasterDBUID curMasterDB =
     bindE (masterOK env s spec curMasterDB) (\<lambda>ok.
       if ok then Inr curMasterDBUID
       else
         bindE (findBestNewMasters (e_ord env 1) (e_ord env 2) env s newcd curMasterDB) (\<lambda>best.
           Inr (case chooseNewMaster curMasterDB best of
                  None \<Rightarrow> curMasterDBUID
                | Some nm \<Rightarrow> db_UID nm)))"

definition fakeStandbyName :: string where
  "fakeStandbyName = ''stolonfakestandby''"

text \<open>Synchronous replication settings of a newly elected master: those of the previous one, with
  the new master replaced by the previous one.\<close>

definition inheritSync :: "ClusterSpec \<Rightarrow> DB \<Rightarrow> string \<Rightarrow> DBSpec \<Rightarrow> DBSpec" where
  "inheritSync spec oldMasterdb newUID sp =
     (if syncRepl spec then
        let standbys = map (\<lambda>dbUID. if dbUID \<noteq> newUID then dbUID else db_UID oldMasterdb)
                         (elems (dbs_SynchronousStandbys (db_Spec oldMasterdb)))
        in sp\<lparr>dbs_SynchronousReplication := True,
             dbs_SynchronousStandbys := Some (sort standbys),
             dbs_ExternalSynchronousStandbys :=
               Some (if standbys = [] then [fakeStandbyName] else [])\<rparr>
      else sp\<lparr>dbs_SynchronousReplication := False, dbs_SynchronousStandbys := None,
             dbs_ExternalSynchronousStandbys := None\<rparr>)"

text \<open>Tell the proxies that there is currently no active master.\<close>

definition unsetProxyMaster :: "Proxy \<Rightarrow> Proxy" where
  "unsetProxyMaster p =
     (if ps_MasterDBUID (p_Spec p) \<noteq> ''''
      then p\<lparr>p_Spec := (p_Spec p)\<lparr>ps_MasterDBUID := ''''\<rparr>, p_Generation := p_Generation p + 1\<rparr>
      else p)"

definition newMasterElected :: "ClusterSpec \<Rightarrow> string \<Rightarrow> string \<Rightarrow> ClusterData \<Rightarrow> ClusterData res" where
  "newMasterElected spec curMasterDBUID wantedMasterDBUID newcd =
     bindE (deref ''nil oldMasterdb'' (fmlookup (cd_DBs newcd) curMasterDBUID)) (\<lambda>oldMasterdb.
     bindE (masterRole spec) (\<lambda>(role, followConfig).
     bindE (deref ''nil newMasterDB'' (fmlookup (cd_DBs newcd) wantedMasterDBUID)) (\<lambda>newMasterDB.
     bindE (deref ''nil Proxy'' (cd_Proxy newcd)) (\<lambda>proxy.
       let newcd = modSpec curMasterDBUID (\<lambda>sp. sp\<lparr>dbs_Followers := Some []\<rparr>) newcd;
           newcd = setMaster wantedMasterDBUID newcd;
           newcd = newcd\<lparr>cd_Proxy := Some (unsetProxyMaster proxy)\<rparr>
       in Inr (modSpec wantedMasterDBUID
                 (\<lambda>sp. inheritSync spec oldMasterdb (db_UID newMasterDB)
                         (sp\<lparr>dbs_Role := role, dbs_FollowConfig := followConfig\<rparr>)) newcd)))))"

section \<open>Normal phase: proxies and role\<close>

definition updateProxy :: "ProxiesInfo \<Rightarrow> string \<Rightarrow> Proxy \<Rightarrow> Proxy" where
  "updateProxy pis wantedMasterDBUID proxy =
     (if ps_MasterDBUID (p_Spec proxy) = '''' then
        (if filter (\<lambda>(_, pi). pi_Generation pi \<noteq> p_Generation proxy) (entries pis) \<noteq> [] then proxy
         else proxy\<lparr>p_Spec := (p_Spec proxy)\<lparr>ps_MasterDBUID := wantedMasterDBUID\<rparr>,
                    p_Generation := p_Generation proxy + 1\<rparr>)
      else
        let enabledProxies = sort (map (\<lambda>(_, pi). pi_UID pi) (entries pis))
        in if ps_EnabledProxies (p_Spec proxy) \<noteq> Some enabledProxies
           then proxy\<lparr>p_Spec := (p_Spec proxy)\<lparr>ps_EnabledProxies := Some enabledProxies\<rparr>,
                      p_Generation := p_Generation proxy + 1\<rparr>
           else proxy)"

definition setMasterRole :: "ClusterSpec \<Rightarrow> string \<Rightarrow> ClusterData \<Rightarrow> ClusterData" where
  "setMasterRole spec master newcd =
     (if def_Role spec = ClusterRoleMaster
      then modSpec master (\<lambda>sp. sp\<lparr>dbs_Role := RoleMaster, dbs_FollowConfig := None\<rparr>) newcd
      else newcd)"

section \<open>Normal phase: removing databases\<close>

definition deleteDBs :: "(string \<times> DB) list \<Rightarrow> ClusterData \<Rightarrow> ClusterData" where
  "deleteDBs ds cd = cd\<lparr>cd_DBs := delete_keys (map (\<lambda>(_, db). db_UID db) ds) (cd_DBs cd)\<rparr>"

definition removeOldMasters :: "string \<Rightarrow> ClusterData \<Rightarrow> ClusterData res" where
  "removeOldMasters wanted newcd =
     bindE (filterE (\<lambda>(_, db). if db_UID db = wanted then Inr False
                     else bindE (dbType newcd (db_UID db)) (\<lambda>t. Inr (t = dbTypeMaster)))
              (entries (cd_DBs newcd)))
       (\<lambda>toRemove. Inr (deleteDBs toRemove newcd))"

definition removeInvalidDBs :: "string \<Rightarrow> ClusterData \<Rightarrow> ClusterData res" where
  "removeInvalidDBs wanted newcd =
     bindE (filterE (\<lambda>(_, db). if db_UID db = wanted then Inr False
                     else bindE (dbValidity newcd (db_UID db)) (\<lambda>v. Inr (v = dbValidityInvalid)))
              (entries (cd_DBs newcd)))
       (\<lambda>toRemove. Inr (deleteDBs toRemove newcd))"

definition removeUnsyncableDBs :: "Sentinel \<Rightarrow> ClusterData \<Rightarrow> ClusterData \<Rightarrow> ClusterData res" where
  "removeUnsyncableDBs s cd newcd =
     bindE (filterE (\<lambda>(_, db). bindE (dbCanSync s cd (db_UID db)) (\<lambda>b. Inr (\<not> b)))
              (entries (cd_DBs newcd)))
       (\<lambda>toRemove. Inr (deleteDBs toRemove newcd))"

definition cleanInitMode :: "DBs \<Rightarrow> ClusterData \<Rightarrow> ClusterData" where
  "cleanInitMode goodStandbys newcd =
     newcd\<lparr>cd_DBs := fmmap_keys (\<lambda>u db.
        if fmlookup goodStandbys u = None then db
        else db\<lparr>db_Spec := (db_Spec db)\<lparr>dbs_InitMode := DBInitModeNone\<rparr>\<rparr>) (cd_DBs newcd)\<rparr>"

section \<open>Normal phase: synchronous standbys\<close>

text \<open>
  The limits: \<^verbatim>\<open>minSynchronousStandbys\<close>, \<^verbatim>\<open>maxSynchronousStandbys\<close> and
  \<^verbatim>\<open>merge\<close>. On postgres up to 9.5 there is one synchronous standby and no merge.
\<close>

definition syncLimits :: "ClusterSpec \<Rightarrow> PostgresBinaryVersion \<Rightarrow> int \<times> int \<times> bool" where
  "syncLimits spec v =
     (if pv_Maj v \<noteq> 0 \<and> pv_Maj v = 9 \<and> pv_Min v \<le> 5 then (1, 1, False)
      else (uint (def_MinSynchronousStandbys spec), uint (def_MaxSynchronousStandbys spec), True))"

text \<open>
  If the known in sync standbys are not the required ones: refresh the known ones, and if one of the
  missing ones is gone or not good, require only the known ones. The assignment
  \<^verbatim>\<open>Spec.SynchronousStandbys = Status.SynchronousStandbys\<close> shares the slice, so the sort that follows
  sorts both.
\<close>

definition refreshInSync :: "DBs \<Rightarrow> DBs \<Rightarrow> DB \<Rightarrow> DB" where
  "refreshInSync dbs goodStandbys masterDB =
     (let known = elems (st_SynchronousStandbys (db_Status masterDB));
          required = elems (dbs_SynchronousStandbys (db_Spec masterDB))
      in if CompareStringSliceNoOrder known required then masterDB
         else
           let known = CommonElements known required;
               curSyncStandbys =
                 CommonElements (elems (st_CurSynchronousStandbys (db_Status masterDB))) required;
               toAddSyncStandbys = Difference curSyncStandbys known;
               known = known @ toAddSyncStandbys;
               notInSyncSyncStandbys = Difference required known;
               update = list_ex (\<lambda>dbUID. fmlookup dbs dbUID = None \<or> fmlookup goodStandbys dbUID = None)
                          notInSyncSyncStandbys
           in if update
              then masterDB\<lparr>
                     db_Status := (db_Status masterDB)\<lparr>st_SynchronousStandbys := Some (sort known)\<rparr>,
                     db_Spec := (db_Spec masterDB)\<lparr>dbs_SynchronousStandbys := Some (sort known)\<rparr>\<rparr>
              else masterDB\<lparr>
                     db_Status := (db_Status masterDB)\<lparr>st_SynchronousStandbys := Some known\<rparr>\<rparr>)"

text \<open>A \<^verbatim>\<open>map[string]struct{}\<close>.\<close>

type_synonym uidset = "(string, unit) fmap"

definition uidset_of :: "string list \<Rightarrow> uidset" where
  "uidset_of us = fold (\<lambda>u m. fmupd u () m) us fmempty"

text \<open>Remove the synchronous standbys that are gone, then those that are not good.\<close>

definition keepGoodSync :: "DBs \<Rightarrow> DBs \<Rightarrow> uidset \<Rightarrow> uidset" where
  "keepGoodSync dbs goodStandbys sync =
     (let sync = delete_keys (filter (\<lambda>u. fmlookup dbs u = None) (keys_of sync)) sync
      in delete_keys (filter (\<lambda>u. fmlookup goodStandbys u = None) (keys_of sync)) sync)"

definition removeExcessSync :: "iter_order \<Rightarrow> int \<Rightarrow> uidset \<Rightarrow> uidset" where
  "removeExcessSync ord maxSync sync =
     (if int (map_len sync) > maxSync
      then delete_keys (take (nat (int (map_len sync) - maxSync)) (map fst (range_by ord sync))) sync
      else sync)"

text \<open>The two loops that add up to \<open>ac\<close> standbys: candidates not yet in the set that satisfy \<open>P\<close>.\<close>

fun addUpTo :: "(string \<Rightarrow> bool) \<Rightarrow> int \<Rightarrow> string list \<Rightarrow> uidset \<Rightarrow> uidset" where
  "addUpTo P ac [] sync = sync"
| "addUpTo P ac (u # us) sync =
     (if ac \<le> 0 then sync
      else if fmlookup sync u \<noteq> None then addUpTo P ac us sync
      else if P u then addUpTo P (ac - 1) us (fmupd u () sync)
      else addUpTo P ac us sync)"

text \<open>Merge: if a new synchronous standby was not one before, keep also the previous ones that exist.\<close>

definition mergePrevSync :: "bool \<Rightarrow> DBs \<Rightarrow> uidset \<Rightarrow> uidset \<Rightarrow> uidset" where
  "mergePrevSync merge dbs prev sync =
     (if merge \<and> \<not> list_all (\<lambda>k. fmlookup prev k \<noteq> None) (keys_of sync)
      then fold (\<lambda>(_, db) m. if fmlookup prev (db_UID db) \<noteq> None then fmupd (db_UID db) () m else m)
             (entries dbs) sync
      else sync)"

definition chooseSyncStandbys ::
  "Env \<Rightarrow> int \<times> int \<times> bool \<Rightarrow> DBs \<Rightarrow> DBs \<Rightarrow> DB list \<Rightarrow> string list \<Rightarrow> uidset" where
  "chooseSyncStandbys env limits dbs goodStandbys bestStandbys required =
     (case limits of (minSync, maxSync, merge) \<Rightarrow>
       let prev = uidset_of required;
           sync = keepGoodSync dbs goodStandbys prev;
           sync = removeExcessSync (e_ord env 3) maxSync sync;
           sync = addUpTo (\<lambda>_. True) (maxSync - int (map_len sync)) (map db_UID bestStandbys) sync;
           sync = addUpTo (\<lambda>u. fmlookup prev u \<noteq> None) (minSync - int (map_len sync))
                    (map (\<lambda>(_, db). db_UID db) (range_by (e_ord env 5) dbs)) sync
       in mergePrevSync merge dbs prev sync)"

text \<open>Write the chosen synchronous standbys into the master, with a fake one if they are too few.\<close>

definition setSyncStandbys :: "int \<Rightarrow> uidset \<Rightarrow> DB \<Rightarrow> DB" where
  "setSyncStandbys minSync sync masterDB =
     (let standbys = keys_of sync
      in masterDB\<lparr>
           db_Spec := (db_Spec masterDB)\<lparr>
             dbs_SynchronousReplication := True,
             dbs_SynchronousStandbys := Some (sort standbys),
             dbs_ExternalSynchronousStandbys :=
               Some (if int (map_len sync) < minSync then [fakeStandbyName] else [])\<rparr>,
           db_Status := (db_Status masterDB)\<lparr>
             st_SynchronousStandbys :=
               Some (CommonElements (elems (st_SynchronousStandbys (db_Status masterDB))) standbys)\<rparr>\<rparr>)"

definition disableSync :: "DB \<Rightarrow> DB" where
  "disableSync masterDB =
     masterDB\<lparr>
       db_Spec := (db_Spec masterDB)\<lparr>dbs_SynchronousReplication := False,
         dbs_SynchronousStandbys := None, dbs_ExternalSynchronousStandbys := None\<rparr>,
       db_Status := (db_Status masterDB)\<lparr>st_SynchronousStandbys := None\<rparr>\<rparr>"

definition updateSyncStandbys ::
  "Env \<Rightarrow> Sentinel \<Rightarrow> ClusterSpec \<Rightarrow> DB \<Rightarrow> string \<Rightarrow> DBs \<Rightarrow> ClusterData \<Rightarrow> ClusterData res" where
  "updateSyncStandbys env s spec curMasterDB master goodStandbys newcd =
     (if syncRepl spec then
        bindE (getDB newcd master) (\<lambda>masterDB.
        bindE (deref ''nil Keeper'' (fmlookup (cd_Keepers newcd) (dbs_KeeperUID (db_Spec masterDB))))
          (\<lambda>masterDBKeeper.
          let limits = syncLimits spec (ks_PostgresBinaryVersion (k_Status masterDBKeeper));
              masterDB = refreshInSync (cd_DBs newcd) goodStandbys masterDB;
              newcd = newcd\<lparr>cd_DBs := fmupd master masterDB (cd_DBs newcd)\<rparr>;
              required = elems (dbs_SynchronousStandbys (db_Spec masterDB))
          in if \<not> CompareStringSliceNoOrder (elems (st_SynchronousStandbys (db_Status masterDB))) required
             then Inr newcd
             else
               bindE (findBestStandbys (e_ord env 4) env s newcd curMasterDB) (\<lambda>bestStandbys.
                 let sync = chooseSyncStandbys env limits (cd_DBs newcd) goodStandbys bestStandbys required
                 in Inr (newcd\<lparr>cd_DBs :=
                      fmupd master (setSyncStandbys (fst limits) sync masterDB) (cd_DBs newcd)\<rparr>))))
      else Inr (modDB master disableSync newcd))"

section \<open>Normal phase: number of standbys\<close>

text \<open>Remove all non good standbys and the good ones in excess, except the synchronous ones.\<close>

definition excessGood :: "iter_order \<Rightarrow> nat \<Rightarrow> string list \<Rightarrow> DBs \<Rightarrow> (string \<times> DB) list" where
  "excessGood ord nr sync goodStandbys =
     take nr (filter (\<lambda>(_, db). \<not> StringInSlice sync (db_UID db)) (range_by ord goodStandbys))"

definition removeStandbysInExcess ::
  "Env \<Rightarrow> uint16 \<Rightarrow> uint16 \<Rightarrow> string list \<Rightarrow> DBs \<Rightarrow> ClusterData \<Rightarrow> ClusterData res" where
  "removeStandbysInExcess env goodCount maxStandbys sync goodStandbys newcd =
     bindE (filterE (\<lambda>(_, db). bindE (dbType newcd (db_UID db)) (\<lambda>t.
                Inr (t = dbTypeStandby \<and> \<not> StringInSlice sync (db_UID db) \<and>
                     fmlookup goodStandbys (db_UID db) = None)))
              (entries (cd_DBs newcd)))
       (\<lambda>toRemove. Inr (deleteDBs
          (toRemove @ excessGood (e_ord env 6) (unat (goodCount - maxStandbys)) sync goodStandbys) newcd))"

definition standbySpec :: "string \<Rightarrow> string \<Rightarrow> DBSpec" where
  "standbySpec keeperUID master =
     zero_DBSpec\<lparr>dbs_KeeperUID := keeperUID, dbs_InitMode := DBInitModeResync,
       dbs_Role := RoleStandby, dbs_Followers := Some [],
       dbs_FollowConfig := Some \<lparr>fc_Type = FollowTypeInternal, fc_DBUID = master,
         fc_StandbySettings = None, fc_ArchiveRecoverySettings = None\<rparr>\<rparr>"

fun addStandbys :: "(nat \<Rightarrow> string) \<Rightarrow> string \<Rightarrow> nat \<Rightarrow> Keeper list \<Rightarrow> DBs \<Rightarrow> DBs" where
  "addStandbys uidFn master i [] dbs = dbs"
| "addStandbys uidFn master i (k # ks) dbs =
     addStandbys uidFn master (Suc i) ks
       (fmupd (uidFn i) (newDB (uidFn i) (standbySpec (k_UID k) master)) dbs)"

text \<open>\<open>maxStandbys - notFailed\<close> is a subtraction of \<^verbatim>\<open>uint16\<close> values: it wraps.\<close>

definition addMissingStandbys :: "Env \<Rightarrow> uint16 \<Rightarrow> uint16 \<Rightarrow> string \<Rightarrow> ClusterData \<Rightarrow> ClusterData" where
  "addMissingStandbys env notFailed maxStandbys master newcd =
     (let nc = unat (maxStandbys - notFailed)
      in newcd\<lparr>cd_DBs :=
           addStandbys (e_uidFn env) master 0 (take nc (freeKeepers (e_ord env 7) newcd)) (cd_DBs newcd)\<rparr>)"

definition updateStandbyCount ::
  "Env \<Rightarrow> ClusterSpec \<Rightarrow> string \<Rightarrow> DBs \<Rightarrow> DBs \<Rightarrow> ClusterData \<Rightarrow> ClusterData res" where
  "updateStandbyCount env spec master goodStandbys convergingStandbys newcd =
     bindE (getDB newcd master) (\<lambda>masterDB.
       let goodStandbysCount = map_len goodStandbys;
           notFailedStandbysCount = goodStandbysCount + map_len convergingStandbys;
           sync = elems (dbs_SynchronousStandbys (db_Spec masterDB))
       in if of_nat goodStandbysCount \<ge> def_MaxStandbysPerSender spec
          then removeStandbysInExcess env (of_nat goodStandbysCount) (def_MaxStandbysPerSender spec)
                 sync goodStandbys newcd
          else Inr (addMissingStandbys env (of_nat notFailedStandbysCount)
                      (def_MaxStandbysPerSender spec) master newcd))"

text \<open>Reconfigure all standbys as followers of the current master (the body of the loop).\<close>

definition followMaster :: "string \<Rightarrow> ClusterData \<Rightarrow> DB \<Rightarrow> DB res" where
  "followMaster master newcd db =
     bindE (dbType newcd (db_UID db)) (\<lambda>t.
       if t \<noteq> dbTypeStandby then Inr db
       else Inr (db\<lparr>db_Spec := (db_Spec db)\<lparr>
              dbs_Role := RoleStandby, dbs_Followers := Some [],
              dbs_FollowConfig := Some \<lparr>fc_Type = FollowTypeInternal, fc_DBUID = master,
                fc_StandbySettings = None, fc_ArchiveRecoverySettings = None\<rparr>,
              dbs_SynchronousReplication := False, dbs_SynchronousStandbys := None,
              dbs_ExternalSynchronousStandbys := None\<rparr>\<rparr>))"

text \<open>What is done only when the master is healthy and converged.\<close>

definition manageStandbys ::
  "Env \<Rightarrow> Sentinel \<Rightarrow> ClusterSpec \<Rightarrow> ClusterData \<Rightarrow> DB \<Rightarrow> string \<Rightarrow> ClusterData \<Rightarrow> ClusterData res" where
  "manageStandbys env s spec cd curMasterDB master newcd =
     bindE (removeOldMasters master newcd) (\<lambda>newcd.
     bindE (removeInvalidDBs master newcd) (\<lambda>newcd.
     bindE (removeUnsyncableDBs s cd newcd) (\<lambda>newcd.
     bindE (validStandbysByStatus env s newcd) (\<lambda>(goodStandbys, failedStandbys, convergingStandbys).
     let newcd = cleanInitMode goodStandbys newcd in
     bindE (updateSyncStandbys env s spec curMasterDB master goodStandbys newcd) (\<lambda>newcd.
     bindE (updateStandbyCount env spec master goodStandbys convergingStandbys newcd) (\<lambda>newcd.
     bindE (fmmapE (\<lambda>_. followMaster master newcd) (cd_DBs newcd)) (\<lambda>dbs.
       Inr (newcd\<lparr>cd_DBs := dbs\<rparr>))))))))"

section \<open>Normal phase\<close>

definition followersOf :: "string \<Rightarrow> DB \<Rightarrow> DBs \<Rightarrow> string list" where
  "followersOf wanted masterDB dbs =
     sort (map (\<lambda>(_, db). db_UID db)
       (filter (\<lambda>(_, db). db_UID masterDB \<noteq> db_UID db \<and>
            (case dbs_FollowConfig (db_Spec db) of
               None \<Rightarrow> False
             | Some fc \<Rightarrow> fc_Type fc = FollowTypeInternal \<and> fc_DBUID fc = wanted))
          (entries dbs)))"

definition updateFollowers :: "string \<Rightarrow> string \<Rightarrow> ClusterData \<Rightarrow> ClusterData res" where
  "updateFollowers curMasterDBUID wantedMasterDBUID newcd =
     bindE (deref ''nil masterDB'' (fmlookup (cd_DBs newcd) curMasterDBUID)) (\<lambda>masterDB.
       Inr (modSpec curMasterDBUID
              (\<lambda>sp. sp\<lparr>dbs_Followers := Some (followersOf wantedMasterDBUID masterDB (cd_DBs newcd))\<rparr>) newcd))"

definition sameMaster ::
  "Env \<Rightarrow> Sentinel \<Rightarrow> ClusterSpec \<Rightarrow> ProxiesInfo \<Rightarrow> ClusterData \<Rightarrow> DB \<Rightarrow> string \<Rightarrow> ClusterData \<Rightarrow> ClusterData res" where
  "sameMaster env s spec pis cd curMasterDB master newcd =
     bindE (deref ''nil masterDB'' (fmlookup (cd_DBs newcd) master)) (\<lambda>masterDB.
     bindE (deref ''nil Proxy'' (cd_Proxy newcd)) (\<lambda>proxy.
       let newcd = newcd\<lparr>cd_Proxy := Some (updateProxy pis master proxy)\<rparr>;
           newcd = setMasterRole spec master newcd
       in if st_Healthy (db_Status masterDB)
          then bindE (dbConvergenceState env s masterDB (def_ConvergenceTimeout spec)) (\<lambda>cstate.
                 if cstate = Converged then manageStandbys env s spec cd curMasterDB master newcd
                 else Inr newcd)
          else Inr newcd))"

definition updateClusterNormal ::
  "Env \<Rightarrow> Sentinel \<Rightarrow> ClusterSpec \<Rightarrow> ProxiesInfo \<Rightarrow> string \<Rightarrow> ClusterData \<Rightarrow> ClusterData res" where
  "updateClusterNormal env s spec pis curMasterDBUID cd =
     (let newcd = removeDeadKeepers env spec cd cd
      in case fmlookup (cd_DBs cd) curMasterDBUID of
           None \<Rightarrow> Inl (Error ''db for keeper not available. This should not happen!'')
         | Some curMasterDB \<Rightarrow>
             bindE (electMaster env s spec newcd curMasterDBUID curMasterDB) (\<lambda>wanted.
             bindE (if curMasterDBUID \<noteq> wanted then newMasterElected spec curMasterDBUID wanted newcd
                    else sameMaster env s spec pis cd curMasterDB curMasterDBUID newcd) (\<lambda>newcd.
               updateFollowers curMasterDBUID wanted newcd)))"

section \<open>The end of updateCluster\<close>

text \<open>Copy the clusterSpec parameters to the dbSpec (the body of the loop).\<close>

definition dbSpecFromClusterSpec :: "ClusterSpec \<Rightarrow> ClusterData \<Rightarrow> DB \<Rightarrow> DB res" where
  "dbSpecFromClusterSpec spec cd db =
     (let sp = (db_Spec db)\<lparr>dbs_RequestTimeout := def_RequestTimeout spec,
                 dbs_MaxStandbys := def_MaxStandbys spec, dbs_UsePgrewind := def_UsePgrewind spec,
                 dbs_PGParameters := cs_PGParameters spec, dbs_PGHBA := cs_PGHBA spec\<rparr>
      in bindE (case dbs_FollowConfig sp of
                  Some fc \<Rightarrow>
                    if fc_Type fc = FollowTypeExternal
                    then bindE (deref ''nil StandbyConfig'' (cs_StandbyConfig spec)) (\<lambda>sc.
                           Inr (sp\<lparr>dbs_FollowConfig := Some (fc\<lparr>
                                  fc_StandbySettings := sc_StandbySettings sc,
                                  fc_ArchiveRecoverySettings := sc_ArchiveRecoverySettings sc\<rparr>)\<rparr>))
                    else Inr sp
                | None \<Rightarrow> Inr sp) (\<lambda>sp.
         let sp = sp\<lparr>dbs_AdditionalWalSenders := def_AdditionalWalSenders spec\<rparr>
         in bindE (dbType cd (db_UID db)) (\<lambda>t.
              Inr (db\<lparr>db_Spec :=
                (case t of
                   dbTypeMaster \<Rightarrow>
                     sp\<lparr>dbs_AdditionalReplicationSlots := cs_AdditionalMasterReplicationSlots spec\<rparr>
                 | dbTypeStandby \<Rightarrow> sp\<lparr>dbs_AdditionalReplicationSlots := None\<rparr>)\<rparr>))))"

definition setDBSpecFromClusterSpec :: "ClusterData \<Rightarrow> ClusterData res" where
  "setDBSpecFromClusterSpec cd =
     bindE (defspec_of cd) (\<lambda>spec.
     bindE (fmmapE (\<lambda>_. dbSpecFromClusterSpec spec cd) (cd_DBs cd)) (\<lambda>dbs.
       Inr (cd\<lparr>cd_DBs := dbs\<rparr>)))"

text \<open>Update generation on DBs if they have changed.\<close>

definition bumpGeneration :: "ClusterData \<Rightarrow> string \<Rightarrow> DB \<Rightarrow> DB" where
  "bumpGeneration cd dbUID db =
     (case fmlookup (cd_DBs cd) dbUID of
        None \<Rightarrow> db
      | Some prevDB \<Rightarrow>
          if db_Spec db \<noteq> db_Spec prevDB then db\<lparr>db_Generation := db_Generation db + 1\<rparr> else db)"

definition updateGenerations :: "ClusterData \<Rightarrow> ClusterData \<Rightarrow> ClusterData" where
  "updateGenerations cd newcd = newcd\<lparr>cd_DBs := fmmap_keys (bumpGeneration cd) (cd_DBs newcd)\<rparr>"

text \<open>
  The final check of the code, that the given cluster data was not changed, holds here by
  construction: \<open>cd\<close> is a value.
\<close>

definition updateCluster :: "Env \<Rightarrow> Sentinel \<Rightarrow> ClusterData \<Rightarrow> ProxiesInfo \<Rightarrow> ClusterData res" where
  "updateCluster env s cd pis =
     bindE (cluster_of cd) (\<lambda>c.
     bindE (DefSpec c) (\<lambda>clusterSpec.
     bindE (case cst_Phase (c_Status c) of
              ClusterPhaseInitializing \<Rightarrow>
                updateClusterInit env s clusterSpec (cst_Master (c_Status c)) cd
            | ClusterPhaseNormal \<Rightarrow>
                updateClusterNormal env s clusterSpec pis (cst_Master (c_Status c)) cd
            | ClusterPhaseOther p \<Rightarrow> Inl (Error (''unknown cluster phase '' @ p))) (\<lambda>newcd.
     bindE (setDBSpecFromClusterSpec newcd) (\<lambda>newcd.
       Inr (updateGenerations cd newcd)))))"

end
