(* ===== verification/Sentinel_Steps.thy ===== *)
theory Sentinel_Steps
  imports Sentinel_Update
begin

text \<open>
  What the steps of \<^verbatim>\<open>updateCluster\<close> leave alone. The locale \<open>db_step\<close> is the contract of a step
  that changes only the databases; \<open>db_evolution\<close> extends it to the steps that only remove databases
  or change what is asked of them, and shows that such a step keeps what later steps rely on. Both are
  interpreted on the steps of the normal phase. \<open>grows\<close> is the weaker contract of the steps that add
  databases.
\<close>

section \<open>Frames\<close>

definition masterUID :: "ClusterData \<Rightarrow> string" where
  "masterUID cd = (case cd_Cluster cd of None \<Rightarrow> '''' | Some c \<Rightarrow> cst_Master (c_Status c))"

definition phaseOf :: "ClusterData \<Rightarrow> ClusterPhase option" where
  "phaseOf cd = map_option (\<lambda>c. cst_Phase (c_Status c)) (cd_Cluster cd)"

lemma modDB_frame [simp]:
  "cd_Cluster (modDB u f cd) = cd_Cluster cd" "cd_Keepers (modDB u f cd) = cd_Keepers cd"
  "cd_Proxy (modDB u f cd) = cd_Proxy cd"
  by (simp_all add: modDB_def split: option.splits)

lemma modSpec_frame [simp]:
  "cd_Cluster (modSpec u f cd) = cd_Cluster cd" "cd_Keepers (modSpec u f cd) = cd_Keepers cd"
  "cd_Proxy (modSpec u f cd) = cd_Proxy cd"
  by (simp_all add: modSpec_def)

lemma deleteDBs_frame [simp]:
  "cd_Cluster (deleteDBs ds cd) = cd_Cluster cd" "cd_Keepers (deleteDBs ds cd) = cd_Keepers cd"
  "cd_Proxy (deleteDBs ds cd) = cd_Proxy cd"
  by (simp_all add: deleteDBs_def)

lemma setMaster_frame [simp]:
  "cd_DBs (setMaster u cd) = cd_DBs cd" "cd_Keepers (setMaster u cd) = cd_Keepers cd"
  "cd_Proxy (setMaster u cd) = cd_Proxy cd"
  by (simp_all add: setMaster_def modCluster_def)

lemma setMasterRole_frame [simp]:
  "cd_Cluster (setMasterRole spec m cd) = cd_Cluster cd"
  "cd_Keepers (setMasterRole spec m cd) = cd_Keepers cd"
  "cd_Proxy (setMasterRole spec m cd) = cd_Proxy cd"
  by (simp_all add: setMasterRole_def)

lemma removeDeadKeepers_frame [simp]:
  "cd_Cluster (removeDeadKeepers env spec cd newcd) = cd_Cluster newcd"
  "cd_DBs (removeDeadKeepers env spec cd newcd) = cd_DBs newcd"
  "cd_Proxy (removeDeadKeepers env spec cd newcd) = cd_Proxy newcd"
  by (simp_all add: removeDeadKeepers_def)

lemma cleanInitMode_frame [simp]:
  "cd_Cluster (cleanInitMode g cd) = cd_Cluster cd" "cd_Keepers (cleanInitMode g cd) = cd_Keepers cd"
  "cd_Proxy (cleanInitMode g cd) = cd_Proxy cd"
  by (simp_all add: cleanInitMode_def)

lemma updateGenerations_frame [simp]:
  "cd_Cluster (updateGenerations cd newcd) = cd_Cluster newcd"
  "cd_Keepers (updateGenerations cd newcd) = cd_Keepers newcd"
  "cd_Proxy (updateGenerations cd newcd) = cd_Proxy newcd"
  by (simp_all add: updateGenerations_def)

text \<open>Steps of the normal phase that change only the databases.\<close>

definition same_frame :: "ClusterData \<Rightarrow> ClusterData \<Rightarrow> bool" where
  "same_frame cd cd' \<longleftrightarrow>
     cd_Cluster cd' = cd_Cluster cd \<and> cd_Keepers cd' = cd_Keepers cd \<and> cd_Proxy cd' = cd_Proxy cd"

lemma same_frame_simps:
  "same_frame cd cd' \<Longrightarrow> cd_Cluster cd' = cd_Cluster cd"
  "same_frame cd cd' \<Longrightarrow> cd_Keepers cd' = cd_Keepers cd"
  "same_frame cd cd' \<Longrightarrow> cd_Proxy cd' = cd_Proxy cd"
  by (simp_all add: same_frame_def)

locale db_step =
  fixes step :: "ClusterData \<Rightarrow> ClusterData res"
  assumes frame: "step cd = Inr cd' \<Longrightarrow> same_frame cd cd'"
begin

lemma step_masterUID: "step cd = Inr cd' \<Longrightarrow> masterUID cd' = masterUID cd"
  using frame by (simp add: masterUID_def same_frame_def)

lemma step_proxy: "step cd = Inr cd' \<Longrightarrow> cd_Proxy cd' = cd_Proxy cd"
  using frame by (simp add: same_frame_def)

lemma step_phase: "step cd = Inr cd' \<Longrightarrow> phaseOf cd' = phaseOf cd"
  using frame by (simp add: phaseOf_def same_frame_def)

end

text \<open>
  Most of these steps only remove databases and change what is asked of the others: a database keeps
  its UID, its generation, its keeper and the generation it reports.
\<close>

definition same_db :: "DB \<Rightarrow> DB \<Rightarrow> bool" where
  "same_db db db' \<longleftrightarrow>
     db_UID db' = db_UID db \<and> db_Generation db' = db_Generation db \<and>
     dbs_KeeperUID (db_Spec db') = dbs_KeeperUID (db_Spec db) \<and>
     st_CurrentGeneration (db_Status db') = st_CurrentGeneration (db_Status db)"

definition evolves :: "ClusterData \<Rightarrow> ClusterData \<Rightarrow> bool" where
  "evolves cd cd' \<longleftrightarrow>
     (\<forall>u db'. fmlookup (cd_DBs cd') u = Some db' \<longrightarrow>
        (\<exists>db. fmlookup (cd_DBs cd) u = Some db \<and> same_db db db'))"

lemma same_db_refl [simp]: "same_db db db"
  by (simp add: same_db_def)

lemma evolvesI:
  "(\<And>u db'. fmlookup (cd_DBs cd') u = Some db' \<Longrightarrow> \<exists>db. fmlookup (cd_DBs cd) u = Some db \<and> same_db db db')
     \<Longrightarrow> evolves cd cd'"
  by (simp add: evolves_def)

lemma evolves_refl [simp]: "evolves cd cd"
  by (simp add: evolves_def)

lemma evolves_trans [trans]: "evolves cd cd' \<Longrightarrow> evolves cd' cd'' \<Longrightarrow> evolves cd cd''"
  by (fastforce simp: evolves_def same_db_def)

lemma evolves_modDB: "(\<And>db. same_db db (f db)) \<Longrightarrow> evolves cd (modDB u f cd)"
  by (auto simp: evolves_def modDB_def split: option.splits)

lemma evolves_modSpec: "(\<And>sp. dbs_KeeperUID (f sp) = dbs_KeeperUID sp) \<Longrightarrow> evolves cd (modSpec u f cd)"
  unfolding modSpec_def by (rule evolves_modDB) (simp add: same_db_def)

lemma evolves_deleteDBs [simp]: "evolves cd (deleteDBs ds cd)"
  by (auto simp: evolves_def deleteDBs_def split: if_splits)

lemma evolves_fmupd:
  "fmlookup (cd_DBs cd) u = Some db \<Longrightarrow> same_db db db' \<Longrightarrow> evolves cd (cd\<lparr>cd_DBs := fmupd u db' (cd_DBs cd)\<rparr>)"
  by (auto simp: evolves_def)

lemma evolves_fmmapE:
  assumes "fmmapE f (cd_DBs cd) = Inr dbs" and "\<And>u db db'. f u db = Inr db' \<Longrightarrow> same_db db db'"
  shows "evolves cd (cd\<lparr>cd_DBs := dbs\<rparr>)"
  by (rule evolvesI) (use fmmapE_backwards [OF assms(1)] assms(2) in fastforce)

lemma evolves_cleanInitMode [simp]: "evolves cd (cleanInitMode g cd)"
  by (auto simp: evolves_def cleanInitMode_def same_db_def)

lemma evolves_setMasterRole [simp]: "evolves cd (setMasterRole spec m cd)"
  by (auto simp: setMasterRole_def intro: evolves_modSpec)

lemma same_db_refreshInSync [simp]: "same_db db (refreshInSync dbs g db)"
  by (simp add: refreshInSync_def Let_def same_db_def)

lemma same_db_setSyncStandbys [simp]: "same_db db (setSyncStandbys n sync db)"
  by (simp add: setSyncStandbys_def Let_def same_db_def)

lemma same_db_disableSync [simp]: "same_db db (disableSync db)"
  by (simp add: disableSync_def same_db_def)

lemma same_db_followMaster: "followMaster m cd db = Inr db' \<Longrightarrow> same_db db db'"
  by (auto simp: followMaster_def res_simps same_db_def split: if_splits)

lemma same_db_dbSpecFromClusterSpec: "dbSpecFromClusterSpec spec cd db = Inr db' \<Longrightarrow> same_db db db'"
  by (auto simp: dbSpecFromClusterSpec_def res_simps same_db_def Let_def
      split: if_splits option.splits DbType.splits) (metis DbType.exhaust)+

text \<open>No two databases are on one keeper.\<close>

definition one_db_per_keeper :: "ClusterData \<Rightarrow> bool" where
  "one_db_per_keeper cd = distinct (map (\<lambda>(_, db). dbs_KeeperUID (db_Spec db)) (entries (cd_DBs cd)))"

lemma one_db_per_keeper_iff:
  "one_db_per_keeper cd \<longleftrightarrow>
     (\<forall>u v db db'. fmlookup (cd_DBs cd) u = Some db \<longrightarrow> fmlookup (cd_DBs cd) v = Some db' \<longrightarrow>
        dbs_KeeperUID (db_Spec db) = dbs_KeeperUID (db_Spec db') \<longrightarrow> u = v)"
proof -
  have "distinct (entries (cd_DBs cd))" using distinct_entries [of "cd_DBs cd"] by (simp add: distinct_map)
  then have "one_db_per_keeper cd \<longleftrightarrow> inj_on (\<lambda>(_, db). dbs_KeeperUID (db_Spec db)) (set (entries (cd_DBs cd)))"
    by (simp add: one_db_per_keeper_def distinct_map)
  also have "\<dots> \<longleftrightarrow> (\<forall>u v db db'. fmlookup (cd_DBs cd) u = Some db \<longrightarrow> fmlookup (cd_DBs cd) v = Some db' \<longrightarrow>
        dbs_KeeperUID (db_Spec db) = dbs_KeeperUID (db_Spec db') \<longrightarrow> u = v \<and> db = db')"
    by (simp add: inj_on_def Ball_def split_paired_All) blast
  finally show ?thesis by (metis option.inject)
qed

lemma evolves_uids_ok: "evolves cd cd' \<Longrightarrow> uids_ok cd \<Longrightarrow> uids_ok cd'"
  unfolding uids_ok_def by (intro fmpredI) (fastforce simp: evolves_def same_db_def)

lemma evolves_one_db: "evolves cd cd' \<Longrightarrow> one_db_per_keeper cd \<Longrightarrow> one_db_per_keeper cd'"
  unfolding one_db_per_keeper_iff evolves_def same_db_def by metis

lemma evolves_have_keepers:
  "evolves cd cd' \<Longrightarrow> cd_Keepers cd' = cd_Keepers cd \<Longrightarrow> dbs_have_keepers cd \<Longrightarrow> dbs_have_keepers cd'"
  unfolding dbs_have_keepers_def by (intro fmpredI) (fastforce simp: evolves_def same_db_def)

lemma evolves_convergence_ok: "evolves cd cd' \<Longrightarrow> convergence_ok s cd \<Longrightarrow> convergence_ok s cd'"
  unfolding convergence_ok_def by (intro fmpredI) (fastforce simp: evolves_def same_db_def)

locale db_evolution = db_step +
  assumes evolution: "step cd = Inr cd' \<Longrightarrow> evolves cd cd'"
begin

text \<open>What the databases need for the next steps, and what such a step keeps.\<close>

lemma step_keeps:
  assumes "step cd = Inr cd'"
    and "uids_ok cd" "one_db_per_keeper cd" "dbs_have_keepers cd" "convergence_ok s cd"
  shows "uids_ok cd' \<and> one_db_per_keeper cd' \<and> dbs_have_keepers cd' \<and> convergence_ok s cd'"
  using assms evolution [OF assms(1)] frame [OF assms(1)]
  by (auto simp: same_frame_def intro: evolves_uids_ok evolves_one_db evolves_have_keepers evolves_convergence_ok)

lemma step_no_new: "step cd = Inr cd' \<Longrightarrow> fmdom' (cd_DBs cd') \<subseteq> fmdom' (cd_DBs cd)"
  using evolution by (fastforce simp: evolves_def fmlookup_dom'_iff)

end

interpretation old_masters: db_evolution "removeOldMasters m"
  by unfold_locales (auto simp: removeOldMasters_def res_simps same_frame_def)

interpretation invalid_dbs: db_evolution "removeInvalidDBs m"
  by unfold_locales (auto simp: removeInvalidDBs_def res_simps same_frame_def)

interpretation unsyncable_dbs: db_evolution "removeUnsyncableDBs s cd0"
  by unfold_locales (auto simp: removeUnsyncableDBs_def res_simps same_frame_def)

interpretation excess_standbys: db_evolution "removeStandbysInExcess env n mx sync good"
  by unfold_locales (auto simp: removeStandbysInExcess_def res_simps same_frame_def)

lemma updateSyncStandbys_evolves:
  assumes "updateSyncStandbys env s spec cur m good cd = Inr cd'"
  shows "evolves cd cd'"
proof (cases "syncRepl spec")
  case True
  with assms obtain mdb where mdb: "fmlookup (cd_DBs cd) m = Some mdb"
    and r: "cd' = cd\<lparr>cd_DBs := fmupd m (refreshInSync (cd_DBs cd) good mdb) (cd_DBs cd)\<rparr> \<or>
      (\<exists>n sync. cd' = cd\<lparr>cd_DBs := fmupd m (setSyncStandbys n sync (refreshInSync (cd_DBs cd) good mdb)) (cd_DBs cd)\<rparr>)"
    by (fastforce simp: updateSyncStandbys_def res_simps Let_def split: if_splits)
  have "same_db mdb (setSyncStandbys n sync (refreshInSync (cd_DBs cd) good mdb))" for n sync
    using same_db_refreshInSync [of mdb "cd_DBs cd" good] same_db_setSyncStandbys
    by (auto simp: same_db_def)
  with r mdb show ?thesis by (auto intro: evolves_fmupd)
next
  case False
  with assms show ?thesis by (auto simp: updateSyncStandbys_def intro: evolves_modDB)
qed

interpretation sync_standbys: db_evolution "updateSyncStandbys env s spec cur m good"
  by unfold_locales (auto simp: updateSyncStandbys_def res_simps same_frame_def Let_def
      updateSyncStandbys_evolves split: if_splits)

interpretation followers: db_evolution "updateFollowers cur wanted"
  by unfold_locales (auto simp: updateFollowers_def res_simps same_frame_def intro: evolves_modSpec)

interpretation db_specs: db_evolution setDBSpecFromClusterSpec
  by unfold_locales (auto simp: setDBSpecFromClusterSpec_def res_simps same_frame_def
      intro: evolves_fmmapE same_db_dbSpecFromClusterSpec)

interpretation standby_count: db_step "updateStandbyCount env spec m good conv"
  by unfold_locales (auto simp: updateStandbyCount_def addMissingStandbys_def
      res_simps same_frame_def Let_def dest!: excess_standbys.frame split: if_splits)

lemma manageStandbys_frame:
  assumes "manageStandbys env s spec cd0 cur m cd = Inr cd'"
  shows "same_frame cd cd'"
proof -
  from assms obtain cd1 cd2 cd3 g f c cd4 cd5 dbs where
    "removeOldMasters m cd = Inr cd1" "removeInvalidDBs m cd1 = Inr cd2"
    "removeUnsyncableDBs s cd0 cd2 = Inr cd3"
    "updateSyncStandbys env s spec cur m g (cleanInitMode g cd3) = Inr cd4"
    "updateStandbyCount env spec m g c cd4 = Inr cd5"
    "cd' = cd5\<lparr>cd_DBs := dbs\<rparr>"
    by (auto simp: manageStandbys_def res_simps Let_def)
  then show ?thesis
    by (auto simp: same_frame_def dest!: old_masters.frame invalid_dbs.frame unsyncable_dbs.frame
        sync_standbys.frame standby_count.frame)
qed

interpretation standbys_step: db_step "manageStandbys env s spec cd0 cur m"
  by unfold_locales (rule manageStandbys_frame)


section \<open>New databases\<close>

text \<open>
  The steps that add databases give them the UIDs they get from \<^verbatim>\<open>UIDFn\<close>, the initial generation and an
  empty status.
\<close>

definition new_db :: "string \<Rightarrow> DB \<Rightarrow> bool" where
  "new_db u db \<longleftrightarrow> db_UID db = u \<and> db_Generation db = InitialGeneration \<and>
     st_CurrentGeneration (db_Status db) = NoGeneration"

definition grows :: "Env \<Rightarrow> ClusterData \<Rightarrow> ClusterData \<Rightarrow> bool" where
  "grows env cd cd' \<longleftrightarrow>
     (\<forall>u db'. fmlookup (cd_DBs cd') u = Some db' \<longrightarrow>
        (\<exists>db. fmlookup (cd_DBs cd) u = Some db \<and> same_db db db') \<or>
        u \<in> range (e_uidFn env) \<and> new_db u db')"

lemma evolves_grows: "evolves cd cd' \<Longrightarrow> grows env cd cd'"
  by (auto simp: evolves_def grows_def)

lemma new_db_same: "new_db u db \<Longrightarrow> same_db db db' \<Longrightarrow> new_db u db'"
  by (simp add: new_db_def same_db_def)

lemma same_db_trans: "same_db a b \<Longrightarrow> same_db b c \<Longrightarrow> same_db a c"
  by (simp add: same_db_def)

lemma grows_evolves:
  assumes "grows env cd cd'" and "evolves cd' cd''"
  shows "grows env cd cd''"
  unfolding grows_def
proof (intro allI impI)
  fix u db'' assume "fmlookup (cd_DBs cd'') u = Some db''"
  then obtain db' where db': "fmlookup (cd_DBs cd') u = Some db'" "same_db db' db''"
    using assms(2) unfolding evolves_def by blast
  from assms(1) db'(1)
  consider db where "fmlookup (cd_DBs cd) u = Some db" "same_db db db'"
    | "u \<in> range (e_uidFn env)" "new_db u db'" unfolding grows_def by blast
  then show "(\<exists>db. fmlookup (cd_DBs cd) u = Some db \<and> same_db db db'') \<or>
      u \<in> range (e_uidFn env) \<and> new_db u db''"
    by cases (use db'(2) in \<open>simp_all add: same_db_def new_db_def\<close>)
qed

lemma evolves_then_grows: "evolves cd cd' \<Longrightarrow> grows env cd' cd'' \<Longrightarrow> grows env cd cd''"
  unfolding grows_def evolves_def by (blast intro: same_db_trans)

lemma new_db_newDB [simp]: "new_db u (newDB u sp)"
  by (simp add: new_db_def newDB_def zero_DBStatus_def NoGeneration_def)

lemma addStandbys_lookup:
  "fmlookup (addStandbys uidFn m i ks dbs) u = Some db \<Longrightarrow>
     fmlookup dbs u = Some db \<or>
     (\<exists>j k. k \<in> set ks \<and> u = uidFn j \<and> db = newDB u (standbySpec (k_UID k) m))"
proof (induction ks arbitrary: i dbs)
  case (Cons k ks)
  from Cons.IH [of "Suc i" "fmupd (uidFn i) (newDB (uidFn i) (standbySpec (k_UID k) m)) dbs"] Cons.prems
  consider "fmlookup (fmupd (uidFn i) (newDB (uidFn i) (standbySpec (k_UID k) m)) dbs) u = Some db"
    | "\<exists>j k. k \<in> set ks \<and> u = uidFn j \<and> db = newDB u (standbySpec (k_UID k) m)"
    by auto
  then show ?case by cases (auto split: if_splits)
qed simp

lemma grows_addMissingStandbys: "grows env cd (addMissingStandbys env n mx m cd)"
proof -
  have "u \<in> range (e_uidFn env) \<and> new_db u db"
    if "fmlookup (cd_DBs (addMissingStandbys env n mx m cd)) u = Some db" "fmlookup (cd_DBs cd) u \<noteq> Some db" for u db
    using addStandbys_lookup [of "e_uidFn env" m 0 "take (unat (mx - n)) (freeKeepers (e_ord env 7) cd)"
        "cd_DBs cd" u db] that
    by (auto simp: addMissingStandbys_def Let_def)
  then show ?thesis unfolding grows_def by (metis same_db_refl)
qed

lemma grows_updateStandbyCount:
  "updateStandbyCount env spec m good conv cd = Inr cd' \<Longrightarrow> grows env cd cd'"
  by (auto simp: updateStandbyCount_def res_simps Let_def grows_addMissingStandbys
      intro: evolves_grows dest: excess_standbys.evolution split: if_splits)

lemma manageStandbys_runs:
  assumes "manageStandbys env s spec cd0 cur m cd = Inr cd'"
  obtains cd3 cd4 cd5 g f c dbs where "evolves cd cd3" and "same_frame cd cd3"
    and "validStandbysByStatus env s cd3 = Inr (g, f, c)"
    and "updateSyncStandbys env s spec cur m g (cleanInitMode g cd3) = Inr cd4"
    and "updateStandbyCount env spec m g c cd4 = Inr cd5"
    and "fmmapE (\<lambda>_. followMaster m cd5) (cd_DBs cd5) = Inr dbs" and "cd' = cd5\<lparr>cd_DBs := dbs\<rparr>"
proof -
  from assms obtain cd1 cd2 cd3 g f c cd4 cd5 dbs where
    1: "removeOldMasters m cd = Inr cd1" "removeInvalidDBs m cd1 = Inr cd2"
    "removeUnsyncableDBs s cd0 cd2 = Inr cd3"
    and 2: "validStandbysByStatus env s cd3 = Inr (g, f, c)"
    "updateSyncStandbys env s spec cur m g (cleanInitMode g cd3) = Inr cd4"
    "updateStandbyCount env spec m g c cd4 = Inr cd5"
    "fmmapE (\<lambda>_. followMaster m cd5) (cd_DBs cd5) = Inr dbs" "cd' = cd5\<lparr>cd_DBs := dbs\<rparr>"
    by (auto simp: manageStandbys_def res_simps Let_def)
  from 1 have "evolves cd cd3"
    using old_masters.evolution invalid_dbs.evolution unsyncable_dbs.evolution evolves_trans by metis
  moreover from 1 have "same_frame cd cd3"
    by (auto simp: same_frame_def dest!: old_masters.frame invalid_dbs.frame unsyncable_dbs.frame)
  ultimately show ?thesis using that 2 by blast
qed

lemma manageStandbys_grows:
  assumes "manageStandbys env s spec cd0 cur m cd = Inr cd'"
  shows "grows env cd cd'"
proof (rule manageStandbys_runs [OF assms])
  fix cd3 cd4 cd5 g f c dbs
  assume "evolves cd cd3" "updateSyncStandbys env s spec cur m g (cleanInitMode g cd3) = Inr cd4"
    and count: "updateStandbyCount env spec m g c cd4 = Inr cd5"
    and fol: "fmmapE (\<lambda>_. followMaster m cd5) (cd_DBs cd5) = Inr dbs" "cd' = cd5\<lparr>cd_DBs := dbs\<rparr>"
  then have "evolves cd cd4"
    using evolves_trans evolves_cleanInitMode sync_standbys.evolution by metis
  moreover have "evolves cd5 cd'" using fol same_db_followMaster by (auto intro: evolves_fmmapE)
  ultimately show ?thesis
    using grows_updateStandbyCount [OF count] evolves_then_grows grows_evolves by metis
qed

lemma grows_cong: "cd_DBs cd1 = cd_DBs cd \<Longrightarrow> grows env cd1 cd' \<longleftrightarrow> grows env cd cd'"
  by (simp add: grows_def)

lemma sameMaster_grows:
  assumes "sameMaster env s spec pis cd0 cur m cd = Inr cd'"
  shows "grows env cd cd'"
proof -
  from assms obtain p where
    r: "cd' = setMasterRole spec m (cd\<lparr>cd_Proxy := Some (updateProxy pis m p)\<rparr>) \<or>
      manageStandbys env s spec cd0 cur m (setMasterRole spec m (cd\<lparr>cd_Proxy := Some (updateProxy pis m p)\<rparr>)) = Inr cd'"
    by (auto simp: sameMaster_def res_simps Let_def split: if_splits)
  have ev: "evolves (cd\<lparr>cd_Proxy := Some (updateProxy pis m p)\<rparr>)
      (setMasterRole spec m (cd\<lparr>cd_Proxy := Some (updateProxy pis m p)\<rparr>))" by simp
  from r have "grows env (cd\<lparr>cd_Proxy := Some (updateProxy pis m p)\<rparr>) cd'"
    using evolves_grows [OF ev] evolves_then_grows [OF ev] manageStandbys_grows by blast
  then show ?thesis by (simp add: grows_def)
qed

lemma newMasterElected_evolves:
  assumes "newMasterElected spec cur wanted cd = Inr cd'"
  shows "evolves cd cd'"
proof -
  have k: "dbs_KeeperUID (inheritSync spec old u sp) = dbs_KeeperUID sp" for old u sp
    by (simp add: inheritSync_def Let_def)
  have pr: "evolves c1 (cd2\<lparr>cd_Proxy := p\<rparr>) = evolves c1 cd2" "evolves c1 (setMaster u cd2) = evolves c1 cd2"
    for c1 cd2 p u by (simp_all add: evolves_def)
  from assms obtain old role fc new p where
    "cd' = modSpec wanted (\<lambda>sp. inheritSync spec old new (sp\<lparr>dbs_Role := role, dbs_FollowConfig := fc\<rparr>))
       ((setMaster wanted (modSpec cur (\<lambda>sp. sp\<lparr>dbs_Followers := Some []\<rparr>) cd))\<lparr>cd_Proxy := p\<rparr>)"
    by (auto simp: newMasterElected_def res_simps Let_def)
  moreover have "evolves cd ((setMaster wanted (modSpec cur (\<lambda>sp. sp\<lparr>dbs_Followers := Some []\<rparr>) cd))\<lparr>cd_Proxy := p\<rparr>)"
    unfolding pr by (rule evolves_modSpec) simp
  ultimately show ?thesis
    using evolves_trans [OF _ evolves_modSpec
        [of "\<lambda>sp. inheritSync spec old new (sp\<lparr>dbs_Role := role, dbs_FollowConfig := fc\<rparr>)"]] k by simp
qed

end
