(* ===== verification/Sentinel_Failover.thy ===== *)
theory Sentinel_Failover
  imports Sentinel_Steps
begin

text \<open>
  What a check of a sentinel may do to a running cluster: when it elects a new master and which one,
  what it then tells the proxies, and how it numbers the changes it asks of the databases. The last
  section runs the example: keeper \<open>k1\<close> with the master is gone, and the standby on \<open>k2\<close> becomes
  the master.
\<close>

section \<open>The normal phase\<close>

lemma updateCluster_normal:
  assumes "updateCluster env s cd pis = Inr cd'" and "phaseOf cd = Some ClusterPhaseNormal"
  obtains c spec cur wanted cd1 cd2 cd3 where
    "cd_Cluster cd = Some c" and "DefSpec c = Inr spec" and "masterUID cd = cst_Master (c_Status c)"
    and "fmlookup (cd_DBs cd) (masterUID cd) = Some cur"
    and "electMaster env s spec (removeDeadKeepers env spec cd cd) (masterUID cd) cur = Inr wanted"
    and "(if masterUID cd \<noteq> wanted
          then newMasterElected spec (masterUID cd) wanted (removeDeadKeepers env spec cd cd)
          else sameMaster env s spec pis cd cur (masterUID cd) (removeDeadKeepers env spec cd cd)) = Inr cd1"
    and "updateFollowers (masterUID cd) wanted cd1 = Inr cd2"
    and "setDBSpecFromClusterSpec cd2 = Inr cd3"
    and "cd' = updateGenerations cd cd3"
proof -
  from assms obtain c spec where c: "cd_Cluster cd = Some c" "DefSpec c = Inr spec"
    by (auto simp: updateCluster_def cluster_of_def res_simps)
  from c assms(2) have ph: "cst_Phase (c_Status c) = ClusterPhaseNormal" by (simp add: phaseOf_def)
  have m: "cst_Master (c_Status c) = masterUID cd" using c by (simp add: masterUID_def)
  from assms(1) obtain cur wanted cd1 cd2 cd3 where
    "fmlookup (cd_DBs cd) (masterUID cd) = Some cur"
    "electMaster env s spec (removeDeadKeepers env spec cd cd) (masterUID cd) cur = Inr wanted"
    "(if masterUID cd \<noteq> wanted
          then newMasterElected spec (masterUID cd) wanted (removeDeadKeepers env spec cd cd)
          else sameMaster env s spec pis cd cur (masterUID cd) (removeDeadKeepers env spec cd cd)) = Inr cd1"
    "updateFollowers (masterUID cd) wanted cd1 = Inr cd2" "setDBSpecFromClusterSpec cd2 = Inr cd3"
    "cd' = updateGenerations cd cd3"
    by (auto simp: updateCluster_def updateClusterNormal_def cluster_of_def res_simps Let_def c ph m
        split: option.splits)
  with that [OF c m [symmetric]] show ?thesis by blast
qed

lemma newMasterElected_result:
  assumes "newMasterElected spec cur wanted cd = Inr cd'" and "cd_Cluster cd = Some c"
  shows "masterUID cd' = wanted \<and> phaseOf cd' = phaseOf cd \<and>
    (\<exists>p. cd_Proxy cd = Some p \<and> cd_Proxy cd' = Some (unsetProxyMaster p)) \<and>
    fmlookup (cd_DBs cd) wanted \<noteq> None"
  using assms by (auto simp: newMasterElected_def res_simps masterUID_def phaseOf_def Let_def setMaster_def modCluster_def)

lemma sameMaster_result:
  assumes "sameMaster env s spec pis cd0 cur m cd = Inr cd'"
  shows "cd_Cluster cd' = cd_Cluster cd \<and> cd_Keepers cd' = cd_Keepers cd \<and>
    (\<exists>p. cd_Proxy cd = Some p \<and> cd_Proxy cd' = Some (updateProxy pis m p))"
proof -
  from assms obtain mdb p where "fmlookup (cd_DBs cd) m = Some mdb" "cd_Proxy cd = Some p"
    and r: "cd' = setMasterRole spec m (cd\<lparr>cd_Proxy := Some (updateProxy pis m p)\<rparr>) \<or>
      manageStandbys env s spec cd0 cur m (setMasterRole spec m (cd\<lparr>cd_Proxy := Some (updateProxy pis m p)\<rparr>)) = Inr cd'"
    by (auto simp: sameMaster_def res_simps Let_def split: if_splits)
  from r show ?thesis
    using \<open>cd_Proxy cd = Some p\<close> by (auto dest!: manageStandbys_frame simp: same_frame_def)
qed

lemma electMaster_cases:
  assumes "electMaster env s spec cd cur curDB = Inr wanted" and "wanted \<noteq> cur" and "uids_ok cd"
  obtains db where "candidate env s cd curDB db" and "db_UID db = wanted"
    and "\<not> st_Healthy (db_Status curDB) \<or>
      dbConvergenceState env s curDB (def_ConvergenceTimeout spec) = Inr ConvergenceFailed"
    and "dbs_SynchronousReplication (db_Spec curDB) \<Longrightarrow>
      wanted \<in> set (elems (st_SynchronousStandbys (db_Status curDB))) \<inter>
        set (elems (dbs_SynchronousStandbys (db_Spec curDB)))"
proof -
  from assms(1,2) obtain best db where
    b: "findBestNewMasters (e_ord env 1) (e_ord env 2) env s cd curDB = Inr best"
    and ch: "chooseNewMaster curDB best = Some db" and w: "wanted = db_UID db"
    and bad: "\<not> st_Healthy (db_Status curDB) \<or>
      dbConvergenceState env s curDB (def_ConvergenceTimeout spec) = Inr ConvergenceFailed"
    by (auto simp: electMaster_def masterOK_def res_simps split: if_splits option.splits)
  have "db \<in> set best"
    using ch by (auto simp: chooseNewMaster_def Let_def find_Some_iff split: list.splits if_splits)
  then have "candidate env s cd curDB db"
    using findBestNewMasters_iff [OF assms(3) b] by simp
  moreover have "wanted \<in> set (elems (st_SynchronousStandbys (db_Status curDB))) \<inter>
        set (elems (dbs_SynchronousStandbys (db_Spec curDB)))" if "dbs_SynchronousReplication (db_Spec curDB)"
    using ch that w by (auto simp: CommonElements_filter chooseNewMaster_def Let_def find_Some_iff split: list.splits if_splits)
  ultimately show ?thesis using that [of db] w bad by blast
qed


section \<open>Failover\<close>

lemma removeDeadKeepers_lookup:
  "fmlookup (cd_Keepers (removeDeadKeepers env spec cd newcd)) u = Some k \<Longrightarrow>
     fmlookup (cd_Keepers newcd) u = Some k"
  by (auto simp: removeDeadKeepers_def split: if_splits)

lemma uids_ok_removeDeadKeepers [simp]: "uids_ok (removeDeadKeepers env spec cd newcd) = uids_ok newcd"
  by (simp add: uids_ok_def)

lemma dbValidity_cong:
  "cd_Cluster cd = cd_Cluster cd' \<Longrightarrow> cd_DBs cd = cd_DBs cd' \<Longrightarrow> dbValidity cd u = dbValidity cd' u"
proof -
  assume *: "cd_Cluster cd = cd_Cluster cd'" "cd_DBs cd = cd_DBs cd'"
  have "getMasterDB cd = getMasterDB cd'" "getDB cd u = getDB cd' u"
    by (simp_all add: getDB_def getMasterDB_def cluster_of_def *)
  then show ?thesis by (simp add: dbValidity_def cong: if_cong)
qed

lemma defspec_of_cong: "cd_Cluster cd = cd_Cluster cd' \<Longrightarrow> defspec_of cd = defspec_of cd'"
  by (simp add: defspec_of_def cluster_of_def)

lemma updateCluster_outcome:
  assumes "updateCluster env s cd pis = Inr cd'" and "phaseOf cd = Some ClusterPhaseNormal"
  obtains spec cur p where "defspec_of cd = Inr spec"
    and "fmlookup (cd_DBs cd) (masterUID cd) = Some cur"
    and "electMaster env s spec (removeDeadKeepers env spec cd cd) (masterUID cd) cur = Inr (masterUID cd')"
    and "cd_Proxy cd = Some p"
    and "cd_Proxy cd' = Some (if masterUID cd' = masterUID cd then updateProxy pis (masterUID cd) p
                              else unsetProxyMaster p)"
    and "phaseOf cd' = phaseOf cd"
proof -
  from updateCluster_normal [OF assms] obtain c spec cur wanted cd1 cd2 cd3 where
    c: "cd_Cluster cd = Some c" "DefSpec c = Inr spec"
    and cur: "fmlookup (cd_DBs cd) (masterUID cd) = Some cur"
    and el: "electMaster env s spec (removeDeadKeepers env spec cd cd) (masterUID cd) cur = Inr wanted"
    and r: "(if masterUID cd \<noteq> wanted
          then newMasterElected spec (masterUID cd) wanted (removeDeadKeepers env spec cd cd)
          else sameMaster env s spec pis cd cur (masterUID cd) (removeDeadKeepers env spec cd cd)) = Inr cd1"
    and fin: "updateFollowers (masterUID cd) wanted cd1 = Inr cd2" "setDBSpecFromClusterSpec cd2 = Inr cd3"
      "cd' = updateGenerations cd cd3" by metis
  have eq: "cd_Cluster cd' = cd_Cluster cd1" "cd_Proxy cd' = cd_Proxy cd1"
    using followers.frame [OF fin(1)] db_specs.frame [OF fin(2)] fin(3) by (simp_all add: same_frame_def)
  have "\<exists>p. masterUID cd1 = wanted \<and> phaseOf cd1 = phaseOf cd \<and> cd_Proxy cd = Some p \<and>
      cd_Proxy cd1 = Some (if wanted = masterUID cd then updateProxy pis (masterUID cd) p else unsetProxyMaster p)"
  proof (cases "masterUID cd = wanted")
    case True
    then show ?thesis
      using sameMaster_result [of env s spec pis cd cur "masterUID cd" "removeDeadKeepers env spec cd cd" cd1] r
      by (auto simp: masterUID_def [of cd1] phaseOf_def) (simp add: masterUID_def)
  next
    case False
    then show ?thesis
      using newMasterElected_result [of spec "masterUID cd" wanted "removeDeadKeepers env spec cd cd" cd1 c] c r
      by (auto simp: phaseOf_def)
  qed
  then show ?thesis
    using that [of spec cur] c cur el eq by (auto simp: defspec_of_def cluster_of_def masterUID_def phaseOf_def)
qed

lemma updateCluster_failover:
  assumes "updateCluster env s cd pis = Inr cd'" and "phaseOf cd = Some ClusterPhaseNormal"
    and "uids_ok cd" and "defspec_of cd = Inr spec" and "masterUID cd' \<noteq> masterUID cd"
  shows "\<exists>old db k. fmlookup (cd_DBs cd) (masterUID cd) = Some old \<and>
    fmlookup (cd_DBs cd) (masterUID cd') = Some db \<and>
    (\<not> st_Healthy (db_Status old) \<or>
     dbConvergenceState env s old (def_ConvergenceTimeout spec) = Inr ConvergenceFailed) \<and>
    dbValidity cd (masterUID cd') = Inr dbValidityValid \<and>
    st_Healthy (db_Status db) \<and> st_CurrentGeneration (db_Status db) = db_Generation db \<and>
    fmlookup (cd_Keepers cd) (dbs_KeeperUID (db_Spec db)) = Some k \<and> ks_Healthy (k_Status k) \<and>
    st_TimelineID (db_Status db) = st_TimelineID (db_Status old) \<and>
    (syncRepl spec \<or> sint (st_XLogPos (db_Status old) - st_XLogPos (db_Status db)) \<le> uint (def_MaxStandbyLag spec)) \<and>
    (dbs_SynchronousReplication (db_Spec old) \<longrightarrow>
       masterUID cd' \<in> set (elems (st_SynchronousStandbys (db_Status old))) \<inter>
         set (elems (dbs_SynchronousStandbys (db_Spec old))))"
proof -
  let ?cd = "removeDeadKeepers env spec cd cd" and ?w = "masterUID cd'"
  from updateCluster_outcome [OF assms(1,2)] assms(4) obtain cur where
    cur: "fmlookup (cd_DBs cd) (masterUID cd) = Some cur"
    and el: "electMaster env s spec ?cd (masterUID cd) cur = Inr ?w" by (metis sum.inject(2))
  from electMaster_cases [OF el assms(5)] assms(3) obtain db where
    cand: "candidate env s ?cd cur db" and db: "db_UID db = ?w"
    and bad: "\<not> st_Healthy (db_Status cur) \<or>
      dbConvergenceState env s cur (def_ConvergenceTimeout spec) = Inr ConvergenceFailed"
    and sync: "dbs_SynchronousReplication (db_Spec cur) \<Longrightarrow>
      ?w \<in> set (elems (st_SynchronousStandbys (db_Status cur))) \<inter>
        set (elems (dbs_SynchronousStandbys (db_Spec cur)))"
    by (metis uids_ok_removeDeadKeepers)
  from cand db have l: "fmlookup (cd_DBs cd) ?w = Some db" and "dbValidity cd ?w = Inr dbValidityValid"
    and good: "dbStatus env s ?cd ?w = Inr dbStatusGood"
    using dbValidity_cong [of ?cd cd ?w] by (auto simp: candidate_def)
  moreover from dbStatus_Good [OF good] l obtain k where
    "fmlookup (cd_Keepers cd) (dbs_KeeperUID (db_Spec db)) = Some k" "ks_Healthy (k_Status k)"
    "st_Healthy (db_Status db)" "st_CurrentGeneration (db_Status db) = db_Generation db"
    by (auto dest: removeDeadKeepers_lookup)
  moreover from cand acceptable_True [of ?cd cur db] defspec_of_cong [of ?cd cd] assms(4)
  have "st_TimelineID (db_Status db) = st_TimelineID (db_Status cur)"
    "syncRepl spec \<or> sint (st_XLogPos (db_Status cur) - st_XLogPos (db_Status db)) \<le> uint (def_MaxStandbyLag spec)"
    by (auto simp: candidate_def)
  ultimately show ?thesis using cur bad sync by blast
qed

text \<open>
  C1. Failover safety. When a check changes the master of the cluster, then the old master was unhealthy or
  had failed to converge, and the new one is an existing database that is valid (same system, and not on
  a diverged timeline), healthy, converged, on a healthy keeper and on the timeline of the old master. If
  the old master replicated synchronously, the new one is among the standbys that were both required and
  known to be in sync; if the cluster does not replicate synchronously, the new master lags behind at
  most the allowed amount.
\<close>

theorem failover_safe:
  assumes "updateCluster env s cd pis = Inr cd'" and "phaseOf cd = Some ClusterPhaseNormal"
    and "uids_ok cd" and "defspec_of cd = Inr spec" and "masterUID cd' \<noteq> masterUID cd"
  shows "\<exists>old db k. fmlookup (cd_DBs cd) (masterUID cd) = Some old \<and>
    fmlookup (cd_DBs cd) (masterUID cd') = Some db \<and>
    (\<not> st_Healthy (db_Status old) \<or>
     dbConvergenceState env s old (def_ConvergenceTimeout spec) = Inr ConvergenceFailed) \<and>
    dbValidity cd (masterUID cd') = Inr dbValidityValid \<and>
    st_Healthy (db_Status db) \<and> st_CurrentGeneration (db_Status db) = db_Generation db \<and>
    fmlookup (cd_Keepers cd) (dbs_KeeperUID (db_Spec db)) = Some k \<and> ks_Healthy (k_Status k) \<and>
    st_TimelineID (db_Status db) = st_TimelineID (db_Status old) \<and>
    (syncRepl spec \<or> sint (st_XLogPos (db_Status old) - st_XLogPos (db_Status db)) \<le> uint (def_MaxStandbyLag spec)) \<and>
    (dbs_SynchronousReplication (db_Spec old) \<longrightarrow>
       masterUID cd' \<in> set (elems (st_SynchronousStandbys (db_Status old))) \<inter>
         set (elems (dbs_SynchronousStandbys (db_Spec old))))"
  by (rule updateCluster_failover [OF assms])

lemma updateCluster_fences:
  assumes "updateCluster env s cd pis = Inr cd'" and "phaseOf cd = Some ClusterPhaseNormal"
    and "cd_Proxy cd = Some p" and "masterUID cd' \<noteq> masterUID cd"
  shows "\<exists>p'. cd_Proxy cd' = Some p' \<and> ps_MasterDBUID (p_Spec p') = '''' \<and>
    ps_EnabledProxies (p_Spec p') = ps_EnabledProxies (p_Spec p) \<and>
    p_Generation p' = (if ps_MasterDBUID (p_Spec p) = '''' then p_Generation p else p_Generation p + 1)"
  using assms(3,4) by (rule_tac updateCluster_outcome [OF assms(1,2)]) (auto simp: unsetProxyMaster_def)

text \<open>
  C3. Proxy fencing. When a check changes the master, the proxies are told in the same update that there is
  no master, under a new proxy generation if they had one.
\<close>

theorem failover_fences_proxies:
  assumes "updateCluster env s cd pis = Inr cd'" and "phaseOf cd = Some ClusterPhaseNormal"
    and "cd_Proxy cd = Some p" and "masterUID cd' \<noteq> masterUID cd"
  shows "\<exists>p'. cd_Proxy cd' = Some p' \<and> ps_MasterDBUID (p_Spec p') = '''' \<and>
    ps_EnabledProxies (p_Spec p') = ps_EnabledProxies (p_Spec p) \<and>
    p_Generation p' = (if ps_MasterDBUID (p_Spec p) = '''' then p_Generation p else p_Generation p + 1)"
  by (rule updateCluster_fences [OF assms])

text \<open>A change of what the proxies are told is a new generation, and nothing else is.\<close>

lemma updateProxy_generation:
  "m \<noteq> '''' \<Longrightarrow> if p_Spec (updateProxy pis m p) = p_Spec p then updateProxy pis m p = p
     else p_Generation (updateProxy pis m p) = p_Generation p + 1"
  by (cases p, cases "p_Spec p") (auto simp: updateProxy_def Let_def)

lemma unsetProxyMaster_generation:
  "if p_Spec (unsetProxyMaster p) = p_Spec p then unsetProxyMaster p = p
     else p_Generation (unsetProxyMaster p) = p_Generation p + 1"
  by (cases p, cases "p_Spec p") (auto simp: unsetProxyMaster_def)

text \<open>
  C4. The proxies are only ever told the current master or none. They are told a master again only in a
  check that keeps the master and in which every active proxy has reported the generation that told it
  that there is none. What the proxies are told changes exactly with the proxy generation.
\<close>

theorem proxy_master_sound:
  assumes "updateCluster env s cd pis = Inr cd'" and "phaseOf cd = Some ClusterPhaseNormal"
    and "cd_Proxy cd = Some p" and "ps_MasterDBUID (p_Spec p) \<in> {'''', masterUID cd}"
    and "masterUID cd \<noteq> ''''"
  shows "\<exists>p'. cd_Proxy cd' = Some p' \<and> ps_MasterDBUID (p_Spec p') \<in> {'''', masterUID cd'} \<and>
    (ps_MasterDBUID (p_Spec p) = '''' \<and> ps_MasterDBUID (p_Spec p') \<noteq> '''' \<longrightarrow>
       masterUID cd' = masterUID cd \<and>
       (\<forall>u pi. fmlookup pis u = Some pi \<longrightarrow> pi_Generation pi = p_Generation p)) \<and>
    (if p_Spec p' = p_Spec p then p' = p else p_Generation p' = p_Generation p + 1)"
proof (rule updateCluster_outcome [OF assms(1,2)])
  fix q assume "cd_Proxy cd = Some q"
    and "cd_Proxy cd' = Some (if masterUID cd' = masterUID cd then updateProxy pis (masterUID cd) q
                              else unsetProxyMaster q)"
  with assms(3) have p': "cd_Proxy cd' = Some (if masterUID cd' = masterUID cd
      then updateProxy pis (masterUID cd) p else unsetProxyMaster p)" by simp
  show ?thesis
  proof (cases "masterUID cd' = masterUID cd")
    case True
    have "ps_MasterDBUID (p_Spec (updateProxy pis (masterUID cd) p)) \<in> {'''', masterUID cd}"
      and "ps_MasterDBUID (p_Spec p) = '''' \<and> ps_MasterDBUID (p_Spec (updateProxy pis (masterUID cd) p)) \<noteq> ''''
        \<longrightarrow> (\<forall>u pi. fmlookup pis u = Some pi \<longrightarrow> pi_Generation pi = p_Generation p)"
      using assms(4) by (auto simp: updateProxy_def Let_def filter_empty_conv)
    then show ?thesis
      using p' True updateProxy_generation [OF assms(5), of pis p] by simp
  next
    case False
    moreover have "ps_MasterDBUID (p_Spec (unsetProxyMaster p)) = ''''" by (simp add: unsetProxyMaster_def)
    ultimately show ?thesis using p' unsetProxyMaster_generation [of p] by simp
  qed
qed

section \<open>Generations\<close>

lemma grows_addMasterDB: "grows env cd (addMasterDB (e_uidFn env n) sp cd)"
proof -
  have "grows env cd (cd\<lparr>cd_DBs := fmupd (e_uidFn env n) (newDB (e_uidFn env n) sp) (cd_DBs cd)\<rparr>)"
    unfolding grows_def by (intro allI impI) (auto split: if_splits)
  then show ?thesis by (simp add: addMasterDB_def grows_def)
qed

lemma evolves_dbInitialized: "evolves cd (dbInitialized spec m db cd)"
proof -
  have "evolves cd (modSpec m (\<lambda>sp. sp\<lparr>dbs_InitMode := DBInitModeNone, dbs_IncludeConfig := False\<rparr>) cd)"
    by (rule evolves_modSpec) simp
  then show ?thesis by (simp add: dbInitialized_def Let_def evolves_def modCluster_def setPhase_def)
qed

lemma evolves_initFailed: "evolves cd (initFailed cd)"
  by (simp add: evolves_def initFailed_def setMaster_def modCluster_def)

text \<open>What one step of the initialization can do, and under which conditions.\<close>

inductive init_step :: "Env \<Rightarrow> ClusterSpec \<Rightarrow> string \<Rightarrow> ClusterData \<Rightarrow> ClusterData \<Rightarrow> bool"
  for env spec m cd where
  choose: "m = '''' \<Longrightarrow> fmlookup (cd_Keepers cd) ku = Some k \<Longrightarrow> dbs_KeeperUID sp = k_UID k \<Longrightarrow>
    masterRole spec = Inr (dbs_Role sp, dbs_FollowConfig sp) \<or>
      dbs_Role sp = RoleMaster \<and> dbs_FollowConfig sp = None \<Longrightarrow>
    init_step env spec m cd (addMasterDB (e_uidFn env 0) sp cd)"
| initialized: "fmlookup (cd_DBs cd) m = Some db \<Longrightarrow> st_Healthy (db_Status db) \<Longrightarrow>
    st_CurrentGeneration (db_Status db) = db_Generation db \<Longrightarrow>
    init_step env spec m cd (dbInitialized spec m db cd)"
| failed: "m \<noteq> '''' \<Longrightarrow> init_step env spec m cd (initFailed cd)"
| waiting: "m \<noteq> '''' \<Longrightarrow> fmlookup (cd_DBs cd) m = Some db \<Longrightarrow> init_step env spec m cd cd"

lemma findInitialKeeper_lookup:
  "findInitialKeeper env cd = Inr k \<Longrightarrow> \<exists>u. fmlookup (cd_Keepers cd) u = Some k"
  by (auto simp: findInitialKeeper_def Let_def res_simps split: if_splits)

lemma dbConvergenceState_Converged:
  "dbConvergenceState env s db t = Inr Converged \<longleftrightarrow> st_CurrentGeneration (db_Status db) = db_Generation db"
  by (auto simp: dbConvergenceState_def split: option.splits)

lemma zero_FollowConfig [simp]: "dbs_FollowConfig zero_DBSpec = None"
  by (simp add: zero_DBSpec_def)

lemma initModeNew_step:
  assumes "initModeNew env s spec m cd = Inr cd'"
  shows "init_step env spec m cd cd'"
proof (cases "m = ''''")
  case True
  with assms obtain k where "findInitialKeeper env cd = Inr k"
    by (auto simp: initModeNew_def split: sum.splits go_error.splits)
  with assms True show ?thesis
    by (auto simp: initModeNew_def dest!: findInitialKeeper_lookup intro!: init_step.choose)
next
  case False
  with assms obtain db cs where "fmlookup (cd_DBs cd) m = Some db"
    "dbConvergenceState env s db (def_InitTimeout spec) = Inr cs" by (auto simp: initModeNew_def res_simps)
  with assms False show ?thesis
    by (cases cs) (auto simp: initModeNew_def res_simps getDB_def dbConvergenceState_Converged intro: init_step.intros)
qed

lemma initModePITR_step:
  assumes "initModePITR env s spec m cd = Inr cd'"
  shows "init_step env spec m cd cd'"
proof (cases "m = ''''")
  case True
  with assms obtain k where "findInitialKeeper env cd = Inr k"
    by (auto simp: initModePITR_def split: sum.splits go_error.splits)
  with assms True show ?thesis
    by (auto simp: initModePITR_def res_simps dest!: findInitialKeeper_lookup intro!: init_step.choose)
next
  case False
  with assms obtain db cs where "fmlookup (cd_DBs cd) m = Some db"
    "dbConvergenceState env s db 0 = Inr cs" by (auto simp: initModePITR_def res_simps)
  with assms False show ?thesis
    by (cases cs) (auto simp: initModePITR_def res_simps getDB_def dbConvergenceState_Converged intro: init_step.intros)
qed

lemma initModeExisting_step:
  assumes "initModeExisting env s spec m cd = Inr cd'"
  shows "init_step env spec m cd cd'"
proof (cases "m = ''''")
  case True
  with assms obtain ec where ec: "cs_ExistingConfig spec = Some ec"
    by (auto simp: initModeExisting_def res_simps)
  with assms True obtain k where k: "fmlookup (cd_Keepers cd) (ec_KeeperUID ec) = Some k"
    by (cases "fmlookup (cd_Keepers cd) (ec_KeeperUID ec)") (auto simp: initModeExisting_def)
  from assms True ec k show ?thesis
    by (auto simp: initModeExisting_def intro!: init_step.choose)
next
  case False
  with assms show ?thesis
    by (auto simp: initModeExisting_def res_simps dbConvergenceState_Converged intro: init_step.intros
        split: if_splits)
qed

lemma updateClusterInit_step:
  assumes "updateClusterInit env s spec m cd = Inr cd'"
  shows "init_step env spec m cd cd'"
proof -
  from assms obtain mode where "cs_InitMode spec = Some mode" by (auto simp: updateClusterInit_def res_simps)
  with assms show ?thesis
    by (cases mode) (auto simp: updateClusterInit_def initModeNew_step initModePITR_step initModeExisting_step)
qed

lemma updateClusterInit_grows:
  assumes "updateClusterInit env s spec m cd = Inr cd'"
  shows "grows env cd cd'"
  using updateClusterInit_step [OF assms]
proof cases
  case (choose ku k sp)
  then show ?thesis by (simp add: grows_addMasterDB)
next
  case (initialized db)
  then show ?thesis by (simp add: evolves_dbInitialized evolves_grows)
next
  case failed
  then show ?thesis by (simp add: evolves_initFailed evolves_grows)
next
  case (waiting db)
  then show ?thesis by (simp add: evolves_grows)
qed

lemma updateCluster_grows:
  assumes "updateCluster env s cd pis = Inr cd'"
  obtains cd3 where "grows env cd cd3" and "cd' = updateGenerations cd cd3"
proof (cases "phaseOf cd = Some ClusterPhaseNormal")
  case True
  from updateCluster_normal [OF assms True] obtain spec cur wanted cd1 cd2 cd3 where
    r: "(if masterUID cd \<noteq> wanted
          then newMasterElected spec (masterUID cd) wanted (removeDeadKeepers env spec cd cd)
          else sameMaster env s spec pis cd cur (masterUID cd) (removeDeadKeepers env spec cd cd)) = Inr cd1"
    and fin: "updateFollowers (masterUID cd) wanted cd1 = Inr cd2" "setDBSpecFromClusterSpec cd2 = Inr cd3"
      "cd' = updateGenerations cd cd3" by metis
  from r have "grows env (removeDeadKeepers env spec cd cd) cd1"
    using newMasterElected_evolves evolves_grows sameMaster_grows by (metis (full_types))
  then have "grows env cd cd3"
    using followers.evolution [OF fin(1)] db_specs.evolution [OF fin(2)] grows_evolves
    by (metis (no_types, lifting) grows_cong removeDeadKeepers_frame(2))
  then show ?thesis using that fin(3) by blast
next
  case False
  with assms obtain m spec cd2 cd3 where
    "updateClusterInit env s spec m cd = Inr cd2"
    "setDBSpecFromClusterSpec cd2 = Inr cd3" "cd' = updateGenerations cd cd3"
    by (cases "cst_Phase (c_Status (the (cd_Cluster cd)))")
      (auto simp: updateCluster_def cluster_of_def phaseOf_def res_simps)
  then show ?thesis using that updateClusterInit_grows db_specs.evolution grows_evolves by metis
qed

text \<open>
  C8. The generation of a database grows by one when its specification changed in this check and stays
  otherwise; a database is never moved to another keeper; and a database that was not there before has a
  UID drawn in this check and the initial generation. (The UIDs drawn are not in use.)
\<close>

theorem generations_correct:
  assumes "updateCluster env s cd pis = Inr cd'"
    and "\<And>n. fmlookup (cd_DBs cd) (e_uidFn env n) = None"
    and "fmlookup (cd_DBs cd') u = Some db'"
  shows "case fmlookup (cd_DBs cd) u of
      None \<Rightarrow> (\<exists>n. u = e_uidFn env n) \<and> db_UID db' = u \<and> db_Generation db' = InitialGeneration
    | Some db \<Rightarrow>
        db_Generation db' = (if db_Spec db' = db_Spec db then db_Generation db else db_Generation db + 1) \<and>
        db_UID db' = db_UID db \<and> dbs_KeeperUID (db_Spec db') = dbs_KeeperUID (db_Spec db)"
proof (rule updateCluster_grows [OF assms(1)])
  fix cd3 assume g: "grows env cd cd3" and cd': "cd' = updateGenerations cd cd3"
  from assms(3) obtain db3 where db3: "fmlookup (cd_DBs cd3) u = Some db3" "db' = bumpGeneration cd u db3"
    by (auto simp: cd' updateGenerations_def)
  from g db3(1) consider db where "fmlookup (cd_DBs cd) u = Some db" "same_db db db3"
    | "u \<in> range (e_uidFn env)" "new_db u db3"
    unfolding grows_def by blast
  then show ?thesis
  proof cases
    case 1
    then show ?thesis by (simp add: db3(2) bumpGeneration_def same_db_def)
  next
    case 2
    then obtain n where "u = e_uidFn env n" by blast
    with 2 show ?thesis using assms(2) [of n] by (auto simp: db3(2) bumpGeneration_def new_db_def)
  qed
qed

section \<open>The example, continued\<close>

definition example_cd2 :: ClusterData where
  "example_cd2 = projr (updateCluster example_env example_s example_cd1 example_proxies)"

definition example_view where
  "example_view cd =
     (masterUID cd, phaseOf cd,
      map_option (\<lambda>p. (ps_MasterDBUID (p_Spec p), p_Generation p)) (cd_Proxy cd),
      map (\<lambda>(u, db). (u, db_UID db, db_Generation db, dbs_Role (db_Spec db),
             st_CurrentGeneration (db_Status db))) (entries (cd_DBs cd)))"

lemma example_update: "updateCluster example_env example_s example_cd1 example_proxies = Inr example_cd2"
proof -
  have "is_ok (updateCluster example_env example_s example_cd1 example_proxies)" by code_simp
  then show ?thesis by (auto simp: is_ok_iff example_cd2_def)
qed

lemma example_view_cd1:
  "example_view example_cd1 =
     (''db1'', Some ClusterPhaseNormal, Some (''db1'', 2),
      [(''db1'', ''db1'', 1, RoleMaster, 1), (''db2'', ''db2'', 1, RoleStandby, 1)])"
  by code_simp

lemma example_view_cd2:
  "example_view example_cd2 =
     (''db2'', Some ClusterPhaseNormal, Some ('''', 3),
      [(''db1'', ''db1'', 2, RoleMaster, 1), (''db2'', ''db2'', 2, RoleMaster, 1)])"
  by code_simp

lemma example_view_dbs:
  assumes "example_view cd = (m, ph, p, vs)"
  shows "fmlookup (cd_DBs cd) u = Some db \<Longrightarrow>
      (u, db_UID db, db_Generation db, dbs_Role (db_Spec db), st_CurrentGeneration (db_Status db)) \<in> set vs"
    and "(u, w) \<in> set vs \<Longrightarrow> \<exists>db. fmlookup (cd_DBs cd) u = Some db"
  using assms by (force simp: example_view_def)+

lemma example_view_other:
  assumes "example_view cd = (m, ph, Some (pm, pg), vs)"
  shows "masterUID cd = m" "phaseOf cd = ph"
    "\<exists>p. cd_Proxy cd = Some p \<and> ps_MasterDBUID (p_Spec p) = pm \<and> p_Generation p = pg"
  using assms by (auto simp: example_view_def)

lemmas example_cd1_other = example_view_other [OF example_view_cd1]
lemmas example_cd2_other = example_view_other [OF example_view_cd2]

lemma example_cd1_ok: "uids_ok example_cd1"
  unfolding uids_ok_def by (intro fmpredI) (use example_view_dbs(1) [OF example_view_cd1] in fastforce)

lemma example_cd1_spec: "defspec_of example_cd1 = Inr (WithDefaults example_spec)"
proof -
  have "cd_Cluster example_cd1 = cd_Cluster example_cd"
    by (subst updateKeepersStatus_run(4) [OF example_run example_facts(1)]) simp
  then show ?thesis using example_facts(1,2) by (simp add: defspec_of_def cluster_of_def)
qed

lemma example_fresh: "fmlookup (cd_DBs example_cd1) (e_uidFn example_env n) = None"
  using example_view_dbs(1) [OF example_view_cd1, of "e_uidFn example_env n"]
  by (cases "fmlookup (cd_DBs example_cd1) (e_uidFn example_env n)") (auto simp: example_env_def)

theorem failover_safe_witness:
  "\<exists>old db k. fmlookup (cd_DBs example_cd1) ''db1'' = Some old \<and>
     fmlookup (cd_DBs example_cd1) ''db2'' = Some db \<and> \<not> st_Healthy (db_Status old) \<and>
     st_Healthy (db_Status db)"
proof -
  have "\<not> (dbConvergenceState example_env example_s old (def_ConvergenceTimeout (WithDefaults example_spec)) =
      Inr ConvergenceFailed)" if "fmlookup (cd_DBs example_cd1) ''db1'' = Some old" for old
    using example_view_dbs(1) [OF example_view_cd1 that] by (simp add: dbConvergenceState_def)
  then show ?thesis
    using failover_safe [OF example_update example_cd1_other(2) example_cd1_ok example_cd1_spec]
      example_cd2_other(1) example_cd1_other(1) by auto
qed

theorem failover_fences_proxies_witness:
  "\<exists>p'. cd_Proxy example_cd2 = Some p' \<and> ps_MasterDBUID (p_Spec p') = '''' \<and> p_Generation p' = 3"
proof -
  obtain p where p: "cd_Proxy example_cd1 = Some p" "ps_MasterDBUID (p_Spec p) = ''db1''" "p_Generation p = 2"
    using example_cd1_other(3) by blast
  then show ?thesis
    using failover_fences_proxies [OF example_update example_cd1_other(2) p(1)]
      example_cd2_other(1) example_cd1_other(1) by auto
qed

theorem proxy_master_sound_witness:
  "\<exists>p'. cd_Proxy example_cd2 = Some p' \<and> ps_MasterDBUID (p_Spec p') \<in> {'''', ''db2''}"
proof -
  obtain p where p: "cd_Proxy example_cd1 = Some p" "ps_MasterDBUID (p_Spec p) = ''db1''"
    using example_cd1_other(3) by blast
  then have in_set: "ps_MasterDBUID (p_Spec p) \<in> {'''', masterUID example_cd1}" "masterUID example_cd1 \<noteq> ''''"
    by (simp_all add: example_cd1_other(1))
  then show ?thesis
    using proxy_master_sound [OF example_update example_cd1_other(2) p(1) in_set] example_cd2_other(1) by auto
qed

theorem generations_correct_witness:
  "\<exists>db db'. fmlookup (cd_DBs example_cd1) ''db2'' = Some db \<and> fmlookup (cd_DBs example_cd2) ''db2'' = Some db' \<and>
     db_Generation db' = db_Generation db + 1"
proof -
  obtain db db' where db: "fmlookup (cd_DBs example_cd1) ''db2'' = Some db"
      "fmlookup (cd_DBs example_cd2) ''db2'' = Some db'"
    using example_view_dbs(2) [OF example_view_cd1, of "''db2''"]
      example_view_dbs(2) [OF example_view_cd2, of "''db2''"] by auto
  then have "dbs_Role (db_Spec db) \<noteq> dbs_Role (db_Spec db')"
    using example_view_dbs(1) [OF example_view_cd1 db(1)] example_view_dbs(1) [OF example_view_cd2 db(2)] by auto
  then have "db_Spec db' \<noteq> db_Spec db" by auto
  then show ?thesis
    using generations_correct [OF example_update example_fresh db(2)] db by auto
qed

end
