(* ===== verification/Sentinel_Invariant.thy ===== *)
theory Sentinel_Invariant
  imports Sentinel_Failover
begin

text \<open>
  The invariant of the cluster data and that \<^verbatim>\<open>updateCluster\<close> does not crash on data that satisfies it.
  \<open>core\<close> is what the steps of the normal phase rely on, \<open>wf_cd\<close> the invariant of whole cluster data;
  \<open>sound_cd\<close> is what is left of it when an update of the specification has removed the configuration that a database
  with an external master needs, which \<^verbatim>\<open>updateCluster\<close> either crashes on or repairs. The locale
  \<open>safe_step\<close> is the contract of a step that neither crashes nor leaves the states it starts from; it is interpreted on
  the steps that precede the management of the standbys.
\<close>

section \<open>Roles\<close>

definition role_of :: "DB \<Rightarrow> Role \<times> FollowType option" where
  "role_of db = (dbs_Role (db_Spec db), map_option fc_Type (dbs_FollowConfig (db_Spec db)))"

definition roleType :: "Role \<times> FollowType option \<Rightarrow> DbType res" where
  "roleType r =
     (case r of
        (RoleMaster, _) \<Rightarrow> Inr dbTypeMaster
      | (RoleStandby, ft) \<Rightarrow>
          bindE (deref ''nil FollowConfig'' ft) (\<lambda>t.
            if t = FollowTypeExternal then Inr dbTypeMaster else Inr dbTypeStandby)
      | _ \<Rightarrow> Inl (Panic ''invalid db type in db Spec''))"

lemma dbType_role: "fmlookup (cd_DBs cd) u = Some db \<Longrightarrow> dbType cd u = roleType (role_of db)"
  by (cases "dbs_FollowConfig (db_Spec db)")
    (simp_all add: dbType_def getDB_def roleType_def role_of_def split: Role.splits)

definition role_ok :: "bool \<Rightarrow> ClusterSpec \<Rightarrow> DB \<Rightarrow> bool" where
  "role_ok b spec db \<longleftrightarrow> is_ok (roleType (role_of db)) \<and>
     (b \<and> snd (role_of db) = Some FollowTypeExternal \<longrightarrow> cs_StandbyConfig spec \<noteq> None)"

definition roles_ok :: "bool \<Rightarrow> ClusterSpec \<Rightarrow> ClusterData \<Rightarrow> bool" where
  "roles_ok b spec cd = fmpred (\<lambda>_. role_ok b spec) (cd_DBs cd)"

lemma roles_okD: "roles_ok b spec cd \<Longrightarrow> fmlookup (cd_DBs cd) u = Some db \<Longrightarrow> role_ok b spec db"
  by (auto simp: roles_ok_def)

lemma is_ok_dbType: "roles_ok b spec cd \<Longrightarrow> fmlookup (cd_DBs cd) u = Some db \<Longrightarrow> is_ok (dbType cd u)"
  using roles_okD by (simp add: dbType_role role_ok_def)

text \<open>What the code relies on between the steps of the normal phase.\<close>

definition core :: "bool \<Rightarrow> ClusterSpec \<Rightarrow> string \<Rightarrow> ClusterData \<Rightarrow> bool" where
  "core b spec m cd \<longleftrightarrow>
     defspec_of cd = Inr spec \<and> masterUID cd = m \<and> uids_ok cd \<and> dbs_have_keepers cd \<and>
     one_db_per_keeper cd \<and> roles_ok b spec cd \<and> dbType cd m = Inr dbTypeMaster"

lemma core_simps:
  assumes "core b spec m cd"
  shows "defspec_of cd = Inr spec" "masterUID cd = m" "uids_ok cd" "dbs_have_keepers cd"
    "one_db_per_keeper cd" "roles_ok b spec cd" "dbType cd m = Inr dbTypeMaster"
  using assms by (simp_all add: core_def)

lemma core_master: "core b spec m cd \<Longrightarrow> \<exists>db. fmlookup (cd_DBs cd) m = Some db"
  by (auto simp: core_def dbType_def res_simps)

lemma getMasterDB_core: "core b spec m cd \<Longrightarrow> fmlookup (cd_DBs cd) m = Some db \<Longrightarrow> getMasterDB cd = Inr db"
  by (auto simp: core_def getMasterDB_def defspec_of_def cluster_of_def masterUID_def res_simps)

text \<open>A step that keeps identities and roles and does not remove the master.\<close>

definition calm :: "ClusterData \<Rightarrow> ClusterData \<Rightarrow> bool" where
  "calm cd cd' \<longleftrightarrow> same_frame cd cd' \<and>
     (\<forall>u db'. fmlookup (cd_DBs cd') u = Some db' \<longrightarrow>
        (\<exists>db. fmlookup (cd_DBs cd) u = Some db \<and> same_db db db' \<and> role_of db' = role_of db))"

lemma calm_evolves: "calm cd cd' \<Longrightarrow> evolves cd cd'"
  by (auto simp: calm_def evolves_def)

lemma calm_refl [simp]: "calm cd cd"
  by (simp add: calm_def same_frame_def)

lemma calm_trans [trans]: "calm cd cd' \<Longrightarrow> calm cd' cd'' \<Longrightarrow> calm cd cd''"
  unfolding calm_def same_frame_def by (fastforce simp: same_db_def)

text \<open>What \<open>core\<close> depends on.\<close>

lemma core_changed:
  assumes "core b spec m0 cd" and "fmlookup (cd_DBs cd') m = Some mdb"
    and "roleType (role_of mdb) = Inr dbTypeMaster"
    and "defspec_of cd' = Inr spec" and "masterUID cd' = m"
    and kp: "\<And>u. fmlookup (cd_Keepers cd) u \<noteq> None \<Longrightarrow> fmlookup (cd_Keepers cd') u \<noteq> None"
    and dbs: "\<And>u db'. fmlookup (cd_DBs cd') u = Some db' \<Longrightarrow> role_ok b spec db' \<and>
      (\<exists>db. fmlookup (cd_DBs cd) u = Some db \<and> db_UID db' = db_UID db \<and>
        dbs_KeeperUID (db_Spec db') = dbs_KeeperUID (db_Spec db))"
  shows "core b spec m cd'"
proof -
  note c = core_simps [OF assms(1)]
  have "uids_ok cd'" unfolding uids_ok_def
    by (intro fmpredI) (use dbs uids_okD [OF c(3)] in fastforce)
  moreover have "dbs_have_keepers cd'" unfolding dbs_have_keepers_def
    by (intro fmpredI) (use dbs dbs_have_keepersD [OF c(4)] kp in metis)
  moreover have "one_db_per_keeper cd'"
    using c(5) dbs unfolding one_db_per_keeper_iff by metis
  moreover have "roles_ok b spec cd'" unfolding roles_ok_def
    by (intro fmpredI) (use dbs in blast)
  moreover have "dbType cd' m = Inr dbTypeMaster"
    using assms(2,3) by (simp add: dbType_role)
  ultimately show ?thesis using assms(4,5) by (simp add: core_def)
qed

lemma core_from:
  assumes "core b spec m cd" and "fmlookup (cd_DBs cd') m = Some mdb"
    and "defspec_of cd' = Inr spec" and "masterUID cd' = m"
    and "\<And>u. fmlookup (cd_Keepers cd) u \<noteq> None \<Longrightarrow> fmlookup (cd_Keepers cd') u \<noteq> None"
    and dbs: "\<And>u db'. fmlookup (cd_DBs cd') u = Some db' \<Longrightarrow>
      \<exists>db. fmlookup (cd_DBs cd) u = Some db \<and> db_UID db' = db_UID db \<and>
        dbs_KeeperUID (db_Spec db') = dbs_KeeperUID (db_Spec db) \<and> role_of db' = role_of db"
  shows "core b spec m cd'"
proof (rule core_changed [OF assms(1,2) _ assms(3,4,5)])
  note c = core_simps [OF assms(1)]
  show "roleType (role_of mdb) = Inr dbTypeMaster"
    using dbs [OF assms(2)] c(7) dbType_role by metis
  show "role_ok b spec db' \<and> (\<exists>db. fmlookup (cd_DBs cd) u = Some db \<and> db_UID db' = db_UID db \<and>
        dbs_KeeperUID (db_Spec db') = dbs_KeeperUID (db_Spec db))"
    if "fmlookup (cd_DBs cd') u = Some db'" for u db'
    using dbs [OF that] roles_okD [OF c(6)] by (metis role_ok_def)
qed

lemma calm_core:
  assumes "calm cd cd'" and "fmlookup (cd_DBs cd') m = Some mdb" and "core b spec m cd"
  shows "core b spec m cd'"
proof (rule core_from [OF assms(3,2)])
  have fr: "cd_Cluster cd' = cd_Cluster cd" "cd_Keepers cd' = cd_Keepers cd"
    using assms(1) by (simp_all add: calm_def same_frame_def)
  then show "defspec_of cd' = Inr spec" "masterUID cd' = m"
    and "\<And>u. fmlookup (cd_Keepers cd) u \<noteq> None \<Longrightarrow> fmlookup (cd_Keepers cd') u \<noteq> None"
    using core_simps [OF assms(3)] by (simp_all add: defspec_of_def cluster_of_def masterUID_def)
next
  fix u db' assume "fmlookup (cd_DBs cd') u = Some db'"
  then show "\<exists>db. fmlookup (cd_DBs cd) u = Some db \<and> db_UID db' = db_UID db \<and>
        dbs_KeeperUID (db_Spec db') = dbs_KeeperUID (db_Spec db) \<and> role_of db' = role_of db"
    using assms(1) by (auto simp: calm_def same_db_def)
qed

lemma calm_deleteDBs [simp]: "calm cd (deleteDBs ds cd)"
  unfolding calm_def by (auto simp: same_frame_def deleteDBs_def split: if_splits)

section \<open>Classification does not crash\<close>

lemma is_ok_dbValidity:
  assumes "core b spec m cd" and "fmlookup (cd_DBs cd) u = Some db"
  shows "is_ok (dbValidity cd u)"
proof -
  obtain mdb where "fmlookup (cd_DBs cd) m = Some mdb" using core_master [OF assms(1)] by blast
  from getMasterDB_core [OF assms(1) this] assms(2) show ?thesis
    by (simp add: dbValidity_def getDB_def)
qed

lemma is_ok_dbStatus:
  assumes "core b spec m cd" and "convergence_ok s cd" and "fmlookup (cd_DBs cd) u = Some db"
  shows "is_ok (dbStatus env s cd u)"
proof -
  from dbs_have_keepersD [OF core_simps(4) [OF assms(1)] assms(3)]
  obtain k where k: "fmlookup (cd_Keepers cd) (dbs_KeeperUID (db_Spec db)) = Some k" by auto
  show ?thesis
    using is_ok_dbConvergenceState [OF assms(2) core_simps(3) [OF assms(1)] assms(3)]
    by (auto simp: dbStatus_def getDB_def assms(3) k core_simps(1) [OF assms(1)] Let_def
        intro!: is_ok_bindE split: ConvergenceState.splits)
qed

lemma is_ok_validStatus:
  assumes "core b spec m cd" and "convergence_ok s cd" and "fmlookup (cd_DBs cd) u = Some db"
  shows "is_ok (validStatus t env s cd u)"
  using is_ok_dbValidity [OF assms(1,3)] is_ok_dbStatus [OF assms]
    is_ok_dbType [OF core_simps(6) [OF assms(1)] assms(3)]
  by (auto simp: validStatus_def intro!: is_ok_bindE)

lemma is_ok_validByStatus:
  assumes "core b spec m cd" and "convergence_ok s cd"
  shows "is_ok (validByStatus t env s cd)"
proof -
  have "is_ok (validStatus t env s cd (db_UID db))" if "fmlookup (cd_DBs cd) u = Some db" for u db
    using is_ok_validStatus [OF assms that] uids_okD [OF core_simps(3) [OF assms(1)] that] by simp
  then show ?thesis
    by (auto simp: validByStatus_def intro!: is_ok_bindE is_ok_mapE)
qed

lemma is_ok_acceptable: "defspec_of cd = Inr spec \<Longrightarrow> is_ok (acceptable cd masterDB db)"
  by (simp add: acceptable_def isLagBelowMax_def)

lemma is_ok_findBestStandbys:
  assumes "core b spec m cd" and "convergence_ok s cd"
  shows "is_ok (findBestStandbys ord env s cd masterDB)"
  unfolding findBestStandbys_def validStandbysByStatus_def
  by (auto intro!: is_ok_bindE is_ok_filterE is_ok_validByStatus [OF assms] is_ok_acceptable core_simps(1) [OF assms(1)])

lemma is_ok_findBestNewMasters:
  assumes "core b spec m cd" and "convergence_ok s cd"
  shows "is_ok (findBestNewMasters ordS ordM env s cd masterDB)"
  unfolding findBestNewMasters_def validMastersByStatus_def
  by (auto intro!: is_ok_bindE is_ok_filterE is_ok_findBestStandbys [OF assms] is_ok_validByStatus [OF assms]
      is_ok_acceptable core_simps(1) [OF assms(1)])

lemma is_ok_electMaster:
  assumes "core b spec m cd" and "convergence_ok s cd" and "fmlookup (cd_DBs cd) m = Some cur"
  shows "is_ok (electMaster env s spec' cd m cur)"
  using is_ok_dbConvergenceState [OF assms(2) core_simps(3) [OF assms(1)] assms(3)]
  unfolding electMaster_def masterOK_def
  by (auto intro!: is_ok_bindE is_ok_findBestNewMasters [OF assms(1,2)])

section \<open>The steps of the normal phase do not crash\<close>

text \<open>The contract of a step that neither crashes nor leaves the states it starts from.\<close>

locale safe_step =
  fixes ready :: "ClusterData \<Rightarrow> bool" and step :: "ClusterData \<Rightarrow> ClusterData res"
  assumes total: "ready cd \<Longrightarrow> is_ok (step cd)"
    and keeps: "ready cd \<Longrightarrow> step cd = Inr cd' \<Longrightarrow> ready cd'"
begin

lemma runs: "ready cd \<Longrightarrow> \<exists>cd'. step cd = Inr cd' \<and> ready cd'"
  using total [of cd] keeps [of cd] by (auto simp: is_ok_iff)

lemma then_ok: "ready cd \<Longrightarrow> (\<And>cd'. ready cd' \<Longrightarrow> is_ok (k cd')) \<Longrightarrow> is_ok (bindE (step cd) k)"
  using runs [of cd] by fastforce

end

definition ready :: "bool \<Rightarrow> Sentinel \<Rightarrow> ClusterSpec \<Rightarrow> string \<Rightarrow> ClusterData \<Rightarrow> ClusterData \<Rightarrow> bool" where
  "ready b s spec m cd0 cd \<longleftrightarrow>
     core b spec m cd0 \<and> core b spec m cd \<and> convergence_ok s cd \<and>
     (\<forall>u db. fmlookup (cd_DBs cd) u = Some db \<longrightarrow> fmlookup (cd_DBs cd0) u \<noteq> None)"

lemma ready_calm:
  assumes "ready b s spec m cd0 cd" and "calm cd cd'" and "fmlookup (cd_DBs cd') m = Some mdb"
  shows "ready b s spec m cd0 cd'"
proof -
  note r = assms(1) [unfolded ready_def]
  have "fmlookup (cd_DBs cd0) u \<noteq> None" if "fmlookup (cd_DBs cd') u = Some db" for u db
    using r assms(2) that unfolding calm_def by blast
  then show ?thesis
    using r calm_core [OF assms(2,3)] evolves_convergence_ok [OF calm_evolves [OF assms(2)]]
    by (simp add: ready_def)
qed

lemma ready_delete:
  assumes "ready b s spec m cd0 cd" and "\<And>u db. (u, db) \<in> set ds \<Longrightarrow> db_UID db \<noteq> m"
  shows "ready b s spec m cd0 (deleteDBs ds cd)"
proof -
  obtain mdb where "fmlookup (cd_DBs cd) m = Some mdb"
    using assms(1) core_master [of b spec m cd] by (auto simp: ready_def)
  moreover have "m \<notin> set (map (\<lambda>(_, db). db_UID db) ds)" using assms(2) by fastforce
  ultimately have "fmlookup (cd_DBs (deleteDBs ds cd)) m = Some mdb" by (simp add: deleteDBs_def)
  then show ?thesis using ready_calm [OF assms(1) calm_deleteDBs] by blast
qed

lemma ready_dbType:
  assumes "ready b s spec m cd0 cd" and "fmlookup (cd_DBs cd) u = Some db"
  shows "is_ok (dbType cd (db_UID db))"
  using assms is_ok_dbType [of b spec cd u db] uids_okD [of cd u db] by (auto simp: ready_def core_def)

lemma ready_dbValidity:
  assumes "ready b s spec m cd0 cd" and "fmlookup (cd_DBs cd) u = Some db"
  shows "is_ok (dbValidity cd (db_UID db))"
  using assms is_ok_dbValidity [of b spec m cd u db] uids_okD [of cd u db] by (auto simp: ready_def core_def)

lemma dbCanSync_core:
  assumes "core b spec m cd" and "fmlookup (cd_DBs cd) u = Some db"
  shows "is_ok (dbCanSync s cd u)" and "u = m \<Longrightarrow> dbCanSync s cd u = Inr True"
proof -
  obtain mdb where m: "fmlookup (cd_DBs cd) m = Some mdb" using core_master [OF assms(1)] by blast
  have uid: "db_UID mdb = m" "db_UID db = u"
    using uids_okD [OF core_simps(3) [OF assms(1)]] m assms(2) by blast+
  show "is_ok (dbCanSync s cd u)"
    using is_ok_dbType [OF core_simps(6) [OF assms(1)] assms(2)]
    by (auto simp: dbCanSync_def getDB_def assms(2) getMasterDB_core [OF assms(1) m] uid Let_def
        intro!: is_ok_bindE)
  show "u = m \<Longrightarrow> dbCanSync s cd u = Inr True"
    using m uid by (simp add: dbCanSync_def getDB_def getMasterDB_core [OF assms(1) m])
qed

interpretation safe_old: safe_step "ready b s spec m cd0" "removeOldMasters m"
proof
  fix cd assume r: "ready b s spec m cd0 cd"
  show "is_ok (removeOldMasters m cd)"
    unfolding removeOldMasters_def
    by (auto intro!: is_ok_bindE is_ok_filterE ready_dbType [OF r] split: if_splits)
  fix cd' assume "removeOldMasters m cd = Inr cd'"
  then show "ready b s spec m cd0 cd'"
    by (auto simp: removeOldMasters_def res_simps dest!: filterE_eq_Inr intro!: ready_delete [OF r] split: if_splits)
qed

interpretation safe_invalid: safe_step "ready b s spec m cd0" "removeInvalidDBs m"
proof
  fix cd assume r: "ready b s spec m cd0 cd"
  show "is_ok (removeInvalidDBs m cd)"
    unfolding removeInvalidDBs_def
    by (auto intro!: is_ok_bindE is_ok_filterE ready_dbValidity [OF r] split: if_splits)
  fix cd' assume "removeInvalidDBs m cd = Inr cd'"
  then show "ready b s spec m cd0 cd'"
    by (auto simp: removeInvalidDBs_def res_simps dest!: filterE_eq_Inr intro!: ready_delete [OF r] split: if_splits)
qed

interpretation safe_unsyncable: safe_step "ready b s spec m cd0" "removeUnsyncableDBs s cd0"
proof
  fix cd assume r: "ready b s spec m cd0 cd"
  have db0: "\<exists>db0. fmlookup (cd_DBs cd0) (db_UID db) = Some db0" if "fmlookup (cd_DBs cd) u = Some db" for u db
    using r that uids_okD [of cd u db] by (auto simp: ready_def core_def)
  have c0: "core b spec m cd0" using r by (simp add: ready_def)
  show "is_ok (removeUnsyncableDBs s cd0 cd)"
    unfolding removeUnsyncableDBs_def
    by (auto intro!: is_ok_bindE is_ok_filterE dest!: db0 intro: dbCanSync_core(1) [OF c0])
  fix cd' assume "removeUnsyncableDBs s cd0 cd = Inr cd'"
  then show "ready b s spec m cd0 cd'"
    using dbCanSync_core(2) [OF c0]
    by (auto simp: removeUnsyncableDBs_def res_simps dest!: filterE_eq_Inr db0 intro!: ready_delete [OF r])
qed

lemma role_of_sync [simp]:
  "role_of (refreshInSync dbs g db) = role_of db" "role_of (setSyncStandbys n sync db) = role_of db"
  "role_of (disableSync db) = role_of db"
  by (simp_all add: role_of_def refreshInSync_def setSyncStandbys_def disableSync_def Let_def)

lemma calm_fmupd:
  "fmlookup (cd_DBs cd) u = Some db \<Longrightarrow> same_db db db' \<Longrightarrow> role_of db' = role_of db \<Longrightarrow>
     calm cd (cd\<lparr>cd_DBs := fmupd u db' (cd_DBs cd)\<rparr>)"
  by (auto simp: calm_def same_frame_def)

lemma calm_cleanInitMode [simp]: "calm cd (cleanInitMode g cd)"
  by (auto simp: calm_def same_frame_def cleanInitMode_def same_db_def role_of_def)

lemma ready_cleanInitMode:
  assumes "ready b s spec m cd0 cd"
  shows "ready b s spec m cd0 (cleanInitMode g cd)"
proof -
  obtain mdb where "fmlookup (cd_DBs cd) m = Some mdb"
    using assms core_master [of b spec m cd] by (auto simp: ready_def)
  then have "\<exists>mdb. fmlookup (cd_DBs (cleanInitMode g cd)) m = Some mdb" by (simp add: cleanInitMode_def)
  then show ?thesis using ready_calm [OF assms calm_cleanInitMode] by blast
qed

lemma ready_fmupd:
  assumes "ready b s spec m cd0 cd" and "fmlookup (cd_DBs cd) m = Some db"
    and "same_db db db'" and "role_of db' = role_of db"
  shows "ready b s spec m cd0 (cd\<lparr>cd_DBs := fmupd m db' (cd_DBs cd)\<rparr>)"
  by (rule ready_calm [OF assms(1) calm_fmupd [OF assms(2-4)]]) simp

lemma same_db_sync: "same_db db (setSyncStandbys n sync (refreshInSync dbs g db))"
  using same_db_trans same_db_refreshInSync same_db_setSyncStandbys by blast

interpretation safe_sync: safe_step "ready b s spec m cd0" "updateSyncStandbys env s spec' cur m good"
proof
  fix cd assume r: "ready b s spec m cd0 cd"
  then have c: "core b spec m cd" by (simp add: ready_def)
  obtain mdb where m: "fmlookup (cd_DBs cd) m = Some mdb" using core_master [OF c] by blast
  obtain k where k: "fmlookup (cd_Keepers cd) (dbs_KeeperUID (db_Spec mdb)) = Some k"
    using dbs_have_keepersD [OF core_simps(4) [OF c] m] by auto
  have r1: "ready b s spec m cd0 (cd\<lparr>cd_DBs := fmupd m (refreshInSync (cd_DBs cd) good mdb) (cd_DBs cd)\<rparr>)"
    by (rule ready_fmupd [OF r m]) simp_all
  then have "is_ok (findBestStandbys ord env s
      (cd\<lparr>cd_DBs := fmupd m (refreshInSync (cd_DBs cd) good mdb) (cd_DBs cd)\<rparr>) cur)" for ord
    using is_ok_findBestStandbys by (auto simp: ready_def)
  then show "is_ok (updateSyncStandbys env s spec' cur m good cd)"
    by (auto simp: updateSyncStandbys_def getDB_def m k Let_def intro!: is_ok_bindE)
  fix cd' assume "updateSyncStandbys env s spec' cur m good cd = Inr cd'"
  then have "cd' = cd\<lparr>cd_DBs := fmupd m (refreshInSync (cd_DBs cd) good mdb) (cd_DBs cd)\<rparr> \<or>
      (\<exists>n sync. cd' = cd\<lparr>cd_DBs := fmupd m (setSyncStandbys n sync (refreshInSync (cd_DBs cd) good mdb)) (cd_DBs cd)\<rparr>)
      \<or> cd' = cd\<lparr>cd_DBs := fmupd m (disableSync mdb) (cd_DBs cd)\<rparr>"
    by (auto simp: updateSyncStandbys_def getDB_def m k Let_def res_simps modDB_def split: if_splits)
  then show "ready b s spec m cd0 cd'"
    using r1 ready_fmupd [OF r m same_db_sync] ready_fmupd [OF r m same_db_disableSync] by auto
qed

section \<open>Adding standbys\<close>

lemma freeKeepers_set:
  assumes "keepers_ok cd"
  shows "k \<in> set (freeKeepers ord cd) \<longleftrightarrow>
    fmlookup (cd_Keepers cd) (k_UID k) = Some k \<and> ks_Healthy (k_Status k) \<and>
    (\<forall>u db. fmlookup (cd_DBs cd) u = Some db \<longrightarrow> dbs_KeeperUID (db_Spec db) \<noteq> k_UID k)"
  using assms
  by (auto simp: freeKeepers_def list_all_iff keepers_ok_def image_iff split: prod.splits)

lemma freeKeepers_distinct:
  assumes "keepers_ok cd"
  shows "distinct (map k_UID (freeKeepers ord cd))"
proof -
  have "\<forall>x\<in>set (range_by ord (cd_Keepers cd)). k_UID (snd x) = fst x"
    using assms by (auto simp: keepers_ok_def)
  then have "map (k_UID \<circ> snd) (range_by ord (cd_Keepers cd)) = map fst (range_by ord (cd_Keepers cd))"
    by simp
  then have "distinct (map (k_UID \<circ> snd) (range_by ord (cd_Keepers cd)))"
    by (metis distinct_fst_range_by)
  then show ?thesis
    unfolding freeKeepers_def map_map by (rule distinct_map_filter)
qed

text \<open>A new standby takes a keeper that no other database has.\<close>

lemma addStandbys_one_db:
  fixes cd :: ClusterData
  assumes "distinct (map k_UID ks)" and "one_db_per_keeper (cd\<lparr>cd_DBs := dbs\<rparr>)"
    and "\<And>k u db. k \<in> set ks \<Longrightarrow> fmlookup dbs u = Some db \<Longrightarrow> dbs_KeeperUID (db_Spec db) \<noteq> k_UID k"
  shows "one_db_per_keeper (cd\<lparr>cd_DBs := addStandbys uidFn m i ks dbs\<rparr>)"
  using assms
proof (induction ks arbitrary: i dbs)
  case (Cons k ks)
  let ?db = "newDB (uidFn i) (standbySpec (k_UID k) m)"
  have ku: "dbs_KeeperUID (db_Spec ?db) = k_UID k" by (simp add: newDB_def standbySpec_def)
  have "one_db_per_keeper (cd\<lparr>cd_DBs := fmupd (uidFn i) ?db dbs\<rparr>)"
    using Cons.prems(2) Cons.prems(3) [of k] ku unfolding one_db_per_keeper_iff
    by (auto split: if_splits) metis+
  moreover have "dbs_KeeperUID (db_Spec db) \<noteq> k_UID k'"
    if "k' \<in> set ks" "fmlookup (fmupd (uidFn i) ?db dbs) u = Some db" for k' u db
    using that Cons.prems(1) Cons.prems(3) [of k' u db] ku by (auto split: if_splits)
  ultimately show ?case using Cons.IH [of "fmupd (uidFn i) ?db dbs" "Suc i"] Cons.prems(1) by simp
qed simp

lemma addStandbys_other:
  "(\<And>n. u \<noteq> uidFn n) \<Longrightarrow> fmlookup (addStandbys uidFn m i ks dbs) u = fmlookup dbs u"
  by (induction uidFn m i ks dbs rule: addStandbys.induct) auto

lemma role_of_standbySpec: "role_of (newDB u (standbySpec k m)) = (RoleStandby, Some FollowTypeInternal)"
  by (simp add: role_of_def newDB_def standbySpec_def)

lemma core_addMissingStandbys:
  assumes "core b spec m cd" and "keepers_ok cd" and "\<And>n. m \<noteq> e_uidFn env n"
  shows "core b spec m (addMissingStandbys env n mx m cd)"
proof -
  note c = core_simps [OF assms(1)]
  let ?ks = "take (unat (mx - n)) (freeKeepers (e_ord env 7) cd)"
  let ?dbs = "addStandbys (e_uidFn env) m 0 ?ks (cd_DBs cd)"
  have cd': "addMissingStandbys env n mx m cd = cd\<lparr>cd_DBs := ?dbs\<rparr>"
    by (simp add: addMissingStandbys_def Let_def)
  have new: "fmlookup (cd_DBs cd) u = Some db \<or>
      (\<exists>k. k \<in> set (freeKeepers (e_ord env 7) cd) \<and> db = newDB u (standbySpec (k_UID k) m))"
    if "fmlookup ?dbs u = Some db" for u db
    using addStandbys_lookup [OF that] by (auto dest: in_set_takeD)
  obtain mdb where mdb: "fmlookup (cd_DBs cd) m = Some mdb" using core_master [OF assms(1)] by blast
  have "uids_ok (cd\<lparr>cd_DBs := ?dbs\<rparr>)" unfolding uids_ok_def
    by (intro fmpredI) (use new uids_okD [OF c(3)] in \<open>fastforce simp: newDB_def\<close>)
  moreover have "dbs_have_keepers (cd\<lparr>cd_DBs := ?dbs\<rparr>)" unfolding dbs_have_keepers_def
    by (intro fmpredI) (use new dbs_have_keepersD [OF c(4)] freeKeepers_set [OF assms(2)] in
        \<open>fastforce simp: newDB_def standbySpec_def\<close>)
  moreover have "roles_ok b spec (cd\<lparr>cd_DBs := ?dbs\<rparr>)" unfolding roles_ok_def
    by (intro fmpredI) (use new roles_okD [OF c(6)] in
        \<open>fastforce simp: role_ok_def role_of_standbySpec roleType_def\<close>)
  moreover have "one_db_per_keeper (cd\<lparr>cd_DBs := ?dbs\<rparr>)"
    by (rule addStandbys_one_db)
      (use freeKeepers_distinct [OF assms(2)] freeKeepers_set [OF assms(2)] c(5) in
        \<open>auto simp: take_map [symmetric] dest: in_set_takeD\<close>)
  moreover have "fmlookup ?dbs m = Some mdb" using mdb assms(3) by (simp add: addStandbys_other)
  then have "dbType (cd\<lparr>cd_DBs := ?dbs\<rparr>) m = Inr dbTypeMaster"
    using c(7) mdb by (simp add: dbType_role)
  ultimately show ?thesis
    using c(1,2) by (simp add: cd' core_def defspec_of_def cluster_of_def masterUID_def)
qed

lemma core_delete:
  assumes "core b spec m cd" and "\<And>u db. (u, db) \<in> set ds \<Longrightarrow> db_UID db \<noteq> m"
  shows "core b spec m (deleteDBs ds cd)"
proof -
  obtain mdb where "fmlookup (cd_DBs cd) m = Some mdb" using core_master [OF assms(1)] by blast
  moreover have "m \<notin> set (map (\<lambda>(_, db). db_UID db) ds)" using assms(2) by fastforce
  ultimately have "fmlookup (cd_DBs (deleteDBs ds cd)) m = Some mdb" by (simp add: deleteDBs_def)
  then show ?thesis using calm_core [OF calm_deleteDBs _ assms(1)] by blast
qed

lemma is_ok_dbType_core:
  assumes "core b spec m cd" and "fmlookup (cd_DBs cd) u = Some db"
  shows "is_ok (dbType cd (db_UID db))"
  using is_ok_dbType [OF core_simps(6) [OF assms(1)] assms(2)] uids_okD [OF core_simps(3) [OF assms(1)] assms(2)]
  by simp

lemma removeStandbysInExcess_safe:
  assumes "core b spec m cd" and "\<And>u db. fmlookup good u = Some db \<Longrightarrow> db_UID db \<noteq> m"
  shows "\<exists>cd'. removeStandbysInExcess env n mx sync good cd = Inr cd' \<and> core b spec m cd'"
proof -
  let ?f = "\<lambda>(_ :: string, db). bindE (dbType cd (db_UID db)) (\<lambda>t.
      Inr (t = dbTypeStandby \<and> \<not> StringInSlice sync (db_UID db) \<and> fmlookup good (db_UID db) = None))"
  have "is_ok (filterE ?f (entries (cd_DBs cd)))"
    by (auto intro!: is_ok_filterE is_ok_bindE is_ok_dbType_core [OF assms(1)])
  then obtain ds where ds: "filterE ?f (entries (cd_DBs cd)) = Inr ds" by (auto simp: is_ok_iff)
  have "db_UID db \<noteq> m" if "(u, db) \<in> set ds" for u db
    using filterE_eq_Inr [OF ds] that core_simps(7) [OF assms(1)] by (auto simp: res_simps)
  moreover have "db_UID db \<noteq> m" if "(u, db) \<in> set (excessGood ord k sync good)" for u db ord k
    using that assms(2) [of u db] by (auto simp: excessGood_def dest!: in_set_takeD)
  ultimately have "core b spec m (deleteDBs (ds @ excessGood (e_ord env 6) (unat (n - mx)) sync good) cd)"
    by (intro core_delete [OF assms(1)]) (unfold set_append Un_iff, elim disjE)
  then show ?thesis using ds by (simp add: removeStandbysInExcess_def)
qed

lemma updateStandbyCount_safe:
  assumes "core b spec m cd" and "keepers_ok cd" and "\<And>n. m \<noteq> e_uidFn env n"
    and "\<And>u db. fmlookup good u = Some db \<Longrightarrow> db_UID db \<noteq> m"
  shows "\<exists>cd'. updateStandbyCount env spec' m good conv cd = Inr cd' \<and> core b spec m cd'"
proof -
  obtain mdb where "fmlookup (cd_DBs cd) m = Some mdb" using core_master [OF assms(1)] by blast
  then show ?thesis
    using removeStandbysInExcess_safe [OF assms(1,4)] core_addMissingStandbys [OF assms(1-3)]
    by (simp add: updateStandbyCount_def getDB_def Let_def)
qed

lemma followMaster_safe:
  assumes "core b spec m cd"
  shows "\<exists>dbs. fmmapE (\<lambda>_. followMaster m cd) (cd_DBs cd) = Inr dbs \<and> core b spec m (cd\<lparr>cd_DBs := dbs\<rparr>)"
proof -
  have "is_ok (fmmapE (\<lambda>_. followMaster m cd) (cd_DBs cd))"
    by (auto simp: followMaster_def intro!: is_ok_fmmapE is_ok_bindE is_ok_dbType_core [OF assms])
  then obtain dbs where dbs: "fmmapE (\<lambda>_. followMaster m cd) (cd_DBs cd) = Inr dbs" by (auto simp: is_ok_iff)
  obtain mdb where mdb: "fmlookup (cd_DBs cd) m = Some mdb" using core_master [OF assms] by blast
  have "followMaster m cd mdb = Inr mdb"
    using uids_okD [OF core_simps(3) [OF assms] mdb] core_simps(7) [OF assms] by (simp add: followMaster_def)
  with fmmapE_ok [OF dbs mdb] have m: "fmlookup (cd_DBs (cd\<lparr>cd_DBs := dbs\<rparr>)) m = Some mdb" by simp
  have "core b spec m (cd\<lparr>cd_DBs := dbs\<rparr>)"
  proof (rule core_changed [OF assms m])
    show "roleType (role_of mdb) = Inr dbTypeMaster" using core_simps(7) [OF assms] mdb by (simp add: dbType_role)
    fix u db' assume "fmlookup (cd_DBs (cd\<lparr>cd_DBs := dbs\<rparr>)) u = Some db'"
    then obtain db where db: "fmlookup (cd_DBs cd) u = Some db" "followMaster m cd db = Inr db'"
      using fmmapE_backwards [OF dbs] by auto
    then have "role_of db' \<in> {role_of db, (RoleStandby, Some FollowTypeInternal)}"
      by (auto simp: followMaster_def res_simps role_of_def split: if_splits)
    then have "role_ok b spec db'"
      using roles_okD [OF core_simps(6) [OF assms] db(1)] by (auto simp: role_ok_def roleType_def)
    then show "role_ok b spec db' \<and> (\<exists>db. fmlookup (cd_DBs cd) u = Some db \<and> db_UID db' = db_UID db \<and>
        dbs_KeeperUID (db_Spec db') = dbs_KeeperUID (db_Spec db))"
      using db same_db_followMaster [OF db(2)] by (auto simp: same_db_def)
  qed (use core_simps [OF assms] in \<open>simp_all add: defspec_of_def cluster_of_def masterUID_def\<close>)
  with dbs show ?thesis by blast
qed

lemma manageStandbys_safe:
  assumes r: "ready b s spec m cd0 cd" and "keepers_ok cd" and "\<And>n. m \<noteq> e_uidFn env n"
  shows "\<exists>cd'. manageStandbys env s spec' cd0 cur m cd = Inr cd' \<and> core b spec m cd'"
proof -
  obtain cd1 cd2 cd3 where steps: "removeOldMasters m cd = Inr cd1" "removeInvalidDBs m cd1 = Inr cd2"
      "removeUnsyncableDBs s cd0 cd2 = Inr cd3" and r3: "ready b s spec m cd0 cd3"
    using safe_old.runs [OF r] safe_invalid.runs safe_unsyncable.runs by metis
  then have c3: "core b spec m cd3" "convergence_ok s cd3" by (simp_all add: ready_def)
  obtain g f c where gfc: "validStandbysByStatus env s cd3 = Inr (g, f, c)"
    using is_ok_validByStatus [OF c3, of dbTypeStandby env] by (auto simp: validStandbysByStatus_def is_ok_iff)
  have good: "db_UID db \<noteq> m" if "fmlookup g u = Some db" for u db
    using standbys.good_typed [OF core_simps(3) [OF c3(1)] gfc that] core_simps(7) [OF c3(1)]
      standbys.good_uid [OF core_simps(3) [OF c3(1)] gfc that] by auto
  obtain cd4 where cd4: "updateSyncStandbys env s spec' cur m g (cleanInitMode g cd3) = Inr cd4"
      "ready b s spec m cd0 cd4"
    using safe_sync.runs [OF ready_cleanInitMode [OF r3]] by metis
  have "cd_Keepers cd4 = cd_Keepers cd"
    using old_masters.frame [OF steps(1)] invalid_dbs.frame [OF steps(2)] unsyncable_dbs.frame [OF steps(3)]
      sync_standbys.frame [OF cd4(1)] by (simp add: same_frame_def)
  with assms(2) have "keepers_ok cd4" by (simp add: keepers_ok_def)
  moreover have "core b spec m cd4" using cd4(2) by (simp add: ready_def)
  ultimately obtain cd5 where cd5: "updateStandbyCount env spec' m g c cd4 = Inr cd5" "core b spec m cd5"
    using updateStandbyCount_safe [of b spec m cd4 env g spec' c] assms(3) good by blast
  from followMaster_safe [OF cd5(2)] show ?thesis
    using steps gfc cd4(1) cd5(1) by (auto simp: manageStandbys_def Let_def)
qed

section \<open>The other steps\<close>

lemma core_setMasterRole:
  assumes "core b spec m cd"
  shows "core b spec m (setMasterRole spec' m cd)"
proof (cases "def_Role spec' = ClusterRoleMaster")
  case True
  obtain mdb where mdb: "fmlookup (cd_DBs cd) m = Some mdb" using core_master [OF assms] by blast
  let ?db = "mdb\<lparr>db_Spec := (db_Spec mdb)\<lparr>dbs_Role := RoleMaster, dbs_FollowConfig := None\<rparr>\<rparr>"
  have cd': "setMasterRole spec' m cd = cd\<lparr>cd_DBs := fmupd m ?db (cd_DBs cd)\<rparr>"
    using True mdb by (simp add: setMasterRole_def modSpec_def modDB_def)
  have role: "role_of ?db = (RoleMaster, None)" by (simp add: role_of_def)
  show ?thesis unfolding cd'
  proof (rule core_changed [OF assms])
    show "fmlookup (cd_DBs (cd\<lparr>cd_DBs := fmupd m ?db (cd_DBs cd)\<rparr>)) m = Some ?db" by simp
    show "roleType (role_of ?db) = Inr dbTypeMaster" by (simp add: role roleType_def)
    show "role_ok b spec db' \<and> (\<exists>db. fmlookup (cd_DBs cd) u = Some db \<and> db_UID db' = db_UID db \<and>
        dbs_KeeperUID (db_Spec db') = dbs_KeeperUID (db_Spec db))"
      if "fmlookup (cd_DBs (cd\<lparr>cd_DBs := fmupd m ?db (cd_DBs cd)\<rparr>)) u = Some db'" for u db'
      using that mdb role roles_okD [OF core_simps(6) [OF assms], of u db']
      by (auto simp: role_ok_def roleType_def split: if_splits)
  qed (use core_simps [OF assms] in \<open>simp_all add: defspec_of_def cluster_of_def masterUID_def\<close>)
next
  case False
  then show ?thesis using assms by (simp add: setMasterRole_def)
qed

lemma core_proxy [simp]: "core b spec m (cd\<lparr>cd_Proxy := p\<rparr>) \<longleftrightarrow> core b spec m cd"
  by (simp add: core_def defspec_of_def cluster_of_def masterUID_def uids_ok_def dbs_have_keepers_def
      one_db_per_keeper_iff roles_ok_def dbType_def getDB_def)

lemma sameMaster_safe:
  assumes "core b spec m cd0" and "core b spec m cd" and "convergence_ok s cd"
    and "cd_DBs cd = cd_DBs cd0" and "keepers_ok cd" and "cd_Proxy cd = Some p" and "\<And>n. m \<noteq> e_uidFn env n"
  shows "\<exists>cd'. sameMaster env s spec pis cd0 cur m cd = Inr cd' \<and> core b spec m cd'"
proof -
  let ?cd = "setMasterRole spec m (cd\<lparr>cd_Proxy := Some (updateProxy pis m p)\<rparr>)"
  obtain mdb where mdb: "fmlookup (cd_DBs cd) m = Some mdb" using core_master [OF assms(2)] by blast
  have ev: "evolves (cd\<lparr>cd_Proxy := Some (updateProxy pis m p)\<rparr>) ?cd" by simp
  have c: "core b spec m ?cd" using assms(2) by (simp add: core_setMasterRole)
  moreover have "convergence_ok s ?cd"
    using evolves_convergence_ok [OF ev] assms(3) by (simp add: convergence_ok_def)
  ultimately have "ready b s spec m cd0 ?cd"
    using assms(1,4) ev by (fastforce simp: ready_def evolves_def)
  moreover have "keepers_ok ?cd" using assms(5) by (simp add: keepers_ok_def)
  ultimately obtain cd' where "manageStandbys env s spec cd0 cur m ?cd = Inr cd'" "core b spec m cd'"
    using manageStandbys_safe [of b s spec m cd0 ?cd env spec cur] assms(7) by blast
  moreover obtain cs where "dbConvergenceState env s mdb (def_ConvergenceTimeout spec) = Inr cs"
    using is_ok_dbConvergenceState [OF assms(3) core_simps(3) [OF assms(2)] mdb]
    by (auto simp: is_ok_iff)
  ultimately show ?thesis using c mdb assms(6) by (auto simp: sameMaster_def Let_def)
qed

definition standby_has_config :: "ClusterSpec \<Rightarrow> bool" where
  "standby_has_config spec \<longleftrightarrow> (def_Role spec = ClusterRoleStandby \<longrightarrow> cs_StandbyConfig spec \<noteq> None)"

lemma masterRole_safe:
  assumes "standby_has_config spec"
  obtains role fc where "masterRole spec = Inr (role, fc)"
    and "roleType (role, map_option fc_Type fc) = Inr dbTypeMaster"
    and "map_option fc_Type fc = Some FollowTypeExternal \<longrightarrow> cs_StandbyConfig spec \<noteq> None"
  using assms
  by (cases "cs_StandbyConfig spec"; cases "def_Role spec = ClusterRoleStandby")
    (auto simp: standby_has_config_def masterRole_def roleType_def)

lemma role_of_inheritSync:
  "role_of (db\<lparr>db_Spec := inheritSync spec old u (sp\<lparr>dbs_Role := role, dbs_FollowConfig := fc\<rparr>)\<rparr>) =
     (role, map_option fc_Type fc)"
  by (simp add: role_of_def inheritSync_def Let_def)

lemma newMasterElected_cluster:
  "newMasterElected spec cur wanted cd = Inr cd' \<Longrightarrow> cd_Cluster cd = Some c \<Longrightarrow>
     cd_Cluster cd' = Some (c\<lparr>c_Status := (c_Status c)\<lparr>cst_Master := wanted\<rparr>\<rparr>)"
  by (auto simp: newMasterElected_def res_simps Let_def setMaster_def modCluster_def)

lemma newMasterElected_safe:
  assumes "core b spec m cd" and "fmlookup (cd_DBs cd) w = Some wdb" and "w \<noteq> m"
    and "cd_Proxy cd = Some p" and "standby_has_config spec"
  shows "\<exists>cd'. newMasterElected spec m w cd = Inr cd' \<and> core b spec w cd' \<and> fmlookup (cd_DBs cd') m \<noteq> None"
proof -
  obtain role fc where role: "masterRole spec = Inr (role, fc)"
      "roleType (role, map_option fc_Type fc) = Inr dbTypeMaster"
      "map_option fc_Type fc = Some FollowTypeExternal \<longrightarrow> cs_StandbyConfig spec \<noteq> None"
    using masterRole_safe [OF assms(5)] by blast
  obtain mdb where mdb: "fmlookup (cd_DBs cd) m = Some mdb" using core_master [OF assms(1)] by blast
  let ?new = "wdb\<lparr>db_Spec := inheritSync spec mdb (db_UID wdb) ((db_Spec wdb)\<lparr>dbs_Role := role, dbs_FollowConfig := fc\<rparr>)\<rparr>"
  let ?old = "mdb\<lparr>db_Spec := (db_Spec mdb)\<lparr>dbs_Followers := Some []\<rparr>\<rparr>"
  obtain cd' where cd': "newMasterElected spec m w cd = Inr cd'"
    and dbs: "cd_DBs cd' = fmupd w ?new (fmupd m ?old (cd_DBs cd))" and kp: "cd_Keepers cd' = cd_Keepers cd"
    using mdb assms(2-4) role(1)
    by (auto simp: newMasterElected_def Let_def modSpec_def modDB_def)
  obtain c where c: "cd_Cluster cd = Some c"
    using core_simps(1) [OF assms(1)] by (auto simp: defspec_of_def cluster_of_def res_simps)
  have mw: "masterUID cd' = w" and ds: "defspec_of cd' = Inr spec"
    using newMasterElected_cluster [OF cd' c] c core_simps(1) [OF assms(1)]
    by (simp_all add: defspec_of_def cluster_of_def DefSpec_def masterUID_def)
  have ok: "role_ok b spec ?new" "role_ok b spec ?old"
    using role(2,3) roles_okD [OF core_simps(6) [OF assms(1)] mdb]
    by (simp_all add: role_ok_def role_of_inheritSync) (simp add: role_of_def)
  have ku: "dbs_KeeperUID (inheritSync spec mdb u sp) = dbs_KeeperUID sp" for u sp
    by (simp add: inheritSync_def Let_def)
  have "core b spec w cd'"
  proof (rule core_changed [OF assms(1) _ _ ds mw])
    show "fmlookup (cd_DBs cd') w = Some ?new" by (simp add: dbs)
    show "roleType (role_of ?new) = Inr dbTypeMaster" using role(2) by (simp add: role_of_inheritSync)
    show "role_ok b spec db' \<and> (\<exists>db. fmlookup (cd_DBs cd) u = Some db \<and> db_UID db' = db_UID db \<and>
        dbs_KeeperUID (db_Spec db') = dbs_KeeperUID (db_Spec db))"
      if "fmlookup (cd_DBs cd') u = Some db'" for u db'
      using that ok ku mdb assms(2) roles_okD [OF core_simps(6) [OF assms(1)], of u db']
      by (auto simp: dbs split: if_splits)
  qed (simp add: kp)
  then show ?thesis using cd' dbs assms(3) by auto
qed

lemma calm_modSpec:
  assumes "\<And>sp. dbs_KeeperUID (f sp) = dbs_KeeperUID sp \<and> dbs_Role (f sp) = dbs_Role sp \<and>
    dbs_FollowConfig (f sp) = dbs_FollowConfig sp"
  shows "calm cd (modSpec u f cd)"
  using assms by (auto simp: calm_def same_frame_def modSpec_def modDB_def same_db_def role_of_def split: option.splits)

lemma modSpec_lookup: "fmlookup (cd_DBs (modSpec u f cd)) w \<noteq> None \<longleftrightarrow> fmlookup (cd_DBs cd) w \<noteq> None"
  by (auto simp: modSpec_def modDB_def split: option.splits)

lemma updateFollowers_safe:
  assumes "core b spec w cd" and "fmlookup (cd_DBs cd) m \<noteq> None"
  shows "\<exists>cd'. updateFollowers m w cd = Inr cd' \<and> core b spec w cd'"
proof -
  obtain mdb where mdb: "fmlookup (cd_DBs cd) m = Some mdb" using assms(2) by blast
  let ?f = "\<lambda>sp. sp\<lparr>dbs_Followers := Some (followersOf w mdb (cd_DBs cd))\<rparr>"
  obtain wdb where "fmlookup (cd_DBs (modSpec m ?f cd)) w = Some wdb"
    using core_master [OF assms(1)] modSpec_lookup [of m ?f cd w] by auto
  from calm_core [OF calm_modSpec this assms(1)] mdb show ?thesis
    by (simp add: updateFollowers_def)
qed

lemma role_of_dbSpecFromClusterSpec:
  assumes "dbSpecFromClusterSpec spec cd db = Inr db'"
  shows "role_of db' = role_of db"
proof -
  from assms obtain t where "dbType cd (db_UID db) = Inr t" by (auto simp: dbSpecFromClusterSpec_def res_simps Let_def)
  with assms show ?thesis
    by (cases t; cases "dbs_FollowConfig (db_Spec db)")
      (auto simp: dbSpecFromClusterSpec_def res_simps Let_def role_of_def split: if_splits)
qed

lemma is_ok_dbSpecFromClusterSpec:
  assumes "role_ok True spec db" and "is_ok (dbType cd (db_UID db))"
  shows "is_ok (dbSpecFromClusterSpec spec cd db)"
proof (cases "dbs_FollowConfig (db_Spec db)")
  case None
  then show ?thesis using assms(2) by (auto simp: dbSpecFromClusterSpec_def Let_def is_ok_iff)
next
  case (Some fc)
  then show ?thesis
    using assms by (auto simp: dbSpecFromClusterSpec_def Let_def is_ok_iff role_ok_def role_of_def)
qed

lemma external_dbSpecFromClusterSpec:
  assumes "dbSpecFromClusterSpec spec cd db = Inr db'" and "snd (role_of db) = Some FollowTypeExternal"
  shows "cs_StandbyConfig spec \<noteq> None"
  using assms by (auto simp: dbSpecFromClusterSpec_def Let_def role_of_def res_simps)

lemma setDBSpec_total:
  assumes "core True spec w cd"
  shows "is_ok (setDBSpecFromClusterSpec cd)"
proof -
  have "is_ok (fmmapE (\<lambda>_. dbSpecFromClusterSpec spec cd) (cd_DBs cd))"
    using is_ok_dbType_core [OF assms] roles_okD [OF core_simps(6) [OF assms]]
    by (auto intro!: is_ok_fmmapE is_ok_dbSpecFromClusterSpec)
  then show ?thesis using core_simps(1) [OF assms] by (auto simp: setDBSpecFromClusterSpec_def is_ok_iff)
qed

lemma setDBSpec_keeps:
  assumes "core b spec w cd" and "setDBSpecFromClusterSpec cd = Inr cd'"
  shows "core True spec w cd'"
proof -
  from assms(2) obtain dbs where dbs: "fmmapE (\<lambda>_. dbSpecFromClusterSpec spec cd) (cd_DBs cd) = Inr dbs"
    and cd': "cd' = cd\<lparr>cd_DBs := dbs\<rparr>"
    using core_simps(1) [OF assms(1)] by (auto simp: setDBSpecFromClusterSpec_def res_simps)
  have "calm cd (cd\<lparr>cd_DBs := dbs\<rparr>)"
    using fmmapE_backwards [OF dbs] same_db_dbSpecFromClusterSpec role_of_dbSpecFromClusterSpec
    by (fastforce simp: calm_def same_frame_def)
  moreover obtain wdb where "fmlookup (cd_DBs (cd\<lparr>cd_DBs := dbs\<rparr>)) w = Some wdb"
    using core_master [OF assms(1)] fmmapE_ok [OF dbs] by fastforce
  ultimately have c: "core b spec w cd'" unfolding cd' using calm_core assms(1) by blast
  have "role_ok True spec db'" if db': "fmlookup dbs u = Some db'" for u db'
  proof -
    obtain db where db: "dbSpecFromClusterSpec spec cd db = Inr db'" using fmmapE_backwards [OF dbs db'] by blast
    have "role_ok b spec db'" using roles_okD [OF core_simps(6) [OF c]] db' cd' by simp
    then show ?thesis
      using role_of_dbSpecFromClusterSpec [OF db] external_dbSpecFromClusterSpec [OF db] by (simp add: role_ok_def)
  qed
  then have "roles_ok True spec cd'" by (auto simp: roles_ok_def cd')
  with c show ?thesis by (simp add: core_def)
qed

lemma bumpGeneration_simps [simp]:
  "db_UID (bumpGeneration cd u db) = db_UID db" "db_Spec (bumpGeneration cd u db) = db_Spec db"
  "db_Status (bumpGeneration cd u db) = db_Status db" "role_of (bumpGeneration cd u db) = role_of db"
  by (simp_all add: bumpGeneration_def role_of_def split: option.splits)

lemma core_updateGenerations:
  assumes "core b spec w cd"
  shows "core b spec w (updateGenerations cd0 cd)"
proof -
  obtain wdb where "fmlookup (cd_DBs cd) w = Some wdb" using core_master [OF assms] by blast
  then have "fmlookup (cd_DBs (updateGenerations cd0 cd)) w = Some (bumpGeneration cd0 w wdb)"
    by (simp add: updateGenerations_def)
  then show ?thesis
  proof (rule core_from [OF assms])
    fix u db' assume "fmlookup (cd_DBs (updateGenerations cd0 cd)) u = Some db'"
    then show "\<exists>db. fmlookup (cd_DBs cd) u = Some db \<and> db_UID db' = db_UID db \<and>
        dbs_KeeperUID (db_Spec db') = dbs_KeeperUID (db_Spec db) \<and> role_of db' = role_of db"
      by (auto simp: updateGenerations_def)
  qed (use core_simps(1,2) [OF assms] in \<open>simp_all add: defspec_of_def cluster_of_def masterUID_def\<close>)
qed

lemma core_removeDeadKeepers:
  assumes "core b spec m cd" and "keepers_ok cd"
  shows "core b spec m (removeDeadKeepers env spec' cd cd)" and "keepers_ok (removeDeadKeepers env spec' cd cd)"
proof -
  have kept: "fmlookup (cd_Keepers (removeDeadKeepers env spec' cd cd)) (dbs_KeeperUID (db_Spec db)) \<noteq> None"
    if "fmlookup (cd_DBs cd) u = Some db" for u db
    using that dbs_have_keepersD [OF core_simps(4) [OF assms(1)] that] assms(2)
    by (auto simp: removeDeadKeepers_def FindDB_None_iff keepers_ok_def image_iff)
  then have "dbs_have_keepers (removeDeadKeepers env spec' cd cd)"
    unfolding dbs_have_keepers_def by (intro fmpredI) (use kept in auto)
  then show "core b spec m (removeDeadKeepers env spec' cd cd)"
    using core_simps [OF assms(1)]
    by (simp add: core_def defspec_of_def cluster_of_def masterUID_def one_db_per_keeper_iff roles_ok_def
        dbType_def getDB_def)
  show "keepers_ok (removeDeadKeepers env spec' cd cd)"
    using assms(2) unfolding keepers_ok_def by (intro fmpredI) (auto dest: removeDeadKeepers_lookup)
qed

section \<open>updateCluster in the normal phase\<close>

definition proxy_ok :: "ClusterData \<Rightarrow> bool" where
  "proxy_ok cd \<longleftrightarrow>
     (case cd_Proxy cd of None \<Rightarrow> False | Some p \<Rightarrow> ps_MasterDBUID (p_Spec p) \<in> {'''', masterUID cd})"

text \<open>UIDs are drawn at random (\<^verbatim>\<open>common.UID\<close>): they are not empty and not in use.\<close>

definition fresh_uids :: "Env \<Rightarrow> ClusterData \<Rightarrow> bool" where
  "fresh_uids env cd \<longleftrightarrow> (\<forall>n. e_uidFn env n \<noteq> '''' \<and> fmlookup (cd_DBs cd) (e_uidFn env n) = None)"

lemma normal_safe:
  assumes core: "core b spec (masterUID cd) cd" and "phaseOf cd = Some ClusterPhaseNormal"
    and "keepers_ok cd" and "proxy_ok cd" and "convergence_ok s cd" and "standby_has_config spec"
    and "fresh_uids env cd"
  shows "b \<Longrightarrow> is_ok (updateCluster env s cd pis)"
    and "updateCluster env s cd pis = Inr cd' \<Longrightarrow> core True spec (masterUID cd') cd'"
proof -
  let ?m = "masterUID cd" and ?cd = "removeDeadKeepers env spec cd cd"
  note c = core_removeDeadKeepers [OF core assms(3), of env spec]
  obtain cur where cur: "fmlookup (cd_DBs cd) ?m = Some cur" using core_master [OF core] by blast
  obtain p where p: "cd_Proxy cd = Some p" using assms(4) by (auto simp: proxy_ok_def split: option.splits)
  have conv: "convergence_ok s ?cd" using assms(5) by (simp add: convergence_ok_def)
  have fresh: "?m \<noteq> e_uidFn env n" for n using assms(7) cur by (metis fresh_uids_def option.distinct(1))
  obtain w where w: "electMaster env s spec ?cd ?m cur = Inr w"
    using is_ok_electMaster [OF c(1) conv, of cur env spec] cur by (auto simp: is_ok_iff)
  obtain cd1 where cd1: "(if ?m \<noteq> w then newMasterElected spec ?m w ?cd
        else sameMaster env s spec pis cd cur ?m ?cd) = Inr cd1" "core b spec w cd1" "fmlookup (cd_DBs cd1) ?m \<noteq> None"
  proof (cases "?m = w")
    case True
    then show ?thesis
      using sameMaster_safe [OF core c(1) conv _ c(2), of p env pis cur] p fresh that core_master by fastforce
  next
    case False
    then obtain wdb where "fmlookup (cd_DBs ?cd) w = Some wdb"
      using electMaster_cases [OF w] core_simps(3) [OF c(1)] by (auto simp: candidate_def)
    then show ?thesis
      using newMasterElected_safe [OF c(1), of w wdb p] False p assms(6) that by auto
  qed
  obtain cd2 where cd2: "updateFollowers ?m w cd1 = Inr cd2" "core b spec w cd2"
    using updateFollowers_safe [OF cd1(2,3)] by blast
  obtain cl where cl: "cd_Cluster cd = Some cl" "DefSpec cl = Inr spec" "cst_Master (c_Status cl) = ?m"
    "cst_Phase (c_Status cl) = ClusterPhaseNormal"
    using core_simps(1) [OF core] assms(2)
    by (auto simp: defspec_of_def cluster_of_def res_simps phaseOf_def masterUID_def)
  have run: "updateCluster env s cd pis = bindE (setDBSpecFromClusterSpec cd2) (\<lambda>newcd. Inr (updateGenerations cd newcd))"
    using cl w cd1(1) cd2(1) cur by (simp add: updateCluster_def updateClusterNormal_def cluster_of_def Let_def)
  show "is_ok (updateCluster env s cd pis)" if b
    unfolding run using setDBSpec_total [of spec w cd2] cd2(2) that by (auto intro: is_ok_bindE)
  show "core True spec (masterUID cd') cd'" if "updateCluster env s cd pis = Inr cd'"
  proof -
    from that obtain cd3 where cd3: "setDBSpecFromClusterSpec cd2 = Inr cd3" "cd' = updateGenerations cd cd3"
      by (auto simp: run res_simps)
    have "core True spec w cd'" unfolding cd3(2) by (rule core_updateGenerations [OF setDBSpec_keeps [OF cd2(2) cd3(1)]])
    then show ?thesis using core_simps(2) by simp
  qed
qed

section \<open>updateCluster during initialization\<close>

lemma WithDefaults_fields [simp]:
  "def_Role (WithDefaults s) = def_Role s" "cs_StandbyConfig (WithDefaults s) = cs_StandbyConfig s"
  "cs_InitMode (WithDefaults s) = cs_InitMode s" "cs_ExistingConfig (WithDefaults s) = cs_ExistingConfig s"
  by (simp_all add: WithDefaults_def def_Role_def)

lemma Validate_spec:
  assumes "Validate s = None"
  shows "standby_has_config (WithDefaults s)"
    and "cs_InitMode s \<in> {Some ClusterInitModeNew, Some ClusterInitModePITR} \<or>
      cs_InitMode s = Some ClusterInitModeExisting \<and> cs_ExistingConfig s \<noteq> None"
  using assms
  by (auto simp: Validate_iff valid_modes_def standby_has_config_def
      split: option.splits ClusterInitMode.splits ClusterRole.splits)

lemma Validate_PGParameters [simp]: "Validate (s\<lparr>cs_PGParameters := ps\<rparr>) = None \<longleftrightarrow> Validate s = None"
proof -
  have "valid_modes (s\<lparr>cs_PGParameters := ps\<rparr>) = valid_modes s"
    by (simp add: valid_modes_def def_field_defs split: option.split ClusterInitMode.split ClusterRole.split)
  then show ?thesis by (simp add: Validate_iff valid_numbers_def valid_lists_def def_field_defs)
qed

text \<open>The two states of an initialization: no database, or one chosen for being the master.\<close>

definition initial :: "bool \<Rightarrow> ClusterSpec \<Rightarrow> ClusterData \<Rightarrow> bool" where
  "initial b spec cd \<longleftrightarrow>
     masterUID cd = '''' \<and> cd_DBs cd = fmempty \<and> defspec_of cd = Inr spec \<or>
     masterUID cd \<noteq> '''' \<and> core b spec (masterUID cd) cd"

text \<open>
  An update of the specification may remove the configuration that a database with an external master needs. \<open>b\<close> says
  that this has not happened: \<open>wf_cd\<close> is what a check of a sentinel relies on and writes, \<open>sound_cd\<close> what
  is in the store.
\<close>

definition wf_at :: "bool \<Rightarrow> ClusterData \<Rightarrow> bool" where
  "wf_at b cd \<longleftrightarrow>
     (case cd_Cluster cd of
        None \<Rightarrow> False
      | Some c \<Rightarrow>
          (case c_Spec c of
             None \<Rightarrow> False
           | Some spec \<Rightarrow>
               Validate spec = None \<and> keepers_ok cd \<and> proxy_ok cd \<and> fmlookup (cd_DBs cd) '''' = None \<and>
               (case cst_Phase (c_Status c) of
                  ClusterPhaseNormal \<Rightarrow> core b (WithDefaults spec) (masterUID cd) cd
                | ClusterPhaseInitializing \<Rightarrow>
                    initial b (WithDefaults spec) cd \<and> map_option (\<lambda>p. ps_MasterDBUID (p_Spec p)) (cd_Proxy cd) = Some ''''
                | ClusterPhaseOther _ \<Rightarrow> False)))"

abbreviation wf_cd :: "ClusterData \<Rightarrow> bool" where
  "wf_cd \<equiv> wf_at True"

abbreviation sound_cd :: "ClusterData \<Rightarrow> bool" where
  "sound_cd \<equiv> wf_at False"

lemma setDBSpec_empty:
  "cd_DBs cd = fmempty \<Longrightarrow> defspec_of cd = Inr spec \<Longrightarrow> \<exists>cd'. setDBSpecFromClusterSpec cd = Inr cd' \<and>
     same_frame cd cd' \<and> cd_DBs cd' = fmempty"
proof -
  assume "cd_DBs cd = fmempty" "defspec_of cd = Inr spec"
  moreover have "entries (fmempty :: DBs) = []"
    by (simp add: entries_def sorted_list_of_fmap_def sorted_list_of_fset.rep_eq)
  ultimately show ?thesis by (simp add: setDBSpecFromClusterSpec_def fmmapE_def same_frame_def)
qed

lemma core_addMasterDB:
  assumes "defspec_of cd = Inr spec" and "cd_DBs cd = fmempty" and "keepers_ok cd"
    and "fmlookup (cd_Keepers cd) ku = Some k" and "dbs_KeeperUID sp = k_UID k" and "standby_has_config spec"
    and "masterRole spec = Inr (dbs_Role sp, dbs_FollowConfig sp) \<or>
      dbs_Role sp = RoleMaster \<and> dbs_FollowConfig sp = None"
  shows "core b spec u (addMasterDB u sp cd)"
proof -
  let ?db = "newDB u sp"
  obtain c where c: "cd_Cluster cd = Some c" "DefSpec c = Inr spec"
    using assms(1) by (auto simp: defspec_of_def cluster_of_def res_simps)
  have cd': "cd_DBs (addMasterDB u sp cd) = fmupd u ?db fmempty"
      "cd_Keepers (addMasterDB u sp cd) = cd_Keepers cd" "masterUID (addMasterDB u sp cd) = u"
      "defspec_of (addMasterDB u sp cd) = Inr spec"
    using c assms(2)
    by (simp_all add: addMasterDB_def setMaster_def modCluster_def masterUID_def defspec_of_def cluster_of_def DefSpec_def)
  obtain role fc where "masterRole spec = Inr (role, fc)"
      "roleType (role, map_option fc_Type fc) = Inr dbTypeMaster"
      "map_option fc_Type fc = Some FollowTypeExternal \<longrightarrow> cs_StandbyConfig spec \<noteq> None"
    using masterRole_safe [OF assms(6)] by blast
  with assms(7) have "roleType (role_of ?db) = Inr dbTypeMaster \<and> role_ok b spec ?db"
    by (elim disjE) (simp_all add: role_ok_def role_of_def newDB_def roleType_def)
  moreover have "fmlookup (cd_Keepers cd) (dbs_KeeperUID (db_Spec ?db)) = Some k"
    using assms(3-5) by (auto simp: newDB_def keepers_ok_def)
  ultimately show ?thesis
    by (auto simp: core_def cd' uids_ok_def dbs_have_keepers_def one_db_per_keeper_iff roles_ok_def
        dbType_role newDB_def split: if_splits)
qed

lemma core_cluster:
  assumes "core b spec m cd" and "cd_DBs cd' = cd_DBs cd" and "cd_Keepers cd' = cd_Keepers cd"
    and "defspec_of cd' = Inr spec'" and "masterUID cd' = m" and "cs_StandbyConfig spec' = cs_StandbyConfig spec"
  shows "core b spec' m cd'"
proof -
  have "role_ok b spec' = role_ok b spec" using assms(6) by (simp add: role_ok_def fun_eq_iff)
  then show ?thesis
    using core_simps [OF assms(1)] assms(2-5)
    by (simp add: core_def uids_ok_def dbs_have_keepers_def one_db_per_keeper_iff roles_ok_def
        dbType_def getDB_def)
qed

lemma core_dbInitialized:
  assumes "core b (WithDefaults spec) m cd" and "cd_Cluster cd = Some c" and "c_Spec c = Some spec"
  obtains c' spec' where "cd_Cluster (dbInitialized spec1 m db cd) = Some c'" and "c_Spec c' = Some spec'"
    and "cst_Phase (c_Status c') = ClusterPhaseNormal" and "Validate spec' = None \<longleftrightarrow> Validate spec = None"
    and "core b (WithDefaults spec') m (dbInitialized spec1 m db cd)"
    and "masterUID (dbInitialized spec1 m db cd) = m"
proof -
  let ?f = "\<lambda>sp. sp\<lparr>dbs_InitMode := DBInitModeNone, dbs_IncludeConfig := False\<rparr>"
  let ?cd1 = "modSpec m ?f cd" and ?cd2 = "dbInitialized spec1 m db cd"
  define spec' where "spec' = (if def_MergePgParameters spec1
      then spec\<lparr>cs_PGParameters := st_PGParameters (db_Status db)\<rparr> else spec)"
  define c' where "c' = c\<lparr>c_Spec := Some spec', c_Status := (c_Status c)\<lparr>cst_Phase := ClusterPhaseNormal\<rparr>\<rparr>"
  have cl: "cd_Cluster ?cd2 = Some c'"
    using assms(2,3) by (simp add: dbInitialized_def Let_def setPhase_def modCluster_def c'_def spec'_def)
  have fr: "cd_DBs ?cd2 = cd_DBs ?cd1" "cd_Keepers ?cd2 = cd_Keepers ?cd1"
    by (simp_all add: dbInitialized_def Let_def setPhase_def modCluster_def)
  obtain mdb where "fmlookup (cd_DBs ?cd1) m = Some mdb"
    using core_master [OF assms(1)] modSpec_lookup [of m ?f cd m] by auto
  then have c1: "core b (WithDefaults spec) m ?cd1" using calm_core [OF calm_modSpec _ assms(1)] by simp
  have m: "masterUID ?cd2 = m"
    using cl core_simps(2) [OF assms(1)] assms(2) by (simp add: masterUID_def c'_def)
  moreover have "core b (WithDefaults spec') m ?cd2"
    using cl by (intro core_cluster [OF c1 fr _ m])
      (simp_all add: defspec_of_def cluster_of_def DefSpec_def c'_def spec'_def)
  ultimately show ?thesis using that [OF cl] by (simp add: c'_def spec'_def)
qed

text \<open>A step of the initialization leads to one of its two states, or to the normal phase.\<close>

lemma init_step_safe:
  assumes "init_step env (WithDefaults spec) (masterUID cd) cd cd2" and "cd_Cluster cd = Some c"
    and "c_Spec c = Some spec" and "cst_Phase (c_Status c) = ClusterPhaseInitializing"
    and "initial b (WithDefaults spec) cd" and "keepers_ok cd" and "Validate spec = None" and "fresh_uids env cd"
    and "fmlookup (cd_DBs cd) '''' = None"
  obtains c2 spec2 where "cd_Cluster cd2 = Some c2" and "c_Spec c2 = Some spec2" and "Validate spec2 = None"
    and "cst_Phase (c_Status c2) \<in> {ClusterPhaseInitializing, ClusterPhaseNormal}"
    and "initial b (WithDefaults spec2) cd2"
    and "cst_Phase (c_Status c2) = ClusterPhaseNormal \<Longrightarrow> masterUID cd2 \<noteq> ''''"
    and "cd_Keepers cd2 = cd_Keepers cd" and "cd_Proxy cd2 = cd_Proxy cd"
  using assms(1)
proof cases
  case (choose ku k sp)
  have e: "cd_DBs cd = fmempty" "defspec_of cd = Inr (WithDefaults spec)"
    using assms(5) choose(2) by (auto simp: initial_def)
  let ?c = "c\<lparr>c_Status := (c_Status c)\<lparr>cst_Master := e_uidFn env 0\<rparr>\<rparr>"
  have cl: "cd_Cluster cd2 = Some ?c" using assms(2) by (simp add: choose(1) addMasterDB_def setMaster_def modCluster_def)
  moreover have "core b (WithDefaults spec) (e_uidFn env 0) cd2"
    unfolding choose(1) by (rule core_addMasterDB [OF e(2,1) assms(6) choose(3,4) Validate_spec(1) [OF assms(7)] choose(5)])
  moreover have "masterUID cd2 = e_uidFn env 0" using cl by (simp add: masterUID_def)
  ultimately show ?thesis
    using that [of ?c spec] assms(3,4,7,8)
    by (simp add: initial_def fresh_uids_def) (simp add: choose(1) addMasterDB_def)
next
  case (initialized db)
  then have "masterUID cd \<noteq> ''''" using assms(9) by auto
  with assms(5) have core: "core b (WithDefaults spec) (masterUID cd) cd" by (simp add: initial_def)
  from core_dbInitialized [OF core assms(2,3), of "WithDefaults spec" db]
  obtain c' spec' where "cd_Cluster cd2 = Some c'" "c_Spec c' = Some spec'"
    "cst_Phase (c_Status c') = ClusterPhaseNormal" "Validate spec' = None"
    "core b (WithDefaults spec') (masterUID cd) cd2" "masterUID cd2 = masterUID cd"
    using assms(7) initialized(1) by metis
  then show ?thesis
    using that [of c' spec'] \<open>masterUID cd \<noteq> ''''\<close>
    by (simp add: initial_def) (simp add: initialized(1) dbInitialized_def Let_def setPhase_def modCluster_def)
next
  case failed
  let ?c = "c\<lparr>c_Status := (c_Status c)\<lparr>cst_Master := ''''\<rparr>\<rparr>"
  have "cd_Cluster cd2 = Some ?c" using assms(2) by (simp add: failed(1) initFailed_def setMaster_def modCluster_def)
  then show ?thesis
    using that [of ?c spec] assms(3,4,7)
    by (simp add: initial_def masterUID_def defspec_of_def cluster_of_def DefSpec_def)
      (simp add: failed(1) initFailed_def)
next
  case (waiting db)
  then show ?thesis using that [of c spec] assms(2-5,7) by simp
qed

lemma initial_finish:
  assumes "initial b spec cd"
  shows "b \<Longrightarrow> is_ok (setDBSpecFromClusterSpec cd)"
    and "setDBSpecFromClusterSpec cd = Inr cd' \<Longrightarrow>
      same_frame cd cd' \<and> initial True spec (updateGenerations cd0 cd') \<and> masterUID cd' = masterUID cd"
proof -
  consider (empty) "masterUID cd = ''''" "cd_DBs cd = fmempty" "defspec_of cd = Inr spec"
    | (chosen) "masterUID cd \<noteq> ''''" "core b spec (masterUID cd) cd" using assms by (auto simp: initial_def)
  then have "(b \<longrightarrow> is_ok (setDBSpecFromClusterSpec cd)) \<and> (setDBSpecFromClusterSpec cd = Inr cd' \<longrightarrow>
      same_frame cd cd' \<and> initial True spec (updateGenerations cd0 cd') \<and> masterUID cd' = masterUID cd)"
  proof cases
    case empty
    from setDBSpec_empty [OF empty(2,3)] obtain cd3 where cd3: "setDBSpecFromClusterSpec cd = Inr cd3" "same_frame cd cd3"
      "cd_DBs cd3 = fmempty" by blast
    moreover have m: "masterUID cd3 = masterUID cd" using cd3(2) by (simp add: masterUID_def same_frame_def)
    moreover have "cd_DBs (updateGenerations cd0 cd3) = fmempty"
      using cd3(3) by (intro fmap_ext) (simp add: updateGenerations_def)
    then have "initial True spec (updateGenerations cd0 cd3)"
      using cd3 empty by (simp add: initial_def masterUID_def defspec_of_def cluster_of_def same_frame_def)
    ultimately show ?thesis by (auto simp: is_ok_def)
  next
    case chosen
    have "initial True spec (updateGenerations cd0 cd') \<and> masterUID cd' = masterUID cd \<and> same_frame cd cd'"
      if "setDBSpecFromClusterSpec cd = Inr cd'"
    proof -
      note c = setDBSpec_keeps [OF chosen(2) that]
      have "masterUID cd' = masterUID cd" using core_simps(2) [OF c] .
      then show ?thesis
        using core_updateGenerations [OF c, of cd0] chosen(1) db_specs.frame [OF that] by (simp add: initial_def masterUID_def)
    qed
    then show ?thesis using setDBSpec_total chosen(2) by (cases b) auto
  qed
  then show "b \<Longrightarrow> is_ok (setDBSpecFromClusterSpec cd)" and "setDBSpecFromClusterSpec cd = Inr cd' \<Longrightarrow>
      same_frame cd cd' \<and> initial True spec (updateGenerations cd0 cd') \<and> masterUID cd' = masterUID cd" by blast+
qed

lemma no_panic_findInitialKeeper:
  assumes "\<And>n. 0 < n \<Longrightarrow> e_randFn env n < n"
  shows "no_panic (findInitialKeeper env cd)"
proof -
  have "e_randFn env (map_len (cd_Keepers cd)) < map_len (cd_Keepers cd) \<Longrightarrow>
      fmlookup (cd_Keepers cd) (sort (keys_of (cd_Keepers cd)) ! e_randFn env (map_len (cd_Keepers cd))) \<noteq> None"
    using nth_mem [of "e_randFn env (map_len (cd_Keepers cd))" "sort (keys_of (cd_Keepers cd))"]
    by (simp add: fmlookup_dom'_iff del: nth_mem)
  then show ?thesis
    using assms [of "map_len (cd_Keepers cd)"]
    by (auto simp: findInitialKeeper_def Let_def)
qed

lemma no_panic_is_ok: "is_ok m \<Longrightarrow> (\<And>x. m = Inr x \<Longrightarrow> no_panic (f x)) \<Longrightarrow> no_panic (bindE m f)"
  by (cases m) auto

lemma updateClusterInit_no_panic:
  assumes "initial b (WithDefaults spec) cd" and "Validate spec = None" and "convergence_ok s cd"
    and "\<And>n. 0 < n \<Longrightarrow> e_randFn env n < n"
  shows "no_panic (updateClusterInit env s (WithDefaults spec) (masterUID cd) cd)"
proof -
  note v = Validate_spec [OF assms(2)] and fk = no_panic_findInitialKeeper [OF assms(4), of cd]
  obtain r where r: "masterRole (WithDefaults spec) = Inr r" using masterRole_safe [OF v(1)] by metis
  have db: "\<exists>db. fmlookup (cd_DBs cd) (masterUID cd) = Some db \<and>
      (\<forall>t. is_ok (dbConvergenceState env s db t))" if "masterUID cd \<noteq> ''''"
    using assms(1,3) that core_master [of b "WithDefaults spec" "masterUID cd" cd]
      is_ok_dbConvergenceState [OF assms(3)] core_simps(3) by (auto simp: initial_def)
  have "no_panic (initModeNew env s (WithDefaults spec) (masterUID cd) cd)"
    using db fk by (auto simp: initModeNew_def getDB_def intro!: no_panic_is_ok
        split: sum.splits go_error.splits ConvergenceState.splits)
  moreover have "no_panic (initModePITR env s (WithDefaults spec) (masterUID cd) cd)"
    using db fk r by (auto simp: initModePITR_def getDB_def intro!: no_panic_is_ok
        split: sum.splits go_error.splits ConvergenceState.splits prod.splits)
  moreover have "no_panic (initModeExisting env s (WithDefaults spec) (masterUID cd) cd)"
    if "cs_ExistingConfig spec \<noteq> None"
    using db that
    by (cases "masterUID cd = ''''") (auto simp: initModeExisting_def getDB_def intro!: no_panic_is_ok split: option.split)
  ultimately show ?thesis using v(2) by (auto simp: updateClusterInit_def)
qed

section \<open>The invariant\<close>

lemma core_sound: "core b spec m cd \<Longrightarrow> core False spec m cd"
  by (auto simp: core_def roles_ok_def role_ok_def intro!: fmpredI dest: fmpredD)

lemma wf_sound: "wf_at b cd \<Longrightarrow> sound_cd cd"
  by (auto simp: wf_at_def initial_def intro: core_sound split: option.splits ClusterPhase.splits)

lemma wf_cdD:
  assumes "wf_at b cd"
  shows "\<exists>c spec. cd_Cluster cd = Some c \<and> c_Spec c = Some spec \<and> Validate spec = None \<and>
    keepers_ok cd \<and> proxy_ok cd \<and> fmlookup (cd_DBs cd) '''' = None \<and>
    (if phaseOf cd = Some ClusterPhaseNormal then core b (WithDefaults spec) (masterUID cd) cd
     else cst_Phase (c_Status c) = ClusterPhaseInitializing \<and> initial b (WithDefaults spec) cd \<and>
       map_option (\<lambda>p. ps_MasterDBUID (p_Spec p)) (cd_Proxy cd) = Some '''')"
proof -
  from assms obtain c spec where "cd_Cluster cd = Some c" "c_Spec c = Some spec"
    by (auto simp: wf_at_def split: option.splits)
  with assms show ?thesis
    by (cases "cst_Phase (c_Status c)") (simp_all add: wf_at_def phaseOf_def)
qed

lemma grows_no_empty:
  assumes "grows env cd cd'" and "fresh_uids env cd" and "fmlookup (cd_DBs cd) '''' = None"
  shows "fmlookup (cd_DBs cd') '''' = None"
proof (rule ccontr)
  assume "fmlookup (cd_DBs cd') '''' \<noteq> None"
  then obtain db where "fmlookup (cd_DBs cd') '''' = Some db" by blast
  with assms(1,3) have "'''' \<in> range (e_uidFn env)" by (fastforce simp: grows_def)
  then show False using assms(2) by (auto simp: fresh_uids_def) metis
qed

lemma updateCluster_init:
  assumes "wf_at b cd" and "convergence_ok s cd" and "fresh_uids env cd"
    and "phaseOf cd \<noteq> Some ClusterPhaseNormal"
  shows "updateCluster env s cd pis = Inr cd' \<Longrightarrow> wf_cd cd'"
    and "b \<Longrightarrow> (\<And>n. 0 < n \<Longrightarrow> e_randFn env n < n) \<Longrightarrow> no_panic (updateCluster env s cd pis)"
proof -
  from assms(1) obtain c spec where c: "cd_Cluster cd = Some c" "c_Spec c = Some spec" "Validate spec = None"
    and k: "keepers_ok cd" and empty: "fmlookup (cd_DBs cd) '''' = None"
    and ph: "cst_Phase (c_Status c) = ClusterPhaseInitializing" and ini: "initial b (WithDefaults spec) cd"
    and p: "map_option (\<lambda>p. ps_MasterDBUID (p_Spec p)) (cd_Proxy cd) = Some ''''"
    using wf_cdD [OF assms(1)] assms(4) by auto
  have m: "cst_Master (c_Status c) = masterUID cd" using c by (simp add: masterUID_def)
  have run: "updateCluster env s cd pis =
      bindE (updateClusterInit env s (WithDefaults spec) (masterUID cd) cd) (\<lambda>newcd.
      bindE (setDBSpecFromClusterSpec newcd) (\<lambda>newcd. Inr (updateGenerations cd newcd)))"
    using c ph m by (simp add: updateCluster_def cluster_of_def DefSpec_def)
  have step: "(b \<longrightarrow> is_ok (setDBSpecFromClusterSpec cd2)) \<and>
      (\<forall>cd3. setDBSpecFromClusterSpec cd2 = Inr cd3 \<longrightarrow> wf_cd (updateGenerations cd cd3))"
    if cd2: "updateClusterInit env s (WithDefaults spec) (masterUID cd) cd = Inr cd2" for cd2
  proof -
    from init_step_safe [OF updateClusterInit_step [OF cd2] c(1,2) ph ini k c(3) assms(3) empty]
    obtain c2 spec2 where c2: "cd_Cluster cd2 = Some c2" "c_Spec c2 = Some spec2" "Validate spec2 = None"
      "cst_Phase (c_Status c2) \<in> {ClusterPhaseInitializing, ClusterPhaseNormal}"
      and i2: "initial b (WithDefaults spec2) cd2"
      and m2: "cst_Phase (c_Status c2) = ClusterPhaseNormal \<Longrightarrow> masterUID cd2 \<noteq> ''''"
      and fr: "cd_Keepers cd2 = cd_Keepers cd" "cd_Proxy cd2 = cd_Proxy cd" by metis
    have "wf_cd (updateGenerations cd cd3)" if fin: "setDBSpecFromClusterSpec cd2 = Inr cd3" for cd3
    proof -
      have cd3: "setDBSpecFromClusterSpec cd2 = Inr cd3"
        "same_frame cd2 cd3" "initial True (WithDefaults spec2) (updateGenerations cd cd3)" "masterUID cd3 = masterUID cd2"
        using initial_finish(2) [OF i2 fin, of cd] fin by blast+
      let ?cd' = "updateGenerations cd cd3"
      have g: "grows env cd cd3"
        using grows_evolves [OF updateClusterInit_grows [OF cd2] db_specs.evolution [OF cd3(1)]] .
      have e': "fmlookup (cd_DBs ?cd') '''' = None"
        using grows_no_empty [OF g assms(3) empty] by (simp add: updateGenerations_def)
      have fr': "cd_Cluster ?cd' = Some c2" "cd_Keepers ?cd' = cd_Keepers cd" "cd_Proxy ?cd' = cd_Proxy cd"
        "masterUID ?cd' = masterUID cd2"
        using cd3(2,4) c2(1) fr by (simp_all add: same_frame_def masterUID_def)
      have "proxy_ok ?cd'" using p fr'(3) by (auto simp: proxy_ok_def)
      moreover have "keepers_ok ?cd'" using k fr'(2) by (simp add: keepers_ok_def)
      moreover have "core True (WithDefaults spec2) (masterUID ?cd') ?cd'" if "cst_Phase (c_Status c2) = ClusterPhaseNormal"
        using cd3(3) m2 [OF that] fr'(4) by (simp add: initial_def)
      ultimately show ?thesis
        using c2(2-4) e' cd3(3) p fr' by (auto simp: wf_at_def)
    qed
    then show ?thesis using initial_finish(1) [OF i2] by blast
  qed
  show "updateCluster env s cd pis = Inr cd' \<Longrightarrow> wf_cd cd'"
    using step by (auto simp: run res_simps)
  show "no_panic (updateCluster env s cd pis)" if b and rand: "\<And>n. 0 < n \<Longrightarrow> e_randFn env n < n"
    unfolding run using updateClusterInit_no_panic [OF ini c(3) assms(2) rand] step \<open>b\<close>
    by (intro no_panic_bindE) (auto simp: is_ok_iff)
qed

lemma updateCluster_frames:
  assumes "updateCluster env s cd pis = Inr cd'" and "phaseOf cd = Some ClusterPhaseNormal"
    and "cd_Cluster cd = Some c"
  shows "\<exists>u. cd_Cluster cd' = Some (c\<lparr>c_Status := (c_Status c)\<lparr>cst_Master := u\<rparr>\<rparr>)"
    and "fmlookup (cd_Keepers cd') k = Some kp \<Longrightarrow> fmlookup (cd_Keepers cd) k = Some kp"
proof -
  from updateCluster_normal [OF assms(1,2)] obtain spec cur wanted cd1 cd2 cd3 where
    r: "(if masterUID cd \<noteq> wanted
          then newMasterElected spec (masterUID cd) wanted (removeDeadKeepers env spec cd cd)
          else sameMaster env s spec pis cd cur (masterUID cd) (removeDeadKeepers env spec cd cd)) = Inr cd1"
    and fin: "updateFollowers (masterUID cd) wanted cd1 = Inr cd2" "setDBSpecFromClusterSpec cd2 = Inr cd3"
      "cd' = updateGenerations cd cd3" by metis
  have "(\<exists>u. cd_Cluster cd1 = Some (c\<lparr>c_Status := (c_Status c)\<lparr>cst_Master := u\<rparr>\<rparr>)) \<and>
      cd_Keepers cd1 = cd_Keepers (removeDeadKeepers env spec cd cd)"
  proof (cases "masterUID cd = wanted")
    case True
    have "\<exists>u. c = c\<lparr>c_Status := (c_Status c)\<lparr>cst_Master := u\<rparr>\<rparr>"
      by (rule exI [of _ "cst_Master (c_Status c)"]) simp
    then show ?thesis
      using True r assms(3) sameMaster_result [of env s spec pis cd cur "masterUID cd"
          "removeDeadKeepers env spec cd cd" cd1] by auto
  next
    case False
    then show ?thesis
      using r assms(3) newMasterElected_cluster [of spec "masterUID cd" wanted "removeDeadKeepers env spec cd cd" cd1 c]
      by (auto simp: newMasterElected_def res_simps Let_def)
  qed
  moreover have eq: "cd_Cluster cd' = cd_Cluster cd1" "cd_Keepers cd' = cd_Keepers cd1"
    using followers.frame [OF fin(1)] db_specs.frame [OF fin(2)] fin(3) by (simp_all add: same_frame_def)
  ultimately show "\<exists>u. cd_Cluster cd' = Some (c\<lparr>c_Status := (c_Status c)\<lparr>cst_Master := u\<rparr>\<rparr>)"
    and "fmlookup (cd_Keepers cd') k = Some kp \<Longrightarrow> fmlookup (cd_Keepers cd) k = Some kp"
    unfolding eq using removeDeadKeepers_lookup [of env spec cd cd k kp] by simp_all
qed

lemma proxy_ok_kept:
  assumes "updateCluster env s cd pis = Inr cd'" and "phaseOf cd = Some ClusterPhaseNormal" and "proxy_ok cd"
  shows "proxy_ok cd'"
proof (rule updateCluster_outcome [OF assms(1,2)])
  fix p assume "cd_Proxy cd = Some p"
    and "cd_Proxy cd' = Some (if masterUID cd' = masterUID cd then updateProxy pis (masterUID cd) p
                              else unsetProxyMaster p)"
  then show ?thesis
    using assms(3) by (auto simp: proxy_ok_def updateProxy_def unsetProxyMaster_def Let_def)
qed

lemma updateCluster_normal_wf:
  assumes "wf_at b cd" and "convergence_ok s cd" and "fresh_uids env cd"
    and "phaseOf cd = Some ClusterPhaseNormal"
  shows "b \<Longrightarrow> \<exists>cd'. updateCluster env s cd pis = Inr cd'"
    and "updateCluster env s cd pis = Inr cd' \<Longrightarrow> wf_cd cd'"
proof -
  from wf_cdD [OF assms(1)] assms(4) obtain c spec where c: "cd_Cluster cd = Some c" "c_Spec c = Some spec"
      "Validate spec = None" and k: "keepers_ok cd" and p: "proxy_ok cd" and e: "fmlookup (cd_DBs cd) '''' = None"
    and core: "core b (WithDefaults spec) (masterUID cd) cd" by auto
  note normal = normal_safe [OF core assms(4) k p assms(2) Validate_spec(1) [OF c(3)] assms(3)]
  show "b \<Longrightarrow> \<exists>cd'. updateCluster env s cd pis = Inr cd'" using normal(1) by (auto simp: is_ok_iff)
  assume run: "updateCluster env s cd pis = Inr cd'"
  note cd' = run normal(2) [OF run]
  note fr = updateCluster_frames [OF cd'(1) assms(4) c(1)]
  from fr(1) obtain u where c': "cd_Cluster cd' = Some (c\<lparr>c_Status := (c_Status c)\<lparr>cst_Master := u\<rparr>\<rparr>)" by blast
  have "keepers_ok cd'"
    using k fr(2) unfolding keepers_ok_def by (intro fmpredI) auto
  moreover have "fmlookup (cd_DBs cd') '''' = None"
    by (rule updateCluster_grows [OF cd'(1)]) (use grows_no_empty [OF _ assms(3) e] in \<open>simp add: updateGenerations_def\<close>)
  moreover have "cst_Phase (c_Status c) = ClusterPhaseNormal" using assms(4) c(1) by (simp add: phaseOf_def)
  ultimately show "wf_cd cd'"
    using c(2,3) c' proxy_ok_kept [OF cd'(1) assms(4) p] cd'(2) by (simp add: wf_at_def)
qed

text \<open>
  On well-formed cluster data \<^verbatim>\<open>updateCluster\<close> never panics, and in the normal phase it always returns
  new cluster data.
\<close>

theorem updateCluster_no_panic:
  assumes "wf_cd cd" and "convergence_ok s cd" and "fresh_uids env cd"
    and "\<And>n. 0 < n \<Longrightarrow> e_randFn env n < n"
  shows "no_panic (updateCluster env s cd pis) \<and>
    (phaseOf cd = Some ClusterPhaseNormal \<longrightarrow> (\<exists>cd'. updateCluster env s cd pis = Inr cd'))"
proof (cases "phaseOf cd = Some ClusterPhaseNormal")
  case True
  then show ?thesis using updateCluster_normal_wf [OF assms(1-3) True, of pis] by auto
next
  case False
  then show ?thesis using updateCluster_init(2) [OF assms(1-3) False TrueI assms(4)] by simp
qed

section \<open>The example is well-formed\<close>

lemma example_cd1_wf: "wf_cd example_cd1" "convergence_ok example_s example_cd1"
  by code_simp+

lemma example_fresh_uids: "fresh_uids example_env example_cd1"
  using example_fresh by (simp add: fresh_uids_def) (simp add: example_env_def)

theorem updateCluster_no_panic_witness:
  "\<exists>cd'. updateCluster example_env example_s example_cd1 fmempty = Inr cd'"
proof -
  have "e_randFn example_env n < n" if "0 < n" for n using that by (simp add: example_env_def)
  then show ?thesis
    using updateCluster_no_panic [OF example_cd1_wf example_fresh_uids, of fmempty] example_cd1_other(2) by blast
qed

end
