(* ===== verification/Sentinel_Sync.thy ===== *)
theory Sentinel_Sync
  imports Sentinel_Invariant
begin

text \<open>
  Which standbys the cluster has and which of them are synchronous: the sections of \<^verbatim>\<open>updateCluster\<close> that
  record what is in sync, choose the synchronous standbys of the master, remove standbys in excess and
  add missing ones, and the choice among the candidates of an election.

  The sets of UIDs of the code (\<^verbatim>\<open>map[string]struct{}\<close>) are followed through the stages of
  \<open>chooseSyncStandbys\<close> by their domains.
\<close>

section \<open>Sets of UIDs\<close>

lemma in_dom: "fmlookup m u \<noteq> None \<longleftrightarrow> u \<in> fmdom' m"
  by (cases "fmlookup m u") (auto simp: fmlookup_dom'_iff)




lemma dom_delete_keys [simp]: "fmdom' (delete_keys ks m) = fmdom' m - set ks"
  by (auto simp: fmlookup_dom'_iff split: if_splits)




lemma addUpTo_step:
  "addUpTo P ac (u # us) sync =
     (if ac \<le> 0 then sync
      else if u \<in> fmdom' sync then addUpTo P ac us sync
      else if P u then addUpTo P (ac - 1) us (fmupd u () sync)
      else addUpTo P ac us sync)"
  using in_dom [of sync u] by simp

declare addUpTo.simps(2) [simp del] addUpTo_step [simp]






section \<open>Choosing the synchronous standbys\<close>





section \<open>Setting up the synchronous standbys\<close>

lemma NoOrder_set: "CompareStringSliceNoOrder a b \<Longrightarrow> set a = set b"
  by (rule uids.same_set)




lemma refreshInSync_known:
  fixes db dbs g
  defines "db' \<equiv> refreshInSync dbs g db"
  shows "set (elems (st_SynchronousStandbys (db_Status db'))) \<subseteq>
      set (elems (dbs_SynchronousStandbys (db_Spec db))) \<inter> set (elems (dbs_SynchronousStandbys (db_Spec db'))) \<inter>
      (set (elems (st_SynchronousStandbys (db_Status db))) \<union> set (elems (st_CurSynchronousStandbys (db_Status db))))"
    and "set (elems (dbs_SynchronousStandbys (db_Spec db'))) \<subseteq> set (elems (dbs_SynchronousStandbys (db_Spec db)))"
proof -
  let ?req = "elems (dbs_SynchronousStandbys (db_Spec db))" and ?kn = "elems (st_SynchronousStandbys (db_Status db))"
  show "set (elems (st_SynchronousStandbys (db_Status db'))) \<subseteq>
      set ?req \<inter> set (elems (dbs_SynchronousStandbys (db_Spec db'))) \<inter>
      (set ?kn \<union> set (elems (st_CurSynchronousStandbys (db_Status db))))"
    using NoOrder_set [of ?kn ?req]
    by (cases "CompareStringSliceNoOrder ?kn ?req") (force simp: db'_def refreshInSync_def Let_def
        CommonElements_filter Difference_filter)+
  show "set (elems (dbs_SynchronousStandbys (db_Spec db'))) \<subseteq> set ?req"
    unfolding db'_def refreshInSync_def Let_def
    by (auto simp: CommonElements_filter Difference_filter simp del: not_None_eq)
qed

lemma updateSyncStandbys_outcome:
  assumes "updateSyncStandbys env s spec cur m good cd = Inr cd'" and "syncRepl spec"
    and "fmlookup (cd_DBs cd) m = Some mdb"
  obtains "fmlookup (cd_DBs cd') m = Some (refreshInSync (cd_DBs cd) good mdb)"
  | n sync where "fmlookup (cd_DBs cd') m = Some (setSyncStandbys n sync (refreshInSync (cd_DBs cd) good mdb))"
  using assms by (auto simp: updateSyncStandbys_def res_simps getDB_def Let_def split: if_splits)

text \<open>
  C26. What is known to be in sync is sound. With synchronous replication the check records a standby as in
  sync (and so as electable) only if the spec of the master already required it, still requires it, and it
  was recorded before or is reported by the running postgres.
\<close>

theorem in_sync_sound:
  assumes "updateSyncStandbys env s spec cur m good cd = Inr cd'" and "syncRepl spec"
    and "fmlookup (cd_DBs cd) m = Some mdb"
  shows "\<exists>mdb'. fmlookup (cd_DBs cd') m = Some mdb' \<and>
    set (elems (st_SynchronousStandbys (db_Status mdb'))) \<subseteq>
      set (elems (dbs_SynchronousStandbys (db_Spec mdb))) \<inter>
      set (elems (dbs_SynchronousStandbys (db_Spec mdb'))) \<inter>
      (set (elems (st_SynchronousStandbys (db_Status mdb))) \<union>
       set (elems (st_CurSynchronousStandbys (db_Status mdb))))"
proof (rule updateSyncStandbys_outcome [OF assms])
  let ?r = "refreshInSync (cd_DBs cd) good mdb"
  assume "fmlookup (cd_DBs cd') m = Some ?r"
  then show ?thesis using refreshInSync_known(1) [of "cd_DBs cd" good mdb] by blast
next
  fix n sync
  let ?r = "refreshInSync (cd_DBs cd) good mdb" and ?n = "setSyncStandbys n sync (refreshInSync (cd_DBs cd) good mdb)"
  assume l: "fmlookup (cd_DBs cd') m = Some ?n"
  have "set (elems (st_SynchronousStandbys (db_Status ?n))) \<subseteq> set (elems (st_SynchronousStandbys (db_Status ?r))) \<inter>
      set (elems (dbs_SynchronousStandbys (db_Spec ?n)))"
    by (auto simp: setSyncStandbys_def Let_def CommonElements_filter)
  then show ?thesis using l refreshInSync_known(1) [of "cd_DBs cd" good mdb] by blast
qed

section \<open>The number of standbys\<close>



lemma excessGood_len: "length (excessGood ord n sync good) \<le> n"
  by (simp add: excessGood_def)

text \<open>
  Removing standbys in excess. No synchronous standby of the master and no other master is removed, and at
  least as many good standbys as the spec allows are left.
\<close>

theorem standbys_removed:
  assumes "removeStandbysInExcess env goodCount mx sync good cd = Inr cd'" and "uids_ok cd"
    and "\<And>u db. fmlookup good u = Some db \<Longrightarrow> fmlookup (cd_DBs cd) u = Some db"
    and "map_len good < 65536" and "goodCount = of_nat (map_len good)" and "mx \<le> goodCount"
  shows "(\<forall>u\<in>set sync. fmlookup (cd_DBs cd') u = fmlookup (cd_DBs cd) u) \<and>
    (\<forall>u. dbType cd u = Inr dbTypeMaster \<and> fmlookup good u = None \<longrightarrow>
       fmlookup (cd_DBs cd') u = fmlookup (cd_DBs cd) u) \<and>
    unat mx \<le> card (fmdom' good \<inter> fmdom' (cd_DBs cd'))"
proof -
  let ?f = "\<lambda>(_ :: string, db). bindE (dbType cd (db_UID db)) (\<lambda>t.
      Inr (t = dbTypeStandby \<and> \<not> StringInSlice sync (db_UID db) \<and> fmlookup good (db_UID db) = None))"
  let ?ex = "excessGood (e_ord env 6) (unat (goodCount - mx)) sync good"
  from assms(1) obtain ds where ds: "filterE ?f (entries (cd_DBs cd)) = Inr ds"
    and cd': "cd' = deleteDBs (ds @ ?ex) cd" by (auto simp: removeStandbysInExcess_def res_simps)
  let ?D = "set (map (\<lambda>(_, db). db_UID db) ds)" and ?E = "set (map (\<lambda>(_, db). db_UID db) ?ex)"
  have D: "u \<notin> set sync \<and> dbType cd u = Inr dbTypeStandby \<and> fmlookup good u = None" if "u \<in> ?D" for u
    using that filterE_eq_Inr [OF ds] by (auto simp: res_simps)
  have E: "u \<notin> set sync \<and> fmlookup good u \<noteq> None" if "u \<in> ?E" for u
    using that uids_okD [OF assms(2)] assms(3) by (fastforce simp: excessGood_def dest!: in_set_takeD)
  have look: "fmlookup (cd_DBs cd') u = (if u \<in> ?D \<union> ?E then None else fmlookup (cd_DBs cd) u)" for u
    by (simp add: cd' deleteDBs_def)
  have "card ?E \<le> map_len good - unat mx"
  proof -
    have "card ?E \<le> length ?ex" by (metis card_length length_map)
    also have "\<dots> \<le> unat (goodCount - mx)" by (rule excessGood_len)
    also have "\<dots> = map_len good - unat mx"
      using assms(4-6) by (simp add: unat_sub unat_of_nat)
    finally show ?thesis .
  qed
  moreover have "fmdom' good - ?E \<subseteq> fmdom' good \<inter> fmdom' (cd_DBs cd')"
    using D assms(3) by (fastforce simp: fmlookup_dom'_iff look)
  then have "card (fmdom' good) - card ?E \<le> card (fmdom' good \<inter> fmdom' (cd_DBs cd'))"
    by (meson card_mono diff_card_le_card_Diff finite_Int finite_fmdom' finite_set le_trans)
  moreover have "unat mx \<le> map_len good"
    using assms(4-6) by (simp add: word_le_nat_alt unat_of_nat)
  ultimately have "unat mx \<le> card (fmdom' good \<inter> fmdom' (cd_DBs cd'))" by simp
  moreover have "u \<notin> ?D \<union> ?E" if "u \<in> set sync" for u using D [of u] E [of u] that by blast
  moreover have "u \<notin> ?D \<union> ?E" if "dbType cd u = Inr dbTypeMaster" "fmlookup good u = None" for u
  proof -
    have "dbType cd u \<noteq> Inr dbTypeStandby" using that(1) by simp
    then show ?thesis using D [of u] E [of u] that(2) by blast
  qed
  ultimately show ?thesis by (simp add: look)
qed

section \<open>The election\<close>

text \<open>The databases that may replace the master \<open>m\<close>.\<close>

definition eligible :: "Env \<Rightarrow> Sentinel \<Rightarrow> ClusterData \<Rightarrow> DB \<Rightarrow> DB \<Rightarrow> bool" where
  "eligible env s cd m db \<longleftrightarrow>
     candidate env s cd m db \<and>
     (dbType cd (db_UID db) = Inr dbTypeStandby \<or>
      dbType cd (db_UID db) = Inr dbTypeMaster \<and> db_UID db \<noteq> db_UID m) \<and>
     (dbs_SynchronousReplication (db_Spec m) \<longrightarrow>
        db_UID db \<in> set (elems (st_SynchronousStandbys (db_Status m))) \<inter>
          set (elems (dbs_SynchronousStandbys (db_Spec m))))"

lemma chooseNewMaster_find:
  "chooseNewMaster m best = find (\<lambda>db. dbs_SynchronousReplication (db_Spec m) \<longrightarrow>
     db_UID db \<in> set (elems (st_SynchronousStandbys (db_Status m))) \<inter>
       set (elems (dbs_SynchronousStandbys (db_Spec m)))) best"
proof (cases best)
  case (Cons b bs)
  show ?thesis
  proof (cases "dbs_SynchronousReplication (db_Spec m)")
    case True
    let ?c = "CommonElements (elems (st_SynchronousStandbys (db_Status m))) (elems (dbs_SynchronousStandbys (db_Spec m)))"
    have c: "set ?c = set (elems (st_SynchronousStandbys (db_Status m))) \<inter>
       set (elems (dbs_SynchronousStandbys (db_Spec m)))" by (auto simp: CommonElements_filter)
    have "find (\<lambda>db. db_UID db \<in> set ?c) best = None" if "?c = []" using that by (simp add: find_None_iff)
    then show ?thesis using True Cons unfolding c [symmetric] by (simp add: chooseNewMaster_def Let_def StringInSlice_iff)
  qed (simp add: chooseNewMaster_def Cons)
qed (simp add: chooseNewMaster_def)

text \<open>
  C28. The election. When the master is not OK and there is an eligible database (a valid, converged and healthy database on the
  master's timeline, not further behind than the spec allows if replication is asynchronous, and in sync if it is synchronous), one
  of these is elected; otherwise the master stays.
\<close>

theorem election_correct:
  assumes "uids_ok cd" and "masterOK env s spec m = Inr False"
    and "electMaster env s spec cd cur m = Inr wanted"
  shows "if \<exists>db. eligible env s cd m db then \<exists>db. wanted = db_UID db \<and> eligible env s cd m db else wanted = cur"
proof -
  from assms(2,3) obtain best where b: "findBestNewMasters (e_ord env 1) (e_ord env 2) env s cd m = Inr best"
    by (auto simp: electMaster_def res_simps)
  let ?P = "\<lambda>db. dbs_SynchronousReplication (db_Spec m) \<longrightarrow>
     db_UID db \<in> set (elems (st_SynchronousStandbys (db_Status m))) \<inter>
       set (elems (dbs_SynchronousStandbys (db_Spec m)))"
  have el: "eligible env s cd m db \<longleftrightarrow> db \<in> set best \<and> ?P db" for db
    using findBestNewMasters_iff [OF assms(1) b, of db] unfolding eligible_def by blast
  have e: "wanted = (case find ?P best of None \<Rightarrow> cur | Some nm \<Rightarrow> db_UID nm)"
    using assms(2,3) b by (simp add: electMaster_def chooseNewMaster_find)
  show ?thesis
  proof (cases "find ?P best")
    case None
    then have "\<not> (\<exists>db. eligible env s cd m db)" using el by (auto simp: find_None_iff)
    then show ?thesis using e None by simp
  next
    case (Some db)
    then have "eligible env s cd m db" using el by (auto simp: find_Some_iff)
    then show ?thesis using e Some by auto
  qed
qed

section \<open>Examples\<close>

text \<open>The example with synchronous replication; \<open>known\<close> is what was recorded as in sync.\<close>

definition sync_spec :: ClusterSpec where
  "sync_spec = example_spec\<lparr>cs_SynchronousReplication := Some True\<rparr>"

definition sync_master :: "string list \<Rightarrow> DB" where
  "sync_master known = example_master\<lparr>
     db_Spec := (db_Spec example_master)\<lparr>dbs_SynchronousReplication := True, dbs_SynchronousStandbys := Some [''db2'']\<rparr>,
     db_Status := (db_Status example_master)\<lparr>st_SynchronousStandbys := Some known,
       st_CurSynchronousStandbys := Some [''db2'']\<rparr>\<rparr>"

definition sync_cd :: "string list \<Rightarrow> ClusterData" where
  "sync_cd known = example_cd\<lparr>cd_Cluster := Some (example_cluster\<lparr>c_Spec := Some sync_spec\<rparr>),
     cd_DBs := fmap_of_list [(''db1'', sync_master known), (''db2'', example_standby)]\<rparr>"

definition sync_run :: "string list \<Rightarrow> ClusterData res" where
  "sync_run known = updateSyncStandbys example_env example_sentinel (WithDefaults sync_spec) (sync_master known) ''db1''
     (fmap_of_list [(''db2'', example_standby)]) (sync_cd known)"


theorem in_sync_sound_witness:
  "\<exists>cd' mdb'. sync_run [''db3''] = Inr cd' \<and> fmlookup (cd_DBs cd') ''db1'' = Some mdb' \<and>
     set (elems (st_SynchronousStandbys (db_Status mdb'))) \<subseteq> {''db2''}"
proof -
  have "is_ok (sync_run [''db3''])" by code_simp
  then obtain cd' where r: "sync_run [''db3''] = Inr cd'" by (auto simp: is_ok_iff)
  have m: "fmlookup (cd_DBs (sync_cd [''db3''])) ''db1'' = Some (sync_master [''db3''])" by (simp add: sync_cd_def)
  have s: "syncRepl (WithDefaults sync_spec)" by code_simp
  have req: "elems (dbs_SynchronousStandbys (db_Spec (sync_master [''db3'']))) = [''db2'']" by code_simp
  from in_sync_sound [OF r [unfolded sync_run_def] s m] r show ?thesis unfolding req by auto
qed



theorem standbys_removed_witness:
  "\<exists>cd'. removeStandbysInExcess example_env 1 0 [''db2''] (fmap_of_list [(''db2'', example_standby)]) example_cd = Inr cd' \<and>
     fmlookup (cd_DBs cd') ''db2'' = Some example_standby"
proof -
  let ?g = "fmap_of_list [(''db2'', example_standby)]"
  have "is_ok (removeStandbysInExcess example_env 1 0 [''db2''] ?g example_cd)" by code_simp
  then obtain cd' where r: "removeStandbysInExcess example_env 1 0 [''db2''] ?g example_cd = Inr cd'"
    by (auto simp: is_ok_iff)
  have g: "fmlookup ?g u = Some db \<Longrightarrow> fmlookup (cd_DBs example_cd) u = Some db" for u db
    using example_facts(4) by (auto split: if_splits)
  have "map_len ?g = 1" by code_simp
  then show ?thesis
    using standbys_removed [OF r example_wf(1) g] r example_facts(4) by auto
qed

theorem election_correct_witness:
  "\<exists>m db. fmlookup (cd_DBs example_cd1) ''db1'' = Some m \<and> eligible example_env example_s example_cd1 m db \<and>
     electMaster example_env example_s (WithDefaults example_spec) example_cd1 ''db1'' m = Inr (db_UID db)"
proof -
  let ?m = "the (fmlookup (cd_DBs example_cd1) ''db1'')"
  have m: "fmlookup (cd_DBs example_cd1) ''db1'' = Some ?m"
    using example_view_dbs(2) [OF example_view_cd1, of "''db1''"] by auto
  have ok: "masterOK example_env example_s (WithDefaults example_spec) ?m = Inr False" by code_simp
  have e: "electMaster example_env example_s (WithDefaults example_spec) example_cd1 ''db1'' ?m = Inr ''db2''"
    by code_simp
  then have "\<exists>db. electMaster example_env example_s (WithDefaults example_spec) example_cd1 ''db1'' ?m = Inr (db_UID db) \<and>
      eligible example_env example_s example_cd1 ?m db"
    using election_correct [OF example_cd1_ok ok e] by (auto split: if_splits)
  then show ?thesis using m by blast
qed

end
