(* ===== verification/Store.thy ===== *)
theory Store
  imports Cluster
begin

text \<open>
  The store of the cluster data (\<^verbatim>\<open>internal/store\<close>): \<^verbatim>\<open>KVBackedStore\<close>
  (\<^verbatim>\<open>kvbacked.go\<close>) on top of the interface \<^verbatim>\<open>KVStore\<close>, and the etcd v3
  implementation of this interface (\<^verbatim>\<open>etcdv3.go\<close>) on top of the etcd client, which is a parameter: a record
  of its calls, with the laws of the documented etcd API as the locale \<open>etcd_client\<close>. The locale
  \<open>kv_store\<close> is the contract of \<^verbatim>\<open>KVStore\<close>; the etcd implementation satisfies it, and the
  compare and swap property of \<^verbatim>\<open>AtomicPutClusterData\<close> is proved from it once.

  A \<^verbatim>\<open>[]byte\<close> that \<^verbatim>\<open>json.Marshal\<close> made is represented by the value
  \<^verbatim>\<open>json.Unmarshal\<close> reads from it.
\<close>

section \<open>Encoding\<close>

text \<open>
  What is left of a value after \<^verbatim>\<open>json.Marshal\<close> and \<^verbatim>\<open>json.Unmarshal\<close>: an empty
  slice or map of a field with \<^verbatim>\<open>omitempty\<close> becomes nil, a field with \<^verbatim>\<open>json:"-"\<close> is
  lost.
\<close>

definition omitempty :: "'a slice \<Rightarrow> 'a slice" where
  "omitempty s = (if elems s = [] then None else s)"

definition omitempty_map :: "('k, 'v) fmap option \<Rightarrow> ('k, 'v) fmap option" where
  "omitempty_map m = (case m of None \<Rightarrow> None | Some f \<Rightarrow> if fmdom f = {||} then None else Some f)"

definition json_ClusterSpec :: "ClusterSpec \<Rightarrow> ClusterSpec" where
  "json_ClusterSpec spec = spec\<lparr>cs_PGParameters := omitempty_map (cs_PGParameters spec)\<rparr>"

definition json_Cluster :: "Cluster \<Rightarrow> Cluster" where
  "json_Cluster c = c\<lparr>c_Spec := map_option json_ClusterSpec (c_Spec c)\<rparr>"

definition json_DB :: "DB \<Rightarrow> DB" where
  "json_DB db = db\<lparr>
     db_Spec := (db_Spec db)\<lparr>dbs_PGParameters := omitempty_map (dbs_PGParameters (db_Spec db))\<rparr>,
     db_Status := (db_Status db)\<lparr>st_PGParameters := omitempty_map (st_PGParameters (db_Status db)),
       st_CurSynchronousStandbys := None\<rparr>\<rparr>"

definition json_Proxy :: "Proxy \<Rightarrow> Proxy" where
  "json_Proxy p = p\<lparr>p_Spec := (p_Spec p)\<lparr>ps_EnabledProxies := omitempty (ps_EnabledProxies (p_Spec p))\<rparr>\<rparr>"

definition json_ClusterData :: "ClusterData \<Rightarrow> ClusterData" where
  "json_ClusterData cd = cd\<lparr>cd_Cluster := map_option json_Cluster (cd_Cluster cd),
     cd_DBs := fmmap json_DB (cd_DBs cd), cd_Proxy := map_option json_Proxy (cd_Proxy cd)\<rparr>"

text \<open>The bytes of a value: its JSON, or something that does not parse.\<close>

datatype 'v bytes = JSON 'v | Bytes string

datatype store_error = ErrKeyNotFound | ErrKeyModified | ErrElectionNoLeader | StoreError string

type_synonym 'a sres = "store_error + 'a"

fun Unmarshal :: "'v bytes \<Rightarrow> 'v sres" where
  "Unmarshal (JSON v) = Inr v"
| "Unmarshal (Bytes b) = Inl (StoreError ''invalid JSON'')"

section \<open>Paths\<close>

text \<open>
  \<^verbatim>\<open>filepath.Clean\<close> and \<^verbatim>\<open>filepath.Join\<close>. \<open>acc\<close> holds the elements so
  far, the last one first.
\<close>

fun split_slash :: "string \<Rightarrow> string \<Rightarrow> string list" where
  "split_slash acc [] = [rev acc]"
| "split_slash acc (c # cs) = (if c = CHR ''/'' then rev acc # split_slash [] cs else split_slash (c # acc) cs)"

fun clean_elems :: "bool \<Rightarrow> string list \<Rightarrow> string list \<Rightarrow> string list" where
  "clean_elems rooted acc [] = rev acc"
| "clean_elems rooted acc (e # es) =
     (if e = '''' \<or> e = ''.'' then clean_elems rooted acc es
      else if e = ''..'' then
        (case acc of
           [] \<Rightarrow> clean_elems rooted (if rooted then [] else [e]) es
         | a # as \<Rightarrow> if a = ''..'' then clean_elems rooted (e # acc) es else clean_elems rooted as es)
      else clean_elems rooted (e # acc) es)"

fun join_slash :: "string list \<Rightarrow> string" where
  "join_slash [] = ''''"
| "join_slash [e] = e"
| "join_slash (e # es) = e @ ''/'' @ join_slash es"

definition Clean :: "string \<Rightarrow> string" where
  "Clean p =
     (let rooted = (case p of [] \<Rightarrow> False | c # _ \<Rightarrow> c = CHR ''/'');
          r = (if rooted then ''/'' else '''') @ join_slash (clean_elems rooted [] (split_slash [] p))
      in if r = '''' then ''.'' else r)"

definition Join :: "string list \<Rightarrow> string" where
  "Join es = (let es = filter (\<lambda>e. e \<noteq> '''') es in if es = [] then '''' else Clean (join_slash es))"

section \<open>KVBackedStore\<close>

record 'v KVPair =
  kv_Key :: string
  kv_Value :: "'v bytes"
  kv_LastIndex :: uint64

definition clusterDataFile :: string where "clusterDataFile = ''clusterdata''"
definition keepersInfoDir :: string where "keepersInfoDir = ''/keepers/info/''"
definition sentinelsInfoDir :: string where "sentinelsInfoDir = ''/sentinels/info/''"
definition proxiesInfoDir :: string where "proxiesInfoDir = ''/proxies/info/''"
definition MinTTL :: duration where "MinTTL = 20 * second"

text \<open>
  The calls of \<^verbatim>\<open>KVStore\<close> are arguments of the operations that make them. \<open>clusterPath\<close> is the field of
  the \<^verbatim>\<open>KVBackedStore\<close>.
\<close>

definition AtomicPutClusterData ::
  "(string \<Rightarrow> ClusterData bytes \<Rightarrow> ClusterData KVPair option \<Rightarrow> duration option \<Rightarrow> 'kv \<Rightarrow> 'kv \<times> ClusterData KVPair sres)
     \<Rightarrow> string \<Rightarrow> ClusterData \<Rightarrow> ClusterData KVPair option \<Rightarrow> 'kv \<Rightarrow> 'kv \<times> ClusterData KVPair sres" where
  "AtomicPutClusterData aput clusterPath cd previous st =
     (let cdj = JSON (json_ClusterData cd);
          path = Join [clusterPath, clusterDataFile];
          prev = map_option (\<lambda>p. \<lparr>kv_Key = kv_Key p, kv_Value = Bytes '''', kv_LastIndex = kv_LastIndex p\<rparr>) previous
      in aput path cdj prev None st)"

definition PutClusterData ::
  "(string \<Rightarrow> ClusterData bytes \<Rightarrow> duration option \<Rightarrow> 'kv \<Rightarrow> 'kv \<times> unit sres)
     \<Rightarrow> string \<Rightarrow> ClusterData \<Rightarrow> 'kv \<Rightarrow> 'kv \<times> unit sres" where
  "PutClusterData put clusterPath cd st =
     put (Join [clusterPath, clusterDataFile]) (JSON (json_ClusterData cd)) None st"

definition GetClusterData ::
  "(string \<Rightarrow> 'kv \<Rightarrow> ClusterData KVPair sres) \<Rightarrow> string \<Rightarrow> 'kv \<Rightarrow> (ClusterData \<times> ClusterData KVPair) option sres" where
  "GetClusterData get clusterPath st =
     (case get (Join [clusterPath, clusterDataFile]) st of
        Inl e \<Rightarrow> if e \<noteq> ErrKeyNotFound then Inl e else Inr None
      | Inr pair \<Rightarrow>
          (case Unmarshal (kv_Value pair) of
             Inl e \<Rightarrow> Inl e
           | Inr cd \<Rightarrow> Inr (Some (cd, pair))))"

text \<open>Keeper and proxy information expires: it is written with a time to live of at least \<open>MinTTL\<close>.\<close>

definition setInfo ::
  "(string \<Rightarrow> 'i bytes \<Rightarrow> duration option \<Rightarrow> 'kv \<Rightarrow> 'kv \<times> unit sres) \<Rightarrow> string \<Rightarrow> 'i \<Rightarrow> duration \<Rightarrow> 'kv \<Rightarrow> 'kv \<times> unit sres" where
  "setInfo put key i ttl st = put key (JSON i) (Some (if ttl < MinTTL then MinTTL else ttl)) st"

definition SetKeeperInfo where
  "SetKeeperInfo put clusterPath uid (ki :: KeeperInfo) ttl st = setInfo put (Join [clusterPath, keepersInfoDir, uid]) ki ttl st"

definition SetSentinelInfo where
  "SetSentinelInfo put clusterPath (si :: SentinelInfo) ttl st = setInfo put (Join [clusterPath, sentinelsInfoDir, si_UID si]) si ttl st"

definition SetProxyInfo where
  "SetProxyInfo put clusterPath (pi :: ProxyInfo) ttl st = setInfo put (Join [clusterPath, proxiesInfoDir, pi_UID pi]) pi ttl st"

text \<open>The loop of the three listing operations: parse every pair, a bad one fails the whole.\<close>

fun unmarshalAll :: "'i KVPair list \<Rightarrow> 'i list sres" where
  "unmarshalAll [] = Inr []"
| "unmarshalAll (p # ps) =
     (case Unmarshal (kv_Value p) of
        Inl e \<Rightarrow> Inl e
      | Inr i \<Rightarrow> (case unmarshalAll ps of Inl e \<Rightarrow> Inl e | Inr is \<Rightarrow> Inr (i # is)))"

definition listInfos :: "(string \<Rightarrow> 'kv \<Rightarrow> 'i KVPair list sres) \<Rightarrow> string \<Rightarrow> 'kv \<Rightarrow> 'i list sres" where
  "listInfos lst dir st =
     (case lst dir st of
        Inl e \<Rightarrow> if e \<noteq> ErrKeyNotFound then Inl e else Inr []
      | Inr pairs \<Rightarrow> unmarshalAll pairs)"

definition GetKeepersInfo :: "(string \<Rightarrow> 'kv \<Rightarrow> KeeperInfo KVPair list sres) \<Rightarrow> string \<Rightarrow> 'kv \<Rightarrow> KeepersInfo sres" where
  "GetKeepersInfo lst clusterPath st =
     (case listInfos lst (Join [clusterPath, keepersInfoDir]) st of
        Inl e \<Rightarrow> Inl e
      | Inr is \<Rightarrow> Inr (fold (\<lambda>ki m. fmupd (ki_UID ki) ki m) is fmempty))"

definition GetSentinelsInfo :: "(string \<Rightarrow> 'kv \<Rightarrow> SentinelInfo KVPair list sres) \<Rightarrow> string \<Rightarrow> 'kv \<Rightarrow> SentinelInfo list sres" where
  "GetSentinelsInfo lst clusterPath st = listInfos lst (Join [clusterPath, sentinelsInfoDir]) st"

definition GetProxiesInfo :: "(string \<Rightarrow> 'kv \<Rightarrow> ProxyInfo KVPair list sres) \<Rightarrow> string \<Rightarrow> 'kv \<Rightarrow> ProxiesInfo sres" where
  "GetProxiesInfo lst clusterPath st =
     (case listInfos lst (Join [clusterPath, proxiesInfoDir]) st of
        Inl e \<Rightarrow> Inl e
      | Inr is \<Rightarrow> Inr (fold (\<lambda>pi m. fmupd (pi_UID pi) pi m) is fmempty))"

section \<open>The etcd v3 implementation of KVStore\<close>

datatype etcd_error = RpcKeyNotFound | ElectionNoLeader | EtcdError string

record 'v EtcdKV =
  ekv_Key :: string
  ekv_Value :: "'v bytes"
  ekv_ModRevision :: int64

text \<open>The comparisons of a transaction: of the modification or creation revision of a key with a number.\<close>

datatype EtcdCmp = ModRevision string int64 | CreateRevision string int64

text \<open>
  The calls of the client the code makes. \<open>ec_TxnPut cmp\<close> is a transaction that puts if \<open>cmp\<close> holds; it
  reports whether it did, and the revision. The optional number of a put is a lease.
\<close>

record ('v, 'e) EtcdClient =
  ec_Get :: "string \<Rightarrow> 'e \<Rightarrow> etcd_error + 'v EtcdKV list"
  ec_GetPrefix :: "string \<Rightarrow> 'e \<Rightarrow> etcd_error + 'v EtcdKV list"
  ec_Grant :: "int64 \<Rightarrow> 'e \<Rightarrow> 'e \<times> (etcd_error + int64)"
  ec_Put :: "string \<Rightarrow> 'v bytes \<Rightarrow> int64 option \<Rightarrow> 'e \<Rightarrow> 'e \<times> (etcd_error + unit)"
  ec_TxnPut :: "EtcdCmp \<Rightarrow> string \<Rightarrow> 'v bytes \<Rightarrow> int64 option \<Rightarrow> 'e \<Rightarrow> 'e \<times> (etcd_error + bool \<times> int64)"

fun rawEtcdError :: "etcd_error \<Rightarrow> store_error" where
  "rawEtcdError RpcKeyNotFound = StoreError ''etcdserver: key not found''"
| "rawEtcdError ElectionNoLeader = StoreError ''election: no leader''"
| "rawEtcdError (EtcdError e) = StoreError e"

definition fromEtcV3Error :: "etcd_error \<Rightarrow> store_error" where
  "fromEtcV3Error err =
     (case err of
        RpcKeyNotFound \<Rightarrow> ErrKeyNotFound
      | ElectionNoLeader \<Rightarrow> ErrElectionNoLeader
      | _ \<Rightarrow> rawEtcdError err)"

definition fromEtcdKV :: "'v EtcdKV \<Rightarrow> 'v KVPair" where
  "fromEtcdKV kv = \<lparr>kv_Key = ekv_Key kv, kv_Value = ekv_Value kv, kv_LastIndex = ekv_ModRevision kv\<rparr>"

definition etcdv3_Get :: "('v, 'e) EtcdClient \<Rightarrow> string \<Rightarrow> 'e \<Rightarrow> 'v KVPair sres" where
  "etcdv3_Get c key e =
     (case ec_Get c key e of
        Inl err \<Rightarrow> Inl (fromEtcV3Error err)
      | Inr [] \<Rightarrow> Inl ErrKeyNotFound
      | Inr (kv # _) \<Rightarrow> Inr (fromEtcdKV kv))"

definition etcdv3_List :: "('v, 'e) EtcdClient \<Rightarrow> string \<Rightarrow> 'e \<Rightarrow> 'v KVPair list sres" where
  "etcdv3_List c directory e =
     (case ec_GetPrefix c directory e of
        Inl err \<Rightarrow> Inl (fromEtcV3Error err)
      | Inr kvs \<Rightarrow> Inr (map fromEtcdKV kvs))"

text \<open>
  Ask for a lease when there is a positive time to live. \<open>Put\<close> asks for its seconds, \<open>AtomicPut\<close> for its
  nanoseconds.
\<close>

definition grantLease :: "('v, 'e) EtcdClient \<Rightarrow> (duration \<Rightarrow> int) \<Rightarrow> duration option \<Rightarrow> 'e \<Rightarrow> 'e \<times> int64 option sres" where
  "grantLease c len options e =
     (case options of
        None \<Rightarrow> (e, Inr None)
      | Some ttl \<Rightarrow>
          if ttl > 0 then
            (case ec_Grant c (word_of_int (len ttl)) e of
               (e, Inl err) \<Rightarrow> (e, Inl (rawEtcdError err))
             | (e, Inr lease) \<Rightarrow> (e, Inr (Some lease)))
          else (e, Inr None))"

definition etcdv3_Put :: "('v, 'e) EtcdClient \<Rightarrow> string \<Rightarrow> 'v bytes \<Rightarrow> duration option \<Rightarrow> 'e \<Rightarrow> 'e \<times> unit sres" where
  "etcdv3_Put c key value options e =
     (case grantLease c (\<lambda>ttl. ttl div second) options e of
        (e, Inl err) \<Rightarrow> (e, Inl err)
      | (e, Inr lease) \<Rightarrow>
          (case ec_Put c key value lease e of
             (e, Inl err) \<Rightarrow> (e, Inl (rawEtcdError err))
           | (e, Inr u) \<Rightarrow> (e, Inr u)))"

definition etcdv3_AtomicPut ::
  "('v, 'e) EtcdClient \<Rightarrow> string \<Rightarrow> 'v bytes \<Rightarrow> 'v KVPair option \<Rightarrow> duration option \<Rightarrow> 'e \<Rightarrow> 'e \<times> 'v KVPair sres" where
  "etcdv3_AtomicPut c key value previous options e =
     (case grantLease c (\<lambda>ttl. ttl) options e of
        (e, Inl err) \<Rightarrow> (e, Inl err)
      | (e, Inr lease) \<Rightarrow>
          let cmp = (case previous of
                       Some p \<Rightarrow> ModRevision key (kv_LastIndex p)
                     | None \<Rightarrow> CreateRevision key 0)
          in case ec_TxnPut c cmp key value lease e of
               (e, Inl err) \<Rightarrow> (e, Inl (fromEtcV3Error err))
             | (e, Inr (succeeded, revision)) \<Rightarrow>
                 if \<not> succeeded then (e, Inl ErrKeyModified)
                 else (e, Inr \<lparr>kv_Key = key, kv_Value = value, kv_LastIndex = revision\<rparr>))"

text \<open>\<open>del\<close> is the call of the client.\<close>

definition etcdv3_Delete :: "(string \<Rightarrow> 'e \<Rightarrow> 'e \<times> (etcd_error + unit)) \<Rightarrow> string \<Rightarrow> 'e \<Rightarrow> 'e \<times> unit sres" where
  "etcdv3_Delete del key e =
     (case del key e of
        (e', Inl err) \<Rightarrow> (e', Inl (fromEtcV3Error err))
      | (e', Inr u) \<Rightarrow> (e', Inr u))"

section \<open>The contracts\<close>

text \<open>
  The contract of \<^verbatim>\<open>KVStore\<close>. \<open>look st k\<close> is the value and the index of a key; \<open>later st
  st'\<close> says that \<open>st'\<close> is a later state of the same store. A successful \<^verbatim>\<open>AtomicPut\<close>
  found the index it was given (or no key, when it was given none). One that failed with another error than
  \<^verbatim>\<open>ErrKeyModified\<close> (a timeout) may nevertheless have been done, but only if it found that index.
\<close>

definition indexed :: "'v KVPair option \<Rightarrow> bool" where
  "indexed prev \<longleftrightarrow> (\<forall>p. prev = Some p \<longrightarrow> kv_LastIndex p \<noteq> 0)"

locale kv_store =
  fixes get :: "string \<Rightarrow> 'kv \<Rightarrow> 'v KVPair sres"
    and aput :: "string \<Rightarrow> 'v bytes \<Rightarrow> 'v KVPair option \<Rightarrow> duration option \<Rightarrow> 'kv \<Rightarrow> 'kv \<times> 'v KVPair sres"
    and look :: "'kv \<Rightarrow> string \<Rightarrow> ('v bytes \<times> uint64) option"
    and later :: "'kv \<Rightarrow> 'kv \<Rightarrow> bool"
  assumes get_found: "get k st = Inr p \<Longrightarrow> look st k = Some (kv_Value p, kv_LastIndex p)"
    and get_missing: "get k st = Inl ErrKeyNotFound \<Longrightarrow> look st k = None"
    and index_nonzero: "look st k = Some (v, i) \<Longrightarrow> i \<noteq> 0"
    and aput_ok: "indexed prev \<Longrightarrow> aput k v prev None st = (st', Inr p) \<Longrightarrow>
      map_option snd (look st k) = map_option kv_LastIndex prev \<and> look st' k = Some (v, kv_LastIndex p)"
    and aput_modified: "indexed prev \<Longrightarrow> aput k v prev None st = (st', Inl ErrKeyModified) \<Longrightarrow>
      map_option snd (look st k) \<noteq> map_option kv_LastIndex prev \<and> look st' k = look st k"
    and aput_error: "indexed prev \<Longrightarrow> aput k v prev None st = (st', Inl err) \<Longrightarrow> look st' k = look st k \<or>
      map_option snd (look st k) = map_option kv_LastIndex prev \<and> map_option fst (look st' k) = Some v"
    and index_unique: "later st st' \<Longrightarrow> look st k = Some (v, i) \<Longrightarrow> look st' k = Some (v', i) \<Longrightarrow> v' = v"
begin

text \<open>A value read before and an index found now: the value is still there.\<close>

lemma same_value:
  assumes "later st st'" and "map_option snd (look st' k) = map_option snd (look st k)"
  shows "map_option fst (look st' k) = map_option fst (look st k)"
  using assms(2) index_unique [OF assms(1), of k]
  by (cases "look st k"; cases "look st' k") auto

end

text \<open>The cluster data in the store, as \<^verbatim>\<open>GetClusterData\<close> parses it.\<close>

definition stored :: "('kv \<Rightarrow> string \<Rightarrow> (ClusterData bytes \<times> uint64) option) \<Rightarrow> string \<Rightarrow> 'kv \<Rightarrow> ClusterData sres option" where
  "stored look clusterPath st =
     map_option Unmarshal (map_option fst (look st (Join [clusterPath, clusterDataFile])))"

locale cluster_data_store = kv_store get aput look later
  for get :: "string \<Rightarrow> 'kv \<Rightarrow> ClusterData KVPair sres" and aput look later
begin

lemma read_stored:
  "GetClusterData get p st = Inr None \<Longrightarrow> stored look p st = None"
  "GetClusterData get p st = Inr (Some (cd, pair)) \<Longrightarrow>
     stored look p st = Some (Inr cd) \<and> look st (Join [p, clusterDataFile]) = Some (kv_Value pair, kv_LastIndex pair)"
  by (auto simp: GetClusterData_def stored_def dest: get_found get_missing split: sum.splits if_splits)

lemma read_index:
  assumes "GetClusterData get p st = Inr r"
  shows "map_option snd (look st (Join [p, clusterDataFile])) = map_option (kv_LastIndex \<circ> snd) r"
proof (cases r)
  case None
  then show ?thesis using assms read_stored(1) [of p st] by (simp add: stored_def)
next
  case (Some a)
  then show ?thesis using assms read_stored(2) [of p st "fst a" "snd a"] by auto
qed

lemma cas:
  assumes "GetClusterData get p st = Inr r" and "later st st'"
    and "AtomicPutClusterData aput p cd' (map_option snd r) st' = (st'', res)"
  shows "case res of
      Inr _ \<Rightarrow> stored look p st' = map_option (Inr \<circ> fst) r \<and> stored look p st'' = Some (Inr (json_ClusterData cd'))
    | Inl e \<Rightarrow> stored look p st'' = stored look p st' \<or> e \<noteq> ErrKeyModified \<and>
        stored look p st' = map_option (Inr \<circ> fst) r \<and> stored look p st'' = Some (Inr (json_ClusterData cd'))"
proof -
  let ?k = "Join [p, clusterDataFile]"
  let ?prev = "map_option (\<lambda>p. \<lparr>kv_Key = kv_Key p, kv_Value = Bytes '''', kv_LastIndex = kv_LastIndex p\<rparr>)
      (map_option snd r) :: ClusterData KVPair option"
  have put: "aput ?k (JSON (json_ClusterData cd')) ?prev None st' = (st'', res)"
    using assms(3) by (simp add: AtomicPutClusterData_def)
  have prev: "map_option kv_LastIndex ?prev = map_option snd (look st ?k)"
    using read_index [OF assms(1)] by (cases r) auto
  have ix: "indexed ?prev"
  proof (cases r)
    case (Some a)
    then show ?thesis
      using read_stored(2) [of p st "fst a" "snd a"] assms(1) by (auto simp: indexed_def dest: index_nonzero)
  qed (simp add: indexed_def)
  have old: "stored look p st = map_option (Inr \<circ> fst) r"
    using read_stored [of p st] assms(1) by (cases r) auto
  have same: "stored look p st' = map_option (Inr \<circ> fst) r"
    if "map_option snd (look st' ?k) = map_option kv_LastIndex ?prev"
  proof -
    have "map_option fst (look st' ?k) = map_option fst (look st ?k)"
      using that prev by (intro same_value [OF assms(2)]) simp
    then show ?thesis using old unfolding stored_def by simp
  qed
  have new: "stored look p st'' = Some (Inr (json_ClusterData cd'))"
    if "map_option fst (look st'' ?k) = Some (JSON (json_ClusterData cd'))"
    using that by (auto simp: stored_def)
  show ?thesis
  proof (cases res)
    case (Inr pair)
    with put have "aput ?k (JSON (json_ClusterData cd')) ?prev None st' = (st'', Inr pair)" by simp
    from aput_ok [OF ix this] have "map_option snd (look st' ?k) = map_option kv_LastIndex ?prev"
      "map_option fst (look st'' ?k) = Some (JSON (json_ClusterData cd'))" by simp_all
    from same [OF this(1)] new [OF this(2)] Inr show ?thesis by simp
  next
    case (Inl e)
    with put have p: "aput ?k (JSON (json_ClusterData cd')) ?prev None st' = (st'', Inl e)" by simp
    from aput_modified [of ?prev ?k "JSON (json_ClusterData cd')" st' st''] ix p
    have "stored look p st'' = stored look p st'" if "e = ErrKeyModified"
      using that by (simp add: stored_def)
    moreover from aput_error [OF ix p] same new
    have "stored look p st'' = stored look p st' \<or> stored look p st' = map_option (Inr \<circ> fst) r \<and>
        stored look p st'' = Some (Inr (json_ClusterData cd'))"
      unfolding stored_def by (elim disjE conjE) (simp, blast)
    ultimately show ?thesis using Inl by auto
  qed
qed

end

text \<open>
  The laws of etcd: \<open>kvs e k\<close> is the value of a key with its creation and modification revision; no key
  was created at revision 0, and a modification revision identifies one value of the key.
\<close>

fun cmp_holds :: "(string \<Rightarrow> ('v bytes \<times> int64 \<times> int64) option) \<Rightarrow> EtcdCmp \<Rightarrow> bool" where
  "cmp_holds kv (ModRevision k n) = (case kv k of None \<Rightarrow> n = 0 | Some (_, _, m) \<Rightarrow> m = n)"
| "cmp_holds kv (CreateRevision k n) = (case kv k of None \<Rightarrow> n = 0 | Some (_, c, _) \<Rightarrow> c = n)"

locale etcd_client =
  fixes c :: "('v, 'e) EtcdClient"
    and kvs :: "'e \<Rightarrow> string \<Rightarrow> ('v bytes \<times> int64 \<times> int64) option"
    and later :: "'e \<Rightarrow> 'e \<Rightarrow> bool"
  assumes Get: "ec_Get c k e = Inr rs \<Longrightarrow>
      rs = (case kvs e k of None \<Rightarrow> [] | Some (v, _, m) \<Rightarrow> [\<lparr>ekv_Key = k, ekv_Value = v, ekv_ModRevision = m\<rparr>])"
    and Get_error: "ec_Get c k e = Inl RpcKeyNotFound \<Longrightarrow> kvs e k = None"
    and TxnPut: "ec_TxnPut c cmp k v l e = (e', Inr (ok, rn)) \<Longrightarrow>
      ok = cmp_holds (kvs e) cmp \<and>
      (if ok then \<exists>cr. kvs e' k = Some (v, cr, rn) else kvs e' k = kvs e k)"
    and TxnPut_error: "ec_TxnPut c cmp k v l e = (e', Inl err) \<Longrightarrow>
      kvs e' k = kvs e k \<or> cmp_holds (kvs e) cmp \<and> (\<exists>cr m. kvs e' k = Some (v, cr, m))"
    and revisions: "kvs e k = Some (v, cr, m) \<Longrightarrow> cr \<noteq> 0 \<and> m \<noteq> 0"
    and revision_unique: "later e e' \<Longrightarrow> kvs e k = Some (v, cr, m) \<Longrightarrow> kvs e' k = Some (v', cr', m) \<Longrightarrow> v' = v"

text \<open>What the etcd implementation makes of the value of a key.\<close>

definition etcd_val :: "('e \<Rightarrow> string \<Rightarrow> ('v bytes \<times> int64 \<times> int64) option) \<Rightarrow> 'e \<Rightarrow> string \<Rightarrow> ('v bytes \<times> uint64) option" where
  "etcd_val kvs e k = map_option (\<lambda>(v, _, m). (v, m)) (kvs e k)"

context etcd_client
begin

lemma aput_cases:
  assumes "etcdv3_AtomicPut c k v prev None e = (e', res)"
  obtains rn where "ec_TxnPut c (case prev of Some p \<Rightarrow> ModRevision k (kv_LastIndex p) | None \<Rightarrow> CreateRevision k 0) k v None e =
      (e', Inr (True, rn))" and "res = Inr \<lparr>kv_Key = k, kv_Value = v, kv_LastIndex = rn\<rparr>"
  | rn where "ec_TxnPut c (case prev of Some p \<Rightarrow> ModRevision k (kv_LastIndex p) | None \<Rightarrow> CreateRevision k 0) k v None e =
      (e', Inr (False, rn))" and "res = Inl ErrKeyModified"
  | err where "ec_TxnPut c (case prev of Some p \<Rightarrow> ModRevision k (kv_LastIndex p) | None \<Rightarrow> CreateRevision k 0) k v None e =
      (e', Inl err)" and "res = Inl (fromEtcV3Error err)"
  using assms by (auto simp: etcdv3_AtomicPut_def grantLease_def Let_def split: prod.splits sum.splits if_splits)

end

sublocale etcd_client \<subseteq> kv_store "etcdv3_Get c" "etcdv3_AtomicPut c" "etcd_val kvs" later
proof (unfold_locales, goal_cases)
  case (1 k st p)
  then show ?case by (auto simp: etcdv3_Get_def etcd_val_def fromEtcdKV_def dest!: Get split: sum.splits list.splits option.splits)
next
  case (2 k st)
  then show ?case
    by (auto simp: etcdv3_Get_def etcd_val_def fromEtcV3Error_def dest!: Get Get_error
        split: sum.splits list.splits option.splits etcd_error.splits)
next
  case (3 st k v i)
  then show ?case by (auto simp: etcd_val_def dest: revisions)
next
  case (4 prev k v st st' p)
  from 4(2) show ?case
  proof (cases rule: aput_cases)
    case (1 rn)
    with TxnPut [OF 1(1)] show ?thesis
      using revisions [of st k] 4(1) by (cases prev) (auto simp: indexed_def etcd_val_def split: option.splits)
  qed auto
next
  case (5 prev k v st st')
  from 5(2) show ?case
  proof (cases rule: aput_cases)
    case (2 rn)
    with TxnPut [OF 2(1)] show ?thesis
      using revisions [of st k] 5(1) by (cases prev) (auto simp: indexed_def etcd_val_def split: option.splits)
  next
    case (3 err)
    then show ?thesis by (auto simp: fromEtcV3Error_def split: etcd_error.splits)
  qed auto
next
  case (6 prev k v st st' err)
  from 6(2) show ?case
  proof (cases rule: aput_cases)
    case (2 rn)
    with TxnPut [OF 2(1)] show ?thesis by (simp add: etcd_val_def)
  next
    case (3 e)
    with TxnPut_error [OF 3(1)] show ?thesis
      using revisions [of st k] 6(1) by (cases prev) (auto simp: indexed_def etcd_val_def split: option.splits)
  qed auto
next
  case (7 st st' k v i v')
  then show ?case using revision_unique [of st st' k] by (auto simp: etcd_val_def)
qed

context etcd_client
begin

lemma is_kv_store: "kv_store (etcdv3_Get c) (etcdv3_AtomicPut c) (etcd_val kvs) later"
  by unfold_locales

end

section \<open>A reference etcd\<close>

text \<open>
  A small etcd that satisfies the laws: the log of its writes, the newest first. The revision of a write is
  its position in the log, counted from the oldest.
\<close>

type_synonym 'v etcd_log = "(string \<times> 'v bytes) list"

fun log_find :: "string \<Rightarrow> 'v etcd_log \<Rightarrow> ('v bytes \<times> nat) option" where
  "log_find k [] = None"
| "log_find k ((k', v) # l) = (if k' = k then Some (v, Suc (length l)) else log_find k l)"

fun log_created :: "string \<Rightarrow> 'v etcd_log \<Rightarrow> nat" where
  "log_created k [] = 1"
| "log_created k ((k', v) # l) = (if log_find k l = None then Suc (length l) else log_created k l)"

definition log_kvs :: "'v etcd_log \<Rightarrow> string \<Rightarrow> ('v bytes \<times> int64 \<times> int64) option" where
  "log_kvs l k =
     (if length l < 2 ^ 64 then map_option (\<lambda>(v, m). (v, of_nat (log_created k l), of_nat m)) (log_find k l) else None)"

definition log_put :: "string \<Rightarrow> 'v bytes \<Rightarrow> 'v etcd_log \<Rightarrow> 'v etcd_log \<times> (etcd_error + int64)" where
  "log_put k v l =
     (if Suc (length l) < 2 ^ 64 then ((k, v) # l, Inr (of_nat (Suc (length l)))) else (l, Inl (EtcdError ''no revisions left'')))"

definition log_etcd :: "('v, 'v etcd_log) EtcdClient" where
  "log_etcd =
     \<lparr>ec_Get = (\<lambda>k l. Inr (case log_kvs l k of None \<Rightarrow> []
        | Some (v, _, m) \<Rightarrow> [\<lparr>ekv_Key = k, ekv_Value = v, ekv_ModRevision = m\<rparr>])),
      ec_GetPrefix = (\<lambda>p l. Inr (List.map_filter (\<lambda>k. map_option (\<lambda>(v, _, m). \<lparr>ekv_Key = k, ekv_Value = v, ekv_ModRevision = m\<rparr>) (log_kvs l k))
        (filter (\<lambda>k. take (length p) k = p) (remdups (map fst l))))),
      ec_Grant = (\<lambda>_ l. (l, Inr 1)),
      ec_Put = (\<lambda>k v _ l. (case log_put k v l of (l, Inl e) \<Rightarrow> (l, Inl e) | (l, Inr _) \<Rightarrow> (l, Inr ()))),
      ec_TxnPut = (\<lambda>cmp k v _ l.
        if cmp_holds (log_kvs l) cmp
        then (case log_put k v l of (l, Inl e) \<Rightarrow> (l, Inl e) | (l, Inr n) \<Rightarrow> (l, Inr (True, n)))
        else (l, Inr (False, of_nat (length l))))\<rparr>"

definition log_later :: "'v etcd_log \<Rightarrow> 'v etcd_log \<Rightarrow> bool" where
  "log_later l l' \<longleftrightarrow> (\<exists>new. l' = new @ l)"

lemma log_find_bounds: "log_find k l = Some (v, m) \<Longrightarrow> 0 < m \<and> m \<le> length l"
  by (induction k l rule: log_find.induct) (auto split: if_splits)

lemma log_created_bounds: "log_find k l \<noteq> None \<Longrightarrow> 0 < log_created k l \<and> log_created k l \<le> length l"
proof (induction l)
  case (Cons a l)
  then show ?case by (cases a; cases "log_find k l") (auto split: if_splits)
qed simp

lemma log_find_old: "log_find k (new @ l) = Some (v, m) \<Longrightarrow> m \<le> length l \<Longrightarrow> log_find k l = Some (v, m)"
  by (induction new) (auto split: if_splits)

lemma unat_revision: "m < 2 ^ 64 \<Longrightarrow> unat (of_nat m :: int64) = m"
  by (simp add: unat_of_nat)

lemma word_of_revision: "0 < m \<Longrightarrow> m < 2 ^ 64 \<Longrightarrow> (of_nat m :: int64) \<noteq> 0"
  using unat_revision [of m] by (metis less_irrefl unsigned_0)

lemma log_kvs_find:
  "log_kvs l k = Some (v, cr, m) \<Longrightarrow>
     \<exists>n. log_find k l = Some (v, n) \<and> length l < 2 ^ 64 \<and> cr = of_nat (log_created k l) \<and> m = of_nat n"
  by (auto simp: log_kvs_def split: if_splits)

interpretation ref_etcd: etcd_client log_etcd log_kvs log_later
proof (unfold_locales, goal_cases)
  case (3 cmp k v l e e' ok rn)
  then show ?case
    by (auto simp: log_etcd_def log_put_def log_kvs_def split: if_splits)
next
  case (4 cmp k v l e e' err)
  then show ?case by (auto simp: log_etcd_def log_put_def split: if_splits)
next
  case (5 e k v cr m)
  from log_kvs_find [OF this] obtain n where
    n: "log_find k e = Some (v, n)" "length e < 2 ^ 64" "cr = of_nat (log_created k e)" "m = of_nat n" by blast
  then show ?case
    using log_find_bounds [OF n(1)] log_created_bounds [of k e] word_of_revision [of n]
      word_of_revision [of "log_created k e"] by auto
next
  case (6 e e' k v cr m v' cr')
  from 6(1) obtain new where l: "e' = new @ e" by (auto simp: log_later_def)
  from log_kvs_find [OF 6(2)] obtain n where n: "log_find k e = Some (v, n)" "m = of_nat n" "length e < 2 ^ 64" by blast
  from log_kvs_find [OF 6(3)] obtain n' where n': "log_find k e' = Some (v', n')" "m = of_nat n'" "length e' < 2 ^ 64"
    by blast
  have "n < 2 ^ 64" "n' < 2 ^ 64" using log_find_bounds [OF n(1)] log_find_bounds [OF n'(1)] n(3) n'(3) by linarith+
  with unat_revision [of n] unat_revision [of n'] n(2) n'(2) have "n = n'" by metis
  then show ?case
    using log_find_old [of k new e v' n'] log_find_bounds [OF n(1)] n(1) n'(1) l by simp
qed (auto simp: log_etcd_def)

interpretation ref_store: cluster_data_store "etcdv3_Get log_etcd" "etcdv3_AtomicPut log_etcd" "etcd_val log_kvs" log_later
  by (rule cluster_data_store.intro [OF ref_etcd.is_kv_store])

section \<open>Keys\<close>

text \<open>A path element that \<^verbatim>\<open>filepath.Join\<close> keeps as it is.\<close>

definition plain :: "string \<Rightarrow> bool" where
  "plain e \<longleftrightarrow> e \<noteq> '''' \<and> e \<noteq> ''.'' \<and> e \<noteq> ''..'' \<and> CHR ''/'' \<notin> set e"

lemma split_slash_append:
  "split_slash acc (a @ CHR ''/'' # b) = split_slash acc a @ split_slash [] b"
  by (induction a arbitrary: acc) auto

lemma split_slash_none: "CHR ''/'' \<notin> set e \<Longrightarrow> split_slash acc e = [rev acc @ e]"
  by (induction e arbitrary: acc) auto

lemma clean_elems_snoc: "plain u \<Longrightarrow> clean_elems rooted acc (es @ [u]) = clean_elems rooted acc es @ [u]"
  by (induction es arbitrary: acc) (auto simp: plain_def split: list.split)

lemma join_slash_snoc: "\<exists>P. \<forall>u. join_slash (es @ [u]) = P @ u"
proof (induction es rule: join_slash.induct)
  case 1
  show ?case by (rule exI [of _ "[]"]) simp
next
  case (2 e)
  show ?case by (rule exI [of _ "e @ ''/''"]) simp
next
  case (3 e f fs)
  then obtain P where P: "\<forall>u. join_slash ((f # fs) @ [u]) = P @ u" by blast
  show ?case using P by (intro exI [of _ "e @ ''/'' @ P"]) simp
qed

lemma Clean_snoc:
  assumes "q \<noteq> ''''"
  shows "\<exists>P. \<forall>u. plain u \<longrightarrow> Clean (q @ CHR ''/'' # u) = P @ u"
proof -
  define rooted where "rooted = (hd q = CHR ''/'')"
  let ?es = "clean_elems rooted [] (split_slash [] q)"
  obtain P where P: "\<forall>u. join_slash (?es @ [u]) = P @ u" using join_slash_snoc [of ?es] by blast
  have "Clean (q @ CHR ''/'' # u) = ((if rooted then ''/'' else '''') @ P) @ u" if u: "plain u" for u
  proof -
    have "split_slash [] (q @ CHR ''/'' # u) = split_slash [] q @ [u]"
      using u by (simp add: split_slash_append split_slash_none plain_def)
    then have "join_slash (clean_elems rooted [] (split_slash [] (q @ CHR ''/'' # u))) = P @ u"
      using P u by (simp add: clean_elems_snoc)
    moreover have "u \<noteq> ''''" using u by (simp add: plain_def)
    moreover obtain c q' where "q = c # q'" using assms by (cases q) auto
    ultimately show ?thesis by (simp add: Clean_def Let_def rooted_def)
  qed
  then show ?thesis by blast
qed

text \<open>
  Different members write to different keys: with the same store path and directory, the keys of two UIDs
  are the same only if the UIDs are.
\<close>

theorem info_keys_injective:
  assumes "plain u" and "plain v" and "d \<noteq> ''''"
  shows "Join [p, d, u] = Join [p, d, v] \<longleftrightarrow> u = v"
proof -
  let ?q = "join_slash (filter (\<lambda>e. e \<noteq> '''') [p, d])"
  have "?q \<noteq> ''''" using assms(3) by (cases p) auto
  from Clean_snoc [OF this] obtain P where P: "\<And>u. plain u \<Longrightarrow> Clean (?q @ CHR ''/'' # u) = P @ u" by blast
  have "Join [p, d, u] = P @ u" if "plain u" for u
    using P [OF that] assms(3) that by (cases p) (auto simp: Join_def plain_def)
  then show ?thesis using assms(1,2) by simp
qed

section \<open>Compare and swap\<close>

text \<open>
  C30. Compare and swap. With etcd as the store, a sentinel (or any client) that read cluster data, and later puts
  new cluster data with the pair it read, succeeds only if the cluster data it replaces is what it
  read, and then the new cluster data is in the store. If the put fails nothing has changed, unless the error
  is not \<^verbatim>\<open>ErrKeyModified\<close> (as after a timeout), when the put may still have replaced what was read.
\<close>

theorem store_cas_correct:
  assumes "etcd_client c kvs later"
    and "GetClusterData (etcdv3_Get c) path st = Inr r" and "later st st'"
    and "AtomicPutClusterData (etcdv3_AtomicPut c) path cd' (map_option snd r) st' = (st'', res)"
  shows "case res of
      Inr _ \<Rightarrow> stored (etcd_val kvs) path st' = map_option (Inr \<circ> fst) r \<and>
        stored (etcd_val kvs) path st'' = Some (Inr (json_ClusterData cd'))
    | Inl e \<Rightarrow> stored (etcd_val kvs) path st'' = stored (etcd_val kvs) path st' \<or> e \<noteq> ErrKeyModified \<and>
        stored (etcd_val kvs) path st' = map_option (Inr \<circ> fst) r \<and>
        stored (etcd_val kvs) path st'' = Some (Inr (json_ClusterData cd'))"
  by (rule cluster_data_store.cas [OF cluster_data_store.intro [OF etcd_client.is_kv_store [OF assms(1)]] assms(2-4)])

section \<open>Examples\<close>

definition new_cd :: ClusterData where
  "new_cd = NewClusterData (NewCluster 0 ''c'' (Some example_spec))"

text \<open>Two clients read an empty store and write: the second one fails.\<close>

theorem store_cas_correct_witness:
  "\<exists>l p. AtomicPutClusterData (etcdv3_AtomicPut log_etcd) ''stolon'' new_cd None [] = (l, Inr p) \<and>
     AtomicPutClusterData (etcdv3_AtomicPut log_etcd) ''stolon'' new_cd None l = (l, Inl ErrKeyModified) \<and>
     stored (etcd_val log_kvs) ''stolon'' l = Some (Inr (json_ClusterData new_cd))"
proof -
  let ?l = "[(Join [''stolon'', clusterDataFile], JSON (json_ClusterData new_cd))]"
  have r: "GetClusterData (etcdv3_Get log_etcd) ''stolon'' [] = Inr None"
    by (simp add: GetClusterData_def etcdv3_Get_def log_etcd_def log_kvs_def)
  have a: "AtomicPutClusterData (etcdv3_AtomicPut log_etcd) ''stolon'' new_cd (map_option snd None) [] =
      (?l, Inr \<lparr>kv_Key = Join [''stolon'', clusterDataFile], kv_Value = JSON (json_ClusterData new_cd), kv_LastIndex = 1\<rparr>)"
    by (simp add: AtomicPutClusterData_def etcdv3_AtomicPut_def grantLease_def log_etcd_def log_kvs_def log_put_def Let_def)
  have b: "AtomicPutClusterData (etcdv3_AtomicPut log_etcd) ''stolon'' new_cd None ?l = (?l, Inl ErrKeyModified)"
    by (simp add: AtomicPutClusterData_def etcdv3_AtomicPut_def grantLease_def log_etcd_def log_kvs_def Let_def)
  show ?thesis
    using store_cas_correct [OF ref_etcd.etcd_client_axioms r _ a] a b by (auto simp: log_later_def)
qed

theorem info_keys_injective_witness:
  "Join [''stolon'', keepersInfoDir, ''k1''] \<noteq> Join [''stolon'', keepersInfoDir, ''k2'']"
  using info_keys_injective [of "''k1''" "''k2''" keepersInfoDir "''stolon''"]
  by (simp add: plain_def keepersInfoDir_def)

end
