(* ===== verification/Sentinel_Check.thy ===== *)
theory Sentinel_Check
  imports Sentinel_Sync Store
begin

text \<open>
  The check of a sentinel, \<^verbatim>\<open>clusterSentinelCheck\<close>, with \<^verbatim>\<open>NewSentinel\<close>, the
  leadership messages and \<^verbatim>\<open>updateChangeTimes\<close>. A check is a function of the sentinel, the environment and
  what it reads from the store; its result is the sentinel after it and the arguments of the one write it may do.

  The first section shows that convergence information a sentinel lacks can only make \<^verbatim>\<open>updateCluster\<close>
  panic, so that the invariant is kept by any sentinel. The next ones show that the changes around
  \<^verbatim>\<open>updateCluster\<close> (the status update, the change times, the encoding) keep the shape of the cluster data,
  and with it the invariant.
\<close>

section \<open>A sentinel that knows more\<close>

text \<open>
  A computation that returns whenever another one does, with the same result. \<^verbatim>\<open>updateCluster\<close> depends in
  this way on the convergence information of the sentinel: missing information can only make it panic.
\<close>

definition le_res :: "'a res \<Rightarrow> 'a res \<Rightarrow> bool" where
  "le_res x y \<longleftrightarrow> (\<forall>v. x = Inr v \<longrightarrow> y = Inr v)"

named_theorems le_res_intros \<open>monotonicity of fallible computations\<close>

lemma le_res_refl [le_res_intros]: "le_res x x"
  by (simp add: le_res_def)

lemma le_resD: "le_res x y \<Longrightarrow> x = Inr v \<Longrightarrow> y = Inr v"
  by (simp add: le_res_def)

lemma le_res_bindE [le_res_intros]:
  "le_res x y \<Longrightarrow> (\<And>v. le_res (f v) (g v)) \<Longrightarrow> le_res (bindE x f) (bindE y g)"
  by (auto simp: le_res_def res_simps)

lemma le_res_if [le_res_intros]:
  "(P \<Longrightarrow> le_res x y) \<Longrightarrow> (\<not> P \<Longrightarrow> le_res x' y') \<Longrightarrow> le_res (if P then x else x') (if P then y else y')"
  by simp

lemma le_res_prod [le_res_intros]:
  "(\<And>a b. le_res (f a b) (g a b)) \<Longrightarrow> le_res (case p of (a, b) \<Rightarrow> f a b) (case p of (a, b) \<Rightarrow> g a b)"
  by (cases p) simp

lemma le_res_option [le_res_intros]:
  "le_res x y \<Longrightarrow> (\<And>a. le_res (f a) (g a)) \<Longrightarrow>
     le_res (case p of None \<Rightarrow> x | Some a \<Rightarrow> f a) (case p of None \<Rightarrow> y | Some a \<Rightarrow> g a)"
  by (cases p) simp_all

lemma le_res_mapE [le_res_intros]:
  "(\<And>x. le_res (f x) (g x)) \<Longrightarrow> le_res (mapE f xs) (mapE g xs)"
  by (induction xs) (auto intro!: le_res_intros)

definition knows_more :: "Sentinel \<Rightarrow> Sentinel \<Rightarrow> bool" where
  "knows_more s s' \<longleftrightarrow> s_dbNotIncreasingXLogPos s' = s_dbNotIncreasingXLogPos s \<and>
     (\<forall>u i. fmlookup (s_dbConvergenceInfos s) u = Some i \<longrightarrow> fmlookup (s_dbConvergenceInfos s') u = Some i)"

lemma le_dbConvergenceState [le_res_intros]:
  "knows_more s s' \<Longrightarrow> le_res (dbConvergenceState env s db t) (dbConvergenceState env s' db t)"
  by (auto simp: le_res_def knows_more_def dbConvergenceState_def Let_def split: option.splits)

lemma le_dbStatus [le_res_intros]: "knows_more s s' \<Longrightarrow> le_res (dbStatus env s cd u) (dbStatus env s' cd u)"
  unfolding dbStatus_def Let_def by (intro le_res_intros)

lemma le_validByStatus [le_res_intros]:
  "knows_more s s' \<Longrightarrow> le_res (validByStatus t env s cd) (validByStatus t env s' cd)"
  unfolding validByStatus_def validStatus_def by (intro le_res_intros)

lemma le_findBestStandbys [le_res_intros]:
  "knows_more s s' \<Longrightarrow> le_res (findBestStandbys ord env s cd m) (findBestStandbys ord env s' cd m)"
  unfolding findBestStandbys_def validStandbysByStatus_def by (intro le_res_intros)

lemma le_findBestNewMasters [le_res_intros]:
  "knows_more s s' \<Longrightarrow> le_res (findBestNewMasters o1 o2 env s cd m) (findBestNewMasters o1 o2 env s' cd m)"
  unfolding findBestNewMasters_def validMastersByStatus_def by (intro le_res_intros)

lemma le_electMaster [le_res_intros]:
  "knows_more s s' \<Longrightarrow> le_res (electMaster env s spec cd u m) (electMaster env s' spec cd u m)"
  unfolding electMaster_def masterOK_def by (intro le_res_intros)

lemma removeUnsyncableDBs_cong: "knows_more s s' \<Longrightarrow> removeUnsyncableDBs s = removeUnsyncableDBs s'"
proof -
  assume "knows_more s s'"
  then have "isDBIncreasingXLogPos s = isDBIncreasingXLogPos s'"
    by (intro ext) (simp add: isDBIncreasingXLogPos_def knows_more_def)
  then show ?thesis by (intro ext) (simp only: removeUnsyncableDBs_def dbCanSync_def)
qed

lemma le_updateSyncStandbys [le_res_intros]:
  "knows_more s s' \<Longrightarrow> le_res (updateSyncStandbys env s spec cur m g cd) (updateSyncStandbys env s' spec cur m g cd)"
  unfolding updateSyncStandbys_def Let_def by (intro le_res_intros)

lemma le_manageStandbys [le_res_intros]:
  "knows_more s s' \<Longrightarrow> le_res (manageStandbys env s spec cd cur m ncd) (manageStandbys env s' spec cd cur m ncd)"
  unfolding manageStandbys_def Let_def validStandbysByStatus_def
  by (subst removeUnsyncableDBs_cong, assumption) (intro le_res_intros)

lemma le_updateClusterNormal [le_res_intros]:
  "knows_more s s' \<Longrightarrow> le_res (updateClusterNormal env s spec pis u cd) (updateClusterNormal env s' spec pis u cd)"
  unfolding updateClusterNormal_def sameMaster_def Let_def by (intro le_res_intros)

lemma le_updateClusterInit [le_res_intros]:
  "knows_more s s' \<Longrightarrow> le_res (updateClusterInit env s spec u cd) (updateClusterInit env s' spec u cd)"
  unfolding updateClusterInit_def
proof (intro le_res_intros)
  fix mode
  assume k: "knows_more s s'"
  show "le_res (case mode of ClusterInitModeNew \<Rightarrow> initModeNew env s spec u cd
       | ClusterInitModeExisting \<Rightarrow> initModeExisting env s spec u cd
       | ClusterInitModePITR \<Rightarrow> initModePITR env s spec u cd
       | ClusterInitModeOther m \<Rightarrow> Inl (Error (''unknown init mode '' @ m)))
      (case mode of ClusterInitModeNew \<Rightarrow> initModeNew env s' spec u cd
       | ClusterInitModeExisting \<Rightarrow> initModeExisting env s' spec u cd
       | ClusterInitModePITR \<Rightarrow> initModePITR env s' spec u cd
       | ClusterInitModeOther m \<Rightarrow> Inl (Error (''unknown init mode '' @ m)))"
    using k by (cases mode) (auto simp: initModeNew_def initModeExisting_def initModePITR_def intro!: le_res_intros)
qed

lemma le_updateCluster:
  "knows_more s s' \<Longrightarrow> le_res (updateCluster env s cd pis) (updateCluster env s' cd pis)"
  unfolding updateCluster_def
  by (intro le_res_intros) (auto intro!: le_res_intros split: ClusterPhase.split)

text \<open>A sentinel with some convergence information for every database.\<close>

definition completed :: "ClusterData \<Rightarrow> Sentinel \<Rightarrow> Sentinel" where
  "completed cd s = s\<lparr>s_dbConvergenceInfos :=
     fmmap (\<lambda>_. \<lparr>dci_Generation = 0, dci_Timer = 0\<rparr>) (cd_DBs cd) ++\<^sub>f s_dbConvergenceInfos s\<rparr>"

lemma completed_ok: "convergence_ok (completed cd s) cd"
  unfolding convergence_ok_def by (intro fmpredI) (auto simp: completed_def fmlookup_dom_iff)

lemma completed_knows_more: "knows_more s (completed cd s)"
  by (auto simp: knows_more_def completed_def fmlookup_dom_iff)

lemma updateCluster_completed:
  "updateCluster env s cd pis = Inr cd' \<Longrightarrow> updateCluster env (completed cd s) cd pis = Inr cd'"
  using le_resD [OF le_updateCluster [OF completed_knows_more]] .

section \<open>Changes that keep the invariant\<close>

definition same_identity :: "DB \<Rightarrow> DB \<Rightarrow> bool" where
  "same_identity db db' \<longleftrightarrow> db_UID db' = db_UID db \<and>
     dbs_KeeperUID (db_Spec db') = dbs_KeeperUID (db_Spec db) \<and> role_of db' = role_of db"

text \<open>
  Cluster data with the same databases, in the same roles, on the same keepers, in the same phase and with the same
  master.
\<close>

definition same_shape :: "ClusterData \<Rightarrow> ClusterData \<Rightarrow> bool" where
  "same_shape cd cd' \<longleftrightarrow>
     (\<exists>c c'. cd_Cluster cd = Some c \<and> cd_Cluster cd' = Some c' \<and> c_Status c' = c_Status c) \<and>
     (\<forall>u. fmlookup (cd_Keepers cd) u \<noteq> None \<longrightarrow> fmlookup (cd_Keepers cd') u \<noteq> None) \<and>
     (\<forall>u. rel_option same_identity (fmlookup (cd_DBs cd) u) (fmlookup (cd_DBs cd') u)) \<and>
     map_option (\<lambda>p. ps_MasterDBUID (p_Spec p)) (cd_Proxy cd') = map_option (\<lambda>p. ps_MasterDBUID (p_Spec p)) (cd_Proxy cd)"

lemma same_shapeD:
  assumes "same_shape cd cd'"
  shows "fmlookup (cd_DBs cd) u = Some db \<Longrightarrow> \<exists>db'. fmlookup (cd_DBs cd') u = Some db' \<and> same_identity db db'"
    and "fmlookup (cd_DBs cd') u = Some db' \<Longrightarrow> \<exists>db. fmlookup (cd_DBs cd) u = Some db \<and> same_identity db db'"
    and "fmlookup (cd_DBs cd') u = None \<longleftrightarrow> fmlookup (cd_DBs cd) u = None"
    and "masterUID cd' = masterUID cd"
proof -
  have r: "rel_option same_identity (fmlookup (cd_DBs cd) u) (fmlookup (cd_DBs cd') u)"
    using assms by (simp add: same_shape_def)
  then show "fmlookup (cd_DBs cd) u = Some db \<Longrightarrow> \<exists>db'. fmlookup (cd_DBs cd') u = Some db' \<and> same_identity db db'"
    and "fmlookup (cd_DBs cd') u = Some db' \<Longrightarrow> \<exists>db. fmlookup (cd_DBs cd) u = Some db \<and> same_identity db db'"
    by (auto simp: option_rel_Some1 option_rel_Some2)
  show "fmlookup (cd_DBs cd') u = None \<longleftrightarrow> fmlookup (cd_DBs cd) u = None"
    using r by (cases "fmlookup (cd_DBs cd) u"; cases "fmlookup (cd_DBs cd') u") auto
  show "masterUID cd' = masterUID cd" using assms by (auto simp: same_shape_def masterUID_def)
qed

lemma same_shape_core:
  assumes "same_shape cd cd'" and "core b spec m cd" and "defspec_of cd' = Inr spec'"
    and "b \<Longrightarrow> cs_StandbyConfig spec \<noteq> None \<Longrightarrow> cs_StandbyConfig spec' \<noteq> None"
  shows "core b spec' m cd'"
proof -
  note c = core_simps [OF assms(2)] and d = same_shapeD [OF assms(1)]
  have "uids_ok cd'" unfolding uids_ok_def
    by (intro fmpredI) (metis d(2) same_identity_def uids_okD [OF c(3)])
  moreover have "dbs_have_keepers cd'" unfolding dbs_have_keepers_def
    by (intro fmpredI) (metis d(2) same_identity_def dbs_have_keepersD [OF c(4)] assms(1) same_shape_def)
  moreover have "roles_ok b spec' cd'" unfolding roles_ok_def
  proof (intro fmpredI)
    fix u db' assume "fmlookup (cd_DBs cd') u = Some db'"
    from d(2) [OF this] obtain db where "fmlookup (cd_DBs cd) u = Some db" "same_identity db db'" by blast
    then show "role_ok b spec' db'"
      using roles_okD [OF c(6)] assms(4) by (auto simp: role_ok_def same_identity_def)
  qed
  moreover have "dbType cd' m = Inr dbTypeMaster"
  proof -
    obtain db where db: "fmlookup (cd_DBs cd) m = Some db" using core_master [OF assms(2)] by blast
    from d(1) [OF db] obtain db' where "fmlookup (cd_DBs cd') m = Some db'" "same_identity db db'" by blast
    then show ?thesis using c(7) db by (simp add: dbType_role same_identity_def)
  qed
  moreover have "one_db_per_keeper cd'"
    using c(5) d(2) unfolding one_db_per_keeper_iff same_identity_def by metis
  ultimately show ?thesis using assms(3) d(4) c(2) by (simp add: core_def)
qed

lemma same_shape_initial:
  assumes "same_shape cd cd'" and "initial b spec cd" and "defspec_of cd' = Inr spec'"
    and "b \<Longrightarrow> cs_StandbyConfig spec \<noteq> None \<Longrightarrow> cs_StandbyConfig spec' \<noteq> None"
  shows "initial b spec' cd'"
proof (cases "masterUID cd = ''''")
  case True
  have "fmlookup (cd_DBs cd') u = None" for u
    using same_shapeD(3) [OF assms(1)] assms(2) True by (simp add: initial_def)
  then have "cd_DBs cd' = fmempty" by (intro fmap_ext) simp
  then show ?thesis using True same_shapeD(4) [OF assms(1)] assms(3) by (simp add: initial_def)
next
  case False
  then show ?thesis
    using same_shape_core [OF assms(1) _ assms(3,4)] same_shapeD(4) [OF assms(1)] assms(2) by (simp add: initial_def)
qed

lemma same_shape_proxy:
  "same_shape cd cd' \<Longrightarrow> proxy_ok cd \<Longrightarrow> proxy_ok cd'"
  using same_shapeD(4) [of cd cd']
  by (auto simp: proxy_ok_def same_shape_def split: option.splits)

lemma same_shape_wf:
  assumes "wf_at b cd" and "same_shape cd cd'" and "keepers_ok cd'"
    and "cd_Cluster cd' = Some c'" and "c_Spec c' = Some spec'" and "Validate spec' = None"
    and "\<And>c spec. b \<Longrightarrow> cd_Cluster cd = Some c \<Longrightarrow> c_Spec c = Some spec \<Longrightarrow> cs_StandbyConfig spec \<noteq> None \<Longrightarrow>
      cs_StandbyConfig spec' \<noteq> None"
  shows "wf_at b cd'"
proof -
  from assms(1) obtain c spec where c: "cd_Cluster cd = Some c" "c_Spec c = Some spec"
    and wf: "proxy_ok cd" "fmlookup (cd_DBs cd) '''' = None"
    by (auto simp: wf_at_def split: option.splits)
  have st: "c_Status c' = c_Status c" using assms(2,4) c by (simp add: same_shape_def)
  have ds: "defspec_of cd' = Inr (WithDefaults spec')" using assms(4,5) by (simp add: defspec_of_def cluster_of_def DefSpec_def)
  have sc: "b \<Longrightarrow> cs_StandbyConfig (WithDefaults spec) \<noteq> None \<Longrightarrow> cs_StandbyConfig (WithDefaults spec') \<noteq> None"
    using assms(7) [OF _ c] by simp
  have k: "core b (WithDefaults spec) m cd \<Longrightarrow> core b (WithDefaults spec') m cd'"
    "initial b (WithDefaults spec) cd \<Longrightarrow> initial b (WithDefaults spec') cd'" for m
    using same_shape_core [OF assms(2) _ ds] same_shape_initial [OF assms(2) _ ds] sc by blast+
  have "map_option (\<lambda>p. ps_MasterDBUID (p_Spec p)) (cd_Proxy cd') = map_option (\<lambda>p. ps_MasterDBUID (p_Spec p)) (cd_Proxy cd)"
    using assms(2) by (simp add: same_shape_def)
  then show ?thesis
    using assms(1,3-6) c wf st k same_shape_proxy [OF assms(2)] same_shapeD(3,4) [OF assms(2)]
    by (cases "cst_Phase (c_Status c)") (simp_all add: wf_at_def)
qed

section \<open>The status update keeps the invariant\<close>

lemma keeperHealth_UID: "keeperHealth env s cd k = Inr k' \<Longrightarrow> k_UID k' = k_UID k"
  by (auto simp: keeperHealth_def res_simps Let_def)

lemma keeperStatusFromInfo_UID [simp]: "k_UID (keeperStatusFromInfo fi u k) = k_UID k"
  by (auto simp: keeperStatusFromInfo_def split: option.split)

lemma dbHealth_identity: "dbHealth env s cd db = Inr db' \<Longrightarrow> same_identity db db' \<and> db_Generation db' = db_Generation db \<and>
    st_CurrentGeneration (db_Status db') = st_CurrentGeneration (db_Status db)"
  by (auto simp: dbHealth_def res_simps Let_def same_identity_def role_of_def)

lemma dbStatusFromInfo_identity: "same_identity db (dbStatusFromInfo fi db) \<and> db_Generation (dbStatusFromInfo fi db) = db_Generation db"
  by (auto simp: dbStatusFromInfo_def same_identity_def role_of_def Let_def split: option.split)

lemma same_identity_trans: "same_identity a b \<Longrightarrow> same_identity b c \<Longrightarrow> same_identity a c"
  by (simp add: same_identity_def)

lemma fold_keeps_field: "(\<And>x s. f (g x s) = f s) \<Longrightarrow> f (fold g xs s) = f s"
  by (induction xs arbitrary: s) auto

lemma updateKeepersStatus_keepers:
  assumes "updateKeepersStatus env s cd kis False = Inr (s', cd', kihs)" and "cluster_of cd = Inr c"
    and "infos_ok kis" and "keepers_ok cd"
  shows "fmlookup (cd_Keepers cd) u \<noteq> None \<Longrightarrow> fmlookup (cd_Keepers cd') u \<noteq> None" and "keepers_ok cd'"
proof -
  note run = updateKeepersStatus_run [OF assms(1,2)]
  let ?fi = "freshInfos env s c kis"
  let ?keepers = "addNewKeepers env ?fi (cd_Keepers cd)"
  have io: "infos_ok ?fi"
    unfolding infos_ok_def by (intro fmpredI) (metis lookup_freshInfos infos_okD assms(3))
  note l = lookup_addNewKeepers [OF io]
  show "fmlookup (cd_Keepers cd') u \<noteq> None" if u: "fmlookup (cd_Keepers cd) u \<noteq> None"
  proof -
    from u obtain k where "fmlookup (cd_Keepers cd) u = Some k" by blast
    then have "fmlookup (fmmap_keys (keeperStatusFromInfo ?fi) ?keepers) u = Some (keeperStatusFromInfo ?fi u k)"
      by (simp add: l)
    from fmmapE_ok [OF run(1) this] show ?thesis by auto
  qed
  show "keepers_ok cd'" unfolding keepers_ok_def
  proof (intro fmpredI)
    fix u k' assume "fmlookup (cd_Keepers cd') u = Some k'"
    from fmmapE_backwards [OF run(1) this] obtain k where
      k: "fmlookup (fmmap_keys (keeperStatusFromInfo ?fi) ?keepers) u = Some k"
      and h: "keeperHealth env (markKeepers env ?fi ?keepers s) cd k = Inr k'" by blast
    from k obtain k0 where k0: "fmlookup ?keepers u = Some k0" "k_UID k = k_UID k0" by auto
    have "k_UID k0 = u"
    proof (cases "fmlookup (cd_Keepers cd) u")
      case None
      then obtain ki where "fmlookup ?fi u = Some ki" "k0 = NewKeeperFromKeeperInfo (e_wall env) ki"
        using k0(1) by (auto simp: l)
      then show ?thesis using infos_okD [OF io] by (simp add: NewKeeperFromKeeperInfo_def)
    next
      case (Some k1)
      then show ?thesis using k0(1) assms(4) by (auto simp: l keepers_ok_def)
    qed
    then show "k_UID k' = u" using keeperHealth_UID [OF h] k0(2) by simp
  qed
qed

lemma updateKeepersStatus_dbs:
  assumes "updateKeepersStatus env s cd kis False = Inr (s', cd', kihs)" and "cluster_of cd = Inr c"
    and "fmlookup (cd_DBs cd) u = Some db"
  shows "\<exists>db'. fmlookup (cd_DBs cd') u = Some db' \<and> same_identity db db' \<and> db_Generation db' = db_Generation db \<and>
      st_CurrentGeneration (db_Status db') = st_CurrentGeneration (db_Status (dbStatusFromInfo (freshInfos env s c kis) db))"
proof -
  note run = updateKeepersStatus_run [OF assms(1,2)]
  let ?d = "dbStatusFromInfo (freshInfos env s c kis) db"
  have "fmlookup (fmmap (dbStatusFromInfo (freshInfos env s c kis)) (cd_DBs cd)) u = Some ?d" using assms(3) by simp
  from fmmapE_ok [OF run(3) this] obtain db' where
    h: "dbHealth env s' (cd\<lparr>cd_Keepers := cd_Keepers cd'\<rparr>) ?d = Inr db'" and "fmlookup (cd_DBs cd') u = Some db'" by blast
  then show ?thesis
    using dbHealth_identity [OF h] dbStatusFromInfo_identity [of db "freshInfos env s c kis"] same_identity_trans by metis
qed

lemma dbTimers_convergence: "s_dbConvergenceInfos (dbTimers env fi db s) = s_dbConvergenceInfos s"
  by (simp add: dbTimers_def Let_def SetDBError_def CleanDBError_def
      SetDBNotIncreasingXLogPos_def CleanDBNotIncreasingXLogPos_def split: option.split)

lemma markKeepers_convergence: "s_dbConvergenceInfos (markKeepers env fi ks s) = s_dbConvergenceInfos s"
  unfolding markKeepers_def
  by (rule fold_keeps_field) (auto simp: SetKeeperError_def CleanKeeperError_def split: option.split)

lemma updateKeepersStatus_shape:
  assumes "updateKeepersStatus env s cd kis False = Inr (s', cd', kihs)" and "cluster_of cd = Inr c"
    and "infos_ok kis" and "keepers_ok cd"
  shows "same_shape cd cd'" and "cd_Cluster cd' = cd_Cluster cd"
    and "s_dbConvergenceInfos s' = s_dbConvergenceInfos s"
proof -
  note run = updateKeepersStatus_run [OF assms(1,2)]
  show cl: "cd_Cluster cd' = cd_Cluster cd" by (subst run(4)) simp
  have p: "cd_Proxy cd' = cd_Proxy cd" by (subst run(4)) simp
  have "rel_option same_identity (fmlookup (cd_DBs cd) u) (fmlookup (cd_DBs cd') u)" for u
  proof (cases "fmlookup (cd_DBs cd) u")
    case None
    then have "fmlookup (cd_DBs cd') u = None"
      using fmmapE_lookup [OF run(3), of u] by simp
    then show ?thesis using None by simp
  next
    case (Some db)
    then show ?thesis using updateKeepersStatus_dbs [OF assms(1,2) Some] by auto
  qed
  then show "same_shape cd cd'"
    using updateKeepersStatus_keepers(1) [OF assms] cl p assms(2)
    by (auto simp: same_shape_def cluster_of_def res_simps)
  show "s_dbConvergenceInfos s' = s_dbConvergenceInfos s"
  proof -
    have "s_dbConvergenceInfos (fold (\<lambda>(_ :: string, db). dbTimers env fi db) xs s0) = s_dbConvergenceInfos s0" for fi xs s0
      by (rule fold_keeps_field) (auto simp: dbTimers_convergence)
    then show ?thesis unfolding run(2) by (simp add: markKeepers_convergence)
  qed
qed

section \<open>Leadership\<close>

text \<open>
  \<^verbatim>\<open>NewSentinel\<close>; \<open>initialSpec\<close> is what the file with the initial specification parses to, if there is
  one. The store and the election are created there too.
\<close>

definition NewSentinel :: "string \<Rightarrow> ClusterSpec option \<Rightarrow> Sentinel res" where
  "NewSentinel uid initialSpec =
     (case Option.bind initialSpec Validate of
        Some e \<Rightarrow> Inl (Error (''invalid initial cluster: '' @ e))
      | None \<Rightarrow>
          Inr \<lparr>s_uid = uid, s_lastLeadershipCount = 0, s_leader = False, s_leadershipCount = 0,
            s_initialClusterSpec = initialSpec, s_sleepInterval = DefaultSleepInterval,
            s_requestTimeout = DefaultRequestTimeout, s_keeperErrorTimers = fmempty,
            s_dbErrorTimers = fmempty, s_dbNotIncreasingXLogPos = fmempty, s_dbConvergenceInfos = fmempty,
            s_keeperInfoHistories = fmempty, s_proxyInfoHistories = fmempty\<rparr>)"

text \<open>What \<^verbatim>\<open>electionLoop\<close> does with a message of the election.\<close>

definition electionMessage :: "bool \<Rightarrow> Sentinel \<Rightarrow> Sentinel" where
  "electionMessage elected s =
     (if elected then s\<lparr>s_leader := True, s_leadershipCount := s_leadershipCount s + 1\<rparr>
      else s\<lparr>s_leader := False\<rparr>)"

definition leaderInfo :: "Sentinel \<Rightarrow> bool \<times> nat" where
  "leaderInfo s = (s_leader s, s_leadershipCount s)"

section \<open>The check\<close>

definition updateChangeTimes :: "Env \<Rightarrow> ClusterData \<Rightarrow> ClusterData \<Rightarrow> ClusterData res" where
  "updateChangeTimes env cd newcd =
     (let tnow = e_wall env;
          newcd = newcd\<lparr>cd_ChangeTime := tnow\<rparr>
      in bindE (if cd_Cluster newcd \<noteq> cd_Cluster cd
                then bindE (cluster_of newcd) (\<lambda>c. Inr (newcd\<lparr>cd_Cluster := Some (c\<lparr>c_ChangeTime := tnow\<rparr>)\<rparr>))
                else Inr newcd) (\<lambda>newcd.
         let newcd = newcd\<lparr>
               cd_DBs := fmmap_keys (\<lambda>dbUID db.
                 if fmlookup (cd_DBs cd) dbUID \<noteq> Some db then db\<lparr>db_ChangeTime := tnow\<rparr> else db) (cd_DBs newcd),
               cd_Keepers := fmmap_keys (\<lambda>keeperUID k.
                 if fmlookup (cd_Keepers cd) keeperUID \<noteq> Some k then k\<lparr>k_ChangeTime := tnow\<rparr> else k) (cd_Keepers newcd)\<rparr>
         in if cd_Proxy newcd \<noteq> cd_Proxy cd
            then bindE (deref ''nil Proxy'' (cd_Proxy newcd)) (\<lambda>p.
                   Inr (newcd\<lparr>cd_Proxy := Some (p\<lparr>p_ChangeTime := tnow\<rparr>)\<rparr>))
            else Inr newcd))"

text \<open>What the check reads from the store, in this order; a failed read ends it.\<close>

record CheckInput =
  ci_cd :: "(ClusterData \<times> ClusterData KVPair) option sres"
  ci_setSentinelInfo :: "unit sres"
  ci_keepersInfo :: "KeepersInfo sres"
  ci_proxiesInfo :: "ProxiesInfo sres"

text \<open>The arguments of the call of \<^verbatim>\<open>AtomicPutClusterData\<close>, if there is one.\<close>

type_synonym put = "(ClusterData \<times> ClusterData KVPair option) option"

text \<open>The first check after (re)gaining leadership resets all the internal timers.\<close>

definition resetTimers :: "Env \<Rightarrow> ClusterData \<Rightarrow> Sentinel \<Rightarrow> Sentinel" where
  "resetTimers env cd s =
     updateDBConvergenceInfos env cd
       (s\<lparr>s_keeperErrorTimers := fmempty, s_dbErrorTimers := fmempty, s_dbNotIncreasingXLogPos := fmempty,
          s_keeperInfoHistories := fmempty, s_dbConvergenceInfos := fmempty, s_proxyInfoHistories := fmempty\<rparr>)"

definition leaderCheck ::
  "Env \<Rightarrow> Sentinel \<Rightarrow> ClusterData \<Rightarrow> ClusterData KVPair \<Rightarrow> nat \<Rightarrow> KeepersInfo \<Rightarrow> ProxiesInfo \<Rightarrow> (Sentinel \<times> put) res" where
  "leaderCheck env s cd prevCDPair leadershipCount keepersInfo proxiesInfo =
     (let firstRun = (s_lastLeadershipCount s \<noteq> leadershipCount);
          s = s\<lparr>s_lastLeadershipCount := leadershipCount\<rparr>;
          s = (if firstRun then resetTimers env cd s else s)
      in bindE (updateKeepersStatus env s cd keepersInfo firstRun) (\<lambda>(s, newcd, newKeeperInfoHistories).
         case activeProxiesInfos env s proxiesInfo of (s, activeProxies) \<Rightarrow>
           case updateCluster env s newcd activeProxies of
             Inl (Error _) \<Rightarrow> Inr (s, None)
           | Inl e \<Rightarrow> Inl e
           | Inr newcd \<Rightarrow>
               bindE (updateChangeTimes env cd newcd) (\<lambda>newcd.
                 Inr (updateDBConvergenceInfos env newcd (s\<lparr>s_keeperInfoHistories := newKeeperInfoHistories\<rparr>),
                      Some (newcd, Some prevCDPair)))))"

text \<open>From \<^verbatim>\<open>setSentinelInfo\<close> on.\<close>

definition checkMembers ::
  "Env \<Rightarrow> Sentinel \<Rightarrow> ClusterData \<Rightarrow> ClusterData KVPair \<Rightarrow> CheckInput \<Rightarrow> (Sentinel \<times> put) res" where
  "checkMembers env s cd prevCDPair inp =
     (case (ci_setSentinelInfo inp, ci_keepersInfo inp, ci_proxiesInfo inp) of
        (Inr _, Inr keepersInfo, Inr proxiesInfo) \<Rightarrow>
          (case leaderInfo s of (isLeader, leadershipCount) \<Rightarrow>
            if \<not> isLeader then Inr (s, None)
            else leaderCheck env s cd prevCDPair leadershipCount keepersInfo proxiesInfo)
      | _ \<Rightarrow> Inr (s, None))"

definition clusterSentinelCheck :: "Env \<Rightarrow> Sentinel \<Rightarrow> CheckInput \<Rightarrow> (Sentinel \<times> put) res" where
  "clusterSentinelCheck env s inp =
     (case ci_cd inp of
        Inl _ \<Rightarrow> Inr (s, None)
      | Inr None \<Rightarrow>
          Inr (s, case s_initialClusterSpec s of
                    None \<Rightarrow> None
                  | Some spec \<Rightarrow> Some (NewClusterData (NewCluster (e_wall env) (e_uidFn env 0) (Some spec)), None))
      | Inr (Some (cd, prevCDPair)) \<Rightarrow>
          if cd_FormatVersion cd \<noteq> CurrentCDFormatVersion then Inr (s, None)
          else
            bindE (cluster_of cd) (\<lambda>c.
            bindE (deref ''nil Spec'' (c_Spec c)) (\<lambda>spec.
              if Validate spec \<noteq> None then Inr (s, None)
              else
                bindE (DefSpec c) (\<lambda>dspec.
                  checkMembers env
                    (s\<lparr>s_sleepInterval := def_SleepInterval dspec, s_requestTimeout := def_RequestTimeout dspec\<rparr>)
                    cd prevCDPair inp))))"

section \<open>The check keeps the invariant\<close>

lemma wf_cd_parts:
  assumes "wf_at b cd"
  obtains c spec p where "cd_Cluster cd = Some c" and "c_Spec c = Some spec" and "Validate spec = None"
    and "cd_Proxy cd = Some p" and "keepers_ok cd" and "cluster_of cd = Inr c" and "DefSpec c = Inr (WithDefaults spec)"
    and "defspec_of cd = Inr (WithDefaults spec)"
  using assms
  by (auto simp: wf_at_def proxy_ok_def cluster_of_def DefSpec_def defspec_of_def split: option.splits)

lemma wf_cd_dbs:
  assumes "wf_at b cd"
  shows "uids_ok cd" and "dbs_have_keepers cd"
proof -
  from assms have "cd_DBs cd = fmempty \<or> (\<exists>spec. core b spec (masterUID cd) cd)"
    by (auto simp: wf_at_def initial_def split: option.splits ClusterPhase.splits)
  then show "uids_ok cd" "dbs_have_keepers cd"
    by (auto simp: uids_ok_def dbs_have_keepers_def core_def)
qed

lemma rel_option_map: "(\<And>x. P x (f x)) \<Longrightarrow> rel_option P r (map_option f r)"
  by (cases r) auto

lemma same_shape_wf_spec:
  assumes "wf_at b cd" and "same_shape cd cd'" and "keepers_ok cd'" and "cd_Cluster cd = Some c"
    and "cd_Cluster cd' = Some c'" and "c_Spec c' = c_Spec c"
  shows "wf_at b cd'"
proof -
  obtain spec where "c_Spec c = Some spec" "Validate spec = None" using assms(1,4) by (auto elim: wf_cd_parts)
  then show ?thesis using assms(4,6) by (intro same_shape_wf [OF assms(1-3,5), of spec]) auto
qed

lemma updateChangeTimes_shape:
  assumes "cd_Cluster newcd = Some c" and "cd_Proxy newcd = Some p"
  obtains cd' c' where "updateChangeTimes env cd newcd = Inr cd'" and "same_shape newcd cd'"
    and "keepers_ok newcd \<Longrightarrow> keepers_ok cd'" and "cd_Cluster cd' = Some c'" and "c_Spec c' = c_Spec c"
    and "\<And>u db. fmlookup (cd_DBs newcd) u = Some db \<Longrightarrow> \<exists>db'. fmlookup (cd_DBs cd') u = Some db' \<and>
      db_Status db' = db_Status db \<and> db_Spec db' = db_Spec db \<and> db_Generation db' = db_Generation db"
proof -
  define cd' where "cd' = newcd\<lparr>cd_ChangeTime := e_wall env,
     cd_Cluster := Some (if cd_Cluster newcd \<noteq> cd_Cluster cd then c\<lparr>c_ChangeTime := e_wall env\<rparr> else c),
     cd_DBs := fmmap_keys (\<lambda>dbUID db.
       if fmlookup (cd_DBs cd) dbUID \<noteq> Some db then db\<lparr>db_ChangeTime := e_wall env\<rparr> else db) (cd_DBs newcd),
     cd_Keepers := fmmap_keys (\<lambda>keeperUID k.
       if fmlookup (cd_Keepers cd) keeperUID \<noteq> Some k then k\<lparr>k_ChangeTime := e_wall env\<rparr> else k) (cd_Keepers newcd),
     cd_Proxy := Some (if cd_Proxy newcd \<noteq> cd_Proxy cd then p\<lparr>p_ChangeTime := e_wall env\<rparr> else p)\<rparr>"
  have "updateChangeTimes env cd newcd = Inr cd'"
    using assms by (simp add: updateChangeTimes_def Let_def cd'_def cluster_of_def)
  moreover have "same_shape newcd cd'"
    using assms unfolding same_shape_def
    by (auto simp: cd'_def same_identity_def role_of_def intro!: rel_option_map)
  moreover have "keepers_ok newcd \<Longrightarrow> keepers_ok cd'"
    by (auto simp: keepers_ok_def cd'_def intro!: fmpredI split: if_splits)
  moreover have "\<exists>db'. fmlookup (cd_DBs cd') u = Some db' \<and> db_Status db' = db_Status db \<and>
      db_Spec db' = db_Spec db \<and> db_Generation db' = db_Generation db"
    if "fmlookup (cd_DBs newcd) u = Some db" for u db using that by (simp add: cd'_def)
  ultimately show ?thesis using that [of cd'] by (auto simp: cd'_def)
qed

lemma json_shape:
  assumes "cd_Cluster cd = Some c"
  shows "same_shape cd (json_ClusterData cd)" and "keepers_ok cd \<Longrightarrow> keepers_ok (json_ClusterData cd)"
proof -
  have "rel_option same_identity (fmlookup (cd_DBs cd) u) (fmlookup (fmmap json_DB (cd_DBs cd)) u)" for u
    by (cases "fmlookup (cd_DBs cd) u") (simp_all add: same_identity_def role_of_def json_DB_def)
  then show "same_shape cd (json_ClusterData cd)"
    using assms by (cases "cd_Proxy cd") (simp_all add: same_shape_def json_ClusterData_def json_Cluster_def json_Proxy_def)
qed (simp add: keepers_ok_def json_ClusterData_def)

lemma wf_json: "wf_at b cd \<Longrightarrow> wf_at b (json_ClusterData cd)"
proof -
  assume wf: "wf_at b cd"
  then obtain c spec where c: "cd_Cluster cd = Some c" "c_Spec c = Some spec" "Validate spec = None" "keepers_ok cd"
    by (auto elim: wf_cd_parts)
  show "wf_at b (json_ClusterData cd)"
    by (rule same_shape_wf [OF wf json_shape(1) [OF c(1)] json_shape(2) [OF c(1,4)],
        where c' = "json_Cluster c" and spec' = "json_ClusterSpec spec"])
      (use c in \<open>auto simp: json_ClusterData_def json_Cluster_def json_ClusterSpec_def\<close>)
qed

lemma wf_updateChangeTimes:
  assumes "wf_at b newcd" and "updateChangeTimes env cd newcd = Inr cd'"
  shows "wf_at b cd'"
proof -
  obtain c spec p where c: "cd_Cluster newcd = Some c" "c_Spec c = Some spec" "Validate spec = None"
      "keepers_ok newcd" "cd_Proxy newcd = Some p"
    using assms(1) by (auto elim: wf_cd_parts)
  from updateChangeTimes_shape [OF c(1,5), of env cd] assms(2) obtain c' where
    "same_shape newcd cd'" "keepers_ok cd'" "cd_Cluster cd' = Some c'" "c_Spec c' = c_Spec c"
    using c(4) by (metis sum.inject(2))
  then show ?thesis using same_shape_wf_spec [OF assms(1)] c by blast
qed

lemma wf_updateKeepersStatus:
  assumes "wf_at b cd" and "infos_ok kis" and "updateKeepersStatus env s cd kis firstRun = Inr (s', cd', kihs)"
  shows "wf_at b cd'"
proof (cases firstRun)
  case True
  then show ?thesis using assms by (auto simp: updateKeepersStatus_def res_simps Let_def)
next
  case False
  obtain c spec where c: "cd_Cluster cd = Some c" "c_Spec c = Some spec" "Validate spec = None"
      "keepers_ok cd" "cluster_of cd = Inr c"
    using assms(1) by (auto elim: wf_cd_parts)
  from assms(3) False have run: "updateKeepersStatus env s cd kis False = Inr (s', cd', kihs)" by simp
  note sh = updateKeepersStatus_shape [OF run c(5) assms(2) c(4)]
  show ?thesis
    using same_shape_wf_spec [OF assms(1) sh(1) updateKeepersStatus_keepers(2) [OF run c(5) assms(2) c(4)] c(1)] sh(2) c(1)
    by simp
qed

lemma wf_new: "Validate spec = None \<Longrightarrow> wf_cd (NewClusterData (NewCluster t u (Some spec)))"
  by (simp add: wf_at_def NewClusterData_def NewCluster_def keepers_ok_def proxy_ok_def initial_def
      masterUID_def defspec_of_def cluster_of_def DefSpec_def)

lemma leaderCheck_put:
  assumes "leaderCheck env s cd pair n kis pis = Inr (s', Some (cd', prev))"
  obtains s0 s1 cd1 kihs s2 act cd2 where
    "updateKeepersStatus env s0 cd kis (s_lastLeadershipCount s \<noteq> n) = Inr (s1, cd1, kihs)"
    and "updateCluster env s2 cd1 act = Inr cd2" and "updateChangeTimes env cd cd2 = Inr cd'" and "prev = Some pair"
    and "s' = updateDBConvergenceInfos env cd' (s2\<lparr>s_keeperInfoHistories := kihs\<rparr>)"
proof -
  let ?s = "if s_lastLeadershipCount s \<noteq> n then resetTimers env cd (s\<lparr>s_lastLeadershipCount := n\<rparr>)
      else s\<lparr>s_lastLeadershipCount := n\<rparr>"
  from assms obtain s1 cd1 kihs where
    u: "updateKeepersStatus env ?s cd kis (s_lastLeadershipCount s \<noteq> n) = Inr (s1, cd1, kihs)"
    by (auto simp: leaderCheck_def Let_def res_simps)
  obtain s2 act where a: "activeProxiesInfos env s1 pis = (s2, act)" by fastforce
  show ?thesis
  proof (cases "updateCluster env s2 cd1 act")
    case (Inl e)
    then show ?thesis using assms u a by (cases e) (auto simp: leaderCheck_def Let_def)
  next
    case (Inr cd2)
    then show ?thesis using assms u a that [OF u Inr] by (auto simp: leaderCheck_def Let_def res_simps)
  qed
qed

lemma updateKeepersStatus_lookup:
  assumes "wf_at b cd" and "infos_ok kis" and "updateKeepersStatus env s cd kis firstRun = Inr (s', cd', kihs)"
  shows "fmlookup (cd_DBs cd') u = None \<longleftrightarrow> fmlookup (cd_DBs cd) u = None"
proof (cases firstRun)
  case True
  then show ?thesis using assms by (auto simp: updateKeepersStatus_def res_simps Let_def)
next
  case False
  obtain c where c: "cluster_of cd = Inr c" "keepers_ok cd" using assms(1) by (auto elim: wf_cd_parts)
  from assms(3) False have "updateKeepersStatus env s cd kis False = Inr (s', cd', kihs)" by simp
  from same_shapeD(3) [OF updateKeepersStatus_shape(1) [OF this c(1) assms(2) c(2)]] show ?thesis .
qed

lemma wf_updateCluster:
  assumes "wf_at b cd" and "fresh_uids env cd" and "updateCluster env s cd pis = Inr cd'"
  shows "wf_cd cd'"
  using updateCluster_normal_wf(2) [OF assms(1) completed_ok assms(2), of s pis]
    updateCluster_init(1) [OF assms(1) completed_ok assms(2), of s] updateCluster_completed [OF assms(3)]
  by (cases "phaseOf cd = Some ClusterPhaseNormal") auto

lemma wf_leaderCheck:
  assumes "leaderCheck env s cd pair n kis pis = Inr (s', Some (cd', prev))"
    and "wf_at b cd" and "fresh_uids env cd" and "infos_ok kis"
  shows "wf_cd cd'"
proof -
  obtain s0 s1 cd1 kihs s2 act cd2 where
    u: "updateKeepersStatus env s0 cd kis (s_lastLeadershipCount s \<noteq> n) = Inr (s1, cd1, kihs)"
    "updateCluster env s2 cd1 act = Inr cd2" "updateChangeTimes env cd cd2 = Inr cd'" "prev = Some pair"
    "s' = updateDBConvergenceInfos env cd' (s2\<lparr>s_keeperInfoHistories := kihs\<rparr>)"
    by (rule leaderCheck_put [OF assms(1)])
  have "fresh_uids env cd1"
    using assms(3) updateKeepersStatus_lookup [OF assms(2,4) u(1)] by (simp add: fresh_uids_def)
  from wf_updateChangeTimes [OF wf_updateCluster [OF wf_updateKeepersStatus [OF assms(2,4) u(1)] this u(2)] u(3)]
  show ?thesis .
qed

lemma checkMembers_cases:
  "checkMembers env s cd pair inp = Inr (s, None) \<or>
   (\<exists>kis pis. checkMembers env s cd pair inp = leaderCheck env s cd pair (s_leadershipCount s) kis pis \<and> s_leader s \<and>
      ci_keepersInfo inp = Inr kis \<and> ci_proxiesInfo inp = Inr pis)"
  by (cases "ci_setSentinelInfo inp"; cases "ci_keepersInfo inp"; cases "ci_proxiesInfo inp"; cases "s_leader s")
    (simp_all add: checkMembers_def leaderInfo_def)

lemma check_leads:
  assumes "ci_cd inp = Inr (Some (cd, pair))" and "clusterSentinelCheck env s inp = Inr (s', Some put)"
  shows "\<exists>s0 kis pis. leaderCheck env s0 cd pair (s_leadershipCount s) kis pis = Inr (s', Some put) \<and>
    ci_keepersInfo inp = Inr kis \<and> s_leader s"
proof -
  from assms obtain c where c: "cluster_of cd = Inr c"
    by (auto simp: clusterSentinelCheck_def res_simps split: if_splits)
  then obtain dspec where ds: "DefSpec c = Inr dspec"
    using assms by (auto simp: clusterSentinelCheck_def res_simps split: if_splits)
  define s0 where "s0 = s\<lparr>s_sleepInterval := def_SleepInterval dspec, s_requestTimeout := def_RequestTimeout dspec\<rparr>"
  have s0: "s_leader s0 = s_leader s" "s_leadershipCount s0 = s_leadershipCount s" by (simp_all add: s0_def)
  have m: "checkMembers env s0 cd pair inp = Inr (s', Some put)"
    using assms c ds by (auto simp: clusterSentinelCheck_def res_simps s0_def split: if_splits)
  have "checkMembers env s0 cd pair inp \<noteq> Inr (s0, None)" by (simp add: m)
  with checkMembers_cases [of env s0 cd pair inp] show ?thesis unfolding s0 m by metis
qed

lemma check_result:
  assumes "clusterSentinelCheck env s inp = Inr (s', Some (cd', prev))"
    and "\<And>cd pair. ci_cd inp = Inr (Some (cd, pair)) \<Longrightarrow> sound_cd cd \<and> fresh_uids env cd"
    and "\<And>kis. ci_keepersInfo inp = Inr kis \<Longrightarrow> infos_ok kis"
    and "\<And>spec. s_initialClusterSpec s = Some spec \<Longrightarrow> Validate spec = None"
  shows "wf_cd (json_ClusterData cd') \<and>
    ((\<exists>cd pair. ci_cd inp = Inr (Some (cd, pair)) \<and> prev = Some pair \<and> s_leader s) \<or>
     ci_cd inp = Inr None \<and> prev = None \<and> s_initialClusterSpec s \<noteq> None)"
proof (cases "ci_cd inp")
  case (Inl e)
  then show ?thesis using assms(1) by (simp add: clusterSentinelCheck_def)
next
  case (Inr r)
  show ?thesis
  proof (cases r)
    case None
    then obtain spec where "s_initialClusterSpec s = Some spec" "prev = None"
        "cd' = NewClusterData (NewCluster (e_wall env) (e_uidFn env 0) (Some spec))"
      using assms(1) Inr by (auto simp: clusterSentinelCheck_def split: option.splits)
    then show ?thesis using assms(4) wf_json [OF wf_new] Inr None by simp
  next
    case (Some a)
    obtain cd pair where a: "a = (cd, pair)" by fastforce
    have wf: "sound_cd cd" "fresh_uids env cd" using assms(2) Inr Some a by auto
    have i: "ci_cd inp = Inr (Some (cd, pair))" using Inr Some a by simp
    obtain s0 kis pis where
      l: "leaderCheck env s0 cd pair (s_leadershipCount s) kis pis = Inr (s', Some (cd', prev))"
      and k: "ci_keepersInfo inp = Inr kis" and ld: "s_leader s"
      using check_leads [OF i assms(1)] by blast
    have "prev = Some pair" by (rule leaderCheck_put [OF l])
    then show ?thesis using wf_json [OF wf_leaderCheck [OF l wf assms(3) [OF k]]] ld Inr Some a by blast
  qed
qed

text \<open>
  C10. A check of a sentinel, whatever its own state, writes only well-formed cluster data. It overwrites existing
  cluster data only if the sentinel is the leader, and then with the pair it read, so that the
  store refuses the write if the cluster data has changed in between; it creates cluster data only
  if it found none and was given an initial specification, and then so that an existing one is not overwritten.
\<close>

theorem check_safe:
  assumes "clusterSentinelCheck env s inp = Inr (s', Some (cd', prev))"
    and "\<And>cd pair. ci_cd inp = Inr (Some (cd, pair)) \<Longrightarrow> sound_cd cd \<and> fresh_uids env cd"
    and "\<And>kis. ci_keepersInfo inp = Inr kis \<Longrightarrow> infos_ok kis"
    and "\<And>spec. s_initialClusterSpec s = Some spec \<Longrightarrow> Validate spec = None"
  shows "wf_cd (json_ClusterData cd') \<and>
    ((\<exists>cd pair. ci_cd inp = Inr (Some (cd, pair)) \<and> prev = Some pair \<and> s_leader s) \<or>
     ci_cd inp = Inr None \<and> prev = None \<and> s_initialClusterSpec s \<noteq> None)"
  by (rule check_result [OF assms])

section \<open>The check returns\<close>

text \<open>No keeper reports that a converged database is at another generation than the one it converged to.\<close>

definition reports_current :: "ClusterData \<Rightarrow> KeepersInfo \<Rightarrow> bool" where
  "reports_current cd kis =
     fmpred (\<lambda>_ db. st_CurrentGeneration (db_Status db) = db_Generation db \<longrightarrow>
       (case reportedState kis db of None \<Rightarrow> True | Some st \<Rightarrow> pst_Generation st = db_Generation db)) (cd_DBs cd)"

lemma reportedState_fresh:
  assumes "infos_ok kis" and "reportedState (freshInfos env s c kis) db = Some st"
  shows "reportedState kis db = Some st"
  using assms lookup_freshInfos [OF assms(1), of env s c]
  by (auto simp: reportedState_def split: option.splits if_splits)

lemma convergence_updateKeepersStatus:
  assumes "updateKeepersStatus env s cd kis False = Inr (s', cd', kihs)" and "wf_at b cd" and "infos_ok kis"
    and "convergence_ok s cd" and "reports_current cd kis"
  shows "convergence_ok s' cd'"
  unfolding convergence_ok_def
proof (intro fmpredI)
  fix u db' assume db': "fmlookup (cd_DBs cd') u = Some db'"
  obtain c where c: "cluster_of cd = Inr c" "keepers_ok cd" using assms(2) by (auto elim: wf_cd_parts)
  note sh = updateKeepersStatus_shape [OF assms(1) c(1) assms(3) c(2)]
  from same_shapeD(2) [OF sh(1) db'] obtain db where db: "fmlookup (cd_DBs cd) u = Some db" by blast
  let ?fi = "freshInfos env s c kis"
  from updateKeepersStatus_dbs [OF assms(1) c(1) db] db'
  have g: "db_Generation db' = db_Generation db"
    "st_CurrentGeneration (db_Status db') = st_CurrentGeneration (db_Status (dbStatusFromInfo ?fi db))" by auto
  show "st_CurrentGeneration (db_Status db') = db_Generation db' \<or> fmlookup (s_dbConvergenceInfos s') u \<noteq> None"
  proof (cases "st_CurrentGeneration (db_Status db) = db_Generation db")
    case True
    have "case reportedState kis db of None \<Rightarrow> True | Some st \<Rightarrow> pst_Generation st = db_Generation db"
      using assms(5) db True by (auto simp: reports_current_def)
    then have "st_CurrentGeneration (db_Status (dbStatusFromInfo ?fi db)) = db_Generation db"
      using True reportedState_fresh [OF assms(3), of env s c db]
      by (cases "reportedState ?fi db") (simp_all add: dbStatusFromInfo_def Let_def)
    then show ?thesis using g by simp
  next
    case False
    then have "fmlookup (s_dbConvergenceInfos s) u \<noteq> None" using assms(4) db by (auto simp: convergence_ok_def)
    then show ?thesis by (simp add: sh(3))
  qed
qed

lemma convergence_resetTimers: "uids_ok cd \<Longrightarrow> convergence_ok (resetTimers env cd s) cd"
  unfolding resetTimers_def by (rule updateDBConvergenceInfos_ok)

lemma leaderCheck_returns:
  assumes wf: "wf_cd cd" and "fresh_uids env cd" and infos: "infos_ok kis"
    and rand: "\<And>n. 0 < n \<Longrightarrow> e_randFn env n < n"
    and conv: "s_lastLeadershipCount s \<noteq> n \<or> convergence_ok s cd \<and> reports_current cd kis"
  shows "\<exists>s' put. leaderCheck env s cd pair n kis pis = Inr (s', put) \<and>
    (phaseOf cd = Some ClusterPhaseNormal \<longrightarrow> (\<exists>cd'. put = Some (cd', Some pair))) \<and>
    (\<forall>cd' prev. put = Some (cd', prev) \<longrightarrow> convergence_ok s' cd')"
proof -
  let ?first = "s_lastLeadershipCount s \<noteq> n"
  define s0 where "s0 = (if ?first then resetTimers env cd (s\<lparr>s_lastLeadershipCount := n\<rparr>)
      else s\<lparr>s_lastLeadershipCount := n\<rparr>)"
  obtain c spec where c: "cluster_of cd = Inr c" "DefSpec c = Inr (WithDefaults spec)" "keepers_ok cd"
    using wf by (auto elim: wf_cd_parts)
  note db = wf_cd_dbs [OF wf]
  have "is_ok (updateKeepersStatus env s0 cd kis ?first)" by (rule is_ok_updateKeepersStatus [OF c(1,2) db(2) infos])
  then obtain s1 cd1 kihs where u: "updateKeepersStatus env s0 cd kis ?first = Inr (s1, cd1, kihs)"
    by (auto simp: is_ok_iff)
  have conv1: "convergence_ok s1 cd1"
  proof (cases ?first)
    case True
    then have "s1 = s0" "cd1 = cd" using u by (auto simp: updateKeepersStatus_def c(1) Let_def)
    then show ?thesis using True convergence_resetTimers [OF db(1)] by (simp add: s0_def)
  next
    case False
    have "convergence_ok s0 cd" using conv False by (simp add: s0_def convergence_ok_def)
    moreover have "updateKeepersStatus env s0 cd kis False = Inr (s1, cd1, kihs)" using u False by simp
    ultimately show ?thesis using convergence_updateKeepersStatus [OF _ wf infos] conv False by blast
  qed
  obtain s2 act where a: "activeProxiesInfos env s1 pis = (s2, act)" by fastforce
  then have conv2: "convergence_ok s2 cd1" using conv1 by (auto simp: activeProxiesInfos_def Let_def convergence_ok_def)
  have wf1: "wf_cd cd1" by (rule wf_updateKeepersStatus [OF wf infos u])
  have fr: "fresh_uids env cd1" using assms(2) updateKeepersStatus_lookup [OF wf infos u] by (simp add: fresh_uids_def)
  have ph: "phaseOf cd1 = phaseOf cd"
  proof (cases ?first)
    case True
    then show ?thesis using u by (auto simp: updateKeepersStatus_def c(1) Let_def)
  next
    case False
    then have "updateKeepersStatus env s0 cd kis False = Inr (s1, cd1, kihs)" using u by simp
    from updateKeepersStatus_shape(2) [OF this c(1) infos c(3)] show ?thesis by (simp add: phaseOf_def)
  qed
  have run: "leaderCheck env s cd pair n kis pis =
      (case updateCluster env s2 cd1 act of
             Inl (Error _) \<Rightarrow> Inr (s2, None)
           | Inl e \<Rightarrow> Inl e
           | Inr newcd \<Rightarrow>
               bindE (updateChangeTimes env cd newcd) (\<lambda>newcd.
                 Inr (updateDBConvergenceInfos env newcd (s2\<lparr>s_keeperInfoHistories := kihs\<rparr>),
                      Some (newcd, Some pair))))"
    using u a by (simp add: leaderCheck_def Let_def s0_def)
  show ?thesis
  proof (cases "updateCluster env s2 cd1 act")
    case (Inr cd2)
    have wf2: "wf_cd cd2" by (rule wf_updateCluster [OF wf1 fr Inr])
    obtain c2 p where c2: "cd_Cluster cd2 = Some c2" "cd_Proxy cd2 = Some p" using wf2 by (auto elim: wf_cd_parts)
    obtain cd3 where cd3: "updateChangeTimes env cd cd2 = Inr cd3"
      by (rule updateChangeTimes_shape [OF c2, of env cd])
    have "uids_ok cd3" by (rule wf_cd_dbs(1) [OF wf_updateChangeTimes [OF wf2 cd3]])
    from updateDBConvergenceInfos_ok [OF this] show ?thesis using run Inr cd3 by auto
  next
    case (Inl e)
    have "phaseOf cd1 \<noteq> Some ClusterPhaseNormal" using updateCluster_normal_wf(1) [OF wf1 conv2 fr, of act] Inl by auto
    from updateCluster_init(2) [OF wf1 conv2 fr this TrueI rand, of act] Inl have "\<exists>m. e = Error m" by (cases e) auto
    then show ?thesis using run Inl ph \<open>phaseOf cd1 \<noteq> Some ClusterPhaseNormal\<close> by auto
  qed
qed

text \<open>
  C11. When a check of a leader returns. Let the store and the members answer and the cluster data be well-formed, and let this be
  the first check of a leadership, or let the sentinel have convergence information for all databases that are not converged
  and let no keeper report an old generation for a converged one. Then the check does not panic, in the normal phase it ends
  with a write, and the convergence information is complete for the cluster data it writes. Without that information the
  code panics: \<^verbatim>\<open>dbConvergenceState\<close> has no time to measure from.
\<close>

theorem check_returns:
  assumes "ci_cd inp = Inr (Some (cd, pair))" and "ci_setSentinelInfo inp = Inr ()"
    and "ci_keepersInfo inp = Inr kis" and "ci_proxiesInfo inp = Inr pis" and "s_leader s"
    and "wf_cd cd" and "cd_FormatVersion cd = CurrentCDFormatVersion" and "fresh_uids env cd" and "infos_ok kis"
    and "\<And>n. 0 < n \<Longrightarrow> e_randFn env n < n"
    and "s_lastLeadershipCount s \<noteq> s_leadershipCount s \<or> convergence_ok s cd \<and> reports_current cd kis"
  shows "\<exists>s' put. clusterSentinelCheck env s inp = Inr (s', put) \<and>
    (phaseOf cd = Some ClusterPhaseNormal \<longrightarrow> (\<exists>cd'. put = Some (cd', Some pair))) \<and>
    (\<forall>cd' prev. put = Some (cd', prev) \<longrightarrow> convergence_ok s' cd')"
proof -
  obtain c spec where c: "cluster_of cd = Inr c" "c_Spec c = Some spec" "Validate spec = None" "DefSpec c = Inr (WithDefaults spec)"
    using assms(6) by (auto elim: wf_cd_parts)
  define s0 where "s0 = s\<lparr>s_sleepInterval := def_SleepInterval (WithDefaults spec),
      s_requestTimeout := def_RequestTimeout (WithDefaults spec)\<rparr>"
  have "clusterSentinelCheck env s inp = leaderCheck env s0 cd pair (s_leadershipCount s) kis pis"
    using assms(1-5,7) c by (simp add: clusterSentinelCheck_def checkMembers_def leaderInfo_def s0_def)
  moreover have "s_lastLeadershipCount s0 \<noteq> s_leadershipCount s \<or> convergence_ok s0 cd \<and> reports_current cd kis"
    using assms(11) by (simp add: s0_def convergence_ok_def)
  ultimately show ?thesis using leaderCheck_returns [OF assms(6,8,9,10)] by presburger
qed

text \<open>
  C9. The invariant of the cluster data. Whatever the sentinel knows, \<^verbatim>\<open>updateCluster\<close> keeps cluster data
  well-formed, in the initialization and in the normal phase: the specification is valid, keepers and
  databases are keyed by their UIDs, every database has an existing keeper and no two share one, every
  database has a role the code can handle, the master is an existing database with the role of a
  master, and the proxies are told this master or none.
\<close>

theorem wf_preserved:
  assumes "wf_cd cd" and "fresh_uids env cd" and "updateCluster env s cd pis = Inr cd'"
  shows "wf_cd cd'"
  by (rule wf_updateCluster [OF assms])

section \<open>Examples\<close>

definition example_pair :: "ClusterData KVPair" where
  "example_pair = \<lparr>kv_Key = ''k'', kv_Value = JSON example_cd, kv_LastIndex = 7\<rparr>"

definition example_input :: CheckInput where
  "example_input = \<lparr>ci_cd = Inr (Some (example_cd, example_pair)), ci_setSentinelInfo = Inr (),
     ci_keepersInfo = Inr example_infos, ci_proxiesInfo = Inr example_proxies\<rparr>"

definition example_leader :: Sentinel where
  "example_leader = example_sentinel\<lparr>s_leadershipCount := 2\<rparr>"

lemma example_cd_wf: "wf_cd example_cd"
  by code_simp

lemma example_cd_fresh: "fresh_uids example_env example_cd"
  by (auto simp: fresh_uids_def example_env_def example_cd_def)

lemma example_rand: "0 < n \<Longrightarrow> e_randFn example_env n < n"
  by (simp add: example_env_def)

theorem wf_preserved_witness: "wf_cd example_cd2"
  by (rule wf_preserved [OF example_cd1_wf(1) example_fresh_uids example_update])

theorem check_returns_witness:
  "\<exists>s' cd'. clusterSentinelCheck example_env example_leader example_input = Inr (s', Some (cd', Some example_pair)) \<and>
     convergence_ok s' cd'"
proof -
  have "s_lastLeadershipCount example_leader \<noteq> s_leadershipCount example_leader" "s_leader example_leader"
      "cd_FormatVersion example_cd = CurrentCDFormatVersion" "phaseOf example_cd = Some ClusterPhaseNormal"
    by code_simp+
  then show ?thesis
    using check_returns [of example_input example_cd example_pair example_infos example_proxies example_leader example_env]
      example_cd_wf example_cd_fresh example_wf(4) example_rand by (auto simp: example_input_def)
qed

theorem check_safe_witness:
  "\<exists>s' cd'. clusterSentinelCheck example_env example_sentinel example_input = Inr (s', Some (cd', Some example_pair)) \<and>
     wf_cd (json_ClusterData cd')"
proof -
  have "is_ok (clusterSentinelCheck example_env example_sentinel example_input) \<and>
      snd (projr (clusterSentinelCheck example_env example_sentinel example_input)) \<noteq> None" by code_simp
  then obtain s' cd' prev where
    r: "clusterSentinelCheck example_env example_sentinel example_input = Inr (s', Some (cd', prev))"
    by (auto simp: is_ok_iff)
  have "s_initialClusterSpec example_sentinel = None" by code_simp
  then show ?thesis
    using check_safe [OF r] r wf_sound [OF example_cd_wf] example_cd_fresh example_wf(4) by (auto simp: example_input_def)
qed

end
