(* ===== verification/Stolonctl.thy ===== *)
theory Stolonctl
  imports Sentinel_Check
begin

text \<open>
  The commands of \<^verbatim>\<open>stolonctl\<close> that change the cluster data: \<^verbatim>\<open>init\<close>,
  \<^verbatim>\<open>update\<close>, \<^verbatim>\<open>promote\<close>, \<^verbatim>\<open>failkeeper\<close> and
  \<^verbatim>\<open>removekeeper\<close>. What a command makes of the cluster data is a function of it; the command itself reads,
  computes and puts, over the calls of the store. \<^verbatim>\<open>die\<close> is an error.
\<close>

section \<open>Reading the cluster data\<close>

definition getClusterData :: "(ClusterData \<times> ClusterData KVPair) option sres \<Rightarrow> (ClusterData \<times> ClusterData KVPair) res" where
  "getClusterData r =
     (case r of
        Inl _ \<Rightarrow> Inl (Error ''cannot get cluster data'')
      | Inr None \<Rightarrow> Inl (Error ''nil cluster data'')
      | Inr (Some (cd, pair)) \<Rightarrow>
          if cd_FormatVersion cd \<noteq> CurrentCDFormatVersion then Inl (Error ''unsupported cluster data format version'')
          else
            bindE (cluster_of cd) (\<lambda>c.
            bindE (deref ''nil Spec'' (c_Spec c)) (\<lambda>spec.
              case Validate spec of
                Some e \<Rightarrow> Inl (Error (''clusterdata validation failed: '' @ e))
              | None \<Rightarrow> Inr (cd, pair))))"

section \<open>What the commands do to the cluster data\<close>

definition getDbForKeeper :: "iter_order \<Rightarrow> DBs \<Rightarrow> string \<Rightarrow> DB option" where
  "getDbForKeeper ord dbs keeperID =
     map_option snd (find (\<lambda>(_, db). dbs_KeeperUID (db_Spec db) = keeperID) (range_by ord dbs))"

text \<open>The two checks every command makes after reading.\<close>

definition ctlCluster :: "ClusterData \<Rightarrow> (Cluster \<times> ClusterSpec) res" where
  "ctlCluster cd =
     (case cd_Cluster cd of
        None \<Rightarrow> Inl (Error ''no cluster spec available'')
      | Some c \<Rightarrow>
          (case c_Spec c of
             None \<Rightarrow> Inl (Error ''no cluster spec available'')
           | Some spec \<Rightarrow> Inr (c, spec)))"

definition keeperArg :: "string list \<Rightarrow> string res" where
  "keeperArg args =
     (case args of
        [] \<Rightarrow> Inl (Error ''keeper uid required'')
      | [keeperID] \<Rightarrow> Inr keeperID
      | _ \<Rightarrow> Inl (Error ''too many arguments''))"

definition removeKeeper_cd :: "iter_order \<Rightarrow> string \<Rightarrow> ClusterData \<Rightarrow> ClusterData res" where
  "removeKeeper_cd ord keeperID cd =
     bindE (ctlCluster cd) (\<lambda>(c, _).
       case fmlookup (cd_Keepers cd) keeperID of
         None \<Rightarrow> Inl (Error (''keeper doesn'' @ [CHR 39] @ ''t exist''))
       | Some _ \<Rightarrow>
           (case getDbForKeeper ord (cd_DBs cd) keeperID of
              None \<Rightarrow> Inr (cd\<lparr>cd_Keepers := fmdrop keeperID (cd_Keepers cd)\<rparr>)
            | Some keeperDb \<Rightarrow>
                if cst_Master (c_Status c) = db_UID keeperDb
                then Inl (Error ''keeper assigned db is the current cluster master db.'')
                else Inr (cd\<lparr>cd_Keepers := fmdrop keeperID (cd_Keepers cd),
                             cd_DBs := fmdrop (db_UID keeperDb) (cd_DBs cd)\<rparr>)))"

definition failKeeper_cd :: "string \<Rightarrow> ClusterData \<Rightarrow> ClusterData res" where
  "failKeeper_cd keeperID cd =
     bindE (ctlCluster cd) (\<lambda>_.
       case fmlookup (cd_Keepers cd) keeperID of
         None \<Rightarrow> Inl (Error (''keeper doesn'' @ [CHR 39] @ ''t exist''))
       | Some k \<Rightarrow>
           Inr (cd\<lparr>cd_Keepers := fmupd keeperID (k\<lparr>k_Status := (k_Status k)\<lparr>ks_ForceFail := True\<rparr>\<rparr>) (cd_Keepers cd)\<rparr>))"

text \<open>
  \<^verbatim>\<open>promote\<close>: the role is set in the specification itself before \<^verbatim>\<open>UpdateSpec\<close> is
  given this same specification. \<open>None\<close> is the exit when the cluster is a master cluster already.
\<close>

definition promote_cd :: "ClusterData \<Rightarrow> ClusterData option res" where
  "promote_cd cd =
     bindE (ctlCluster cd) (\<lambda>(c, spec).
       if def_Role (WithDefaults spec) = ClusterRoleMaster then Inr None
       else
         let spec = spec\<lparr>cs_Role := Some ClusterRoleMaster\<rparr>
         in bindE (UpdateSpec (c\<lparr>c_Spec := Some spec\<rparr>) spec) (\<lambda>c. Inr (Some (cd\<lparr>cd_Cluster := Some c\<rparr>))))"

text \<open>
  \<^verbatim>\<open>update\<close>: \<open>newSpec\<close> is the new specification from the current one: the patched one
  (\<^verbatim>\<open>patchClusterSpec\<close>, by the strategic merge patch of the kubernetes libraries) or the parsed argument.
\<close>

definition update_cd :: "(ClusterSpec \<Rightarrow> ClusterSpec res) \<Rightarrow> ClusterData \<Rightarrow> ClusterData option res" where
  "update_cd newSpec cd =
     bindE (ctlCluster cd) (\<lambda>(c, spec).
     bindE (newSpec spec) (\<lambda>newcs.
     bindE (UpdateSpec c newcs) (\<lambda>c. Inr (Some (cd\<lparr>cd_Cluster := Some c\<rparr>)))))"

text \<open>
  \<^verbatim>\<open>init\<close>: without an argument the specification is the empty one with init mode
  \<^verbatim>\<open>new\<close>.
\<close>

definition zero_ClusterSpec :: ClusterSpec where
  "zero_ClusterSpec =
     \<lparr>cs_SleepInterval = None, cs_RequestTimeout = None, cs_ConvergenceTimeout = None,
      cs_InitTimeout = None, cs_SyncTimeout = None, cs_FailInterval = None,
      cs_DeadKeeperRemovalInterval = None, cs_MaxStandbys = None, cs_MaxStandbysPerSender = None,
      cs_MaxStandbyLag = None, cs_SynchronousReplication = None, cs_MinSynchronousStandbys = None,
      cs_MaxSynchronousStandbys = None, cs_AdditionalWalSenders = None,
      cs_AdditionalMasterReplicationSlots = None, cs_UsePgrewind = None,
      cs_InitMode = None, cs_MergePgParameters = None, cs_Role = None,
      cs_NewConfig = None, cs_PITRConfig = None, cs_ExistingConfig = None, cs_StandbyConfig = None,
      cs_DefaultSUReplAccessMode = None, cs_PGParameters = None, cs_PGHBA = None\<rparr>"

definition initCluster_cd :: "gotime \<Rightarrow> string \<Rightarrow> ClusterSpec res option \<Rightarrow> ClusterData res" where
  "initCluster_cd tnow uid data =
     bindE (case data of
              None \<Rightarrow> Inr (zero_ClusterSpec\<lparr>cs_InitMode := Some ClusterInitModeNew\<rparr>)
            | Some r \<Rightarrow> r) (\<lambda>cs.
       case Validate cs of
         Some e \<Rightarrow> Inl (Error (''invalid cluster spec: '' @ e))
       | None \<Rightarrow> Inr (NewClusterData (NewCluster tnow uid (Some cs))))"

section \<open>The commands\<close>

text \<open>
  A command reads, computes and puts. Between the read and the put other clients may write: \<open>others st\<close> is the
  store when the put reaches it.
\<close>

definition ctlOnce ::
  "('kv \<Rightarrow> (ClusterData \<times> ClusterData KVPair) option sres) \<Rightarrow>
   (ClusterData \<Rightarrow> ClusterData KVPair option \<Rightarrow> 'kv \<Rightarrow> 'kv \<times> ClusterData KVPair sres) \<Rightarrow>
   ('kv \<Rightarrow> 'kv) \<Rightarrow> (ClusterData \<Rightarrow> ClusterData res) \<Rightarrow> 'kv \<Rightarrow> 'kv \<times> unit res" where
  "ctlOnce get aput others f st =
     (case bindE (getClusterData (get st)) (\<lambda>(cd, pair). bindE (f cd) (\<lambda>cd'. Inr (cd', pair))) of
        Inl e \<Rightarrow> (st, Inl e)
      | Inr (cd', pair) \<Rightarrow>
          (case aput cd' (Some pair) (others st) of
             (st', Inl _) \<Rightarrow> (st', Inl (Error ''cannot update cluster data''))
           | (st', Inr _) \<Rightarrow> (st', Inr ())))"

definition removeKeeper where
  "removeKeeper get aput others ord args st =
     (case keeperArg args of Inl e \<Rightarrow> (st, Inl e) | Inr k \<Rightarrow> ctlOnce get aput others (removeKeeper_cd ord k) st)"

definition failKeeper where
  "failKeeper get aput others args st =
     (case keeperArg args of Inl e \<Rightarrow> (st, Inl e) | Inr k \<Rightarrow> ctlOnce get aput others (failKeeper_cd k) st)"

text \<open>
  The loop of \<^verbatim>\<open>promote\<close> and \<^verbatim>\<open>update\<close>: it is done again if the cluster data has
  been modified between reading and writing, at most \<^verbatim>\<open>maxRetries\<close> times. \<open>others n st\<close> is the
  store when the put of an attempt reaches it, with \<open>n\<close> attempts left. The result is whether something was written.
\<close>

definition maxRetries :: nat where "maxRetries = 3"

fun ctlRetry ::
  "('kv \<Rightarrow> (ClusterData \<times> ClusterData KVPair) option sres) \<Rightarrow>
   (ClusterData \<Rightarrow> ClusterData KVPair option \<Rightarrow> 'kv \<Rightarrow> 'kv \<times> ClusterData KVPair sres) \<Rightarrow>
   (nat \<Rightarrow> 'kv \<Rightarrow> 'kv) \<Rightarrow> (ClusterData \<Rightarrow> ClusterData option res) \<Rightarrow> nat \<Rightarrow> 'kv \<Rightarrow> 'kv \<times> bool res" where
  "ctlRetry get aput others f 0 st = (st, Inl (Error ''failed to update cluster data after retries''))"
| "ctlRetry get aput others f (Suc n) st =
     (case bindE (getClusterData (get st)) (\<lambda>(cd, pair). bindE (f cd) (\<lambda>r. Inr (r, pair))) of
        Inl e \<Rightarrow> (st, Inl e)
      | Inr (None, _) \<Rightarrow> (st, Inr False)
      | Inr (Some cd', pair) \<Rightarrow>
          (case aput cd' (Some pair) (others n st) of
             (st', Inl ErrKeyModified) \<Rightarrow> ctlRetry get aput others f n st'
           | (st', Inl _) \<Rightarrow> (st', Inl (Error ''cannot update cluster data''))
           | (st', Inr _) \<Rightarrow> (st', Inr True)))"

text \<open>\<open>stdin\<close> is the rest of the input as the lines that are terminated; after them comes the end of the input.\<close>

fun askConfirmation :: "string list \<Rightarrow> bool res" where
  "askConfirmation [] = Inl (Error ''error reading input'')"
| "askConfirmation (input # stdin) =
     (if input = ''yes\<newline>'' then Inr True
      else if input = ''no\<newline>'' then Inr False
      else askConfirmation stdin)"

definition promote where
  "promote get aput others args forceYes stdin st =
     (if args \<noteq> [] then (st, Inl (Error ''too many arguments'')) else
      case (if forceYes then Inr True else askConfirmation stdin) of
        Inl e \<Rightarrow> (st, Inl e)
      | Inr accepted \<Rightarrow>
          if \<not> accepted then (st, Inr False)
          else ctlRetry get aput others promote_cd maxRetries st)"

text \<open>
  \<open>file\<close> is the option \<^verbatim>\<open>--file\<close>, \<open>newSpec\<close> what the argument or the file makes of
  the specification.
\<close>

definition update where
  "update get aput others args file newSpec st =
     (if length args > 1 then (st, Inl (Error ''too many arguments''))
      else if file = '''' \<and> length args < 1 then (st, Inl (Error ''no cluster spec provided''))
      else if file \<noteq> '''' \<and> length args = 1 then (st, Inl (Error ''only one of cluster spec or file must be provided''))
      else ctlRetry get aput others (update_cd newSpec) maxRetries st)"

definition initCluster where
  "initCluster get put others args tnow uid data forceYes stdin st =
     (if length args > 1 then (st, Inl (Error ''too many arguments'')) else
      case get st of
        Inl _ \<Rightarrow> (st, Inl (Error ''cannot get cluster data''))
      | Inr _ \<Rightarrow>
          (case (if forceYes then Inr True else askConfirmation stdin) of
             Inl e \<Rightarrow> (st, Inl e)
           | Inr accepted \<Rightarrow>
               if \<not> accepted then (st, Inr False)
               else
                 (case get (others st) of
                    Inl _ \<Rightarrow> (others st, Inl (Error ''cannot get cluster data''))
                  | Inr _ \<Rightarrow>
                      (case initCluster_cd tnow uid data of
                         Inl e \<Rightarrow> (others st, Inl e)
                       | Inr cd \<Rightarrow>
                           (case put cd (others st) of
                              (st', Inl _) \<Rightarrow> (st', Inl (Error ''cannot update cluster data''))
                            | (st', Inr _) \<Rightarrow> (st', Inr True))))))"

section \<open>Removing a keeper\<close>

lemma find_SomeD: "find P xs = Some x \<Longrightarrow> x \<in> set xs \<and> P x"
  by (induction xs) (auto split: if_splits)

lemma getDbForKeeper_None:
  "getDbForKeeper ord dbs k = None \<longleftrightarrow> (\<forall>u db. fmlookup dbs u = Some db \<longrightarrow> dbs_KeeperUID (db_Spec db) \<noteq> k)"
  by (auto simp: getDbForKeeper_def find_None_iff)

lemma getDbForKeeper_Some:
  assumes "getDbForKeeper ord dbs k = Some db"
  shows "\<exists>u. fmlookup dbs u = Some db \<and> dbs_KeeperUID (db_Spec db) = k"
proof -
  from assms obtain x where x: "find (\<lambda>(_, db). dbs_KeeperUID (db_Spec db) = k) (range_by ord dbs) = Some x" and "db = snd x"
    by (auto simp: getDbForKeeper_def)
  moreover from find_SomeD [OF x] have "x \<in> set (range_by ord dbs)" "dbs_KeeperUID (db_Spec (snd x)) = k"
    by (auto split: prod.splits)
  ultimately show ?thesis by (cases x) auto
qed

text \<open>The databases that are left when a keeper is removed.\<close>

definition dbs_without :: "string \<Rightarrow> DBs \<Rightarrow> DBs" where
  "dbs_without k dbs = fmfilter (\<lambda>u. map_option (\<lambda>db. dbs_KeeperUID (db_Spec db)) (fmlookup dbs u) \<noteq> Some k) dbs"

lemma lookup_dbs_without:
  "fmlookup (dbs_without k dbs) u =
     (case fmlookup dbs u of None \<Rightarrow> None | Some db \<Rightarrow> if dbs_KeeperUID (db_Spec db) = k then None else Some db)"
  by (auto simp: dbs_without_def split: option.splits)

lemma removeKeeper_cd_eq:
  assumes "uids_ok cd" and "one_db_per_keeper cd" and "ctlCluster cd = Inr (c, spec)"
    and "fmlookup (cd_Keepers cd) k = Some kp"
  shows "removeKeeper_cd ord k cd =
    (if \<exists>db. fmlookup (cd_DBs cd) (cst_Master (c_Status c)) = Some db \<and> dbs_KeeperUID (db_Spec db) = k
     then Inl (Error ''keeper assigned db is the current cluster master db.'')
     else Inr (cd\<lparr>cd_Keepers := fmdrop k (cd_Keepers cd), cd_DBs := dbs_without k (cd_DBs cd)\<rparr>))"
proof (cases "getDbForKeeper ord (cd_DBs cd) k")
  case None
  then have n: "\<forall>u db. fmlookup (cd_DBs cd) u = Some db \<longrightarrow> dbs_KeeperUID (db_Spec db) \<noteq> k"
    by (simp add: getDbForKeeper_None)
  then have "dbs_without k (cd_DBs cd) = cd_DBs cd"
    by (intro fmap_ext) (auto simp: lookup_dbs_without split: option.splits)
  then show ?thesis using None n assms(3,4) by (auto simp: removeKeeper_cd_def)
next
  case (Some db)
  from getDbForKeeper_Some [OF Some] obtain u where u: "fmlookup (cd_DBs cd) u = Some db" "dbs_KeeperUID (db_Spec db) = k" by blast
  have uid: "db_UID db = u" by (rule uids_okD [OF assms(1) u(1)])
  have uniq: "v = u" if "fmlookup (cd_DBs cd) v = Some db'" "dbs_KeeperUID (db_Spec db') = k" for v db'
    using assms(2) u that unfolding one_db_per_keeper_iff by metis
  have "fmlookup (fmdrop u (cd_DBs cd)) v = fmlookup (dbs_without k (cd_DBs cd)) v" for v
  proof (cases "v = u")
    case True
    then show ?thesis using u by (simp add: lookup_dbs_without)
  next
    case False
    then show ?thesis using uniq [of v] by (cases "fmlookup (cd_DBs cd) v") (auto simp: lookup_dbs_without)
  qed
  then have "fmdrop u (cd_DBs cd) = dbs_without k (cd_DBs cd)" by (rule fmap_ext)
  moreover have "(\<exists>db. fmlookup (cd_DBs cd) (cst_Master (c_Status c)) = Some db \<and> dbs_KeeperUID (db_Spec db) = k) \<longleftrightarrow>
      cst_Master (c_Status c) = u" using u uniq by blast
  ultimately show ?thesis using Some assms(3,4) uid by (simp add: removeKeeper_cd_def)
qed

lemma core_removeKeeper:
  assumes "core b spec m cd" and "\<And>db. fmlookup (cd_DBs cd) m = Some db \<Longrightarrow> dbs_KeeperUID (db_Spec db) \<noteq> k"
  shows "core b spec m (cd\<lparr>cd_Keepers := fmdrop k (cd_Keepers cd), cd_DBs := dbs_without k (cd_DBs cd)\<rparr>)"
proof -
  note c = core_simps [OF assms(1)]
  let ?cd = "cd\<lparr>cd_Keepers := fmdrop k (cd_Keepers cd), cd_DBs := dbs_without k (cd_DBs cd)\<rparr>"
  have sub: "fmlookup (cd_DBs cd) u = Some db \<and> dbs_KeeperUID (db_Spec db) \<noteq> k" if "fmlookup (cd_DBs ?cd) u = Some db" for u db
    using that by (auto simp: lookup_dbs_without split: option.splits if_splits)
  obtain mdb where m: "fmlookup (cd_DBs cd) m = Some mdb" using core_master [OF assms(1)] by blast
  then have m': "fmlookup (cd_DBs ?cd) m = Some mdb" using assms(2) by (auto simp: lookup_dbs_without)
  have "uids_ok ?cd" unfolding uids_ok_def by (intro fmpredI) (use sub uids_okD [OF c(3)] in blast)
  moreover have "dbs_have_keepers ?cd" unfolding dbs_have_keepers_def
    by (intro fmpredI) (use sub dbs_have_keepersD [OF c(4)] in fastforce)
  moreover have "one_db_per_keeper ?cd" using c(5) sub unfolding one_db_per_keeper_iff by metis
  moreover have "roles_ok b spec ?cd" unfolding roles_ok_def by (intro fmpredI) (use sub roles_okD [OF c(6)] in blast)
  moreover have "dbType ?cd m = Inr dbTypeMaster" using dbType_role [OF m'] dbType_role [OF m] c(7) by simp
  moreover have "defspec_of ?cd = Inr spec" "masterUID ?cd = m"
    using c(1,2) by (simp_all add: defspec_of_def cluster_of_def masterUID_def)
  ultimately show ?thesis by (simp add: core_def)
qed

lemma wf_removeKeeper:
  assumes "wf_at b cd" and "\<And>db. fmlookup (cd_DBs cd) (masterUID cd) = Some db \<Longrightarrow> dbs_KeeperUID (db_Spec db) \<noteq> k"
  shows "wf_at b (cd\<lparr>cd_Keepers := fmdrop k (cd_Keepers cd), cd_DBs := dbs_without k (cd_DBs cd)\<rparr>)"
proof -
  let ?cd = "cd\<lparr>cd_Keepers := fmdrop k (cd_Keepers cd), cd_DBs := dbs_without k (cd_DBs cd)\<rparr>"
  have m: "masterUID ?cd = masterUID cd" by (simp add: masterUID_def)
  have e: "cd_DBs cd = fmempty \<Longrightarrow> cd_DBs ?cd = fmempty" by (intro fmap_ext) (simp add: lookup_dbs_without)
  have k: "keepers_ok cd \<Longrightarrow> keepers_ok ?cd" by (auto simp: keepers_ok_def split: if_splits)
  have p: "proxy_ok cd \<Longrightarrow> proxy_ok ?cd" by (cases "cd_Proxy cd") (simp_all add: proxy_ok_def masterUID_def)
  have l: "fmlookup (cd_DBs cd) '''' = None \<Longrightarrow> fmlookup (cd_DBs ?cd) '''' = None" by (simp add: lookup_dbs_without)
  have c: "core b spec (masterUID cd) cd \<Longrightarrow> core b spec (masterUID cd) ?cd" for spec
    using core_removeKeeper [of b spec "masterUID cd" cd k] assms(2) by blast
  have i: "initial b spec cd \<Longrightarrow> initial b spec ?cd" for spec
    using m e c unfolding initial_def by (auto simp: defspec_of_def cluster_of_def)
  show ?thesis
  proof (cases "cd_Cluster cd")
    case (Some cl)
    then obtain spec where "c_Spec cl = Some spec" using assms(1) by (auto elim: wf_cd_parts)
    then show ?thesis
      using assms(1) Some k p l c i unfolding wf_at_def m by (cases "cst_Phase (c_Status cl)") simp_all
  qed (use assms(1) in \<open>simp add: wf_at_def\<close>)
qed

lemma wf_cd_one_db:
  assumes "wf_at b cd"
  shows "one_db_per_keeper cd"
proof -
  from assms have "cd_DBs cd = fmempty \<or> (\<exists>spec. core b spec (masterUID cd) cd)"
    by (auto simp: wf_at_def initial_def split: option.splits ClusterPhase.splits)
  then show ?thesis by (auto simp: one_db_per_keeper_iff core_def)
qed

lemma removeKeeper_result:
  assumes "wf_at b cd"
  shows "if fmlookup (cd_Keepers cd) k \<noteq> None \<and>
      \<not> (\<exists>db. fmlookup (cd_DBs cd) (masterUID cd) = Some db \<and> dbs_KeeperUID (db_Spec db) = k)
    then \<exists>cd'. removeKeeper_cd ord k cd = Inr cd' \<and> wf_at b cd' \<and>
      cd' = cd\<lparr>cd_Keepers := fmdrop k (cd_Keepers cd), cd_DBs := dbs_without k (cd_DBs cd)\<rparr>
    else \<exists>e. removeKeeper_cd ord k cd = Inl (Error e)"
proof -
  obtain c spec where c: "cd_Cluster cd = Some c" "c_Spec c = Some spec" using assms by (auto elim: wf_cd_parts)
  then have ctl: "ctlCluster cd = Inr (c, spec)" and m: "masterUID cd = cst_Master (c_Status c)"
    by (simp_all add: ctlCluster_def masterUID_def)
  show ?thesis
  proof (cases "fmlookup (cd_Keepers cd) k")
    case None
    then show ?thesis by (simp add: removeKeeper_cd_def ctl)
  next
    case (Some kp)
    note eq = removeKeeper_cd_eq [OF wf_cd_dbs(1) [OF assms] wf_cd_one_db [OF assms] ctl Some, of ord]
    show ?thesis
    proof (cases "\<exists>db. fmlookup (cd_DBs cd) (masterUID cd) = Some db \<and> dbs_KeeperUID (db_Spec db) = k")
      case True
      then show ?thesis using eq Some m by simp
    next
      case False
      then have "wf_at b (cd\<lparr>cd_Keepers := fmdrop k (cd_Keepers cd), cd_DBs := dbs_without k (cd_DBs cd)\<rparr>)"
        by (intro wf_removeKeeper [OF assms]) blast
      then show ?thesis using eq Some False m by simp
    qed
  qed
qed

lemma wf_removeKeeper_cd:
  "wf_at b cd \<Longrightarrow> removeKeeper_cd ord k cd = Inr cd' \<Longrightarrow> wf_at b cd'"
  using removeKeeper_result [of b cd k ord] by (auto split: if_splits)

text \<open>
  \<^verbatim>\<open>removekeeper\<close>. On well-formed cluster data, removing a keeper succeeds exactly if the keeper exists and
  does not have the database of the master. Then the keeper and the databases it has are gone, nothing else changes,
  and the cluster data is well-formed.
\<close>

theorem removeKeeper_correct:
  assumes "wf_cd cd"
  shows "if fmlookup (cd_Keepers cd) k \<noteq> None \<and>
      \<not> (\<exists>db. fmlookup (cd_DBs cd) (masterUID cd) = Some db \<and> dbs_KeeperUID (db_Spec db) = k)
    then \<exists>cd'. removeKeeper_cd ord k cd = Inr cd' \<and> wf_cd cd' \<and>
      cd' = cd\<lparr>cd_Keepers := fmdrop k (cd_Keepers cd), cd_DBs := cd_DBs cd'\<rparr> \<and>
      (\<forall>u. fmlookup (cd_DBs cd') u =
         (case fmlookup (cd_DBs cd) u of
            None \<Rightarrow> None | Some db \<Rightarrow> if dbs_KeeperUID (db_Spec db) = k then None else Some db))
    else \<exists>e. removeKeeper_cd ord k cd = Inl (Error e)"
  using removeKeeper_result [OF assms, of k ord] by (auto simp: lookup_dbs_without split: if_splits)

section \<open>Failing a keeper\<close>

lemma wf_failKeeper:
  assumes "wf_at b cd" and "failKeeper_cd k cd = Inr cd'"
  shows "wf_at b cd'"
proof -
  obtain c where c: "cd_Cluster cd = Some c" "keepers_ok cd" using assms(1) by (auto elim: wf_cd_parts)
  from assms(2) obtain kp where kp: "fmlookup (cd_Keepers cd) k = Some kp" and cd': "cd' = cd\<lparr>cd_Keepers :=
      fmupd k (kp\<lparr>k_Status := (k_Status kp)\<lparr>ks_ForceFail := True\<rparr>\<rparr>) (cd_Keepers cd)\<rparr>"
    by (auto simp: failKeeper_cd_def res_simps split: option.splits)
  have "rel_option same_identity (fmlookup (cd_DBs cd) u) (fmlookup (cd_DBs cd) u)" for u
    by (cases "fmlookup (cd_DBs cd) u") (simp_all add: same_identity_def)
  then have "same_shape cd cd'" using c by (simp add: cd' same_shape_def)
  moreover have "keepers_ok cd'" unfolding keepers_ok_def
  proof (intro fmpredI)
    fix u k' assume "fmlookup (cd_Keepers cd') u = Some k'"
    then show "k_UID k' = u"
      using fmpredD [OF c(2) [unfolded keepers_ok_def]] kp by (cases "u = k") (auto simp: cd')
  qed
  ultimately show ?thesis by (rule same_shape_wf_spec [OF assms(1) _ _ c(1)]) (simp_all add: cd' c(1))
qed

text \<open>
  \<^verbatim>\<open>failkeeper\<close> takes effect. After the command, the next check of a leader (other than the first one of a
  leadership) finds the keeper and its databases not healthy, even if the keeper is alive and
  publishing, and the mark is gone, so that the check after that one decides by what the keeper publishes again.
\<close>

theorem failKeeper_effective:
  assumes "wf_cd cd" and "failKeeper_cd k cd = Inr cd'" and "infos_ok kis"
    and "updateKeepersStatus env s cd' kis False = Inr (s', cd'', kihs)"
  shows "(\<exists>k'. fmlookup (cd_Keepers cd'') k = Some k' \<and> \<not> ks_Healthy (k_Status k') \<and> \<not> ks_ForceFail (k_Status k')) \<and>
    (\<forall>u db. fmlookup (cd_DBs cd) u = Some db \<and> dbs_KeeperUID (db_Spec db) = k \<longrightarrow>
       (\<exists>db'. fmlookup (cd_DBs cd'') u = Some db' \<and> \<not> st_Healthy (db_Status db')))"
proof -
  have wf: "wf_cd cd'" by (rule wf_failKeeper [OF assms(1,2)])
  obtain c spec where c: "cluster_of cd' = Inr c" "DefSpec c = Inr (WithDefaults spec)" "keepers_ok cd'"
    using wf by (auto elim: wf_cd_parts)
  from assms(2) obtain kp where k: "fmlookup (cd_Keepers cd') k = Some (kp\<lparr>k_Status := (k_Status kp)\<lparr>ks_ForceFail := True\<rparr>\<rparr>)"
    and dbs: "cd_DBs cd' = cd_DBs cd"
    by (auto simp: failKeeper_cd_def res_simps split: option.splits)
  from keeper_health [OF assms(4) c(1,2,3) assms(3) k] obtain k' where
    k': "fmlookup (cd_Keepers cd'') k = Some k'" "\<not> ks_Healthy (k_Status k')" "\<not> ks_ForceFail (k_Status k')" by auto
  moreover have "\<exists>db'. fmlookup (cd_DBs cd'') u = Some db' \<and> \<not> st_Healthy (db_Status db')"
    if "fmlookup (cd_DBs cd) u = Some db" "dbs_KeeperUID (db_Spec db) = k" for u db
    using db_health [OF assms(4) c(1,2) wf_cd_dbs(1) [OF wf], of u db] that dbs k' by auto
  ultimately show ?thesis by blast
qed

section \<open>Changing the specification\<close>

lemma UpdateSpec_ok:
  assumes "UpdateSpec c ns = Inr c'"
  shows "c' = c\<lparr>c_Spec := Some ns\<rparr>" and "Validate ns = None"
  using assms by (auto simp: UpdateSpec_def res_simps split: option.splits if_splits)

lemma wf_new_spec:
  assumes "wf_at b cd" and "cd_Cluster cd = Some c" and "c_Spec c = Some spec" and "Validate ns = None"
    and "b \<Longrightarrow> cs_StandbyConfig spec \<noteq> None \<Longrightarrow> cs_StandbyConfig ns \<noteq> None"
  shows "wf_at b (cd\<lparr>cd_Cluster := Some (c\<lparr>c_Spec := Some ns\<rparr>)\<rparr>)"
proof -
  let ?cd = "cd\<lparr>cd_Cluster := Some (c\<lparr>c_Spec := Some ns\<rparr>)\<rparr>"
  have "rel_option same_identity (fmlookup (cd_DBs cd) u) (fmlookup (cd_DBs cd) u)" for u
    by (cases "fmlookup (cd_DBs cd) u") (simp_all add: same_identity_def)
  then have "same_shape cd ?cd" using assms(2) by (simp add: same_shape_def)
  moreover have "keepers_ok ?cd" using assms(1) by (auto simp: keepers_ok_def elim!: wf_cd_parts)
  ultimately show ?thesis
    using assms(2-5) by (intro same_shape_wf [OF assms(1), of ?cd "c\<lparr>c_Spec := Some ns\<rparr>" ns]) auto
qed

lemma Validate_InitMode: "Validate s = None \<Longrightarrow> \<exists>m. cs_InitMode s = Some m"
  by (cases "cs_InitMode s") (simp_all add: Validate_iff valid_modes_def)

lemma UpdateSpec_no_panic:
  assumes "c_Spec c = Some s" and "Validate s = None"
  shows "no_panic (UpdateSpec c ns)"
proof (cases "Validate ns")
  case None
  then show ?thesis
    using Validate_InitMode [OF assms(2)] Validate_InitMode [OF None] assms(1) by (auto simp: UpdateSpec_def)
next
  case (Some e)
  then show ?thesis by (simp add: UpdateSpec_def)
qed

lemma ctlCluster_eq: "ctlCluster cd = Inr (c, spec) \<longleftrightarrow> cd_Cluster cd = Some c \<and> c_Spec c = Some spec"
  by (auto simp: ctlCluster_def split: option.splits)

lemma def_Role_update [simp]: "def_Role (s\<lparr>cs_Role := Some r\<rparr>) = r"
  by (simp add: def_Role_def val_def)

lemma Validate_promoted: "Validate s = None \<Longrightarrow> Validate (s\<lparr>cs_Role := Some ClusterRoleMaster\<rparr>) = None"
proof -
  let ?s = "s\<lparr>cs_Role := Some ClusterRoleMaster\<rparr>"
  assume "Validate s = None"
  then have v: "valid_numbers s" "valid_lists s" "valid_modes s" by (simp_all add: Validate_iff)
  have "def_SUReplAccessMode ?s = def_SUReplAccessMode s" by (simp add: def_field_defs)
  then have "valid_modes ?s"
    using v(3) by (auto simp: valid_modes_def split: option.splits ClusterInitMode.splits)
  moreover have "valid_numbers ?s = valid_numbers s" by (simp add: valid_numbers_def def_field_defs)
  moreover have "valid_lists ?s = valid_lists s" by (simp add: valid_lists_def)
  ultimately show ?thesis using v by (simp add: Validate_iff)
qed

lemma promote_result:
  assumes "wf_at b cd"
  shows "\<exists>c spec. cd_Cluster cd = Some c \<and> c_Spec c = Some spec \<and>
    (if def_Role spec = ClusterRoleMaster then promote_cd cd = Inr None
     else promote_cd cd = Inr (Some (cd\<lparr>cd_Cluster := Some (c\<lparr>c_Spec := Some (spec\<lparr>cs_Role := Some ClusterRoleMaster\<rparr>)\<rparr>)\<rparr>)) \<and>
       wf_at b (cd\<lparr>cd_Cluster := Some (c\<lparr>c_Spec := Some (spec\<lparr>cs_Role := Some ClusterRoleMaster\<rparr>)\<rparr>)\<rparr>))"
proof -
  obtain c spec where c: "cd_Cluster cd = Some c" "c_Spec c = Some spec" "Validate spec = None"
    using assms by (auto elim: wf_cd_parts)
  let ?spec = "spec\<lparr>cs_Role := Some ClusterRoleMaster\<rparr>"
  have ctl: "ctlCluster cd = Inr (c, spec)" using c by (simp add: ctlCluster_eq)
  have v: "Validate ?spec = None" by (rule Validate_promoted [OF c(3)])
  obtain m where "cs_InitMode spec = Some m" using Validate_InitMode [OF c(3)] by blast
  then have "UpdateSpec (c\<lparr>c_Spec := Some ?spec\<rparr>) ?spec = Inr (c\<lparr>c_Spec := Some ?spec\<rparr>)"
    by (simp add: UpdateSpec_def v deref_def)
  moreover have "wf_at b (cd\<lparr>cd_Cluster := Some (c\<lparr>c_Spec := Some ?spec\<rparr>)\<rparr>)"
    by (rule wf_new_spec [OF assms c(1,2) v]) simp
  ultimately show ?thesis using c(1,2) ctl by (simp add: promote_cd_def Let_def)
qed

lemma wf_promote: "wf_at b cd \<Longrightarrow> promote_cd cd = Inr (Some cd') \<Longrightarrow> wf_at b cd'"
  using promote_result [of b cd] by (auto split: if_splits)

text \<open>
  \<^verbatim>\<open>promote\<close>. On well-formed cluster data the command never fails: a standby cluster becomes a master cluster
  and nothing else changes, a master cluster is left alone; the cluster data stays well-formed.
\<close>

theorem promote_correct:
  assumes "wf_cd cd"
  shows "\<exists>c spec. cd_Cluster cd = Some c \<and> c_Spec c = Some spec \<and>
    (if def_Role spec = ClusterRoleMaster then promote_cd cd = Inr None
     else promote_cd cd = Inr (Some (cd\<lparr>cd_Cluster := Some (c\<lparr>c_Spec := Some (spec\<lparr>cs_Role := Some ClusterRoleMaster\<rparr>)\<rparr>)\<rparr>)) \<and>
       wf_cd (cd\<lparr>cd_Cluster := Some (c\<lparr>c_Spec := Some (spec\<lparr>cs_Role := Some ClusterRoleMaster\<rparr>)\<rparr>)\<rparr>))"
  by (rule promote_result [OF assms])

text \<open>
  \<^verbatim>\<open>update\<close>. On well-formed cluster data the command does not panic, whatever new specification it is
  given; if it succeeds the new specification is the one of the cluster and nothing else has changed, and
  if a specification for standby clusters has not been dropped the cluster data is well-formed.
\<close>

theorem update_correct:
  assumes "wf_cd cd" and "\<And>s. no_panic (newSpec s)"
  shows "no_panic (update_cd newSpec cd) \<and>
    (\<forall>cd'. update_cd newSpec cd = Inr (Some cd') \<longrightarrow>
       (\<exists>c spec ns. cd_Cluster cd = Some c \<and> c_Spec c = Some spec \<and> newSpec spec = Inr ns \<and>
          cd' = cd\<lparr>cd_Cluster := Some (c\<lparr>c_Spec := Some ns\<rparr>)\<rparr> \<and>
          ((cs_StandbyConfig spec \<noteq> None \<longrightarrow> cs_StandbyConfig ns \<noteq> None) \<longrightarrow> wf_cd cd')))"
proof -
  obtain c spec where c: "cd_Cluster cd = Some c" "c_Spec c = Some spec" "Validate spec = None"
    using assms(1) by (auto elim: wf_cd_parts)
  have ctl: "ctlCluster cd = Inr (c, spec)" using c by (simp add: ctlCluster_eq)
  show ?thesis
  proof (cases "newSpec spec")
    case (Inl e)
    then show ?thesis using assms(2) [of spec] by (auto simp: update_cd_def ctl no_panic_def)
  next
    case (Inr ns)
    have np: "no_panic (UpdateSpec c ns)" using UpdateSpec_no_panic [OF c(2,3)] .
    show ?thesis
    proof (cases "UpdateSpec c ns")
      case (Inl e)
      then show ?thesis using np Inr by (auto simp: update_cd_def ctl no_panic_def)
    next
      case u: (Inr c')
      note ok = UpdateSpec_ok [OF u]
      have "wf_cd (cd\<lparr>cd_Cluster := Some (c\<lparr>c_Spec := Some ns\<rparr>)\<rparr>)"
        if "cs_StandbyConfig spec \<noteq> None \<longrightarrow> cs_StandbyConfig ns \<noteq> None"
        using wf_new_spec [OF assms(1) c(1,2) ok(2)] that by blast
      then show ?thesis using Inr u ok c by (simp add: update_cd_def ctl no_panic_def)
    qed
  qed
qed

lemma initCluster_wf:
  "initCluster_cd tnow uid data = Inr cd \<Longrightarrow> wf_cd cd"
  by (auto simp: initCluster_cd_def res_simps split: option.splits intro: wf_new)

section \<open>Reading, computing and putting\<close>

lemma getClusterData_ok:
  assumes "getClusterData r = Inr (cd, pair)"
  shows "r = Inr (Some (cd, pair))" and "cd_FormatVersion cd = CurrentCDFormatVersion"
    and "\<exists>c spec. ctlCluster cd = Inr (c, spec) \<and> Validate spec = None"
  using assms
  by (auto simp: getClusterData_def ctlCluster_def cluster_of_def deref_def res_simps split: sum.splits option.splits if_splits prod.splits)

text \<open>The store right before the write of a command, and what the command wrote there.\<close>

definition command_wrote ::
  "('kv \<Rightarrow> ClusterData sres option) \<Rightarrow> (ClusterData \<Rightarrow> ClusterData option res) \<Rightarrow> 'kv \<Rightarrow> 'kv \<Rightarrow> bool" where
  "command_wrote content f st st' \<longleftrightarrow>
     (\<exists>cd cd'. content st = Some (Inr cd) \<and> cd_FormatVersion cd = CurrentCDFormatVersion \<and>
        (\<exists>c spec. ctlCluster cd = Inr (c, spec) \<and> Validate spec = None) \<and>
        f cd = Inr (Some cd') \<and> content st' = Some (Inr (json_ClusterData cd')))"

context cluster_data_store
begin

lemma ctlRetry_wrote:
  assumes "\<And>n st. later st (others n st)"
    and "ctlRetry (GetClusterData get p) (AtomicPutClusterData aput p) others f n st = (st', Inr True)"
  shows "\<exists>m<n. \<exists>st0. command_wrote (stored look p) f (others m st0) st'"
  using assms(2)
proof (induction n arbitrary: st)
  case (Suc n)
  from Suc.prems obtain cd cd' pair where
    g: "getClusterData (GetClusterData get p st) = Inr (cd, pair)" and f: "f cd = Inr (Some cd')" and
    put: "(case AtomicPutClusterData aput p cd' (Some pair) (others n st) of
             (st', Inl ErrKeyModified) \<Rightarrow> ctlRetry (GetClusterData get p) (AtomicPutClusterData aput p) others f n st'
           | (st', Inl _) \<Rightarrow> (st', Inl (Error ''cannot update cluster data''))
           | (st', Inr _) \<Rightarrow> (st', Inr True)) = (st', Inr True)"
    by (auto simp: res_simps split: sum.splits option.splits prod.splits)
  obtain st1 res where a: "AtomicPutClusterData aput p cd' (Some pair) (others n st) = (st1, res)" by fastforce
  note g' = getClusterData_ok [OF g]
  have c: "case res of
      Inr _ \<Rightarrow> stored look p (others n st) = Some (Inr cd) \<and> stored look p st1 = Some (Inr (json_ClusterData cd'))
    | Inl e \<Rightarrow> True"
    using cas [OF g'(1) assms(1), of cd' n st1 res] a by (simp split: sum.splits)
  show ?case
  proof (cases res)
    case (Inl e)
    then have "e = ErrKeyModified" and
      "ctlRetry (GetClusterData get p) (AtomicPutClusterData aput p) others f n st1 = (st', Inr True)"
      using put a by (auto split: store_error.splits)
    from Suc.IH [OF this(2)] show ?thesis by (metis less_Suc_eq)
  next
    case (Inr q)
    then have "st1 = st'" using put a by simp
    then have "command_wrote (stored look p) f (others n st) st'"
      using c Inr f g'(2,3) unfolding command_wrote_def by auto
    then show ?thesis by blast
  qed
qed simp

end

text \<open>
  C31. A command that reports success has done its change to the current cluster data: with etcd as the
  store and other clients that write between any of its reads and puts, the cluster data right before its
  write is the one it computed the new one from, so that no update of another client is lost; and it made at most
  \<^verbatim>\<open>maxRetries\<close> attempts.
\<close>

theorem command_no_lost_update:
  assumes "etcd_client c kvs later" and "\<And>n st. later st (others n st)"
    and "ctlRetry (GetClusterData (etcdv3_Get c) path) (AtomicPutClusterData (etcdv3_AtomicPut c) path) others f maxRetries st =
      (st', Inr True)"
  shows "\<exists>n<maxRetries. \<exists>st0. command_wrote (stored (etcd_val kvs) path) f (others n st0) st'"
  by (rule cluster_data_store.ctlRetry_wrote
      [OF cluster_data_store.intro [OF etcd_client.is_kv_store [OF assms(1)]] assms(2,3)])

section \<open>Examples\<close>

definition standby_spec :: ClusterSpec where
  "standby_spec = example_spec\<lparr>cs_InitMode := Some ClusterInitModePITR, cs_Role := Some ClusterRoleStandby,
     cs_StandbyConfig := Some \<lparr>sc_StandbySettings = None, sc_ArchiveRecoverySettings = None\<rparr>,
     cs_PITRConfig := Some \<lparr>pc_DataRestoreCommand = ''restore'', pc_ArchiveRecoverySettings = None, pc_RecoveryTargetSettings = None\<rparr>\<rparr>"

definition standby_cd :: ClusterData where
  "standby_cd = NewClusterData (NewCluster 0 ''c'' (Some standby_spec))"

lemma standby_spec_valid: "Validate standby_spec = None"
  by code_simp

lemma standby_cd_wf: "wf_cd standby_cd"
  unfolding standby_cd_def by (rule wf_new [OF standby_spec_valid])

text \<open>The keeper of the standby can be removed, the one of the master cannot.\<close>

theorem removeKeeper_correct_witness:
  "(\<exists>cd'. removeKeeper_cd (\<lambda>ks. ks) ''k2'' example_cd = Inr cd' \<and> wf_cd cd' \<and> fmlookup (cd_DBs cd') ''db2'' = None) \<and>
   (\<exists>e. removeKeeper_cd (\<lambda>ks. ks) ''k1'' example_cd = Inl (Error e))"
proof -
  have f: "masterUID example_cd = ''db1''" "dbs_KeeperUID (db_Spec example_master) = ''k1''"
    "dbs_KeeperUID (db_Spec example_standby) = ''k2''"
    "fmlookup (cd_Keepers example_cd) ''k2'' \<noteq> None" by code_simp+
  have l: "fmlookup (cd_DBs example_cd) ''db1'' = Some example_master"
    "fmlookup (cd_DBs example_cd) ''db2'' = Some example_standby" by (rule example_facts)+
  show ?thesis
    using removeKeeper_correct [OF example_cd_wf, of "''k2''" "\<lambda>ks. ks"]
      removeKeeper_correct [OF example_cd_wf, of "''k1''" "\<lambda>ks. ks"] f l by force
qed

theorem failKeeper_effective_witness:
  "\<exists>cd' s' cd'' kihs. failKeeper_cd ''k2'' example_cd = Inr cd' \<and>
     updateKeepersStatus example_env example_sentinel cd' example_infos False = Inr (s', cd'', kihs) \<and>
     (\<exists>db'. fmlookup (cd_DBs cd'') ''db2'' = Some db' \<and> \<not> st_Healthy (db_Status db'))"
proof -
  have "is_ok (failKeeper_cd ''k2'' example_cd)"
    "is_ok (updateKeepersStatus example_env example_sentinel (projr (failKeeper_cd ''k2'' example_cd)) example_infos False)"
    "dbs_KeeperUID (db_Spec example_standby) = ''k2''"
    by code_simp+
  then obtain cd' s' cd'' kihs where
    r: "failKeeper_cd ''k2'' example_cd = Inr cd'"
      "updateKeepersStatus example_env example_sentinel cd' example_infos False = Inr (s', cd'', kihs)"
      "dbs_KeeperUID (db_Spec example_standby) = ''k2''"
    by (auto simp: is_ok_iff)
  from failKeeper_effective [OF example_cd_wf r(1) example_wf(4) r(2)] example_facts(4) r show ?thesis by blast
qed

theorem promote_correct_witness:
  "\<exists>cd'. promote_cd standby_cd = Inr (Some cd') \<and> wf_cd cd'"
proof -
  have "\<forall>c spec. cd_Cluster standby_cd = Some c \<longrightarrow> c_Spec c = Some spec \<longrightarrow> def_Role spec = ClusterRoleStandby"
    by (simp add: standby_cd_def NewClusterData_def NewCluster_def standby_spec_def def_Role_def val_def)
  then show ?thesis using promote_correct [OF standby_cd_wf] by fastforce
qed

theorem update_correct_witness:
  "\<exists>cd'. update_cd (\<lambda>s. Inr (s\<lparr>cs_SynchronousReplication := Some True\<rparr>)) example_cd = Inr (Some cd') \<and> wf_cd cd'"
proof -
  let ?f = "\<lambda>s :: ClusterSpec. Inr (s\<lparr>cs_SynchronousReplication := Some True\<rparr>) :: ClusterSpec res"
  have "is_ok (update_cd ?f example_cd) \<and> projr (update_cd ?f example_cd) \<noteq> None" by code_simp
  then obtain cd' where "update_cd ?f example_cd = Inr (Some cd')" by (auto simp: is_ok_iff)
  then show ?thesis using update_correct [OF example_cd_wf, of ?f] by force
qed

theorem command_no_lost_update_witness:
  "\<exists>st'. promote (GetClusterData (etcdv3_Get log_etcd) ''stolon'') (AtomicPutClusterData (etcdv3_AtomicPut log_etcd) ''stolon'')
       (\<lambda>_ st. st) [] False [''y\<newline>'', ''yes\<newline>''] [(Join [''stolon'', clusterDataFile], JSON standby_cd)] = (st', Inr True) \<and>
     (\<exists>st0. command_wrote (stored (etcd_val log_kvs) ''stolon'') promote_cd st0 st')"
proof -
  let ?run = "ctlRetry (GetClusterData (etcdv3_Get log_etcd) ''stolon'') (AtomicPutClusterData (etcdv3_AtomicPut log_etcd) ''stolon'')
       (\<lambda>_ st. st) promote_cd maxRetries [(Join [''stolon'', clusterDataFile], JSON standby_cd)]"
  have p: "is_ok (promote_cd standby_cd) \<and> projr (promote_cd standby_cd) \<noteq> None"
    "getClusterData (Inr (Some (standby_cd, pair))) = Inr (standby_cd, pair)" for pair
    by (code_simp, use standby_spec_valid in \<open>simp add: getClusterData_def standby_cd_def NewClusterData_def NewCluster_def cluster_of_def\<close>)
  obtain cd' where "promote_cd standby_cd = Inr (Some cd')" using p(1) by (auto simp: is_ok_iff)
  then have "snd ?run = Inr True"
    using p(2) by (simp add: GetClusterData_def etcdv3_Get_def fromEtcdKV_def log_etcd_def log_kvs_def AtomicPutClusterData_def
        etcdv3_AtomicPut_def grantLease_def Let_def log_put_def maxRetries_def numeral_3_eq_3)
  then obtain st' where r: "?run = (st', Inr True)" by (metis prod.collapse)
  have "\<And>(n :: nat) st. log_later st st" by (auto simp: log_later_def)
  from command_no_lost_update [OF ref_etcd.etcd_client_axioms this r] r show ?thesis by (auto simp: promote_def)
qed

end
