(* ===== verification/Status.thy ===== *)
theory Status
  imports Stolonctl Pgutils
begin

text \<open>
  The command \<^verbatim>\<open>stolonctl status\<close> (\<^verbatim>\<open>cmd/stolonctl/cmd/status.go\<close>): what it prints
  for the cluster data, the members and the leader that the store returns, as a list of lines and of rows of cells; the alignment of
  the cells is that of a library. \<^verbatim>\<open>die\<close> ends the command with an \<open>Error\<close>, a dereferenced nil
  pointer with a \<open>Panic\<close>.

  \<^verbatim>\<open>printTree\<close> follows the lists of followers and does not end when they have a cycle. In the model it has a
  bound for the depth, and \<open>None\<close> says that the bound was reached. The maps of cluster data that is read are never nil,
  since they are created with the cluster data, so that there are no branches for missing maps.
\<close>

section \<open>The tree of databases\<close>

text \<open>The characters of the tree in UTF-8.\<close>

definition tail_mark :: string where
  "tail_mark = [CHR 0xE2, CHR 0x94, CHR 0x94, CHR 0xE2, CHR 0x94, CHR 0x80]"

definition branch_mark :: string where
  "branch_mark = [CHR 0xE2, CHR 0x94, CHR 0x9C, CHR 0xE2, CHR 0x94, CHR 0x80]"

definition linespace :: string where
  "linespace = [CHR 0xE2, CHR 0x94, CHR 0x82, CHR 0x20]"

fun treeLine :: "string \<Rightarrow> bool \<Rightarrow> bool \<Rightarrow> string \<Rightarrow> bool \<Rightarrow> string" where
  "treeLine prefix root tail keeperUID isMaster =
     prefix @ (if root then '''' else if tail then tail_mark else branch_mark) @ keeperUID @ (if isMaster then '' (master)'' else '''')"

text \<open>All lines, if all subtrees could be printed.\<close>

fun concatSome :: "'a list option list \<Rightarrow> 'a list option" where
  "concatSome [] = Some []"
| "concatSome (x # xs) = (case x of None \<Rightarrow> None | Some ls \<Rightarrow> (case concatSome xs of None \<Rightarrow> None | Some ls' \<Rightarrow> Some (ls @ ls')))"

fun printTree :: "nat \<Rightarrow> string \<Rightarrow> ClusterData \<Rightarrow> string \<Rightarrow> nat \<Rightarrow> string \<Rightarrow> bool \<Rightarrow> string list option" where
  "printTree 0 dbuid cd master level prefix tail = None"
| "printTree (Suc n) dbuid cd master level prefix tail =
     (case fmlookup (cd_DBs cd) dbuid of
        None \<Rightarrow> Some []
      | Some db \<Rightarrow>
          let followers = elems (dbs_Followers (db_Spec db));
              c = length followers;
              emptyspace = (if level > 0 then ''  '' else '''');
              sub = (if tail then prefix @ emptyspace else prefix @ linespace)
          in map_option (\<lambda>ls. treeLine prefix (level = 0) tail (dbs_KeeperUID (db_Spec db)) (dbuid = master) # ls)
               (concatSome (map (\<lambda>(i, f). printTree n f cd master (level + 1) sub (\<not> i < c - 1)) (enumerate 0 followers))))"

section \<open>The output\<close>

datatype out = Line string | Row "string list"

definition format_bool :: "bool \<Rightarrow> string" where
  "format_bool b = (if b then ''true'' else ''false'')"

definition format_int :: "int \<Rightarrow> string" where
  "format_int i = (if i < 0 then ''-'' @ print_nat 10 (nat (- i)) else print_nat 10 (nat i))"

definition printSentinels :: "string \<Rightarrow> SentinelInfo list \<Rightarrow> out list" where
  "printSentinels lsid sentinelsInfo =
     Line ''=== Active sentinels ==='' # Line '''' #
     (if sentinelsInfo = [] then [Line ''No active sentinels'']
      else Row [''ID'', ''LEADER''] #
        map (\<lambda>si. Row [si_UID si, format_bool (lsid \<noteq> '''' \<and> si_UID si = lsid)]) (sort_key si_UID sentinelsInfo))"

definition printProxies :: "ProxiesInfo \<Rightarrow> out list" where
  "printProxies proxiesInfo =
     Line '''' # Line ''=== Active proxies ==='' # Line '''' #
     (if map_len proxiesInfo = 0 then [Line ''No active proxies'']
      else Row [''ID''] # map (\<lambda>pi. Row [pi_UID pi]) (sort_key pi_UID (map snd (entries proxiesInfo))))"

definition keeperRow :: "iter_order \<Rightarrow> ClusterData \<Rightarrow> Keeper \<Rightarrow> out" where
  "keeperRow ord cd k =
     (case FindDB ord cd k of
        Some db \<Rightarrow>
          let dbListenAddress = (if st_ListenAddress (db_Status db) \<noteq> ''''
                then st_ListenAddress (db_Status db) @ '':'' @ st_Port (db_Status db) else ''(unknown)'')
          in Row [k_UID k, format_bool (ks_Healthy (k_Status k)), dbListenAddress, format_bool (st_Healthy (db_Status db)),
               format_int (sint (db_Generation db)), format_int (sint (st_CurrentGeneration (db_Status db))), '''']
      | None \<Rightarrow> Row [k_UID k, format_bool (ks_Healthy (k_Status k)), ''(no db assigned)'', '''', '''', '''', ''''])"

definition printKeepers :: "iter_order \<Rightarrow> ClusterData \<Rightarrow> out list" where
  "printKeepers ord cd =
     Line '''' # Line ''=== Keepers ==='' # Line '''' #
     Row [''UID'', ''HEALTHY'', ''PG LISTENADDRESS'', ''PG HEALTHY'', ''PG WANTEDGENERATION'', ''PG CURRENTGENERATION''] #
     List.map_filter (\<lambda>kuid. map_option (keeperRow ord cd) (fmlookup (cd_Keepers cd) kuid)) (SortedKeys (cd_Keepers cd))"

text \<open>The uid of the keeper of the master.\<close>

definition masterKeeper :: "ClusterData \<Rightarrow> string \<Rightarrow> string res" where
  "masterKeeper cd master =
     bindE (deref ''nil DB'' (fmlookup (cd_DBs cd) master)) (\<lambda>db.
     bindE (deref ''nil Keeper'' (fmlookup (cd_Keepers cd) (dbs_KeeperUID (db_Spec db)))) (\<lambda>k. Inr (k_UID k)))"

definition printCluster :: "nat \<Rightarrow> ClusterData \<Rightarrow> string \<Rightarrow> (out list res) option" where
  "printCluster n cd master =
     (let head = [Line '''', Line ''=== Cluster Info ==='', Line '''']
      in if master = '''' then Some (Inr (head @ [Line ''Master Keeper: (none)'', Line '''']))
         else
           (case masterKeeper cd master of
              Inl e \<Rightarrow> Some (Inl e)
            | Inr kuid \<Rightarrow>
                (case fmlookup (cd_DBs cd) master of
                   None \<Rightarrow> Some (Inl (Panic ''nil DB''))
                 | Some masterDB \<Rightarrow>
                     map_option (\<lambda>tree. Inr (head @ [Line (''Master: '' @ kuid), Line '''', Line ''===== Keepers/DB tree ====='', Line ''''] @
                         map Line tree @ [Line '''']))
                       (printTree n (db_UID masterDB) cd master 0 '''' True))))"

text \<open>The whole command, with the answers of the store and of the election. What was printed before an error is left out.\<close>

definition status ::
  "nat \<Rightarrow> iter_order \<Rightarrow> string sres \<Rightarrow> SentinelInfo list sres \<Rightarrow> ProxiesInfo sres \<Rightarrow> (ClusterData \<times> ClusterData KVPair) option sres
     \<Rightarrow> (out list res) option" where
  "status n ord leader sentinels proxies cdr =
     (case (case leader of
              Inl e \<Rightarrow> if e \<noteq> ErrElectionNoLeader then Inl (Error ''cannot get leader sentinel info'') else Inr ''''
            | Inr lsid \<Rightarrow> Inr lsid) of
        Inl e \<Rightarrow> Some (Inl e)
      | Inr lsid \<Rightarrow>
          (case sentinels of
             Inl _ \<Rightarrow> Some (Inl (Error ''cannot create election''))
           | Inr sentinelsInfo \<Rightarrow>
               (case proxies of
                  Inl _ \<Rightarrow> Some (Inl (Error ''cannot get proxies info''))
                | Inr proxiesInfo \<Rightarrow>
                    (case getClusterData cdr of
                       Inl e \<Rightarrow> Some (Inl e)
                     | Inr (cd, _) \<Rightarrow>
                         (case cluster_of cd of
                            Inl e \<Rightarrow> Some (Inl e)
                          | Inr c \<Rightarrow>
                              map_option (\<lambda>r. bindE r (\<lambda>out.
                                  Inr (printSentinels lsid sentinelsInfo @ printProxies proxiesInfo @ printKeepers ord cd @ out)))
                                (printCluster n cd (cst_Master (c_Status c))))))))"

section \<open>The command ends\<close>

text \<open>A ranking of the databases that every follower lowers: the lists of followers have no cycle.\<close>

definition follows_ranked :: "(string \<Rightarrow> nat) \<Rightarrow> ClusterData \<Rightarrow> bool" where
  "follows_ranked rank cd \<longleftrightarrow>
     (\<forall>u db f. fmlookup (cd_DBs cd) u = Some db \<and> f \<in> set (elems (dbs_Followers (db_Spec db))) \<longrightarrow> rank f < rank u)"

lemma concatSome_Some: "\<forall>x\<in>set xs. x \<noteq> None \<Longrightarrow> concatSome xs \<noteq> None"
  by (induction xs) (auto split: option.splits)

lemma printTree_ends:
  assumes "follows_ranked rank cd"
  shows "rank u < n \<Longrightarrow> \<exists>ls. printTree n u cd master level prefix tail = Some ls"
proof (induction n arbitrary: u level prefix tail)
  case (Suc n)
  show ?case
  proof (cases "fmlookup (cd_DBs cd) u")
    case (Some db)
    let ?fs = "elems (dbs_Followers (db_Spec db))"
    have "printTree n f cd master l p t \<noteq> None" if "f \<in> set ?fs" for f l p t
    proof -
      have "rank f < rank u" using assms Some that by (auto simp: follows_ranked_def)
      then have "rank f < n" using Suc.prems by linarith
      from Suc.IH [OF this] show ?thesis by force
    qed
    then have "concatSome (map (\<lambda>(i, f). printTree n f cd master (level + 1) p (\<not> i < c - 1)) (enumerate 0 ?fs)) \<noteq> None" for p c
      by (intro concatSome_Some) (auto simp: in_set_enumerate_eq)
    then show ?thesis using Some by (auto simp: Let_def)
  qed simp
qed simp

lemma wf_master:
  assumes "wf_cd cd" "masterUID cd \<noteq> ''''"
  shows "\<exists>kuid. masterKeeper cd (masterUID cd) = Inr kuid \<and> (\<exists>db. fmlookup (cd_DBs cd) (masterUID cd) = Some db \<and> db_UID db = masterUID cd)"
proof -
  obtain c spec where c: "cd_Cluster cd = Some c" "c_Spec c = Some spec" using assms(1) by (auto elim: wf_cd_parts)
  then have core: "core True (WithDefaults spec) (masterUID cd) cd"
    using assms by (auto simp: wf_at_def initial_def split: ClusterPhase.splits)
  then obtain db where db: "fmlookup (cd_DBs cd) (masterUID cd) = Some db"
    by (cases "fmlookup (cd_DBs cd) (masterUID cd)") (auto simp: core_def dbType_def getDB_def deref_def)
  from core have k: "dbs_have_keepers cd" "uids_ok cd" by (simp_all add: core_def)
  from dbs_have_keepersD [OF k(1) db] obtain kp where "fmlookup (cd_Keepers cd) (dbs_KeeperUID (db_Spec db)) = Some kp" by auto
  with db uids_okD [OF k(2) db] show ?thesis by (simp add: masterKeeper_def deref_def)
qed

text \<open>
  The status of a well-formed cluster can be printed: if the members, the leader (or that there is none) and well-formed
  cluster data are read and the lists of followers have no cycle, the command ends without an error, and shows the keeper of
  the master.
\<close>

theorem status_total:
  assumes "wf_cd cd" and "getClusterData (Inr (Some (cd, pair))) = Inr (cd, pair)" and "follows_ranked rank cd"
    and "rank (masterUID cd) < n" and "leader = Inr lsid \<or> leader = Inl ErrElectionNoLeader"
  shows "\<exists>out. status n ord leader (Inr sentinelsInfo) (Inr proxiesInfo) (Inr (Some (cd, pair))) = Some (Inr out) \<and>
    (if masterUID cd = '''' then Line ''Master Keeper: (none)'' \<in> set out
     else \<exists>kuid. masterKeeper cd (masterUID cd) = Inr kuid \<and> Line (''Master: '' @ kuid) \<in> set out)"
proof -
  obtain c where c: "cd_Cluster cd = Some c" using assms(1) by (auto elim: wf_cd_parts)
  then have m: "cst_Master (c_Status c) = masterUID cd" by (simp add: masterUID_def)
  have "\<exists>out. printCluster n cd (masterUID cd) = Some (Inr out) \<and>
      (if masterUID cd = '''' then Line ''Master Keeper: (none)'' \<in> set out
       else \<exists>kuid. masterKeeper cd (masterUID cd) = Inr kuid \<and> Line (''Master: '' @ kuid) \<in> set out)"
  proof (cases "masterUID cd = ''''")
    case True
    then show ?thesis by (simp add: printCluster_def)
  next
    case False
    from wf_master [OF assms(1) False] obtain kuid db where k: "masterKeeper cd (masterUID cd) = Inr kuid"
      "fmlookup (cd_DBs cd) (masterUID cd) = Some db" "db_UID db = masterUID cd" by blast
    obtain tree where "printTree n (masterUID cd) cd (masterUID cd) 0 '''' True = Some tree"
      using printTree_ends [OF assms(3,4)] by blast
    with k False show ?thesis by (simp add: printCluster_def)
  qed
  then obtain out where out: "printCluster n cd (masterUID cd) = Some (Inr out)"
    "if masterUID cd = '''' then Line ''Master Keeper: (none)'' \<in> set out
     else \<exists>kuid. masterKeeper cd (masterUID cd) = Inr kuid \<and> Line (''Master: '' @ kuid) \<in> set out" by blast
  show ?thesis
    using assms(2,5) c m out by (auto simp: status_def cluster_of_def split: if_splits)
qed

section \<open>An example\<close>

theorem status_total_witness:
  "\<exists>out. status 3 sort (Inr ''s1'') (Inr [\<lparr>si_UID = ''s1''\<rparr>]) (Inr fmempty)
      (Inr (Some (example_cd, \<lparr>kv_Key = '''', kv_Value = JSON example_cd, kv_LastIndex = 1\<rparr>))) = Some (Inr out) \<and>
    Line (''Master: '' @ projr (masterKeeper example_cd ''db1'')) \<in> set out"
proof -
  let ?pair = "\<lparr>kv_Key = '''', kv_Value = JSON example_cd, kv_LastIndex = 1\<rparr>"
  have g: "getClusterData (Inr (Some (example_cd, ?pair))) = Inr (example_cd, ?pair)"
    by (simp add: getClusterData_def cluster_of_def deref_def) code_simp
  have m: "masterUID example_cd = ''db1''" by code_simp
  have r: "follows_ranked (\<lambda>u. if u = ''db1'' then 1 else 0) example_cd"
  proof -
    have "fmpred (\<lambda>u db. list_all (\<lambda>f. u = ''db1'' \<and> f \<noteq> ''db1'') (elems (dbs_Followers (db_Spec db)))) (cd_DBs example_cd)"
      by code_simp
    from fmpredD [OF this] have "u = ''db1'' \<and> f \<noteq> ''db1''"
      if "fmlookup (cd_DBs example_cd) u = Some db" "f \<in> set (elems (dbs_Followers (db_Spec db)))" for u db f
      using that unfolding list_all_iff by blast
    note f = this
    show ?thesis unfolding follows_ranked_def
    proof (intro allI impI, elim conjE)
      fix u db v assume "fmlookup (cd_DBs example_cd) u = Some db" "v \<in> set (elems (dbs_Followers (db_Spec db)))"
      from f [OF this] show "(if v = ''db1'' then 1 else 0) < (if u = ''db1'' then 1 else 0 :: nat)" by simp
    qed
  qed
  have n: "(if masterUID example_cd = ''db1'' then 1 else 0) < (3 :: nat)" by simp
  have l: "Inr ''s1'' = Inr ''s1'' \<or> Inr ''s1'' = Inl ErrElectionNoLeader" by simp
  have ne: "''db1'' \<noteq> ''''" by simp
  from status_total [OF example_cd_wf g r n l, of sort "[\<lparr>si_UID = ''s1''\<rparr>]" fmempty]
  obtain out kuid where out: "status 3 sort (Inr ''s1'') (Inr [\<lparr>si_UID = ''s1''\<rparr>]) (Inr fmempty) (Inr (Some (example_cd, ?pair))) = Some (Inr out)"
    and "masterKeeper example_cd ''db1'' = Inr kuid" "Line (''Master: '' @ kuid) \<in> set out"
    unfolding m if_not_P [OF ne] by (elim exE conjE)
  then have "Line (''Master: '' @ projr (masterKeeper example_cd ''db1'')) \<in> set out" by simp
  with out show ?thesis by (intro exI conjI)
qed

end
