(* ===== verification/System.thy ===== *)
theory System
  imports Stolonctl
begin

text \<open>
  The whole system around the store: any number of sentinels and of \<^verbatim>\<open>stolonctl\<close> commands that read the
  cluster data, compute and put, in any interleaving, with reads that are arbitrarily old when the put is made,
  processes that die in between, and writes that fail or are done although an error was reported. The step
  relation is generic in the store; the locale \<open>cluster_store\<close> has the laws it needs. The etcd implementation satisfies
  them, where a put is one call; with kubernetes (theory \<open>Kube_System\<close>) it is several calls, and other steps happen in between.
\<close>

section \<open>The commands that change the cluster data\<close>

datatype command =
    RemoveKeeper iter_order string
  | FailKeeper string
  | Promote
  | Update "ClusterSpec \<Rightarrow> ClusterSpec res"

fun runCommand :: "command \<Rightarrow> ClusterData \<Rightarrow> ClusterData option res" where
  "runCommand (RemoveKeeper ord k) cd = bindE (removeKeeper_cd ord k cd) (\<lambda>cd. Inr (Some cd))"
| "runCommand (FailKeeper k) cd = bindE (failKeeper_cd k cd) (\<lambda>cd. Inr (Some cd))"
| "runCommand Promote cd = promote_cd cd"
| "runCommand (Update newSpec) cd = update_cd newSpec cd"

text \<open>An update may drop the settings of standby clusters.\<close>

definition dropsStandbyConfig :: "ClusterData \<Rightarrow> ClusterData \<Rightarrow> bool" where
  "dropsStandbyConfig cd cd' \<longleftrightarrow>
     (case (defspec_of cd, defspec_of cd') of
        (Inr spec, Inr spec') \<Rightarrow> cs_StandbyConfig spec \<noteq> None \<and> cs_StandbyConfig spec' = None
      | _ \<Rightarrow> False)"

section \<open>The step relation\<close>

type_synonym cd_read = "(ClusterData \<times> ClusterData KVPair) option"

record ('kv, 'w) System =
  sy_store :: 'kv
  sy_sentinels :: "nat \<Rightarrow> Sentinel"
  sy_pending :: "(cd_read option \<times> ClusterData \<times> 'w) list"

text \<open>
  A pending write is the new cluster data and the rest of the put that is under way, with what was read before; nothing was read
  before an unconditional put. \<open>advance w\<close> does the next call of the put to the store. \<open>other\<close> steps are
  those of the keepers and proxies and whatever else happens in the store at other keys.
\<close>

inductive system_step ::
  "('kv \<Rightarrow> cd_read sres) \<Rightarrow> (ClusterData \<Rightarrow> ClusterData KVPair option \<Rightarrow> 'w) \<Rightarrow> (ClusterData \<Rightarrow> 'w) \<Rightarrow>
   ('w \<Rightarrow> 'kv \<Rightarrow> 'kv \<times> 'w option) \<Rightarrow> ('kv \<Rightarrow> ClusterData sres option) \<Rightarrow> ('kv \<Rightarrow> 'kv \<Rightarrow> bool) \<Rightarrow>
   ('kv, 'w) System \<Rightarrow> ('kv, 'w) System \<Rightarrow> bool"
  for read startAtomicPut startPut advance cds later where
  election:
    "system_step read startAtomicPut startPut advance cds later y
       (y\<lparr>sy_sentinels := (sy_sentinels y)(i := electionMessage elected (sy_sentinels y i))\<rparr>)"
| check:
    "\<lbrakk>ci_cd inp = read (sy_store y);
      ci_keepersInfo inp = GetKeepersInfo (\<lambda>_ _. infos) path ();
      \<And>cd pair. ci_cd inp = Inr (Some (cd, pair)) \<Longrightarrow> fresh_uids env cd;
      clusterSentinelCheck env (sy_sentinels y i) inp = Inr (s', pt)\<rbrakk> \<Longrightarrow>
     system_step read startAtomicPut startPut advance cds later y
       (y\<lparr>sy_sentinels := (sy_sentinels y)(i := s'),
          sy_pending := (case pt of
             None \<Rightarrow> sy_pending y
           | Some (cd', prev) \<Rightarrow> (Some (projr (ci_cd inp)), cd', startAtomicPut cd' prev) # sy_pending y)\<rparr>)"
| command:
    "\<lbrakk>getClusterData (read (sy_store y)) = Inr (cd, pair);
      runCommand cmd cd = Inr (Some cd')\<rbrakk> \<Longrightarrow>
     system_step read startAtomicPut startPut advance cds later y
       (y\<lparr>sy_pending := (Some (Some (cd, pair)), cd', startAtomicPut cd' (Some pair)) # sy_pending y\<rparr>)"
| init:
    "initCluster_cd tnow uid data = Inr cd \<Longrightarrow>
     system_step read startAtomicPut startPut advance cds later y (y\<lparr>sy_pending := (None, cd, startPut cd) # sy_pending y\<rparr>)"
| put:
    "\<lbrakk>sy_pending y = ps @ (r, cd', w) # qs; advance w (sy_store y) = (st', w')\<rbrakk> \<Longrightarrow>
     system_step read startAtomicPut startPut advance cds later y
       (y\<lparr>sy_store := st', sy_pending := ps @ (case w' of None \<Rightarrow> [] | Some w'' \<Rightarrow> [(r, cd', w'')]) @ qs\<rparr>)"
| die:
    "sy_pending y = ps @ p # qs \<Longrightarrow>
     system_step read startAtomicPut startPut advance cds later y (y\<lparr>sy_pending := ps @ qs\<rparr>)"
| other:
    "\<lbrakk>later (sy_store y) st'; cds st' = cds (sy_store y)\<rbrakk> \<Longrightarrow>
     system_step read startAtomicPut startPut advance cds later y (y\<lparr>sy_store := st'\<rparr>)"

text \<open>
  The start: the store has no cluster data, or sound one from before; the sentinels are new, or have been running
  before.
\<close>

definition stored_ok :: "ClusterData sres option \<Rightarrow> bool" where
  "stored_ok x \<longleftrightarrow> x = None \<or> (\<exists>cd. x = Some (Inr cd) \<and> sound_cd cd)"

definition sentinel_ok :: "Sentinel \<Rightarrow> bool" where
  "sentinel_ok s \<longleftrightarrow> (\<forall>spec. s_initialClusterSpec s = Some spec \<longrightarrow> Validate spec = None)"

definition system_init :: "('kv \<Rightarrow> ClusterData sres option) \<Rightarrow> ('kv, 'w) System \<Rightarrow> bool" where
  "system_init cds y \<longleftrightarrow> stored_ok (cds (sy_store y)) \<and> sy_pending y = [] \<and> (\<forall>i. sentinel_ok (sy_sentinels y i))"

definition reachable where
  "reachable read startAtomicPut startPut advance cds later y \<longleftrightarrow>
     (\<exists>y0. system_init cds y0 \<and> (system_step read startAtomicPut startPut advance cds later)\<^sup>*\<^sup>* y0 y)"

lemma reachable_next:
  assumes "reachable read startAtomicPut startPut advance cds later y"
    and "system_step read startAtomicPut startPut advance cds later y y'"
  shows "reachable read startAtomicPut startPut advance cds later y'"
proof -
  from assms(1) obtain y0 where y0: "system_init cds y0" "(system_step read startAtomicPut startPut advance cds later)\<^sup>*\<^sup>* y0 y"
    by (auto simp: reachable_def)
  from y0(2) assms(2) have "(system_step read startAtomicPut startPut advance cds later)\<^sup>*\<^sup>* y0 y'"
    by (rule rtranclp.rtrancl_into_rtrancl)
  with y0(1) show ?thesis unfolding reachable_def by (intro exI [of _ y0] conjI)
qed

text \<open>How cluster data follows on cluster data: a leader's check, or a command.\<close>

definition sentinel_changes :: "ClusterData \<Rightarrow> ClusterData \<Rightarrow> bool" where
  "sentinel_changes cd cd' \<longleftrightarrow>
     (\<exists>env s inp s' pair infos path. ci_cd inp = Inr (Some (cd, pair)) \<and> fresh_uids env cd \<and> s_leader s \<and>
        ci_keepersInfo inp = GetKeepersInfo (\<lambda>_ _. infos) path () \<and>
        clusterSentinelCheck env s inp = Inr (s', Some (cd', Some pair)))"

definition command_changes :: "ClusterData \<Rightarrow> ClusterData \<Rightarrow> bool" where
  "command_changes cd cd' \<longleftrightarrow> (\<exists>cmd. runCommand cmd cd = Inr (Some cd'))"

definition initial_cd :: "ClusterData \<Rightarrow> bool" where
  "initial_cd cd \<longleftrightarrow> (\<exists>t uid spec. Validate spec = None \<and> cd = NewClusterData (NewCluster t uid (Some spec)))"

section \<open>Every change keeps the invariant\<close>

lemma wf_runCommand:
  assumes "wf_at b cd" and "b \<Longrightarrow> \<not> dropsStandbyConfig cd cd'" and "runCommand cmd cd = Inr (Some cd')"
  shows "wf_at b cd'"
proof (cases cmd)
  case (RemoveKeeper ord k)
  then show ?thesis using assms(3) wf_removeKeeper_cd [OF assms(1)] by (auto simp: res_simps)
next
  case (FailKeeper k)
  then show ?thesis using assms(3) wf_failKeeper [OF assms(1)] by (auto simp: res_simps)
next
  case Promote
  then show ?thesis using assms(3) wf_promote [OF assms(1)] by simp
next
  case (Update newSpec)
  obtain c spec where c: "cd_Cluster cd = Some c" "c_Spec c = Some spec" "ctlCluster cd = Inr (c, spec)"
    using assms(1) by (auto simp: ctlCluster_eq elim: wf_cd_parts)
  from assms(3) Update c obtain ns c' where ns: "newSpec spec = Inr ns" "UpdateSpec c ns = Inr c'"
    "cd' = cd\<lparr>cd_Cluster := Some c'\<rparr>" by (auto simp: update_cd_def res_simps)
  have "dropsStandbyConfig cd cd' \<longleftrightarrow> cs_StandbyConfig spec \<noteq> None \<and> cs_StandbyConfig ns = None"
    using c UpdateSpec_ok(1) [OF ns(2)] ns(3) by (simp add: dropsStandbyConfig_def defspec_of_def cluster_of_def DefSpec_def)
  then have "cs_StandbyConfig ns \<noteq> None" if b "cs_StandbyConfig spec \<noteq> None" using assms(2) [OF that(1)] that(2) by simp
  from wf_new_spec [OF assms(1) c(1,2) UpdateSpec_ok(2) [OF ns(2)] this] show ?thesis
    unfolding ns(3) UpdateSpec_ok(1) [OF ns(2)] .
qed

lemma GetKeepersInfo_ok: "GetKeepersInfo lst p st = Inr kis \<Longrightarrow> infos_ok kis"
proof -
  have "infos_ok m \<Longrightarrow> infos_ok (fold (\<lambda>ki m. fmupd (ki_UID ki) ki m) is m)" for "is" m
    by (induction "is" arbitrary: m) (auto simp: infos_ok_def intro!: fmpred_upd)
  from this [of fmempty] show "GetKeepersInfo lst p st = Inr kis \<Longrightarrow> infos_ok kis"
    by (auto simp: GetKeepersInfo_def infos_ok_def split: sum.splits)
qed

text \<open>A check does not change the initial specification of a sentinel.\<close>

lemma fold_keeps:
  assumes "\<And>x s. f (g x s) = f s"
  shows "f (fold g xs s) = f s"
  by (induction xs arbitrary: s) (simp_all add: assms)

lemma timers_initialSpec [simp]:
  "s_initialClusterSpec (SetKeeperError env u s) = s_initialClusterSpec s"
  "s_initialClusterSpec (CleanKeeperError u s) = s_initialClusterSpec s"
  "s_initialClusterSpec (SetDBError env u s) = s_initialClusterSpec s"
  "s_initialClusterSpec (CleanDBError u s) = s_initialClusterSpec s"
  "s_initialClusterSpec (SetDBNotIncreasingXLogPos u s) = s_initialClusterSpec s"
  "s_initialClusterSpec (CleanDBNotIncreasingXLogPos u s) = s_initialClusterSpec s"
  by (simp_all add: SetKeeperError_def CleanKeeperError_def SetDBError_def CleanDBError_def
      SetDBNotIncreasingXLogPos_def CleanDBNotIncreasingXLogPos_def Let_def split: option.split)

lemma updateKeepersStatus_initialSpec:
  assumes "updateKeepersStatus env s cd kis fr = Inr (s', cd', kihs)"
  shows "s_initialClusterSpec s' = s_initialClusterSpec s"
proof -
  have k: "s_initialClusterSpec (markKeepers env kis ks s) = s_initialClusterSpec s" for kis ks s
    unfolding markKeepers_def by (rule fold_keeps) (auto split: prod.split)
  have d: "s_initialClusterSpec (fold (\<lambda>(_, db). dbTimers env kis db) xs s) = s_initialClusterSpec s" for kis xs s
    by (rule fold_keeps) (auto simp: dbTimers_def Let_def split: prod.split option.split)
  show ?thesis using assms by (auto simp: updateKeepersStatus_def Let_def res_simps k d split: if_splits)
qed

lemma updateDBConvergenceInfos_initialSpec:
  "s_initialClusterSpec (updateDBConvergenceInfos env cd s) = s_initialClusterSpec s"
  unfolding updateDBConvergenceInfos_def
  by (rule fold_keeps) (auto simp: updateDBConvergenceInfo_def Let_def split: prod.splits option.splits)

lemma leaderCheck_initialSpec:
  assumes "leaderCheck env s cd pair n kis pis = Inr (s', pt)"
  shows "s_initialClusterSpec s' = s_initialClusterSpec s"
proof -
  let ?s = "s\<lparr>s_lastLeadershipCount := n\<rparr>"
  let ?s' = "if s_lastLeadershipCount s \<noteq> n then resetTimers env cd ?s else ?s"
  have s: "s_initialClusterSpec ?s' = s_initialClusterSpec s"
    by (simp add: resetTimers_def updateDBConvergenceInfos_initialSpec)
  from assms obtain s1 cd1 kihs where u: "updateKeepersStatus env ?s' cd kis (s_lastLeadershipCount s \<noteq> n) = Inr (s1, cd1, kihs)"
    unfolding leaderCheck_def Let_def by (auto simp: res_simps)
  have "s_initialClusterSpec (fst (activeProxiesInfos env s1 pis)) = s_initialClusterSpec s1"
    by (simp add: activeProxiesInfos_def Let_def)
  moreover have "s_initialClusterSpec s' = s_initialClusterSpec (fst (activeProxiesInfos env s1 pis))"
    using assms unfolding leaderCheck_def Let_def
    by (auto simp: u res_simps updateDBConvergenceInfos_initialSpec split: prod.splits sum.splits go_error.splits)
  ultimately show ?thesis using updateKeepersStatus_initialSpec [OF u] s by simp
qed

lemma check_initialSpec:
  assumes "clusterSentinelCheck env s inp = Inr (s', pt)"
  shows "s_initialClusterSpec s' = s_initialClusterSpec s"
proof -
  have m: "s_initialClusterSpec s' = s_initialClusterSpec s0" if "checkMembers env s0 cd pair inp = Inr (s', pt)" for s0 cd pair
    using checkMembers_cases [of env s0 cd pair inp] that by (auto dest: leaderCheck_initialSpec [OF sym])
  show ?thesis
    using assms unfolding clusterSentinelCheck_def
    by (auto simp: res_simps split: sum.splits option.splits if_splits dest!: m)
qed

lemma NewSentinel_ok: "NewSentinel uid sp = Inr s \<Longrightarrow> sentinel_ok s"
  by (cases sp) (auto simp: NewSentinel_def sentinel_ok_def split: option.splits)

lemma check_put:
  assumes "clusterSentinelCheck env s inp = Inr (s', Some (cd', prev))" and "ci_cd inp = Inr r"
    and "ci_keepersInfo inp = GetKeepersInfo (\<lambda>_ _. infos) path ()"
    and "\<forall>cd pair. r = Some (cd, pair) \<longrightarrow> sound_cd cd \<and> fresh_uids env cd"
    and "\<forall>spec. s_initialClusterSpec s = Some spec \<longrightarrow> Validate spec = None"
  shows "prev = map_option snd r" and "sound_cd (json_ClusterData cd')"
    and "case r of None \<Rightarrow> initial_cd cd' | Some (cd, _) \<Rightarrow> sentinel_changes cd cd'"
proof -
  have k: "\<And>kis. ci_keepersInfo inp = Inr kis \<Longrightarrow> infos_ok kis" using assms(3) by (simp add: GetKeepersInfo_ok)
  have w: "\<And>cd pair. ci_cd inp = Inr (Some (cd, pair)) \<Longrightarrow> sound_cd cd \<and> fresh_uids env cd" using assms(2,4) by simp
  have c: "wf_cd (json_ClusterData cd') \<and> ((\<exists>cd pair. ci_cd inp = Inr (Some (cd, pair)) \<and> prev = Some pair \<and> s_leader s) \<or>
     ci_cd inp = Inr None \<and> prev = None \<and> s_initialClusterSpec s \<noteq> None)"
    by (rule check_result [OF assms(1)]) (use w k assms(5) in blast)+
  show "prev = map_option snd r" "sound_cd (json_ClusterData cd')" using c assms(2) wf_sound by auto
  show "case r of None \<Rightarrow> initial_cd cd' | Some (cd, _) \<Rightarrow> sentinel_changes cd cd'"
  proof (cases r)
    case None
    then obtain spec where "s_initialClusterSpec s = Some spec"
        "cd' = NewClusterData (NewCluster (e_wall env) (e_uidFn env 0) (Some spec))"
      using assms(1,2) by (auto simp: clusterSentinelCheck_def split: option.splits)
    then show ?thesis using assms(5) None unfolding initial_cd_def by auto
  next
    case (Some a)
    obtain cd pair where a: "a = (cd, pair)" by fastforce
    then have "prev = Some pair" "s_leader s" "fresh_uids env cd" using c assms(2,4) Some by auto
    moreover have "ci_cd inp = Inr (Some (cd, pair))" using assms(2) Some a by simp
    ultimately have "sentinel_changes cd cd'"
      unfolding sentinel_changes_def using assms(1,3)
      by (intro exI [of _ env] exI [of _ s] exI [of _ inp] exI [of _ s'] exI [of _ pair] exI [of _ infos] exI [of _ path]) simp
    then show ?thesis using Some a by simp
  qed
qed

section \<open>The contract of the store\<close>

text \<open>
  What the step relation needs of the store, as the interface \<^verbatim>\<open>Store\<close> of
  \<^verbatim>\<open>store.go\<close> gives it: \<open>cds st\<close> is the cluster data in the store, which is what a read
  returns; \<open>under_way r cd w st\<close> says that \<open>w\<close> is the rest of a put of \<open>cd\<close> after reading
  \<open>r\<close>; each call of a put leaves the cluster data as it is, or replaces what was read by the new one.
\<close>

locale cluster_store =
  fixes read :: "'kv \<Rightarrow> cd_read sres"
    and startAtomicPut :: "ClusterData \<Rightarrow> ClusterData KVPair option \<Rightarrow> 'w"
    and startPut :: "ClusterData \<Rightarrow> 'w"
    and advance :: "'w \<Rightarrow> 'kv \<Rightarrow> 'kv \<times> 'w option"
    and cds :: "'kv \<Rightarrow> ClusterData sres option"
    and later :: "'kv \<Rightarrow> 'kv \<Rightarrow> bool"
    and under_way :: "cd_read option \<Rightarrow> ClusterData \<Rightarrow> 'w \<Rightarrow> 'kv \<Rightarrow> bool"
  assumes read_cds: "read st = Inr rd \<Longrightarrow> cds st = map_option (Inr \<circ> fst) rd"
    and start: "read st = Inr rd \<Longrightarrow> under_way (Some rd) cd (startAtomicPut cd (map_option snd rd)) st"
    and start_put: "under_way None cd (startPut cd) st"
    and under_way_later: "under_way r cd w st \<Longrightarrow> later st st' \<Longrightarrow> under_way r cd w st'"
    and advance_later: "under_way r cd w st \<Longrightarrow> advance w st = (st', rest) \<Longrightarrow> later st st'"
    and advance_cds: "under_way r cd w st \<Longrightarrow> advance w st = (st', rest) \<Longrightarrow> cds st' = cds st \<or>
      cds st' = Some (Inr (json_ClusterData cd)) \<and> (\<forall>r'. r = Some r' \<longrightarrow> cds st = map_option (Inr \<circ> fst) r')"
    and advance_rest: "under_way r cd w st \<Longrightarrow> advance w st = (st', Some w') \<Longrightarrow> under_way r cd w' st'"
    and later_refl: "later st st"
    and later_trans: "later st st' \<Longrightarrow> later st' st'' \<Longrightarrow> later st st''"

text \<open>Why new cluster data may follow what was read.\<close>

definition justified :: "cd_read option \<Rightarrow> ClusterData \<Rightarrow> bool" where
  "justified r cd' \<longleftrightarrow>
     (case r of Some (Some (cd, _)) \<Rightarrow> sentinel_changes cd cd' \<or> command_changes cd cd' | _ \<Rightarrow> initial_cd cd')"

definition pending_ok where
  "pending_ok under_way st p \<longleftrightarrow>
     (case p of (r, cd', w) \<Rightarrow> sound_cd (json_ClusterData cd') \<and> under_way r cd' w st \<and> justified r cd')"

definition system_inv where
  "system_inv cds under_way y \<longleftrightarrow>
     (\<forall>i. sentinel_ok (sy_sentinels y i)) \<and> stored_ok (cds (sy_store y)) \<and>
     list_all (pending_ok under_way (sy_store y)) (sy_pending y)"

text \<open>What a step may make of the cluster data in the store.\<close>

definition lineage :: "ClusterData sres option \<Rightarrow> ClusterData sres option \<Rightarrow> bool" where
  "lineage x x' \<longleftrightarrow> x' = x \<or>
     (\<exists>cd'. x' = Some (Inr (json_ClusterData cd')) \<and>
        (initial_cd cd' \<or> (\<exists>cd. x = Some (Inr cd) \<and> (sentinel_changes cd cd' \<or> command_changes cd cd'))))"

context cluster_store
begin

lemma pending_later: "pending_ok under_way st p \<Longrightarrow> later st st' \<Longrightarrow> pending_ok under_way st' p"
  unfolding pending_ok_def by (auto split: prod.splits intro: under_way_later)

lemma read_ok:
  assumes "stored_ok (cds st)" and "read st = Inr r"
  shows "\<And>cd pair. r = Some (cd, pair) \<Longrightarrow> sound_cd cd"
  using assms read_cds [OF assms(2)] by (auto simp: stored_ok_def)

lemma put_lineage:
  assumes "pending_ok under_way st (r, cd', w)" and "advance w st = (st', rest)"
  shows "lineage (cds st) (cds st')" and "later st st'"
    and "cds st' = cds st \<or> cds st' = Some (Inr (json_ClusterData cd'))"
proof -
  from assms(1) have u: "under_way r cd' w st" and j: "justified r cd'" by (simp_all add: pending_ok_def)
  note c = advance_cds [OF u assms(2)]
  from c show "cds st' = cds st \<or> cds st' = Some (Inr (json_ClusterData cd'))" by blast
  show "later st st'" by (rule advance_later [OF u assms(2)])
  show "lineage (cds st) (cds st')"
  proof (cases "cds st' = cds st")
    case False
    with c j show ?thesis by (auto simp: lineage_def justified_def split: option.splits)
  qed (simp add: lineage_def)
qed

lemma step_inv:
  assumes "system_step read startAtomicPut startPut advance cds later y y'" and "system_inv cds under_way y"
  shows "system_inv cds under_way y' \<and> lineage (cds (sy_store y)) (cds (sy_store y'))"
  using assms
proof (cases rule: system_step.cases)
  case (election i elected)
  then show ?thesis using assms(2) by (auto simp: system_inv_def electionMessage_def lineage_def sentinel_ok_def)
next
  case (check inp infos path env i s' pt)
  note inv = assms(2) [unfolded system_inv_def]
  have init: "s_initialClusterSpec s' = s_initialClusterSpec (sy_sentinels y i)" by (rule check_initialSpec [OF check(5)])
  have "list_all (pending_ok under_way (sy_store y)) (sy_pending y')"
  proof (cases pt)
    case None
    then show ?thesis using inv check by simp
  next
    case (Some a)
    obtain cd' prev where a: "a = (cd', prev)" by fastforce
    from check(5) Some a obtain r where r: "ci_cd inp = Inr r"
      by (cases "ci_cd inp") (auto simp: clusterSentinelCheck_def)
    have rd: "read (sy_store y) = Inr r" using check(2) r by simp
    have w: "\<forall>cd pair. r = Some (cd, pair) \<longrightarrow> sound_cd cd \<and> fresh_uids env cd"
      using read_ok [OF _ rd] inv check(4) r by blast
    have i: "\<forall>spec. s_initialClusterSpec (sy_sentinels y i) = Some spec \<longrightarrow> Validate spec = None"
      using inv by (simp add: sentinel_ok_def)
    have run: "clusterSentinelCheck env (sy_sentinels y i) inp = Inr (s', Some (cd', prev))" using check(5) Some a by simp
    note p = check_put [OF run r check(3) w i]
    have "justified (Some r) cd'" using p(3) unfolding justified_def by (auto split: option.splits)
    then have "pending_ok under_way (sy_store y) (Some r, cd', startAtomicPut cd' prev)"
      using p(1,2) start [OF rd, of cd'] unfolding pending_ok_def by simp
    then show ?thesis using inv check(1) Some a r by simp
  qed
  then show ?thesis using inv init check(1) by (auto simp: system_inv_def lineage_def sentinel_ok_def)
next
  case (command cd pair cmd cd')
  note inv = assms(2) [unfolded system_inv_def]
  have rd: "read (sy_store y) = Inr (Some (cd, pair))" by (rule getClusterData_ok(1) [OF command(2)])
  have "sound_cd cd" using read_ok [OF _ rd] inv by blast
  then have "sound_cd (json_ClusterData cd')" using wf_json [OF wf_runCommand [OF _ _ command(3)]] by simp
  then have "pending_ok under_way (sy_store y) (Some (Some (cd, pair)), cd', startAtomicPut cd' (Some pair))"
    using start [OF rd, of cd'] command(3) unfolding pending_ok_def justified_def command_changes_def by auto
  then show ?thesis using inv command(1) by (simp add: system_inv_def lineage_def)
next
  case (init tnow uid data cd)
  note inv = assms(2) [unfolded system_inv_def]
  have i: "initial_cd cd" using init(2) by (auto simp: initCluster_cd_def initial_cd_def res_simps split: option.splits)
  then have "sound_cd (json_ClusterData cd)" using wf_json [OF wf_sound [OF initCluster_wf [OF init(2)]]] by simp
  then have "pending_ok under_way (sy_store y) (None, cd, startPut cd)"
    using i start_put by (simp add: pending_ok_def justified_def)
  then show ?thesis using inv init(1) by (simp add: system_inv_def lineage_def)
next
  case (put ps r cd' w qs st' w')
  note inv = assms(2) [unfolded system_inv_def put(2)]
  have w: "pending_ok under_way (sy_store y) (r, cd', w)" using inv by simp
  note p = put_lineage [OF w put(3)]
  have "sound_cd (json_ClusterData cd')" using w by (simp add: pending_ok_def)
  then have "stored_ok (cds st')" using p(3) inv by (auto simp: stored_ok_def)
  moreover have "list_all (pending_ok under_way st') (ps @ qs)"
    using inv pending_later [OF _ p(2)] by (auto simp: list_all_iff)
  moreover have "pending_ok under_way st' (r, cd', w'')" if "w' = Some w''" for w''
    using w put(3) that advance_rest by (auto simp: pending_ok_def)
  ultimately show ?thesis using inv p(1) put(1) by (auto simp: system_inv_def split: option.splits)
next
  case (die ps p qs)
  then show ?thesis using assms(2) by (simp add: system_inv_def lineage_def)
next
  case (other st')
  note inv = assms(2) [unfolded system_inv_def]
  then show ?thesis using inv other pending_later
    by (auto simp: system_inv_def lineage_def list_all_iff)
qed

lemma reachable_inv:
  assumes "reachable read startAtomicPut startPut advance cds later y"
  shows "system_inv cds under_way y"
proof -
  from assms obtain y0 where y0: "system_init cds y0" "(system_step read startAtomicPut startPut advance cds later)\<^sup>*\<^sup>* y0 y"
    by (auto simp: reachable_def)
  have "system_inv cds under_way y0"
    using y0(1) by (simp add: system_inv_def system_init_def)
  with y0(2) show ?thesis by (induction rule: rtranclp_induct) (auto dest: step_inv)
qed

lemmas reachable_step = step_inv [OF _ reachable_inv]

lemma stored_sound:
  assumes "reachable read startAtomicPut startPut advance cds later y" and "cds (sy_store y) = Some x"
  shows "\<exists>cd. x = Inr cd \<and> sound_cd cd"
  using reachable_inv [OF assms(1)] assms(2) by (simp add: system_inv_def stored_ok_def)

end

section \<open>Key value stores\<close>

text \<open>With a \<^verbatim>\<open>KVStore\<close> a put is one call.\<close>

datatype kv_call = CallAtomicPut ClusterData "ClusterData KVPair option" | CallPut ClusterData

fun kv_advance where
  "kv_advance aput put path (CallAtomicPut cd prev) st = (fst (AtomicPutClusterData aput path cd prev st), None)"
| "kv_advance aput put path (CallPut cd) st = (fst (PutClusterData put path cd st), None)"

definition kv_under_way where
  "kv_under_way get later path r cd w st \<longleftrightarrow>
     (case w of
        CallAtomicPut cd' prev \<Rightarrow> cd' = cd \<and> (\<exists>r' st0. r = Some r' \<and> prev = map_option snd r' \<and> later st0 st \<and>
          GetClusterData get path st0 = Inr r')
      | CallPut cd' \<Rightarrow> cd' = cd \<and> r = None)"

text \<open>
  What is needed besides the contract \<open>kv_store\<close>: the operations lead to later states, and an unconditional put leaves
  the key as it was or stores the value.
\<close>

locale kv_history = cluster_data_store get aput look later
  for get :: "string \<Rightarrow> 'kv \<Rightarrow> ClusterData KVPair sres" and aput look later +
  fixes put :: "string \<Rightarrow> ClusterData bytes \<Rightarrow> duration option \<Rightarrow> 'kv \<Rightarrow> 'kv \<times> unit sres"
  assumes kv_refl: "later st st"
    and kv_trans: "later st st' \<Longrightarrow> later st' st'' \<Longrightarrow> later st st''"
    and aput_later: "aput k v prev None st = (st', r) \<Longrightarrow> later st st'"
    and put_later: "put k v None st = (st', r') \<Longrightarrow> later st st'"
    and put_value: "put k v None st = (st', r') \<Longrightarrow> look st' k = look st k \<or> map_option fst (look st' k) = Some v"
begin

lemma swap_call:
  assumes "GetClusterData get path st0 = Inr r" "later st0 st"
    and "AtomicPutClusterData aput path cd (map_option snd r) st = (st', res)"
  shows "later st st'" and "stored look path st' = stored look path st \<or>
    stored look path st' = Some (Inr (json_ClusterData cd)) \<and> stored look path st = map_option (Inr \<circ> fst) r"
proof -
  show "later st st'" using assms(3) by (auto simp: AtomicPutClusterData_def Let_def intro: aput_later)
  show "stored look path st' = stored look path st \<or>
    stored look path st' = Some (Inr (json_ClusterData cd)) \<and> stored look path st = map_option (Inr \<circ> fst) r"
    using cas [OF assms] by (auto split: sum.splits)
qed

lemma put_call:
  assumes "PutClusterData put path cd st = (st', res)"
  shows "later st st'" and "stored look path st' = stored look path st \<or>
    stored look path st' = Some (Inr (json_ClusterData cd))"
proof -
  have p: "put (Join [path, clusterDataFile]) (JSON (json_ClusterData cd)) None st = (st', res)"
    using assms by (simp add: PutClusterData_def)
  show "later st st'" by (rule put_later [OF p])
  show "stored look path st' = stored look path st \<or> stored look path st' = Some (Inr (json_ClusterData cd))"
    using put_value [OF p] by (auto simp: stored_def)
qed

lemma is_cluster_store:
  "cluster_store (GetClusterData get path) CallAtomicPut CallPut (kv_advance aput put path) (stored look path) later
     (kv_under_way get later path)"
proof (unfold_locales, goal_cases)
  case (1 st r)
  then show ?case using read_stored [of path st] by (cases r) auto
next
  case (2 st r cd)
  then show ?case using kv_refl by (auto simp: kv_under_way_def)
next
  case (4 r cd w st st')
  then show ?case by (auto simp: kv_under_way_def split: kv_call.splits) (use kv_trans in blast)
next
  case (5 r cd w st st' w')
  then show ?case by (cases w) (auto simp: kv_under_way_def intro: swap_call(1) put_call(1) prod.collapse [symmetric])
next
  case (6 r cd w st st' w')
  show ?case
  proof (cases w)
    case (CallAtomicPut cd' prev)
    with 6 obtain r' st0 where r': "cd' = cd" "r = Some r'" "prev = map_option snd r'" "later st0 st"
      "GetClusterData get path st0 = Inr r'" by (auto simp: kv_under_way_def)
    from swap_call(2) [OF r'(5,4) prod.collapse [symmetric], of cd] 6(2) CallAtomicPut r'(1-3) show ?thesis by auto
  next
    case (CallPut cd')
    with 6 have "cd' = cd" "r = None" by (auto simp: kv_under_way_def)
    with put_call(2) [OF prod.collapse [symmetric], of path cd st] 6(2) CallPut show ?thesis by auto
  qed
next
  case (7 r cd w st st' w')
  then show ?case by (cases w) auto
qed (auto simp: kv_under_way_def intro: kv_refl kv_trans)

end

section \<open>etcd\<close>

abbreviation "etcd_step c kvs later path \<equiv>
  system_step (GetClusterData (etcdv3_Get c) path) CallAtomicPut CallPut (kv_advance (etcdv3_AtomicPut c) (etcdv3_Put c) path)
    (stored (etcd_val kvs) path) later"

abbreviation "etcd_reachable c kvs later path \<equiv>
  reachable (GetClusterData (etcdv3_Get c) path) CallAtomicPut CallPut (kv_advance (etcdv3_AtomicPut c) (etcdv3_Put c) path)
    (stored (etcd_val kvs) path) later"

text \<open>What etcd has to satisfy besides \<open>etcd_client\<close>: its calls lead to later states, and a put is one.\<close>

locale etcd_history = etcd_client c kvs later
  for c :: "(ClusterData, 'e) EtcdClient" and kvs later +
  assumes refl: "later e e"
    and trans: "later e e' \<Longrightarrow> later e' e'' \<Longrightarrow> later e e''"
    and TxnPut_later: "ec_TxnPut c cmp k v l e = (e', r) \<Longrightarrow> later e e'"
    and Put_later: "ec_Put c k v l e = (e', r') \<Longrightarrow> later e e'"
    and Put_value: "ec_Put c k v l e = (e', r') \<Longrightarrow> kvs e' k = kvs e k \<or> (\<exists>cr m. kvs e' k = Some (v, cr, m))"

sublocale etcd_history \<subseteq> kv_history "etcdv3_Get c" "etcdv3_AtomicPut c" "etcd_val kvs" later "etcdv3_Put c"
proof (unfold_locales, goal_cases)
  case (3 k v prev st st' r)
  then show ?case by (cases rule: aput_cases) (auto dest: TxnPut_later)
next
  case (4 k v st st' r')
  then show ?case by (auto simp: etcdv3_Put_def grantLease_def dest: Put_later split: prod.splits sum.splits)
next
  case (5 k v st st' r')
  then show ?case
    by (auto simp: etcdv3_Put_def grantLease_def etcd_val_def dest!: Put_value split: prod.splits sum.splits)
qed (auto intro: refl trans)

context etcd_history
begin

lemma etcd_cluster_store:
  "cluster_store (GetClusterData (etcdv3_Get c) path) CallAtomicPut CallPut (kv_advance (etcdv3_AtomicPut c) (etcdv3_Put c) path)
     (stored (etcd_val kvs) path) later (kv_under_way (etcdv3_Get c) later path)"
  by (rule is_cluster_store)

end

interpretation ref_history: etcd_history "log_etcd :: (ClusterData, ClusterData etcd_log) EtcdClient" log_kvs log_later
proof (unfold_locales, goal_cases)
  case (2 e e' e'')
  then show ?case by (auto simp: log_later_def)
next
  case (5 k v l e e' r')
  then show ?case by (auto simp: log_etcd_def log_put_def log_kvs_def split: if_splits)
qed (auto simp: log_etcd_def log_put_def log_later_def split: if_splits)

text \<open>The contract holds for the etcd implementation on the reference etcd.\<close>

interpretation etcd_cluster: cluster_store "GetClusterData (etcdv3_Get log_etcd) ''stolon''" CallAtomicPut CallPut
  "kv_advance (etcdv3_AtomicPut log_etcd) (etcdv3_Put log_etcd) ''stolon''" "stored (etcd_val log_kvs) ''stolon''" log_later
  "kv_under_way (etcdv3_Get log_etcd) log_later ''stolon''"
  by (rule ref_history.is_cluster_store)

section \<open>Changes of the master\<close>

lemma phase_shape: "same_shape cd cd' \<Longrightarrow> phaseOf cd' = phaseOf cd"
  by (auto simp: same_shape_def phaseOf_def)

lemma same_shape_refl: "cd_Cluster cd = Some c \<Longrightarrow> same_shape cd cd"
proof -
  have "rel_option same_identity (fmlookup (cd_DBs cd) u) (fmlookup (cd_DBs cd) u)" for u
    by (cases "fmlookup (cd_DBs cd) u") (simp_all add: same_identity_def)
  then show "cd_Cluster cd = Some c \<Longrightarrow> same_shape cd cd" by (simp add: same_shape_def)
qed

lemma status_shape:
  assumes "wf_at b cd" and "infos_ok kis" and "updateKeepersStatus env s cd kis fr = Inr (s', cd', kihs)"
  shows "same_shape cd cd'"
proof (cases fr)
  case True
  obtain c where "cd_Cluster cd = Some c" using assms(1) by (auto elim: wf_cd_parts)
  then show ?thesis using assms(3) True by (auto simp: updateKeepersStatus_def res_simps Let_def intro: same_shape_refl)
next
  case False
  obtain c where c: "cluster_of cd = Inr c" "keepers_ok cd" using assms(1) by (auto elim: wf_cd_parts)
  from assms(3) False have "updateKeepersStatus env s cd kis False = Inr (s', cd', kihs)" by simp
  from updateKeepersStatus_shape(1) [OF this c(1) assms(2) c(2)] show ?thesis .
qed

text \<open>The master that the proxies are told.\<close>

definition proxyMaster :: "ClusterData \<Rightarrow> string option" where
  "proxyMaster cd = map_option (\<lambda>p. ps_MasterDBUID (p_Spec p)) (cd_Proxy cd)"

lemma shape_proxyMaster: "same_shape cd cd' \<Longrightarrow> proxyMaster cd' = proxyMaster cd"
  by (simp add: same_shape_def proxyMaster_def)

lemma json_master: "masterUID (json_ClusterData cd) = masterUID cd"
  by (cases "cd_Cluster cd") (simp_all add: json_ClusterData_def masterUID_def json_Cluster_def)

lemma json_proxyMaster: "proxyMaster (json_ClusterData cd) = proxyMaster cd"
  by (cases "cd_Proxy cd") (simp_all add: json_ClusterData_def proxyMaster_def json_Proxy_def)

lemma sentinel_changes_master:
  assumes "sentinel_changes cd cd'" and "wf_at b cd" and "phaseOf cd = Some ClusterPhaseNormal"
    and "masterUID cd' \<noteq> masterUID cd"
  shows "proxyMaster cd' = Some '''' \<and> fmlookup (cd_DBs cd) (masterUID cd') \<noteq> None"
proof -
  from assms(1) obtain env s inp s' pair infos path where
    i: "ci_cd inp = Inr (Some (cd, pair))" and f: "fresh_uids env cd"
    and k: "ci_keepersInfo inp = GetKeepersInfo (\<lambda>_ _. infos) path ()"
    and run: "clusterSentinelCheck env s inp = Inr (s', Some (cd', Some pair))"
    unfolding sentinel_changes_def by blast
  from check_leads [OF i run] obtain s0 kis pis where
    l: "leaderCheck env s0 cd pair (s_leadershipCount s) kis pis = Inr (s', Some (cd', Some pair))"
    and kis: "ci_keepersInfo inp = Inr kis" by blast
  have ok: "infos_ok kis" using k kis by (simp add: GetKeepersInfo_ok)
  from leaderCheck_put [OF l] obtain s1 s2 cd1 kihs s3 act cd2 where
    u: "updateKeepersStatus env s1 cd kis (s_lastLeadershipCount s0 \<noteq> s_leadershipCount s) = Inr (s2, cd1, kihs)"
    "updateCluster env s3 cd1 act = Inr cd2" "updateChangeTimes env cd cd2 = Inr cd'" by metis
  note sh = status_shape [OF assms(2) ok u(1)]
  have wf1: "wf_at b cd1" by (rule wf_updateKeepersStatus [OF assms(2) ok u(1)])
  have ph: "phaseOf cd1 = Some ClusterPhaseNormal" using phase_shape [OF sh] assms(3) by simp
  have m1: "masterUID cd1 = masterUID cd" by (rule same_shapeD(4) [OF sh])
  have "fresh_uids env cd1" using f same_shapeD(3) [OF sh] by (simp add: fresh_uids_def)
  then have wf2: "wf_cd cd2" by (rule wf_updateCluster [OF wf1 _ u(2)])
  obtain c2 p2 where c2: "cd_Cluster cd2 = Some c2" "cd_Proxy cd2 = Some p2" using wf2 by (auto elim: wf_cd_parts)
  from updateChangeTimes_shape [OF c2, of env cd] u(3) have sh2: "same_shape cd2 cd'" by (metis sum.inject(2))
  have m2: "masterUID cd' = masterUID cd2" by (rule same_shapeD(4) [OF sh2])
  obtain spec p1 where c1: "defspec_of cd1 = Inr spec" "cd_Proxy cd1 = Some p1" using wf1 by (auto elim: wf_cd_parts)
  have ne: "masterUID cd2 \<noteq> masterUID cd1" using assms(4) m1 m2 by simp
  from updateCluster_fences [OF u(2) ph c1(2) ne] have "proxyMaster cd2 = Some ''''" by (auto simp: proxyMaster_def)
  moreover from updateCluster_failover [OF u(2) ph wf_cd_dbs(1) [OF wf1] c1(1) ne]
  have "fmlookup (cd_DBs cd1) (masterUID cd2) \<noteq> None" by blast
  ultimately show ?thesis using shape_proxyMaster [OF sh2] same_shapeD(3) [OF sh] m2 by simp
qed

text \<open>
  A check of a leader writes well-formed cluster data; a command keeps it so unless it drops the settings of standby clusters.
\<close>

lemma sentinel_changes_wf:
  assumes "sentinel_changes cd cd'" and "wf_at b cd"
  shows "wf_cd (json_ClusterData cd')"
proof -
  from assms(1) obtain env s inp s' pair infos path where
    i: "ci_cd inp = Inr (Some (cd, pair))" and f: "fresh_uids env cd"
    and k: "ci_keepersInfo inp = GetKeepersInfo (\<lambda>_ _. infos) path ()"
    and run: "clusterSentinelCheck env s inp = Inr (s', Some (cd', Some pair))"
    unfolding sentinel_changes_def by blast
  from check_leads [OF i run] obtain s0 kis pis where
    l: "leaderCheck env s0 cd pair (s_leadershipCount s) kis pis = Inr (s', Some (cd', Some pair))"
    and kis: "ci_keepersInfo inp = Inr kis" by blast
  have "infos_ok kis" using k kis by (simp add: GetKeepersInfo_ok)
  from wf_json [OF wf_leaderCheck [OF l assms(2) f this]] show ?thesis .
qed

lemma initial_cd_wf: "initial_cd cd \<Longrightarrow> wf_cd (json_ClusterData cd)"
  by (auto simp: initial_cd_def intro!: wf_json wf_new)

lemma changes_wf:
  assumes "initial_cd cd' \<or> sentinel_changes cd cd' \<or> command_changes cd cd'" and "sound_cd cd"
  shows "wf_cd (json_ClusterData cd') \<or> command_changes cd cd' \<and> (\<not> wf_cd cd \<or> dropsStandbyConfig cd cd')"
  using assms initial_cd_wf sentinel_changes_wf wf_json wf_runCommand [of True cd cd'] unfolding command_changes_def by metis

lemma command_changes_master:
  assumes "command_changes cd cd'"
  shows "masterUID cd' = masterUID cd"
proof -
  from assms obtain cmd where cmd: "runCommand cmd cd = Inr (Some cd')" by (auto simp: command_changes_def)
  show ?thesis
  proof (cases cmd)
    case (RemoveKeeper ord k)
    then show ?thesis using cmd
      by (auto simp: removeKeeper_cd_def res_simps masterUID_def split: option.splits if_splits prod.splits)
  next
    case (FailKeeper k)
    then show ?thesis using cmd by (auto simp: failKeeper_cd_def res_simps masterUID_def split: option.splits)
  next
    case Promote
    then show ?thesis using cmd
      by (auto simp: promote_cd_def res_simps masterUID_def Let_def ctlCluster_eq dest!: UpdateSpec_ok(1) split: if_splits)
  next
    case (Update f)
    then show ?thesis using cmd
      by (auto simp: update_cd_def res_simps masterUID_def ctlCluster_eq dest!: UpdateSpec_ok(1))
  qed
qed

context cluster_store
begin

lemma step_fencing:
  assumes "reachable read startAtomicPut startPut advance cds later y"
    and "system_step read startAtomicPut startPut advance cds later y y'"
    and "cds (sy_store y) = Some (Inr cd)" and "phaseOf cd = Some ClusterPhaseNormal"
    and "cds (sy_store y') = Some (Inr cd')" and "masterUID cd' \<noteq> masterUID cd"
  shows "proxyMaster cd' = Some '''' \<and> fmlookup (cd_DBs cd) (masterUID cd') \<noteq> None \<or>
    (\<exists>cd0. initial_cd cd0 \<and> cd' = json_ClusterData cd0)"
proof -
  have wf: "sound_cd cd" using stored_sound [OF assms(1,3)] by simp
  from reachable_step [OF assms(2,1)] assms(3,5,6) obtain cd0 where
    cd0: "cd' = json_ClusterData cd0" "initial_cd cd0 \<or> sentinel_changes cd cd0 \<or> command_changes cd cd0"
    unfolding lineage_def by auto
  have m: "masterUID cd' = masterUID cd0" "proxyMaster cd' = proxyMaster cd0"
    unfolding cd0(1) by (rule json_master json_proxyMaster)+
  from cd0(2) show ?thesis
    using sentinel_changes_master [OF _ wf assms(4), of cd0] command_changes_master [of cd cd0] assms(6) m cd0(1) by auto
qed

lemma step_correct:
  assumes "reachable read startAtomicPut startPut advance cds later y"
    and "system_step read startAtomicPut startPut advance cds later y y'"
    and "cds (sy_store y) = Some x" and "cds (sy_store y') = Some x'" and "x' \<noteq> x"
  shows "\<exists>cd cd'. x = Inr cd \<and> x' = Inr (json_ClusterData cd') \<and> sound_cd cd \<and> sound_cd (json_ClusterData cd') \<and>
    (wf_cd (json_ClusterData cd') \<or> command_changes cd cd' \<and> (\<not> wf_cd cd \<or> dropsStandbyConfig cd cd')) \<and>
    (initial_cd cd' \<or> sentinel_changes cd cd' \<or> command_changes cd cd') \<and>
    (phaseOf cd = Some ClusterPhaseNormal \<and> masterUID cd' \<noteq> masterUID cd \<and> \<not> initial_cd cd' \<longrightarrow>
       proxyMaster cd' = Some '''' \<and> fmlookup (cd_DBs cd) (masterUID cd') \<noteq> None)"
proof -
  obtain cd where cd: "x = Inr cd" "sound_cd cd" using stored_sound [OF assms(1,3)] by blast
  have wf': "\<exists>cd. x' = Inr cd \<and> sound_cd cd" by (rule stored_sound [OF reachable_next [OF assms(1,2)] assms(4)])
  from reachable_step [OF assms(2,1)] assms(3-5) cd(1) obtain cd' where
    cd': "x' = Inr (json_ClusterData cd')" "initial_cd cd' \<or> sentinel_changes cd cd' \<or> command_changes cd cd'"
    unfolding lineage_def by auto
  have "proxyMaster cd' = Some '''' \<and> fmlookup (cd_DBs cd) (masterUID cd') \<noteq> None"
    if "phaseOf cd = Some ClusterPhaseNormal" "masterUID cd' \<noteq> masterUID cd" "\<not> initial_cd cd'"
    using cd'(2) sentinel_changes_master [OF _ cd(2) that(1), of cd'] command_changes_master [of cd cd'] that by auto
  with cd cd' wf' changes_wf [OF cd'(2) cd(2)] show ?thesis by auto
qed

end

section \<open>The system\<close>

text \<open>
  C7. In every state that sentinels, commands and members can reach from an empty store or from sound cluster data, in any
  interleaving, with any number of sentinels that believe to be leaders and with reads that are arbitrarily old when the writes are
  made, the cluster data in the store parses and is sound: the specification is valid, keepers and databases are keyed by their
  UIDs, every database has an existing keeper and no two share one, the master is an existing database with the role of a master,
  and the proxies are told this master or none. What a step writes is even well-formed, so that a check can process it, unless a
  command has made it from cluster data that is not, or is an update that drops the settings of standby clusters (which the
  validation of the specification accepts). (UIDs drawn at random are taken to be new.)
\<close>

theorem system_invariant:
  assumes "etcd_history c kvs later"
    and "etcd_reachable c kvs later path y"
    and "stored (etcd_val kvs) path (sy_store y) = Some x"
  shows "\<exists>cd. x = Inr cd \<and> sound_cd cd \<and>
    (\<forall>y' x'. etcd_step c kvs later path y y' \<and> stored (etcd_val kvs) path (sy_store y') = Some x' \<and> x' \<noteq> x \<longrightarrow>
       (\<exists>cd'. x' = Inr (json_ClusterData cd') \<and>
          (wf_cd (json_ClusterData cd') \<or> command_changes cd cd' \<and> (\<not> wf_cd cd \<or> dropsStandbyConfig cd cd'))))"
proof -
  note store = etcd_history.etcd_cluster_store [OF assms(1)]
  from cluster_store.stored_sound [OF store assms(2,3)] obtain cd where cd: "x = Inr cd" "sound_cd cd" by blast
  have "\<exists>cd'. x' = Inr (json_ClusterData cd') \<and>
      (wf_cd (json_ClusterData cd') \<or> command_changes cd cd' \<and> (\<not> wf_cd cd \<or> dropsStandbyConfig cd cd'))"
    if "etcd_step c kvs later path y y'" "stored (etcd_val kvs) path (sy_store y') = Some x'" "x' \<noteq> x" for y' x'
    using cluster_store.step_correct [OF store assms(2) that(1) assms(3) that(2,3)] cd(1) by blast
  with cd show ?thesis by blast
qed

text \<open>
  C6. No update is lost. Every step that changes the cluster data in the store makes the new one from the one that is in the
  store right then: by a check of a leader or by a command; or it is the initial cluster data
  of the first sentinel or of \<^verbatim>\<open>stolonctl init\<close>.
\<close>

theorem system_lineage:
  assumes "etcd_history c kvs later"
    and "etcd_reachable c kvs later path y"
    and "etcd_step c kvs later path y y'"
    and "stored (etcd_val kvs) path (sy_store y') \<noteq> stored (etcd_val kvs) path (sy_store y)"
  shows "\<exists>cd'. stored (etcd_val kvs) path (sy_store y') = Some (Inr (json_ClusterData cd')) \<and>
    (initial_cd cd' \<or>
     (\<exists>cd. stored (etcd_val kvs) path (sy_store y) = Some (Inr cd) \<and> (sentinel_changes cd cd' \<or> command_changes cd cd')))"
  using cluster_store.reachable_step [OF etcd_history.etcd_cluster_store [OF assms(1)] assms(3,2)] assms(4)
  by (simp add: lineage_def)

text \<open>
  C5. Fencing, system wide. When a step of the system changes the master of an initialized cluster, then in
  the same write the proxies are told that there is no master, and the new master is a database the cluster had;
  unless the cluster is initialized anew.
\<close>

theorem system_fencing:
  assumes "etcd_history c kvs later"
    and "etcd_reachable c kvs later path y"
    and "etcd_step c kvs later path y y'"
    and "stored (etcd_val kvs) path (sy_store y) = Some (Inr cd)" and "phaseOf cd = Some ClusterPhaseNormal"
    and "stored (etcd_val kvs) path (sy_store y') = Some (Inr cd')" and "masterUID cd' \<noteq> masterUID cd"
  shows "proxyMaster cd' = Some '''' \<and> fmlookup (cd_DBs cd) (masterUID cd') \<noteq> None \<or>
    (\<exists>cd0. initial_cd cd0 \<and> cd' = json_ClusterData cd0)"
  by (rule cluster_store.step_fencing [OF etcd_history.etcd_cluster_store [OF assms(1)] assms(2-7)])

section \<open>An execution\<close>

text \<open>
  The master of a running cluster has failed. A sentinel reads the cluster data, then it is told of the lost
  leadership, then its put reaches the store.
\<close>

abbreviation "log_step \<equiv> etcd_step log_etcd log_kvs log_later ''stolon''"

abbreviation "log_reachable \<equiv> etcd_reachable log_etcd log_kvs log_later ''stolon''"

definition run_key :: string where "run_key = Join [''stolon'', clusterDataFile]"

definition run_pair :: "ClusterData KVPair" where
  "run_pair = \<lparr>kv_Key = run_key, kv_Value = JSON example_cd, kv_LastIndex = 1\<rparr>"

definition run_input :: CheckInput where
  "run_input = \<lparr>ci_cd = Inr (Some (example_cd, run_pair)), ci_setSentinelInfo = Inr (),
     ci_keepersInfo = GetKeepersInfo (\<lambda>_ _. Inr (map (\<lambda>(u, ki). \<lparr>kv_Key = u, kv_Value = JSON ki, kv_LastIndex = 1\<rparr>) (entries example_infos)))
       ''stolon'' (),
     ci_proxiesInfo = Inr example_proxies\<rparr>"

definition run_result where
  "run_result = projr (clusterSentinelCheck example_env example_sentinel run_input)"

definition run_cd :: ClusterData where "run_cd = fst (the (snd run_result))"

definition y0 :: "(ClusterData etcd_log, kv_call) System" where
  "y0 = \<lparr>sy_store = [(run_key, JSON example_cd)], sy_sentinels = (\<lambda>_. example_sentinel), sy_pending = []\<rparr>"

definition y1 :: "(ClusterData etcd_log, kv_call) System" where
  "y1 = y0\<lparr>sy_sentinels := (sy_sentinels y0)(0 := fst run_result),
     sy_pending := [(Some (Some (example_cd, run_pair)), run_cd, CallAtomicPut run_cd (Some run_pair))]\<rparr>"

definition y2 :: "(ClusterData etcd_log, kv_call) System" where
  "y2 = y1\<lparr>sy_sentinels := (sy_sentinels y1)(0 := electionMessage False (sy_sentinels y1 0))\<rparr>"

definition y3 :: "(ClusterData etcd_log, kv_call) System" where
  "y3 = y2\<lparr>sy_store := (run_key, JSON (json_ClusterData run_cd)) # sy_store y2, sy_pending := [] @ [] @ []\<rparr>"

lemma y0_stored: "stored (etcd_val log_kvs) ''stolon'' (sy_store y0) = Some (Inr example_cd)"
  by (simp add: stored_def etcd_val_def log_kvs_def y0_def run_key_def)

lemma y0_reachable: "log_reachable y0"
proof -
  have "s_initialClusterSpec example_sentinel = None" by code_simp
  then have "system_init (stored (etcd_val log_kvs) ''stolon'') y0"
    using wf_sound [OF example_cd_wf] y0_stored by (simp add: system_init_def stored_ok_def sentinel_ok_def) (simp add: y0_def)
  then show ?thesis unfolding reachable_def by blast
qed

lemma run_check: "clusterSentinelCheck example_env example_sentinel run_input = Inr (fst run_result, Some (run_cd, Some run_pair))"
proof -
  have "is_ok (clusterSentinelCheck example_env example_sentinel run_input) \<and>
     snd (projr (clusterSentinelCheck example_env example_sentinel run_input)) \<noteq> None" by code_simp
  then obtain s' cd' prev where r: "clusterSentinelCheck example_env example_sentinel run_input = Inr (s', Some (cd', prev))"
    by (auto simp: is_ok_iff)
  have i: "ci_cd run_input = Inr (Some (example_cd, run_pair))" by (simp add: run_input_def)
  from check_leads [OF i r] obtain s0 kis pis where
    "leaderCheck example_env s0 example_cd run_pair (s_leadershipCount example_sentinel) kis pis = Inr (s', Some (cd', prev))"
    by blast
  then have "prev = Some run_pair" by (rule leaderCheck_put)
  then show ?thesis using r by (simp add: run_result_def run_cd_def)
qed

lemma run_steps: "log_step y0 y1" "log_step y1 y2" "log_step y2 y3"
proof -
  have g: "GetClusterData (etcdv3_Get log_etcd) ''stolon'' (sy_store y0) = Inr (Some (example_cd, run_pair))"
    by (simp add: GetClusterData_def etcdv3_Get_def fromEtcdKV_def log_etcd_def log_kvs_def y0_def run_pair_def run_key_def)
  have i: "ci_cd run_input = GetClusterData (etcdv3_Get log_etcd) ''stolon'' (sy_store y0)"
    by (simp add: g) (simp add: run_input_def)
  have k: "ci_keepersInfo run_input = GetKeepersInfo (\<lambda>_ _. Inr (map (\<lambda>(u, ki). \<lparr>kv_Key = u, kv_Value = JSON ki, kv_LastIndex = 1\<rparr>) (entries example_infos)))
       ''stolon'' ()" by (simp add: run_input_def)
  have f: "fresh_uids example_env cd" if "ci_cd run_input = Inr (Some (cd, pair))" for cd pair
    using that example_cd_fresh by (simp add: run_input_def)
  have c: "clusterSentinelCheck example_env (sy_sentinels y0 0) run_input = Inr (fst run_result, Some (run_cd, Some run_pair))"
    using run_check by (simp add: y0_def)
  from system_step.check [where read = "GetClusterData (etcdv3_Get log_etcd) ''stolon''" and startAtomicPut = CallAtomicPut, OF i k f c]
  show "log_step y0 y1"
    by (simp add: y1_def) (simp add: run_input_def y0_def)
  show "log_step y1 y2" unfolding y2_def by (rule system_step.election)
  have p: "sy_pending y2 = [] @ (Some (Some (example_cd, run_pair)), run_cd, CallAtomicPut run_cd (Some run_pair)) # []"
    by (simp add: y2_def y1_def)
  have "kv_advance (etcdv3_AtomicPut log_etcd) (etcdv3_Put log_etcd) ''stolon'' (CallAtomicPut run_cd (Some run_pair)) (sy_store y2) = (sy_store y3, None)"
    by (simp add: AtomicPutClusterData_def etcdv3_AtomicPut_def grantLease_def log_etcd_def log_kvs_def log_put_def Let_def
        y0_def y1_def y2_def y3_def run_pair_def run_key_def)
  from system_step.put [where advance = "kv_advance (etcdv3_AtomicPut log_etcd) (etcdv3_Put log_etcd) ''stolon''", OF p this] show "log_step y2 y3" by (simp add: y3_def)
qed

lemma y_reachable: "log_reachable y2"
  by (rule reachable_next [OF reachable_next [OF y0_reachable run_steps(1)] run_steps(2)])

lemma y_stored:
  "stored (etcd_val log_kvs) ''stolon'' (sy_store y2) = Some (Inr example_cd)"
  "stored (etcd_val log_kvs) ''stolon'' (sy_store y3) = Some (Inr (json_ClusterData run_cd))"
  by (simp_all add: stored_def etcd_val_def log_kvs_def y3_def y2_def y1_def y0_def run_key_def)

lemma run_masters: "masterUID run_cd = ''db2''" "masterUID example_cd = ''db1''" "phaseOf example_cd = Some ClusterPhaseNormal"
  by code_simp+

theorem system_invariant_witness:
  "sound_cd example_cd \<and> (\<exists>cd'. json_ClusterData run_cd = json_ClusterData cd' \<and>
     (wf_cd (json_ClusterData cd') \<or> command_changes example_cd cd' \<and> (\<not> wf_cd example_cd \<or> dropsStandbyConfig example_cd cd')))"
proof -
  have "json_ClusterData run_cd \<noteq> example_cd" using run_masters json_master [of run_cd] by auto
  then show ?thesis
    using system_invariant [OF ref_history.etcd_history_axioms y_reachable y_stored(1)] run_steps(3) y_stored(2) by blast
qed

theorem system_lineage_witness:
  "\<exists>cd'. json_ClusterData run_cd = json_ClusterData cd' \<and>
     (initial_cd cd' \<or> sentinel_changes example_cd cd' \<or> command_changes example_cd cd')"
proof -
  have "json_ClusterData run_cd \<noteq> example_cd" using run_masters json_master [of run_cd] by auto
  then show ?thesis
    using system_lineage [OF ref_history.etcd_history_axioms y_reachable run_steps(3)] y_stored by simp
qed

theorem system_fencing_witness: "proxyMaster (json_ClusterData run_cd) = Some ''''"
proof -
  have ne: "masterUID (json_ClusterData run_cd) \<noteq> masterUID example_cd" using run_masters json_master [of run_cd] by auto
  have "masterUID (json_ClusterData cd) = ''''" if "initial_cd cd" for cd
    using that unfolding json_master by (auto simp: initial_cd_def masterUID_def NewClusterData_def NewCluster_def)
  then have "json_ClusterData run_cd \<noteq> json_ClusterData cd" if "initial_cd cd" for cd
    using that run_masters(1) json_master [of run_cd] by force
  then show ?thesis
    using system_fencing [OF ref_history.etcd_history_axioms y_reachable run_steps(3) y_stored(1) run_masters(3) y_stored(2) ne]
    by blast
qed

end
