(* ===== verification/Libkv.thy ===== *)
theory Libkv
  imports System
begin

text \<open>
  The stores over the libkv library (\<^verbatim>\<open>internal/store/libkv.go\<close>), for etcd v2 and consul. The library is a
  parameter: a record of its calls, with what its interface documents as the locale \<open>libkv_client\<close>. The store
  implements \<^verbatim>\<open>KVStore\<close>, so that the properties of the whole system hold with it too.
\<close>

section \<open>The operations\<close>

datatype libkv_error = LibkvKeyNotFound | LibkvKeyModified | LibkvError string

record ('v, 'l) LibkvStore =
  lk_Put :: "string \<Rightarrow> 'v bytes \<Rightarrow> duration option \<Rightarrow> 'l \<Rightarrow> 'l \<times> (libkv_error + unit)"
  lk_Get :: "string \<Rightarrow> 'l \<Rightarrow> libkv_error + 'v KVPair"
  lk_List :: "string \<Rightarrow> 'l \<Rightarrow> libkv_error + 'v KVPair list"
  lk_AtomicPut :: "string \<Rightarrow> 'v bytes \<Rightarrow> 'v KVPair option \<Rightarrow> duration option \<Rightarrow> 'l \<Rightarrow> 'l \<times> (libkv_error + bool \<times> 'v KVPair)"
  lk_Delete :: "string \<Rightarrow> 'l \<Rightarrow> 'l \<times> (libkv_error + unit)"

definition fromLibKVStoreErr :: "libkv_error \<Rightarrow> store_error" where
  "fromLibKVStoreErr err =
     (case err of
        LibkvKeyNotFound \<Rightarrow> ErrKeyNotFound
      | LibkvKeyModified \<Rightarrow> ErrKeyModified
      | LibkvError e \<Rightarrow> StoreError e)"

definition libkv_Put :: "('v, 'l) LibkvStore \<Rightarrow> string \<Rightarrow> 'v bytes \<Rightarrow> duration option \<Rightarrow> 'l \<Rightarrow> 'l \<times> unit sres" where
  "libkv_Put s key value options l =
     (case lk_Put s key value options l of
        (l', Inl err) \<Rightarrow> (l', Inl (fromLibKVStoreErr err))
      | (l', Inr u) \<Rightarrow> (l', Inr u))"

definition libkv_Get :: "('v, 'l) LibkvStore \<Rightarrow> string \<Rightarrow> 'l \<Rightarrow> 'v KVPair sres" where
  "libkv_Get s key l =
     (case lk_Get s key l of
        Inl err \<Rightarrow> Inl (fromLibKVStoreErr err)
      | Inr pair \<Rightarrow> Inr \<lparr>kv_Key = kv_Key pair, kv_Value = kv_Value pair, kv_LastIndex = kv_LastIndex pair\<rparr>)"

definition libkv_List :: "('v, 'l) LibkvStore \<Rightarrow> string \<Rightarrow> 'l \<Rightarrow> 'v KVPair list sres" where
  "libkv_List s directory l =
     (case lk_List s directory l of
        Inl err \<Rightarrow> Inl (fromLibKVStoreErr err)
      | Inr pairs \<Rightarrow> Inr (map (\<lambda>p. \<lparr>kv_Key = kv_Key p, kv_Value = kv_Value p, kv_LastIndex = kv_LastIndex p\<rparr>) pairs))"

definition libkv_AtomicPut ::
  "('v, 'l) LibkvStore \<Rightarrow> string \<Rightarrow> 'v bytes \<Rightarrow> 'v KVPair option \<Rightarrow> duration option \<Rightarrow> 'l \<Rightarrow> 'l \<times> 'v KVPair sres" where
  "libkv_AtomicPut s key value previous options l =
     (let libkvPrevious = map_option (\<lambda>p. \<lparr>kv_Key = kv_Key p, kv_Value = Bytes '''', kv_LastIndex = kv_LastIndex p\<rparr>) previous
      in case lk_AtomicPut s key value libkvPrevious options l of
           (l', Inl err) \<Rightarrow> (l', Inl (fromLibKVStoreErr err))
         | (l', Inr (_, pair)) \<Rightarrow> (l', Inr \<lparr>kv_Key = kv_Key pair, kv_Value = kv_Value pair, kv_LastIndex = kv_LastIndex pair\<rparr>))"

definition libkv_Delete :: "('v, 'l) LibkvStore \<Rightarrow> string \<Rightarrow> 'l \<Rightarrow> 'l \<times> unit sres" where
  "libkv_Delete s key l =
     (case lk_Delete s key l of
        (l', Inl err) \<Rightarrow> (l', Inl (fromLibKVStoreErr err))
      | (l', Inr u) \<Rightarrow> (l', Inr u))"

text \<open>The leader: the value of the key of the election, or nothing.\<close>

definition libkv_Leader :: "(string, 'l) LibkvStore \<Rightarrow> string \<Rightarrow> 'l \<Rightarrow> string bytes sres" where
  "libkv_Leader s path l =
     (case libkv_Get s path l of
        Inl err \<Rightarrow> if err \<noteq> ErrKeyNotFound then Inl err else Inr (Bytes '''')
      | Inr pair \<Rightarrow> Inr (kv_Value pair))"

section \<open>The laws of the library\<close>

text \<open>
  An atomic put compares the index of the previous pair, or asks that the key does not exist (and fails with another error than
  \<^verbatim>\<open>ErrKeyModified\<close> if it does). An index identifies one value of the key.
\<close>

locale libkv_client =
  fixes s :: "(ClusterData, 'l) LibkvStore"
    and look :: "'l \<Rightarrow> string \<Rightarrow> (ClusterData bytes \<times> uint64) option"
    and later :: "'l \<Rightarrow> 'l \<Rightarrow> bool"
  assumes Get: "lk_Get s k l = Inr p \<Longrightarrow> look l k = Some (kv_Value p, kv_LastIndex p)"
    and Get_missing: "lk_Get s k l = Inl LibkvKeyNotFound \<Longrightarrow> look l k = None"
    and AtomicPut: "lk_AtomicPut s k v prev None l = (l', Inr (ok, p)) \<Longrightarrow>
      map_option snd (look l k) = map_option kv_LastIndex prev \<and> look l' k = Some (v, kv_LastIndex p)"
    and AtomicPut_modified: "lk_AtomicPut s k v prev None l = (l', Inl LibkvKeyModified) \<Longrightarrow>
      map_option snd (look l k) \<noteq> map_option kv_LastIndex prev \<and> look l' k = look l k"
    and AtomicPut_error: "lk_AtomicPut s k v prev None l = (l', Inl err) \<Longrightarrow> look l' k = look l k \<or>
      map_option snd (look l k) = map_option kv_LastIndex prev \<and> map_option fst (look l' k) = Some v"
    and Put: "lk_Put s k v None l = (l', r) \<Longrightarrow> look l' k = look l k \<or> map_option fst (look l' k) = Some v"
    and indices: "look l k = Some (v, i) \<Longrightarrow> i \<noteq> 0"
    and libkv_index_unique: "later l l' \<Longrightarrow> look l k = Some (v, i) \<Longrightarrow> look l' k = Some (v', i) \<Longrightarrow> v' = v"
    and refl: "later l l"
    and trans: "later l l' \<Longrightarrow> later l' l'' \<Longrightarrow> later l l''"
    and AtomicPut_later: "lk_AtomicPut s k v prev None l = (l', ra) \<Longrightarrow> later l l'"
    and Put_later: "lk_Put s k v None l = (l', r) \<Longrightarrow> later l l'"

lemma fromLibKVStoreErr_iff [simp]:
  "fromLibKVStoreErr e = ErrKeyNotFound \<longleftrightarrow> e = LibkvKeyNotFound" "fromLibKVStoreErr e = ErrKeyModified \<longleftrightarrow> e = LibkvKeyModified"
  "ErrKeyModified = fromLibKVStoreErr e \<longleftrightarrow> e = LibkvKeyModified"
  by (cases e; simp add: fromLibKVStoreErr_def)+

sublocale libkv_client \<subseteq> kv_history "libkv_Get s" "libkv_AtomicPut s" look later "libkv_Put s"
proof (unfold_locales, goal_cases)
  case (1 k st p)
  then show ?case by (auto simp: libkv_Get_def dest!: Get split: sum.splits)
next
  case (2 k st)
  then show ?case by (auto simp: libkv_Get_def dest: Get_missing split: sum.splits)
next
  case (3 st k v i)
  then show ?case by (rule indices)
next
  case (4 prev k v st st' p)
  then show ?case by (auto simp: libkv_AtomicPut_def Let_def option.map_comp comp_def dest!: AtomicPut split: prod.splits sum.splits)
next
  case (5 prev k v st st')
  then show ?case by (auto simp: libkv_AtomicPut_def Let_def option.map_comp comp_def dest!: AtomicPut_modified split: prod.splits sum.splits)
next
  case (6 prev k v st st' err)
  then show ?case by (auto simp: libkv_AtomicPut_def Let_def option.map_comp comp_def dest!: AtomicPut_error split: prod.splits sum.splits)
next
  case (7 st st' k v i v')
  then show ?case by (rule libkv_index_unique)
next
  case (10 k v prev st st' r)
  then show ?case by (auto simp: libkv_AtomicPut_def Let_def dest: AtomicPut_later split: prod.splits sum.splits)
next
  case (11 k v st st' r')
  then show ?case by (auto simp: libkv_Put_def dest: Put_later split: prod.splits sum.splits)
next
  case (12 k v st st' r')
  then show ?case by (auto simp: libkv_Put_def dest: Put split: prod.splits sum.splits)
qed (auto intro: refl trans)

context libkv_client
begin

lemma libkv_cluster_store:
  "cluster_store (GetClusterData (libkv_Get s) path) CallAtomicPut CallPut (kv_advance (libkv_AtomicPut s) (libkv_Put s) path)
     (stored look path) later (kv_under_way (libkv_Get s) later path)"
  by (rule is_cluster_store)

end

section \<open>A reference library\<close>

text \<open>The library over the reference etcd.\<close>

fun libkv_of_etcd :: "etcd_error \<Rightarrow> libkv_error" where
  "libkv_of_etcd RpcKeyNotFound = LibkvKeyNotFound"
| "libkv_of_etcd ElectionNoLeader = LibkvError ''election: no leader''"
| "libkv_of_etcd (EtcdError e) = LibkvError e"

definition log_libkv :: "(ClusterData, ClusterData etcd_log) LibkvStore" where
  "log_libkv =
     \<lparr>lk_Put = (\<lambda>k v ttl l. case log_put k v l of (l', Inl e) \<Rightarrow> (l', Inl (libkv_of_etcd e)) | (l', Inr _) \<Rightarrow> (l', Inr ())),
      lk_Get = (\<lambda>k l. case etcd_val log_kvs l k of None \<Rightarrow> Inl LibkvKeyNotFound
        | Some (v, i) \<Rightarrow> Inr \<lparr>kv_Key = k, kv_Value = v, kv_LastIndex = i\<rparr>),
      lk_List = (\<lambda>p l. Inr (List.map_filter (\<lambda>k. map_option (\<lambda>(v, i). \<lparr>kv_Key = k, kv_Value = v, kv_LastIndex = i\<rparr>) (etcd_val log_kvs l k))
        (filter (\<lambda>k. take (length p) k = p) (remdups (map fst l))))),
      lk_AtomicPut = (\<lambda>k v prev ttl l.
        if map_option snd (etcd_val log_kvs l k) = map_option kv_LastIndex prev then
          (case log_put k v l of
             (l', Inl e) \<Rightarrow> (l', Inl (libkv_of_etcd e))
           | (l', Inr n) \<Rightarrow> (l', Inr (True, \<lparr>kv_Key = k, kv_Value = v, kv_LastIndex = n\<rparr>)))
        else (l, Inl (if prev = None then LibkvError ''key exists'' else LibkvKeyModified))),
      lk_Delete = (\<lambda>k l. (l, Inl (LibkvError ''not supported'')))\<rparr>"

lemma etcd_val_put: "log_put k v l = (l', Inr n) \<Longrightarrow> etcd_val log_kvs l' k = Some (v, n)"
  by (auto simp: log_put_def etcd_val_def log_kvs_def split: if_splits)

lemma log_put_error: "log_put k v l = (l', Inl e) \<Longrightarrow> l' = l"
  by (auto simp: log_put_def split: if_splits)

lemma log_put_later: "log_put k v l = (l', r) \<Longrightarrow> log_later l l'"
  by (auto simp: log_put_def log_later_def split: if_splits)

interpretation ref_libkv: libkv_client log_libkv "etcd_val log_kvs" log_later
proof (unfold_locales, goal_cases)
  case (3 k v prev l l' ok p)
  then show ?case by (auto simp: log_libkv_def dest: etcd_val_put split: if_splits prod.splits sum.splits)
next
  case (4 k v prev l l')
  then show ?case
    by (auto simp: log_libkv_def split: if_splits prod.splits sum.splits) (auto simp: log_put_def split: if_splits)
next
  case (5 k v prev l l' err)
  then show ?case by (auto simp: log_libkv_def dest: log_put_error split: if_splits prod.splits sum.splits)
next
  case (6 k v l l' r)
  then show ?case by (auto simp: log_libkv_def dest: etcd_val_put log_put_error split: prod.splits sum.splits)
next
  case (7 l k v i)
  then show ?case by (auto simp: etcd_val_def dest: ref_etcd.revisions)
next
  case (8 l l' k v i v')
  then show ?case by (auto simp: etcd_val_def dest: ref_etcd.revision_unique)
next
  case (11 k v prev l l' ra)
  then show ?case using ref_history.refl by (auto simp: log_libkv_def dest: log_put_later split: if_splits prod.splits sum.splits)
next
  case (12 k v l l' r)
  then show ?case by (auto simp: log_libkv_def dest: log_put_later split: prod.splits sum.splits)
qed (auto simp: log_libkv_def log_later_def split: option.splits)

section \<open>The system with libkv\<close>

text \<open>
  The whole system over a libkv store: a step that changes the cluster data in the store makes the new one from the one that is in
  the store right then, keeps it sound, and well-formed unless a command drops the settings of standby clusters, and fences the
  proxies when it changes the master.
\<close>

theorem libkv_system_correct:
  assumes "libkv_client s look later"
    and "reachable (GetClusterData (libkv_Get s) path) CallAtomicPut CallPut (kv_advance (libkv_AtomicPut s) (libkv_Put s) path)
      (stored look path) later y"
    and "system_step (GetClusterData (libkv_Get s) path) CallAtomicPut CallPut (kv_advance (libkv_AtomicPut s) (libkv_Put s) path)
      (stored look path) later y y'"
    and "stored look path (sy_store y) = Some x" and "stored look path (sy_store y') = Some x'" and "x' \<noteq> x"
  shows "\<exists>cd cd'. x = Inr cd \<and> x' = Inr (json_ClusterData cd') \<and> sound_cd cd \<and> sound_cd (json_ClusterData cd') \<and>
    (wf_cd (json_ClusterData cd') \<or> command_changes cd cd' \<and> (\<not> wf_cd cd \<or> dropsStandbyConfig cd cd')) \<and>
    (initial_cd cd' \<or> sentinel_changes cd cd' \<or> command_changes cd cd') \<and>
    (phaseOf cd = Some ClusterPhaseNormal \<and> masterUID cd' \<noteq> masterUID cd \<and> \<not> initial_cd cd' \<longrightarrow>
       proxyMaster cd' = Some '''' \<and> fmlookup (cd_DBs cd) (masterUID cd') \<noteq> None)"
  by (rule cluster_store.step_correct [OF libkv_client.libkv_cluster_store [OF assms(1)] assms(2-6)])

end
