(* ===== verification/Kube_Store.thy ===== *)
theory Kube_Store
  imports Store
begin

text \<open>
  The store over kubernetes resources (\<^verbatim>\<open>internal/store/k8s.go\<close>): the cluster data is an annotation of a
  config map, the information of a member an annotation of its pod. The client of the kubernetes API is a parameter: a record of its
  calls, with the laws of the documented API as the locale \<open>kube_client\<close>. The loop of the vendored
  \<^verbatim>\<open>client-go/util/retry\<close> is modelled.

  An operation reads an object, changes it, and sends it back; the API refuses an object whose resource version is not the current
  one, and the operation starts again. \<open>others n k\<close> is the state of the API server when the request of an attempt
  reaches it, with \<open>n\<close> attempts left, so that whatever other clients do between reading and writing is covered.
\<close>

section \<open>Objects and calls of the API\<close>

definition KubeResourcePrefix :: string where "KubeResourcePrefix = ''stolon-cluster''"
definition KubeClusterLabel :: string where "KubeClusterLabel = ''stolon-cluster''"
definition KubeClusterDataAnnotation :: string where "KubeClusterDataAnnotation = ''stolon-clusterdata''"
definition KubeStatusAnnnotation :: string where "KubeStatusAnnnotation = ''stolon-status''"
definition DefaultComponentLabel :: string where "DefaultComponentLabel = ''component''"

type_synonym ComponentLabelValue = string

definition KeeperLabelValue :: ComponentLabelValue where "KeeperLabelValue = ''stolon-keeper''"
definition SentinelLabelValue :: ComponentLabelValue where "SentinelLabelValue = ''stolon-sentinel''"
definition ProxyLabelValue :: ComponentLabelValue where "ProxyLabelValue = ''stolon-proxy''"

text \<open>A config map or a pod: the part of its metadata that the store uses. Annotations may be nil.\<close>

record 'v KubeObject =
  ko_Name :: string
  ko_ResourceVersion :: string
  ko_Labels :: "(string, string) fmap"
  ko_Annotations :: "(string, 'v bytes) fmap option"

text \<open>The errors of the API by their reason, with the message.\<close>

datatype api_error = ApiNotFound string | ApiConflict string | ApiOther string

record ('v, 'k) KubeClient =
  kc_Get :: "string \<Rightarrow> 'k \<Rightarrow> api_error + 'v KubeObject"
  kc_List :: "(string, string) fmap \<Rightarrow> 'k \<Rightarrow> api_error + 'v KubeObject list"
  kc_Update :: "'v KubeObject \<Rightarrow> 'k \<Rightarrow> 'k \<times> (api_error + 'v KubeObject)"
  kc_Create :: "'v KubeObject \<Rightarrow> 'k \<Rightarrow> 'k \<times> (api_error + 'v KubeObject)"

text \<open>Inside an operation an error is one of the API or one of the store.\<close>

datatype kube_error = KubeApi api_error | KubeStoreError store_error

primrec api_text :: "api_error \<Rightarrow> string" where
  "api_text (ApiNotFound e) = e"
| "api_text (ApiConflict e) = e"
| "api_text (ApiOther e) = e"

primrec store_text :: "store_error \<Rightarrow> string" where
  "store_text ErrKeyNotFound = ''Key not found in store''"
| "store_text ErrKeyModified = ''Unable to complete atomic operation, key modified''"
| "store_text ErrElectionNoLeader = ''election: no leader''"
| "store_text (StoreError e) = e"

primrec kube_text :: "kube_error \<Rightarrow> string" where
  "kube_text (KubeApi e) = api_text e"
| "kube_text (KubeStoreError e) = store_text e"

section \<open>Retrying\<close>

text \<open>
  \<^verbatim>\<open>retry.RetryOnConflict\<close> with \<^verbatim>\<open>wait.ExponentialBackoff\<close>: the function is run
  again after a conflict, as long as there are steps left; then the last conflict is the error.
\<close>

definition DefaultRetrySteps :: nat where "DefaultRetrySteps = 5"

fun RetryOnConflict ::
  "(nat \<Rightarrow> 'k \<Rightarrow> 'k \<times> (kube_error + unit)) \<Rightarrow> nat \<Rightarrow> kube_error option \<Rightarrow> 'k \<Rightarrow> 'k \<times> (kube_error + unit)" where
  "RetryOnConflict fn 0 lastConflictErr k = (k, case lastConflictErr of None \<Rightarrow> Inr () | Some e \<Rightarrow> Inl e)"
| "RetryOnConflict fn (Suc n) lastConflictErr k =
     (case fn n k of
        (k', Inr u) \<Rightarrow> (k', Inr u)
      | (k', Inl (KubeApi (ApiConflict e))) \<Rightarrow> RetryOnConflict fn n (Some (KubeApi (ApiConflict e))) k'
      | (k', Inl e) \<Rightarrow> (k', Inl e))"

lemma RetryOnConflict_stop:
  assumes "fn n k = (k', r)" "\<forall>e. r \<noteq> Inl (KubeApi (ApiConflict e))"
  shows "RetryOnConflict fn (Suc n) e k = (k', r)"
proof (cases r)
  case (Inl err)
  then show ?thesis using assms by (cases err) (auto split: api_error.split)
qed (use assms in auto)

text \<open>One attempt: prepare the request from what is read, and send it.\<close>

datatype 'v kube_request = UpdateRequest "'v KubeObject" | CreateRequest "'v KubeObject"

primrec sendRequest :: "('v, 'k) KubeClient \<Rightarrow> 'v kube_request \<Rightarrow> 'k \<Rightarrow> 'k \<times> (api_error + 'v KubeObject)" where
  "sendRequest kc (UpdateRequest ob) = kc_Update kc ob"
| "sendRequest kc (CreateRequest ob) = kc_Create kc ob"

definition sendResult :: "api_error + 'v KubeObject \<Rightarrow> kube_error + unit" where
  "sendResult r = (case r of Inl e \<Rightarrow> Inl (KubeApi e) | Inr _ \<Rightarrow> Inr ())"

definition kubeAttempt ::
  "('v, 'k) KubeClient \<Rightarrow> (nat \<Rightarrow> 'k \<Rightarrow> 'k) \<Rightarrow> ('k \<Rightarrow> kube_error + 'v kube_request) \<Rightarrow> nat \<Rightarrow> 'k \<Rightarrow> 'k \<times> (kube_error + unit)" where
  "kubeAttempt kc others prepare n k =
     (case prepare k of
        Inl e \<Rightarrow> (k, Inl e)
      | Inr req \<Rightarrow> (case sendRequest kc req (others n k) of (k', r) \<Rightarrow> (k', sendResult r)))"

definition kubeRetry where
  "kubeRetry kc others prepare k =
     (case RetryOnConflict (kubeAttempt kc others prepare) DefaultRetrySteps None k of
        (k', Inl retryErr) \<Rightarrow> (k', Inl (StoreError (''update failed: '' @ kube_text retryErr)))
      | (k', Inr u) \<Rightarrow> (k', Inr u))"

section \<open>Cluster data\<close>

record KubeStore =
  ks_podName :: string
  ks_clusterName :: string
  ks_resourceName :: string

definition NewKubeStore :: "string \<Rightarrow> string \<Rightarrow> KubeStore" where
  "NewKubeStore podName clusterName =
     \<lparr>ks_podName = podName, ks_clusterName = clusterName, ks_resourceName = KubeResourcePrefix @ ''-'' @ clusterName\<rparr>"

definition labelSelector :: "KubeStore \<Rightarrow> ComponentLabelValue \<Rightarrow> (string, string) fmap" where
  "labelSelector s componentLabel =
     fmap_of_list [(DefaultComponentLabel, componentLabel), (KubeClusterLabel, ks_clusterName s)]"

definition setAnnotation :: "string \<Rightarrow> 'v bytes \<Rightarrow> 'v KubeObject \<Rightarrow> 'v KubeObject" where
  "setAnnotation key v ob =
     ob\<lparr>ko_Annotations := Some (fmupd key v (case ko_Annotations ob of None \<Rightarrow> fmempty | Some a \<Rightarrow> a))\<rparr>"

definition newConfigMap :: "KubeStore \<Rightarrow> 'v bytes \<Rightarrow> 'v KubeObject" where
  "newConfigMap s cdj =
     \<lparr>ko_Name = ks_resourceName s, ko_ResourceVersion = '''', ko_Labels = fmempty,
      ko_Annotations = Some (fmap_of_list [(KubeClusterDataAnnotation, cdj)])\<rparr>"

definition failedGet :: "string \<Rightarrow> api_error \<Rightarrow> kube_error" where
  "failedGet what err = KubeStoreError (StoreError (''failed to get latest version of '' @ what @ '': '' @ api_text err))"

text \<open>The comparison with what was read before.\<close>

definition previousDiffers :: "'v KVPair option \<Rightarrow> 'v KubeObject \<Rightarrow> bool" where
  "previousDiffers previous result =
     (case previous of
        None \<Rightarrow>
          (case ko_Annotations result of
             None \<Rightarrow> False
           | Some a \<Rightarrow> fmlookup a KubeClusterDataAnnotation \<noteq> None)
      | Some p \<Rightarrow>
          (case ko_Annotations result of
             None \<Rightarrow> True
           | Some a \<Rightarrow>
               (case fmlookup a KubeClusterDataAnnotation of
                  Some curcd \<Rightarrow> kv_Value p \<noteq> curcd
                | None \<Rightarrow> True)))"

definition prepareAtomicPut ::
  "('v, 'k) KubeClient \<Rightarrow> KubeStore \<Rightarrow> 'v bytes \<Rightarrow> 'v KVPair option \<Rightarrow> 'k \<Rightarrow> kube_error + 'v kube_request" where
  "prepareAtomicPut kc s cdj previous k =
     (case kc_Get kc (ks_resourceName s) k of
        Inl (ApiNotFound _) \<Rightarrow>
          if previous \<noteq> None then Inl (KubeStoreError ErrKeyModified) else Inr (CreateRequest (newConfigMap s cdj))
      | Inl err \<Rightarrow> Inl (failedGet ''configmap'' err)
      | Inr result \<Rightarrow>
          if previousDiffers previous result then Inl (KubeStoreError ErrKeyModified)
          else Inr (UpdateRequest (setAnnotation KubeClusterDataAnnotation cdj result)))"

definition preparePut :: "('v, 'k) KubeClient \<Rightarrow> KubeStore \<Rightarrow> 'v bytes \<Rightarrow> 'k \<Rightarrow> kube_error + 'v kube_request" where
  "preparePut kc s cdj k =
     (case kc_Get kc (ks_resourceName s) k of
        Inl (ApiNotFound _) \<Rightarrow> Inr (CreateRequest (newConfigMap s cdj))
      | Inl err \<Rightarrow> Inl (failedGet ''configmap'' err)
      | Inr result \<Rightarrow> Inr (UpdateRequest (setAnnotation KubeClusterDataAnnotation cdj result)))"

definition kube_AtomicPutClusterData ::
  "(ClusterData, 'k) KubeClient \<Rightarrow> (nat \<Rightarrow> 'k \<Rightarrow> 'k) \<Rightarrow> KubeStore \<Rightarrow> ClusterData \<Rightarrow> ClusterData KVPair option \<Rightarrow> 'k
     \<Rightarrow> 'k \<times> ClusterData KVPair sres" where
  "kube_AtomicPutClusterData kc others s cd previous k =
     (let cdj = JSON (json_ClusterData cd)
      in case kubeRetry kc others (prepareAtomicPut kc s cdj previous) k of
           (k', Inl e) \<Rightarrow> (k', Inl e)
         | (k', Inr _) \<Rightarrow> (k', Inr \<lparr>kv_Key = '''', kv_Value = cdj, kv_LastIndex = 0\<rparr>))"

definition kube_PutClusterData ::
  "(ClusterData, 'k) KubeClient \<Rightarrow> (nat \<Rightarrow> 'k \<Rightarrow> 'k) \<Rightarrow> KubeStore \<Rightarrow> ClusterData \<Rightarrow> 'k \<Rightarrow> 'k \<times> unit sres" where
  "kube_PutClusterData kc others s cd k = kubeRetry kc others (preparePut kc s (JSON (json_ClusterData cd))) k"

definition kube_GetClusterData ::
  "(ClusterData, 'k) KubeClient \<Rightarrow> KubeStore \<Rightarrow> 'k \<Rightarrow> (ClusterData \<times> ClusterData KVPair) option sres" where
  "kube_GetClusterData kc s k =
     (case kc_Get kc (ks_resourceName s) k of
        Inl (ApiNotFound _) \<Rightarrow> Inr None
      | Inl err \<Rightarrow> Inl (StoreError (''failed to get latest version of configmap: '' @ api_text err))
      | Inr result \<Rightarrow>
          (case fmlookup (case ko_Annotations result of None \<Rightarrow> fmempty | Some a \<Rightarrow> a) KubeClusterDataAnnotation of
             None \<Rightarrow> Inr None
           | Some cdj \<Rightarrow>
               (case Unmarshal cdj of
                  Inl e \<Rightarrow> Inl e
                | Inr cd \<Rightarrow> Inr (Some (cd, \<lparr>kv_Key = '''', kv_Value = cdj, kv_LastIndex = 0\<rparr>)))))"

section \<open>Member information\<close>

definition prepareStatus :: "('v, 'k) KubeClient \<Rightarrow> KubeStore \<Rightarrow> 'v bytes \<Rightarrow> 'k \<Rightarrow> kube_error + 'v kube_request" where
  "prepareStatus kc s msj k =
     (case kc_Get kc (ks_podName s) k of
        Inl err \<Rightarrow> Inl (failedGet ''pod'' err)
      | Inr result \<Rightarrow> Inr (UpdateRequest (setAnnotation KubeStatusAnnnotation msj result)))"

definition kube_SetKeeperInfo where
  "kube_SetKeeperInfo kc others s (uid :: string) (ms :: KeeperInfo) (ttl :: duration) k =
     kubeRetry kc others (prepareStatus kc s (JSON ms)) k"

definition kube_SetSentinelInfo where
  "kube_SetSentinelInfo kc others s (si :: SentinelInfo) (ttl :: duration) k =
     kubeRetry kc others (prepareStatus kc s (JSON si)) k"

definition kube_SetProxyInfo where
  "kube_SetProxyInfo kc others s (pi :: ProxyInfo) (ttl :: duration) k =
     kubeRetry kc others (prepareStatus kc s (JSON pi)) k"

definition podStatus :: "'i KubeObject \<Rightarrow> 'i bytes option" where
  "podStatus pod = fmlookup (case ko_Annotations pod of None \<Rightarrow> fmempty | Some a \<Rightarrow> a) KubeStatusAnnnotation"

text \<open>The loop over the pods. A pod without a status is left out, except for sentinels, where it gives an empty information.\<close>

fun podInfos :: "'i list \<Rightarrow> 'i KubeObject list \<Rightarrow> 'i list sres" where
  "podInfos missing [] = Inr []"
| "podInfos missing (pod # pods) =
     (case podStatus pod of
        None \<Rightarrow> (case podInfos missing pods of Inl e \<Rightarrow> Inl e | Inr is \<Rightarrow> Inr (missing @ is))
      | Some ij \<Rightarrow>
          (case Unmarshal ij of
             Inl e \<Rightarrow> Inl e
           | Inr i \<Rightarrow> (case podInfos missing pods of Inl e \<Rightarrow> Inl e | Inr is \<Rightarrow> Inr (i # is))))"

definition listPods :: "('i, 'k) KubeClient \<Rightarrow> KubeStore \<Rightarrow> ComponentLabelValue \<Rightarrow> 'i list \<Rightarrow> 'k \<Rightarrow> 'i list sres" where
  "listPods kc s component missing k =
     (case kc_List kc (labelSelector s component) k of
        Inl err \<Rightarrow> Inl (StoreError (''failed to get latest version of pod: '' @ api_text err))
      | Inr pods \<Rightarrow> podInfos missing pods)"

definition kube_GetKeepersInfo :: "(KeeperInfo, 'k) KubeClient \<Rightarrow> KubeStore \<Rightarrow> 'k \<Rightarrow> KeepersInfo sres" where
  "kube_GetKeepersInfo kc s k =
     (case listPods kc s KeeperLabelValue [] k of
        Inl e \<Rightarrow> Inl e
      | Inr is \<Rightarrow> Inr (fold (\<lambda>ki m. fmupd (ki_UID ki) ki m) is fmempty))"

definition kube_GetSentinelsInfo :: "(SentinelInfo, 'k) KubeClient \<Rightarrow> KubeStore \<Rightarrow> 'k \<Rightarrow> SentinelInfo list sres" where
  "kube_GetSentinelsInfo kc s k = listPods kc s SentinelLabelValue [\<lparr>si_UID = ''''\<rparr>] k"

definition kube_GetProxiesInfo :: "(ProxyInfo, 'k) KubeClient \<Rightarrow> KubeStore \<Rightarrow> 'k \<Rightarrow> ProxiesInfo sres" where
  "kube_GetProxiesInfo kc s k =
     (case listPods kc s ProxyLabelValue [] k of
        Inl e \<Rightarrow> Inl e
      | Inr is \<Rightarrow> Inr (fold (\<lambda>pi m. fmupd (pi_UID pi) pi m) is fmempty))"

section \<open>The laws of the API\<close>

text \<open>
  \<open>objs k n\<close> is the object with a name; \<open>later k k'\<close> says that \<open>k'\<close> is a later state of the
  same server. An update is done exactly if the object still has the resource version that is sent, and gives it a new one; a
  resource version identifies one state of the object. A request that fails with another error than a conflict (a timeout) may have
  been done.
\<close>

definition written :: "('k \<Rightarrow> string \<Rightarrow> 'v KubeObject option) \<Rightarrow> 'v KubeObject \<Rightarrow> 'k \<Rightarrow> 'k \<Rightarrow> bool" where
  "written objs ob k k' \<longleftrightarrow> (\<exists>v. objs k' = (objs k)(ko_Name ob \<mapsto> ob\<lparr>ko_ResourceVersion := v\<rparr>))"

definition updatable :: "('k \<Rightarrow> string \<Rightarrow> 'v KubeObject option) \<Rightarrow> 'v KubeObject \<Rightarrow> 'k \<Rightarrow> bool" where
  "updatable objs ob k \<longleftrightarrow> (\<exists>cur. objs k (ko_Name ob) = Some cur \<and> ko_ResourceVersion cur = ko_ResourceVersion ob)"

locale kube_client =
  fixes kc :: "('v, 'k) KubeClient"
    and objs :: "'k \<Rightarrow> string \<Rightarrow> 'v KubeObject option"
    and later :: "'k \<Rightarrow> 'k \<Rightarrow> bool"
  assumes Get: "kc_Get kc n k = Inr ob \<Longrightarrow> objs k n = Some ob"
    and Get_missing: "kc_Get kc n k = Inl (ApiNotFound e) \<Longrightarrow> objs k n = None"
    and List: "kc_List kc sel k = Inr obs \<Longrightarrow>
      set obs = {ob. objs k (ko_Name ob) = Some ob \<and> (\<forall>l v. fmlookup sel l = Some v \<longrightarrow> fmlookup (ko_Labels ob) l = Some v)}"
    and named: "objs k n = Some ob \<Longrightarrow> ko_Name ob = n"
    and Update: "kc_Update kc ob k = (k', Inr ob') \<Longrightarrow> updatable objs ob k \<and> written objs ob k k'"
    and Update_conflict: "kc_Update kc ob k = (k', Inl (ApiConflict e)) \<Longrightarrow> objs k' = objs k"
    and Update_error: "kc_Update kc ob k = (k', Inl err) \<Longrightarrow> objs k' = objs k \<or> updatable objs ob k \<and> written objs ob k k'"
    and Create: "kc_Create kc ob k = (k', Inr ob') \<Longrightarrow> objs k (ko_Name ob) = None \<and> written objs ob k k'"
    and Create_conflict: "kc_Create kc ob k = (k', Inl (ApiConflict e)) \<Longrightarrow> objs k' = objs k"
    and Create_error: "kc_Create kc ob k = (k', Inl err) \<Longrightarrow> objs k' = objs k \<or> objs k (ko_Name ob) = None \<and> written objs ob k k'"
    and version_unique: "later k k' \<Longrightarrow> objs k n = Some ob \<Longrightarrow> objs k' n = Some ob' \<Longrightarrow>
      ko_ResourceVersion ob' = ko_ResourceVersion ob \<Longrightarrow> ob' = ob"
    and later_refl: "later k k"
    and later_trans: "later k k' \<Longrightarrow> later k' k'' \<Longrightarrow> later k k''"
    and Update_later: "kc_Update kc ob k = (k', r) \<Longrightarrow> later k k'"
    and Create_later: "kc_Create kc ob k = (k', r) \<Longrightarrow> later k k'"

text \<open>
  What a request does when it reaches the server: nothing, or it replaces the object from which it was prepared, which is still
  there.
\<close>

definition request_object :: "'v kube_request \<Rightarrow> 'v KubeObject" where
  "request_object req = (case req of UpdateRequest ob \<Rightarrow> ob | CreateRequest ob \<Rightarrow> ob)"

definition applies :: "('k \<Rightarrow> string \<Rightarrow> 'v KubeObject option) \<Rightarrow> 'v kube_request \<Rightarrow> 'k \<Rightarrow> 'k \<Rightarrow> bool" where
  "applies objs req k k' \<longleftrightarrow> written objs (request_object req) k k' \<and>
     (case req of UpdateRequest ob \<Rightarrow> updatable objs ob k | CreateRequest ob \<Rightarrow> objs k (ko_Name ob) = None)"

context kube_client
begin

lemma send_later: "sendRequest kc req k = (k', r) \<Longrightarrow> later k k'"
  by (cases req) (auto dest: Update_later Create_later)

lemma send_ok: "sendRequest kc req k = (k', Inr ob) \<Longrightarrow> applies objs req k k'"
  by (cases req) (auto simp: applies_def request_object_def dest: Update Create)

lemma send_conflict: "sendRequest kc req k = (k', Inl (ApiConflict e)) \<Longrightarrow> objs k' = objs k"
  by (cases req) (auto dest: Update_conflict Create_conflict)

lemma send_error: "sendRequest kc req k = (k', Inl e) \<Longrightarrow> objs k' = objs k \<or> applies objs req k k'"
  by (cases req) (auto simp: applies_def request_object_def dest: Update_error Create_error)

end

text \<open>
  The effect of an operation that retries. \<open>P\<close> is what a prepared request satisfies as long as it is under way.
\<close>

definition untouched :: "('k \<Rightarrow> string \<Rightarrow> 'v KubeObject option) \<Rightarrow> ('k \<Rightarrow> 'k \<Rightarrow> bool) \<Rightarrow> 'k \<Rightarrow> 'k \<Rightarrow> bool" where
  "untouched objs later k k' \<longleftrightarrow> (\<exists>k1. later k k1 \<and> objs k' = objs k1)"

definition done_at where
  "done_at objs later P k k' \<longleftrightarrow> (\<exists>k1 req. later k k1 \<and> P req k1 \<and> applies objs req k1 k')"

context kube_client
begin

lemma untouchedI: "later k k1 \<Longrightarrow> objs k' = objs k1 \<Longrightarrow> untouched objs later k k'"
  unfolding untouched_def by (rule exI [of _ k1]) simp

lemma done_atI: "later k k1 \<Longrightarrow> P req k1 \<Longrightarrow> applies objs req k1 k' \<Longrightarrow> done_at objs later P k k'"
  unfolding done_at_def by (intro exI [of _ k1] exI [of _ req]) simp

lemma attempt:
  assumes "kubeAttempt kc others prepare n k = (k', r)" and "\<forall>n k. later k (others n k)"
    and "\<forall>req k k1. prepare k = Inr req \<longrightarrow> later k k1 \<longrightarrow> P req k1"
  shows "later k k'" and "r = Inr () \<Longrightarrow> done_at objs later P k k'"
    and "untouched objs later k k' \<or> r \<noteq> Inr () \<and> (\<forall>e. r \<noteq> Inl (KubeApi (ApiConflict e))) \<and> done_at objs later P k k' \<or> r = Inr ()"
proof -
  have "later k k' \<and> (r = Inr () \<longrightarrow> done_at objs later P k k') \<and>
     (untouched objs later k k' \<or> r \<noteq> Inr () \<and> (\<forall>e. r \<noteq> Inl (KubeApi (ApiConflict e))) \<and> done_at objs later P k k' \<or> r = Inr ())"
  proof (cases "prepare k")
    case (Inl e)
    then show ?thesis using assms(1) untouchedI [OF later_refl] by (auto simp: kubeAttempt_def intro: later_refl)
  next
    case (Inr req)
    obtain r' where s: "sendRequest kc req (others n k) = (k', r')" "r = sendResult r'"
      using assms(1) Inr by (auto simp: kubeAttempt_def split: prod.splits)
    have l: "later k (others n k)" using assms(2) by blast
    have p: "P req (others n k)" using assms(3) Inr l by blast
    have "later k k'" using later_trans [OF l send_later [OF s(1)]] .
    moreover have "r = Inr () \<longrightarrow> done_at objs later P k k'"
      using s done_atI [where P = P, OF l p] send_ok [of req "others n k" k'] by (cases r') (auto simp: sendResult_def)
    moreover have "untouched objs later k k' \<or> r \<noteq> Inr () \<and> (\<forall>e. r \<noteq> Inl (KubeApi (ApiConflict e))) \<and> done_at objs later P k k'"
      if "r' = Inl e" for e
    proof (cases "objs k' = objs (others n k)")
      case True
      then show ?thesis using untouchedI [OF l] by blast
    next
      case False
      with that s(1) send_error have "applies objs req (others n k) k'" by blast
      moreover have "\<forall>e. r' \<noteq> Inl (ApiConflict e)" using False s(1) send_conflict by auto
      ultimately show ?thesis using done_atI [where P = P, OF l p] s(2) that by (auto simp: sendResult_def)
    qed
    ultimately show ?thesis using s(2) by (cases r') (auto simp: sendResult_def)
  qed
  then show "later k k'" "r = Inr () \<Longrightarrow> done_at objs later P k k'"
    "untouched objs later k k' \<or> r \<noteq> Inr () \<and> (\<forall>e. r \<noteq> Inl (KubeApi (ApiConflict e))) \<and> done_at objs later P k k' \<or> r = Inr ()"
    by blast+
qed

lemma shift:
  assumes "later k k1"
  shows "untouched objs later k1 k' \<Longrightarrow> untouched objs later k k'" and "done_at objs later P k1 k' \<Longrightarrow> done_at objs later P k k'"
  using later_trans [OF assms] unfolding untouched_def done_at_def by blast+

lemma retry:
  assumes "RetryOnConflict (kubeAttempt kc others prepare) n e k = (k', r)" and "n > 0 \<or> e \<noteq> None"
    and "\<forall>n k. later k (others n k)" and "\<forall>req k k1. prepare k = Inr req \<longrightarrow> later k k1 \<longrightarrow> P req k1"
  shows "case r of Inr _ \<Rightarrow> done_at objs later P k k' | Inl _ \<Rightarrow> untouched objs later k k' \<or> done_at objs later P k k'"
  using assms(1,2)
proof (induction n arbitrary: e k)
  case 0
  then show ?case using untouchedI [OF later_refl] by auto
next
  case (Suc n)
  obtain k1 r1 where a: "kubeAttempt kc others prepare n k = (k1, r1)" by fastforce
  note at = attempt [OF a assms(3,4)]
  show ?case
  proof (cases "\<exists>e. r1 = Inl (KubeApi (ApiConflict e))")
    case True
    then obtain c where c: "r1 = Inl (KubeApi (ApiConflict c))" by blast
    with Suc.prems(1) a have "RetryOnConflict (kubeAttempt kc others prepare) n (Some (KubeApi (ApiConflict c))) k1 = (k', r)" by simp
    from Suc.IH [OF this] have ih: "case r of Inr _ \<Rightarrow> done_at objs later P k1 k' | Inl _ \<Rightarrow> untouched objs later k1 k' \<or> done_at objs later P k1 k'"
      by simp
    show ?thesis
    proof (cases r)
      case (Inl err)
      with ih have "untouched objs later k1 k' \<or> done_at objs later P k1 k'" by simp
      then have "untouched objs later k k' \<or> done_at objs later P k k'" using shift [OF at(1)] by blast
      with Inl show ?thesis by simp
    next
      case (Inr u)
      with ih have "done_at objs later P k1 k'" by simp
      from shift(2) [OF at(1) this] Inr show ?thesis by simp
    qed
  next
    case False
    with Suc.prems(1) RetryOnConflict_stop [of "kubeAttempt kc others prepare" n k k1 r1 e] a have "k' = k1" "r = r1" by auto
    with at(2,3) show ?thesis by (cases r1) auto
  qed
qed

lemma kubeRetry_effect:
  assumes "kubeRetry kc others prepare k = (k', r)"
    and "\<forall>n k. later k (others n k)" and "\<forall>req k k1. prepare k = Inr req \<longrightarrow> later k k1 \<longrightarrow> P req k1"
  shows "case r of Inr _ \<Rightarrow> done_at objs later P k k' | Inl e \<Rightarrow> e \<noteq> ErrKeyModified \<and> (untouched objs later k k' \<or> done_at objs later P k k')"
proof -
  obtain k1 r1 where r1: "RetryOnConflict (kubeAttempt kc others prepare) DefaultRetrySteps None k = (k1, r1)" by fastforce
  have r: "k' = k1" "r = (case r1 of Inl e \<Rightarrow> Inl (StoreError (''update failed: '' @ kube_text e)) | Inr u \<Rightarrow> Inr u)"
    using assms(1) unfolding kubeRetry_def r1 by (cases r1; simp)+
  have "case r1 of Inr _ \<Rightarrow> done_at objs later P k k1 | Inl _ \<Rightarrow> untouched objs later k k1 \<or> done_at objs later P k k1"
    by (rule retry [OF r1 _ assms(2,3)]) (simp add: DefaultRetrySteps_def)
  with r show ?thesis by (cases r1) simp_all
qed

end

section \<open>Compare and swap\<close>

definition annotationOf :: "string \<Rightarrow> 'v KubeObject \<Rightarrow> 'v bytes option" where
  "annotationOf key ob = fmlookup (case ko_Annotations ob of None \<Rightarrow> fmempty | Some a \<Rightarrow> a) key"

lemma annotationOf_set: "annotationOf key' (setAnnotation key v ob) = (if key' = key then Some v else annotationOf key' ob)"
  by (simp add: annotationOf_def setAnnotation_def)

lemma setAnnotation_meta [simp]:
  "ko_Name (setAnnotation key v ob) = ko_Name ob" "ko_ResourceVersion (setAnnotation key v ob) = ko_ResourceVersion ob"
  "ko_Labels (setAnnotation key v ob) = ko_Labels ob"
  by (simp_all add: setAnnotation_def)

lemma annotationOf_version [simp]: "annotationOf key (ob\<lparr>ko_ResourceVersion := v\<rparr>) = annotationOf key ob"
  by (simp add: annotationOf_def)

lemma previousDiffers_iff: "previousDiffers previous ob \<longleftrightarrow> annotationOf KubeClusterDataAnnotation ob \<noteq> map_option kv_Value previous"
  by (cases previous; cases "ko_Annotations ob")
    (auto simp: previousDiffers_def annotationOf_def split: option.splits)

text \<open>The cluster data in the store.\<close>

definition kube_cd :: "('k \<Rightarrow> string \<Rightarrow> 'v KubeObject option) \<Rightarrow> KubeStore \<Rightarrow> 'k \<Rightarrow> 'v bytes option" where
  "kube_cd objs s k = Option.bind (objs k (ks_resourceName s)) (annotationOf KubeClusterDataAnnotation)"

text \<open>The state after the cluster data was replaced, and nothing else: no other object and no other annotation.\<close>

definition replaced :: "('k \<Rightarrow> string \<Rightarrow> 'v KubeObject option) \<Rightarrow> KubeStore \<Rightarrow> 'v bytes \<Rightarrow> 'k \<Rightarrow> 'k \<Rightarrow> bool" where
  "replaced objs s cdj k k' \<longleftrightarrow>
     (\<exists>v. objs k' = (objs k)(ks_resourceName s \<mapsto>
        (case objs k (ks_resourceName s) of
           Some cur \<Rightarrow> setAnnotation KubeClusterDataAnnotation cdj cur
         | None \<Rightarrow> newConfigMap s cdj)\<lparr>ko_ResourceVersion := v\<rparr>))"

lemma kube_cd_replaced: "replaced objs s cdj k k' \<Longrightarrow> kube_cd objs s k' = Some cdj"
  by (auto simp: replaced_def kube_cd_def annotationOf_set newConfigMap_def split: option.splits) (simp add: annotationOf_def)+

text \<open>What a prepared request to write cluster data keeps satisfying, until it reaches the server.\<close>

definition cd_request where
  "cd_request objs s cdj ok req k \<longleftrightarrow>
     (case req of
        CreateRequest ob \<Rightarrow> ok None \<and> ob = newConfigMap s cdj
      | UpdateRequest ob \<Rightarrow> ko_Name ob = ks_resourceName s \<and>
          (\<forall>cur. objs k (ks_resourceName s) = Some cur \<and> ko_ResourceVersion cur = ko_ResourceVersion ob \<longrightarrow>
             ob = setAnnotation KubeClusterDataAnnotation cdj cur \<and> ok (annotationOf KubeClusterDataAnnotation cur)))"

lemma cd_request_applied:
  assumes "cd_request objs s cdj ok req k" "applies objs req k k'"
  shows "ok (kube_cd objs s k) \<and> replaced objs s cdj k k'"
proof (cases req)
  case (UpdateRequest ob)
  then obtain cur v where u: "objs k (ks_resourceName s) = Some cur" "ko_ResourceVersion cur = ko_ResourceVersion ob"
      "objs k' = (objs k)(ks_resourceName s \<mapsto> ob\<lparr>ko_ResourceVersion := v\<rparr>)"
    using assms by (auto simp: applies_def updatable_def written_def cd_request_def request_object_def)
  with assms(1) UpdateRequest show ?thesis by (auto simp: cd_request_def kube_cd_def replaced_def)
next
  case (CreateRequest ob)
  then show ?thesis using assms
    by (auto simp: applies_def written_def cd_request_def request_object_def kube_cd_def replaced_def newConfigMap_def)
qed

context kube_client
begin

lemma cd_request_later: "cd_request objs s cdj ok req k \<Longrightarrow>
    (\<And>ob. req = UpdateRequest ob \<Longrightarrow> updatable objs ob k) \<Longrightarrow> later k k1 \<Longrightarrow> cd_request objs s cdj ok req k1"
  by (cases req) (auto simp: cd_request_def updatable_def dest!: version_unique)

lemma prepared:
  assumes "prepareAtomicPut kc s cdj prev k = Inr req" "later k k1"
  shows "cd_request objs s cdj (\<lambda>cur. cur = map_option kv_Value prev) req k1"
proof -
  have "cd_request objs s cdj (\<lambda>cur. cur = map_option kv_Value prev) req k \<and> (\<forall>ob. req = UpdateRequest ob \<longrightarrow> updatable objs ob k)"
    using assms(1) unfolding prepareAtomicPut_def
    by (auto simp: cd_request_def updatable_def previousDiffers_iff named dest: Get Get_missing
        split: sum.splits api_error.splits if_splits)
  then show ?thesis using cd_request_later assms(2) by blast
qed

lemma put_prepared:
  assumes "preparePut kc s cdj k = Inr req" "later k k1"
  shows "cd_request objs s cdj (\<lambda>_. True) req k1"
proof -
  have "cd_request objs s cdj (\<lambda>_. True) req k \<and> (\<forall>ob. req = UpdateRequest ob \<longrightarrow> updatable objs ob k)"
    using assms(1) unfolding preparePut_def
    by (auto simp: cd_request_def updatable_def named dest: Get Get_missing split: sum.splits api_error.splits)
  then show ?thesis using cd_request_later assms(2) by blast
qed

text \<open>Where an operation takes effect.\<close>

lemma done_cd:
  assumes "done_at objs later (cd_request objs s cdj ok) k k'"
  shows "\<exists>k1. later k k1 \<and> ok (kube_cd objs s k1) \<and> replaced objs s cdj k1 k'"
proof -
  from assms obtain k1 req where k1: "later k k1" "cd_request objs s cdj ok req k1" "applies objs req k1 k'"
    unfolding done_at_def by (elim exE conjE)
  from cd_request_applied [OF k1(2,3)] k1(1) show ?thesis by (intro exI [of _ k1]) simp
qed

end

text \<open>The client for config maps with cluster data.\<close>

locale kube_cluster = kube_client kc objs later
  for kc :: "(ClusterData, 'k) KubeClient" and objs later
begin

lemma cas:
  assumes "\<forall>n k. later k (others n k)" "kube_AtomicPutClusterData kc others s cd prev k = (k', res)"
  shows "case res of
      Inr pair \<Rightarrow> kv_Value pair = JSON (json_ClusterData cd) \<and>
        (\<exists>k1. later k k1 \<and> kube_cd objs s k1 = map_option kv_Value prev \<and> replaced objs s (JSON (json_ClusterData cd)) k1 k')
    | Inl e \<Rightarrow> e \<noteq> ErrKeyModified \<and>
        (untouched objs later k k' \<or>
         (\<exists>k1. later k k1 \<and> kube_cd objs s k1 = map_option kv_Value prev \<and> replaced objs s (JSON (json_ClusterData cd)) k1 k'))"
proof -
  let ?P = "cd_request objs s (JSON (json_ClusterData cd)) (\<lambda>cur. cur = map_option kv_Value prev)"
  obtain r where r: "kubeRetry kc others (prepareAtomicPut kc s (JSON (json_ClusterData cd)) prev) k = (k', r)"
    "res = (case r of Inl e \<Rightarrow> Inl e | Inr _ \<Rightarrow> Inr \<lparr>kv_Key = '''', kv_Value = JSON (json_ClusterData cd), kv_LastIndex = 0\<rparr>)"
    using assms(2) by (auto simp: kube_AtomicPutClusterData_def Let_def split: prod.splits sum.splits)
  have p: "\<forall>req k k1. prepareAtomicPut kc s (JSON (json_ClusterData cd)) prev k = Inr req \<longrightarrow> later k k1 \<longrightarrow> ?P req k1"
    using prepared by blast
  from kubeRetry_effect [OF r(1) assms(1) p] r(2) done_cd [of s "JSON (json_ClusterData cd)" "\<lambda>cur. cur = map_option kv_Value prev" k k']
  show ?thesis by (cases r) auto
qed

lemma read_cd:
  assumes "kube_GetClusterData kc s k = Inr r"
  shows "kube_cd objs s k = map_option (\<lambda>(cd, pair). kv_Value pair) r"
    and "r = Some (cd, pair) \<Longrightarrow> Unmarshal (kv_Value pair) = Inr cd"
  using assms
  by (auto simp: kube_GetClusterData_def kube_cd_def annotationOf_def dest!: Get Get_missing
      split: sum.splits api_error.splits option.splits)

end

section \<open>Member information is read back\<close>

lemma podStatus_annotation: "podStatus ob = annotationOf KubeStatusAnnnotation ob"
  by (simp add: podStatus_def annotationOf_def)

lemma podInfos_set:
  assumes "podInfos [] pods = Inr is"
  shows "set is = {i. \<exists>pod\<in>set pods. podStatus pod = Some (JSON i)}"
  using assms
proof (induction pods arbitrary: "is")
  case (Cons pod pods)
  show ?case
  proof (cases "podStatus pod")
    case None
    with Cons.prems have "podInfos [] pods = Inr is" by (auto split: sum.splits)
    from Cons.IH [OF this] None show ?thesis by auto
  next
    case (Some b)
    with Cons.prems obtain i is' where i: "b = JSON i" "podInfos [] pods = Inr is'" "is = i # is'"
      by (cases b) (auto split: sum.splits)
    from Cons.IH [OF i(2)] Some i(1,3) show ?thesis by auto
  qed
qed simp

lemma fold_by_uid:
  assumes "x \<in> set xs" "\<forall>y\<in>set xs. key y = key x \<longrightarrow> y = x"
  shows "fmlookup (fold (\<lambda>y m. fmupd (key y) y m) xs m) (key x) = Some x"
proof -
  have keep: "fmlookup m (key x) = Some x \<Longrightarrow> \<forall>y\<in>set xs. key y = key x \<longrightarrow> y = x \<Longrightarrow>
      fmlookup (fold (\<lambda>y m. fmupd (key y) y m) xs m) (key x) = Some x" for xs m
    by (induction xs arbitrary: m) auto
  show ?thesis using assms
  proof (induction xs arbitrary: m)
    case (Cons y xs)
    show ?case
    proof (cases "x \<in> set xs")
      case True
      with Cons show ?thesis by simp
    next
      case False
      with Cons.prems have "y = x" by simp
      with Cons.prems keep [of "fmupd (key x) x m" xs] show ?thesis by simp
    qed
  qed simp
qed

definition status_request where
  "status_request objs s msj req k \<longleftrightarrow>
     (\<exists>ob. req = UpdateRequest ob \<and> ko_Name ob = ks_podName s \<and>
       (\<forall>cur. objs k (ks_podName s) = Some cur \<and> ko_ResourceVersion cur = ko_ResourceVersion ob \<longrightarrow>
          ob = setAnnotation KubeStatusAnnnotation msj cur))"

context kube_client
begin

lemma status_prepared:
  assumes "prepareStatus kc s msj k = Inr req" "later k k1"
  shows "status_request objs s msj req k1"
  using assms by (auto simp: prepareStatus_def status_request_def named dest!: Get dest: version_unique split: sum.splits)

lemma status_set:
  assumes "\<forall>n k. later k (others n k)" "kubeRetry kc others (prepareStatus kc s msj) k = (k', Inr ())"
  shows "\<exists>ob. objs k' (ks_podName s) = Some ob \<and> podStatus ob = Some msj"
proof -
  have "\<forall>req k k1. prepareStatus kc s msj k = Inr req \<longrightarrow> later k k1 \<longrightarrow> status_request objs s msj req k1"
    using status_prepared by blast
  from kubeRetry_effect [OF assms(2,1) this] obtain k1 req where
    "status_request objs s msj req k1" "applies objs req k1 k'" by (auto simp: done_at_def)
  then show ?thesis
    by (auto simp: status_request_def applies_def updatable_def written_def request_object_def podStatus_annotation annotationOf_set)
qed

end

definition labelled :: "KubeStore \<Rightarrow> ComponentLabelValue \<Rightarrow> 'v KubeObject \<Rightarrow> bool" where
  "labelled s component ob \<longleftrightarrow> fmlookup (ko_Labels ob) DefaultComponentLabel = Some component \<and>
     fmlookup (ko_Labels ob) KubeClusterLabel = Some (ks_clusterName s)"

lemma selector_labelled:
  "(\<forall>l v. fmlookup (labelSelector s component) l = Some v \<longrightarrow> fmlookup (ko_Labels ob) l = Some v) \<longleftrightarrow> labelled s component ob"
proof -
  have "fmlookup (labelSelector s component) l =
      (if l = DefaultComponentLabel then Some component else if l = KubeClusterLabel then Some (ks_clusterName s) else None)" for l
    by (simp add: labelSelector_def)
  moreover have "DefaultComponentLabel \<noteq> KubeClusterLabel" by (simp add: DefaultComponentLabel_def KubeClusterLabel_def)
  ultimately show ?thesis unfolding labelled_def by (metis option.distinct(1) option.inject)
qed

section \<open>A reference API server\<close>

text \<open>The log of the written objects, the newest first; the resource version of an object is its position in the log.\<close>

type_synonym 'v kube_log = "'v KubeObject list"

definition logVersion :: "nat \<Rightarrow> string" where
  "logVersion n = replicate n (CHR ''i'')"

fun log_obj :: "'v kube_log \<Rightarrow> string \<Rightarrow> 'v KubeObject option" where
  "log_obj [] n = None"
| "log_obj (ob # l) n =
     (if ko_Name ob = n then Some (ob\<lparr>ko_ResourceVersion := logVersion (Suc (length l))\<rparr>) else log_obj l n)"

definition log_write :: "'v KubeObject \<Rightarrow> 'v kube_log \<Rightarrow> 'v kube_log \<times> (api_error + 'v KubeObject)" where
  "log_write ob l = (ob # l, Inr (ob\<lparr>ko_ResourceVersion := logVersion (Suc (length l))\<rparr>))"

definition log_kube :: "('v, 'v kube_log) KubeClient" where
  "log_kube =
     \<lparr>kc_Get = (\<lambda>n l. case log_obj l n of None \<Rightarrow> Inl (ApiNotFound ''not found'') | Some ob \<Rightarrow> Inr ob),
      kc_List = (\<lambda>sel l. Inr (filter (\<lambda>ob. fmpred (\<lambda>k v. fmlookup (ko_Labels ob) k = Some v) sel)
        (List.map_filter (log_obj l) (remdups (map ko_Name l))))),
      kc_Update = (\<lambda>ob l. case log_obj l (ko_Name ob) of
          None \<Rightarrow> (l, Inl (ApiNotFound ''not found''))
        | Some cur \<Rightarrow> if ko_ResourceVersion cur = ko_ResourceVersion ob then log_write ob l else (l, Inl (ApiConflict ''the object has been modified''))),
      kc_Create = (\<lambda>ob l. case log_obj l (ko_Name ob) of None \<Rightarrow> log_write ob l | Some _ \<Rightarrow> (l, Inl (ApiOther ''already exists'')))\<rparr>"

definition log_after :: "'v kube_log \<Rightarrow> 'v kube_log \<Rightarrow> bool" where
  "log_after l l' \<longleftrightarrow> (\<exists>new. l' = new @ l)"

lemma logVersion_inj [simp]: "logVersion m = logVersion n \<longleftrightarrow> m = n"
  by (metis logVersion_def length_replicate)

lemma log_obj_version: "log_obj l n = Some ob \<Longrightarrow> \<exists>m. ko_ResourceVersion ob = logVersion m \<and> m \<le> length l"
  by (induction l n rule: log_obj.induct) (force split: if_splits)+

lemma log_obj_old:
  "log_obj (new @ l) n = Some ob \<Longrightarrow> ko_ResourceVersion ob = logVersion m \<Longrightarrow> m \<le> length l \<Longrightarrow> log_obj l n = Some ob"
  by (induction new) (auto split: if_splits)

lemma log_obj_name: "log_obj l n = Some ob \<Longrightarrow> ko_Name ob = n"
  by (induction l n rule: log_obj.induct) (auto split: if_splits)

lemma log_obj_listed: "log_obj l n = Some ob \<Longrightarrow> n \<in> ko_Name ` set l"
  by (induction l n rule: log_obj.induct) (auto split: if_splits)

lemma log_objects: "set (List.map_filter (log_obj l) (remdups (map ko_Name l))) = {ob. log_obj l (ko_Name ob) = Some ob}"
proof -
  have "ob \<in> set (List.map_filter (log_obj l) (remdups (map ko_Name l))) \<longleftrightarrow> (\<exists>n. log_obj l n = Some ob)" for ob
    using log_obj_listed [of l _ ob] by (force simp: List.map_filter_def)
  then show ?thesis by (auto dest: log_obj_name)
qed

lemma log_written: "written log_obj ob l (ob # l)"
  unfolding written_def by (intro exI [of _ "logVersion (Suc (length l))"] ext) simp

interpretation ref_kube: kube_client "log_kube :: ('v, 'v kube_log) KubeClient" log_obj log_after
proof (unfold_locales, goal_cases)
  case (3 sel k obs)
  then have "obs = filter (\<lambda>ob. fmpred (\<lambda>k v. fmlookup (ko_Labels ob) k = Some v) sel)
      (List.map_filter (log_obj k) (remdups (map ko_Name k)))" by (simp add: log_kube_def)
  then show ?case by (auto simp: log_objects fmpred_iff)
next
  case (11 k k' n ob ob')
  from 11(1) obtain new where "k' = new @ k" by (auto simp: log_after_def)
  with 11 log_obj_version [OF 11(2)] log_obj_old [of new k n ob'] show ?case by auto
next
  case (13 k k' k'')
  then show ?case by (auto simp: log_after_def)
qed (auto simp: log_kube_def log_write_def log_written updatable_def log_after_def dest: log_obj_name
      split: option.splits if_splits)

interpretation ref_kube_cluster: kube_cluster "log_kube :: (ClusterData, ClusterData kube_log) KubeClient" log_obj log_after
  by unfold_locales

section \<open>What the kubernetes store promises\<close>

text \<open>
  C19. Compare and swap with kubernetes. Whatever other clients do between its calls, a put of cluster data that succeeds has
  replaced exactly the value it was given as the previous one, or has created the cluster data when there was none, and at
  that moment changed no other object and no other annotation (the config map also holds the leader election). A put that
  fails has changed nothing, unless the API failed with an error that leaves it open, when it may have replaced that value;
  it never fails with \<^verbatim>\<open>ErrKeyModified\<close>, so that the commands of \<^verbatim>\<open>stolonctl\<close> do not retry.
\<close>

theorem kube_cas_correct:
  assumes "kube_cluster kc objs later" and "\<forall>n k. later k (others n k)"
    and "kube_AtomicPutClusterData kc others s cd prev k = (k', res)"
  shows "case res of
      Inr pair \<Rightarrow> kv_Value pair = JSON (json_ClusterData cd) \<and>
        (\<exists>k1. later k k1 \<and> kube_cd objs s k1 = map_option kv_Value prev \<and> replaced objs s (JSON (json_ClusterData cd)) k1 k')
    | Inl e \<Rightarrow> e \<noteq> ErrKeyModified \<and>
        ((\<exists>k1. later k k1 \<and> objs k' = objs k1) \<or>
         (\<exists>k1. later k k1 \<and> kube_cd objs s k1 = map_option kv_Value prev \<and> replaced objs s (JSON (json_ClusterData cd)) k1 k'))"
  using kube_cluster.cas [OF assms] unfolding untouched_def .

text \<open>
  Member information with kubernetes. The information that a keeper has stored in its pod is what is read for its uid, when
  the pod carries the labels of keepers and no other pod has information with that uid.
\<close>

theorem kube_info_roundtrip:
  assumes "kube_client kc objs later" and "\<forall>n k. later k (others n k)"
    and "kube_SetKeeperInfo kc others s uid ki ttl k = (k', Inr ())" and "kube_GetKeepersInfo kc s k' = Inr kis"
    and "\<forall>ob. objs k' (ks_podName s) = Some ob \<longrightarrow> labelled s KeeperLabelValue ob"
    and "\<forall>n ob i. objs k' n = Some ob \<and> podStatus ob = Some (JSON i) \<and> ki_UID i = ki_UID ki \<longrightarrow> n = ks_podName s"
  shows "fmlookup kis (ki_UID ki) = Some ki"
proof -
  obtain is' where is': "listPods kc s KeeperLabelValue [] k' = Inr is'"
    "kis = fold (\<lambda>ki m. fmupd (ki_UID ki) ki m) is' fmempty"
    using assms(4) by (auto simp: kube_GetKeepersInfo_def split: sum.splits)
  then obtain pods where pods: "kc_List kc (labelSelector s KeeperLabelValue) k' = Inr pods" "podInfos [] pods = Inr is'"
    by (auto simp: listPods_def split: sum.splits)
  have listed: "set pods = {ob. objs k' (ko_Name ob) = Some ob \<and> labelled s KeeperLabelValue ob}"
    using kube_client.List [OF assms(1) pods(1)] unfolding selector_labelled .
  obtain ob where ob: "objs k' (ks_podName s) = Some ob" "podStatus ob = Some (JSON ki)"
    using kube_client.status_set [OF assms(1,2)] assms(3) unfolding kube_SetKeeperInfo_def by blast
  have name: "ko_Name ob = ks_podName s" by (rule kube_client.named [OF assms(1) ob(1)])
  have "ob \<in> set pods" using ob(1) name assms(5) by (simp add: listed)
  with ob(2) have "ki \<in> set is'" by (auto simp: podInfos_set [OF pods(2)])
  moreover have "y = ki" if y: "y \<in> set is'" "ki_UID y = ki_UID ki" for y
  proof -
    from y(1) obtain pod where pod: "pod \<in> set pods" "podStatus pod = Some (JSON y)" by (auto simp: podInfos_set [OF pods(2)])
    then have p: "objs k' (ko_Name pod) = Some pod" by (simp add: listed)
    with pod(2) y(2) assms(6) have "ko_Name pod = ks_podName s" by blast
    with p ob pod(2) show ?thesis by simp
  qed
  ultimately show ?thesis unfolding is'(2) by (intro fold_by_uid) auto
qed

section \<open>Examples\<close>

definition example_kube :: KubeStore where "example_kube = NewKubeStore ''pod1'' ''c''"

text \<open>The leader election writes to the config map between the read and the write of the first attempt, which is repeated.\<close>

definition lock_write :: "nat \<Rightarrow> ClusterData kube_log \<Rightarrow> ClusterData kube_log" where
  "lock_write n l =
     (case log_obj l (ks_resourceName example_kube) of
        Some ob \<Rightarrow> if n = 4 then setAnnotation ''control-plane.alpha.kubernetes.io/leader'' (Bytes ''pod1'') ob # l else l
      | None \<Rightarrow> l)"

definition kube_l0 :: "ClusterData kube_log" where
  "kube_l0 = [newConfigMap example_kube (JSON new_cd)]"

definition kube_l1 :: "ClusterData kube_log" where
  "kube_l1 = lock_write 4 kube_l0"

lemma lock_write_later: "log_after l (lock_write n l)"
  by (auto simp: lock_write_def log_after_def split: option.split)

definition kube_pair :: "ClusterData KVPair" where
  "kube_pair = \<lparr>kv_Key = '''', kv_Value = JSON new_cd, kv_LastIndex = 0\<rparr>"

lemma example_kube_put:
  "\<exists>l p. kube_AtomicPutClusterData log_kube lock_write example_kube new_cd (Some kube_pair) kube_l0 = (l, Inr p)"
  by (simp add: kube_AtomicPutClusterData_def kubeRetry_def DefaultRetrySteps_def eval_nat_numeral kubeAttempt_def prepareAtomicPut_def
      previousDiffers_iff annotationOf_def setAnnotation_def log_kube_def log_write_def lock_write_def kube_l0_def newConfigMap_def
      kube_pair_def sendResult_def KubeClusterDataAnnotation_def Let_def)

theorem kube_cas_correct_witness:
  "\<exists>l k1. log_after kube_l0 k1 \<and> kube_cd log_obj example_kube k1 = Some (JSON new_cd) \<and>
     replaced log_obj example_kube (JSON (json_ClusterData new_cd)) k1 l"
proof -
  obtain l p where put: "kube_AtomicPutClusterData log_kube lock_write example_kube new_cd (Some kube_pair) kube_l0 = (l, Inr p)"
    using example_kube_put by blast
  have "\<forall>n k. log_after k (lock_write n k)" using lock_write_later by blast
  from kube_cas_correct [OF ref_kube_cluster.kube_cluster_axioms this put] show ?thesis by (auto simp: kube_pair_def)
qed

definition example_pod :: "KeeperInfo KubeObject" where
  "example_pod = \<lparr>ko_Name = ''pod1'', ko_ResourceVersion = '''', ko_Labels = labelSelector example_kube KeeperLabelValue, ko_Annotations = None\<rparr>"

definition example_ki :: KeeperInfo where
  "example_ki = \<lparr>ki_InfoUID = ''i'', ki_UID = ''keeper1'', ki_ClusterUID = ''c'', ki_BootUUID = ''b'',
     ki_PostgresBinaryVersion = \<lparr>pv_Maj = 10, pv_Min = 1\<rparr>, ki_PostgresState = None\<rparr>"

definition example_pods :: "KeeperInfo kube_log" where
  "example_pods = [setAnnotation KubeStatusAnnnotation (JSON example_ki) example_pod\<lparr>ko_ResourceVersion := logVersion 1\<rparr>, example_pod]"

lemma example_pod_written:
  "kube_SetKeeperInfo log_kube (\<lambda>_ k. k) example_kube ''keeper1'' example_ki 0 [example_pod] = (example_pods, Inr ())"
  by (simp add: kube_SetKeeperInfo_def kubeRetry_def DefaultRetrySteps_def eval_nat_numeral kubeAttempt_def prepareStatus_def
      setAnnotation_def log_kube_def log_write_def example_pod_def example_kube_def NewKubeStore_def sendResult_def example_pods_def)

lemma example_pods_obj:
  "log_obj example_pods n = (if n = ''pod1'' then
      Some (setAnnotation KubeStatusAnnnotation (JSON example_ki) example_pod\<lparr>ko_ResourceVersion := logVersion 2\<rparr>) else None)"
  "remdups (map ko_Name example_pods) = [''pod1'']"
  by (simp_all add: example_pods_def example_pod_def setAnnotation_def eval_nat_numeral)

theorem kube_info_roundtrip_witness:
  "\<exists>kis. kube_GetKeepersInfo log_kube example_kube example_pods = Inr kis \<and> fmlookup kis ''keeper1'' = Some example_ki"
proof -
  have status: "podStatus (setAnnotation KubeStatusAnnnotation (JSON example_ki) example_pod\<lparr>ko_ResourceVersion := v\<rparr>) = Some (JSON example_ki)" for v
    by (simp add: podStatus_annotation annotationOf_set)
  have labels: "labelled example_kube KeeperLabelValue (setAnnotation KubeStatusAnnnotation (JSON example_ki) example_pod\<lparr>ko_ResourceVersion := v\<rparr>)" for v
    unfolding selector_labelled [symmetric] by (simp add: example_pod_def setAnnotation_def)
  have pod: "ks_podName example_kube = ''pod1''" by (simp add: example_kube_def NewKubeStore_def)
  have sel: "fmpred (\<lambda>k v. fmlookup (ko_Labels example_pod) k = Some v) (labelSelector example_kube KeeperLabelValue)"
    by (simp add: fmpred_iff example_pod_def)
  obtain kis where "kube_GetKeepersInfo log_kube example_kube example_pods = Inr kis"
    by (simp add: kube_GetKeepersInfo_def listPods_def log_kube_def example_pods_obj status sel List.map_filter_def)
  note get = this
  have uid: "ki_UID example_ki = ''keeper1''" by (simp add: example_ki_def)
  have "fmlookup kis (ki_UID example_ki) = Some example_ki"
    by (rule kube_info_roundtrip [OF ref_kube.kube_client_axioms _ example_pod_written get])
      (auto simp: example_pods_obj labels pod log_after_def split: if_splits)
  then show ?thesis using get unfolding uid by blast
qed

end
