(* ===== verification/Kube_System.thy ===== *)
theory Kube_System
  imports System Kube_Store
begin

text \<open>
  The whole system over the kubernetes store. A put of cluster data is several calls to the API: it reads the config map, prepares
  the request and sends it, and starts again after a conflict. In the step relation each call is a step of its own, so that all
  other sentinels, commands and members may act between the calls of a put. Running the calls of one put after another is the
  operation of the store (\<open>kube_run_put\<close>), and the calls satisfy the contract \<open>cluster_store\<close>, so that all
  properties of the system hold with kubernetes too.
\<close>

section \<open>The calls of a put\<close>

text \<open>The previous pair is missing for an unconditional put. The number is that of the attempts that are left.\<close>

datatype kube_put =
    KubePrepare ClusterData "ClusterData KVPair option option" nat
  | KubeSend ClusterData "ClusterData KVPair option option" "ClusterData kube_request" nat

definition kubePrepare ::
  "(ClusterData, 'k) KubeClient \<Rightarrow> KubeStore \<Rightarrow> ClusterData \<Rightarrow> ClusterData KVPair option option \<Rightarrow> 'k \<Rightarrow> kube_error + ClusterData kube_request" where
  "kubePrepare kc s cd prev =
     (case prev of
        None \<Rightarrow> preparePut kc s (JSON (json_ClusterData cd))
      | Some previous \<Rightarrow> prepareAtomicPut kc s (JSON (json_ClusterData cd)) previous)"

definition kubeRest :: "ClusterData \<Rightarrow> ClusterData KVPair option option \<Rightarrow> nat \<Rightarrow> api_error + ClusterData KubeObject \<Rightarrow> kube_put option" where
  "kubeRest cd prev n r =
     (case r of
        Inl (ApiConflict _) \<Rightarrow> (case n of 0 \<Rightarrow> None | Suc m \<Rightarrow> Some (KubePrepare cd prev m))
      | _ \<Rightarrow> None)"

fun kube_advance :: "(ClusterData, 'k) KubeClient \<Rightarrow> KubeStore \<Rightarrow> kube_put \<Rightarrow> 'k \<Rightarrow> 'k \<times> kube_put option" where
  "kube_advance kc s (KubePrepare cd prev n) k =
     (k, case kubePrepare kc s cd prev k of Inl _ \<Rightarrow> None | Inr req \<Rightarrow> Some (KubeSend cd prev req n))"
| "kube_advance kc s (KubeSend cd prev req n) k =
     (case sendRequest kc req k of (k', r) \<Rightarrow> (k', kubeRest cd prev n r))"

definition kubeAtomicPut :: "ClusterData \<Rightarrow> ClusterData KVPair option \<Rightarrow> kube_put" where
  "kubeAtomicPut cd previous = KubePrepare cd (Some previous) (DefaultRetrySteps - 1)"

definition kubePut :: "ClusterData \<Rightarrow> kube_put" where
  "kubePut cd = KubePrepare cd None (DefaultRetrySteps - 1)"

text \<open>All calls of a put, with what others do between reading and sending.\<close>

fun kube_run :: "(ClusterData, 'k) KubeClient \<Rightarrow> KubeStore \<Rightarrow> (nat \<Rightarrow> 'k \<Rightarrow> 'k) \<Rightarrow> ClusterData \<Rightarrow> ClusterData KVPair option option \<Rightarrow> nat \<Rightarrow> 'k \<Rightarrow> 'k" where
  "kube_run kc s others cd prev n k =
     (case kube_advance kc s (KubePrepare cd prev n) k of
        (k1, None) \<Rightarrow> k1
      | (k1, Some w) \<Rightarrow>
          (case kube_advance kc s w (others n k1) of
             (k2, None) \<Rightarrow> k2
           | (k2, Some _) \<Rightarrow> (case n of 0 \<Rightarrow> k2 | Suc m \<Rightarrow> kube_run kc s others cd prev m k2)))"

declare kube_run.simps [simp del]

lemma kubePrepare_error: "kubePrepare kc s cd prev k = Inl e \<Longrightarrow> \<exists>e'. e = KubeStoreError e'"
  by (auto simp: kubePrepare_def preparePut_def prepareAtomicPut_def failedGet_def split: option.splits sum.splits api_error.splits if_splits)

lemma kube_run_retry:
  "fst (RetryOnConflict (kubeAttempt kc others (kubePrepare kc s cd prev)) (Suc n) e k) = kube_run kc s others cd prev n k"
proof (induction n arbitrary: e k)
  case 0
  show ?case
    by (subst kube_run.simps)
      (auto simp: kubeAttempt_def sendResult_def kubeRest_def dest: kubePrepare_error split: sum.splits prod.splits api_error.splits)
next
  case (Suc n)
  show ?case
  proof (cases "kubePrepare kc s cd prev k")
    case (Inl e')
    then show ?thesis
      by (subst kube_run.simps) (auto simp: kubeAttempt_def dest: kubePrepare_error)
  next
    case (Inr req)
    obtain k' r where r: "sendRequest kc req (others (Suc n) k) = (k', r)" by fastforce
    let ?f = "kubeAttempt kc others (kubePrepare kc s cd prev)"
    have a: "?f (Suc n) k = (k', sendResult r)" by (simp add: kubeAttempt_def Inr r)
    show ?thesis
    proof (cases "\<exists>c. r = Inl (ApiConflict c)")
      case True
      then obtain c where c: "r = Inl (ApiConflict c)" by blast
      have "RetryOnConflict ?f (Suc (Suc n)) e k = RetryOnConflict ?f (Suc n) (Some (KubeApi (ApiConflict c))) k'"
        by (subst RetryOnConflict.simps(2)) (simp add: a c sendResult_def del: RetryOnConflict.simps)
      moreover have "kube_run kc s others cd prev (Suc n) k = kube_run kc s others cd prev n k'"
        by (subst kube_run.simps) (simp add: Inr r c kubeRest_def)
      ultimately show ?thesis using Suc.IH by metis
    next
      case False
      then have "\<forall>e. sendResult r \<noteq> Inl (KubeApi (ApiConflict e))" by (auto simp: sendResult_def split: sum.splits)
      from RetryOnConflict_stop [of ?f "Suc n" k k' "sendResult r" e] a this
      have "fst (RetryOnConflict ?f (Suc (Suc n)) e k) = k'" by simp
      moreover have "kubeRest cd prev (Suc n) r = None" using False by (auto simp: kubeRest_def split: sum.splits api_error.splits)
      then have "kube_run kc s others cd prev (Suc n) k = k'" by (subst kube_run.simps) (simp add: Inr r)
      ultimately show ?thesis by simp
    qed
  qed
qed

text \<open>The operations of the store are these calls.\<close>

lemma kube_run_put:
  "fst (kube_AtomicPutClusterData kc others s cd previous k) = kube_run kc s others cd (Some previous) (DefaultRetrySteps - 1) k"
  "fst (kube_PutClusterData kc others s cd k) = kube_run kc s others cd None (DefaultRetrySteps - 1) k"
proof -
  have r: "fst (kubeRetry kc others (kubePrepare kc s cd prev) k) = kube_run kc s others cd prev (DefaultRetrySteps - 1) k" for prev
    using kube_run_retry [of kc others s cd prev "DefaultRetrySteps - 1" None k]
    by (auto simp: kubeRetry_def DefaultRetrySteps_def split: prod.splits sum.splits simp del: RetryOnConflict.simps)
  from r [of "Some previous"] r [of None]
  show "fst (kube_AtomicPutClusterData kc others s cd previous k) = kube_run kc s others cd (Some previous) (DefaultRetrySteps - 1) k"
    "fst (kube_PutClusterData kc others s cd k) = kube_run kc s others cd None (DefaultRetrySteps - 1) k"
    by (auto simp: kubePrepare_def kube_AtomicPutClusterData_def kube_PutClusterData_def Let_def split: prod.splits sum.splits)
qed

section \<open>The contract\<close>

definition kube_cds :: "('k \<Rightarrow> string \<Rightarrow> ClusterData KubeObject option) \<Rightarrow> KubeStore \<Rightarrow> 'k \<Rightarrow> ClusterData sres option" where
  "kube_cds objs s k = map_option Unmarshal (kube_cd objs s k)"

text \<open>The previous pair of a put goes with what was read.\<close>

definition prev_of :: "cd_read option \<Rightarrow> ClusterData KVPair option option \<Rightarrow> bool" where
  "prev_of r prev \<longleftrightarrow> prev = map_option (map_option snd) r \<and>
     (\<forall>cd pair. r = Some (Some (cd, pair)) \<longrightarrow> Unmarshal (kv_Value pair) = Inr cd)"

definition wanted_value :: "ClusterData KVPair option option \<Rightarrow> ClusterData bytes option \<Rightarrow> bool" where
  "wanted_value prev cur \<longleftrightarrow> (\<forall>previous. prev = Some previous \<longrightarrow> cur = map_option kv_Value previous)"

definition kube_under_way where
  "kube_under_way objs later s r cd w k \<longleftrightarrow>
     (case w of
        KubePrepare cd' prev n \<Rightarrow> cd' = cd \<and> prev_of r prev
      | KubeSend cd' prev req n \<Rightarrow> cd' = cd \<and> prev_of r prev \<and>
          (\<forall>k'. later k k' \<longrightarrow> cd_request objs s (JSON (json_ClusterData cd)) (wanted_value prev) req k'))"

lemma wanted_read:
  assumes "prev_of r prev" "wanted_value prev (kube_cd objs s k)" "r = Some r'"
  shows "kube_cds objs s k = map_option (Inr \<circ> fst) r'"
  using assms by (cases r') (auto simp: prev_of_def wanted_value_def kube_cds_def)

context kube_cluster
begin

lemma kubePrepare_request:
  assumes "kubePrepare kc s cd prev k = Inr req" "later k k1"
  shows "cd_request objs s (JSON (json_ClusterData cd)) (wanted_value prev) req k1"
proof (cases prev)
  case None
  then have "wanted_value prev = (\<lambda>_. True)" by (simp add: wanted_value_def fun_eq_iff)
  with None assms put_prepared show ?thesis by (simp add: kubePrepare_def)
next
  case (Some previous)
  then have "wanted_value prev = (\<lambda>cur. cur = map_option kv_Value previous)" by (simp add: wanted_value_def fun_eq_iff)
  with Some assms prepared show ?thesis by (simp add: kubePrepare_def)
qed

lemma is_cluster_store:
  "cluster_store (kube_GetClusterData kc s) kubeAtomicPut kubePut (kube_advance kc s) (kube_cds objs s) later
     (kube_under_way objs later s)"
proof (unfold_locales, goal_cases)
  case (1 st r)
  from read_cd [OF this] show ?case by (cases r) (auto simp: kube_cds_def)
next
  case (2 st r cd)
  then show ?case using read_cd(2) by (auto simp: kube_under_way_def kubeAtomicPut_def prev_of_def)
next
  case (3 cd st)
  then show ?case by (simp add: kube_under_way_def kubePut_def prev_of_def)
next
  case (4 r cd w st st')
  then show ?case by (auto simp: kube_under_way_def split: kube_put.splits intro: later_trans)
next
  case (5 r cd w st st' rest)
  then show ?case by (cases w) (auto intro: later_refl send_later split: prod.splits)
next
  case (6 r cd w st st' rest)
  show ?case
  proof (cases w)
    case (KubePrepare cd' prev n)
    then show ?thesis using 6(2) by simp
  next
    case (KubeSend cd' prev req n)
    with 6 have u: "cd' = cd" "prev_of r prev" "cd_request objs s (JSON (json_ClusterData cd)) (wanted_value prev) req st"
      using later_refl by (auto simp: kube_under_way_def)
    obtain res where send: "sendRequest kc req st = (st', res)" using 6(2) KubeSend by (auto split: prod.splits)
    have "objs st' = objs st \<or> applies objs req st st'"
      using send send_ok send_error by (cases res) blast+
    then show ?thesis
    proof
      assume "objs st' = objs st"
      then show ?thesis by (simp add: kube_cds_def kube_cd_def)
    next
      assume "applies objs req st st'"
      from cd_request_applied [OF u(3) this] have w: "wanted_value prev (kube_cd objs s st)"
        "kube_cd objs s st' = Some (JSON (json_ClusterData cd))" by (auto intro: kube_cd_replaced)
      then show ?thesis using wanted_read [OF u(2) w(1)] by (auto simp: kube_cds_def)
    qed
  qed
next
  case (7 r cd w st st' w')
  show ?case
  proof (cases w)
    case (KubePrepare cd' prev n)
    with 7 kubePrepare_request [of s cd prev st] show ?thesis by (auto simp: kube_under_way_def split: sum.splits)
  next
    case (KubeSend cd' prev req n)
    with 7 show ?thesis by (auto simp: kube_under_way_def kubeRest_def split: prod.splits sum.splits api_error.splits nat.splits)
  qed
qed (auto intro: later_refl later_trans)

end

interpretation ref_kube_system: cluster_store "kube_GetClusterData log_kube example_kube" kubeAtomicPut kubePut
  "kube_advance log_kube example_kube" "kube_cds log_obj example_kube" log_after "kube_under_way log_obj log_after example_kube"
  by (rule ref_kube_cluster.is_cluster_store)

section \<open>The system with kubernetes\<close>

abbreviation "kube_step kc objs later s \<equiv>
  system_step (kube_GetClusterData kc s) kubeAtomicPut kubePut (kube_advance kc s) (kube_cds objs s) later"

abbreviation "kube_reachable kc objs later s \<equiv>
  reachable (kube_GetClusterData kc s) kubeAtomicPut kubePut (kube_advance kc s) (kube_cds objs s) later"

text \<open>
  C20. The whole system with kubernetes, where other steps happen between the calls of a put: in every reachable state the cluster
  data in the store is sound, and what a step writes is well-formed, unless a command has made it from cluster data that is not, or
  is an update that drops the settings of standby clusters; a step that changes the cluster data makes the new one from the one that
  is in the store right then, by a check of a leader or by a command, unless it is the initial one; and a step that changes the
  master of an initialized cluster tells the proxies in the same write that there is none.
\<close>

theorem kube_system_correct:
  assumes "kube_cluster kc objs later" and "kube_reachable kc objs later s y" and "kube_step kc objs later s y y'"
    and "kube_cds objs s (sy_store y) = Some x" and "kube_cds objs s (sy_store y') = Some x'" and "x' \<noteq> x"
  shows "\<exists>cd cd'. x = Inr cd \<and> x' = Inr (json_ClusterData cd') \<and> sound_cd cd \<and> sound_cd (json_ClusterData cd') \<and>
    (wf_cd (json_ClusterData cd') \<or> command_changes cd cd' \<and> (\<not> wf_cd cd \<or> dropsStandbyConfig cd cd')) \<and>
    (initial_cd cd' \<or> sentinel_changes cd cd' \<or> command_changes cd cd') \<and>
    (phaseOf cd = Some ClusterPhaseNormal \<and> masterUID cd' \<noteq> masterUID cd \<and> \<not> initial_cd cd' \<longrightarrow>
       proxyMaster cd' = Some '''' \<and> fmlookup (cd_DBs cd) (masterUID cd') \<noteq> None)"
  by (rule cluster_store.step_correct [OF kube_cluster.is_cluster_store [OF assms(1)] assms(2-6)])

section \<open>An execution\<close>

text \<open>
  The master of a running cluster has failed. A sentinel reads the cluster data and starts to put the new one: it reads the
  config map, and sends it back.
\<close>

definition kube_run_pair :: "ClusterData KVPair" where
  "kube_run_pair = \<lparr>kv_Key = '''', kv_Value = JSON example_cd, kv_LastIndex = 0\<rparr>"

definition kube_run_input :: CheckInput where
  "kube_run_input = run_input\<lparr>ci_cd := Inr (Some (example_cd, kube_run_pair))\<rparr>"

definition kube_run_result where
  "kube_run_result = projr (clusterSentinelCheck example_env example_sentinel kube_run_input)"

definition kube_run_cd :: ClusterData where "kube_run_cd = fst (the (snd kube_run_result))"

definition kube_map :: "ClusterData bytes \<Rightarrow> ClusterData KubeObject" where
  "kube_map cdj = newConfigMap example_kube cdj"

definition kube_run_request :: "ClusterData kube_request" where
  "kube_run_request = UpdateRequest ((kube_map (JSON (json_ClusterData kube_run_cd)))\<lparr>ko_ResourceVersion := logVersion 1\<rparr>)"

definition k0 :: "(ClusterData kube_log, kube_put) System" where
  "k0 = \<lparr>sy_store = [kube_map (JSON example_cd)], sy_sentinels = (\<lambda>_. example_sentinel), sy_pending = []\<rparr>"

definition k1 :: "(ClusterData kube_log, kube_put) System" where
  "k1 = k0\<lparr>sy_sentinels := (sy_sentinels k0)(0 := fst kube_run_result),
     sy_pending := [(Some (Some (example_cd, kube_run_pair)), kube_run_cd, kubeAtomicPut kube_run_cd (Some kube_run_pair))]\<rparr>"

definition k2 :: "(ClusterData kube_log, kube_put) System" where
  "k2 = k1\<lparr>sy_pending := [(Some (Some (example_cd, kube_run_pair)), kube_run_cd, KubeSend kube_run_cd (Some (Some kube_run_pair)) kube_run_request 4)]\<rparr>"

definition k3 :: "(ClusterData kube_log, kube_put) System" where
  "k3 = k2\<lparr>sy_store := request_object kube_run_request # sy_store k2, sy_pending := []\<rparr>"

abbreviation "kube_log_step \<equiv> kube_step log_kube log_obj log_after example_kube"
abbreviation "kube_log_reachable \<equiv> kube_reachable log_kube log_obj log_after example_kube"

lemma kube_map_obj: "log_obj [kube_map v] (ks_resourceName example_kube) = Some ((kube_map v)\<lparr>ko_ResourceVersion := logVersion 1\<rparr>)"
  by (simp add: kube_map_def newConfigMap_def)

lemma kube_map_cd: "annotationOf KubeClusterDataAnnotation (kube_map v) = Some v"
  by (simp add: kube_map_def newConfigMap_def annotationOf_def)

lemma kube_map_set: "setAnnotation KubeClusterDataAnnotation v ((kube_map u)\<lparr>ko_ResourceVersion := n\<rparr>) = (kube_map v)\<lparr>ko_ResourceVersion := n\<rparr>"
  by (simp add: kube_map_def newConfigMap_def setAnnotation_def fmap_ext)

lemma k_stored:
  "kube_cds log_obj example_kube (sy_store k0) = Some (Inr example_cd)"
  "kube_cds log_obj example_kube (sy_store k2) = Some (Inr example_cd)"
  "kube_cds log_obj example_kube (sy_store k3) = Some (Inr (json_ClusterData kube_run_cd))"
  by (simp_all add: kube_cds_def kube_cd_def k0_def k1_def k2_def k3_def kube_map_obj kube_map_cd kube_run_request_def request_object_def
      del: log_obj.simps) (simp add: kube_map_def newConfigMap_def annotationOf_def)

lemma k0_reachable: "kube_log_reachable k0"
proof -
  have "s_initialClusterSpec example_sentinel = None" by code_simp
  then have "system_init (kube_cds log_obj example_kube) k0"
    using wf_sound [OF example_cd_wf] k_stored(1) by (simp add: system_init_def stored_ok_def sentinel_ok_def) (simp add: k0_def)
  then show ?thesis unfolding reachable_def by blast
qed

lemma kube_run_check:
  "clusterSentinelCheck example_env example_sentinel kube_run_input = Inr (fst kube_run_result, Some (kube_run_cd, Some kube_run_pair))"
proof -
  have "is_ok (clusterSentinelCheck example_env example_sentinel kube_run_input) \<and>
     snd (projr (clusterSentinelCheck example_env example_sentinel kube_run_input)) \<noteq> None" by code_simp
  then obtain s' cd' prev where r: "clusterSentinelCheck example_env example_sentinel kube_run_input = Inr (s', Some (cd', prev))"
    by (auto simp: is_ok_iff)
  have i: "ci_cd kube_run_input = Inr (Some (example_cd, kube_run_pair))" by (simp add: kube_run_input_def)
  from check_leads [OF i r] obtain s0 kis pis where
    "leaderCheck example_env s0 example_cd kube_run_pair (s_leadershipCount example_sentinel) kis pis = Inr (s', Some (cd', prev))"
    by blast
  then have "prev = Some kube_run_pair" by (rule leaderCheck_put)
  then show ?thesis using r by (simp add: kube_run_result_def kube_run_cd_def)
qed

lemma kube_run_steps: "kube_log_step k0 k1" "kube_log_step k1 k2" "kube_log_step k2 k3"
proof -
  have g: "kube_GetClusterData log_kube example_kube (sy_store k0) = Inr (Some (example_cd, kube_run_pair))"
    using kube_map_cd [of "JSON example_cd"]
    by (simp add: kube_GetClusterData_def log_kube_def k0_def kube_map_obj annotationOf_def kube_run_pair_def del: log_obj.simps)
  have i: "ci_cd kube_run_input = kube_GetClusterData log_kube example_kube (sy_store k0)"
    by (simp add: g) (simp add: kube_run_input_def)
  have k: "ci_keepersInfo kube_run_input = GetKeepersInfo (\<lambda>_ _. Inr (map (\<lambda>(u, ki). \<lparr>kv_Key = u, kv_Value = JSON ki, kv_LastIndex = 1\<rparr>) (entries example_infos)))
       ''stolon'' ()" by (simp add: kube_run_input_def run_input_def)
  have f: "fresh_uids example_env cd" if "ci_cd kube_run_input = Inr (Some (cd, pair))" for cd pair
    using that example_cd_fresh by (simp add: kube_run_input_def)
  have c: "clusterSentinelCheck example_env (sy_sentinels k0 0) kube_run_input = Inr (fst kube_run_result, Some (kube_run_cd, Some kube_run_pair))"
    using kube_run_check by (simp add: k0_def)
  from system_step.check [where read = "kube_GetClusterData log_kube example_kube" and startAtomicPut = kubeAtomicPut, OF i k f c]
  show "kube_log_step k0 k1" by (simp add: k1_def) (simp add: kube_run_input_def k0_def)
  have p: "sy_pending k1 = [] @ (Some (Some (example_cd, kube_run_pair)), kube_run_cd, kubeAtomicPut kube_run_cd (Some kube_run_pair)) # []"
    by (simp add: k1_def)
  have "kubePrepare log_kube example_kube kube_run_cd (Some (Some kube_run_pair)) [kube_map (JSON example_cd)] = Inr kube_run_request"
    by (simp add: kubePrepare_def prepareAtomicPut_def log_kube_def kube_map_obj previousDiffers_iff kube_map_cd kube_map_set
        kube_run_pair_def kube_run_request_def del: log_obj.simps)
  then have "kube_advance log_kube example_kube (kubeAtomicPut kube_run_cd (Some kube_run_pair)) (sy_store k1) =
      (sy_store k1, Some (KubeSend kube_run_cd (Some (Some kube_run_pair)) kube_run_request 4))"
    by (simp add: kubeAtomicPut_def DefaultRetrySteps_def k1_def k0_def)
  from system_step.put [where advance = "kube_advance log_kube example_kube", OF p this] show "kube_log_step k1 k2"
    by (simp add: k2_def)
  have p2: "sy_pending k2 = [] @ (Some (Some (example_cd, kube_run_pair)), kube_run_cd, KubeSend kube_run_cd (Some (Some kube_run_pair)) kube_run_request 4) # []"
    by (simp add: k2_def)
  have "kube_advance log_kube example_kube (KubeSend kube_run_cd (Some (Some kube_run_pair)) kube_run_request 4) (sy_store k2) = (sy_store k3, None)"
    by (simp add: kube_run_request_def request_object_def k3_def k2_def k1_def k0_def log_kube_def log_write_def kubeRest_def)
      (simp add: kube_map_def newConfigMap_def)
  from system_step.put [where advance = "kube_advance log_kube example_kube", OF p2 this] show "kube_log_step k2 k3"
    by (simp add: k3_def)
qed

lemma k2_reachable: "kube_log_reachable k2"
  by (rule reachable_next [OF reachable_next [OF k0_reachable kube_run_steps(1)] kube_run_steps(2)])

theorem kube_system_correct_witness:
  "\<exists>cd'. json_ClusterData kube_run_cd = json_ClusterData cd' \<and> sound_cd (json_ClusterData cd') \<and>
     (initial_cd cd' \<or> sentinel_changes example_cd cd' \<or> command_changes example_cd cd')"
proof -
  have "masterUID kube_run_cd = ''db2''" by code_simp
  then have "json_ClusterData kube_run_cd \<noteq> example_cd" using run_masters json_master [of kube_run_cd] by auto
  then show ?thesis
    using kube_system_correct [OF ref_kube_cluster.kube_cluster_axioms k2_reachable kube_run_steps(3) k_stored(2,3)] by auto
qed

end
