(* ===== verification/Election.thy ===== *)
theory Election
  imports Sentinel_Check Kube_Store
begin

text \<open>
  The election of the leader among the sentinels: the \<^verbatim>\<open>Election\<close> implementations of
  \<^verbatim>\<open>internal/store\<close> for etcd v3 (\<^verbatim>\<open>etcdv3.go\<close>) and kubernetes
  (\<^verbatim>\<open>k8s.go\<close>), and the loop of the sentinel that listens to them (\<^verbatim>\<open>electionLoop\<close> of
  \<^verbatim>\<open>sentinel.go\<close>).

  A campaign runs concurrently with the loop of the sentinel; they share the fields of the election and two channels without a
  buffer, so that sending a message and receiving it is one step of both. What the election libraries answer are the events of the
  step functions, in any order that is possible.
\<close>

section \<open>etcd v3\<close>

text \<open>Where the campaign is. \<open>Failing\<close>: it has failed and is about to send the error.\<close>

datatype campaign_phase = Starting | Connecting | Campaigning | Leading | Failing string | Ended

record EtcdElection =
  ee_running :: bool
  ee_cancelled :: bool
  ee_phase :: campaign_phase

datatype elect_msg = Elected bool | ElectErr string

definition etcdv3_RunForElection :: "EtcdElection \<Rightarrow> EtcdElection res" where
  "etcdv3_RunForElection e =
     (if ee_running e then Inl (Panic ''already running'')
      else Inr \<lparr>ee_running = True, ee_cancelled = False, ee_phase = Starting\<rparr>)"

definition etcdv3_Stop :: "EtcdElection \<Rightarrow> EtcdElection res" where
  "etcdv3_Stop e =
     (if \<not> ee_running e then Inl (Panic ''not running'')
      else Inr (e\<lparr>ee_cancelled := True, ee_running := False\<rparr>))"

text \<open>What can happen next to a campaign; the result is nothing if it cannot.\<close>

datatype campaign_event =
    Announce
  | NewSession "string + unit"
  | Campaign "string + unit"
  | SendError
  | ContextDone
  | SessionDone

definition campaign :: "campaign_event \<Rightarrow> EtcdElection \<Rightarrow> (EtcdElection \<times> elect_msg option) option" where
  "campaign ev e =
     (case (ee_phase e, ev) of
        (Starting, Announce) \<Rightarrow> Some (e\<lparr>ee_phase := Connecting\<rparr>, Some (Elected False))
      | (Connecting, NewSession (Inl err)) \<Rightarrow> Some (e\<lparr>ee_running := False, ee_phase := Failing err\<rparr>, None)
      | (Connecting, NewSession (Inr _)) \<Rightarrow> Some (e\<lparr>ee_phase := Campaigning\<rparr>, None)
      | (Campaigning, Campaign (Inl err)) \<Rightarrow> Some (e\<lparr>ee_running := False, ee_phase := Failing err\<rparr>, None)
      | (Campaigning, Campaign (Inr _)) \<Rightarrow> Some (e\<lparr>ee_phase := Leading\<rparr>, Some (Elected True))
      | (Failing err, SendError) \<Rightarrow> Some (e\<lparr>ee_phase := Ended\<rparr>, Some (ElectErr err))
      | (Leading, ContextDone) \<Rightarrow> if ee_cancelled e then Some (e\<lparr>ee_running := False, ee_phase := Ended\<rparr>, None) else None
      | (Leading, SessionDone) \<Rightarrow> Some (e\<lparr>ee_phase := Starting\<rparr>, Some (Elected False))
      | _ \<Rightarrow> None)"

definition etcdv3_Leader :: "etcd_error + unit \<Rightarrow> etcd_error + string \<Rightarrow> string sres" where
  "etcdv3_Leader session leader =
     (case session of
        Inl e \<Rightarrow> Inl (fromEtcV3Error e)
      | Inr _ \<Rightarrow> (case leader of Inl e \<Rightarrow> Inl (fromEtcV3Error e) | Inr v \<Rightarrow> Inr v))"

section \<open>The election loop of the sentinel\<close>

datatype loop_phase = Listening | Sleeping | Returned

record ElectionLoop =
  el_election :: EtcdElection
  el_sentinel :: Sentinel
  el_phase :: loop_phase

datatype loop_event = CampaignMoves campaign_event | Wake | Terminate

definition receive :: "elect_msg option \<Rightarrow> ElectionLoop \<Rightarrow> ElectionLoop" where
  "receive m l =
     (case m of
        None \<Rightarrow> l
      | Some (Elected b) \<Rightarrow> l\<lparr>el_sentinel := electionMessage b (el_sentinel l)\<rparr>
      | Some (ElectErr _) \<Rightarrow> l\<lparr>el_phase := Sleeping\<rparr>)"

text \<open>A message is sent only when the loop is there to receive it.\<close>

definition electionLoop :: "loop_event \<Rightarrow> ElectionLoop \<Rightarrow> ElectionLoop res option" where
  "electionLoop ev l =
     (case ev of
        CampaignMoves ce \<Rightarrow>
          (case campaign ce (el_election l) of
             None \<Rightarrow> None
           | Some (e, m) \<Rightarrow> if m \<noteq> None \<and> el_phase l \<noteq> Listening then None else Some (Inr (receive m (l\<lparr>el_election := e\<rparr>))))
      | Wake \<Rightarrow>
          if el_phase l = Sleeping
          then Some (bindE (etcdv3_RunForElection (el_election l)) (\<lambda>e. Inr (l\<lparr>el_election := e, el_phase := Listening\<rparr>)))
          else None
      | Terminate \<Rightarrow>
          if el_phase l = Listening
          then Some (bindE (etcdv3_Stop (el_election l)) (\<lambda>e. Inr (l\<lparr>el_election := e, el_phase := Returned\<rparr>)))
          else None)"

text \<open>
  The runs of the loop and the campaign, from the first \<^verbatim>\<open>RunForElection\<close> of a sentinel that is not the
  leader.
\<close>

inductive loop_run :: "ElectionLoop \<Rightarrow> loop_event list \<Rightarrow> ElectionLoop \<Rightarrow> bool" where
  start: "etcdv3_RunForElection e = Inr e' \<Longrightarrow> \<not> s_leader s \<Longrightarrow>
     loop_run \<lparr>el_election = e', el_sentinel = s, el_phase = Listening\<rparr> [] \<lparr>el_election = e', el_sentinel = s, el_phase = Listening\<rparr>"
| step: "loop_run l0 evs l \<Longrightarrow> electionLoop ev l = Some (Inr l') \<Longrightarrow> loop_run l0 (evs @ [ev]) l'"

definition loop_inv :: "ElectionLoop \<Rightarrow> bool" where
  "loop_inv l \<longleftrightarrow>
     (let e = el_election l in
      (s_leader (el_sentinel l) \<longrightarrow> ee_phase e = Leading \<or> el_phase l = Returned) \<and>
      (el_phase l = Sleeping \<longrightarrow> ee_phase e = Ended \<and> \<not> ee_running e) \<and>
      (el_phase l = Listening \<longrightarrow> ee_phase e \<noteq> Ended \<and> (ee_running e \<longleftrightarrow> (\<forall>err. ee_phase e \<noteq> Failing err)) \<and> \<not> ee_cancelled e))"

lemma campaign_cases:
  assumes "campaign ev e = Some (e', m)"
  obtains "ee_phase e = Starting" "m = Some (Elected False)" "e' = e\<lparr>ee_phase := Connecting\<rparr>"
  | err where "ee_phase e = Connecting \<or> ee_phase e = Campaigning" "m = None" "e' = e\<lparr>ee_running := False, ee_phase := Failing err\<rparr>"
  | "ee_phase e = Connecting" "m = None" "e' = e\<lparr>ee_phase := Campaigning\<rparr>"
  | "ee_phase e = Campaigning" "m = Some (Elected True)" "ev = Campaign (Inr ())" "e' = e\<lparr>ee_phase := Leading\<rparr>"
  | err where "ee_phase e = Failing err" "m = Some (ElectErr err)" "e' = e\<lparr>ee_phase := Ended\<rparr>"
  | "ee_phase e = Leading" "ee_cancelled e" "m = None" "e' = e\<lparr>ee_running := False, ee_phase := Ended\<rparr>"
  | "ee_phase e = Leading" "m = Some (Elected False)" "e' = e\<lparr>ee_phase := Starting\<rparr>"
  using assms unfolding campaign_def
  by (auto split: campaign_phase.splits campaign_event.splits sum.splits if_splits)

lemma loop_inv_step:
  assumes "loop_inv l" "electionLoop ev l = Some (Inr l')"
  shows "loop_inv l'"
proof (cases ev)
  case (CampaignMoves ce)
  then obtain e m where c: "campaign ce (el_election l) = Some (e, m)" "m \<noteq> None \<longrightarrow> el_phase l = Listening"
    "l' = receive m (l\<lparr>el_election := e\<rparr>)"
    using assms(2) by (auto simp: electionLoop_def split: option.splits if_splits)
  from c(1) show ?thesis
    by (cases rule: campaign_cases)
      (use assms(1) c(2,3) in \<open>cases "el_phase l"; auto simp: loop_inv_def Let_def receive_def electionMessage_def\<close>)+
next
  case Wake
  then show ?thesis using assms by (auto simp: electionLoop_def loop_inv_def Let_def etcdv3_RunForElection_def res_simps split: if_splits)
next
  case Terminate
  then show ?thesis using assms by (auto simp: electionLoop_def loop_inv_def Let_def etcdv3_Stop_def res_simps split: if_splits)
qed

text \<open>
  C21. The election with etcd. A sentinel takes itself for the leader only while its campaign has won and has not noticed the end
  of its session, or after it was told to terminate; it counts every victory; the loop never starts an election that is running,
  and it crashes only if it is told to terminate right when the campaign has failed and is about to report the error.
\<close>

theorem election_leader_sound:
  assumes "loop_run l0 evs l"
  shows "(s_leader (el_sentinel l) \<longrightarrow> ee_phase (el_election l) = Leading \<or> el_phase l = Returned) \<and>
    s_leadershipCount (el_sentinel l) = s_leadershipCount (el_sentinel l0) + length (filter (\<lambda>ev. ev = CampaignMoves (Campaign (Inr ()))) evs) \<and>
    (\<forall>ev p. electionLoop ev l = Some (Inl p) \<longrightarrow>
       ev = Terminate \<and> p = Panic ''not running'' \<and> (\<exists>err. ee_phase (el_election l) = Failing err))"
proof -
  have inv: "loop_inv l" using assms
  proof induction
    case (start e e' s)
    then show ?case by (auto simp: loop_inv_def etcdv3_RunForElection_def split: if_splits)
  next
    case (step l0 evs l ev l')
    then show ?case by (blast intro: loop_inv_step)
  qed
  have count: "s_leadershipCount (el_sentinel l') = s_leadershipCount (el_sentinel l) + (if ev = CampaignMoves (Campaign (Inr ())) then 1 else 0)"
    if "electionLoop ev l = Some (Inr l')" for ev l l'
  proof (cases ev)
    case (CampaignMoves ce)
    with that obtain e m where c: "campaign ce (el_election l) = Some (e, m)" "l' = receive m (l\<lparr>el_election := e\<rparr>)"
      by (auto simp: electionLoop_def split: option.splits if_splits)
    from c show ?thesis using CampaignMoves
      by (cases ce) (auto simp: campaign_def receive_def electionMessage_def split: campaign_phase.splits sum.splits if_splits)
  qed (use that in \<open>auto simp: electionLoop_def etcdv3_RunForElection_def etcdv3_Stop_def res_simps split: if_splits\<close>)
  have "s_leadershipCount (el_sentinel l) = s_leadershipCount (el_sentinel l0) + length (filter (\<lambda>ev. ev = CampaignMoves (Campaign (Inr ()))) evs)"
    using assms by induction (simp_all add: count)
  moreover have "ev = Terminate \<and> p = Panic ''not running'' \<and> (\<exists>err. ee_phase (el_election l) = Failing err)"
    if "electionLoop ev l = Some (Inl p)" for ev p
    using that inv
    by (cases ev) (auto simp: electionLoop_def etcdv3_RunForElection_def etcdv3_Stop_def loop_inv_def Let_def res_simps split: if_splits option.splits)
  ultimately show ?thesis using inv by (auto simp: loop_inv_def Let_def)
qed

section \<open>Kubernetes\<close>

text \<open>
  The campaign with the vendored \<^verbatim>\<open>leaderelection\<close>: \<^verbatim>\<open>Run\<close> acquires the lease,
  starts \<^verbatim>\<open>OnStartedLeading\<close> as a goroutine of its own, renews the lease until this fails, and calls
  \<^verbatim>\<open>OnStoppedLeading\<close>. \<open>ke_started\<close> are the goroutines that have not yet sent their message.
  The context that \<^verbatim>\<open>Stop\<close> cancels is not used by the campaign.
\<close>

datatype kube_phase = KubeAnnounce | KubeAcquire | KubeRenew | KubeStopped

record KubeElection =
  ke_running :: bool
  ke_phase :: kube_phase
  ke_started :: nat

datatype kube_event = SendAnnounce | Acquired | SendStarted | RenewFailed | SendStopped

definition kube_RunForElection :: "KubeElection \<Rightarrow> KubeElection res" where
  "kube_RunForElection e =
     (if ke_running e then Inl (Panic ''already running'') else Inr (e\<lparr>ke_running := True, ke_phase := KubeAnnounce\<rparr>))"

definition kube_Stop :: "KubeElection \<Rightarrow> KubeElection res" where
  "kube_Stop e = (if \<not> ke_running e then Inl (Panic ''not running'') else Inr (e\<lparr>ke_running := False\<rparr>))"

definition kube_campaign :: "kube_event \<Rightarrow> KubeElection \<Rightarrow> (KubeElection \<times> elect_msg option) option" where
  "kube_campaign ev e =
     (case ev of
        SendAnnounce \<Rightarrow> if ke_phase e = KubeAnnounce then Some (e\<lparr>ke_phase := KubeAcquire\<rparr>, Some (Elected False)) else None
      | Acquired \<Rightarrow> if ke_phase e = KubeAcquire then Some (e\<lparr>ke_phase := KubeRenew, ke_started := ke_started e + 1\<rparr>, None) else None
      | SendStarted \<Rightarrow> if ke_started e > 0 then Some (e\<lparr>ke_started := ke_started e - 1\<rparr>, Some (Elected True)) else None
      | RenewFailed \<Rightarrow> if ke_phase e = KubeRenew then Some (e\<lparr>ke_phase := KubeStopped\<rparr>, None) else None
      | SendStopped \<Rightarrow> if ke_phase e = KubeStopped then Some (e\<lparr>ke_phase := KubeAnnounce\<rparr>, Some (Elected False)) else None)"

definition kube_Leader :: "api_error + string option \<Rightarrow> string sres" where
  "kube_Leader ler =
     (case ler of
        Inl e \<Rightarrow> Inl (StoreError (''failed to get leader election record: '' @ api_text e))
      | Inr None \<Rightarrow> Inr ''''
      | Inr (Some holderIdentity) \<Rightarrow> Inr holderIdentity)"

text \<open>The campaign together with the leader flag of the listening sentinel.\<close>

fun kube_loop :: "kube_event list \<Rightarrow> KubeElection \<times> Sentinel \<Rightarrow> (KubeElection \<times> Sentinel) option" where
  "kube_loop [] st = Some st"
| "kube_loop (ev # evs) (e, s) =
     (case kube_campaign ev e of
        None \<Rightarrow> None
      | Some (e', m) \<Rightarrow> kube_loop evs (e', case m of Some (Elected b) \<Rightarrow> electionMessage b s | _ \<Rightarrow> s))"

text \<open>Every goroutine has sent its message before the renewing of the lease fails.\<close>

fun prompt :: "kube_event list \<Rightarrow> nat \<Rightarrow> bool" where
  "prompt [] n = True"
| "prompt (ev # evs) n =
     (case ev of
        Acquired \<Rightarrow> prompt evs (n + 1)
      | SendStarted \<Rightarrow> prompt evs (n - 1)
      | RenewFailed \<Rightarrow> n = 0 \<and> prompt evs n
      | _ \<Rightarrow> prompt evs n)"

lemma kube_loop_inv:
  assumes "kube_loop evs (e, s) = Some (e', s')" "prompt evs (ke_started e)"
    and "s_leader s \<longrightarrow> ke_phase e = KubeRenew \<or> ke_phase e = KubeStopped" "ke_phase e \<noteq> KubeRenew \<longrightarrow> ke_started e = 0"
  shows "s_leader s' \<longrightarrow> ke_phase e' = KubeRenew \<or> ke_phase e' = KubeStopped"
  using assms
proof (induction evs arbitrary: e s)
  case (Cons ev evs)
  obtain e1 m where c: "kube_campaign ev e = Some (e1, m)" using Cons.prems(1) by (auto split: option.splits)
  let ?s = "case m of Some (Elected b) \<Rightarrow> electionMessage b s | _ \<Rightarrow> s"
  have "kube_loop evs (e1, ?s) = Some (e', s')" using Cons.prems(1) c by simp
  moreover have "prompt evs (ke_started e1)" "ke_phase e1 \<noteq> KubeRenew \<longrightarrow> ke_started e1 = 0"
      "s_leader ?s \<longrightarrow> ke_phase e1 = KubeRenew \<or> ke_phase e1 = KubeStopped"
    using c Cons.prems(2-4)
    by (cases ev; auto simp: kube_campaign_def electionMessage_def split: if_splits)+
  ultimately show ?case using Cons.IH by blast
qed simp

text \<open>
  C22. The election with kubernetes. If the message of a victory is always received before the renewing of the lease fails, a
  sentinel takes itself for the leader only while its lease is being renewed or it is about to be told of the loss. Without this
  condition, which nothing in the code ensures, it may take itself for the leader while it tries to acquire the lease.
\<close>

theorem kube_election_sound:
  fixes s :: Sentinel
  assumes "kube_RunForElection \<lparr>ke_running = False, ke_phase = KubeAnnounce, ke_started = 0\<rparr> = Inr e" "\<not> s_leader s"
  shows "(prompt evs 0 \<and> kube_loop evs (e, s) = Some (e', s') \<longrightarrow>
      s_leader s' \<longrightarrow> ke_phase e' = KubeRenew \<or> ke_phase e' = KubeStopped) \<and>
    (\<exists>evs e' s'. kube_loop evs (e, s) = Some (e', s') \<and> s_leader s' \<and> ke_phase e' = KubeAcquire)"
proof
  have e: "e = \<lparr>ke_running = True, ke_phase = KubeAnnounce, ke_started = 0\<rparr>" using assms(1) by (simp add: kube_RunForElection_def)
  show "prompt evs 0 \<and> kube_loop evs (e, s) = Some (e', s') \<longrightarrow> s_leader s' \<longrightarrow> ke_phase e' = KubeRenew \<or> ke_phase e' = KubeStopped"
    using kube_loop_inv [of evs e s e' s'] assms(2) e by auto
  have "kube_loop [SendAnnounce, Acquired, RenewFailed, SendStopped, SendAnnounce, SendStarted] (e, s) =
      Some (\<lparr>ke_running = True, ke_phase = KubeAcquire, ke_started = 0\<rparr>, electionMessage True (electionMessage False (electionMessage False (electionMessage False s))))"
    by (simp add: e kube_campaign_def)
  then show "\<exists>evs e' s'. kube_loop evs (e, s) = Some (e', s') \<and> s_leader s' \<and> ke_phase e' = KubeAcquire"
    by (intro exI conjI) (assumption, simp_all add: electionMessage_def)
qed

section \<open>Examples\<close>

definition fresh_sentinel :: Sentinel where
  "fresh_sentinel = example_sentinel\<lparr>s_leader := False\<rparr>"

definition fresh_election :: EtcdElection where
  "fresh_election = \<lparr>ee_running = True, ee_cancelled = False, ee_phase = Starting\<rparr>"

text \<open>A sentinel wins the election.\<close>

lemma winning_run:
  "loop_run \<lparr>el_election = fresh_election, el_sentinel = fresh_sentinel, el_phase = Listening\<rparr>
     ((([] @ [CampaignMoves Announce]) @ [CampaignMoves (NewSession (Inr ()))]) @ [CampaignMoves (Campaign (Inr ()))])
     \<lparr>el_election = fresh_election\<lparr>ee_phase := Leading\<rparr>, el_sentinel = electionMessage True (electionMessage False fresh_sentinel), el_phase = Listening\<rparr>"
proof -
  have "etcdv3_RunForElection \<lparr>ee_running = False, ee_cancelled = False, ee_phase = Ended\<rparr> = Inr fresh_election"
    by (simp add: etcdv3_RunForElection_def fresh_election_def)
  moreover have "\<not> s_leader fresh_sentinel" by (simp add: fresh_sentinel_def)
  ultimately show ?thesis
    by (intro loop_run.step [OF loop_run.step [OF loop_run.step [OF loop_run.start]]])
      (assumption | simp add: electionLoop_def campaign_def receive_def fresh_election_def)+
qed

theorem election_leader_sound_witness:
  "s_leadershipCount (electionMessage True (electionMessage False fresh_sentinel)) = s_leadershipCount fresh_sentinel + 1"
  using election_leader_sound [OF winning_run] by simp

theorem kube_election_sound_witness:
  "\<exists>e evs e' s'. kube_RunForElection \<lparr>ke_running = False, ke_phase = KubeAnnounce, ke_started = 0\<rparr> = Inr e \<and>
     kube_loop evs (e, fresh_sentinel) = Some (e', s') \<and> s_leader s' \<and> ke_phase e' = KubeAcquire"
proof -
  obtain e where e: "kube_RunForElection \<lparr>ke_running = False, ke_phase = KubeAnnounce, ke_started = 0\<rparr> = Inr e"
    by (simp add: kube_RunForElection_def)
  have "\<not> s_leader fresh_sentinel" by (simp add: fresh_sentinel_def)
  from kube_election_sound [OF e this] e show ?thesis by blast
qed

end
