(* ===== verification/Sentinel_Run.thy ===== *)
theory Sentinel_Run
  imports Election
begin

text \<open>
  The process of a sentinel: the loop \<^verbatim>\<open>Start\<close> of \<^verbatim>\<open>cmd/sentinel/cmd/sentinel.go\<close>,
  which runs the check again and again, next to the loop that listens to the election (theory \<open>Election\<close>). Both loops
  share the sentinel. A check has three steps, between which the election goes on: it starts; it tests for the leadership
  (\<^verbatim>\<open>leaderInfo\<close>) and computes the new cluster data; and it puts that into the store. What it has read from
  the store before the test and its environment are parameters. The events come in any order.
\<close>

section \<open>The loop\<close>

datatype check_phase = CheckTimer duration | CheckRunning | CheckPutting ClusterData "ClusterData KVPair option" | CheckEnding

record SentinelProc =
  sp_election :: ElectionLoop
  sp_check :: check_phase
  sp_ended :: bool

datatype sentinel_event = ElectionEvent loop_event | CheckStarts | CheckRuns Env CheckInput | CheckPuts | CheckEnds | SentinelDone

text \<open>
  One event: nothing if it is not possible, the panic if there is one; with the call of
  \<^verbatim>\<open>AtomicPutClusterData\<close> that is made.
\<close>

definition sentinel_Start :: "sentinel_event \<Rightarrow> SentinelProc \<Rightarrow> (SentinelProc \<times> put) res option" where
  "sentinel_Start ev p =
     (case ev of
        ElectionEvent e \<Rightarrow>
          map_option (\<lambda>r. bindE r (\<lambda>l. Inr (p\<lparr>sp_election := l\<rparr>, None))) (electionLoop e (sp_election p))
      | CheckStarts \<Rightarrow>
          (case sp_check p of
             CheckTimer _ \<Rightarrow> if sp_ended p then None else Some (Inr (p\<lparr>sp_check := CheckRunning\<rparr>, None))
           | _ \<Rightarrow> None)
      | CheckRuns env inp \<Rightarrow>
          if sp_check p \<noteq> CheckRunning then None
          else Some (bindE (clusterSentinelCheck env (el_sentinel (sp_election p)) inp) (\<lambda>(s, w).
                 Inr (p\<lparr>sp_election := (sp_election p)\<lparr>el_sentinel := s\<rparr>,
                        sp_check := (case w of None \<Rightarrow> CheckEnding | Some (newcd, prev) \<Rightarrow> CheckPutting newcd prev)\<rparr>, None)))
      | CheckPuts \<Rightarrow>
          (case sp_check p of
             CheckPutting newcd prev \<Rightarrow> Some (Inr (p\<lparr>sp_check := CheckEnding\<rparr>, Some (newcd, prev)))
           | _ \<Rightarrow> None)
      | CheckEnds \<Rightarrow>
          if sp_check p \<noteq> CheckEnding \<or> sp_ended p then None
          else Some (Inr (p\<lparr>sp_check := CheckTimer (s_sleepInterval (el_sentinel (sp_election p)))\<rparr>, None))
      | SentinelDone \<Rightarrow> if sp_ended p then None else Some (Inr (p\<lparr>sp_ended := True\<rparr>, None)))"

inductive sentinel_run :: "SentinelProc \<Rightarrow> bool" where
  start: "etcdv3_RunForElection e = Inr e' \<Longrightarrow> \<not> s_leader s \<Longrightarrow>
     sentinel_run \<lparr>sp_election = \<lparr>el_election = e', el_sentinel = s, el_phase = Listening\<rparr>, sp_check = CheckTimer 0, sp_ended = False\<rparr>"
| step: "sentinel_run p \<Longrightarrow> sentinel_Start ev p = Some (Inr (p', w)) \<Longrightarrow> sentinel_run p'"

text \<open>The events of the other goroutines while a check is about to put.\<close>

definition meanwhile :: "SentinelProc \<Rightarrow> SentinelProc \<Rightarrow> bool" where
  "meanwhile p p' \<longleftrightarrow> (\<exists>ev. sentinel_Start ev p = Some (Inr (p', None)) \<and> sp_check p' = sp_check p)"

section \<open>A check does not change the leadership\<close>

definition leads :: "Sentinel \<Rightarrow> bool \<times> nat" where
  "leads s = (s_leader s, s_leadershipCount s)"

lemma leads_timers [simp]:
  "leads (SetKeeperError env u s) = leads s" "leads (CleanKeeperError u s) = leads s"
  "leads (SetDBError env u s) = leads s" "leads (CleanDBError u s) = leads s"
  "leads (SetDBNotIncreasingXLogPos u s) = leads s" "leads (CleanDBNotIncreasingXLogPos u s) = leads s"
  by (simp_all add: leads_def SetKeeperError_def CleanKeeperError_def SetDBError_def CleanDBError_def SetDBNotIncreasingXLogPos_def
      CleanDBNotIncreasingXLogPos_def split: option.splits)

lemma leads_fold: "(\<And>x s. leads (f x s) = leads s) \<Longrightarrow> leads (fold f xs s) = leads s"
  by (induction xs arbitrary: s) simp_all

lemma leads_loops [simp]:
  "leads (markKeepers env kis ks s) = leads s" "leads (dbTimers env kis db s) = leads s"
  "leads (updateDBConvergenceInfo env db s) = leads s"
  by (auto simp: markKeepers_def dbTimers_def Let_def intro!: leads_fold split: option.splits if_splits)
    (simp add: leads_def updateDBConvergenceInfo_def Let_def split: option.splits)

lemma leads_folds [simp]:
  "leads (fold (\<lambda>(k, db). dbTimers env kis db) xs s) = leads s" "leads (updateDBConvergenceInfos env cd s) = leads s"
  unfolding updateDBConvergenceInfos_def by (rule leads_fold, simp split: prod.splits)+

lemma leads_status: "updateKeepersStatus env s cd kis f = Inr (s', r) \<Longrightarrow> leads s' = leads s"
  by (auto simp: updateKeepersStatus_def bindE_eq_Inr Let_def split: if_splits)

lemma leads_fields [simp]:
  "leads (s\<lparr>s_lastLeadershipCount := n\<rparr>) = leads s" "leads (s\<lparr>s_keeperInfoHistories := h\<rparr>) = leads s"
  "leads (s\<lparr>s_sleepInterval := d, s_requestTimeout := d'\<rparr>) = leads s" "leads (resetTimers env cd s) = leads s"
  "leads (fst (activeProxiesInfos env s pis)) = leads s"
  unfolding resetTimers_def leads_folds by (simp_all add: leads_def activeProxiesInfos_def Let_def)

lemma leads_leaderCheck:
  assumes "leaderCheck env s cd pair n kis pis = Inr (s', w)"
  shows "leads s' = leads s"
proof -
  let ?f = "s_lastLeadershipCount s \<noteq> n"
  let ?s = "if ?f then resetTimers env cd (s\<lparr>s_lastLeadershipCount := n\<rparr>) else s\<lparr>s_lastLeadershipCount := n\<rparr>"
  have 0: "leads ?s = leads s" by simp
  from assms obtain s1 newcd h where u: "updateKeepersStatus env ?s cd kis ?f = Inr (s1, newcd, h)"
    and rest: "(case activeProxiesInfos env s1 pis of (s, activeProxies) \<Rightarrow>
           case updateCluster env s newcd activeProxies of
             Inl (Error _) \<Rightarrow> Inr (s, None)
           | Inl e \<Rightarrow> Inl e
           | Inr newcd \<Rightarrow>
               bindE (updateChangeTimes env cd newcd) (\<lambda>newcd.
                 Inr (updateDBConvergenceInfos env newcd (s\<lparr>s_keeperInfoHistories := h\<rparr>), Some (newcd, Some pair)))) = Inr (s', w)"
    unfolding leaderCheck_def Let_def bindE_eq_Inr by force
  obtain s2 ps where a: "activeProxiesInfos env s1 pis = (s2, ps)" by fastforce
  then have "leads s2 = leads s1" using leads_fields(5) [of env s1 pis] by simp
  moreover have "leads s' = leads s2"
    using rest a by (auto simp: bindE_eq_Inr split: sum.splits go_error.splits)
  ultimately show ?thesis using leads_status [OF u] 0 by simp
qed

lemma leads_check:
  assumes "clusterSentinelCheck env s inp = Inr (s', w)"
  shows "leads s' = leads s"
proof -
  have m: "leads s1 = leads s0" if "checkMembers env s0 cd pair inp = Inr (s1, w)" for s0 s1 cd pair
    using that leads_leaderCheck unfolding checkMembers_def by (auto simp: leaderInfo_def split: sum.splits if_splits)
  show ?thesis
    using assms m unfolding clusterSentinelCheck_def
    by (auto simp: bindE_eq_Inr split: sum.splits option.splits if_splits)
qed

section \<open>Writing and leading\<close>

text \<open>The invariant of the election depends on the sentinel only by its leadership.\<close>

lemma loop_inv_check:
  "loop_inv l \<Longrightarrow> leads s = leads (el_sentinel l) \<Longrightarrow> loop_inv (l\<lparr>el_sentinel := s\<rparr>)"
  by (simp add: loop_inv_def leads_def)

lemma sentinel_run_inv: "sentinel_run p \<Longrightarrow> loop_inv (sp_election p)"
proof (induction rule: sentinel_run.induct)
  case (start e e' s)
  then show ?case by (auto simp: loop_inv_def etcdv3_RunForElection_def split: if_splits)
next
  case (step p ev p' w)
  show ?case
  proof (cases ev)
    case (ElectionEvent e)
    with step.hyps(2) obtain l where "electionLoop e (sp_election p) = Some (Inr l)" "sp_election p' = l"
      by (auto simp: sentinel_Start_def bindE_eq_Inr)
    then show ?thesis using loop_inv_step [OF step.IH] by simp
  next
    case (CheckRuns env inp)
    with step.hyps(2) obtain s w' where "clusterSentinelCheck env (el_sentinel (sp_election p)) inp = Inr (s, w')"
      "sp_election p' = (sp_election p)\<lparr>el_sentinel := s\<rparr>"
      by (auto simp: sentinel_Start_def bindE_eq_Inr split: if_splits)
    then show ?thesis using loop_inv_check [OF step.IH leads_check] by simp
  qed (use step in \<open>auto simp: sentinel_Start_def split: if_splits check_phase.splits\<close>)
qed

text \<open>A check that is about to put has tested for the leadership before.\<close>

lemma putting_tested:
  assumes "sentinel_run p" and "sp_check p = CheckPutting newcd prev"
  shows "\<exists>p0 p1 env inp s. sentinel_run p0 \<and> sentinel_Start (CheckRuns env inp) p0 = Some (Inr (p1, None)) \<and> meanwhile\<^sup>*\<^sup>* p1 p \<and>
    clusterSentinelCheck env (el_sentinel (sp_election p0)) inp = Inr (s, Some (newcd, prev)) \<and>
    el_sentinel (sp_election p1) = s"
  using assms
proof (induction arbitrary: newcd prev rule: sentinel_run.induct)
  case (step p ev p' w)
  show ?case
  proof (cases "sp_check p = CheckPutting newcd prev \<and> w = None")
    case True
    then have "meanwhile p p'" using step.hyps(2) step.prems unfolding meanwhile_def by auto
    with step.IH True show ?thesis by (meson rtranclp.rtrancl_into_rtrancl)
  next
    case False
    with step.hyps(2) step.prems obtain env inp s where "ev = CheckRuns env inp" "w = None"
      "clusterSentinelCheck env (el_sentinel (sp_election p)) inp = Inr (s, Some (newcd, prev))" "el_sentinel (sp_election p') = s"
      by (cases ev) (auto simp: sentinel_Start_def bindE_eq_Inr split: if_splits check_phase.splits option.splits)
    with step.hyps show ?thesis by blast
  qed
qed simp

text \<open>
  C18. Only a leader writes. In every interleaving of the checks of a sentinel with its election, a call of
  \<^verbatim>\<open>AtomicPutClusterData\<close> is made by a check that has tested for the leadership before, and then computed
  what it puts. If it found cluster data, it puts with the pair that it read, so that the store refuses it if the cluster data has
  changed since; and it made the test while the campaign of this sentinel had won and had not noticed the end of its session, or
  after the sentinel was told to terminate. If it found none, it puts so that an existing one is not overwritten. The test does not
  change whether the sentinel leads, and between the test and the put there are only events of the election and the end of the
  process: the leadership may be lost then, and the put is made all the same.
\<close>

theorem sentinel_writes_leading:
  assumes "sentinel_run p" and "sentinel_Start ev p = Some (Inr (p', Some (newcd, prev)))"
  shows "\<exists>p0 p1 env inp. sentinel_run p0 \<and> sentinel_Start (CheckRuns env inp) p0 = Some (Inr (p1, None)) \<and> meanwhile\<^sup>*\<^sup>* p1 p \<and>
    leads (el_sentinel (sp_election p1)) = leads (el_sentinel (sp_election p0)) \<and>
    (case ci_cd inp of
       Inr (Some (cd, pair)) \<Rightarrow>
         prev = Some pair \<and> (ee_phase (el_election (sp_election p0)) = Leading \<or> el_phase (sp_election p0) = Returned)
     | _ \<Rightarrow> prev = None)"
proof -
  from assms(2) have "sp_check p = CheckPutting newcd prev"
    by (cases ev) (auto simp: sentinel_Start_def bindE_eq_Inr split: if_splits check_phase.splits)
  from putting_tested [OF assms(1) this] obtain p0 p1 env inp s where
    p0: "sentinel_run p0" "sentinel_Start (CheckRuns env inp) p0 = Some (Inr (p1, None))" "meanwhile\<^sup>*\<^sup>* p1 p" and
    s: "clusterSentinelCheck env (el_sentinel (sp_election p0)) inp = Inr (s, Some (newcd, prev))" "el_sentinel (sp_election p1) = s" by blast
  have "prev = Some pair \<and> (ee_phase (el_election (sp_election p0)) = Leading \<or> el_phase (sp_election p0) = Returned)"
    if i: "ci_cd inp = Inr (Some (cd, pair))" for cd pair
  proof -
    obtain s0 kis pis where l: "leaderCheck env s0 cd pair (s_leadershipCount (el_sentinel (sp_election p0))) kis pis = Inr (s, Some (newcd, prev))"
      "s_leader (el_sentinel (sp_election p0))"
      using check_leads [OF i s(1)] by blast
    from leaderCheck_put [OF l(1)] l(2) sentinel_run_inv [OF p0(1)] show ?thesis by (simp add: loop_inv_def Let_def)
  qed
  moreover have "prev = None" if "\<And>cd pair. ci_cd inp \<noteq> Inr (Some (cd, pair))"
    using that s(1) by (auto simp: clusterSentinelCheck_def split: sum.splits option.splits)
  ultimately have "case ci_cd inp of
       Inr (Some (cd, pair)) \<Rightarrow>
         prev = Some pair \<and> (ee_phase (el_election (sp_election p0)) = Leading \<or> el_phase (sp_election p0) = Returned)
     | _ \<Rightarrow> prev = None" by (auto split: sum.splits option.splits)
  with p0 leads_check [OF s(1)] s(2) show ?thesis by blast
qed

section \<open>Example\<close>

text \<open>A sentinel wins the election and then checks.\<close>

definition sentinel_p0 :: SentinelProc where
  "sentinel_p0 = \<lparr>sp_election = \<lparr>el_election = fresh_election, el_sentinel = fresh_sentinel, el_phase = Listening\<rparr>, sp_check = CheckTimer 0, sp_ended = False\<rparr>"

definition sentinel_p :: SentinelProc where
  "sentinel_p = \<lparr>sp_election = \<lparr>el_election = fresh_election\<lparr>ee_phase := Leading\<rparr>, el_sentinel = example_leader, el_phase = Listening\<rparr>,
     sp_check = CheckRunning, sp_ended = False\<rparr>"

lemma sentinel_p0_starts: "sentinel_run sentinel_p0"
proof -
  have "etcdv3_RunForElection \<lparr>ee_running = False, ee_cancelled = False, ee_phase = Ended\<rparr> = Inr fresh_election"
    by (simp add: etcdv3_RunForElection_def fresh_election_def)
  then show ?thesis unfolding sentinel_p0_def by (rule sentinel_run.start) (simp add: fresh_sentinel_def)
qed

lemma sentinel_p_reached: "sentinel_run sentinel_p"
proof -
  let ?p1 = "sentinel_p0\<lparr>sp_election := \<lparr>el_election = fresh_election\<lparr>ee_phase := Connecting\<rparr>, el_sentinel = fresh_sentinel, el_phase = Listening\<rparr>\<rparr>"
  let ?p2 = "sentinel_p0\<lparr>sp_election := \<lparr>el_election = fresh_election\<lparr>ee_phase := Campaigning\<rparr>, el_sentinel = fresh_sentinel, el_phase = Listening\<rparr>\<rparr>"
  let ?p3 = "sentinel_p\<lparr>sp_check := CheckTimer 0\<rparr>"
  have "sentinel_Start (ElectionEvent (CampaignMoves Announce)) sentinel_p0 = Some (Inr (?p1, None))"
    by (simp add: sentinel_Start_def electionLoop_def campaign_def receive_def electionMessage_def sentinel_p0_def fresh_election_def fresh_sentinel_def res_simps)
  note 1 = sentinel_run.step [OF sentinel_p0_starts this]
  have "sentinel_Start (ElectionEvent (CampaignMoves (NewSession (Inr ())))) ?p1 = Some (Inr (?p2, None))"
    by (simp add: sentinel_Start_def electionLoop_def campaign_def receive_def sentinel_p0_def res_simps)
  note 2 = sentinel_run.step [OF 1 this]
  have "sentinel_Start (ElectionEvent (CampaignMoves (Campaign (Inr ())))) ?p2 = Some (Inr (?p3, None))"
    by (simp add: sentinel_Start_def electionLoop_def campaign_def receive_def electionMessage_def sentinel_p0_def sentinel_p_def fresh_sentinel_def
        example_leader_def example_sentinel_def res_simps)
  note 3 = sentinel_run.step [OF 2 this]
  have "sentinel_Start CheckStarts ?p3 = Some (Inr (sentinel_p, None))" by (simp add: sentinel_Start_def sentinel_p_def)
  from sentinel_run.step [OF 3 this] show ?thesis .
qed

text \<open>It loses the session before it puts.\<close>

definition lost_p :: "ClusterData \<Rightarrow> Sentinel \<Rightarrow> SentinelProc" where
  "lost_p newcd s = \<lparr>sp_election = \<lparr>el_election = fresh_election, el_sentinel = electionMessage False s, el_phase = Listening\<rparr>,
     sp_check = CheckPutting newcd (Some example_pair), sp_ended = False\<rparr>"

lemma lost_reached:
  obtains s newcd where "sentinel_run (lost_p newcd s)"
proof -
  have "is_ok (clusterSentinelCheck example_env example_leader example_input) \<and>
      snd (projr (clusterSentinelCheck example_env example_leader example_input)) \<noteq> None" by code_simp
  then obtain s newcd prev where c: "clusterSentinelCheck example_env example_leader example_input = Inr (s, Some (newcd, prev))"
    by (auto simp: is_ok_iff)
  have i: "ci_cd example_input = Inr (Some (example_cd, example_pair))" by (simp add: example_input_def)
  from check_leads [OF i c] obtain s0 kis pis where
    "leaderCheck example_env s0 example_cd example_pair (s_leadershipCount example_leader) kis pis = Inr (s, Some (newcd, prev))" by blast
  then have prev: "prev = Some example_pair" by (rule leaderCheck_put)
  let ?p = "sentinel_p\<lparr>sp_election := (sp_election sentinel_p)\<lparr>el_sentinel := s\<rparr>, sp_check := CheckPutting newcd (Some example_pair)\<rparr>"
  have "sentinel_Start (CheckRuns example_env example_input) sentinel_p = Some (Inr (?p, None))"
    using c prev by (simp add: sentinel_Start_def sentinel_p_def res_simps)
  then have r: "sentinel_run ?p" by (rule sentinel_run.step [OF sentinel_p_reached])
  have "sentinel_Start (ElectionEvent (CampaignMoves SessionDone)) ?p = Some (Inr (lost_p newcd s, None))"
    by (simp add: sentinel_Start_def electionLoop_def campaign_def receive_def sentinel_p_def lost_p_def fresh_election_def res_simps)
  from that [OF sentinel_run.step [OF r this]] show ?thesis .
qed

theorem sentinel_writes_leading_witness:
  "\<exists>p p' newcd p0. sentinel_run p \<and> sentinel_Start CheckPuts p = Some (Inr (p', Some (newcd, Some example_pair))) \<and>
     ee_phase (el_election (sp_election p)) = Starting \<and> sentinel_run p0 \<and>
     (ee_phase (el_election (sp_election p0)) = Leading \<or> el_phase (sp_election p0) = Returned)"
proof -
  obtain s newcd where r: "sentinel_run (lost_p newcd s)" by (rule lost_reached)
  obtain p' where w: "sentinel_Start CheckPuts (lost_p newcd s) = Some (Inr (p', Some (newcd, Some example_pair)))"
    by (simp add: sentinel_Start_def lost_p_def)
  from sentinel_writes_leading [OF r w] obtain p0 and inp :: CheckInput where p0: "sentinel_run p0" and
    c: "case ci_cd inp of Inr (Some (cd, pair)) \<Rightarrow> Some example_pair = Some pair \<and>
         (ee_phase (el_election (sp_election p0)) = Leading \<or> el_phase (sp_election p0) = Returned) | _ \<Rightarrow> Some example_pair = None"
    by blast
  from c have "ee_phase (el_election (sp_election p0)) = Leading \<or> el_phase (sp_election p0) = Returned"
    by (cases "ci_cd inp") (auto split: option.splits)
  moreover note p0
  moreover have "ee_phase (el_election (sp_election (lost_p newcd s))) = Starting" by (simp add: lost_p_def fresh_election_def)
  ultimately show ?thesis using r w by blast
qed

end
