(* ===== verification/Actions.thy ===== *)
theory Actions
  imports Prelude
begin

text \<open>
  Sequences of calls with state and errors, the form of the code of the postgres manager and of the keeper: an action takes a
  state to a new state and a result, and an error ends a sequence of actions. The second part is a calculus for such
  sequences, with a postcondition for the normal end and one for the end with an error.
\<close>

section \<open>Actions\<close>

type_synonym ('s, 'a) act = "'s \<Rightarrow> 's \<times> 'a res"

definition returnA :: "'a \<Rightarrow> ('s, 'a) act" where
  "returnA x s = (s, Inr x)"

definition failA :: "string \<Rightarrow> ('s, 'a) act" where
  "failA e s = (s, Inl (Error e))"

definition bindA :: "('s, 'a) act \<Rightarrow> ('a \<Rightarrow> ('s, 'b) act) \<Rightarrow> ('s, 'b) act" where
  "bindA m f s = (case m s of (s', Inl e) \<Rightarrow> (s', Inl e) | (s', Inr x) \<Rightarrow> f x s')"

definition thenA :: "('s, 'a) act \<Rightarrow> ('s, 'b) act \<Rightarrow> ('s, 'b) act" where
  "thenA m m' = bindA m (\<lambda>_. m')"

text \<open>The result as a value, for code that goes on after an error.\<close>

definition tryA :: "('s, 'a) act \<Rightarrow> ('a res \<Rightarrow> ('s, 'b) act) \<Rightarrow> ('s, 'b) act" where
  "tryA m f s = (case m s of (s', r) \<Rightarrow> f r s')"

definition getA :: "('s \<Rightarrow> 'a res) \<Rightarrow> ('s, 'a) act" where
  "getA f s = (s, f s)"

definition modA :: "('s \<Rightarrow> 's) \<Rightarrow> ('s, unit) act" where
  "modA f s = (f s, Inr ())"

definition whenA :: "bool \<Rightarrow> ('s, unit) act \<Rightarrow> ('s, unit) act" where
  "whenA b m = (if b then m else returnA ())"

lemmas act_defs = returnA_def failA_def bindA_def thenA_def tryA_def getA_def modA_def whenA_def

section \<open>The successful end of a sequence\<close>

lemma bindA_Inr: "bindA a f s = (s', Inr x) \<longleftrightarrow> (\<exists>s1 y. a s = (s1, Inr y) \<and> f y s1 = (s', Inr x))"
  by (auto simp: bindA_def split: prod.splits sum.splits)

lemma thenA_Inr: "thenA a b s = (s', Inr x) \<longleftrightarrow> (\<exists>s1 y. a s = (s1, Inr y) \<and> b s1 = (s', Inr x))"
  by (simp add: thenA_def bindA_Inr)

lemma tryA_Inr: "tryA a f s = (s', Inr x) \<longleftrightarrow> (\<exists>s1 r. a s = (s1, r) \<and> f r s1 = (s', Inr x))"
  by (auto simp: tryA_def split: prod.splits)

lemma tryA_case_Inr:
  "tryA a (\<lambda>r. case r of Inl e \<Rightarrow> f e | Inr y \<Rightarrow> g y) s = (s', Inr x) \<longleftrightarrow>
     (\<exists>s1 e. a s = (s1, Inl e) \<and> f e s1 = (s', Inr x)) \<or> (\<exists>s1 y. a s = (s1, Inr y) \<and> g y s1 = (s', Inr x))"
proof (cases "a s")
  case (Pair s1 r)
  then show ?thesis by (cases r) (simp_all add: tryA_def)
qed

lemma bindA_first: "a s = (s1, Inr x) \<Longrightarrow> bindA a f s = f x s1"
  by (simp add: bindA_def)

lemma thenA_skip: "thenA (whenA False a) b = b"
  by (rule ext) (simp add: thenA_def bindA_def whenA_def returnA_def)

section \<open>A calculus of actions\<close>

text \<open>
  \<open>runs P a Q E\<close>: from a state with \<open>P\<close> the action ends normally with \<open>Q\<close> or with an error in
  a state with \<open>E\<close>.
\<close>

definition runs :: "('s \<Rightarrow> bool) \<Rightarrow> ('s, 'a) act \<Rightarrow> ('a \<Rightarrow> 's \<Rightarrow> bool) \<Rightarrow> ('s \<Rightarrow> bool) \<Rightarrow> bool" where
  "runs P a Q E \<longleftrightarrow> (\<forall>s. P s \<longrightarrow> (case a s of (s', Inr x) \<Rightarrow> Q x s' | (s', Inl e) \<Rightarrow> E s'))"

named_theorems runs_intro

lemma runsD: "runs P a Q E \<Longrightarrow> P s \<Longrightarrow> a s = (s', r) \<Longrightarrow> (case r of Inr x \<Rightarrow> Q x s' | Inl e \<Rightarrow> E s')"
  by (auto simp: runs_def split: sum.splits)

lemma runs_bindA [runs_intro]: "runs P a R E \<Longrightarrow> (\<And>x. runs (R x) (f x) Q E) \<Longrightarrow> runs P (bindA a f) Q E"
  unfolding runs_def bindA_def by (fastforce split: prod.splits sum.splits)

lemma runs_thenA [runs_intro]: "runs P a (\<lambda>_. R) E \<Longrightarrow> runs R b Q E \<Longrightarrow> runs P (thenA a b) Q E"
  unfolding thenA_def by (rule runs_bindA)

lemma runs_tryA: "runs P a (\<lambda>_. R) R \<Longrightarrow> (\<And>r. runs R (f r) Q E) \<Longrightarrow> runs P (tryA a f) Q E"
  unfolding runs_def tryA_def by (fastforce split: prod.splits sum.splits)

lemma runs_whenA: "(b \<Longrightarrow> runs P a (\<lambda>_. Q) E) \<Longrightarrow> (\<not> b \<Longrightarrow> (\<And>s. P s \<Longrightarrow> Q s)) \<Longrightarrow> runs P (whenA b a) (\<lambda>_. Q) E"
  by (auto simp: runs_def whenA_def returnA_def)

lemma runs_failA: "(\<And>s. P s \<Longrightarrow> E s) \<Longrightarrow> runs P (failA e) Q E"
  by (simp add: runs_def failA_def)

lemma runs_returnA: "(\<And>s. P s \<Longrightarrow> Q x s) \<Longrightarrow> runs P (returnA x) Q E"
  by (simp add: runs_def returnA_def)

lemma runs_at: "(\<And>k. P k \<Longrightarrow> runs (\<lambda>s. s = k) (\<lambda>_. a k k) Q E) \<Longrightarrow> runs P (\<lambda>s. a s s) Q E"
  by (simp add: runs_def)

lemma runs_weaken: "runs P' a Q' E' \<Longrightarrow> (\<And>s. P s \<Longrightarrow> P' s) \<Longrightarrow> (\<And>x s. Q' x s \<Longrightarrow> Q x s) \<Longrightarrow> (\<And>s. E' s \<Longrightarrow> E s) \<Longrightarrow> runs P a Q E"
  unfolding runs_def by (fastforce split: prod.splits sum.splits)

lemma runs_success:
  assumes "runs P a Q (\<lambda>_. False)" "P s"
  shows "\<exists>s' x. a s = (s', Inr x)"
proof -
  obtain s' r where "a s = (s', r)" by fastforce
  with assms show ?thesis by (cases r) (auto simp: runs_def)
qed

end
