(* ===== verification/Manager.thy ===== *)
theory Manager
  imports Actions Connstring Pgutils Store
begin

text \<open>
  \<^verbatim>\<open>internal/postgresql/postgresql.go\<close>: the manager of a postgres instance. What the manager does is run
  programs, read and write files and send SQL; these calls are the fields of the record \<open>Host\<close>, a parameter, over an
  abstract state of the machine. Everything the manager decides (the arguments, the order of the calls, what it does on errors, the
  contents of the configuration files, the current and the wanted parameters) is modelled.
\<close>

section \<open>The machine\<close>

text \<open>\<^verbatim>\<open>pg_ctl status\<close>: the exit status, or that it could not be run.\<close>

datatype ExitStatus = Exited nat | NotRun string

text \<open>
  \<open>os_Spawn\<close> starts a process and returns its pid, \<open>os_Exited\<close> says if it has ended;
  \<open>os_FirstLine\<close> fails when the file cannot be opened; \<open>os_Remove\<close> and \<open>os_RemoveAll\<close> do not
  fail on a missing file; \<open>os_TempFile\<close> creates a temporary file with a content and returns its name;
  \<open>os_order\<close> is the order in which maps are iterated.
\<close>

record 'w Host =
  os_Run :: "string list \<Rightarrow> 'w \<Rightarrow> 'w \<times> unit res"
  os_Output :: "string list \<Rightarrow> 'w \<Rightarrow> string res"
  os_Status :: "string list \<Rightarrow> 'w \<Rightarrow> ExitStatus"
  os_Spawn :: "string list \<Rightarrow> 'w \<Rightarrow> 'w \<times> nat res"
  os_Exited :: "nat \<Rightarrow> 'w \<Rightarrow> bool"
  os_Exists :: "string \<Rightarrow> 'w \<Rightarrow> bool res"
  os_Size :: "string \<Rightarrow> 'w \<Rightarrow> nat res"
  os_WriteFile :: "string \<Rightarrow> string \<Rightarrow> 'w \<Rightarrow> 'w \<times> unit res"
  os_Remove :: "string \<Rightarrow> 'w \<Rightarrow> 'w \<times> unit res"
  os_RemoveAll :: "string \<Rightarrow> 'w \<Rightarrow> 'w \<times> unit res"
  os_MkdirAll :: "string \<Rightarrow> 'w \<Rightarrow> 'w \<times> unit res"
  os_Symlink :: "string \<Rightarrow> string \<Rightarrow> 'w \<Rightarrow> 'w \<times> unit res"
  os_TempFile :: "string \<Rightarrow> string \<Rightarrow> 'w \<Rightarrow> 'w \<times> string res"
  os_ReadDir :: "string \<Rightarrow> 'w \<Rightarrow> string list res"
  os_FirstLine :: "string \<Rightarrow> 'w \<Rightarrow> string res"
  os_ReadFile :: "string \<Rightarrow> 'w \<Rightarrow> string res"
  os_Now :: "'w \<Rightarrow> gotime"
  os_Sleep :: "duration \<Rightarrow> 'w \<Rightarrow> 'w"
  os_order :: iter_order
  sql_Exec :: "string \<Rightarrow> string \<Rightarrow> 'w \<Rightarrow> 'w \<times> unit res"
  sql_Query :: "string \<Rightarrow> string \<Rightarrow> 'w \<Rightarrow> string list list res"

section \<open>The manager\<close>

record 'w Manager =
  mg_pgBinPath :: string
  mg_dataDir :: string
  mg_parameters :: PGParameters
  mg_recoveryParameters :: PGParameters
  mg_hba :: "string slice"
  mg_curParameters :: PGParameters
  mg_curRecoveryParameters :: PGParameters
  mg_curHba :: "string slice"
  mg_localConnParams :: ConnParams
  mg_replConnParams :: ConnParams
  mg_suAuthMethod :: string
  mg_suUsername :: string
  mg_suPassword :: string
  mg_replAuthMethod :: string
  mg_replUsername :: string
  mg_replPassword :: string
  mg_requestTimeout :: duration
  mg_machine :: 'w

definition NewManager ::
  "string \<Rightarrow> string \<Rightarrow> ConnParams \<Rightarrow> ConnParams \<Rightarrow> string \<Rightarrow> string \<Rightarrow> string \<Rightarrow> string \<Rightarrow> string \<Rightarrow> string \<Rightarrow> duration \<Rightarrow> 'w \<Rightarrow> 'w Manager" where
  "NewManager pgBinPath dataDir localConnParams replConnParams suAuthMethod suUsername suPassword replAuthMethod replUsername replPassword requestTimeout w =
     \<lparr>mg_pgBinPath = pgBinPath, mg_dataDir = Join [dataDir, ''postgres''], mg_parameters = Some fmempty, mg_recoveryParameters = Some fmempty,
      mg_hba = None, mg_curParameters = Some fmempty, mg_curRecoveryParameters = Some fmempty, mg_curHba = None,
      mg_localConnParams = localConnParams, mg_replConnParams = replConnParams,
      mg_suAuthMethod = suAuthMethod, mg_suUsername = suUsername, mg_suPassword = suPassword,
      mg_replAuthMethod = replAuthMethod, mg_replUsername = replUsername, mg_replPassword = replPassword,
      mg_requestTimeout = requestTimeout, mg_machine = w\<rparr>"

type_synonym ('w, 'a) pgact = "('w Manager, 'a) act"

definition onHost :: "('w \<Rightarrow> 'w \<times> 'a res) \<Rightarrow> ('w, 'a) pgact" where
  "onHost f m = (case f (mg_machine m) of (w, r) \<Rightarrow> (m\<lparr>mg_machine := w\<rparr>, r))"

definition askHost :: "('w \<Rightarrow> 'a res) \<Rightarrow> ('w, 'a) pgact" where
  "askHost f m = (m, f (mg_machine m))"

definition inDataDir :: "'w Manager \<Rightarrow> string \<Rightarrow> string" where
  "inDataDir m f = Join [mg_dataDir m, f]"

definition binary :: "'w Manager \<Rightarrow> string \<Rightarrow> string" where
  "binary m f = Join [mg_pgBinPath m, f]"

definition SetParameters :: "PGParameters \<Rightarrow> 'w Manager \<Rightarrow> 'w Manager" where
  "SetParameters ps m = m\<lparr>mg_parameters := ps\<rparr>"

definition SetRecoveryParameters :: "PGParameters \<Rightarrow> 'w Manager \<Rightarrow> 'w Manager" where
  "SetRecoveryParameters ps m = m\<lparr>mg_recoveryParameters := ps\<rparr>"

definition SetHba :: "string slice \<Rightarrow> 'w Manager \<Rightarrow> 'w Manager" where
  "SetHba hba m = m\<lparr>mg_hba := hba\<rparr>"

text \<open>
  \<^verbatim>\<open>UpdateCurParameters\<close>, \<^verbatim>\<open>UpdateCurRecoveryParameters\<close> and
  \<^verbatim>\<open>UpdateCurHba\<close>, always called together.
\<close>

definition UpdateCur :: "'w Manager \<Rightarrow> 'w Manager" where
  "UpdateCur m = m\<lparr>mg_curParameters := mg_parameters m,
     mg_curRecoveryParameters := mg_recoveryParameters m, mg_curHba := mg_hba m\<rparr>"

section \<open>Configuration files\<close>

definition double_quotes :: "string \<Rightarrow> string" where
  "double_quotes v = concat (map (\<lambda>c. if c = CHR 39 then [CHR 39, CHR 39] else [c]) v)"

definition conf_line :: "string \<Rightarrow> string \<Rightarrow> string" where
  "conf_line k ev = k @ '' = '' @ [CHR 39] @ ev @ [CHR 39, CHR 0x0A]"

definition params :: "PGParameters \<Rightarrow> (string, string) fmap" where
  "params ps = (case ps of None \<Rightarrow> fmempty | Some m \<Rightarrow> m)"

definition conf_text :: "iter_order \<Rightarrow> PGParameters \<Rightarrow> string" where
  "conf_text ord ps = concat (map (\<lambda>(k, v). conf_line k (double_quotes v)) (range_by ord (params ps)))"

text \<open>The values of \<^verbatim>\<open>recovery.conf\<close> are written without doubling the quotes.\<close>

definition recovery_text :: "iter_order \<Rightarrow> PGParameters \<Rightarrow> string" where
  "recovery_text ord ps = concat (map (\<lambda>(k, v). conf_line k v) (range_by ord (params ps)))"

definition writeConf :: "'w Host \<Rightarrow> ('w, unit) pgact" where
  "writeConf h m = onHost (os_WriteFile h (inDataDir m ''postgresql.conf'') (conf_text (os_order h) (mg_parameters m))) m"

definition writeRecoveryConf :: "'w Host \<Rightarrow> ('w, unit) pgact" where
  "writeRecoveryConf h m =
     (if params (mg_recoveryParameters m) = fmempty then returnA () m
      else onHost (os_WriteFile h (inDataDir m ''recovery.conf'') (recovery_text (os_order h) (mg_recoveryParameters m))) m)"

definition writePgHba :: "'w Host \<Rightarrow> ('w, unit) pgact" where
  "writePgHba h m =
     onHost (os_WriteFile h (inDataDir m ''pg_hba.conf'') (concat (map (\<lambda>e. e @ [CHR 0x0A]) (elems (mg_hba m))))) m"

definition writeConfs :: "'w Host \<Rightarrow> ('w, unit) pgact" where
  "writeConfs h = thenA (writeConf h) (thenA (writePgHba h) (writeRecoveryConf h))"

definition createPostgresqlAutoConf :: "'w Host \<Rightarrow> ('w, unit) pgact" where
  "createPostgresqlAutoConf h m =
     thenA (onHost (os_Remove h (inDataDir m ''postgresql.auto.conf'')))
       (onHost (os_Symlink h ''/dev/null'' (inDataDir m ''postgresql.auto.conf''))) m"

section \<open>Starting and stopping\<close>

definition socketDirArg :: string where
  "socketDirArg = ''-c unix_socket_directories=/tmp''"

definition Stop :: "'w Host \<Rightarrow> bool \<Rightarrow> ('w, unit) pgact" where
  "Stop h fast m =
     onHost (os_Run h ([binary m ''pg_ctl'', ''stop'', ''-w'', ''-D'', mg_dataDir m, ''-o'', socketDirArg] @ (if fast then [''-m'', ''fast''] else []))) m"

definition ErrUnknownState :: go_error where
  "ErrUnknownState = Error ''unknown postgres state''"

definition IsStarted :: "'w Host \<Rightarrow> ('w, bool) pgact" where
  "IsStarted h m =
     (m, case os_Status h [binary m ''pg_ctl'', ''status'', ''-D'', mg_dataDir m, ''-o'', socketDirArg] (mg_machine m) of
           Exited n \<Rightarrow>
             if n = 0 then Inr True
             else if n = 3 then Inr False
             else if n = 4 then Inl ErrUnknownState
             else Inl (Error ''cannot get instance state'')
         | NotRun _ \<Rightarrow> Inl (Error ''cannot get instance state''))"

definition Reload :: "'w Host \<Rightarrow> ('w, unit) pgact" where
  "Reload h m =
     thenA (writeConfs h)
     (thenA (onHost (os_Run h [binary m ''pg_ctl'', ''reload'', ''-D'', mg_dataDir m, ''-o'', socketDirArg]))
        (modA UpdateCur)) m"

definition StopIfStarted :: "'w Host \<Rightarrow> bool \<Rightarrow> ('w, unit) pgact" where
  "StopIfStarted h fast =
     tryA (IsStarted h) (\<lambda>r. case r of
        Inl e \<Rightarrow> if e = ErrUnknownState then returnA () else (\<lambda>m. (m, Inl e))
      | Inr started \<Rightarrow>
          if \<not> started then returnA ()
          else
            thenA (Stop h fast)
            (bindA (IsStarted h) (\<lambda>started. if started then failA ''failed to stop'' else returnA ())))"

definition Promote :: "'w Host \<Rightarrow> ('w, unit) pgact" where
  "Promote h m = onHost (os_Run h [binary m ''pg_ctl'', ''promote'', ''-w'', ''-D'', mg_dataDir m]) m"

text \<open>
  The waiting loops: \<open>p\<close> is asked until it gives an answer or the time is over. They run on fuel; enough of it is given
  by the timeout and the length of a sleep, which the clock of the machine must respect.
\<close>

fun waitLoop :: "'w Host \<Rightarrow> duration \<Rightarrow> duration \<Rightarrow> ('w, unit res option) pgact \<Rightarrow> nat \<Rightarrow> gotime \<Rightarrow> 'w Manager \<Rightarrow> ('w Manager \<times> unit res option) option" where
  "waitLoop h timeout interval p 0 t0 m = None"
| "waitLoop h timeout interval p (Suc n) t0 m =
     (if os_Now h (mg_machine m) - timeout < t0 then
        (case p m of
           (m, Inr None) \<Rightarrow> waitLoop h timeout interval p n t0 (m\<lparr>mg_machine := os_Sleep h interval (mg_machine m)\<rparr>)
         | (m, Inr (Some r)) \<Rightarrow> Some (m, Some r)
         | (m, Inl e) \<Rightarrow> Some (m, Some (Inl e)))
      else Some (m, None))"

definition waitFuel :: "duration \<Rightarrow> duration \<Rightarrow> nat" where
  "waitFuel timeout interval = Suc (Suc (nat (timeout div interval)))"

definition waitFor :: "'w Host \<Rightarrow> duration \<Rightarrow> duration \<Rightarrow> string \<Rightarrow> ('w, unit res option) pgact \<Rightarrow> ('w, unit) pgact" where
  "waitFor h timeout interval msg p m =
     (case waitLoop h timeout interval p (waitFuel timeout interval) (os_Now h (mg_machine m)) m of
        None \<Rightarrow> (m, Inl (Panic ''out of fuel''))
      | Some (m, None) \<Rightarrow> (m, Inl (Error msg))
      | Some (m, Some r) \<Rightarrow> (m, r))"

text \<open>Start the server and wait for its pid file to appear, for the process to end or for the time to be over.\<close>

definition startTimeout :: duration where
  "startTimeout = 60 * second"

definition start :: "'w Host \<Rightarrow> string list \<Rightarrow> ('w, unit) pgact" where
  "start h args m =
     thenA (createPostgresqlAutoConf h)
     (bindA (onHost (os_Spawn h ([binary m ''postgres'', ''-D'', mg_dataDir m, ''-c'', ''unix_socket_directories=/tmp''] @ args))) (\<lambda>pid.
      thenA (waitFor h startTimeout (second div 5) ''instance still starting''
        (\<lambda>m. (m, if os_FirstLine h (inDataDir m ''postmaster.pid'') (mg_machine m) = Inr (print_nat 10 pid) then Inr (Some (Inr ()))
                   else if os_Exited h pid (mg_machine m) then Inl (Error ''postgres exited unexpectedly'')
                   else Inr None)))
        (modA UpdateCur))) m"

definition StartTmpMerged :: "'w Host \<Rightarrow> ('w, unit) pgact" where
  "StartTmpMerged h m =
     (let tmp = inDataDir m ''stolon-temp-postgresql.conf''
      in bindA (askHost (os_Exists h (inDataDir m ''postgresql.conf''))) (\<lambda>exists.
         thenA (onHost (os_WriteFile h tmp
           ((if exists then ''include '' @ [CHR 39] @ ''postgresql.conf'' @ [CHR 39, CHR 0x0A] else '''') @ conf_text (os_order h) (mg_parameters m))))
         (thenA (writePgHba h) (thenA (writeRecoveryConf h) (start h [''-c'', ''config_file='' @ tmp])))) m)"

definition Start :: "'w Host \<Rightarrow> ('w, unit) pgact" where
  "Start h = thenA (writeConfs h) (start h [])"

definition Restart :: "'w Host \<Rightarrow> bool \<Rightarrow> ('w, unit) pgact" where
  "Restart h fast = thenA (StopIfStarted h fast) (Start h)"

definition ping :: "'w Host \<Rightarrow> ('w, unit) pgact" where
  "ping h m = onHost (sql_Exec h (ConnString (mg_localConnParams m)) ''select 1'') m"

definition Ping :: "'w Host \<Rightarrow> ('w, unit) pgact" where
  "Ping h = ping h"

definition WaitReady :: "'w Host \<Rightarrow> duration \<Rightarrow> ('w, unit) pgact" where
  "WaitReady h timeout =
     waitFor h timeout (second div 5) ''timeout waiting for db ready''
       (tryA (Ping h) (\<lambda>r. returnA (case r of Inr _ \<Rightarrow> Some (Inr ()) | Inl _ \<Rightarrow> None)))"

definition WaitRecoveryDone :: "'w Host \<Rightarrow> duration \<Rightarrow> ('w, unit) pgact" where
  "WaitRecoveryDone h timeout =
     waitFor h timeout second ''timeout waiting for db recovery''
       (\<lambda>m. (m, case os_Exists h (inDataDir m ''recovery.done'') (mg_machine m) of
                  Inl e \<Rightarrow> Inr (Some (Inl e))
                | Inr done \<Rightarrow> Inr (if done then Some (Inr ()) else None)))"

section \<open>The data directory\<close>

definition PGDataVersion :: "'w Host \<Rightarrow> ('w, int \<times> int) pgact" where
  "PGDataVersion h m =
     (m, case os_FirstLine h (inDataDir m ''PG_VERSION'') (mg_machine m) of
           Inl _ \<Rightarrow> Inl (Error ''failed to read PG_VERSION'')
         | Inr v \<Rightarrow> ParseVersion v)"

fun allExist :: "'w Host \<Rightarrow> string list \<Rightarrow> ('w, bool) pgact" where
  "allExist h [] = returnA True"
| "allExist h (f # fs) =
     bindA (\<lambda>m. askHost (os_Exists h (inDataDir m f)) m) (\<lambda>exists. if exists then allExist h fs else returnA False)"

definition requiredFiles :: "int \<Rightarrow> string list" where
  "requiredFiles maj =
     [''PG_VERSION'', ''base'', ''global'', ''pg_dynshmem'', ''pg_logical'', ''pg_multixact'', ''pg_notify'', ''pg_replslot'',
      ''pg_serial'', ''pg_snapshots'', ''pg_stat'', ''pg_stat_tmp'', ''pg_subtrans'', ''pg_tblspc'', ''pg_twophase'',
      ''global/pg_control''] @
     (if maj < 10 then [''pg_clog'', ''pg_xlog''] else [''pg_xact'', ''pg_wal''])"

definition IsInitialized :: "'w Host \<Rightarrow> ('w, bool) pgact" where
  "IsInitialized h =
     bindA (\<lambda>m. askHost (os_Exists h (inDataDir m ''PG_VERSION'')) m) (\<lambda>exists.
       if \<not> exists then returnA False
       else bindA (PGDataVersion h) (\<lambda>(maj, _). allExist h (requiredFiles maj)))"

definition GetRole :: "'w Host \<Rightarrow> ('w, Role) pgact" where
  "GetRole h m =
     (m, case os_Exists h (inDataDir m ''recovery.conf'') (mg_machine m) of
           Inl _ \<Rightarrow> Inl (Error ''error determining if recovery.conf exists'')
         | Inr exists \<Rightarrow> Inr (if exists then RoleStandby else RoleMaster))"

text \<open>The first eight bytes of the control file, little endian.\<close>

definition GetSystemdID :: "'w Host \<Rightarrow> ('w, string) pgact" where
  "GetSystemdID h m =
     (m, case os_ReadFile h (Join [mg_dataDir m, ''global'', ''pg_control'']) (mg_machine m) of
           Inl e \<Rightarrow> Inl e
         | Inr bytes \<Rightarrow>
             if length bytes < 8 then Inl (Error ''unexpected EOF'')
             else Inr (print_nat 10 (foldr (\<lambda>c n. of_char c + 256 * n) (take 8 bytes) 0)))"

definition RemoveAll :: "'w Host \<Rightarrow> ('w, unit) pgact" where
  "RemoveAll h =
     bindA (IsInitialized h) (\<lambda>initialized.
     bindA (if initialized then IsStarted h else returnA False) (\<lambda>started.
       if started then failA ''cannot remove postregsql database. Instance is active''
       else (\<lambda>m. onHost (os_RemoveAll h (mg_dataDir m)) m)))"

text \<open>Remove the data directory on an error, so that no half initialized database is left.\<close>

definition cleanOnError :: "'w Host \<Rightarrow> ('w, unit) pgact \<Rightarrow> ('w, unit) pgact" where
  "cleanOnError h a =
     tryA a (\<lambda>r. case r of
        Inr _ \<Rightarrow> returnA ()
      | Inl e \<Rightarrow> tryA (\<lambda>m. onHost (os_RemoveAll h (mg_dataDir m)) m) (\<lambda>_ m. (m, Inl e)))"

text \<open>Run an action with a temporary file, which is removed afterwards.\<close>

definition withTempFile :: "'w Host \<Rightarrow> string \<Rightarrow> string \<Rightarrow> (string \<Rightarrow> ('w, 'a) pgact) \<Rightarrow> ('w, 'a) pgact" where
  "withTempFile h name content f =
     bindA (onHost (os_TempFile h name content)) (\<lambda>file.
     tryA (f file) (\<lambda>r. tryA (onHost (os_Remove h file)) (\<lambda>_ m. (m, r))))"

definition Init :: "'w Host \<Rightarrow> NewConfig \<Rightarrow> ('w, unit) pgact" where
  "Init h initConfig m =
     withTempFile h ''pwfile'' (mg_suPassword m) (\<lambda>pwfile.
       cleanOnError h (onHost (os_Run h
         ([binary m ''initdb'', ''-D'', mg_dataDir m, ''-U'', mg_suUsername m] @
          (if mg_suAuthMethod m = ''md5'' then [''--pwfile'', pwfile] else []) @
          (if nc_Locale initConfig \<noteq> '''' then [''--locale'', nc_Locale initConfig] else []) @
          (if nc_Encoding initConfig \<noteq> '''' then [''--encoding'', nc_Encoding initConfig] else []) @
          (if nc_DataChecksums initConfig then [''--data-checksums''] else []))))) m"

definition Restore :: "'w Host \<Rightarrow> string \<Rightarrow> ('w, unit) pgact" where
  "Restore h command m =
     cleanOnError h
       (thenA (onHost (os_MkdirAll h (mg_dataDir m)))
         (onHost (os_Run h [''/bin/sh'', ''-c'', expand (mg_dataDir m) command]))) m"

definition pgpassLine :: "ConnParams \<Rightarrow> string \<Rightarrow> string" where
  "pgpassLine cp password =
     ConnParams_Get cp ''host'' @ '':'' @ ConnParams_Get cp ''port'' @ '':*:'' @ ConnParams_Get cp ''user'' @ '':'' @ password @ [CHR 0x0A]"

definition SyncFromFollowedPGRewind :: "'w Host \<Rightarrow> ConnParams \<Rightarrow> string \<Rightarrow> ('w, unit) pgact" where
  "SyncFromFollowedPGRewind h followedConnParams password m =
     thenA (onHost (os_Remove h (inDataDir m ''postgresql.auto.conf'')))
     (withTempFile h ''pgpass'' (pgpassLine followedConnParams password) (\<lambda>pgpass.
       onHost (os_Run h
         [''PGPASSFILE='' @ pgpass, binary m ''pg_rewind'', ''--debug'', ''-D'', mg_dataDir m,
          ''--source-server='' @ ConnString (ConnParams_Set ''options'' ''-c synchronous_commit=off'' followedConnParams)]))) m"

definition SyncFromFollowed :: "'w Host \<Rightarrow> ConnParams \<Rightarrow> string \<Rightarrow> ('w, unit) pgact" where
  "SyncFromFollowed h followedConnParams replSlot m =
     (let fcp = ConnParams_Set ''options'' ''-c synchronous_commit=off'' (ConnParams_Del ''password'' followedConnParams)
      in withTempFile h ''pgpass'' (pgpassLine followedConnParams (ConnParams_Get followedConnParams ''password'')) (\<lambda>pgpass.
           onHost (os_Run h
             ([''PGPASSFILE='' @ pgpass, binary m ''pg_basebackup'', ''-R'', ''-Xs'', ''-D'', mg_dataDir m, ''-d'', ConnString fcp] @
              (if replSlot \<noteq> '''' then [''--slot'', replSlot] else [])))) m)"

text \<open>The first WAL file by name; the directory entries are sorted before the search.\<close>

definition OlderWalFile :: "'w Host \<Rightarrow> ('w, string) pgact" where
  "OlderWalFile h =
     bindA (PGDataVersion h) (\<lambda>(maj, _) m.
       let walDir = (if maj < 10 then ''pg_xlog'' else ''pg_wal'')
       in bindA (askHost (os_ReadDir h (inDataDir m walDir))) (\<lambda>names.
            case find IsWalFileName (sort names) of
              None \<Rightarrow> returnA ''''
            | Some name \<Rightarrow>
                bindA (askHost (os_Size h (Join [mg_dataDir m, walDir, name]))) (\<lambda>size.
                  if size \<noteq> unat WalSegSize then failA ''wal file has unsupported size'' else returnA name)) m)"

section \<open>SQL\<close>

definition execLocal :: "'w Host \<Rightarrow> string \<Rightarrow> ('w, unit) pgact" where
  "execLocal h q m = onHost (sql_Exec h (ConnString (mg_localConnParams m)) q) m"

definition queryLocal :: "'w Host \<Rightarrow> string \<Rightarrow> ('w, string list list) pgact" where
  "queryLocal h q m = (m, sql_Query h (ConnString (mg_localConnParams m)) q (mg_machine m))"

definition quoted :: "string \<Rightarrow> string" where
  "quoted s = [CHR 39] @ s @ [CHR 39]"

definition dquoted :: "string \<Rightarrow> string" where
  "dquoted s = [CHR 34] @ s @ [CHR 34]"

definition setPassword :: "'w Host \<Rightarrow> string \<Rightarrow> string \<Rightarrow> ('w, unit) pgact" where
  "setPassword h username password = execLocal h (''alter role '' @ username @ '' with password '' @ quoted password @ '';'')"

definition createRole :: "'w Host \<Rightarrow> string \<Rightarrow> string \<Rightarrow> ('w, unit) pgact" where
  "createRole h username password =
     execLocal h (''create role '' @ dquoted username @ '' with login replication encrypted password '' @ quoted password @ '';'')"

definition createPasswordlessRole :: "'w Host \<Rightarrow> string \<Rightarrow> ('w, unit) pgact" where
  "createPasswordlessRole h username = execLocal h (''create role '' @ dquoted username @ '' with login replication;'')"

definition alterRole :: "'w Host \<Rightarrow> string \<Rightarrow> string \<Rightarrow> ('w, unit) pgact" where
  "alterRole h username password =
     execLocal h (''alter role '' @ dquoted username @ '' with login replication encrypted password '' @ quoted password @ '';'')"

definition alterPasswordlessRole :: "'w Host \<Rightarrow> string \<Rightarrow> ('w, unit) pgact" where
  "alterPasswordlessRole h username = execLocal h (''alter role '' @ dquoted username @ '' with login replication;'')"

definition SetupRoles :: "'w Host \<Rightarrow> ('w, unit) pgact" where
  "SetupRoles h m =
     (if mg_suUsername m = mg_replUsername m then
        (if mg_suAuthMethod m = ''trust''
         then alterPasswordlessRole h (mg_suUsername m)
         else alterRole h (mg_suUsername m) (mg_suPassword m)) m
      else
        thenA
          (whenA (mg_suAuthMethod m \<noteq> ''trust'' \<and> mg_suPassword m \<noteq> '''')
             (setPassword h (mg_suUsername m) (mg_suPassword m)))
          (if mg_replAuthMethod m \<noteq> ''trust''
           then createRole h (mg_replUsername m) (mg_replPassword m)
           else createPasswordlessRole h (mg_replUsername m)) m)"

definition getSyncStandbys :: "'w Host \<Rightarrow> ('w, string list) pgact" where
  "getSyncStandbys h =
     bindA (queryLocal h ''select application_name, sync_state from pg_stat_replication'') (\<lambda>rows.
     getA (\<lambda>_.
       bindE (mapE (\<lambda>row. case row of [applicationName, syncState] \<Rightarrow> Inr (applicationName, syncState) | _ \<Rightarrow> Inl (Error ''scan error'')) rows)
         (\<lambda>ps. Inr (map fst (filter (\<lambda>(_, syncState). syncState = ''sync'') ps)))))"

definition GetSyncStandbys :: "'w Host \<Rightarrow> ('w, string list) pgact" where
  "GetSyncStandbys h = getSyncStandbys h"

definition getReplicationSlots :: "int \<Rightarrow> 'w Host \<Rightarrow> ('w, string list) pgact" where
  "getReplicationSlots maj h =
     bindA (queryLocal h (if maj < 10 then ''select slot_name from pg_replication_slots''
                          else ''select slot_name from pg_replication_slots where temporary is false'')) (\<lambda>rows.
       getA (\<lambda>_. mapE (\<lambda>row. case row of [slotName] \<Rightarrow> Inr slotName | _ \<Rightarrow> Inl (Error ''scan error'')) rows))"

definition GetReplicationSlots :: "'w Host \<Rightarrow> ('w, string list) pgact" where
  "GetReplicationSlots h = bindA (PGDataVersion h) (\<lambda>(maj, _). getReplicationSlots maj h)"

definition createReplicationSlot :: "'w Host \<Rightarrow> string \<Rightarrow> ('w, unit) pgact" where
  "createReplicationSlot h name = execLocal h (''select pg_create_physical_replication_slot('' @ quoted name @ '')'')"

definition CreateReplicationSlot :: "'w Host \<Rightarrow> string \<Rightarrow> ('w, unit) pgact" where
  "CreateReplicationSlot h name = createReplicationSlot h name"

definition dropReplicationSlot :: "'w Host \<Rightarrow> string \<Rightarrow> ('w, unit) pgact" where
  "dropReplicationSlot h name = execLocal h (''select pg_drop_replication_slot('' @ quoted name @ '')'')"

definition DropReplicationSlot :: "'w Host \<Rightarrow> string \<Rightarrow> ('w, unit) pgact" where
  "DropReplicationSlot h name = dropReplicationSlot h name"

definition BinaryVersion :: "'w Host \<Rightarrow> ('w, int \<times> int) pgact" where
  "BinaryVersion h m = (m, bindE (os_Output h [binary m ''postgres'', ''-V''] (mg_machine m)) ParseBinaryVersion)"

record SystemData =
  sd_SystemID :: string
  sd_TimelineID :: uint64
  sd_XLogPos :: uint64

text \<open>A replication connection: the option is set in the parameters of the manager itself.\<close>

definition queryRepl :: "'w Host \<Rightarrow> string \<Rightarrow> ('w, string list list) pgact" where
  "queryRepl h q =
     thenA (modA (\<lambda>m. m\<lparr>mg_replConnParams := ConnParams_Set ''replication'' ''1'' (mg_replConnParams m)\<rparr>))
       (\<lambda>m. (m, sql_Query h (ConnString (mg_replConnParams m)) q (mg_machine m)))"

definition pg_GetSystemData :: "'w Host \<Rightarrow> ('w, SystemData) pgact" where
  "pg_GetSystemData h =
     bindA (queryRepl h ''IDENTIFY_SYSTEM'') (\<lambda>rows. getA (\<lambda>_.
       case rows of
         [] \<Rightarrow> Inl (Error ''query returned 0 rows'')
       | row # _ \<Rightarrow>
           (case row of
              [systemID, timelineID, xLogPosLsn, _] \<Rightarrow>
                bindE (ParseUint timelineID 10 64) (\<lambda>t.
                bindE (PGLsnToInt xLogPosLsn) (\<lambda>p.
                  Inr \<lparr>sd_SystemID = systemID, sd_TimelineID = of_nat t, sd_XLogPos = p\<rparr>))
            | _ \<Rightarrow> Inl (Error ''scan error''))))"

definition GetSystemData :: "'w Host \<Rightarrow> ('w, SystemData) pgact" where
  "GetSystemData h = pg_GetSystemData h"

definition getTimelinesHistory :: "'w Host \<Rightarrow> uint64 \<Rightarrow> ('w, TimelineHistory list) pgact" where
  "getTimelinesHistory h timeline =
     bindA (queryRepl h (''TIMELINE_HISTORY '' @ print_nat 10 (unat timeline))) (\<lambda>rows. getA (\<lambda>_.
       case rows of
         [] \<Rightarrow> Inl (Error ''query returned 0 rows'')
       | row # _ \<Rightarrow>
           (case row of
              [timelineFile, contents] \<Rightarrow> parseTimelinesHistory contents
            | _ \<Rightarrow> Inl (Error ''scan error''))))"

definition GetTimelinesHistory :: "'w Host \<Rightarrow> uint64 \<Rightarrow> ('w, TimelineHistory list) pgact" where
  "GetTimelinesHistory h timeline = getTimelinesHistory h timeline"

definition getConfigFilePGParameters :: "'w Host \<Rightarrow> ('w, (string, string) fmap) pgact" where
  "getConfigFilePGParameters h =
     bindA (queryLocal h (''select 1 from information_schema.tables where table_schema = '' @ quoted ''pg_catalog'' @
         '' and table_name = '' @ quoted ''pg_file_settings'')) (\<lambda>c.
       if c \<noteq> [] then
         bindA (queryLocal h ''select name, setting from pg_file_settings where name IS NOT NULL and setting IS NOT NULL'') (\<lambda>rows.
         getA (\<lambda>_.
           bindE (mapE (\<lambda>row. case row of [name, setting] \<Rightarrow> Inr (name, setting) | _ \<Rightarrow> Inl (Error ''scan error'')) rows)
             (\<lambda>ps. Inr (fold (\<lambda>(name, setting) ps. fmupd name setting ps) ps fmempty))))
       else
         bindA (queryLocal h ''select name, setting, source from pg_settings'') (\<lambda>rows.
         getA (\<lambda>_.
           bindE (mapE (\<lambda>row. case row of [name, setting, source] \<Rightarrow> Inr (name, setting, source) | _ \<Rightarrow> Inl (Error ''scan error'')) rows)
             (\<lambda>ps. Inr (fold (\<lambda>(name, setting, source) ps.
                 if source = ''configuration file'' then fmupd name setting ps else ps) ps fmempty)))))"

definition GetConfigFilePGParameters :: "'w Host \<Rightarrow> ('w, (string, string) fmap) pgact" where
  "GetConfigFilePGParameters h = getConfigFilePGParameters h"

section \<open>What the manager guarantees\<close>

definition running :: "'w Host \<Rightarrow> 'w Manager \<Rightarrow> bool res" where
  "running h m = snd (IsStarted h m)"

lemma IsStarted_run [simp]: "IsStarted h m = (m, running h m)"
  by (simp add: running_def IsStarted_def)

lemma StopIfStarted_stopped:
  assumes "StopIfStarted h fast m = (m', Inr ())"
  shows "running h m' \<in> {Inr False, Inl ErrUnknownState}"
  using assms by (auto simp: StopIfStarted_def act_defs split: sum.splits prod.splits if_splits)

lemma asks_keep [simp]:
  "fst (PGDataVersion h m) = m" "fst (GetRole h m) = m" "fst (BinaryVersion h m) = m"
  "fst (queryLocal h q m) = m" "fst (askHost f m) = m" "fst (IsStarted h m) = m"
  by (simp_all add: PGDataVersion_def GetRole_def BinaryVersion_def queryLocal_def askHost_def)

lemma allExist_keep [simp]: "fst (allExist h fs m) = m"
  by (induction fs) (auto simp: act_defs askHost_def split: sum.splits)

lemma IsInitialized_keep [simp]: "fst (IsInitialized h m) = m"
  by (auto simp: IsInitialized_def act_defs askHost_def PGDataVersion_def split: sum.splits prod.splits)

text \<open>
  C37. Stopping and removing. After a successful \<^verbatim>\<open>StopIfStarted\<close> the status of the instance is that it is
  not running, or unknown. \<^verbatim>\<open>RemoveAll\<close>, whatever happened before it, changes the machine only if it found
  the data directory not initialized or the instance not running; it succeeds only if the data directory was removed; and for an
  initialized directory whose instance is running, or whose status is unknown, it fails and changes nothing.
\<close>

theorem manager_stop_sound:
  "(StopIfStarted h fast m = (m1, Inr ()) \<longrightarrow> running h m1 \<in> {Inr False, Inl ErrUnknownState}) \<and>
   (RemoveAll h n = (n1, r) \<longrightarrow>
     (n1 \<noteq> n \<longrightarrow> snd (IsInitialized h n) = Inr False \<or> running h n = Inr False) \<and>
     (r = Inr () \<longrightarrow> (\<exists>w. os_RemoveAll h (mg_dataDir n) (mg_machine n) = (w, Inr ()) \<and> n1 = n\<lparr>mg_machine := w\<rparr>)) \<and>
     (snd (IsInitialized h n) = Inr True \<and> running h n \<noteq> Inr False \<longrightarrow> \<not> is_ok r \<and> n1 = n))"
proof -
  obtain i where i: "IsInitialized h n = (n, i)" using IsInitialized_keep [of h n] by (metis prod.collapse)
  have "(n1 \<noteq> n \<longrightarrow> i = Inr False \<or> running h n = Inr False) \<and>
      (r = Inr () \<longrightarrow> (\<exists>w. os_RemoveAll h (mg_dataDir n) (mg_machine n) = (w, Inr ()) \<and> n1 = n\<lparr>mg_machine := w\<rparr>)) \<and>
      (i = Inr True \<and> running h n \<noteq> Inr False \<longrightarrow> \<not> is_ok r \<and> n1 = n)" if "RemoveAll h n = (n1, r)"
    using that by (auto simp: RemoveAll_def act_defs i onHost_def split: sum.splits prod.splits if_splits)
  then show ?thesis using StopIfStarted_stopped [of h fast m m1] i by simp
qed


text \<open>The waiting loops return: each turn that does not answer sleeps, and the clock of the machine shows it.\<close>

lemma waitLoop_returns:
  assumes clock: "\<forall>w. os_Now h w + interval \<le> os_Now h (os_Sleep h interval w)"
    and forward: "\<forall>m. os_Now h (mg_machine m) \<le> os_Now h (mg_machine (fst (p m)))"
    and fuel: "t0 + timeout - os_Now h (mg_machine m) \<le> (int n - 1) * interval" "0 < n"
  shows "\<exists>r. waitLoop h timeout interval p n t0 m = Some r"
  using fuel
proof (induction n arbitrary: m)
  case (Suc n)
  show ?case
  proof (cases "os_Now h (mg_machine m) - timeout < t0")
    case True
    obtain m1 r where p: "p m = (m1, r)" by fastforce
    let ?m2 = "m1\<lparr>mg_machine := os_Sleep h interval (mg_machine m1)\<rparr>"
    have "os_Now h (mg_machine m) + interval \<le> os_Now h (mg_machine ?m2)"
      using clock [rule_format, of "mg_machine m1"] forward [rule_format, of m] p by simp
    then have "t0 + timeout - os_Now h (mg_machine ?m2) \<le> (int n - 1) * interval"
      using Suc.prems(1) by (simp add: algebra_simps)
    moreover have "0 < n" using Suc.prems(1) True by (cases n) auto
    ultimately show ?thesis using True p Suc.IH [of ?m2] by (simp split: sum.splits option.splits)
  qed simp
qed simp

lemma waitLoop_answer:
  assumes "waitLoop h timeout interval p n t0 m = Some (m', Some r)"
  shows "\<exists>m0. p m0 = (m', Inr (Some r)) \<or> (\<exists>e. r = Inl e \<and> p m0 = (m', Inl e))"
  using assms
proof (induction n arbitrary: m)
  case (Suc n)
  show ?case
  proof (cases "p m")
    case (Pair m1 q)
    with Suc show ?thesis by (cases q) (auto split: if_splits option.splits)
  qed
qed simp

lemma waitFor_cases:
  assumes "0 < interval" "\<forall>w. os_Now h w + interval \<le> os_Now h (os_Sleep h interval w)"
    and "\<forall>m. os_Now h (mg_machine m) \<le> os_Now h (mg_machine (fst (p m)))"
    and "waitFor h timeout interval msg p m = (m', r)"
  shows "r = Inl (Error msg) \<or> (\<exists>m0. p m0 = (m', Inr (Some r)) \<or> (\<exists>e. r = Inl e \<and> p m0 = (m', Inl e)))"
proof -
  have "timeout - interval * (timeout div interval) \<le> interval"
    using assms(1) by (simp add: minus_mult_div_eq_mod order_less_imp_le)
  moreover have "interval * (timeout div interval) \<le> interval * int (nat (timeout div interval))"
    using assms(1) by (intro mult_left_mono) auto
  ultimately have "timeout \<le> (int (waitFuel timeout interval) - 1) * interval"
    by (simp add: waitFuel_def algebra_simps)
  then obtain q where "waitLoop h timeout interval p (waitFuel timeout interval) (os_Now h (mg_machine m)) m = Some q"
    using waitLoop_returns [OF assms(2,3), of "os_Now h (mg_machine m)" timeout m "waitFuel timeout interval"]
    by (auto simp: waitFuel_def)
  with assms(4) show ?thesis by (auto simp: waitFor_def split: option.splits prod.splits dest: waitLoop_answer)
qed


text \<open>
  C38. The waits end. When a sleep moves the clock by at least its length and no call turns it back, waiting for the database to
  answer and for the end of a recovery always return: with the timeout error, or with the answer of the last call made.
\<close>

theorem manager_waits_end:
  assumes "\<forall>w d. os_Now h w + d \<le> os_Now h (os_Sleep h d w)"
    and "\<forall>c q w. os_Now h w \<le> os_Now h (fst (sql_Exec h c q w))"
  shows "(WaitReady h timeout m = (m', r) \<longrightarrow>
      r = Inl (Error ''timeout waiting for db ready'') \<or> r = Inr () \<and> (\<exists>m0. Ping h m0 = (m', Inr ()))) \<and>
    (WaitRecoveryDone h timeout m = (m', r) \<longrightarrow>
      r = Inl (Error ''timeout waiting for db recovery'') \<or>
      r = Inr () \<and> os_Exists h (inDataDir m' ''recovery.done'') (mg_machine m') = Inr True \<or>
      (\<exists>e. r = Inl e \<and> os_Exists h (inDataDir m' ''recovery.done'') (mg_machine m') = Inl e))"
proof (intro conjI impI)
  let ?p = "tryA (Ping h) (\<lambda>r. returnA (case r of Inr _ \<Rightarrow> Some (Inr ()) | Inl _ \<Rightarrow> None)) :: ('a, unit res option) pgact"
  have "os_Now h (mg_machine m) \<le> os_Now h (mg_machine (fst (?p m)))" for m
    using assms(2) by (auto simp: act_defs Ping_def ping_def onHost_def split: prod.splits) (metis fst_conv)
  moreover assume "WaitReady h timeout m = (m', r)"
  ultimately have "r = Inl (Error ''timeout waiting for db ready'') \<or>
      (\<exists>m0. ?p m0 = (m', Inr (Some r)) \<or> (\<exists>e. r = Inl e \<and> ?p m0 = (m', Inl e)))"
    using assms(1) by (intro waitFor_cases [where interval = "second div 5"]) (auto simp: WaitReady_def second_def)
  then consider "r = Inl (Error ''timeout waiting for db ready'')"
    | m0 where "?p m0 = (m', Inr (Some r)) \<or> (\<exists>e. r = Inl e \<and> ?p m0 = (m', Inl e))" by auto
  then show "r = Inl (Error ''timeout waiting for db ready'') \<or> r = Inr () \<and> (\<exists>m0. Ping h m0 = (m', Inr ()))"
  proof cases
    case (2 m0)
    obtain m1 q where "Ping h m0 = (m1, q)" by fastforce
    with 2 show ?thesis by (cases q) (auto simp: act_defs)
  qed simp
next
  let ?q = "(\<lambda>m. (m, case os_Exists h (inDataDir m ''recovery.done'') (mg_machine m) of
      Inl e \<Rightarrow> Inr (Some (Inl e)) | Inr done \<Rightarrow> Inr (if done then Some (Inr ()) else None))) :: ('a, unit res option) pgact"
  assume "WaitRecoveryDone h timeout m = (m', r)"
  then have "r = Inl (Error ''timeout waiting for db recovery'') \<or>
      (\<exists>m0. ?q m0 = (m', Inr (Some r)) \<or> (\<exists>e. r = Inl e \<and> ?q m0 = (m', Inl e)))"
    using assms(1) by (intro waitFor_cases [where interval = "second"]) (auto simp: WaitRecoveryDone_def second_def)
  then show "r = Inl (Error ''timeout waiting for db recovery'') \<or>
      r = Inr () \<and> os_Exists h (inDataDir m' ''recovery.done'') (mg_machine m') = Inr True \<or>
      (\<exists>e. r = Inl e \<and> os_Exists h (inDataDir m' ''recovery.done'') (mg_machine m') = Inl e)"
    by (cases "os_Exists h (inDataDir m' ''recovery.done'') (mg_machine m')") (auto split: if_splits)
qed

text \<open>
  The current parameters: only a successful start or reload changes them. An action \<open>keeps\<close> the configuration when neither
  the wanted nor the current parameters change.
\<close>

definition conf_of :: "'w Manager \<Rightarrow> PGParameters \<times> PGParameters \<times> string slice \<times> PGParameters \<times> PGParameters \<times> string slice" where
  "conf_of m = (mg_parameters m, mg_recoveryParameters m, mg_hba m, mg_curParameters m, mg_curRecoveryParameters m, mg_curHba m)"

definition keeps :: "('w, 'a) pgact \<Rightarrow> bool" where
  "keeps a \<longleftrightarrow> (\<forall>m. conf_of (fst (a m)) = conf_of m)"

lemma conf_of_machine [simp]: "conf_of (m\<lparr>mg_machine := w\<rparr>) = conf_of m"
  by (simp add: conf_of_def)

lemma keeps_onHost [simp]: "keeps (onHost f)"
  by (simp add: keeps_def onHost_def split: prod.splits)

lemma keeps_onHostM [simp]: "keeps (\<lambda>m. onHost (f m) m)"
  by (simp add: keeps_def onHost_def split: prod.splits)

lemma keeps_asks [simp]: "keeps (askHost f)" "keeps (\<lambda>m. (m, g m))" "keeps (returnA x)" "keeps (failA e)"
  by (simp_all add: keeps_def askHost_def act_defs)

lemma keeps_bindA: "keeps a \<Longrightarrow> (\<And>x. keeps (f x)) \<Longrightarrow> keeps (bindA a f)"
  by (auto simp: keeps_def bindA_def split: prod.splits sum.splits) (metis fst_conv)+

lemma keeps_thenA: "keeps a \<Longrightarrow> keeps b \<Longrightarrow> keeps (thenA a b)"
  by (simp add: thenA_def keeps_bindA)

lemma keeps_writePgHba: "keeps (writePgHba h)"
  by (auto simp: keeps_def writePgHba_def onHost_def split: prod.splits)

lemma keeps_writeRecoveryConf: "keeps (writeRecoveryConf h)"
  by (auto simp: keeps_def writeRecoveryConf_def onHost_def act_defs split: prod.splits)

lemma keeps_writeConfs [simp]: "keeps (writeConfs h)"
proof -
  have "keeps (writeConf h)"
    by (auto simp: keeps_def writeConf_def onHost_def split: prod.splits)
  then show ?thesis by (simp add: writeConfs_def keeps_thenA keeps_writePgHba keeps_writeRecoveryConf)
qed

lemma keeps_conf: "keeps a \<Longrightarrow> a m = (m', r) \<Longrightarrow> conf_of m' = conf_of m"
  by (metis fst_conv keeps_def)

lemma keeps_waitLoop:
  assumes "keeps p" and "waitLoop h timeout interval p n t0 m = Some (m', r)"
  shows "conf_of m' = conf_of m"
  using assms(2)
proof (induction n arbitrary: m)
  case (Suc n)
  obtain m1 q where p: "p m = (m1, q)" by fastforce
  with assms(1) have c: "conf_of m1 = conf_of m" by (rule keeps_conf)
  show ?case
  proof (cases "os_Now h (mg_machine m) - timeout < t0 \<and> q = Inr None")
    case True
    with Suc.prems p show ?thesis using c Suc.IH by force
  next
    case False
    with Suc.prems p c show ?thesis by (auto split: if_splits sum.splits option.splits)
  qed
qed simp

lemma keeps_waitFor: "keeps p \<Longrightarrow> keeps (waitFor h timeout interval msg p)"
  by (auto simp: keeps_def [of "waitFor h timeout interval msg p"] waitFor_def split: option.splits prod.splits dest: keeps_waitLoop)

definition committed :: "'w Manager \<Rightarrow> PGParameters \<times> PGParameters \<times> string slice \<times> PGParameters \<times> PGParameters \<times> string slice" where
  "committed m = (mg_parameters m, mg_recoveryParameters m, mg_hba m, mg_parameters m, mg_recoveryParameters m, mg_hba m)"

definition commits :: "('w, unit) pgact \<Rightarrow> bool" where
  "commits a \<longleftrightarrow> (\<forall>m m' r. a m = (m', r) \<longrightarrow>
     conf_of m' = (if r = Inr () then committed m else conf_of m))"

lemma commits_UpdateCur [simp]: "commits (modA UpdateCur)"
  by (simp add: commits_def modA_def conf_of_def committed_def UpdateCur_def)

lemma committed_conf: "conf_of m = conf_of m' \<Longrightarrow> committed m = committed m'"
  by (simp add: conf_of_def committed_def)

lemma commits_bindA:
  assumes "keeps a" "\<And>x. commits (f x)"
  shows "commits (bindA a f)"
proof (unfold commits_def, intro allI impI)
  fix m m' r
  assume eq: "bindA a f m = (m', r)"
  obtain m1 q where a: "a m = (m1, q)" by fastforce
  with assms(1) have c: "conf_of m1 = conf_of m" by (rule keeps_conf)
  show "conf_of m' = (if r = Inr () then committed m else conf_of m)"
  proof (cases q)
    case (Inl e)
    with eq a c show ?thesis by (auto simp: bindA_def)
  next
    case (Inr x)
    with eq a have "f x m1 = (m', r)" by (simp add: bindA_def)
    with assms(2) have "conf_of m' = (if r = Inr () then committed m1 else conf_of m1)" by (simp add: commits_def)
    with c committed_conf [OF c] show ?thesis by simp
  qed
qed

lemma commits_thenA: "keeps a \<Longrightarrow> commits b \<Longrightarrow> commits (thenA a b)"
  by (simp add: thenA_def commits_bindA)

lemma keeps_createPostgresqlAutoConf: "keeps (createPostgresqlAutoConf h)"
proof -
  have "keeps (thenA (onHost f) (onHost g))" for f g :: "'a \<Rightarrow> 'a \<times> unit res"
    by (intro keeps_thenA) simp_all
  then show ?thesis by (simp add: keeps_def createPostgresqlAutoConf_def)
qed

lemma commitsD: "commits a \<Longrightarrow> a m = (m', r) \<Longrightarrow> conf_of m' = (if r = Inr () then committed m else conf_of m)"
  by (simp add: commits_def)

lemma commits_start: "commits (start h args)"
proof (unfold commits_def, intro allI impI)
  fix m m' :: "'a Manager" and r
  have c: "commits (thenA (createPostgresqlAutoConf h)
     (bindA (onHost f) (\<lambda>pid. thenA (waitFor h d i msg (\<lambda>m. (m, g pid m))) (modA UpdateCur))))"
    for f :: "'a \<Rightarrow> 'a \<times> nat res" and d i msg g
    by (intro commits_thenA commits_bindA keeps_waitFor keeps_createPostgresqlAutoConf) simp_all
  assume "start h args m = (m', r)"
  then show "conf_of m' = (if r = Inr () then committed m else conf_of m)"
    unfolding start_def by (rule commitsD [OF c])
qed

lemma commits_Start: "commits (Start h)"
  by (simp add: Start_def commits_thenA commits_start)

lemma commits_StartTmpMerged: "commits (StartTmpMerged h)"
proof (unfold commits_def, intro allI impI)
  fix m m' :: "'a Manager" and r
  have c: "commits (bindA (askHost e) (\<lambda>exists. thenA (onHost (f exists))
     (thenA (writePgHba h) (thenA (writeRecoveryConf h) (start h args)))))"
    for e :: "'a \<Rightarrow> bool res" and f args
    by (intro commits_thenA commits_bindA commits_start keeps_writePgHba keeps_writeRecoveryConf) simp_all
  assume "StartTmpMerged h m = (m', r)"
  then show "conf_of m' = (if r = Inr () then committed m else conf_of m)"
    unfolding StartTmpMerged_def Let_def by (rule commitsD [OF c])
qed

lemma commits_Reload: "commits (Reload h)"
proof (unfold commits_def, intro allI impI)
  fix m m' :: "'a Manager" and r
  have c: "commits (thenA (writeConfs h) (thenA (onHost f) (modA UpdateCur)))" for f :: "'a \<Rightarrow> 'a \<times> unit res"
    by (intro commits_thenA) simp_all
  assume "Reload h m = (m', r)"
  then show "conf_of m' = (if r = Inr () then committed m else conf_of m)"
    unfolding Reload_def by (rule commitsD [OF c])
qed

text \<open>
  The current configuration. Starting and reloading make the wanted parameters, recovery parameters and access rules the
  current ones exactly when they succeed; on an error the manager still knows what the running server uses.
\<close>

theorem manager_current_conf:
  "commits (Start h) \<and> commits (StartTmpMerged h) \<and> commits (Reload h) \<and> keeps (writeConfs h)"
  by (simp add: commits_Start commits_StartTmpMerged commits_Reload)


section \<open>Examples\<close>

text \<open>A machine with a clock and one server, which is running or not.\<close>

definition clockHost :: "(int \<times> bool) Host" where
  "clockHost = \<lparr>
     os_Run = (\<lambda>args (t, up). case args of
        _ # cmd # _ \<Rightarrow> if cmd = ''stop'' then ((t, False), if up then Inr () else Inl (Error ''not running'')) else ((t, up), Inr ())
      | _ \<Rightarrow> ((t, up), Inl (Error ''no command''))),
     os_Output = (\<lambda>_ _. Inr []),
     os_Status = (\<lambda>_ (t, up). if up then Exited 0 else Exited 3),
     os_Spawn = (\<lambda>_ (t, up). ((t, True), Inr 1)),
     os_Exited = (\<lambda>_ (t, up). \<not> up),
     os_Exists = (\<lambda>_ _. Inr False),
     os_Size = (\<lambda>_ _. Inr 0),
     os_WriteFile = (\<lambda>_ _ w. (w, Inr ())),
     os_Remove = (\<lambda>_ w. (w, Inr ())),
     os_RemoveAll = (\<lambda>_ w. (w, Inr ())),
     os_MkdirAll = (\<lambda>_ w. (w, Inr ())),
     os_Symlink = (\<lambda>_ _ w. (w, Inr ())),
     os_TempFile = (\<lambda>name _ w. (w, Inr name)),
     os_ReadDir = (\<lambda>_ _. Inr []),
     os_FirstLine = (\<lambda>_ _. Inr ''1''),
     os_ReadFile = (\<lambda>_ _. Inr ''''),
     os_Now = fst,
     os_Sleep = (\<lambda>d (t, up). (t + max 0 d, up)),
     os_order = (\<lambda>xs. xs),
     sql_Exec = (\<lambda>_ _ (t, up). ((t, up), if up then Inr () else Inl (Error ''no connection''))),
     sql_Query = (\<lambda>_ _ _. Inr [])\<rparr>"

definition managerOn :: "'w \<Rightarrow> 'w Manager" where
  "managerOn w = \<lparr>
     mg_pgBinPath = ''/usr/bin'', mg_dataDir = ''/data'', mg_parameters = None, mg_recoveryParameters = None, mg_hba = None,
     mg_curParameters = None, mg_curRecoveryParameters = None, mg_curHba = None,
     mg_localConnParams = fmempty, mg_replConnParams = fmempty,
     mg_suAuthMethod = ''md5'', mg_suUsername = ''postgres'', mg_suPassword = ''secret'',
     mg_replAuthMethod = ''md5'', mg_replUsername = ''repl'', mg_replPassword = ''secret'',
     mg_requestTimeout = second, mg_machine = w\<rparr>"

definition exampleManager :: "(int \<times> bool) Manager" where
  "exampleManager = managerOn (0, True)"

definition stoppedManager :: "(int \<times> bool) Manager" where
  "stoppedManager = exampleManager\<lparr>mg_machine := (0, False)\<rparr>"

lemma clockHost_calls [simp]:
  "running clockHost m = Inr (snd (mg_machine m))"
  "os_Run clockHost (b # ''stop'' # args) (t, up) = ((t, False), if up then Inr () else Inl (Error ''not running''))"
  "os_RemoveAll clockHost d w = (w, Inr ())" "os_Exists clockHost d w = Inr False"
  "os_Now clockHost w = fst w" "sql_Exec clockHost c q (t, up) = ((t, up), if up then Inr () else Inl (Error ''no connection''))"
  by (simp_all add: clockHost_def running_def IsStarted_def del: IsStarted_run split: prod.splits)

lemma example_machine [simp]: "mg_machine exampleManager = (0, True)" "exampleManager\<lparr>mg_machine := (0, False)\<rparr> = stoppedManager"
  "exampleManager\<lparr>mg_machine := (0, True)\<rparr> = exampleManager" "mg_machine stoppedManager = (0, False)"
  by (simp_all add: exampleManager_def stoppedManager_def managerOn_def)

lemma StopIfStarted_example: "StopIfStarted clockHost True exampleManager = (stoppedManager, Inr ())"
  by (simp add: StopIfStarted_def act_defs Stop_def onHost_def)

lemma RemoveAll_example: "RemoveAll clockHost exampleManager = (exampleManager, Inr ())"
  by (simp add: RemoveAll_def IsInitialized_def act_defs onHost_def askHost_def)

theorem manager_stop_sound_witness:
  "running clockHost stoppedManager \<in> {Inr False, Inl ErrUnknownState} \<and>
   (\<exists>w. os_RemoveAll clockHost (mg_dataDir exampleManager) (mg_machine exampleManager) = (w, Inr ()))"
  using manager_stop_sound [of clockHost True exampleManager stoppedManager exampleManager exampleManager "Inr ()"]
    StopIfStarted_example RemoveAll_example by blast

lemma WaitReady_example: "WaitReady clockHost second exampleManager = (exampleManager, Inr ())"
  by (simp add: WaitReady_def waitFor_def waitFuel_def act_defs Ping_def ping_def onHost_def, simp add: second_def)

theorem manager_waits_end_witness:
  "\<exists>m0. Ping clockHost m0 = (exampleManager, Inr ())"
proof -
  have "\<forall>w d. os_Now clockHost w + d \<le> os_Now clockHost (os_Sleep clockHost d w)"
    and "\<forall>c q w. os_Now clockHost w \<le> os_Now clockHost (fst (sql_Exec clockHost c q w))"
    by (auto simp: clockHost_def split: prod.splits)
  from manager_waits_end [OF this, of second exampleManager exampleManager "Inr ()"] WaitReady_example
  show ?thesis by simp
qed

end
