(* ===== verification/Keeper_Conf.thy ===== *)
theory Keeper_Conf
  imports Manager Sentinel_Select
begin

text \<open>
  \<^verbatim>\<open>cmd/keeper/cmd/keeper.go\<close>, the first part: the keeper's data and what it computes from the cluster data for its
  postgres instance (connection parameters, configuration parameters, recovery parameters, access rules, replication slots)
  and what it reports. The names of the record fields carry the prefix \<open>pk_\<close> (PostgresKeeper), \<open>kls_\<close>
  (KeeperLocalState) and \<open>ls_\<close> (DBLocalState).
\<close>

section \<open>The keeper\<close>

record KeeperLocalState =
  kls_UID :: string
  kls_ClusterUID :: string

record DBLocalState =
  ls_UID :: string
  ls_Generation :: int64
  ls_Initializing :: bool
  ls_InitPGParameters :: PGParameters

record 'w PostgresKeeper =
  pk_bootUUID :: string
  pk_dataDir :: string
  pk_pgBinPath :: string
  pk_pgListenAddress :: string
  pk_pgPort :: string
  pk_pgReplAuthMethod :: string
  pk_pgReplUsername :: string
  pk_pgReplPassword :: string
  pk_pgSUAuthMethod :: string
  pk_pgSUUsername :: string
  pk_pgSUPassword :: string
  pk_sleepInterval :: duration
  pk_requestTimeout :: duration
  pk_keeperLocalState :: KeeperLocalState
  pk_dbLocalState :: DBLocalState
  pk_lastPGState :: "PostgresState option"
  pk_pgm :: "'w Manager"

definition managedPGParameters :: "string list" where
  "managedPGParameters =
     [''unix_socket_directories'', ''wal_keep_segments'', ''hot_standby'', ''listen_addresses'', ''port'',
      ''max_replication_slots'', ''max_wal_senders'', ''wal_log_hints'', ''synchronous_standby_names'']"

section \<open>Connection parameters\<close>

definition setPasswordUnlessTrust :: "string \<Rightarrow> string \<Rightarrow> ConnParams \<Rightarrow> ConnParams" where
  "setPasswordUnlessTrust method password cp = (if method \<noteq> ''trust'' then ConnParams_Set ''password'' password cp else cp)"

definition getSUConnParams :: "'w PostgresKeeper \<Rightarrow> DB \<Rightarrow> DB \<Rightarrow> ConnParams" where
  "getSUConnParams p db followedDB =
     setPasswordUnlessTrust (pk_pgSUAuthMethod p) (pk_pgSUPassword p)
       (fmap_of_list
         [(''user'', pk_pgSUUsername p), (''host'', st_ListenAddress (db_Status followedDB)), (''port'', st_Port (db_Status followedDB)),
          (''application_name'', StolonName (db_UID db)), (''dbname'', ''postgres''), (''sslmode'', ''prefer'')])"

definition getReplConnParams :: "'w PostgresKeeper \<Rightarrow> DB \<Rightarrow> DB \<Rightarrow> ConnParams" where
  "getReplConnParams p db followedDB =
     setPasswordUnlessTrust (pk_pgReplAuthMethod p) (pk_pgReplPassword p)
       (fmap_of_list
         [(''user'', pk_pgReplUsername p), (''host'', st_ListenAddress (db_Status followedDB)), (''port'', st_Port (db_Status followedDB)),
          (''application_name'', StolonName (db_UID db)), (''sslmode'', ''prefer'')])"

definition getLocalConnParams :: "'w PostgresKeeper \<Rightarrow> ConnParams" where
  "getLocalConnParams p =
     setPasswordUnlessTrust (pk_pgSUAuthMethod p) (pk_pgSUPassword p)
       (fmap_of_list [(''user'', pk_pgSUUsername p), (''host'', ''/tmp''), (''port'', pk_pgPort p), (''dbname'', ''postgres'')])"

definition getLocalReplConnParams :: "'w PostgresKeeper \<Rightarrow> ConnParams" where
  "getLocalReplConnParams p =
     setPasswordUnlessTrust (pk_pgReplAuthMethod p) (pk_pgReplPassword p)
       (fmap_of_list [(''user'', pk_pgReplUsername p), (''password'', pk_pgReplPassword p), (''host'', ''/tmp''), (''port'', pk_pgPort p)])"

section \<open>Configuration parameters\<close>

definition walLevel :: "'w Host \<Rightarrow> 'w PostgresKeeper \<Rightarrow> DB \<Rightarrow> string" where
  "walLevel h p db =
     (case snd (BinaryVersion h (pk_pgm p)) of
        Inl _ \<Rightarrow> ''hot_standby''
      | Inr (maj, mi) \<Rightarrow>
          let level = (if maj = 9 then (if mi \<ge> 6 then ''replica'' else ''hot_standby'')
                       else if maj \<ge> 10 then ''replica'' else ''hot_standby'')
          in case fmlookup (params (dbs_PGParameters (db_Spec db))) ''wal_level'' of
               None \<Rightarrow> level
             | Some l \<Rightarrow> if StringInSlice [''logical''] l then l else level)"

definition mandatoryPGParameters :: "'w Host \<Rightarrow> 'w PostgresKeeper \<Rightarrow> DB \<Rightarrow> (string, string) fmap" where
  "mandatoryPGParameters h p db =
     fmap_of_list
       [(''unix_socket_directories'', ''/tmp''), (''wal_level'', walLevel h p db), (''wal_keep_segments'', ''8''), (''hot_standby'', ''on'')]"

fun joinComma :: "string list \<Rightarrow> string" where
  "joinComma [] = ''''"
| "joinComma [s] = s"
| "joinComma (s # t # ss) = s @ '','' @ joinComma (t # ss)"

definition synchronousStandbyNames :: "string list \<Rightarrow> string" where
  "synchronousStandbyNames names =
     (if length names > 1 then print_nat 10 (length names) @ '' ('' @ joinComma names @ '')'' else joinComma names)"

definition createPGParameters :: "'w Host \<Rightarrow> 'w PostgresKeeper \<Rightarrow> DB \<Rightarrow> (string, string) fmap" where
  "createPGParameters h p db =
     (let spec = db_Spec db;
          ps = (if dbs_IncludeConfig spec then params (ls_InitPGParameters (pk_dbLocalState p)) else fmempty);
          ps = ps ++\<^sub>f params (dbs_PGParameters spec);
          ps = ps ++\<^sub>f mandatoryPGParameters h p db;
          ps = fmupd ''listen_addresses'' (''127.0.0.1,'' @ pk_pgListenAddress p) ps;
          ps = fmupd ''port'' (pk_pgPort p) ps;
          ps = fmupd ''max_replication_slots'' (print_nat 10 (unat (dbs_MaxStandbys spec))) ps;
          ps = fmupd ''max_wal_senders'' (print_nat 10 (unat (dbs_MaxStandbys spec * 2 + 2 + dbs_AdditionalWalSenders spec))) ps;
          ps = (if dbs_UsePgrewind spec then fmupd ''wal_log_hints'' ''on'' ps else ps)
      in if dbs_SynchronousReplication spec \<and>
            (elems (dbs_SynchronousStandbys spec) \<noteq> [] \<or> elems (dbs_ExternalSynchronousStandbys spec) \<noteq> [])
         then fmupd ''synchronous_standby_names''
                (synchronousStandbyNames
                  (map StolonName (elems (dbs_SynchronousStandbys spec)) @ elems (dbs_ExternalSynchronousStandbys spec))) ps
         else fmupd ''synchronous_standby_names'' '''' ps)"

definition setUnlessEmpty :: "string \<Rightarrow> string \<Rightarrow> (string, string) fmap \<Rightarrow> (string, string) fmap" where
  "setUnlessEmpty k v ps = (if v \<noteq> '''' then fmupd k v ps else ps)"

definition createRecoveryParameters ::
  "bool \<Rightarrow> StandbySettings option \<Rightarrow> ArchiveRecoverySettings option \<Rightarrow> RecoveryTargetSettings option \<Rightarrow> (string, string) fmap" where
  "createRecoveryParameters standbyMode standbySettings archiveRecoverySettings recoveryTargetSettings =
     (let ps = (if standbyMode then fmupd ''standby_mode'' ''on'' fmempty else fmempty);
          ps = (case standbySettings of
                  None \<Rightarrow> ps
                | Some ss \<Rightarrow>
                    setUnlessEmpty ''recovery_min_apply_delay'' (ss_RecoveryMinApplyDelay ss)
                      (setUnlessEmpty ''primary_slot_name'' (ss_PrimarySlotName ss)
                        (setUnlessEmpty ''primary_conninfo'' (ss_PrimaryConninfo ss) ps)));
          ps = (case archiveRecoverySettings of
                  None \<Rightarrow> ps
                | Some ar \<Rightarrow> fmupd ''restore_command'' (ar_RestoreCommand ar) ps)
      in case recoveryTargetSettings of
           None \<Rightarrow> fmupd ''recovery_target_timeline'' ''latest'' ps
         | Some rt \<Rightarrow>
             fmupd ''recovery_target_action'' ''promote''
               (setUnlessEmpty ''recovery_target_timeline'' (rt_RecoveryTargetTimeline rt)
                 (setUnlessEmpty ''recovery_target_xid'' (rt_RecoveryTargetXid rt)
                   (setUnlessEmpty ''recovery_target_time'' (rt_RecoveryTargetTime rt)
                     (setUnlessEmpty ''recovery_target_name'' (rt_RecoveryTargetName rt)
                       (setUnlessEmpty ''recovery_target_lsn'' (rt_RecoveryTargetLsn rt)
                         (setUnlessEmpty ''recovery_target'' (rt_RecoveryTarget rt) ps)))))))"

definition usePgrewind :: "'w PostgresKeeper \<Rightarrow> DB \<Rightarrow> bool" where
  "usePgrewind p db \<longleftrightarrow> pk_pgSUUsername p \<noteq> '''' \<and> pk_pgSUPassword p \<noteq> '''' \<and> dbs_UsePgrewind (db_Spec db)"

section \<open>The synchronous standby names of an instance\<close>

definition TrimLeft :: "(char \<Rightarrow> bool) \<Rightarrow> string \<Rightarrow> string" where
  "TrimLeft P s = dropWhile P s"

definition TrimRight :: "(char \<Rightarrow> bool) \<Rightarrow> string \<Rightarrow> string" where
  "TrimRight P s = rev (dropWhile P (rev s))"

definition TrimSpace :: "string \<Rightarrow> string" where
  "TrimSpace s = TrimRight IsSpace (TrimLeft IsSpace s)"

fun joinSpace :: "string list \<Rightarrow> string" where
  "joinSpace [] = ''''"
| "joinSpace [s] = s"
| "joinSpace (s # t # ss) = s @ '' '' @ joinSpace (t # ss)"

definition parseSynchronousStandbyNames :: "string \<Rightarrow> string list res" where
  "parseSynchronousStandbyNames s =
     (let spacesSplit = Split s (CHR 0x20);
          trimmed = (\<lambda>entries. Inr (map TrimSpace entries))
      in if length spacesSplit < 2 then trimmed (Split s (CHR 0x2C))
         else case Atoi (hd spacesSplit) of
           Inr _ \<Rightarrow>
             (let inBrackets = TrimSpace (joinSpace (tl spacesSplit))
              in if \<not> has_prefix inBrackets ''('' \<or> \<not> has_prefix (rev inBrackets) '')''
                 then Inl (Error ''synchronous standby string has number but lacks brackets'')
                 else trimmed (Split (TrimRight (\<lambda>c. c = CHR 0x29) (TrimLeft (\<lambda>c. c = CHR 0x28) inBrackets)) (CHR 0x2C)))
         | Inl _ \<Rightarrow> trimmed (Split s (CHR 0x2C)))"

section \<open>Timelines\<close>

definition keeper_isDifferentTimelineBranch :: "DB \<Rightarrow> PostgresState \<Rightarrow> bool" where
  "keeper_isDifferentTimelineBranch followedDB pgState =
     (let ftl = st_TimelineID (db_Status followedDB);
          tli = pst_TimelineID pgState
      in if ftl < tli then True
         else if ftl = tli then
           (if tli \<le> 1 then False
            else case GetTimelineHistory (st_TimelinesHistory (db_Status followedDB)) (tli - 1) of
                   None \<Rightarrow> False
                 | Some ftlh \<Rightarrow>
                     (case GetTimelineHistory (pst_TimelinesHistory pgState) (tli - 1) of
                        None \<Rightarrow> False
                      | Some tlh \<Rightarrow> tlh_SwitchPoint ftlh \<noteq> tlh_SwitchPoint tlh))
         else
           (case GetTimelineHistory (st_TimelinesHistory (db_Status followedDB)) tli of
              None \<Rightarrow> False
            | Some ftlh \<Rightarrow> tlh_SwitchPoint ftlh < pst_XLogPos pgState))"

section \<open>Access rules\<close>

definition IsMaster :: "DB \<Rightarrow> bool res" where
  "IsMaster db =
     (case dbs_Role (db_Spec db) of
        RoleMaster \<Rightarrow> Inr True
      | RoleStandby \<Rightarrow> bindE (deref ''nil FollowConfig'' (dbs_FollowConfig (db_Spec db))) (\<lambda>fc. Inr (fc_Type fc = FollowTypeExternal))
      | _ \<Rightarrow> Inl (Panic ''invalid db role in db Spec''))"

definition hbaLine :: "string list \<Rightarrow> string" where
  "hbaLine xs = joinSpace xs"

definition generateHBA :: "iter_order \<Rightarrow> 'w PostgresKeeper \<Rightarrow> ClusterData \<Rightarrow> DB \<Rightarrow> string list res" where
  "generateHBA ord p cd db =
     (let su = pk_pgSUUsername p; repl = pk_pgReplUsername p;
          suAuth = pk_pgSUAuthMethod p; replAuth = pk_pgReplAuthMethod p;
          computedHBA = [hbaLine [''local postgres'', su, suAuth], hbaLine [''local replication'', repl, replAuth]];
          userHBA = (case dbs_PGHBA (db_Spec db) of
                       Some hba \<Rightarrow> hba
                     | None \<Rightarrow> [''host all all 0.0.0.0/0 md5'', ''host all all ::0/0 md5''])
      in bindE (defspec_of cd) (\<lambda>spec.
         bindE (case def_SUReplAccessMode spec of
             SUReplAccessAll \<Rightarrow>
               Inr [hbaLine [''host all'', su, ''0.0.0.0/0'', suAuth], hbaLine [''host all'', su, ''::0/0'', suAuth],
                    hbaLine [''host replication'', repl, ''0.0.0.0/0'', replAuth], hbaLine [''host replication'', repl, ''::0/0'', replAuth]]
           | SUReplAccessStrict \<Rightarrow>
               bindE (IsMaster db) (\<lambda>master.
                 if master then
                   let addresses = sort (map (\<lambda>(_, dbElt). st_ListenAddress (db_Status dbElt))
                                         (filter (\<lambda>(_, dbElt). db_UID dbElt \<noteq> db_UID db) (range_by ord (cd_DBs cd))))
                   in Inr (concat (map (\<lambda>address.
                        [hbaLine [''host all'', su, address @ ''/32'', replAuth],
                         hbaLine [''host replication'', repl, address @ ''/32'', replAuth]]) addresses))
                 else Inr [])
           | SUReplAccessOther _ \<Rightarrow> Inr []) (\<lambda>accessHBA.
           Inr (computedHBA @ accessHBA @ userHBA))))"


section \<open>Reading back the synchronous standby names\<close>

definition plain_name :: "string \<Rightarrow> bool" where
  "plain_name s \<longleftrightarrow> s \<noteq> '''' \<and> (\<forall>c\<in>set s. \<not> IsSpace c \<and> c \<notin> {CHR 0x2C, CHR 0x28, CHR 0x29})"

lemma plain_no: "plain_name s \<Longrightarrow> CHR 0x20 \<notin> set s \<and> CHR 0x2C \<notin> set s"
  by (auto simp: plain_name_def IsSpace_def)

lemma dropWhile_none: "(s = [] \<or> \<not> P (hd s)) \<Longrightarrow> dropWhile P s = s"
  by (cases s) auto

lemma TrimSpace_plain: "plain_name s \<Longrightarrow> TrimSpace s = s"
  by (auto simp: plain_name_def TrimSpace_def TrimLeft_def TrimRight_def dropWhile_none hd_rev)

lemma joinComma_chars: "names \<noteq> [] \<Longrightarrow> set (joinComma names) \<subseteq> \<Union> (set ` set names) \<union> {CHR 0x2C}"
  by (induction names rule: joinComma.induct) auto

lemma Split_joinComma: "names \<noteq> [] \<Longrightarrow> \<forall>s\<in>set names. CHR 0x2C \<notin> set s \<Longrightarrow> Split (joinComma names) (CHR 0x2C) = names"
proof (induction names rule: joinComma.induct)
  case (3 s t ss)
  then show ?case using splitAcc_append [of "CHR 0x2C" s "[]" "joinComma (t # ss)"] by (simp add: Split_def)
qed (simp_all add: Split_def splitAcc_none)

lemma joinComma_plain:
  assumes "names \<noteq> []" "\<forall>s\<in>set names. plain_name s"
  shows "CHR 0x20 \<notin> set (joinComma names)" "joinComma names \<noteq> []"
    "hd (joinComma names) \<noteq> CHR 0x28" "last (joinComma names) \<noteq> CHR 0x29"
proof -
  show "CHR 0x20 \<notin> set (joinComma names)" using joinComma_chars [OF assms(1)] assms(2) plain_no by auto
  show "joinComma names \<noteq> []" using assms by (induction names rule: joinComma.induct) (auto simp: plain_name_def)
  then have "hd (joinComma names) \<in> set (joinComma names)" "last (joinComma names) \<in> set (joinComma names)" by simp_all
  moreover have "c \<noteq> CHR 0x28 \<and> c \<noteq> CHR 0x29" if "c \<in> set (joinComma names)" for c
    using that joinComma_chars [OF assms(1)] assms(2) unfolding plain_name_def by auto
  ultimately show "hd (joinComma names) \<noteq> CHR 0x28" "last (joinComma names) \<noteq> CHR 0x29" by blast+
qed

lemma Atoi_print: "n < 2 ^ 63 \<Longrightarrow> Atoi (print_nat 10 n) = Inr (int n)"
proof -
  assume n: "n < 2 ^ 63"
  have "hd (print_nat 10 n) \<in> set hex_chars"
    using print_nat_chars [of 10 n] print_nat_nonempty [of 10 n] by (simp add: subsetD)
  then have "hd (print_nat 10 n) \<noteq> CHR ''-'' \<and> hd (print_nat 10 n) \<noteq> CHR ''+''"
    by (auto simp: hex_chars_def)
  moreover have "n < 2 ^ 64" using n by simp
  ultimately show ?thesis using n ParseUint_print [of 10 n 64] by (simp add: Atoi_def print_nat_nonempty)
qed

lemma parse_brackets:
  assumes "names \<noteq> []" "\<forall>s\<in>set names. plain_name s" "n < 2 ^ 63"
  shows "parseSynchronousStandbyNames (print_nat 10 n @ '' ('' @ joinComma names @ '')'') = Inr names"
proof -
  let ?j = "joinComma names"
  note j = joinComma_plain [OF assms(1,2)]
  have "CHR 0x20 \<notin> set (print_nat 10 n)" using number_chars [of 10 "CHR 0x20" n] by (auto simp: re_space_def)
  then have split: "Split (print_nat 10 n @ '' ('' @ ?j @ '')'') (CHR 0x20) = [print_nat 10 n, ''('' @ ?j @ '')'']"
    using j(1) splitAcc_append [of "CHR 0x20" "print_nat 10 n" "[]" "''('' @ ?j @ '')''"] splitAcc_none [of "CHR 0x20" "''('' @ ?j @ '')''" "[]"]
    by (simp add: Split_def)
  have trim: "TrimSpace (''('' @ ?j @ '')'') = ''('' @ ?j @ '')''"
    by (simp add: TrimSpace_def TrimLeft_def TrimRight_def dropWhile_none IsSpace_def)
  have strip: "TrimRight (\<lambda>c. c = CHR 0x29) (TrimLeft (\<lambda>c. c = CHR 0x28) (''('' @ ?j @ '')'')) = ?j"
    using j(2-4) dropWhile_none [of "?j @ '')''" "\<lambda>c. c = CHR 0x28"] dropWhile_none [of "rev ?j" "\<lambda>c. c = CHR 0x29"]
    by (simp add: TrimLeft_def TrimRight_def hd_rev)
  have "Split ?j (CHR 0x2C) = names" using assms(1,2) plain_no by (intro Split_joinComma) auto
  moreover have "map TrimSpace names = names" using assms(2) TrimSpace_plain by (simp add: map_idI)
  ultimately show ?thesis
    unfolding parseSynchronousStandbyNames_def Let_def split
    using assms(3) trim strip by (simp add: Atoi_print has_prefix_iff)
qed

lemma sync_names_read_back:
  assumes "names \<noteq> []" "\<forall>s\<in>set names. plain_name s" "length names < 2 ^ 63"
  shows "parseSynchronousStandbyNames (synchronousStandbyNames names) = Inr names"
proof (cases "length names > 1")
  case True
  then show ?thesis using parse_brackets [OF assms] by (simp add: synchronousStandbyNames_def)
next
  case False
  then obtain s where s: "names = [s]" using assms(1) by (cases names) (auto simp: Suc_lessI)
  then have "plain_name s" using assms(2) by simp
  then show ?thesis
    using plain_no [of s] TrimSpace_plain [of s] s
    by (simp add: synchronousStandbyNames_def parseSynchronousStandbyNames_def Split_def splitAcc_none Let_def)
qed


section \<open>What the keeper computes\<close>

lemma fmlookup_add2: "fmlookup (a ++\<^sub>f b) k = (case fmlookup b k of None \<Rightarrow> fmlookup a k | Some v \<Rightarrow> Some v)"
  by (cases "k |\<in>| fmdom b") (auto simp: fmlookup_dom_iff split: option.splits)

lemma mandatory_lookup:
  "fmlookup (mandatoryPGParameters h p db) k =
     (if k = ''unix_socket_directories'' then Some ''/tmp'' else if k = ''wal_level'' then Some (walLevel h p db)
      else if k = ''wal_keep_segments'' then Some ''8'' else if k = ''hot_standby'' then Some ''on'' else None)"
  by (simp add: mandatoryPGParameters_def)

lemma walLevel_range: "walLevel h p db \<in> {''hot_standby'', ''replica'', ''logical''}"
  by (auto simp: walLevel_def Let_def split: sum.splits option.splits)

lemma wal_senders: "unat (a * 2 + 2 + b :: uint16) = (2 * unat a + 2 + unat b) mod 65536"
  by (simp add: unat_word_ariths mod_simps mult.commute)

definition base_parameters :: "'w Host \<Rightarrow> 'w PostgresKeeper \<Rightarrow> DB \<Rightarrow> (string, string) fmap" where
  "base_parameters h p db =
     (if dbs_IncludeConfig (db_Spec db) then params (ls_InitPGParameters (pk_dbLocalState p)) else fmempty) ++\<^sub>f
     params (dbs_PGParameters (db_Spec db))"

lemma createPGParameters_lookup:
  "fmlookup (createPGParameters h p db) k =
     (if k = ''synchronous_standby_names'' then
        Some (if dbs_SynchronousReplication (db_Spec db) then
                synchronousStandbyNames (map StolonName (elems (dbs_SynchronousStandbys (db_Spec db))) @
                                         elems (dbs_ExternalSynchronousStandbys (db_Spec db))) else '''')
      else if k = ''wal_log_hints'' \<and> dbs_UsePgrewind (db_Spec db) then Some ''on''
      else if k = ''max_wal_senders'' then
        Some (print_nat 10 (unat (dbs_MaxStandbys (db_Spec db) * 2 + 2 + dbs_AdditionalWalSenders (db_Spec db))))
      else if k = ''max_replication_slots'' then Some (print_nat 10 (unat (dbs_MaxStandbys (db_Spec db))))
      else if k = ''port'' then Some (pk_pgPort p)
      else if k = ''listen_addresses'' then Some (''127.0.0.1,'' @ pk_pgListenAddress p)
      else case fmlookup (mandatoryPGParameters h p db) k of
        Some v \<Rightarrow> Some v | None \<Rightarrow> fmlookup (base_parameters h p db) k)"
  by (simp add: createPGParameters_def Let_def fmlookup_add2 base_parameters_def synchronousStandbyNames_def del: fmlookup_add cong: option.case_cong)

text \<open>
  The managed parameters. Neither the user's parameters nor the ones found at the initialization replace a parameter that
  stolon manages (\<open>wal_log_hints\<close> only while pg\_rewind is used); the number of WAL senders is computed on 16 bits;
  every other parameter is the user's, or else the one found at the initialization when it is to be included.
\<close>

theorem pg_parameters_managed:
  "fmlookup (createPGParameters h p db) ''port'' = Some (pk_pgPort p) \<and>
   fmlookup (createPGParameters h p db) ''listen_addresses'' = Some (''127.0.0.1,'' @ pk_pgListenAddress p) \<and>
   fmlookup (createPGParameters h p db) ''unix_socket_directories'' = Some ''/tmp'' \<and>
   fmlookup (createPGParameters h p db) ''wal_keep_segments'' = Some ''8'' \<and>
   fmlookup (createPGParameters h p db) ''hot_standby'' = Some ''on'' \<and>
   fmlookup (createPGParameters h p db) ''max_replication_slots'' = Some (print_nat 10 (unat (dbs_MaxStandbys (db_Spec db)))) \<and>
   fmlookup (createPGParameters h p db) ''max_wal_senders'' =
     Some (print_nat 10 ((2 * unat (dbs_MaxStandbys (db_Spec db)) + 2 + unat (dbs_AdditionalWalSenders (db_Spec db))) mod 65536)) \<and>
   (\<exists>l\<in>{''hot_standby'', ''replica'', ''logical''}. fmlookup (createPGParameters h p db) ''wal_level'' = Some l) \<and>
   (dbs_UsePgrewind (db_Spec db) \<longrightarrow> fmlookup (createPGParameters h p db) ''wal_log_hints'' = Some ''on'') \<and>
   (k \<notin> set (''wal_level'' # managedPGParameters) \<or> k = ''wal_log_hints'' \<and> \<not> dbs_UsePgrewind (db_Spec db) \<longrightarrow>
     fmlookup (createPGParameters h p db) k =
       (case fmlookup (params (dbs_PGParameters (db_Spec db))) k of
          Some v \<Rightarrow> Some v
        | None \<Rightarrow> if dbs_IncludeConfig (db_Spec db) then fmlookup (params (ls_InitPGParameters (pk_dbLocalState p))) k else None))"
proof -
  have "fmlookup (createPGParameters h p db) ''wal_level'' = Some (walLevel h p db)"
    by (simp add: createPGParameters_lookup mandatory_lookup)
  moreover have "k \<notin> set (''wal_level'' # managedPGParameters) \<or> k = ''wal_log_hints'' \<and> \<not> dbs_UsePgrewind (db_Spec db) \<Longrightarrow>
     fmlookup (createPGParameters h p db) k = fmlookup (base_parameters h p db) k"
  proof (elim disjE)
    assume "k \<notin> set (''wal_level'' # managedPGParameters)"
    then show ?thesis by (simp add: createPGParameters_lookup mandatory_lookup managedPGParameters_def)
  next
    assume "k = ''wal_log_hints'' \<and> \<not> dbs_UsePgrewind (db_Spec db)"
    then show ?thesis by (simp add: createPGParameters_lookup mandatory_lookup)
  qed
  ultimately show ?thesis
    using walLevel_range [of h p db]
    by (simp add: createPGParameters_lookup mandatory_lookup wal_senders) (simp add: base_parameters_def fmlookup_add2 del: fmlookup_add split: option.splits)
qed

text \<open>
  The synchronous standby names. The names that the keeper configures are read back by
  \<^verbatim>\<open>parseSynchronousStandbyNames\<close>, when they contain no spaces, commas and parentheses: all synchronous
  standbys of the specification, with their stolon names, and the external ones.
\<close>

theorem sync_names_roundtrip:
  assumes "dbs_SynchronousReplication (db_Spec db)"
    and "names = map StolonName (elems (dbs_SynchronousStandbys (db_Spec db))) @ elems (dbs_ExternalSynchronousStandbys (db_Spec db))"
    and "names \<noteq> []" "\<forall>s\<in>set names. plain_name s" "length names < 2 ^ 63"
  shows "\<exists>s. fmlookup (createPGParameters h p db) ''synchronous_standby_names'' = Some s \<and>
    parseSynchronousStandbyNames s = Inr names"
  using assms(1) sync_names_read_back [OF assms(3-5)] by (simp add: createPGParameters_lookup assms(2))

text \<open>
  The keeper and the sentinel agree on when an instance is on another branch of the timeline: the two copies of the function
  give the same answer when the status in the cluster data is what the keeper reported.
\<close>

theorem timeline_branch_agrees:
  assumes "st_TimelineID (db_Status db) = pst_TimelineID s" "st_XLogPos (db_Status db) = pst_XLogPos s"
    and "st_TimelinesHistory (db_Status db) = pst_TimelinesHistory s"
  shows "keeper_isDifferentTimelineBranch followedDB s = isDifferentTimelineBranch followedDB db"
  using assms by (auto simp: keeper_isDifferentTimelineBranch_def isDifferentTimelineBranch_def Let_def split: option.splits)


text \<open>
  The access rules. Go iterates over the databases in an arbitrary order; the addresses are sorted, so that the rules do not
  depend on it.
\<close>

lemma mset_range_by: "mset (range_by ord m) = mset (range_by ord' m)"
  by (metis distinct_range_by in_range_by_iff set_eq_iff_mset_eq_distinct subsetI subset_antisym surj_pair)

lemma sorted_addresses:
  "sort (map f (filter P (range_by ord m))) = sort (map f (filter P (range_by ord' m)))"
proof -
  have "mset (map f (filter P (range_by ord m))) = mset (map f (filter P (range_by ord' m)))"
    by (simp add: mset_filter mset_range_by [of ord m ord'])
  then show ?thesis by (metis properties_for_sort mset_sort sorted_sort)
qed

definition access_ok :: "'w PostgresKeeper \<Rightarrow> ClusterData \<Rightarrow> DB \<Rightarrow> string list \<Rightarrow> bool" where
  "access_ok p cd db access \<longleftrightarrow>
     (\<forall>l\<in>set access. \<exists>u other. l = hbaLine [''host all'', pk_pgSUUsername p, st_ListenAddress (db_Status other) @ ''/32'', pk_pgReplAuthMethod p] \<and>
         fmlookup (cd_DBs cd) u = Some other \<and> db_UID other \<noteq> db_UID db \<or>
       l = hbaLine [''host replication'', pk_pgReplUsername p, st_ListenAddress (db_Status other) @ ''/32'', pk_pgReplAuthMethod p] \<and>
         fmlookup (cd_DBs cd) u = Some other \<and> db_UID other \<noteq> db_UID db) \<and>
     (\<forall>u other. fmlookup (cd_DBs cd) u = Some other \<and> db_UID other \<noteq> db_UID db \<longrightarrow>
       hbaLine [''host replication'', pk_pgReplUsername p, st_ListenAddress (db_Status other) @ ''/32'', pk_pgReplAuthMethod p] \<in> set access)"

text \<open>
  The access rules. They do not depend on the order in which the databases are visited; the local rules come first and the
  user's last; in strict mode the instance that is not a master adds no rule for another host, and a master adds the rules of
  the addresses of the other databases, all of them and no others.
\<close>

theorem hba_correct:
  "generateHBA ord p cd db = generateHBA ord' p cd db \<and>
   (generateHBA ord p cd db = Inr hba \<and> defspec_of cd = Inr spec \<longrightarrow>
     (\<exists>access. hba =
        [hbaLine [''local postgres'', pk_pgSUUsername p, pk_pgSUAuthMethod p],
         hbaLine [''local replication'', pk_pgReplUsername p, pk_pgReplAuthMethod p]] @ access @
        (case dbs_PGHBA (db_Spec db) of Some user \<Rightarrow> user | None \<Rightarrow> [''host all all 0.0.0.0/0 md5'', ''host all all ::0/0 md5'']) \<and>
       (def_SUReplAccessMode spec = SUReplAccessStrict \<longrightarrow>
          (IsMaster db = Inr False \<longrightarrow> access = []) \<and> (IsMaster db = Inr True \<longrightarrow> access_ok p cd db access))))"
proof (intro conjI impI)
  show "generateHBA ord p cd db = generateHBA ord' p cd db"
    unfolding generateHBA_def Let_def by (subst sorted_addresses [of _ _ ord _ ord']) simp
  assume hba: "generateHBA ord p cd db = Inr hba \<and> defspec_of cd = Inr spec"
  let ?lines = "\<lambda>address. [hbaLine [''host all'', pk_pgSUUsername p, address @ ''/32'', pk_pgReplAuthMethod p],
       hbaLine [''host replication'', pk_pgReplUsername p, address @ ''/32'', pk_pgReplAuthMethod p]]"
  let ?addresses = "sort (map (\<lambda>(_, dbElt). st_ListenAddress (db_Status dbElt))
       (filter (\<lambda>(_, dbElt). db_UID dbElt \<noteq> db_UID db) (range_by ord (cd_DBs cd))))"
  have ok: "access_ok p cd db (concat (map ?lines ?addresses))"
    unfolding access_ok_def by force
  from hba ok show "\<exists>access. hba =
        [hbaLine [''local postgres'', pk_pgSUUsername p, pk_pgSUAuthMethod p],
         hbaLine [''local replication'', pk_pgReplUsername p, pk_pgReplAuthMethod p]] @ access @
        (case dbs_PGHBA (db_Spec db) of Some user \<Rightarrow> user | None \<Rightarrow> [''host all all 0.0.0.0/0 md5'', ''host all all ::0/0 md5'']) \<and>
       (def_SUReplAccessMode spec = SUReplAccessStrict \<longrightarrow>
          (IsMaster db = Inr False \<longrightarrow> access = []) \<and> (IsMaster db = Inr True \<longrightarrow> access_ok p cd db access))"
    unfolding generateHBA_def Let_def
    by (auto simp: bindE_def split: sum.split_asm SUReplAccessMode.split_asm if_split_asm)
qed


section \<open>Examples\<close>

definition keeperOn :: "'w Manager \<Rightarrow> 'w PostgresKeeper" where
  "keeperOn m = \<lparr>
     pk_bootUUID = ''b'', pk_dataDir = ''/data'', pk_pgBinPath = ''/usr/bin'', pk_pgListenAddress = ''10.0.0.1'', pk_pgPort = ''5432'',
     pk_pgReplAuthMethod = ''md5'', pk_pgReplUsername = ''repl'', pk_pgReplPassword = ''secret'',
     pk_pgSUAuthMethod = ''md5'', pk_pgSUUsername = ''postgres'', pk_pgSUPassword = ''secret'',
     pk_sleepInterval = second, pk_requestTimeout = second,
     pk_keeperLocalState = \<lparr>kls_UID = ''k1'', kls_ClusterUID = ''c''\<rparr>,
     pk_dbLocalState = \<lparr>ls_UID = ''db1'', ls_Generation = 1, ls_Initializing = False, ls_InitPGParameters = None\<rparr>,
     pk_lastPGState = None, pk_pgm = m\<rparr>"

definition example_pk :: "(int \<times> bool) PostgresKeeper" where
  "example_pk = keeperOn exampleManager"

definition example_sync_master :: DB where
  "example_sync_master = example_master\<lparr>db_Spec := (db_Spec example_master)\<lparr>
     dbs_SynchronousReplication := True, dbs_SynchronousStandbys := Some [''db2'', ''db3''],
     dbs_PGParameters := Some (fmap_of_list [(''port'', ''1''), (''work_mem'', ''8MB'')])\<rparr>\<rparr>"

theorem pg_parameters_managed_witness:
  "fmlookup (createPGParameters clockHost example_pk example_sync_master) ''port'' = Some ''5432'' \<and>
   fmlookup (createPGParameters clockHost example_pk example_sync_master) ''work_mem'' = Some ''8MB''"
  using pg_parameters_managed [of clockHost example_pk example_sync_master "''work_mem''"]
  by (simp add: managedPGParameters_def, simp add: example_pk_def keeperOn_def example_sync_master_def params_def)

theorem sync_names_roundtrip_witness:
  "\<exists>s. fmlookup (createPGParameters clockHost example_pk example_sync_master) ''synchronous_standby_names'' = Some s \<and>
    parseSynchronousStandbyNames s = Inr [''stolon_db2'', ''stolon_db3'']"
  by (rule sync_names_roundtrip)
    (simp_all add: example_sync_master_def example_master_def zero_DBSpec_def StolonName_def stolonPrefix_def plain_name_def IsSpace_def)

definition example_pgstate :: PostgresState where
  "example_pgstate = \<lparr>pst_UID = ''db2'', pst_Generation = 1, pst_ListenAddress = ''10.0.0.2'', pst_Port = ''5432'', pst_Healthy = True,
     pst_SystemID = ''1'', pst_TimelineID = 1, pst_XLogPos = 90, pst_TimelinesHistory = [], pst_PGParameters = None,
     pst_SynchronousStandbys = None, pst_OlderWalFile = ''''\<rparr>"

theorem timeline_branch_agrees_witness:
  "keeper_isDifferentTimelineBranch example_master example_pgstate = isDifferentTimelineBranch example_master example_standby"
  by (rule timeline_branch_agrees) (simp_all add: example_standby_def example_pgstate_def zero_DBStatus_def)

definition strict_cd :: ClusterData where
  "strict_cd = example_cd\<lparr>cd_Cluster := Some (example_cluster\<lparr>c_Spec := Some (example_spec\<lparr>cs_DefaultSUReplAccessMode := Some SUReplAccessStrict\<rparr>)\<rparr>)\<rparr>"

lemma strict_defspec:
  "defspec_of strict_cd = Inr (WithDefaults (example_spec\<lparr>cs_DefaultSUReplAccessMode := Some SUReplAccessStrict\<rparr>))"
  by (simp add: defspec_of_def cluster_of_def strict_cd_def DefSpec_def)

lemma strict_mode: "def_SUReplAccessMode (WithDefaults (s\<lparr>cs_DefaultSUReplAccessMode := Some m\<rparr>)) = m"
  by (simp add: def_SUReplAccessMode_def val_def WithDefaults_def or_default_def)

lemma IsMaster_example: "IsMaster example_standby = Inr False" "dbs_PGHBA (db_Spec example_standby) = None"
  by (simp_all add: IsMaster_def example_standby_def zero_DBSpec_def)

definition standby_hba :: "string list" where
  "standby_hba = [hbaLine [''local postgres'', ''postgres'', ''md5''], hbaLine [''local replication'', ''repl'', ''md5''],
     ''host all all 0.0.0.0/0 md5'', ''host all all ::0/0 md5'']"

theorem hba_correct_witness:
  "generateHBA rev example_pk strict_cd example_standby = Inr standby_hba \<and>
   (\<exists>access. standby_hba =
        [hbaLine [''local postgres'', pk_pgSUUsername example_pk, pk_pgSUAuthMethod example_pk],
         hbaLine [''local replication'', pk_pgReplUsername example_pk, pk_pgReplAuthMethod example_pk]] @ access @
        [''host all all 0.0.0.0/0 md5'', ''host all all ::0/0 md5''] \<and> access = [])"
proof -
  have "generateHBA rev example_pk strict_cd example_standby = Inr standby_hba"
    by (simp add: generateHBA_def strict_defspec strict_mode IsMaster_example example_pk_def keeperOn_def standby_hba_def)
  with hba_correct [of rev example_pk strict_cd example_standby rev standby_hba
      "WithDefaults (example_spec\<lparr>cs_DefaultSUReplAccessMode := Some SUReplAccessStrict\<rparr>)"] strict_defspec show ?thesis
    by (simp add: strict_mode IsMaster_example)
qed

end
