(* ===== verification/Config.thy ===== *)
theory Config
  imports Kube_Store Keeper_Conf
begin

text \<open>
  The configuration of the components: the checks of the command line (\<^verbatim>\<open>cmd/common.go\<close> and
  \<^verbatim>\<open>keeper\<close> of \<^verbatim>\<open>cmd/keeper/cmd/keeper.go\<close>) and the choice of the store and of the
  election (\<^verbatim>\<open>NewKVStore\<close> of \<^verbatim>\<open>kvbacked.go\<close>, \<^verbatim>\<open>NewStore\<close> and
  \<^verbatim>\<open>NewElection\<close> of \<^verbatim>\<open>common.go\<close>). A fatal error is an \<open>Error\<close>. The
  parser of URLs, the loading of certificates, the client libraries and the file system are parameters.
\<close>

section \<open>Common configuration\<close>

record CommonConfig =
  cc_IsStolonCtl :: bool
  cc_StoreBackend :: string
  cc_StoreEndpoints :: string
  cc_StorePrefix :: string
  cc_StoreCertFile :: string
  cc_StoreKeyFile :: string
  cc_StoreCAFile :: string
  cc_StoreSkipTlsVerify :: bool
  cc_ClusterName :: string
  cc_LogLevel :: string
  cc_KubeResourceKind :: string

definition CheckCommonConfig :: "CommonConfig \<Rightarrow> CommonConfig res" where
  "CheckCommonConfig cfg =
     (if cc_ClusterName cfg = '''' then Inl (Error ''cluster name required'')
      else if cc_StoreBackend cfg = '''' then Inl (Error ''store backend type required'')
      else if cc_StoreBackend cfg = ''consul'' then Inr cfg
      else if cc_StoreBackend cfg = ''etcd'' then Inr (cfg\<lparr>cc_StoreBackend := ''etcdv2''\<rparr>)
      else if cc_StoreBackend cfg = ''etcdv2'' then Inr cfg
      else if cc_StoreBackend cfg = ''etcdv3'' then Inr cfg
      else if cc_StoreBackend cfg = ''kubernetes'' then
        (if cc_KubeResourceKind cfg = '''' then Inl (Error ''unspecified kubernetes resource kind'')
         else if cc_KubeResourceKind cfg \<noteq> ''configmap'' then Inl (Error ''wrong kubernetes resource kind'')
         else Inr cfg)
      else Inl (Error ''Unknown store backend''))"

section \<open>Key value stores\<close>

record StoreConfig =
  sc_Backend :: string
  sc_Endpoints :: string
  sc_CertFile :: string
  sc_KeyFile :: string
  sc_CAFile :: string
  sc_SkipTLSVerify :: bool

definition DefaultEtcdEndpoints :: string where "DefaultEtcdEndpoints = ''http://127.0.0.1:2379''"
definition DefaultConsulEndpoints :: string where "DefaultConsulEndpoints = ''http://127.0.0.1:8500''"

text \<open>
  The regular expression \<^verbatim>\<open>^([a-zA-Z][a-zA-Z0-9+-.]*)://\<close>, where \<^verbatim>\<open>+-.\<close> is a range
  of characters.
\<close>

definition scheme_first :: "char \<Rightarrow> bool" where
  "scheme_first c = (let n = of_char c :: nat in 97 \<le> n \<and> n \<le> 122 \<or> 65 \<le> n \<and> n \<le> 90)"

definition scheme_char :: "char \<Rightarrow> bool" where
  "scheme_char c = (scheme_first c \<or> (let n = of_char c :: nat in 48 \<le> n \<and> n \<le> 57 \<or> 43 \<le> n \<and> n \<le> 46))"

definition URLSchemeRegexp :: "string \<Rightarrow> bool" where
  "URLSchemeRegexp e =
     (case e of
        [] \<Rightarrow> False
      | c # cs \<Rightarrow> scheme_first c \<and> has_prefix (dropWhile scheme_char cs) ''://'')"

text \<open>
  The loop over the endpoints: the scheme so far, and the addresses. \<open>parseURL\<close> gives the scheme and the host.
\<close>

fun endpointAddrs :: "(string \<Rightarrow> string + string \<times> string) \<Rightarrow> string \<Rightarrow> string list \<Rightarrow> (string \<times> string list) res" where
  "endpointAddrs parseURL scheme [] = Inr (scheme, [])"
| "endpointAddrs parseURL scheme (e # es) =
     bindE (if URLSchemeRegexp e
            then (case parseURL e of Inl err \<Rightarrow> Inl (Error (''cannot parse endpoint: '' @ err)) | Inr u \<Rightarrow> Inr u)
            else Inr (''http'', e)) (\<lambda>(curscheme, addr).
       let scheme = (if scheme = '''' then curscheme else scheme)
       in if scheme \<noteq> curscheme then Inl (Error ''all the endpoints must have the same scheme'')
          else bindE (endpointAddrs parseURL scheme es) (\<lambda>(scheme, addrs). Inr (scheme, addr # addrs)))"

text \<open>The store that is created: the library with its backend, the addresses and the TLS configuration.\<close>

datatype 'tls kvstore = LibKVStore string "string list" "'tls option" | EtcdV3Store "string list" "'tls option"

text \<open>With \<^verbatim>\<open>https\<close> the certificates are loaded.\<close>

definition storeTLS :: "(string \<Rightarrow> string \<Rightarrow> string \<Rightarrow> bool \<Rightarrow> string + 'tls) \<Rightarrow> StoreConfig \<Rightarrow> string \<Rightarrow> 'tls option res" where
  "storeTLS newTLS cfg scheme =
     (if scheme = ''https''
      then (case newTLS (sc_CertFile cfg) (sc_KeyFile cfg) (sc_CAFile cfg) (sc_SkipTLSVerify cfg) of
              Inl err \<Rightarrow> Inl (Error (''cannot create store tls config: '' @ err))
            | Inr tls \<Rightarrow> Inr (Some tls))
      else Inr None)"

definition backendStore :: "string \<Rightarrow> string list \<Rightarrow> 'tls option \<Rightarrow> 'tls kvstore" where
  "backendStore backend addrs tlsConfig =
     (if backend = ''etcdv3'' then EtcdV3Store addrs tlsConfig
      else LibKVStore (if backend = ''consul'' then ''consul'' else ''etcd'') addrs tlsConfig)"

definition NewKVStore ::
  "(string \<Rightarrow> string + string \<times> string) \<Rightarrow> (string \<Rightarrow> string \<Rightarrow> string \<Rightarrow> bool \<Rightarrow> string + 'tls) \<Rightarrow> ('tls kvstore \<Rightarrow> string + 'tls kvstore) \<Rightarrow>
   StoreConfig \<Rightarrow> 'tls kvstore res" where
  "NewKVStore parseURL newTLS connect cfg =
     (if sc_Backend cfg \<notin> {''consul'', ''etcdv2'', ''etcdv3''} then Inl (Error ''Unknown store backend'')
      else
        let endpointsStr = (if sc_Endpoints cfg = ''''
              then (if sc_Backend cfg = ''consul'' then DefaultConsulEndpoints else DefaultEtcdEndpoints)
              else sc_Endpoints cfg)
        in bindE (endpointAddrs parseURL '''' (Split endpointsStr (CHR '',''))) (\<lambda>(scheme, addrs).
           if scheme \<noteq> ''http'' \<and> scheme \<noteq> ''https'' then Inl (Error ''endpoints scheme must be http or https'')
           else
             bindE (storeTLS newTLS cfg scheme) (\<lambda>tlsConfig.
             case connect (backendStore (sc_Backend cfg) addrs tlsConfig) of
               Inl err \<Rightarrow> Inl (Error err)
             | Inr s \<Rightarrow> Inr s)))"

definition cmd_NewKVStore where
  "cmd_NewKVStore parseURL newTLS connect cfg =
     NewKVStore parseURL newTLS connect
       \<lparr>sc_Backend = cc_StoreBackend cfg, sc_Endpoints = cc_StoreEndpoints cfg, sc_CertFile = cc_StoreCertFile cfg,
        sc_KeyFile = cc_StoreKeyFile cfg, sc_CAFile = cc_StoreCAFile cfg, sc_SkipTLSVerify = cc_StoreSkipTlsVerify cfg\<rparr>"

section \<open>The store and the election\<close>

datatype 'tls store = KVBackedStore "'tls kvstore" string | KubernetesStore KubeStore

text \<open>The election of a library with the key, the uid of the candidate and the time to live, or the lock of kubernetes.\<close>

datatype 'tls election =
    LibkvElection "'tls kvstore" string string duration
  | Etcdv3Election "string list" "'tls option" string string duration
  | KubernetesElection string string

definition SentinelLeaderKey :: string where "SentinelLeaderKey = ''sentinel-leader''"

text \<open>
  \<open>kubecli\<close> is the result of creating the kubernetes client, \<open>namespace\<close> that of reading its namespace,
  \<open>podNameEnv\<close> the environment variable \<^verbatim>\<open>POD_NAME\<close>. A backend that is none of the four gives
  no store and no error.
\<close>

definition PodName :: "string \<Rightarrow> string res" where
  "PodName podNameEnv = (if podNameEnv = '''' then Inl (Error ''missing required env variable POD_NAME'') else Inr podNameEnv)"

definition NewStore where
  "NewStore parseURL newTLS connect kubecli namespace podNameEnv cfg =
     (if cc_StoreBackend cfg \<in> {''consul'', ''etcdv2'', ''etcdv3''} then
        (case cmd_NewKVStore parseURL newTLS connect cfg of
           Inl _ \<Rightarrow> Inl (Error ''cannot create kv store'')
         | Inr kvstore \<Rightarrow> Inr (Some (KVBackedStore kvstore (Join [cc_StorePrefix cfg, cc_ClusterName cfg]))))
      else if cc_StoreBackend cfg = ''kubernetes'' then
        bindE kubecli (\<lambda>_ :: unit.
        bindE (if \<not> cc_IsStolonCtl cfg then PodName podNameEnv else Inr '''') (\<lambda>podName.
        bindE namespace (\<lambda>_ :: unit.
          Inr (Some (KubernetesStore (NewKubeStore podName (cc_ClusterName cfg)))))))
      else Inr None)"

definition NewKVBackedElection :: "'tls kvstore \<Rightarrow> string \<Rightarrow> string \<Rightarrow> 'tls election" where
  "NewKVBackedElection kvStore path candidateUID =
     (case kvStore of
        LibKVStore backend addrs tlsConfig \<Rightarrow> LibkvElection kvStore path candidateUID MinTTL
      | EtcdV3Store addrs tlsConfig \<Rightarrow> Etcdv3Election addrs tlsConfig path candidateUID MinTTL)"

definition NewElection where
  "NewElection parseURL newTLS connect kubecli namespace podNameEnv cfg uid =
     (if cc_StoreBackend cfg \<in> {''consul'', ''etcdv2'', ''etcdv3''} then
        (case cmd_NewKVStore parseURL newTLS connect cfg of
           Inl _ \<Rightarrow> Inl (Error ''cannot create kv store'')
         | Inr kvstore \<Rightarrow>
             Inr (Some (NewKVBackedElection kvstore (Join [Join [cc_StorePrefix cfg, cc_ClusterName cfg], SentinelLeaderKey]) uid)))
      else if cc_StoreBackend cfg = ''kubernetes'' then
        bindE kubecli (\<lambda>_ :: unit.
        bindE (if \<not> cc_IsStolonCtl cfg then PodName podNameEnv else Inr '''') (\<lambda>podName.
        bindE namespace (\<lambda>_ :: unit.
          Inr (Some (KubernetesElection (KubeResourcePrefix @ ''-'' @ cc_ClusterName cfg) uid)))))
      else Inr None)"

section \<open>The keeper\<close>

record KeeperConfig =
  kf_CommonConfig :: CommonConfig
  kf_uid :: string
  kf_dataDir :: string
  kf_pgListenAddress :: string
  kf_pgPort :: string
  kf_pgBinPath :: string
  kf_pgReplAuthMethod :: string
  kf_pgReplUsername :: string
  kf_pgReplPassword :: string
  kf_pgReplPasswordFile :: string
  kf_pgSUAuthMethod :: string
  kf_pgSUUsername :: string
  kf_pgSUPassword :: string
  kf_pgSUPasswordFile :: string

definition validAuthMethods :: "string list" where
  "validAuthMethods = [''trust'', ''md5'']"

definition checkLogLevel :: "string \<Rightarrow> unit res" where
  "checkLogLevel level = (if level \<in> {''error'', ''warn'', ''info'', ''debug''} then Inr () else Inl (Error ''invalid log level''))"

text \<open>A check that is fatal.\<close>

definition fatalIf :: "bool \<Rightarrow> string \<Rightarrow> 'a res \<Rightarrow> 'a res" where
  "fatalIf b e r = (if b then Inl (Error e) else r)"

text \<open>The options for the access to postgres.\<close>

definition checkAuth :: "KeeperConfig \<Rightarrow> unit res" where
  "checkAuth cfg =
     fatalIf (kf_pgReplAuthMethod cfg \<notin> set validAuthMethods) ''--pg-repl-auth-method must be one of: md5, trust''
     (fatalIf (kf_pgReplUsername cfg = '''') ''--pg-repl-username is required''
     (fatalIf (kf_pgReplAuthMethod cfg = ''trust'' \<and> (kf_pgReplPassword cfg \<noteq> '''' \<or> kf_pgReplPasswordFile cfg \<noteq> ''''))
        ''can not utilize --pg-repl-auth-method trust together with --pg-repl-password or --pg-repl-passwordfile''
     (fatalIf (kf_pgSUAuthMethod cfg = ''trust'' \<and> (kf_pgSUPassword cfg \<noteq> '''' \<or> kf_pgSUPasswordFile cfg \<noteq> ''''))
        ''can not utilize --pg-su-auth-method trust together with --pg-su-password or --pg-su-passwordfile''
     (fatalIf (kf_pgReplAuthMethod cfg \<noteq> ''trust'' \<and> kf_pgReplPassword cfg = '''' \<and> kf_pgReplPasswordFile cfg = '''')
        ''one of --pg-repl-password or --pg-repl-passwordfile is required''
     (fatalIf (kf_pgReplAuthMethod cfg \<noteq> ''trust'' \<and> kf_pgReplPassword cfg \<noteq> '''' \<and> kf_pgReplPasswordFile cfg \<noteq> '''')
        ''only one of --pg-repl-password or --pg-repl-passwordfile must be provided''
     (fatalIf (kf_pgSUAuthMethod cfg \<notin> set validAuthMethods) ''--pg-su-auth-method must be one of: md5, password, trust''
     (fatalIf (kf_pgSUAuthMethod cfg \<noteq> ''trust'' \<and> kf_pgSUPassword cfg = '''' \<and> kf_pgSUPasswordFile cfg = '''')
        ''one of --pg-su-password or --pg-su-passwordfile is required''
     (fatalIf (kf_pgSUAuthMethod cfg \<noteq> ''trust'' \<and> kf_pgSUPassword cfg \<noteq> '''' \<and> kf_pgSUPasswordFile cfg \<noteq> '''')
        ''only one of --pg-su-password or --pg-su-passwordfile must be provided''
        (Inr ())))))))))"

definition readPassword :: "(string \<Rightarrow> string + string) \<Rightarrow> string \<Rightarrow> string \<Rightarrow> string \<Rightarrow> string res" where
  "readPassword readFile user file password =
     (if file \<noteq> ''''
      then (case readFile file of Inl _ \<Rightarrow> Inl (Error (''cannot read pg '' @ user @ '' password'')) | Inr pw \<Rightarrow> Inr pw)
      else Inr password)"

definition trimPassword :: "string \<Rightarrow> string \<Rightarrow> string res" where
  "trimPassword user password =
     (let tp = TrimRight (\<lambda>c. c = CHR 0x0D \<or> c = CHR 0x0A) password
      in if password \<noteq> tp \<and> tp = '''' then Inl (Error (user @ '' password is empty after removing trailing new line'')) else Inr tp)"

definition checkSameUser :: "KeeperConfig \<Rightarrow> unit res" where
  "checkSameUser cfg =
     (if kf_pgSUUsername cfg = kf_pgReplUsername cfg then
        fatalIf (kf_pgReplAuthMethod cfg \<noteq> kf_pgSUAuthMethod cfg) ''do not support different auth methods when utilizing superuser for replication.''
        (fatalIf (kf_pgSUPassword cfg \<noteq> kf_pgReplPassword cfg \<and> kf_pgSUAuthMethod cfg \<noteq> ''trust'' \<and> kf_pgReplAuthMethod cfg \<noteq> ''trust'')
           ''provided superuser name and replication user name are the same but provided passwords are different''
           (Inr ()))
      else Inr ())"

text \<open>\<open>mkdirAll\<close> creates the data directory, \<open>lockDir\<close> takes the lock in it.\<close>

definition keeper ::
  "(string \<Rightarrow> unit res) \<Rightarrow> (string \<Rightarrow> string + string) \<Rightarrow> (string \<Rightarrow> unit res) \<Rightarrow> KeeperConfig \<Rightarrow> KeeperConfig res" where
  "keeper mkdirAll readFile lockDir cfg =
     bindE (checkLogLevel (cc_LogLevel (kf_CommonConfig cfg))) (\<lambda>_.
     fatalIf (kf_dataDir cfg = '''') ''data dir required''
     (bindE (CheckCommonConfig (kf_CommonConfig cfg)) (\<lambda>common.
      bindE (mkdirAll (kf_dataDir cfg)) (\<lambda>_.
      fatalIf (kf_pgListenAddress cfg = '''') ''--pg-listen-address is required''
      (bindE (checkAuth cfg) (\<lambda>_.
       bindE (readPassword readFile ''replication user'' (kf_pgReplPasswordFile cfg) (kf_pgReplPassword cfg)) (\<lambda>replPassword.
       bindE (readPassword readFile ''superuser'' (kf_pgSUPasswordFile cfg) (kf_pgSUPassword cfg)) (\<lambda>suPassword.
       bindE (trimPassword ''superuser'' suPassword) (\<lambda>suPassword.
       bindE (trimPassword ''replication user'' replPassword) (\<lambda>replPassword.
       let cfg = cfg\<lparr>kf_CommonConfig := common, kf_pgReplPassword := replPassword, kf_pgSUPassword := suPassword\<rparr>
       in bindE (checkSameUser cfg) (\<lambda>_.
          bindE (lockDir (kf_dataDir cfg)) (\<lambda>_.
          fatalIf (kf_uid cfg \<noteq> '''' \<and> \<not> IsValidReplSlotName (kf_uid cfg)) ''keeper uid not valid''
            (Inr cfg)))))))))))))"

section \<open>The sentinel and the proxy\<close>

definition sentinel_main :: "CommonConfig \<Rightarrow> CommonConfig res" where
  "sentinel_main cfg = bindE (checkLogLevel (cc_LogLevel cfg)) (\<lambda>_. CheckCommonConfig cfg)"

record ProxyConfig =
  pf_CommonConfig :: CommonConfig
  pf_listenAddress :: string
  pf_port :: string
  pf_stopListening :: bool
  pf_keepAliveIdle :: int
  pf_keepAliveCount :: int
  pf_keepAliveInterval :: int

definition proxy_main :: "ProxyConfig \<Rightarrow> ProxyConfig res" where
  "proxy_main cfg =
     bindE (checkLogLevel (cc_LogLevel (pf_CommonConfig cfg))) (\<lambda>_.
     bindE (CheckCommonConfig (pf_CommonConfig cfg)) (\<lambda>common.
       fatalIf (pf_keepAliveIdle cfg < 0) ''tcp keepalive idle value must be greater or equal to 0''
       (fatalIf (pf_keepAliveCount cfg < 0) ''tcp keepalive idle value must be greater or equal to 0''
       (fatalIf (pf_keepAliveInterval cfg < 0) ''tcp keepalive idle value must be greater or equal to 0''
         (Inr (cfg\<lparr>pf_CommonConfig := common\<rparr>))))))"

section \<open>What the checks ensure\<close>

lemma fatalIf_Inr [simp]: "fatalIf b e r = Inr x \<longleftrightarrow> \<not> b \<and> r = Inr x"
  by (simp add: fatalIf_def)

definition no_newline_end :: "string \<Rightarrow> bool" where
  "no_newline_end s \<longleftrightarrow> s = '''' \<or> last s \<notin> {CHR 0x0D, CHR 0x0A}"

lemma trimPassword_ok:
  assumes "trimPassword user p = Inr q"
  shows "no_newline_end q" and "q = '''' \<longleftrightarrow> p = ''''"
proof -
  let ?P = "\<lambda>c. c = CHR 0x0D \<or> c = CHR 0x0A"
  have q: "q = rev (dropWhile ?P (rev p))" using assms by (auto simp: trimPassword_def TrimRight_def Let_def split: if_splits)
  have "q \<noteq> '''' \<Longrightarrow> \<not> ?P (last q)" unfolding q using hd_dropWhile [of ?P "rev p"] by (simp add: last_rev)
  then show "no_newline_end q" by (auto simp: no_newline_end_def)
  show "q = '''' \<longleftrightarrow> p = ''''" using assms by (auto simp: trimPassword_def TrimRight_def Let_def split: if_splits)
qed

text \<open>How a password is accepted, for one of the two users.\<close>

definition password_ok :: "(string \<Rightarrow> string + string) \<Rightarrow> string \<Rightarrow> string \<Rightarrow> string \<Rightarrow> bool" where
  "password_ok readFile authMethod file password \<longleftrightarrow>
     (authMethod = ''trust'' \<longrightarrow> password = '''') \<and>
     (authMethod \<noteq> ''trust'' \<longrightarrow> password \<noteq> '''' \<or> file \<noteq> '''' \<and> readFile file = Inr '''') \<and> no_newline_end password"

text \<open>
  C34. What a keeper that starts can rely on. The authentication methods are among those that the messages name
  (\<^verbatim>\<open>md5\<close> and \<^verbatim>\<open>trust\<close>, and \<^verbatim>\<open>password\<close> for the superuser);
  with \<^verbatim>\<open>trust\<close> there is no password and otherwise there is one, unless it was read from an empty file;
  passwords do not end with a line break; if one user serves for both purposes, the methods and the passwords agree; a configured
  uid can be part of a replication slot name; and the store backend is one that can be created.
\<close>

theorem keeper_config_sound:
  assumes "keeper mkdirAll readFile lockDir cfg = Inr cfg'"
  shows "kf_pgReplAuthMethod cfg' \<in> {''md5'', ''trust''} \<and> kf_pgSUAuthMethod cfg' \<in> {''md5'', ''password'', ''trust''} \<and>
    password_ok readFile (kf_pgReplAuthMethod cfg') (kf_pgReplPasswordFile cfg') (kf_pgReplPassword cfg') \<and>
    password_ok readFile (kf_pgSUAuthMethod cfg') (kf_pgSUPasswordFile cfg') (kf_pgSUPassword cfg') \<and>
    kf_pgReplUsername cfg' \<noteq> '''' \<and> kf_pgListenAddress cfg' \<noteq> '''' \<and> kf_dataDir cfg' \<noteq> '''' \<and>
    (kf_pgSUUsername cfg' = kf_pgReplUsername cfg' \<longrightarrow>
       kf_pgSUAuthMethod cfg' = kf_pgReplAuthMethod cfg' \<and> kf_pgSUPassword cfg' = kf_pgReplPassword cfg') \<and>
    (kf_uid cfg' \<noteq> '''' \<longrightarrow> IsValidReplSlotName (StolonName (kf_uid cfg'))) \<and>
    cc_StoreBackend (kf_CommonConfig cfg') \<in> {''consul'', ''etcdv2'', ''etcdv3'', ''kubernetes''}"
proof -
  from assms obtain common repl su repl' su' where
    k: "CheckCommonConfig (kf_CommonConfig cfg) = Inr common" "checkAuth cfg = Inr ()"
      "readPassword readFile ''replication user'' (kf_pgReplPasswordFile cfg) (kf_pgReplPassword cfg) = Inr repl"
      "readPassword readFile ''superuser'' (kf_pgSUPasswordFile cfg) (kf_pgSUPassword cfg) = Inr su"
      "trimPassword ''superuser'' su = Inr su'" "trimPassword ''replication user'' repl = Inr repl'"
      "checkSameUser (cfg\<lparr>kf_CommonConfig := common, kf_pgReplPassword := repl', kf_pgSUPassword := su'\<rparr>) = Inr ()"
      "cfg' = cfg\<lparr>kf_CommonConfig := common, kf_pgReplPassword := repl', kf_pgSUPassword := su'\<rparr>"
      "kf_dataDir cfg \<noteq> ''''" "kf_pgListenAddress cfg \<noteq> ''''" "kf_uid cfg = '''' \<or> IsValidReplSlotName (kf_uid cfg)"
    unfolding keeper_def Let_def bindE_eq_Inr fatalIf_Inr by (elim exE conjE) simp
  have auth: "kf_pgReplAuthMethod cfg \<in> {''trust'', ''md5''}" "kf_pgSUAuthMethod cfg \<in> {''trust'', ''md5''}" "kf_pgReplUsername cfg \<noteq> ''''"
    "kf_pgReplAuthMethod cfg = ''trust'' \<Longrightarrow> kf_pgReplPassword cfg = '''' \<and> kf_pgReplPasswordFile cfg = ''''"
    "kf_pgSUAuthMethod cfg = ''trust'' \<Longrightarrow> kf_pgSUPassword cfg = '''' \<and> kf_pgSUPasswordFile cfg = ''''"
    "kf_pgReplAuthMethod cfg \<noteq> ''trust'' \<Longrightarrow> (kf_pgReplPassword cfg = '''') \<noteq> (kf_pgReplPasswordFile cfg = '''')"
    "kf_pgSUAuthMethod cfg \<noteq> ''trust'' \<Longrightarrow> (kf_pgSUPassword cfg = '''') \<noteq> (kf_pgSUPasswordFile cfg = '''')"
    using k(2) unfolding checkAuth_def fatalIf_Inr validAuthMethods_def by (simp_all, blast+)
  have repl: "password_ok readFile (kf_pgReplAuthMethod cfg) (kf_pgReplPasswordFile cfg) repl'"
    using auth(1,4,6) k(3) trimPassword_ok [OF k(6)] unfolding password_ok_def
    by (auto simp: readPassword_def split: if_splits sum.splits)
  have su: "password_ok readFile (kf_pgSUAuthMethod cfg) (kf_pgSUPasswordFile cfg) su'"
    using auth(2,5,7) k(4) trimPassword_ok [OF k(5)] unfolding password_ok_def
    by (auto simp: readPassword_def split: if_splits sum.splits)
  have same: "kf_pgSUAuthMethod cfg = kf_pgReplAuthMethod cfg \<and> su' = repl'" if "kf_pgSUUsername cfg = kf_pgReplUsername cfg"
    using k(7) that repl su auth(1,2) by (auto simp: checkSameUser_def password_ok_def)
  have uid: "IsValidReplSlotName (StolonName (kf_uid cfg))" if "kf_uid cfg \<noteq> ''''"
    using k(11) that unfolding IsValidReplSlotName_def StolonName_def list_all_append
    by (simp add: stolonPrefix_def) (simp add: slot_char_def)
  have "cc_StoreBackend common \<in> {''consul'', ''etcdv2'', ''etcdv3'', ''kubernetes''}"
    using k(1) by (auto simp: CheckCommonConfig_def split: if_splits)
  with repl su same uid auth(1-3) k(8-10) show ?thesis by auto
qed

text \<open>
  The checks leave a backend for which there are a store and an election: a checked configuration never gives neither a store
  nor an error. Checking it again changes nothing.
\<close>

theorem checked_config_store:
  assumes "CheckCommonConfig cfg = Inr cfg'"
  shows "CheckCommonConfig cfg' = Inr cfg' \<and> NewStore parseURL newTLS connect kubecli namespace pod cfg' \<noteq> Inr None \<and>
    NewElection parseURL newTLS connect kubecli namespace pod cfg' uid \<noteq> Inr None"
proof -
  have b: "cc_StoreBackend cfg' = ''consul'' \<or> cc_StoreBackend cfg' = ''etcdv2'' \<or> cc_StoreBackend cfg' = ''etcdv3'' \<or> cc_StoreBackend cfg' = ''kubernetes''"
    and i: "CheckCommonConfig cfg' = Inr cfg'"
    using assms by (auto simp: CheckCommonConfig_def split: if_splits)
  from b show ?thesis using i by (auto simp: NewStore_def NewElection_def res_simps split: sum.splits)
qed

lemma commands_checked:
  "sentinel_main cfg = Inr cfg' \<Longrightarrow> CheckCommonConfig cfg = Inr cfg'"
  "proxy_main pcfg = Inr pcfg' \<Longrightarrow> CheckCommonConfig (pf_CommonConfig pcfg) = Inr (pf_CommonConfig pcfg') \<and>
     0 \<le> pf_keepAliveIdle pcfg' \<and> 0 \<le> pf_keepAliveCount pcfg' \<and> 0 \<le> pf_keepAliveInterval pcfg'"
  by (auto simp: sentinel_main_def proxy_main_def bindE_eq_Inr)

text \<open>The scheme of one endpoint.\<close>

definition endpointScheme :: "(string \<Rightarrow> string + string \<times> string) \<Rightarrow> string \<Rightarrow> string" where
  "endpointScheme parseURL e = (if URLSchemeRegexp e then fst (projr (parseURL e)) else ''http'')"

definition endpointAddr :: "(string \<Rightarrow> string + string \<times> string) \<Rightarrow> string \<Rightarrow> string" where
  "endpointAddr parseURL e = (if URLSchemeRegexp e then snd (projr (parseURL e)) else e)"

lemma endpointAddrs_Cons:
  assumes "endpointAddrs parseURL scheme (e # es) = Inr (scheme', addrs)"
  shows "\<exists>addrs'. (scheme = '''' \<or> scheme = endpointScheme parseURL e) \<and> addrs = endpointAddr parseURL e # addrs' \<and>
    endpointAddrs parseURL (endpointScheme parseURL e) es = Inr (scheme', addrs') \<and>
    (URLSchemeRegexp e \<longrightarrow> (\<exists>u. parseURL e = Inr u))"
  using assms
  by (auto simp: res_simps Let_def endpointScheme_def endpointAddr_def split: if_splits sum.splits)

lemma endpointAddrs_ok:
  assumes "endpointAddrs parseURL scheme es = Inr (scheme', addrs)"
    and "\<forall>e scheme host. parseURL e = Inr (scheme, host) \<longrightarrow> scheme \<noteq> ''''"
  shows "addrs = map (endpointAddr parseURL) es \<and> (scheme \<noteq> '''' \<longrightarrow> scheme' = scheme) \<and>
    (\<forall>e\<in>set es. endpointScheme parseURL e = scheme')"
  using assms(1)
proof (induction es arbitrary: scheme scheme' addrs)
  case (Cons e es)
  from endpointAddrs_Cons [OF Cons.prems] obtain addrs' where
    c: "scheme = '''' \<or> scheme = endpointScheme parseURL e" "addrs = endpointAddr parseURL e # addrs'"
      "endpointAddrs parseURL (endpointScheme parseURL e) es = Inr (scheme', addrs')" "URLSchemeRegexp e \<longrightarrow> (\<exists>u. parseURL e = Inr u)"
    by blast
  have "endpointScheme parseURL e \<noteq> ''''"
  proof (cases "URLSchemeRegexp e")
    case True
    then obtain sch host where "parseURL e = Inr (sch, host)" using c(4) by auto
    moreover from this assms(2) have "sch \<noteq> ''''" by blast
    ultimately show ?thesis using True by (simp add: endpointScheme_def)
  qed (simp add: endpointScheme_def)
  with Cons.IH [OF c(3)] c(1,2) show ?case by auto
qed simp

lemma case_error_Inr: "(case c of Inl e \<Rightarrow> Inl (Error e) | Inr x \<Rightarrow> Inr x) = Inr y \<longleftrightarrow> c = Inr y"
  by (cases c) auto

text \<open>
  The endpoints of a key value store. When the store is created, every endpoint (one without a scheme counts as
  \<^verbatim>\<open>http\<close>) has the scheme \<^verbatim>\<open>http\<close>, and no TLS is used, or every one has the scheme
  \<^verbatim>\<open>https\<close>, and the TLS configuration that the options give is used; the addresses are those of the
  endpoints in their order.
\<close>

theorem endpoints_correct:
  assumes "NewKVStore parseURL newTLS connect cfg = Inr s" and "sc_Endpoints cfg \<noteq> ''''"
    and "\<forall>e scheme host. parseURL e = Inr (scheme, host) \<longrightarrow> scheme \<noteq> ''''"
  shows "\<exists>tls. connect (backendStore (sc_Backend cfg) (map (endpointAddr parseURL) (Split (sc_Endpoints cfg) (CHR '',''))) tls) = Inr s \<and>
    (case tls of
       None \<Rightarrow> \<forall>e\<in>set (Split (sc_Endpoints cfg) (CHR '','')). endpointScheme parseURL e = ''http''
     | Some t \<Rightarrow> newTLS (sc_CertFile cfg) (sc_KeyFile cfg) (sc_CAFile cfg) (sc_SkipTLSVerify cfg) = Inr t \<and>
         (\<forall>e\<in>set (Split (sc_Endpoints cfg) (CHR '','')). endpointScheme parseURL e = ''https''))"
proof -
  let ?es = "Split (sc_Endpoints cfg) (CHR '','')"
  from assms(1,2) obtain scheme addrs tls where
    e: "endpointAddrs parseURL '''' ?es = Inr (scheme, addrs)" "scheme = ''http'' \<or> scheme = ''https''"
    and t: "storeTLS newTLS cfg scheme = Inr tls" and c: "connect (backendStore (sc_Backend cfg) addrs tls) = Inr s"
    unfolding NewKVStore_def Let_def by (auto simp: res_simps case_error_Inr split: if_split_asm)
  note a = endpointAddrs_ok [OF e(1) assms(3)]
  have "case tls of None \<Rightarrow> scheme = ''http''
      | Some t \<Rightarrow> scheme = ''https'' \<and> newTLS (sc_CertFile cfg) (sc_KeyFile cfg) (sc_CAFile cfg) (sc_SkipTLSVerify cfg) = Inr t"
    using t e(2) by (auto simp: storeTLS_def split: sum.splits if_splits)
  with a c show ?thesis by (intro exI [of _ tls]) (auto split: option.splits)
qed

section \<open>Examples\<close>

definition example_config :: KeeperConfig where
  "example_config =
     \<lparr>kf_CommonConfig = \<lparr>cc_IsStolonCtl = False, cc_StoreBackend = ''etcd'', cc_StoreEndpoints = ''https://h1:2379,https://h2:2379'',
        cc_StorePrefix = ''stolon/cluster'', cc_StoreCertFile = '''', cc_StoreKeyFile = '''', cc_StoreCAFile = '''', cc_StoreSkipTlsVerify = False,
        cc_ClusterName = ''c'', cc_LogLevel = ''info'', cc_KubeResourceKind = ''''\<rparr>,
      kf_uid = ''keeper1'', kf_dataDir = ''/data'', kf_pgListenAddress = ''10.0.0.1'', kf_pgPort = ''5432'', kf_pgBinPath = '''',
      kf_pgReplAuthMethod = ''md5'', kf_pgReplUsername = ''repl'', kf_pgReplPassword = '''', kf_pgReplPasswordFile = ''f'',
      kf_pgSUAuthMethod = ''trust'', kf_pgSUUsername = ''stolon'', kf_pgSUPassword = '''', kf_pgSUPasswordFile = ''''\<rparr>"

theorem keeper_config_sound_witness:
  "\<exists>cfg'. keeper (\<lambda>_. Inr ()) (\<lambda>_. Inr ''secret\<newline>'') (\<lambda>_. Inr ()) example_config = Inr cfg' \<and>
     kf_pgReplPassword cfg' \<noteq> '''' \<and> no_newline_end (kf_pgReplPassword cfg') \<and> IsValidReplSlotName (StolonName (kf_uid cfg'))"
proof -
  have r: "is_ok (keeper (\<lambda>_. Inr ()) (\<lambda>_. Inr ''secret\<newline>'') (\<lambda>_. Inr ()) example_config)" by code_simp
  then obtain cfg' where k: "keeper (\<lambda>_. Inr ()) (\<lambda>_. Inr ''secret\<newline>'') (\<lambda>_. Inr ()) example_config = Inr cfg'" by (auto simp: is_ok_iff)
  have "kf_pgReplAuthMethod (projr (keeper (\<lambda>_. Inr ()) (\<lambda>_. Inr ''secret\<newline>'') (\<lambda>_. Inr ()) example_config)) = ''md5'' \<and>
      kf_uid (projr (keeper (\<lambda>_. Inr ()) (\<lambda>_. Inr ''secret\<newline>'') (\<lambda>_. Inr ()) example_config)) = ''keeper1''" by code_simp
  with keeper_config_sound [OF k] k show ?thesis by (auto simp: password_ok_def)
qed

theorem checked_config_store_witness:
  "CheckCommonConfig ((kf_CommonConfig example_config)\<lparr>cc_StoreBackend := ''etcdv2''\<rparr>) =
     Inr ((kf_CommonConfig example_config)\<lparr>cc_StoreBackend := ''etcdv2''\<rparr>)"
  using checked_config_store [of "kf_CommonConfig example_config"] by (simp add: CheckCommonConfig_def example_config_def)

text \<open>A parser for the example: the scheme up to the colon, the host after the slashes.\<close>

definition example_parseURL :: "string \<Rightarrow> string + string \<times> string" where
  "example_parseURL e =
     (let scheme = takeWhile (\<lambda>c. c \<noteq> CHR '':'') e in if scheme = '''' then Inl ''missing scheme'' else Inr (scheme, drop (length scheme + 3) e))"

definition example_store_config :: StoreConfig where
  "example_store_config = \<lparr>sc_Backend = ''etcdv3'', sc_Endpoints = ''https://h1:2379,https://h2:2379'', sc_CertFile = '''', sc_KeyFile = '''',
     sc_CAFile = '''', sc_SkipTLSVerify = False\<rparr>"

theorem endpoints_correct_witness:
  "\<exists>s. NewKVStore example_parseURL (\<lambda>_ _ _ _. Inr ()) Inr example_store_config = Inr s \<and>
     backendStore ''etcdv3'' (map (endpointAddr example_parseURL) (Split ''https://h1:2379,https://h2:2379'' (CHR '',''))) (Some ()) = s"
proof -
  have "is_ok (NewKVStore example_parseURL (\<lambda>_ _ _ _. Inr ()) Inr example_store_config)" by code_simp
  then obtain s where s: "NewKVStore example_parseURL (\<lambda>_ _ _ _. Inr ()) Inr example_store_config = Inr s" by (auto simp: is_ok_iff)
  have p: "\<forall>e scheme host. example_parseURL e = Inr (scheme, host) \<longrightarrow> scheme \<noteq> ''''"
    by (auto simp: example_parseURL_def Let_def split: if_splits)
  have h: "\<not> list_all (\<lambda>e. endpointScheme example_parseURL e = ''http'') (Split ''https://h1:2379,https://h2:2379'' (CHR '',''))" by code_simp
  have n: "sc_Endpoints example_store_config \<noteq> ''''" by (simp add: example_store_config_def)
  from endpoints_correct [OF s n p] s h show ?thesis
    by (auto simp: example_store_config_def list_all_iff split: option.splits)
qed

end
