(* ===== verification/Proxy.thy ===== *)
theory Proxy
  imports Sentinel_Check
begin

text \<open>
  The proxy (\<^verbatim>\<open>cmd/proxy/cmd/proxy.go\<close>): the \<^verbatim>\<open>ClusterChecker\<close> with its check of the
  cluster data and its timeout checker, and the pollon proxies it drives (the vendored \<^verbatim>\<open>pollon.go\<close>). They
  are goroutines, and a step of the process is one section of one of them: a call of the store, a section under the mutex of the
  checker, a configuration that pollon applies, a connection. The calls outside (the store, listening, resolving an address) are
  arguments or labels.

  \<^verbatim>\<open>Check\<close> is a program: what is left of it is part of the state of the process, so that the other
  goroutines run between any two of its calls.

  The results: a check forwards only to the address of the database that the cluster data names as the master for the proxies, and
  only if this proxy is enabled and its information is in the store; in every interleaving the pollon proxy in use forwards no
  longer than the timeout after the last good check; and a proxy acknowledges that there is no master only after pollon was told to
  close.
\<close>

section \<open>The pollon proxy\<close>

text \<open>
  The destination, a configuration that was received and is not yet applied, the open connections by their destinations, and the
  connections whose channel \<^verbatim>\<open>closeConns\<close> is closed and that are about to end. An address is its printed
  form, which is what pollon compares.
\<close>

type_synonym addr = string

record Pollon =
  pol_destAddr :: "addr option"
  pol_received :: "addr option option"
  pol_conns :: "addr list"
  pol_closing :: "addr list"

definition pollon_NewProxy :: Pollon where
  "pollon_NewProxy = \<lparr>pol_destAddr = None, pol_received = None, pol_conns = [], pol_closing = []\<rparr>"

text \<open>The configuration \<open>dest\<close> is applied: a new destination closes the connections to the old one.\<close>

definition pollon_confCheck :: "addr option \<Rightarrow> Pollon \<Rightarrow> Pollon" where
  "pollon_confCheck dest p =
     (if dest \<noteq> pol_destAddr p
      then \<lparr>pol_destAddr = dest, pol_received = None, pol_conns = [], pol_closing = pol_conns p @ pol_closing p\<rparr>
      else p\<lparr>pol_received := None\<rparr>)"

text \<open>A client was accepted; without a destination its connection is closed at once.\<close>

definition pollon_proxyConn :: "Pollon \<Rightarrow> Pollon" where
  "pollon_proxyConn p =
     (case pol_destAddr p of None \<Rightarrow> p | Some a \<Rightarrow> p\<lparr>pol_conns := a # pol_conns p\<rparr>)"

text \<open>The goroutines of pollon. They go on when it is stopped, but for receiving configurations.\<close>

inductive pollon_step :: "Pollon \<Rightarrow> Pollon \<Rightarrow> bool" where
  configured: "pol_received p = Some dest \<Longrightarrow> pollon_step p (pollon_confCheck dest p)"
| accepted: "pollon_step p (pollon_proxyConn p)"
| hung_up: "pol_conns p = as @ a # bs \<Longrightarrow> pollon_step p (p\<lparr>pol_conns := as @ bs\<rparr>)"
| closed: "pol_closing p = as @ a # bs \<Longrightarrow> pollon_step p (p\<lparr>pol_closing := as @ bs\<rparr>)"

text \<open>The destination when everything received is applied.\<close>

definition pol_next :: "Pollon \<Rightarrow> addr option" where
  "pol_next p = (case pol_received p of None \<Rightarrow> pol_destAddr p | Some dest \<Rightarrow> dest)"

section \<open>The cluster checker\<close>

text \<open>
  \<open>cc_stopped\<close> are the pollon proxies that were stopped: the checker has forgotten them, their connections are still
  there.
\<close>

record ClusterChecker =
  cc_uid :: string
  cc_stopListening :: bool
  cc_pp :: "Pollon option"
  cc_stopped :: "Pollon list"

definition NewClusterChecker :: "string \<Rightarrow> bool \<Rightarrow> ClusterChecker" where
  "NewClusterChecker uid stopListening =
     \<lparr>cc_uid = uid, cc_stopListening = stopListening, cc_pp = None, cc_stopped = []\<rparr>"

text \<open>\<open>listen\<close> is the result of resolving the address, listening there and creating the pollon proxy.\<close>

definition startPollonProxy :: "unit res \<Rightarrow> ClusterChecker \<Rightarrow> ClusterChecker \<times> unit res" where
  "startPollonProxy listen c =
     (if cc_pp c \<noteq> None then (c, Inr ())
      else case listen of
             Inl e \<Rightarrow> (c, Inl e)
           | Inr _ \<Rightarrow> (c\<lparr>cc_pp := Some pollon_NewProxy\<rparr>, Inr ()))"

text \<open>
  \<^verbatim>\<open>pollon.Stop\<close> ends the receiving of configurations and the accepting of clients, and closes no
  connection.
\<close>

definition stopPollonProxy :: "ClusterChecker \<Rightarrow> ClusterChecker" where
  "stopPollonProxy c =
     (case cc_pp c of None \<Rightarrow> c | Some p \<Rightarrow> c\<lparr>cc_pp := None, cc_stopped := p # cc_stopped c\<rparr>)"

text \<open>
  The channel to pollon has no buffer: the send waits, with the mutex held, until the configuration before has been applied;
  \<open>None\<close> while it waits.
\<close>

definition sendPollonConfData :: "addr option \<Rightarrow> ClusterChecker \<Rightarrow> ClusterChecker option" where
  "sendPollonConfData dest c =
     (case cc_pp c of
        None \<Rightarrow> Some c
      | Some p \<Rightarrow> if pol_received p = None then Some (c\<lparr>cc_pp := Some (p\<lparr>pol_received := Some dest\<rparr>)\<rparr>) else None)"

text \<open>The information that \<^verbatim>\<open>SetProxyInfo\<close> of the checker puts into the store.\<close>

definition setProxyInfo :: "ClusterChecker \<Rightarrow> string \<Rightarrow> int64 \<Rightarrow> ProxyInfo" where
  "setProxyInfo c infoUID generation = \<lparr>pi_InfoUID = infoUID, pi_UID = cc_uid c, pi_Generation = generation\<rparr>"

section \<open>The check\<close>

datatype check =
    Returns "unit res"
  | StartsPollon "unit res \<Rightarrow> check"
  | Sends "addr option" check
  | Publishes int64 "unit sres \<Rightarrow> check"

text \<open>
  \<^verbatim>\<open>Check\<close> on the cluster data it has read; \<open>resolve\<close> is
  \<^verbatim>\<open>net.ResolveTCPAddr\<close> on the host and the port.
\<close>

definition Check_end :: "(string \<Rightarrow> string \<Rightarrow> addr res) \<Rightarrow> string \<Rightarrow> ClusterData option \<Rightarrow> check" where
  "Check_end resolve uid cd =
     (case cd of
        None \<Rightarrow> Sends None (Returns (Inr ()))
      | Some cd \<Rightarrow>
          if cd_FormatVersion cd \<noteq> CurrentCDFormatVersion
          then Sends None (Returns (Inl (Error ''unsupported clusterdata format version'')))
          else
            (case bindE (cluster_of cd) (\<lambda>cl. deref ''nil Spec'' (c_Spec cl)) of
               Inl e \<Rightarrow> Returns (Inl e)
             | Inr spec \<Rightarrow>
                 if Validate spec \<noteq> None
                 then Sends None (Returns (Inl (Error ''clusterdata validation failed'')))
                 else
                   (case cd_Proxy cd of
                      None \<Rightarrow> Sends None (Publishes NoGeneration (\<lambda>_. Returns (Inr ())))
                    | Some proxy \<Rightarrow>
                        (case fmlookup (cd_DBs cd) (ps_MasterDBUID (p_Spec proxy)) of
                           None \<Rightarrow> Sends None (Publishes (p_Generation proxy) (\<lambda>_. Returns (Inr ())))
                         | Some db \<Rightarrow>
                             (case resolve (st_ListenAddress (db_Status db)) (st_Port (db_Status db)) of
                                Inl _ \<Rightarrow> Sends None (Returns (Inr ()))
                              | Inr addr \<Rightarrow>
                                  Publishes (p_Generation proxy) (\<lambda>r.
                                    case r of
                                      Inl _ \<Rightarrow> Returns (Inl (Error ''failed to update proxyInfo''))
                                    | Inr _ \<Rightarrow>
                                        if StringInSlice (elems (ps_EnabledProxies (p_Spec proxy))) uid
                                        then Sends (Some addr) (Returns (Inr ()))
                                        else Sends None (Returns (Inr ()))))))))"

definition Check :: "(string \<Rightarrow> string \<Rightarrow> addr res) \<Rightarrow> string \<Rightarrow> (ClusterData \<times> ClusterData KVPair) option sres \<Rightarrow> check" where
  "Check resolve uid r =
     (case r of
        Inl _ \<Rightarrow> Returns (Inl (Error ''cannot get cluster data''))
      | Inr x \<Rightarrow>
          StartsPollon (\<lambda>e.
            case e of
              Inl _ \<Rightarrow> Returns (Inl (Error ''failed to start proxy''))
            | Inr _ \<Rightarrow> Check_end resolve uid (map_option fst x)))"

section \<open>The process\<close>

text \<open>
  The goroutines of \<^verbatim>\<open>Start\<close>. At most one check runs; \<open>px_check\<close> is what is left of it and
  \<open>px_cd\<close> the cluster data it has read. Its result goes to the loop, which reports a good one (\<open>px_ok\<close>) to
  the timeout checker before the next check can start. The timeout checker waits for its timer or a report, or is in the two
  sections that the timer starts.
\<close>

datatype timeout_checker = Armed gotime | TimerSends | TimerStops | Expired

record ProxyProc =
  px_now :: gotime
  px_checker :: ClusterChecker
  px_check :: "check option"
  px_cd :: "ClusterData option"
  px_ok :: bool
  px_timer :: timeout_checker

definition proxy_Start :: "gotime \<Rightarrow> ClusterChecker \<Rightarrow> ProxyProc" where
  "proxy_Start t c = \<lparr>px_now = t, px_checker = c, px_check = None, px_cd = None, px_ok = False,
     px_timer = Armed (t + DefaultProxyTimeoutInterval)\<rparr>"

text \<open>The calls of the store are the labels of the steps.\<close>

datatype proxy_label =
    Reads "(ClusterData \<times> ClusterData KVPair) option sres"
  | Puts ProxyInfo duration "unit sres"
  | Silent

definition read_cd :: "(ClusterData \<times> ClusterData KVPair) option sres \<Rightarrow> ClusterData option" where
  "read_cd r = (case r of Inr (Some (cd, _)) \<Rightarrow> Some cd | _ \<Rightarrow> None)"

inductive proxy_step :: "(string \<Rightarrow> string \<Rightarrow> addr res) \<Rightarrow> proxy_label \<Rightarrow> ProxyProc \<Rightarrow> ProxyProc \<Rightarrow> bool" for resolve where
  time: "\<lbrakk>px_now x \<le> t; \<And>d. px_timer x = Armed d \<Longrightarrow> t \<le> d\<rbrakk> \<Longrightarrow> proxy_step resolve Silent x (x\<lparr>px_now := t\<rparr>)"
| check_reads:
    "\<lbrakk>px_check x = None; \<not> px_ok x\<rbrakk> \<Longrightarrow>
     proxy_step resolve (Reads r) x (x\<lparr>px_check := Some (Check resolve (cc_uid (px_checker x)) r), px_cd := read_cd r\<rparr>)"
| check_starts:
    "\<lbrakk>px_check x = Some (StartsPollon k); startPollonProxy listen (px_checker x) = (c', e)\<rbrakk> \<Longrightarrow>
     proxy_step resolve Silent x (x\<lparr>px_checker := c', px_check := Some (k e)\<rparr>)"
| check_sends:
    "\<lbrakk>px_check x = Some (Sends dest k); sendPollonConfData dest (px_checker x) = Some c'\<rbrakk> \<Longrightarrow>
     proxy_step resolve Silent x (x\<lparr>px_checker := c', px_check := Some k\<rparr>)"
| check_publishes:
    "px_check x = Some (Publishes g k) \<Longrightarrow>
     proxy_step resolve (Puts (setProxyInfo (px_checker x) infoUID g) (2 * DefaultProxyTimeoutInterval) r) x (x\<lparr>px_check := Some (k r)\<rparr>)"
| check_returns:
    "px_check x = Some (Returns res) \<Longrightarrow>
     proxy_step resolve Silent x (x\<lparr>px_check := None, px_cd := None, px_ok := is_ok res\<rparr>)"
| ok_reported:
    "\<lbrakk>px_ok x; px_timer x \<notin> {TimerSends, TimerStops}\<rbrakk> \<Longrightarrow>
     proxy_step resolve Silent x (x\<lparr>px_ok := False, px_timer := Armed (px_now x + DefaultProxyTimeoutInterval)\<rparr>)"
| timer_fires:
    "\<lbrakk>px_timer x = Armed d; d \<le> px_now x\<rbrakk> \<Longrightarrow> proxy_step resolve Silent x (x\<lparr>px_timer := TimerSends\<rparr>)"
| timer_sends:
    "\<lbrakk>px_timer x = TimerSends; sendPollonConfData None (px_checker x) = Some c'\<rbrakk> \<Longrightarrow>
     proxy_step resolve Silent x (x\<lparr>px_checker := c', px_timer := (if cc_stopListening (px_checker x) then TimerStops else Expired)\<rparr>)"
| timer_stops:
    "px_timer x = TimerStops \<Longrightarrow>
     proxy_step resolve Silent x (x\<lparr>px_checker := stopPollonProxy (px_checker x), px_timer := Expired\<rparr>)"
| pollon:
    "\<lbrakk>cc_pp (px_checker x) = Some p; pollon_step p p'\<rbrakk> \<Longrightarrow>
     proxy_step resolve Silent x (x\<lparr>px_checker := (px_checker x)\<lparr>cc_pp := Some p'\<rparr>\<rparr>)"
| stopped_pollon:
    "\<lbrakk>cc_stopped (px_checker x) = ps @ p # qs; pollon_step p p'\<rbrakk> \<Longrightarrow>
     proxy_step resolve Silent x (x\<lparr>px_checker := (px_checker x)\<lparr>cc_stopped := ps @ p' # qs\<rparr>\<rparr>)"

inductive proxy_reachable :: "(string \<Rightarrow> string \<Rightarrow> addr res) \<Rightarrow> ProxyProc \<Rightarrow> bool" for resolve where
  start: "proxy_reachable resolve (proxy_Start t (NewClusterChecker uid stopListening))"
| step: "\<lbrakk>proxy_reachable resolve x; proxy_step resolve l x x'\<rbrakk> \<Longrightarrow> proxy_reachable resolve x'"

text \<open>
  A check that no other goroutine of the process interrupts, over a store \<open>putInfo\<close>; pollon applies each configuration
  at once.
\<close>

definition settled :: "ClusterChecker \<Rightarrow> ClusterChecker" where
  "settled c =
     (case cc_pp c of
        None \<Rightarrow> c
      | Some p \<Rightarrow> (case pol_received p of None \<Rightarrow> c | Some dest \<Rightarrow> c\<lparr>cc_pp := Some (pollon_confCheck dest p)\<rparr>))"

primrec runCheck ::
  "unit res \<Rightarrow> (ProxyInfo \<Rightarrow> duration \<Rightarrow> 'kv \<Rightarrow> 'kv \<times> unit sres) \<Rightarrow> string \<Rightarrow> check \<Rightarrow> ClusterChecker \<Rightarrow> 'kv \<Rightarrow>
   ClusterChecker \<times> 'kv \<times> unit res" where
  "runCheck listen putInfo infoUID (Returns res) = (\<lambda>c st. (c, st, res))"
| "runCheck listen putInfo infoUID (StartsPollon k) = (\<lambda>c st.
     case startPollonProxy listen c of (c', e) \<Rightarrow> runCheck listen putInfo infoUID (k e) c' st)"
| "runCheck listen putInfo infoUID (Sends dest k) = (\<lambda>c st.
     case sendPollonConfData dest (settled c) of
       None \<Rightarrow> (c, st, Inl (Error ''blocked''))
     | Some c' \<Rightarrow> runCheck listen putInfo infoUID k (settled c') st)"
| "runCheck listen putInfo infoUID (Publishes g k) = (\<lambda>c st.
     case putInfo (setProxyInfo c infoUID g) (2 * DefaultProxyTimeoutInterval) st of
       (st', r) \<Rightarrow> runCheck listen putInfo infoUID (k r) c st')"

section \<open>Where connections go\<close>

definition forwards :: "ClusterChecker \<Rightarrow> addr option" where
  "forwards c = Option.bind (cc_pp c) pol_next"

text \<open>Every open connection goes to the current destination of its pollon proxy.\<close>

definition conns_ok :: "Pollon \<Rightarrow> bool" where
  "conns_ok p \<longleftrightarrow> (\<forall>a \<in> set (pol_conns p). pol_destAddr p = Some a)"

definition all_conns_ok :: "ClusterChecker \<Rightarrow> bool" where
  "all_conns_ok c \<longleftrightarrow> list_all conns_ok (cc_stopped c) \<and> (\<forall>p. cc_pp c = Some p \<longrightarrow> conns_ok p)"

lemma pol_next_simps [simp]:
  "pol_next (p\<lparr>pol_received := Some dest\<rparr>) = dest" "pol_next (p\<lparr>pol_conns := as\<rparr>) = pol_next p"
  "pol_next (p\<lparr>pol_closing := as\<rparr>) = pol_next p" "pol_next pollon_NewProxy = None"
  by (simp_all add: pol_next_def pollon_NewProxy_def split: option.split)

lemma pollon_step_keeps:
  assumes "pollon_step p p'"
  shows "pol_next p' = pol_next p" and "conns_ok p \<Longrightarrow> conns_ok p'"
proof -
  show "pol_next p' = pol_next p" using assms
  proof cases
    case (configured dest)
    then show ?thesis by (simp add: pollon_confCheck_def pol_next_def)
  next
    case accepted
    then show ?thesis by (cases "pol_destAddr p") (simp_all add: pollon_proxyConn_def)
  qed simp_all
  show "conns_ok p'" if "conns_ok p" using assms
  proof cases
    case (configured dest)
    then show ?thesis using that by (simp add: pollon_confCheck_def conns_ok_def)
  next
    case accepted
    then show ?thesis using that by (cases "pol_destAddr p") (simp_all add: pollon_proxyConn_def conns_ok_def)
  qed (use that in \<open>auto simp: conns_ok_def\<close>)
qed

lemma forwards_send:
  "sendPollonConfData dest c = Some c' \<Longrightarrow> forwards c' = (if cc_pp c = None then None else dest)"
  by (auto simp: sendPollonConfData_def forwards_def split: option.splits if_splits)

lemma send_keeps:
  assumes "sendPollonConfData dest c = Some c'"
  shows "cc_uid c' = cc_uid c" and "cc_stopListening c' = cc_stopListening c" and "cc_stopped c' = cc_stopped c"
    and "cc_pp c' = None \<longleftrightarrow> cc_pp c = None" and "all_conns_ok c \<Longrightarrow> all_conns_ok c'"
  using assms by (auto simp: sendPollonConfData_def all_conns_ok_def conns_ok_def split: option.splits if_splits)

lemma start_keeps:
  assumes "startPollonProxy listen c = (c', e)"
  shows "cc_uid c' = cc_uid c" and "cc_stopListening c' = cc_stopListening c" and "cc_stopped c' = cc_stopped c"
    and "forwards c' = forwards c" and "all_conns_ok c \<Longrightarrow> all_conns_ok c'" and "is_ok e \<Longrightarrow> cc_pp c' \<noteq> None"
  using assms
  by (auto simp: startPollonProxy_def forwards_def all_conns_ok_def conns_ok_def pollon_NewProxy_def pol_next_def is_ok_def
      split: if_splits sum.splits)

lemma stop_keeps:
  "cc_uid (stopPollonProxy c) = cc_uid c" "cc_stopListening (stopPollonProxy c) = cc_stopListening c"
  "cc_pp (stopPollonProxy c) = None" "forwards (stopPollonProxy c) = None" "all_conns_ok c \<Longrightarrow> all_conns_ok (stopPollonProxy c)"
  by (auto simp: stopPollonProxy_def forwards_def all_conns_ok_def split: option.splits)

lemma pollon_keeps:
  assumes "pollon_step p p'" and "cc_pp c = Some p"
  shows "forwards (c\<lparr>cc_pp := Some p'\<rparr>) = forwards c" and "all_conns_ok c \<Longrightarrow> all_conns_ok (c\<lparr>cc_pp := Some p'\<rparr>)"
  using pollon_step_keeps [OF assms(1)] assms(2) by (auto simp: forwards_def all_conns_ok_def)

lemma stopped_keeps:
  assumes "pollon_step p p'" and "cc_stopped c = ps @ p # qs"
  shows "forwards (c\<lparr>cc_stopped := ps @ p' # qs\<rparr>) = forwards c" and "all_conns_ok c \<Longrightarrow> all_conns_ok (c\<lparr>cc_stopped := ps @ p' # qs\<rparr>)"
  using pollon_step_keeps(2) [OF assms(1)] assms(2) by (auto simp: forwards_def all_conns_ok_def)

text \<open>What a check may still do: it sends a destination as its last call, and then ends well.\<close>

primrec ends_forwarding :: "check \<Rightarrow> bool" where
  "ends_forwarding (Returns res) = True"
| "ends_forwarding (StartsPollon k) = (\<forall>e. ends_forwarding (k e))"
| "ends_forwarding (Sends dest k) = ((dest \<noteq> None \<longrightarrow> k = Returns (Inr ())) \<and> ends_forwarding k)"
| "ends_forwarding (Publishes g k) = (\<forall>r. ends_forwarding (k r))"

lemma Check_ends_forwarding: "ends_forwarding (Check resolve uid r)"
  by (auto simp: Check_def Check_end_def split: sum.splits option.splits)

text \<open>\<open>Check\<close> has not begun to forward, or is about to end well.\<close>

definition proc_ok :: "ProxyProc \<Rightarrow> bool" where
  "proc_ok x \<longleftrightarrow> all_conns_ok (px_checker x) \<and> (px_check x \<noteq> None \<longrightarrow> \<not> px_ok x) \<and> (\<forall>k. px_check x = Some k \<longrightarrow> ends_forwarding k) \<and>
     (\<not> cc_stopListening (px_checker x) \<longrightarrow> cc_stopped (px_checker x) = [] \<and> px_timer x \<noteq> TimerStops) \<and>
     (\<forall>d. px_timer x = Armed d \<longrightarrow> px_now x \<le> d \<and> d \<le> px_now x + DefaultProxyTimeoutInterval) \<and>
     (forwards (px_checker x) \<noteq> None \<longrightarrow>
        px_ok x \<or> px_check x = Some (Returns (Inr ())) \<or> px_timer x = TimerSends \<or> (\<exists>d. px_timer x = Armed d))"

lemma proc_okI:
  assumes "proc_ok x" and "px_now x' = px_now x" and "px_timer x' = px_timer x" and "px_check x' = px_check x" and "px_ok x' = px_ok x"
    and "all_conns_ok (px_checker x')" and "cc_stopListening (px_checker x') = cc_stopListening (px_checker x)"
    and "cc_stopped (px_checker x) = [] \<Longrightarrow> cc_stopped (px_checker x') = []"
    and "forwards (px_checker x') \<noteq> None \<Longrightarrow> forwards (px_checker x) \<noteq> None"
  shows "proc_ok x'"
  using assms(1,6,8,9) unfolding proc_ok_def assms(2-5,7) by blast

lemma proc_ok_step:
  assumes "proxy_step resolve l x x'" and ok: "proc_ok x"
  shows "proc_ok x'"
  using assms(1)
proof cases
  case (time t)
  then show ?thesis using ok by (force simp: proc_ok_def)
next
  case ok_reported
  then show ?thesis using ok by (auto simp: proc_ok_def DefaultProxyTimeoutInterval_def second_def)
next
  case (timer_fires d)
  then show ?thesis using ok by (auto simp: proc_ok_def)
next
  case (timer_sends c')
  then show ?thesis using ok forwards_send [OF timer_sends(4)] send_keeps [OF timer_sends(4)] by (auto simp: proc_ok_def)
next
  case timer_stops
  then show ?thesis using ok stop_keeps [of "px_checker x"] by (auto simp: proc_ok_def)
next
  case (pollon p p')
  from pollon(2) show ?thesis
    by (rule ssubst, intro proc_okI [OF ok]) (use ok pollon_keeps [OF pollon(4,3)] in \<open>auto simp: proc_ok_def\<close>)
next
  case (stopped_pollon ps p qs p')
  from stopped_pollon(2) show ?thesis
    by (rule ssubst, intro proc_okI [OF ok]) (use ok stopped_keeps [OF stopped_pollon(4,3)] stopped_pollon(3) in \<open>auto simp: proc_ok_def\<close>)
next
  case (check_starts k listen c' e)
  then show ?thesis using ok start_keeps [OF check_starts(4)] by (auto simp: proc_ok_def)
next
  case (check_sends dest k c')
  then show ?thesis using ok forwards_send [OF check_sends(4)] send_keeps [OF check_sends(4)]
    by (auto simp: proc_ok_def split: if_splits)
next
  case (check_publishes g k infoUID r)
  then show ?thesis using ok by (auto simp: proc_ok_def)
next
  case (check_reads r)
  then show ?thesis using ok Check_ends_forwarding by (auto simp: proc_ok_def)
next
  case (check_returns res)
  then show ?thesis using ok by (auto simp: proc_ok_def is_ok_iff)
qed

lemma proc_ok_reachable: "proxy_reachable resolve x \<Longrightarrow> proc_ok x"
proof (induction rule: proxy_reachable.induct)
  case (start t uid stopListening)
  show ?case
    by (simp add: proc_ok_def proxy_Start_def NewClusterChecker_def forwards_def all_conns_ok_def DefaultProxyTimeoutInterval_def second_def)
qed (rule proc_ok_step)

text \<open>
  C13. The timeout. In every interleaving of the goroutines of a proxy process, a connection that is open in the pollon proxy in use
  goes to its destination, and pollon has already been told another destination, or a check has just succeeded, or the timeout
  checker is about to tell it to close, or its timer is armed and fires within the timeout interval: the pollon proxy in use does
  not forward longer than this after the last good check. Without \<^verbatim>\<open>stopListening\<close> it is the only one. (A
  pollon proxy that was stopped by the timeout checker is not told anything any more: see \<open>orphan_run\<close>.)
\<close>

theorem proxy_timeout_closes:
  assumes "proxy_reachable resolve x"
  shows "(\<not> cc_stopListening (px_checker x) \<longrightarrow> cc_stopped (px_checker x) = []) \<and>
    (\<forall>p a. cc_pp (px_checker x) = Some p \<and> a \<in> set (pol_conns p) \<longrightarrow>
       pol_destAddr p = Some a \<and>
       (pol_received p = Some None \<or> px_ok x \<or> px_check x = Some (Returns (Inr ())) \<or> px_timer x = TimerSends \<or>
        (\<exists>d. px_timer x = Armed d \<and> px_now x \<le> d \<and> d \<le> px_now x + DefaultProxyTimeoutInterval)))"
proof -
  have ok: "proc_ok x" by (rule proc_ok_reachable [OF assms])
  have "pol_destAddr p = Some a \<and> (pol_received p = Some None \<or> forwards (px_checker x) \<noteq> None)"
    if "cc_pp (px_checker x) = Some p" "a \<in> set (pol_conns p)" for p a
    using ok that by (auto simp: proc_ok_def all_conns_ok_def conns_ok_def forwards_def pol_next_def split: option.splits)
  then show ?thesis using ok unfolding proc_ok_def by blast
qed

section \<open>What a check may do\<close>

text \<open>What allows a proxy to forward to an address.\<close>

definition may_forward :: "(string \<Rightarrow> string \<Rightarrow> addr res) \<Rightarrow> string \<Rightarrow> ClusterData \<Rightarrow> addr \<Rightarrow> bool" where
  "may_forward resolve uid cd a \<longleftrightarrow>
     (\<exists>proxy db. cd_Proxy cd = Some proxy \<and> fmlookup (cd_DBs cd) (ps_MasterDBUID (p_Spec proxy)) = Some db \<and>
        resolve (st_ListenAddress (db_Status db)) (st_Port (db_Status db)) = Inr a \<and>
        uid \<in> set (elems (ps_EnabledProxies (p_Spec proxy))))"

text \<open>The cluster data names an existing database as the master for the proxies; the generation that a proxy acknowledges.\<close>

definition tells_master :: "ClusterData \<Rightarrow> bool" where
  "tells_master cd \<longleftrightarrow> (\<exists>proxy. cd_Proxy cd = Some proxy \<and> fmlookup (cd_DBs cd) (ps_MasterDBUID (p_Spec proxy)) \<noteq> None)"

definition proxyGeneration :: "ClusterData \<Rightarrow> int64" where
  "proxyGeneration cd = (case cd_Proxy cd of None \<Rightarrow> NoGeneration | Some proxy \<Rightarrow> p_Generation proxy)"

text \<open>
  What is left of a check of \<open>cd\<close> obeys it, when something is forwarded (\<open>open\<close>) or not: it sends a
  destination only if \<open>cd\<close> allows it, and ends well then; and it publishes the generation of \<open>cd\<close>, and
  when \<open>cd\<close> names no master only if nothing is forwarded.
\<close>

primrec obeys :: "(string \<Rightarrow> string \<Rightarrow> addr res) \<Rightarrow> string \<Rightarrow> ClusterData option \<Rightarrow> check \<Rightarrow> bool \<Rightarrow> bool" where
  "obeys resolve uid cd (Returns res) = (\<lambda>open. True)"
| "obeys resolve uid cd (StartsPollon k) = (\<lambda>open. \<forall>e. obeys resolve uid cd (k e) open)"
| "obeys resolve uid cd (Sends dest k) = (\<lambda>open.
     (\<forall>a. dest = Some a \<longrightarrow> k = Returns (Inr ()) \<and> (\<exists>cd'. cd = Some cd' \<and> may_forward resolve uid cd' a)) \<and>
     obeys resolve uid cd k (dest \<noteq> None))"
| "obeys resolve uid cd (Publishes g k) = (\<lambda>open.
     (\<exists>cd'. cd = Some cd' \<and> g = proxyGeneration cd' \<and> (open \<longrightarrow> tells_master cd')) \<and> (\<forall>r. obeys resolve uid cd (k r) open))"

lemma obeys_mono: "obeys resolve uid cd k True \<Longrightarrow> obeys resolve uid cd k open"
  by (induction k) auto

lemma obeys_closed: "obeys resolve uid cd k b \<Longrightarrow> obeys resolve uid cd k False"
  by (cases b) (auto intro: obeys_mono)

lemma Check_obeys: "obeys resolve uid (read_cd r) (Check resolve uid r) open"
  by (auto simp: Check_def Check_end_def read_cd_def may_forward_def tells_master_def proxyGeneration_def
      split: sum.splits option.splits)

definition check_obeys :: "(string \<Rightarrow> string \<Rightarrow> addr res) \<Rightarrow> ProxyProc \<Rightarrow> bool" where
  "check_obeys resolve x \<longleftrightarrow>
     (\<forall>k. px_check x = Some k \<longrightarrow> obeys resolve (cc_uid (px_checker x)) (px_cd x) k (forwards (px_checker x) \<noteq> None))"

lemma check_obeys_step:
  assumes "proxy_step resolve l x x'" and ok: "check_obeys resolve x"
  shows "check_obeys resolve x'"
  using assms(1)
proof cases
  case (check_reads r)
  then show ?thesis by (simp add: check_obeys_def Check_obeys)
next
  case (check_starts k listen c' e)
  then show ?thesis using ok start_keeps(1,4) [OF check_starts(4)] by (auto simp: check_obeys_def)
next
  case (check_sends dest k c')
  then show ?thesis using ok forwards_send [OF check_sends(4)] send_keeps(1) [OF check_sends(4)]
    by (auto simp: check_obeys_def intro: obeys_closed)
next
  case (timer_sends c')
  then show ?thesis using ok forwards_send [OF timer_sends(4)] send_keeps(1) [OF timer_sends(4)]
    by (auto simp: check_obeys_def intro: obeys_closed)
next
  case timer_stops
  then show ?thesis using ok stop_keeps(1,4) [of "px_checker x"] by (auto simp: check_obeys_def intro: obeys_closed)
next
  case (pollon p p')
  then show ?thesis using ok pollon_keeps(1) [OF pollon(4,3)] by (simp add: check_obeys_def)
next
  case (stopped_pollon ps p qs p')
  then show ?thesis using ok stopped_keeps(1) [OF stopped_pollon(4,3)] by (simp add: check_obeys_def)
qed (use ok in \<open>auto simp: check_obeys_def\<close>)

lemma check_obeys_reachable: "proxy_reachable resolve x \<Longrightarrow> check_obeys resolve x"
proof (induction rule: proxy_reachable.induct)
  case (start t uid stopListening)
  show ?case by (simp add: check_obeys_def proxy_Start_def)
qed (rule check_obeys_step)

text \<open>
  C14. A proxy acknowledges that there is no master only after it has told pollon to close. When the check of a cluster data that
  names no (existing) master for the proxies puts the information of the proxy into the store, this carries the generation of what
  the proxies were told, and the pollon proxy in use, if there is one, has no destination and no connection, or has received the
  configuration without a destination that closes them, whatever the timeout checker, pollon and the clients have done in between.
\<close>

theorem proxy_acknowledges_closed:
  assumes "proxy_reachable resolve x" and "proxy_step resolve (Puts info ttl r) x x'"
    and "px_cd x = Some cd" and "cd_Proxy cd = Some proxy" and "fmlookup (cd_DBs cd) (ps_MasterDBUID (p_Spec proxy)) = None"
  shows "pi_Generation info = p_Generation proxy \<and>
    (\<forall>p. cc_pp (px_checker x) = Some p \<longrightarrow>
       pol_received p = Some None \<or> (pol_received p = None \<and> pol_destAddr p = None \<and> pol_conns p = []))"
proof -
  from assms(2) obtain g k where k: "px_check x = Some (Publishes g k)" and g: "pi_Generation info = g"
    by cases (auto simp: setProxyInfo_def)
  have "obeys resolve (cc_uid (px_checker x)) (px_cd x) (Publishes g k) (forwards (px_checker x) \<noteq> None)"
    using check_obeys_reachable [OF assms(1)] k by (simp add: check_obeys_def)
  then have "g = p_Generation proxy" and f: "forwards (px_checker x) = None"
    using assms(3-5) by (auto simp: proxyGeneration_def tells_master_def)
  moreover have "all_conns_ok (px_checker x)" using proc_ok_reachable [OF assms(1)] by (simp add: proc_ok_def)
  ultimately show ?thesis using g
    by (auto simp: forwards_def all_conns_ok_def conns_ok_def pol_next_def split: option.splits intro: equals0I)
qed

section \<open>An uninterrupted check\<close>

lemma forwards_settled [simp]: "forwards (settled c) = forwards c"
  by (auto simp: forwards_def settled_def pol_next_def pollon_confCheck_def split: option.splits)

lemma settled_fields [simp]:
  "cc_uid (settled c) = cc_uid c" "cc_pp (settled c) = None \<longleftrightarrow> cc_pp c = None" "settled (settled c) = settled c"
  by (auto simp: settled_def pollon_confCheck_def split: option.splits)

lemma send_settled: "\<exists>c'. sendPollonConfData dest (settled c) = Some c'"
  by (auto simp: sendPollonConfData_def settled_def pollon_confCheck_def split: option.splits)

lemma runCheck_Sends:
  assumes "runCheck listen putInfo infoUID (Sends dest (Returns res)) c st = (c', st', res')"
  shows "st' = st \<and> res' = res \<and> forwards c' = (if cc_pp c = None then None else dest)"
proof -
  obtain c1 where "sendPollonConfData dest (settled c) = Some c1" using send_settled by blast
  then show ?thesis using assms forwards_send by fastforce
qed

lemma runCheck_Sends_Publishes:
  assumes "runCheck listen putInfo infoUID (Sends dest (Publishes g (\<lambda>_. Returns res))) c st = (c', st', res')"
  shows "res' = res \<and> forwards c' = (if cc_pp c = None then None else dest)"
proof -
  obtain c1 where "sendPollonConfData dest (settled c) = Some c1" using send_settled by blast
  then show ?thesis using assms forwards_send by (fastforce split: prod.splits)
qed

lemmas runCheck_sends = runCheck_Sends runCheck_Sends_Publishes

text \<open>It is a run of the process together with the store.\<close>

definition calls where
  "calls resolve putInfo a b \<longleftrightarrow>
     proxy_step resolve Silent (fst a) (fst b) \<and> snd b = snd a \<or>
     (\<exists>info ttl r. proxy_step resolve (Puts info ttl r) (fst a) (fst b) \<and> putInfo info ttl (snd a) = (snd b, r))"

lemma silent_call: "proxy_step resolve Silent x x' \<Longrightarrow> calls resolve putInfo (x, st) (x', st)"
  by (simp add: calls_def)

lemma settled_run:
  assumes "px_checker x = c"
  shows "(calls resolve putInfo)\<^sup>*\<^sup>* (x, st) (x\<lparr>px_checker := settled c\<rparr>, st)"
proof (cases "settled c = c")
  case True
  then show ?thesis using assms by (cases x) simp
next
  case False
  then obtain p dest where p: "cc_pp c = Some p" "pol_received p = Some dest" by (auto simp: settled_def split: option.splits)
  have "pollon_step p (pollon_confCheck dest p)" by (rule pollon_step.configured [OF p(2)])
  then have "proxy_step resolve Silent x (x\<lparr>px_checker := settled c\<rparr>)"
    using proxy_step.pollon [of x p _ resolve] p assms by (simp add: settled_def)
  then show ?thesis by (intro r_into_rtranclp silent_call)
qed

lemma runCheck_run:
  assumes "runCheck listen putInfo infoUID prog c st = (c', st', res)" and "px_checker x = c" and "px_check x = Some prog"
  shows "(calls resolve putInfo)\<^sup>*\<^sup>* (x, st) (x\<lparr>px_checker := c', px_check := Some (Returns res)\<rparr>, st')"
  using assms
proof (induction prog arbitrary: c st x)
  case (Returns r)
  then show ?case by (cases x) simp
next
  case (StartsPollon k)
  obtain c1 e where c1: "startPollonProxy listen c = (c1, e)" by fastforce
  let ?x = "x\<lparr>px_checker := c1, px_check := Some (k e)\<rparr>"
  have "calls resolve putInfo (x, st) (?x, st)"
    by (rule silent_call [OF proxy_step.check_starts [OF StartsPollon(4), of listen]]) (simp add: c1 StartsPollon(3))
  moreover have "(calls resolve putInfo)\<^sup>*\<^sup>* (?x, st) (?x\<lparr>px_checker := c', px_check := Some (Returns res)\<rparr>, st')"
    by (rule StartsPollon(1)) (use StartsPollon(2) c1 in auto)
  ultimately show ?case by (simp add: converse_rtranclp_into_rtranclp)
next
  case (Sends dest k)
  obtain c1 where c1: "sendPollonConfData dest (settled c) = Some c1" using send_settled by blast
  let ?y = "x\<lparr>px_checker := settled c\<rparr>" and ?z = "x\<lparr>px_checker := c1, px_check := Some k\<rparr>"
  let ?w = "x\<lparr>px_checker := settled c1, px_check := Some k\<rparr>"
  have "(calls resolve putInfo)\<^sup>*\<^sup>* (x, st) (?y, st)" by (rule settled_run [OF Sends(3)])
  also have "calls resolve putInfo (?y, st) (?z, st)"
    using silent_call [OF proxy_step.check_sends [of ?y dest k c1 resolve]] c1 Sends(4) by simp
  also have "(calls resolve putInfo)\<^sup>*\<^sup>* (?z, st) (?w, st)" using settled_run [of ?z c1 resolve putInfo st] by (cases x) simp
  also have "(calls resolve putInfo)\<^sup>*\<^sup>* (?w, st) (?w\<lparr>px_checker := c', px_check := Some (Returns res)\<rparr>, st')"
    by (rule Sends(1)) (use Sends(2) c1 in auto)
  finally show ?case by simp
next
  case (Publishes g k)
  obtain st1 r where st1: "putInfo (setProxyInfo c infoUID g) (2 * DefaultProxyTimeoutInterval) st = (st1, r)" by fastforce
  let ?x = "x\<lparr>px_check := Some (k r)\<rparr>"
  have "calls resolve putInfo (x, st) (?x, st1)"
    using proxy_step.check_publishes [OF Publishes(4), of resolve infoUID r] st1 Publishes(3) unfolding calls_def by auto
  moreover have "(calls resolve putInfo)\<^sup>*\<^sup>* (?x, st1) (?x\<lparr>px_checker := c', px_check := Some (Returns res)\<rparr>, st')"
    by (rule Publishes(1)) (use Publishes(2,3) st1 in auto)
  ultimately show ?case by (simp add: converse_rtranclp_into_rtranclp)
qed

text \<open>
  C12. What a check of the proxy does, when no other goroutine of the process comes between. If it ends without an error, the proxy
  forwards exactly to the address of the master that the cluster data names for the proxies, if it names an existing one and this
  proxy is enabled, and to nothing otherwise; an error leaves the forwarding as it was or ends it. It forwards only after the
  information of the proxy, with the generation of what it was told, has been stored.
\<close>

theorem proxy_check_correct:
  assumes "runCheck listen putInfo infoUID (Check resolve (cc_uid c) (Inr (Some (cd, pair)))) c st = (c', st', res)"
  shows "case res of
      Inr _ \<Rightarrow>
        (\<forall>a. forwards c' = Some a \<longleftrightarrow> may_forward resolve (cc_uid c) cd a) \<and>
        (\<forall>a. forwards c' = Some a \<longrightarrow>
           (\<exists>proxy. cd_Proxy cd = Some proxy \<and>
              putInfo \<lparr>pi_InfoUID = infoUID, pi_UID = cc_uid c, pi_Generation = p_Generation proxy\<rparr>
                (2 * DefaultProxyTimeoutInterval) st = (st', Inr ())))
    | Inl _ \<Rightarrow> forwards c' \<in> {None, forwards c}"
proof -
  obtain c1 e where c1: "startPollonProxy listen c = (c1, e)" by fastforce
  note keeps = start_keeps [OF c1]
  show ?thesis
  proof (cases e)
    case (Inl e)
    then show ?thesis using assms c1 keeps(4) by (auto simp: Check_def)
  next
    case (Inr _)
    then have pp: "cc_pp c1 \<noteq> None" using keeps(6) by (simp add: is_ok_def)
    have "runCheck listen putInfo infoUID (Check_end resolve (cc_uid c) (Some cd)) c1 st = (c', st', res)"
      using assms c1 Inr by (simp add: Check_def)
    then show ?thesis using keeps(1,4) pp
      by (auto simp: Check_end_def may_forward_def setProxyInfo_def simp del: runCheck.simps(3)
          dest!: runCheck_sends split: if_splits option.splits sum.splits prod.splits)
  qed
qed

section \<open>Examples\<close>

definition example_checker :: ClusterChecker where
  "example_checker = NewClusterChecker ''p1'' True"

definition example_resolve :: "string \<Rightarrow> string \<Rightarrow> addr res" where
  "example_resolve host port = Inr (host @ '':'' @ port)"

text \<open>A store of proxy informations that keeps all of them.\<close>

definition example_put :: "ProxyInfo \<Rightarrow> duration \<Rightarrow> ProxyInfo list \<Rightarrow> ProxyInfo list \<times> unit sres" where
  "example_put i ttl st = (i # st, Inr ())"

definition first_check where
  "first_check = runCheck (Inr ()) example_put ''i'' (Check example_resolve ''p1'' (Inr (Some (example_cd, example_pair)))) example_checker []"

lemma first_check_ok:
  "runCheck (Inr ()) example_put ''i'' (Check example_resolve ''p1'' (Inr (Some (example_cd, example_pair)))) example_checker [] =
     (fst first_check, fst (snd first_check), Inr ())"
proof -
  have "is_ok (snd (snd first_check))" by code_simp
  then have "snd (snd first_check) = Inr ()" by (simp add: is_ok_iff)
  then show ?thesis unfolding first_check_def [symmetric] by (metis prod.collapse)
qed

lemma example_uid [simp]: "cc_uid example_checker = ''p1''"
  by (simp add: example_checker_def NewClusterChecker_def)

theorem proxy_check_correct_witness:
  "may_forward example_resolve ''p1'' example_cd '':'' \<and> forwards (fst first_check) = Some '':''"
proof -
  have "may_forward example_resolve ''p1'' example_cd '':''"
    unfolding may_forward_def by (simp add: example_cd_def example_master_def example_resolve_def zero_DBStatus_def)
  then show ?thesis
    using proxy_check_correct [of "Inr ()" example_put "''i''" example_resolve example_checker example_cd example_pair "[]"] first_check_ok
    by simp
qed

text \<open>A proxy starts, its first check finds the master, and a client connects.\<close>

definition reading_run :: "ClusterData \<Rightarrow> ProxyProc" where
  "reading_run cd = (proxy_Start 0 example_checker)
     \<lparr>px_check := Some (Check example_resolve ''p1'' (Inr (Some (cd, example_pair)))), px_cd := Some cd\<rparr>"

definition forwarding_run :: ProxyProc where
  "forwarding_run = (reading_run example_cd)\<lparr>px_checker := fst first_check, px_check := Some (Returns (Inr ()))\<rparr>"

definition connected_run :: ProxyProc where
  "connected_run = forwarding_run\<lparr>px_checker := (fst first_check)\<lparr>cc_pp :=
     Some (pollon_proxyConn (the (cc_pp (fst first_check))))\<rparr>\<rparr>"

lemma reachable_run:
  assumes "(calls resolve putInfo)\<^sup>*\<^sup>* a b" and "proxy_reachable resolve (fst a)"
  shows "proxy_reachable resolve (fst b)"
  using assms by (induction rule: rtranclp_induct) (auto simp: calls_def intro: proxy_reachable.step)

lemma reading_reachable: "proxy_reachable example_resolve (reading_run cd)"
proof -
  have "proxy_reachable example_resolve (proxy_Start 0 example_checker)"
    unfolding example_checker_def by (rule proxy_reachable.start)
  moreover have "proxy_step example_resolve (Reads (Inr (Some (cd, example_pair)))) (proxy_Start 0 example_checker) (reading_run cd)"
    using proxy_step.check_reads [of "proxy_Start 0 example_checker" example_resolve "Inr (Some (cd, example_pair))"]
    by (simp add: reading_run_def proxy_Start_def example_checker_def NewClusterChecker_def read_cd_def)
  ultimately show ?thesis by (rule proxy_reachable.step)
qed

lemma connected_reachable: "proxy_reachable example_resolve connected_run"
proof -
  have "proxy_reachable example_resolve forwarding_run"
    using reachable_run [OF runCheck_run [OF first_check_ok, of "reading_run example_cd" example_resolve]] reading_reachable
    by (simp add: forwarding_run_def) (simp add: reading_run_def proxy_Start_def)
  moreover have "cc_pp (fst first_check) \<noteq> None" by code_simp
  then have "cc_pp (px_checker forwarding_run) = Some (the (cc_pp (fst first_check)))" by (simp add: forwarding_run_def)
  from proxy_step.pollon [OF this pollon_step.accepted, of example_resolve] have "proxy_step example_resolve Silent forwarding_run connected_run"
    by (simp add: connected_run_def forwarding_run_def)
  ultimately show ?thesis by (rule proxy_reachable.step)
qed

theorem proxy_timeout_closes_witness:
  "\<exists>p. cc_pp (px_checker connected_run) = Some p \<and> pol_conns p = ['':''] \<and> pol_destAddr p = Some '':''"
proof -
  have "case cc_pp (px_checker connected_run) of None \<Rightarrow> False | Some p \<Rightarrow> pol_conns p = ['':'']" by code_simp
  then obtain p where p: "cc_pp (px_checker connected_run) = Some p" "pol_conns p = ['':'']"
    by (auto split: option.splits)
  then have "'':'' \<in> set (pol_conns p)" by simp
  with proxy_timeout_closes [OF connected_reachable] p show ?thesis by blast
qed

text \<open>The first check of another proxy is of a cluster data that names no master.\<close>

definition fenced_proxy :: Proxy where
  "fenced_proxy = \<lparr>p_UID = '''', p_Generation = 3, p_ChangeTime = 0,
     p_Spec = \<lparr>ps_MasterDBUID = '''', ps_EnabledProxies = Some [''p1'']\<rparr>\<rparr>"

definition fenced_cd :: ClusterData where
  "fenced_cd = example_cd\<lparr>cd_Proxy := Some fenced_proxy\<rparr>"

definition started_checker :: "Pollon \<Rightarrow> ClusterChecker" where
  "started_checker p = example_checker\<lparr>cc_pp := Some p\<rparr>"

lemma fenced_lookup [simp]:
  "cd_Proxy fenced_cd = Some fenced_proxy" "fmlookup (cd_DBs fenced_cd) (ps_MasterDBUID (p_Spec fenced_proxy)) = None"
  "p_Generation fenced_proxy = 3"
  by (simp_all add: fenced_cd_def fenced_proxy_def example_cd_def)

lemma fenced_check:
  "Check example_resolve ''p1'' (Inr (Some (fenced_cd, example_pair))) =
     StartsPollon (\<lambda>e. case e of
         Inl _ \<Rightarrow> Returns (Inl (Error ''failed to start proxy''))
       | Inr _ \<Rightarrow> Sends None (Publishes 3 (\<lambda>_. Returns (Inr ()))))"
proof -
  have "cd_FormatVersion fenced_cd = CurrentCDFormatVersion" by code_simp
  moreover have "case bindE (cluster_of fenced_cd) (\<lambda>cl. deref ''nil Spec'' (c_Spec cl)) of
      Inl _ \<Rightarrow> False | Inr spec \<Rightarrow> Validate spec = None" by code_simp
  ultimately show ?thesis by (auto simp: Check_def Check_end_def fun_eq_iff split: sum.splits)
qed

lemma started:
  assumes "px_checker x = example_checker" and "px_check x = Some (StartsPollon k)"
  shows "proxy_step resolve Silent x (x\<lparr>px_checker := started_checker pollon_NewProxy, px_check := Some (k (Inr ()))\<rparr>)"
proof -
  have "startPollonProxy (Inr ()) (px_checker x) = (started_checker pollon_NewProxy, Inr ())"
    using assms(1) by (simp add: startPollonProxy_def started_checker_def example_checker_def NewClusterChecker_def)
  with assms(2) show ?thesis by (rule proxy_step.check_starts)
qed

lemma sent:
  assumes "px_checker x = started_checker p" and "px_check x = Some (Sends dest k)" and "pol_received p = None"
  shows "proxy_step resolve Silent x (x\<lparr>px_checker := started_checker (p\<lparr>pol_received := Some dest\<rparr>), px_check := Some k\<rparr>)"
  by (rule proxy_step.check_sends [OF assms(2)]) (simp add: assms(1,3) sendPollonConfData_def started_checker_def)

definition fencing_run :: ProxyProc where
  "fencing_run = (reading_run fenced_cd)\<lparr>px_checker := started_checker (pollon_NewProxy\<lparr>pol_received := Some None\<rparr>),
     px_check := Some (Publishes 3 (\<lambda>_. Returns (Inr ())))\<rparr>"

lemma fencing_reachable: "proxy_reachable example_resolve fencing_run"
proof -
  let ?x = "reading_run fenced_cd"
  let ?y = "?x\<lparr>px_checker := started_checker pollon_NewProxy, px_check := Some (Sends None (Publishes 3 (\<lambda>_. Returns (Inr ()))))\<rparr>"
  have "proxy_step example_resolve Silent ?x ?y"
    using started [of ?x _ example_resolve] by (simp add: reading_run_def fenced_check proxy_Start_def)
  then have "proxy_reachable example_resolve ?y" by (rule proxy_reachable.step [OF reading_reachable])
  moreover have "proxy_step example_resolve Silent ?y fencing_run"
    using sent [of ?y pollon_NewProxy _ _ example_resolve] by (simp add: fencing_run_def pollon_NewProxy_def)
  ultimately show ?thesis by (rule proxy_reachable.step)
qed

theorem proxy_acknowledges_closed_witness:
  "\<exists>info x'. proxy_step example_resolve (Puts info (2 * DefaultProxyTimeoutInterval) (Inr ())) fencing_run x' \<and> pi_Generation info = 3 \<and>
     pol_received (the (cc_pp (px_checker fencing_run))) = Some None"
proof -
  have k: "px_check fencing_run = Some (Publishes 3 (\<lambda>_. Returns (Inr ())))" "px_cd fencing_run = Some fenced_cd"
    by (simp_all add: fencing_run_def reading_run_def)
  from proxy_step.check_publishes [OF k(1), of example_resolve "''i''" "Inr ()"]
  obtain info x' where s: "proxy_step example_resolve (Puts info (2 * DefaultProxyTimeoutInterval) (Inr ())) fencing_run x'" by blast
  from proxy_acknowledges_closed [OF fencing_reachable s k(2) fenced_lookup(1,2)]
  have "pi_Generation info = 3 \<and> pol_received (the (cc_pp (px_checker fencing_run))) = Some None"
    by (simp add: fencing_run_def started_checker_def)
  with s show ?thesis by blast
qed

text \<open>
  The two sections of the timeout checker. A check that sends a destination between them, and a client that connects, leave a
  stopped pollon proxy with an open connection, which no configuration reaches any more: only the client or the database ends it.
\<close>

lemma example_check:
  "\<exists>g. Check_end example_resolve ''p1'' (Some example_cd) =
     Publishes g (\<lambda>r. case r of Inl _ \<Rightarrow> Returns (Inl (Error ''failed to update proxyInfo''))
       | Inr _ \<Rightarrow> Sends (Some '':'') (Returns (Inr ())))"
proof -
  have "cd_FormatVersion example_cd = CurrentCDFormatVersion" by code_simp
  moreover have "case bindE (cluster_of example_cd) (\<lambda>cl. deref ''nil Spec'' (c_Spec cl)) of
      Inl _ \<Rightarrow> False | Inr spec \<Rightarrow> Validate spec = None" by code_simp
  moreover obtain proxy db where "cd_Proxy example_cd = Some proxy" "fmlookup (cd_DBs example_cd) (ps_MasterDBUID (p_Spec proxy)) = Some db"
    "example_resolve (st_ListenAddress (db_Status db)) (st_Port (db_Status db)) = Inr '':''"
    "''p1'' \<in> set (elems (ps_EnabledProxies (p_Spec proxy)))"
    by (simp add: example_cd_def example_master_def example_resolve_def zero_DBStatus_def)
  ultimately show ?thesis by (auto simp: Check_end_def fun_eq_iff split: sum.splits)
qed

lemma pollon_configured:
  assumes "px_checker x = started_checker p" and "pol_received p = Some dest"
  shows "proxy_step resolve Silent x (x\<lparr>px_checker := started_checker (pollon_confCheck dest p)\<rparr>)"
  using proxy_step.pollon [of x p "pollon_confCheck dest p" resolve] assms pollon_step.configured [OF assms(2)]
  by (simp add: started_checker_def)

definition orphan :: Pollon where
  "orphan = \<lparr>pol_destAddr = Some '':'', pol_received = None, pol_conns = ['':''], pol_closing = []\<rparr>"

lemma orphan_run:
  "\<exists>x. proxy_reachable example_resolve x \<and> cc_pp (px_checker x) = None \<and> cc_stopped (px_checker x) = [orphan] \<and> px_timer x = Expired"
proof -
  let ?run = "\<lambda>x x'. \<exists>l. proxy_step example_resolve l x x'" and ?d = DefaultProxyTimeoutInterval
  let ?send = "Sends (Some '':'') (Returns (Inr ()))" and ?new = pollon_NewProxy
  obtain g where g: "Check_end example_resolve ''p1'' (Some example_cd) = Publishes g (\<lambda>r. case r of
      Inl _ \<Rightarrow> Returns (Inl (Error ''failed to update proxyInfo'')) | Inr _ \<Rightarrow> ?send)" using example_check by blast
  let ?st = "\<lambda>t c k tm. \<lparr>px_now = t, px_checker = c, px_check = Some k, px_cd = Some example_cd, px_ok = False, px_timer = tm\<rparr>"
  have "?run (reading_run example_cd) (?st 0 (started_checker ?new) (Check_end example_resolve ''p1'' (Some example_cd)) (Armed ?d))"
    using started [of "reading_run example_cd" _ example_resolve] by (auto simp: reading_run_def proxy_Start_def Check_def)
  moreover have "?run (?st 0 (started_checker ?new) (Check_end example_resolve ''p1'' (Some example_cd)) (Armed ?d))
      (?st 0 (started_checker ?new) ?send (Armed ?d))"
    using proxy_step.check_publishes [where x = "?st 0 (started_checker ?new) _ (Armed ?d)" and r = "Inr ()"] g by fastforce
  moreover have "?run (?st 0 (started_checker ?new) ?send (Armed ?d)) (?st ?d (started_checker ?new) ?send (Armed ?d))"
    using proxy_step.time [of "?st 0 (started_checker ?new) ?send (Armed ?d)" ?d] by (fastforce simp: DefaultProxyTimeoutInterval_def second_def)
  moreover have "?run (?st ?d (started_checker ?new) ?send (Armed ?d)) (?st ?d (started_checker ?new) ?send TimerSends)"
    using proxy_step.timer_fires [of "?st ?d (started_checker ?new) ?send (Armed ?d)" ?d] by fastforce
  moreover have "?run (?st ?d (started_checker ?new) ?send TimerSends) (?st ?d (started_checker (?new\<lparr>pol_received := Some None\<rparr>)) ?send TimerStops)"
    using proxy_step.timer_sends [of "?st ?d (started_checker ?new) ?send TimerSends" "started_checker (?new\<lparr>pol_received := Some None\<rparr>)"]
    by (fastforce simp: sendPollonConfData_def started_checker_def pollon_NewProxy_def example_checker_def NewClusterChecker_def)
  moreover have "?run (?st ?d (started_checker (?new\<lparr>pol_received := Some None\<rparr>)) ?send TimerStops) (?st ?d (started_checker ?new) ?send TimerStops)"
    using pollon_configured [of "?st ?d (started_checker (?new\<lparr>pol_received := Some None\<rparr>)) ?send TimerStops" _ None example_resolve]
    by (fastforce simp: pollon_confCheck_def pollon_NewProxy_def)
  moreover have "?run (?st ?d (started_checker ?new) ?send TimerStops)
      (?st ?d (started_checker (?new\<lparr>pol_received := Some (Some '':'')\<rparr>)) (Returns (Inr ())) TimerStops)"
    using sent [of "?st ?d (started_checker ?new) ?send TimerStops" ?new _ _ example_resolve] by (fastforce simp: pollon_NewProxy_def)
  moreover have "?run (?st ?d (started_checker (?new\<lparr>pol_received := Some (Some '':'')\<rparr>)) (Returns (Inr ())) TimerStops)
      (?st ?d (started_checker (orphan\<lparr>pol_conns := []\<rparr>)) (Returns (Inr ())) TimerStops)"
    using pollon_configured [of "?st ?d (started_checker (?new\<lparr>pol_received := Some (Some '':'')\<rparr>)) (Returns (Inr ())) TimerStops" _ "Some '':''" example_resolve]
    by (fastforce simp: pollon_confCheck_def pollon_NewProxy_def orphan_def)
  moreover have "?run (?st ?d (started_checker (orphan\<lparr>pol_conns := []\<rparr>)) (Returns (Inr ())) TimerStops)
      (?st ?d (started_checker orphan) (Returns (Inr ())) TimerStops)"
    using proxy_step.pollon [OF _ pollon_step.accepted, of "?st ?d (started_checker (orphan\<lparr>pol_conns := []\<rparr>)) (Returns (Inr ())) TimerStops"]
    by (fastforce simp: pollon_proxyConn_def orphan_def started_checker_def)
  moreover have "?run (?st ?d (started_checker orphan) (Returns (Inr ())) TimerStops)
      (?st ?d (stopPollonProxy (started_checker orphan)) (Returns (Inr ())) Expired)"
    using proxy_step.timer_stops [of "?st ?d (started_checker orphan) (Returns (Inr ())) TimerStops"] by fastforce
  ultimately have "proxy_reachable example_resolve (?st ?d (stopPollonProxy (started_checker orphan)) (Returns (Inr ())) Expired)"
    by (meson proxy_reachable.step reading_reachable)
  moreover have "cc_pp (stopPollonProxy (started_checker orphan)) = None" "cc_stopped (stopPollonProxy (started_checker orphan)) = [orphan]"
    by (simp_all add: stopPollonProxy_def started_checker_def example_checker_def NewClusterChecker_def)
  ultimately show ?thesis by fastforce
qed

lemma orphan_forwards: "\<lbrakk>pollon_step p p'; pol_received p = None\<rbrakk> \<Longrightarrow> pol_received p' = None \<and> pol_destAddr p' = pol_destAddr p"
  by (cases rule: pollon_step.cases) (auto simp: pollon_proxyConn_def split: option.splits)

end
