(* ===== verification/Keeper_SM.thy ===== *)
theory Keeper_SM
  imports Keeper_Conf
begin

text \<open>
  \<^verbatim>\<open>cmd/keeper/cmd/keeper.go\<close>, the second part: the keeper's state machine. It reads the cluster data and
  brings the postgres instance into the state that the specification of its database asks for. Every step is an action on the
  keeper, which owns the postgres manager.

  The state machine returns nothing; here an early return, whether the code logs an error or an information, is the result
  \<open>Error\<close> with that message, and reaching the end is \<open>Inr ()\<close>. The files with the local states hold JSON;
  as in the store, the values themselves stand for their encoding. Writing them and the random identifiers are the parameters
  \<open>KeeperIO\<close>.
\<close>

section \<open>Actions of the keeper\<close>

record 'w KeeperIO =
  io_saveDB :: "DBLocalState \<Rightarrow> 'w \<Rightarrow> 'w \<times> unit res"
  io_loadDB :: "'w \<Rightarrow> DBLocalState option res"
  io_saveKeeper :: "KeeperLocalState \<Rightarrow> 'w \<Rightarrow> 'w \<times> unit res"
  io_loadKeeper :: "'w \<Rightarrow> KeeperLocalState option res"
  io_putInfo :: "string \<Rightarrow> KeeperInfo \<Rightarrow> duration \<Rightarrow> 'w \<Rightarrow> 'w \<times> unit res"
  io_UID :: string

type_synonym ('w, 'a) kact = "('w PostgresKeeper, 'a) act"

definition onPgm :: "('w, 'a) pgact \<Rightarrow> ('w, 'a) kact" where
  "onPgm a p = (case a (pk_pgm p) of (m, r) \<Rightarrow> (p\<lparr>pk_pgm := m\<rparr>, r))"

definition liftA :: "'a res \<Rightarrow> ('w, 'a) kact" where
  "liftA r = getA (\<lambda>_. r)"

definition onDisk :: "('w \<Rightarrow> 'w \<times> unit res) \<Rightarrow> ('w, unit) kact" where
  "onDisk f = onPgm (onHost f)"

definition saveDBLocalState :: "'w KeeperIO \<Rightarrow> DBLocalState \<Rightarrow> ('w, unit) kact" where
  "saveDBLocalState io dbls = thenA (onDisk (io_saveDB io dbls)) (modA (\<lambda>p. p\<lparr>pk_dbLocalState := dbls\<rparr>))"

definition saveKeeperLocalState :: "'w KeeperIO \<Rightarrow> ('w, unit) kact" where
  "saveKeeperLocalState io p = onDisk (io_saveKeeper io (pk_keeperLocalState p)) p"

definition setParameters :: "'w Host \<Rightarrow> DB \<Rightarrow> ('w, unit) kact" where
  "setParameters h db = modA (\<lambda>p. p\<lparr>pk_pgm := SetParameters (Some (createPGParameters h p db)) (pk_pgm p)\<rparr>)"

definition setRecoveryParameters :: "PGParameters \<Rightarrow> ('w, unit) kact" where
  "setRecoveryParameters ps = modA (\<lambda>p. p\<lparr>pk_pgm := SetRecoveryParameters ps (pk_pgm p)\<rparr>)"

definition setHba :: "string list \<Rightarrow> ('w, unit) kact" where
  "setHba hba = modA (\<lambda>p. p\<lparr>pk_pgm := SetHba (Some hba) (pk_pgm p)\<rparr>)"

text \<open>Create a keeper: the states saved by an earlier run are loaded; a different configured uid is fatal.\<close>

definition loadLocalStates :: "'w KeeperIO \<Rightarrow> string \<Rightarrow> ('w, unit) kact" where
  "loadLocalStates io uid =
     bindA (\<lambda>p. (p, io_loadKeeper io (mg_machine (pk_pgm p)))) (\<lambda>kls.
     thenA (case kls of None \<Rightarrow> returnA () | Some s \<Rightarrow> modA (\<lambda>p. p\<lparr>pk_keeperLocalState := s\<rparr>))
     (thenA (\<lambda>p.
        let saved = kls_UID (pk_keeperLocalState p)
        in if saved \<noteq> '''' \<and> uid \<noteq> '''' \<and> saved \<noteq> uid then (p, Inl (Panic ''saved uid differs from configuration uid''))
           else if saved = '''' then
             tryA (saveKeeperLocalState io) (\<lambda>r. case r of Inl _ \<Rightarrow> (\<lambda>p. (p, Inl (Panic ''cannot save keeper local state''))) | Inr _ \<Rightarrow> returnA ())
               (p\<lparr>pk_keeperLocalState := (pk_keeperLocalState p)\<lparr>kls_UID := (if uid = '''' then io_UID io else uid)\<rparr>\<rparr>)
           else (p, Inr ()))
     (bindA (\<lambda>p. (p, io_loadDB io (mg_machine (pk_pgm p)))) (\<lambda>dbls.
        case dbls of None \<Rightarrow> returnA () | Some s \<Rightarrow> modA (\<lambda>p. p\<lparr>pk_dbLocalState := s\<rparr>)))))"

section \<open>What the keeper reports\<close>

definition GetInSyncStandbys :: "'w Host \<Rightarrow> ('w, string list) kact" where
  "GetInSyncStandbys h =
     bindA (onPgm (GetSyncStandbys h)) (\<lambda>names. returnA (map NameFromStolonName (filter IsStolonName names)))"

definition historyEntry :: "TimelineHistory \<Rightarrow> PostgresTimelineHistory" where
  "historyEntry tlh = \<lparr>tlh_TimelineID = th_TimelineID tlh, tlh_SwitchPoint = th_SwitchPoint tlh, tlh_Reason = th_Reason tlh\<rparr>"

definition basePGState :: "'w PostgresKeeper \<Rightarrow> PostgresState" where
  "basePGState p =
     \<lparr>pst_UID = ls_UID (pk_dbLocalState p), pst_Generation = ls_Generation (pk_dbLocalState p),
      pst_ListenAddress = pk_pgListenAddress p, pst_Port = pk_pgPort p, pst_Healthy = False,
      pst_SystemID = '''', pst_TimelineID = 0, pst_XLogPos = 0, pst_TimelinesHistory = [],
      pst_PGParameters = None, pst_SynchronousStandbys = None, pst_OlderWalFile = ''''\<rparr>"

definition pgStateWal :: "'w Host \<Rightarrow> PostgresState \<Rightarrow> ('w, PostgresState) kact" where
  "pgStateWal h pgState =
     tryA (onPgm (OlderWalFile h)) (\<lambda>r.
       returnA ((case r of Inl _ \<Rightarrow> pgState | Inr ow \<Rightarrow> pgState\<lparr>pst_OlderWalFile := ow\<rparr>)\<lparr>pst_Healthy := True\<rparr>))"

definition pgStateHistory :: "'w Host \<Rightarrow> PostgresState \<Rightarrow> ('w, PostgresState) kact" where
  "pgStateHistory h pgState =
     (if pst_TimelineID pgState > 1 then
        tryA (onPgm (GetTimelinesHistory h (pst_TimelineID pgState))) (\<lambda>r. case r of
          Inl _ \<Rightarrow> returnA pgState
        | Inr tlsh \<Rightarrow> pgStateWal h (pgState\<lparr>pst_TimelinesHistory := map historyEntry tlsh\<rparr>))
      else pgStateWal h pgState)"

definition pgStateSystem :: "'w Host \<Rightarrow> PostgresState \<Rightarrow> ('w, PostgresState) kact" where
  "pgStateSystem h pgState =
     tryA (onPgm (GetSystemData h)) (\<lambda>r. case r of
       Inl _ \<Rightarrow> returnA pgState
     | Inr sd \<Rightarrow> pgStateHistory h (pgState\<lparr>pst_SystemID := sd_SystemID sd, pst_TimelineID := sd_TimelineID sd, pst_XLogPos := sd_XLogPos sd\<rparr>))"

definition GetPGState :: "'w Host \<Rightarrow> ('w, PostgresState) kact" where
  "GetPGState h p =
     bindA (onPgm (IsInitialized h)) (\<lambda>initialized.
       if \<not> initialized then returnA (basePGState p)
       else tryA (onPgm (GetConfigFilePGParameters h)) (\<lambda>r. case r of
         Inl _ \<Rightarrow> returnA (basePGState p)
       | Inr pgParameters \<Rightarrow>
           let pgState = (basePGState p)\<lparr>pst_PGParameters := Some (fmfilter (\<lambda>k. \<not> StringInSlice managedPGParameters k) pgParameters)\<rparr>
           in tryA (GetInSyncStandbys h) (\<lambda>r. case r of
                Inl _ \<Rightarrow> returnA pgState
              | Inr inSyncStandbys \<Rightarrow> pgStateSystem h (pgState\<lparr>pst_SynchronousStandbys := Some inSyncStandbys\<rparr>)))) p"

definition updatePGState :: "'w Host \<Rightarrow> ('w, unit) kact" where
  "updatePGState h =
     tryA (GetPGState h) (\<lambda>r. case r of
       Inl _ \<Rightarrow> returnA ()
     | Inr pgState \<Rightarrow> modA (\<lambda>p. p\<lparr>pk_lastPGState := Some pgState\<rparr>))"

definition updateKeeperInfo :: "'w Host \<Rightarrow> 'w KeeperIO \<Rightarrow> ('w, unit) kact" where
  "updateKeeperInfo h io p =
     (let kls = pk_keeperLocalState p
      in if kls_ClusterUID kls = '''' then returnA () p
         else
           let (maj, mi) = (case snd (BinaryVersion h (pk_pgm p)) of Inl _ \<Rightarrow> (0, 0) | Inr v \<Rightarrow> v);
               keeperInfo = \<lparr>ki_InfoUID = io_UID io, ki_UID = kls_UID kls, ki_ClusterUID = kls_ClusterUID kls,
                 ki_BootUUID = pk_bootUUID p, ki_PostgresBinaryVersion = \<lparr>pv_Maj = maj, pv_Min = mi\<rparr>,
                 ki_PostgresState = pk_lastPGState p\<rparr>
           in onDisk (io_putInfo io (kls_UID kls) keeperInfo (pk_sleepInterval p)) p)"

section \<open>Following another instance\<close>

definition standbySettingsFor :: "'w PostgresKeeper \<Rightarrow> DB \<Rightarrow> DB \<Rightarrow> StandbySettings" where
  "standbySettingsFor p db followedDB =
     \<lparr>ss_PrimaryConninfo = ConnString (getReplConnParams p db followedDB), ss_PrimarySlotName = StolonName (db_UID db),
      ss_RecoveryMinApplyDelay = ''''\<rparr>"

definition fullResync :: "'w Host \<Rightarrow> DB \<Rightarrow> DB \<Rightarrow> ('w, unit) kact" where
  "fullResync h db followedDB p =
     (let (maj, mi) = (case snd (BinaryVersion h (pk_pgm p)) of Inl _ \<Rightarrow> (0, 0) | Inr v \<Rightarrow> v);
          replSlot = (if maj = 9 \<and> mi \<ge> 6 \<or> maj > 10 then StolonName (db_UID db) else '''')
      in thenA (onPgm (RemoveAll h))
         (thenA (onPgm (SyncFromFollowed h (getReplConnParams p db followedDB) replSlot))
           (setRecoveryParameters (Some (createRecoveryParameters True (Some (standbySettingsFor p db followedDB)) None None)))) p)"

definition resync :: "'w Host \<Rightarrow> DB \<Rightarrow> DB \<Rightarrow> bool \<Rightarrow> ('w, unit) kact" where
  "resync h db followedDB tryPgrewind p =
     (if tryPgrewind \<and> usePgrewind p db then
        tryA (onPgm (SyncFromFollowedPGRewind h (getSUConnParams p db followedDB) (pk_pgSUPassword p))) (\<lambda>r. case r of
          Inl _ \<Rightarrow> fullResync h db followedDB
        | Inr _ \<Rightarrow> setRecoveryParameters (Some (createRecoveryParameters True (Some (standbySettingsFor p db followedDB)) None None))) p
      else fullResync h db followedDB p)"

section \<open>Replication slots\<close>

definition internalReplSlots :: "string \<Rightarrow> string list \<Rightarrow> string list \<Rightarrow> (string, unit) fmap" where
  "internalReplSlots uid followersUIDs additionalReplSlots =
     fmap_of_list (map (\<lambda>slot. (StolonName slot, ())) (filter (\<lambda>u. u \<noteq> uid) followersUIDs @ additionalReplSlots))"

fun dropSlots :: "'w Host \<Rightarrow> (string, unit) fmap \<Rightarrow> string list \<Rightarrow> ('w, unit) kact" where
  "dropSlots h wanted [] = returnA ()"
| "dropSlots h wanted (slot # slots) =
     (if IsStolonName slot \<and> fmlookup wanted slot = None
      then tryA (onPgm (DropReplicationSlot h slot)) (\<lambda>_. dropSlots h wanted slots)
      else dropSlots h wanted slots)"

fun createSlots :: "'w Host \<Rightarrow> string list \<Rightarrow> string list \<Rightarrow> ('w, unit) kact" where
  "createSlots h cur [] = returnA ()"
| "createSlots h cur (slot # slots) =
     (if \<not> StringInSlice cur slot then thenA (onPgm (CreateReplicationSlot h slot)) (createSlots h cur slots)
      else createSlots h cur slots)"

definition updateReplSlots :: "'w Host \<Rightarrow> string list \<Rightarrow> string \<Rightarrow> string list \<Rightarrow> string list \<Rightarrow> ('w, unit) kact" where
  "updateReplSlots h curReplSlots uid followersUIDs additionalReplSlots =
     (let wanted = internalReplSlots uid followersUIDs additionalReplSlots
      in thenA (dropSlots h wanted curReplSlots)
           (createSlots h curReplSlots (map fst (range_by (os_order h) wanted))))"

definition refreshReplicationSlots :: "'w Host \<Rightarrow> DB \<Rightarrow> ('w, unit) kact" where
  "refreshReplicationSlots h db =
     bindA (onPgm (GetReplicationSlots h)) (\<lambda>cur.
       updateReplSlots h cur (db_UID db) (elems (dbs_Followers (db_Spec db))) (elems (dbs_AdditionalReplicationSlots (db_Spec db))))"

section \<open>Initializing a database\<close>

definition DefaultDBWaitReadyTimeout :: duration where
  "DefaultDBWaitReadyTimeout = 60 * second"

definition newDBLocalState :: "string \<Rightarrow> bool \<Rightarrow> DBLocalState" where
  "newDBLocalState uid initializing =
     \<lparr>ls_UID = uid, ls_Generation = NoGeneration, ls_Initializing = initializing, ls_InitPGParameters = None\<rparr>"

text \<open>Save the parameters that the new instance has, when they are to be included.\<close>

definition saveInitPGParameters :: "'w Host \<Rightarrow> 'w KeeperIO \<Rightarrow> DB \<Rightarrow> bool \<Rightarrow> ('w, unit) kact" where
  "saveInitPGParameters h io db initializing =
     whenA (dbs_IncludeConfig (db_Spec db))
       (bindA (onPgm (GetConfigFilePGParameters h)) (\<lambda>pgParameters.
          saveDBLocalState io ((newDBLocalState (db_UID db) initializing)\<lparr>ls_InitPGParameters := Some pgParameters\<rparr>)))"

definition initNew :: "'w Host \<Rightarrow> 'w KeeperIO \<Rightarrow> DB \<Rightarrow> ('w, unit) kact" where
  "initNew h io db =
     (let initConfig = (case dbs_NewConfig (db_Spec db) of
                          None \<Rightarrow> \<lparr>nc_Locale = '''', nc_Encoding = '''', nc_DataChecksums = False\<rparr>
                        | Some nc \<Rightarrow> nc)
      in thenA (saveDBLocalState io (newDBLocalState (db_UID db) True))
         (thenA (setParameters h db)
         (thenA (onPgm (StopIfStarted h True))
         (thenA (onPgm (RemoveAll h))
         (thenA (onPgm (Init h initConfig))
         (thenA (onPgm (StartTmpMerged h))
         (thenA (onPgm (WaitReady h DefaultDBWaitReadyTimeout))
         (thenA (saveInitPGParameters h io db True)
         (thenA (onPgm (SetupRoles h))
           (onPgm (StopIfStarted h True)))))))))))"

definition initPITR :: "'w Host \<Rightarrow> 'w KeeperIO \<Rightarrow> ClusterData \<Rightarrow> DB \<Rightarrow> ('w, unit) kact" where
  "initPITR h io cd db =
     thenA (saveDBLocalState io (newDBLocalState (db_UID db) True))
     (thenA (setParameters h db)
     (thenA (onPgm (StopIfStarted h True))
     (thenA (onPgm (RemoveAll h))
     (bindA (liftA (deref ''nil PITRConfig'' (dbs_PITRConfig (db_Spec db)))) (\<lambda>pitr.
      thenA (onPgm (Restore h (pc_DataRestoreCommand pitr)))
      (let external = (case dbs_FollowConfig (db_Spec db) of
                         Some fc \<Rightarrow> if fc_Type fc = FollowTypeExternal then Some fc else None
                       | None \<Rightarrow> None);
           standbyMode = (external \<noteq> None);
           standbySettings = Option.bind external fc_StandbySettings
       in thenA (setRecoveryParameters (Some (createRecoveryParameters standbyMode standbySettings
                   (pc_ArchiveRecoverySettings pitr) (pc_RecoveryTargetSettings pitr))))
          (thenA (onPgm (StartTmpMerged h))
          (bindA (liftA (defspec_of cd)) (\<lambda>spec.
           thenA (whenA (\<not> standbyMode) (onPgm (WaitRecoveryDone h (def_SyncTimeout spec))))
           (thenA (onPgm (WaitReady h (def_SyncTimeout spec)))
           (thenA (saveInitPGParameters h io db True)
             (onPgm (StopIfStarted h True)))))))))))))"

text \<open>After a rewind the standby may still be on another branch, or wait for WAL that is gone; then it is copied again.\<close>

definition checkRewound :: "'w Host \<Rightarrow> DB \<Rightarrow> ('w, bool) kact" where
  "checkRewound h followedDB =
     tryA (onPgm (WaitReady h DefaultDBWaitReadyTimeout)) (\<lambda>r. case r of
       Inl (Panic e) \<Rightarrow> (\<lambda>p. (p, Inl (Panic e)))
     | Inl (Error _) \<Rightarrow> returnA True
     | Inr _ \<Rightarrow> bindA (GetPGState h) (\<lambda>pgState. returnA (keeper_isDifferentTimelineBranch followedDB pgState)))"

definition initResync :: "'w Host \<Rightarrow> 'w KeeperIO \<Rightarrow> ClusterData \<Rightarrow> DB \<Rightarrow> bool \<Rightarrow> ('w, unit) kact" where
  "initResync h io cd db initialized =
     thenA (saveDBLocalState io (newDBLocalState (db_UID db) True))
     (thenA (onPgm (StopIfStarted h True))
     (thenA (setParameters h db)
     (bindA (if initialized then onPgm (GetSystemdID h) else returnA '''') (\<lambda>systemID.
      bindA (liftA (deref ''nil FollowConfig'' (dbs_FollowConfig (db_Spec db)))) (\<lambda>fc.
      case fmlookup (cd_DBs cd) (fc_DBUID fc) of
        None \<Rightarrow> failA ''no db data available for followed db''
      | Some followedDB \<Rightarrow>
          let tryPgrewind = (initialized \<and> systemID = st_SystemID (db_Status followedDB))
          in thenA (resync h db followedDB tryPgrewind)
             (thenA (onPgm (Start h))
             (whenA tryPgrewind
               (bindA (checkRewound h followedDB) (\<lambda>full.
                 whenA full
                   (thenA (onPgm (StopIfStarted h True)) (resync h db followedDB False)))))))))))"

definition initExisting :: "'w Host \<Rightarrow> 'w KeeperIO \<Rightarrow> DB \<Rightarrow> ('w, unit) kact" where
  "initExisting h io db =
     thenA (saveDBLocalState io (newDBLocalState (db_UID db) False))
     (thenA (setParameters h db)
     (thenA (onPgm (StopIfStarted h True))
     (thenA (onPgm (StartTmpMerged h))
     (thenA (onPgm (WaitReady h DefaultDBWaitReadyTimeout))
     (thenA (saveInitPGParameters h io db False)
       (onPgm (StopIfStarted h True)))))))"

definition initDB :: "'w Host \<Rightarrow> 'w KeeperIO \<Rightarrow> ClusterData \<Rightarrow> DB \<Rightarrow> ('w, unit) kact" where
  "initDB h io cd db =
     bindA (onPgm (IsInitialized h)) (\<lambda>initialized.
     thenA (setRecoveryParameters None)
     (case dbs_InitMode (db_Spec db) of
        DBInitModeNew \<Rightarrow> initNew h io db
      | DBInitModePITR \<Rightarrow> initPITR h io cd db
      | DBInitModeResync \<Rightarrow> initResync h io cd db initialized
      | DBInitModeExisting \<Rightarrow> initExisting h io db
      | DBInitModeNone \<Rightarrow> failA ''different local dbUID but init mode is none''
      | DBInitModeOther _ \<Rightarrow> failA ''unknown db init mode''))"

text \<open>A database whose initialization did not finish is removed.\<close>

definition cleanupFailed :: "'w Host \<Rightarrow> 'w KeeperIO \<Rightarrow> ('w, unit) kact" where
  "cleanupFailed h io =
     thenA (onPgm (StopIfStarted h True))
     (thenA (onPgm (RemoveAll h))
       (saveDBLocalState io (newDBLocalState '''' False)))"

section \<open>Roles\<close>

definition masterRoleSM :: "'w Host \<Rightarrow> DB \<Rightarrow> Role \<Rightarrow> ('w, unit) kact" where
  "masterRoleSM h db localRole =
     (if localRole = RoleUndefined then failA ''database cluster not initialized but requested role is master''
      else
        bindA (onPgm (IsStarted h)) (\<lambda>started.
        thenA (whenA (\<not> started) (thenA (onPgm (Start h)) (onPgm (WaitReady h DefaultDBWaitReadyTimeout))))
        (thenA (whenA (localRole = RoleStandby) (thenA (setRecoveryParameters None) (onPgm (Promote h))))
          (refreshReplicationSlots h db))))"

definition standbyRoleSM :: "'w Host \<Rightarrow> ClusterData \<Rightarrow> DB \<Rightarrow> Role \<Rightarrow> ('w, unit) kact" where
  "standbyRoleSM h cd db localRole =
     bindA (liftA (deref ''nil FollowConfig'' (dbs_FollowConfig (db_Spec db)))) (\<lambda>fc.
     bindA (\<lambda>p. (p, case fc_Type fc of
         FollowTypeInternal \<Rightarrow>
           (case fmlookup (cd_DBs cd) (fc_DBUID fc) of
              None \<Rightarrow> Inl (Error ''no db data available for followed db'')
            | Some followedDB \<Rightarrow> Inr (Some (standbySettingsFor p db followedDB)))
       | FollowTypeExternal \<Rightarrow> Inr (fc_StandbySettings fc)
       | FollowTypeOther _ \<Rightarrow> Inl (Error ''unknown follow type''))) (\<lambda>standbySettings.
       case localRole of
         RoleMaster \<Rightarrow> failA ''cannot move from master role to standby role''
       | RoleUndefined \<Rightarrow> failA ''our db role is none''
       | RoleOther _ \<Rightarrow> returnA ()
       | RoleStandby \<Rightarrow>
           bindA (onPgm (IsStarted h)) (\<lambda>started.
           thenA (whenA (\<not> started)
             (thenA (setRecoveryParameters (Some (createRecoveryParameters True standbySettings None None))) (onPgm (Start h))))
           (let new = createRecoveryParameters True standbySettings
                        (if fc_Type fc = FollowTypeExternal then fc_ArchiveRecoverySettings fc else None) None
            in thenA (\<lambda>p.
                 if mg_curRecoveryParameters (pk_pgm p) \<noteq> Some new
                 then thenA (setRecoveryParameters (Some new)) (onPgm (Restart h True)) p
                 else returnA () p)
               (tryA (refreshReplicationSlots h db) (\<lambda>_. returnA ()))))))"

section \<open>The state machine\<close>

definition updateConfiguration :: "'w Host \<Rightarrow> ClusterData \<Rightarrow> DB \<Rightarrow> ('w, unit) kact" where
  "updateConfiguration h cd db p =
     (let parametersChanged = (mg_curParameters (pk_pgm p) \<noteq> Some (createPGParameters h p db))
      in thenA (whenA parametersChanged (setParameters h db))
         (bindA (liftA (generateHBA (os_order h) p cd db)) (\<lambda>newHBA.
          let hbaChanged = (mg_curHba (pk_pgm p) \<noteq> Some newHBA)
          in thenA (whenA hbaChanged (setHba newHBA))
             (whenA (parametersChanged \<or> hbaChanged) (tryA (onPgm (Reload h)) (\<lambda>_. returnA ()))))) p)"

definition saveGeneration :: "'w KeeperIO \<Rightarrow> DB \<Rightarrow> ('w, unit) kact" where
  "saveGeneration io db p =
     saveDBLocalState io ((pk_dbLocalState p)\<lparr>ls_Generation := db_Generation db, ls_Initializing := False\<rparr>) p"

text \<open>The status of an initialized instance is asked for the log only: an error does not stop the run.\<close>

definition logStatus :: "'w Host \<Rightarrow> bool \<Rightarrow> ('w, unit) kact" where
  "logStatus h initialized = whenA initialized (tryA (onPgm (IsStarted h)) (\<lambda>_. returnA ()))"

text \<open>When the local database is the assigned one: from the check of whether it is initialized on.\<close>

definition convergeRole :: "'w Host \<Rightarrow> 'w KeeperIO \<Rightarrow> ClusterData \<Rightarrow> DB \<Rightarrow> ('w, unit) kact" where
  "convergeRole h io cd db =
     bindA (onPgm (IsInitialized h)) (\<lambda>initialized.
      thenA (logStatus h initialized)
      (thenA (setParameters h db)
      (bindA (if initialized then onPgm (GetRole h) else returnA RoleUndefined) (\<lambda>localRole.
       thenA (case dbs_Role (db_Spec db) of
                RoleMaster \<Rightarrow> masterRoleSM h db localRole
              | RoleStandby \<Rightarrow> standbyRoleSM h cd db localRole
              | RoleUndefined \<Rightarrow> failA ''our db requested role is none''
              | RoleOther _ \<Rightarrow> returnA ())
       (thenA (updateConfiguration h cd db) (saveGeneration io db))))))"

text \<open>From the database assigned to the keeper on.\<close>

definition convergeDB :: "'w Host \<Rightarrow> 'w KeeperIO \<Rightarrow> ClusterData \<Rightarrow> DB \<Rightarrow> ('w, unit) kact" where
  "convergeDB h io cd db =
     bindA (\<lambda>p. (p, generateHBA (os_order h) p cd db)) (\<lambda>hba.
     thenA (setHba hba)
     (thenA (\<lambda>p. whenA (ls_Initializing (pk_dbLocalState p)) (cleanupFailed h io) p)
     (thenA (\<lambda>p. whenA (ls_UID (pk_dbLocalState p) \<noteq> db_UID db) (initDB h io cd db) p)
       (convergeRole h io cd db))))"

definition adoptCluster :: "'w KeeperIO \<Rightarrow> Cluster \<Rightarrow> ClusterSpec \<Rightarrow> ('w, unit) kact" where
  "adoptCluster io c spec =
     thenA (modA (\<lambda>p. p\<lparr>pk_sleepInterval := def_SleepInterval spec, pk_requestTimeout := def_RequestTimeout spec\<rparr>))
       (\<lambda>p. if kls_ClusterUID (pk_keeperLocalState p) \<noteq> c_UID c
             then saveKeeperLocalState io (p\<lparr>pk_keeperLocalState := (pk_keeperLocalState p)\<lparr>kls_ClusterUID := c_UID c\<rparr>\<rparr>)
             else returnA () p)"

definition postgresKeeperSM :: "'w Host \<Rightarrow> 'w KeeperIO \<Rightarrow> ClusterData option res \<Rightarrow> ('w, unit) kact" where
  "postgresKeeperSM h io cdr =
     bindA (liftA cdr) (\<lambda>cdo. case cdo of
       None \<Rightarrow> failA ''no cluster data available, waiting for it to appear''
     | Some cd \<Rightarrow>
         if cd_FormatVersion cd \<noteq> CurrentCDFormatVersion then failA ''unsupported clusterdata format version''
         else
           bindA (liftA (cluster_of cd)) (\<lambda>c.
           bindA (liftA (deref ''nil Spec'' (c_Spec c))) (\<lambda>spec.
             if Validate spec \<noteq> None then failA ''clusterdata validation failed''
             else
               thenA (adoptCluster io c (WithDefaults spec))
               (\<lambda>p. case fmlookup (cd_Keepers cd) (kls_UID (pk_keeperLocalState p)) of
                  None \<Rightarrow> failA ''our keeper data is not available, waiting for it to appear'' p
                | Some k \<Rightarrow>
                    (case FindDB (os_order h) cd k of
                       None \<Rightarrow> thenA (onPgm (StopIfStarted h True)) (failA ''no db assigned'') p
                     | Some db \<Rightarrow>
                         if pk_bootUUID p \<noteq> ks_BootUUID (k_Status k)
                         then thenA (onPgm (StopIfStarted h True)) (failA ''our db boot UID is different than the cluster data one'') p
                         else convergeDB h io cd db p)))))"

end
