(* ===== verification/Keeper_Correct.thy ===== *)
theory Keeper_Correct
  imports Keeper_SM
begin

text \<open>
  What the keeper's state machine guarantees: the local state that a run leaves behind (\<open>keeper_generation_sound\<close>,
  \<open>keeper_failed_init_removed\<close>), the role (\<open>keeper_role_attained\<close>), the replication slots and the report.
  The local state is followed through the sequences of actions with the calculus of the theory \<open>Actions\<close>.
\<close>

text \<open>The question for the log changes nothing and cannot fail.\<close>

lemma logStatus_returns: "logStatus h initialized = returnA ()"
  by (rule ext) (simp add: logStatus_def act_defs onPgm_def split: prod.splits)

lemma thenA_returnA: "thenA (returnA ()) a = a"
  by (rule ext) (simp add: act_defs)

lemma convergeRole_eq:
  "convergeRole h io cd db =
     bindA (onPgm (IsInitialized h)) (\<lambda>initialized.
      thenA (setParameters h db)
      (bindA (if initialized then onPgm (GetRole h) else returnA RoleUndefined) (\<lambda>localRole.
       thenA (case dbs_Role (db_Spec db) of
                RoleMaster \<Rightarrow> masterRoleSM h db localRole
              | RoleStandby \<Rightarrow> standbyRoleSM h cd db localRole
              | RoleUndefined \<Rightarrow> failA ''our db requested role is none''
              | RoleOther _ \<Rightarrow> returnA ())
       (thenA (updateConfiguration h cd db) (saveGeneration io db)))))"
  by (simp add: convergeRole_def logStatus_returns thenA_returnA)

section \<open>The local state of the database\<close>

text \<open>An action keeps the local state (and the identity of the keeper and its last report).\<close>

definition local_of :: "'w PostgresKeeper \<Rightarrow> DBLocalState \<times> KeeperLocalState \<times> string \<times> PostgresState option" where
  "local_of p = (pk_dbLocalState p, pk_keeperLocalState p, pk_bootUUID p, pk_lastPGState p)"

definition stays :: "('w, 'a) kact \<Rightarrow> bool" where
  "stays a \<longleftrightarrow> (\<forall>p. local_of (fst (a p)) = local_of p)"

lemma local_of_pgm [simp]: "local_of (p\<lparr>pk_pgm := m\<rparr>) = local_of p"
  by (simp add: local_of_def)

lemma stays_onPgm [simp]: "stays (onPgm a)"
  by (simp add: stays_def onPgm_def split: prod.splits)

lemma stays_pure [simp]: "stays (returnA x)" "stays (failA e)" "stays (liftA r)" "stays (\<lambda>p. (p, f p))"
  by (simp_all add: stays_def act_defs liftA_def)

lemma stays_onDisk [simp]: "stays (onDisk f)"
  by (simp add: onDisk_def)

lemma stays_set [simp]: "stays (setParameters h db)" "stays (setRecoveryParameters ps)" "stays (setHba hba)"
  by (simp_all add: stays_def act_defs setParameters_def setRecoveryParameters_def setHba_def)

lemma stays_bindA [intro]: "stays a \<Longrightarrow> (\<And>x. stays (f x)) \<Longrightarrow> stays (bindA a f)"
  by (auto simp: stays_def bindA_def split: prod.splits sum.splits) (metis fst_conv)+

lemma stays_thenA [intro]: "stays a \<Longrightarrow> stays b \<Longrightarrow> stays (thenA a b)"
  by (auto simp: thenA_def)

lemma stays_tryA [intro]: "stays a \<Longrightarrow> (\<And>x. stays (f x)) \<Longrightarrow> stays (tryA a f)"
  by (auto simp: stays_def tryA_def split: prod.splits) (metis fst_conv)+

lemma stays_whenA [intro]: "(b \<Longrightarrow> stays a) \<Longrightarrow> stays (whenA b a)"
  by (simp add: whenA_def)

lemma stays_runs: "stays a \<Longrightarrow> runs (\<lambda>p. J (local_of p)) a (\<lambda>_ p. J (local_of p)) (\<lambda>p. J (local_of p))"
  by (auto simp: stays_def runs_def split: prod.splits sum.splits) (metis fst_conv)+

lemma stays_eta: "(\<And>p. a p = b p p) \<Longrightarrow> (\<And>k. stays (b k)) \<Longrightarrow> stays a"
  by (simp add: stays_def)


lemma stays_fullResync [simp]: "stays (fullResync h db followedDB)"
proof -
  have "stays (thenA (onPgm a) (thenA (onPgm b) (setRecoveryParameters ps)))" for a b :: "('a, unit) pgact" and ps
    by (intro stays_thenA) simp_all
  then show ?thesis by (simp add: stays_def fullResync_def Let_def split: prod.splits)
qed

lemma stays_resync [simp]: "stays (resync h db followedDB tryPgrewind)"
proof -
  have "stays (tryA (onPgm a) (\<lambda>r. case r of Inl _ \<Rightarrow> fullResync h db followedDB | Inr _ \<Rightarrow> setRecoveryParameters ps))"
    for a :: "('a, unit) pgact" and ps
    by (intro stays_tryA) (simp_all split: sum.splits)
  then show ?thesis using stays_fullResync [of h db followedDB] by (simp add: stays_def resync_def)
qed

lemma stays_slots [simp]: "stays (dropSlots h wanted slots)" "stays (createSlots h cur slots)"
  by (induction slots) (auto intro!: stays_tryA stays_thenA)

lemma stays_refreshReplicationSlots [simp]: "stays (refreshReplicationSlots h db)"
  by (auto simp: refreshReplicationSlots_def updateReplSlots_def Let_def intro!: stays_bindA stays_thenA)

lemma stays_pgState [simp]: "stays (pgStateWal h s)" "stays (pgStateHistory h s)" "stays (pgStateSystem h s)"
proof -
  show w: "stays (pgStateWal h s)" for s by (simp add: pgStateWal_def stays_tryA)
  show s: "stays (pgStateHistory h s)" for s
    using w by (auto simp: pgStateHistory_def intro!: stays_tryA split: sum.splits)
  show "stays (pgStateSystem h s)"
    using s by (auto simp: pgStateSystem_def intro!: stays_tryA split: sum.splits)
qed

lemma stays_GetInSyncStandbys [simp]: "stays (GetInSyncStandbys h)"
  by (auto simp: GetInSyncStandbys_def)

lemma stays_GetPGState [simp]: "stays (GetPGState h)"
proof -
  have *: "stays (bindA (onPgm (IsInitialized h)) (\<lambda>initialized.
       if \<not> initialized then returnA base
       else tryA (onPgm (GetConfigFilePGParameters h)) (\<lambda>r. case r of
         Inl _ \<Rightarrow> returnA base
       | Inr ps \<Rightarrow> tryA (GetInSyncStandbys h) (\<lambda>r. case r of
            Inl _ \<Rightarrow> returnA (st ps) | Inr ss \<Rightarrow> pgStateSystem h (st' ps ss)))))" for base st st'
    by (auto intro!: stays_bindA stays_tryA split: sum.splits)
  show ?thesis
    unfolding stays_def GetPGState_def Let_def by (rule allI, rule * [unfolded stays_def, THEN spec])
qed

lemma stays_checkRewound [simp]: "stays (checkRewound h followedDB)"
  by (auto simp: checkRewound_def intro!: stays_tryA stays_bindA split: sum.splits go_error.splits)

lemma stays_masterRoleSM [simp]: "stays (masterRoleSM h db localRole)"
  by (auto simp: masterRoleSM_def intro!: stays_bindA stays_thenA stays_whenA)

lemma stays_standbyRoleSM [simp]: "stays (standbyRoleSM h cd db localRole)"
proof -
  have "stays (\<lambda>p. if mg_curRecoveryParameters (pk_pgm p) \<noteq> Some new
      then thenA (setRecoveryParameters (Some new)) (onPgm (Restart h True)) p else returnA () p)" for new
  proof -
    have "stays (thenA (setRecoveryParameters (Some new)) (onPgm (Restart h True)))" by (intro stays_thenA) simp_all
    then show ?thesis by (simp add: stays_def returnA_def)
  qed
  then show ?thesis
    by (auto simp: standbyRoleSM_def Let_def intro!: stays_bindA stays_thenA stays_whenA stays_tryA split: Role.splits)
qed

lemma stays_updateConfiguration [simp]: "stays (updateConfiguration h cd db)"
proof -
  have "stays (thenA (whenA b (setParameters h db)) (bindA (liftA r) (\<lambda>hba. thenA (whenA (c hba) (setHba hba))
      (whenA (d hba) (tryA (onPgm (Reload h)) (\<lambda>_. returnA ()))))))" for b r c d
    by (intro stays_thenA stays_bindA stays_whenA stays_tryA) simp_all
  then show ?thesis by (simp add: stays_def updateConfiguration_def Let_def)
qed


text \<open>
  The local states that a run may leave behind: \<open>L k b S\<close> says that the local state of the database is in
  \<open>S\<close>, and that the keeper is the same. \<open>started_init\<close> are the states of an initialization that has begun.
\<close>

definition L :: "KeeperLocalState \<Rightarrow> string \<times> PostgresState option \<Rightarrow> DBLocalState set \<Rightarrow> 'w PostgresKeeper \<Rightarrow> bool" where
  "L k b S p \<longleftrightarrow> pk_dbLocalState p \<in> S \<and> pk_keeperLocalState p = k \<and> (pk_bootUUID p, pk_lastPGState p) = b"

definition started_init :: "DB \<Rightarrow> DBLocalState set" where
  "started_init db = range (\<lambda>ps.
     (newDBLocalState (db_UID db) (dbs_InitMode (db_Spec db) \<noteq> DBInitModeExisting))\<lparr>ls_InitPGParameters := ps\<rparr>)"

definition reset_state :: DBLocalState where
  "reset_state = newDBLocalState '''' False"

lemma L_stays: "stays a \<Longrightarrow> S \<subseteq> E \<Longrightarrow> runs (L k b S) a (\<lambda>_. L k b S) (L k b E)"
  using stays_runs [of a "\<lambda>(s, k', b'). s \<in> S \<and> k' = k \<and> b' = b"]
  by (rule runs_weaken) (auto simp: L_def local_of_def)

lemma L_stays_bind:
  assumes "stays a" "S \<subseteq> E" "\<And>x. runs (L k b S) (f x) Q (L k b E)"
  shows "runs (L k b S) (bindA a f) Q (L k b E)"
  using L_stays [OF assms(1,2)] assms(3) by (rule runs_bindA)

lemma L_stays_then:
  assumes "stays a" "S \<subseteq> E" "runs (L k b S) c Q (L k b E)"
  shows "runs (L k b S) (thenA a c) Q (L k b E)"
  unfolding thenA_def using assms by (intro L_stays_bind)

lemma L_save: "S \<subseteq> E \<Longrightarrow> runs (L k b S) (saveDBLocalState io s) (\<lambda>_. L k b {s}) (L k b E)"
  by (auto simp: runs_def L_def saveDBLocalState_def act_defs onDisk_def onPgm_def split: prod.splits sum.splits)

lemma L_fail: "S \<subseteq> E \<Longrightarrow> runs (L k b S) (failA e) Q (L k b E)"
  by (auto simp: runs_def failA_def L_def)

lemma L_return: "S \<subseteq> T \<Longrightarrow> runs (L k b S) (returnA x) (\<lambda>_. L k b T) (L k b E)"
  by (auto simp: runs_def returnA_def L_def)

lemma L_mono: "S \<subseteq> T \<Longrightarrow> L k b S p \<Longrightarrow> L k b T p"
  by (auto simp: L_def)

lemma L_saveInit:
  assumes "s = newDBLocalState (db_UID db) i" "range (\<lambda>ps. s\<lparr>ls_InitPGParameters := ps\<rparr>) \<subseteq> T" "T \<subseteq> E"
  shows "runs (L k b {s}) (saveInitPGParameters h io db i) (\<lambda>_. L k b T) (L k b E)"
proof -
  have s: "s = s\<lparr>ls_InitPGParameters := None\<rparr>" by (simp add: assms(1) newDBLocalState_def)
  then have "{s} \<subseteq> T" using assms(2) by blast
  moreover have "runs (L k b {s}) (saveDBLocalState io (s\<lparr>ls_InitPGParameters := Some ps\<rparr>)) (\<lambda>_. L k b T) (L k b E)" for ps
  proof (rule runs_weaken [OF L_save])
    show "{s} \<subseteq> E" using \<open>{s} \<subseteq> T\<close> assms(3) by auto
    show "L k b {s\<lparr>ls_InitPGParameters := Some ps\<rparr>} p \<Longrightarrow> L k b T p" for p :: "'a PostgresKeeper"
      using assms(2) by (auto simp: L_def)
  qed
  ultimately show ?thesis
    using assms(1,3) unfolding saveInitPGParameters_def
    by (intro runs_whenA L_stays_bind) (auto intro: L_mono)
qed

lemma init_starts:
  assumes "dbs_InitMode (db_Spec db) \<noteq> DBInitModeExisting \<longleftrightarrow> i"
  shows "started_init db = range (\<lambda>ps. (newDBLocalState (db_UID db) i)\<lparr>ls_InitPGParameters := ps\<rparr>)"
    and "{newDBLocalState (db_UID db) i} \<subseteq> started_init db"
proof -
  show *: "started_init db = range (\<lambda>ps. (newDBLocalState (db_UID db) i)\<lparr>ls_InitPGParameters := ps\<rparr>)"
    using assms by (simp add: started_init_def)
  have "newDBLocalState (db_UID db) i = (newDBLocalState (db_UID db) i)\<lparr>ls_InitPGParameters := None\<rparr>"
    by (simp add: newDBLocalState_def)
  then show "{newDBLocalState (db_UID db) i} \<subseteq> started_init db" unfolding * by blast
qed

text \<open>The common end of the initializations, after the part that keeps the local state.\<close>

lemma L_init_end:
  assumes "dbs_InitMode (db_Spec db) \<noteq> DBInitModeExisting \<longleftrightarrow> i" "started_init db \<subseteq> E" "stays c"
  shows "runs (L k b {newDBLocalState (db_UID db) i}) (thenA (saveInitPGParameters h io db i) c) (\<lambda>_. L k b (started_init db)) (L k b E)"
proof (rule runs_thenA)
  show "runs (L k b {newDBLocalState (db_UID db) i}) (saveInitPGParameters h io db i) (\<lambda>_. L k b (started_init db)) (L k b E)"
    using init_starts(1) [OF assms(1)] assms(2) by (intro L_saveInit [OF refl]) auto
  show "runs (L k b (started_init db)) c (\<lambda>_. L k b (started_init db)) (L k b E)"
    using assms(2,3) by (intro L_stays)
qed

lemma L_initNew:
  assumes "dbs_InitMode (db_Spec db) = DBInitModeNew" "S \<subseteq> E" "started_init db \<subseteq> E"
  shows "runs (L k b S) (initNew h io db) (\<lambda>_. L k b (started_init db)) (L k b E)"
proof -
  have E: "{newDBLocalState (db_UID db) True} \<subseteq> E" using assms(1,3) init_starts(2) [of db True] by auto
  show ?thesis
    unfolding initNew_def Let_def
    by (rule runs_thenA [OF L_save [OF assms(2)]], (rule L_stays_then [OF _ E], simp)+, rule L_init_end)
      (use assms in auto)
qed

lemma L_initPITR:
  assumes "dbs_InitMode (db_Spec db) = DBInitModePITR" "S \<subseteq> E" "started_init db \<subseteq> E"
  shows "runs (L k b S) (initPITR h io cd db) (\<lambda>_. L k b (started_init db)) (L k b E)"
proof -
  have E: "{newDBLocalState (db_UID db) True} \<subseteq> E" using assms(1,3) init_starts(2) [of db True] by auto
  note step = L_stays_then [OF _ E] L_stays_bind [OF _ E]
  have "runs (L k b {newDBLocalState (db_UID db) True})
      (bindA (liftA (defspec_of cd)) (\<lambda>spec.
           thenA (whenA c (onPgm (WaitRecoveryDone h (def_SyncTimeout spec))))
           (thenA (onPgm (WaitReady h (def_SyncTimeout spec)))
           (thenA (saveInitPGParameters h io db True) (onPgm (StopIfStarted h True))))))
      (\<lambda>_. L k b (started_init db)) (L k b E)" for c
    by (rule step(2), simp, rule step(1), rule stays_whenA, simp, rule step(1), simp, rule L_init_end) (use assms in auto)
  then show ?thesis
    unfolding initPITR_def Let_def
    by (rule_tac runs_thenA [OF L_save [OF assms(2)]], (rule_tac step(1), simp)+, rule_tac step(2), simp, (rule_tac step(1), simp)+)
qed

lemma L_initResync:
  assumes "dbs_InitMode (db_Spec db) = DBInitModeResync" "S \<subseteq> E" "started_init db \<subseteq> E"
  shows "runs (L k b S) (initResync h io cd db initialized) (\<lambda>_. L k b (started_init db)) (L k b E)"
proof -
  let ?n = "newDBLocalState (db_UID db) True"
  have n: "{?n} \<subseteq> started_init db" using assms(1) by (intro init_starts(2)) simp
  then have E: "{?n} \<subseteq> E" using assms(3) by blast
  have "stays (case fmlookup (cd_DBs cd) u of
        None \<Rightarrow> failA e
      | Some followedDB \<Rightarrow>
          thenA (resync h db followedDB (t followedDB))
             (thenA (onPgm (Start h))
             (whenA (t followedDB)
               (bindA (checkRewound h followedDB) (\<lambda>full.
                 whenA full (thenA (onPgm (StopIfStarted h True)) (resync h db followedDB False)))))))" for u e t
    by (auto intro!: stays_thenA stays_whenA stays_bindA split: option.splits)
  then have "stays (thenA (onPgm (StopIfStarted h True))
     (thenA (setParameters h db)
     (bindA (if initialized then onPgm (GetSystemdID h) else returnA '''') (\<lambda>systemID.
      bindA (liftA (deref ''nil FollowConfig'' (dbs_FollowConfig (db_Spec db)))) (\<lambda>fc.
      case fmlookup (cd_DBs cd) (fc_DBUID fc) of
        None \<Rightarrow> failA ''no db data available for followed db''
      | Some followedDB \<Rightarrow>
          let tryPgrewind = (initialized \<and> systemID = st_SystemID (db_Status followedDB))
          in thenA (resync h db followedDB tryPgrewind)
             (thenA (onPgm (Start h))
             (whenA tryPgrewind
               (bindA (checkRewound h followedDB) (\<lambda>full.
                 whenA full (thenA (onPgm (StopIfStarted h True)) (resync h db followedDB False)))))))))))"
    unfolding Let_def by (intro stays_thenA stays_bindA) simp_all
  then have "runs (L k b S) (initResync h io cd db initialized) (\<lambda>_. L k b {?n}) (L k b E)"
    unfolding initResync_def using E by (rule_tac runs_thenA [OF L_save [OF assms(2)]], rule_tac L_stays)
  then show ?thesis by (rule runs_weaken) (auto intro: L_mono [OF n])
qed

lemma L_initExisting:
  assumes "dbs_InitMode (db_Spec db) = DBInitModeExisting" "S \<subseteq> E" "started_init db \<subseteq> E"
  shows "runs (L k b S) (initExisting h io db) (\<lambda>_. L k b (started_init db)) (L k b E)"
proof -
  have E: "{newDBLocalState (db_UID db) False} \<subseteq> E" using assms(1,3) init_starts(2) [of db False] by auto
  show ?thesis
    unfolding initExisting_def
    by (rule runs_thenA [OF L_save [OF assms(2)]], (rule L_stays_then [OF _ E], simp)+, rule L_init_end)
      (use assms in auto)
qed

lemma L_initDB:
  assumes "S \<subseteq> E" "started_init db \<subseteq> E"
  shows "runs (L k b S) (initDB h io cd db) (\<lambda>_. L k b (started_init db)) (L k b E)"
  unfolding initDB_def
  by (rule L_stays_bind [OF _ assms(1)], simp, rule L_stays_then [OF _ assms(1)], simp,
      cases "dbs_InitMode (db_Spec db)")
    (simp_all add: L_fail assms L_initNew L_initPITR L_initResync L_initExisting)


lemma L_cleanup:
  assumes "S \<subseteq> E"
  shows "runs (L k b S) (cleanupFailed h io) (\<lambda>_. L k b {reset_state}) (L k b E)"
  unfolding cleanupFailed_def reset_state_def
  by ((rule L_stays_then [OF _ assms], simp)+, rule L_save [OF assms])

lemma started_init_states:
  "s \<in> started_init db \<Longrightarrow> ls_UID s = db_UID db \<and> ls_Generation s = NoGeneration \<and>
     (ls_Initializing s \<longleftrightarrow> dbs_InitMode (db_Spec db) \<noteq> DBInitModeExisting)"
  by (auto simp: started_init_def newDBLocalState_def)

lemma started_init_uid: "s \<in> started_init db \<Longrightarrow> ls_UID s = db_UID db \<and> ls_Generation s = NoGeneration"
  by (auto simp: started_init_def newDBLocalState_def)

text \<open>The local states after the clean-up: not initializing any more.\<close>

definition after_cleanup :: "DBLocalState \<Rightarrow> DBLocalState set" where
  "after_cleanup s0 = (if ls_Initializing s0 then {reset_state} else {s0})"

lemma L_maybe_cleanup:
  assumes "{s0} \<subseteq> E"
  shows "runs (L k b {s0}) (\<lambda>p. whenA (ls_Initializing (pk_dbLocalState p)) (cleanupFailed h io) p)
    (\<lambda>_. L k b (after_cleanup s0)) (L k b E)"
proof (cases "ls_Initializing s0")
  case True
  then show ?thesis using L_cleanup [OF assms, of k b h io] by (auto simp: runs_def L_def after_cleanup_def whenA_def)
next
  case False
  then show ?thesis by (auto simp: runs_def L_def after_cleanup_def whenA_def returnA_def)
qed

lemma L_maybe_init:
  assumes "after_cleanup s0 \<subseteq> E" "started_init db \<subseteq> E"
  shows "runs (L k b (after_cleanup s0)) (\<lambda>p. whenA (ls_UID (pk_dbLocalState p) \<noteq> db_UID db) (initDB h io cd db) p)
    (\<lambda>_. L k b {s \<in> after_cleanup s0 \<union> started_init db. ls_UID s = db_UID db}) (L k b E)"
proof (unfold runs_def, intro allI impI)
  fix p :: "'a PostgresKeeper"
  assume p: "L k b (after_cleanup s0) p"
  show "case whenA (ls_UID (pk_dbLocalState p) \<noteq> db_UID db) (initDB h io cd db) p of
      (s', Inl e) \<Rightarrow> L k b E s'
    | (s', Inr x) \<Rightarrow> L k b {s \<in> after_cleanup s0 \<union> started_init db. ls_UID s = db_UID db} s'"
  proof (cases "ls_UID (pk_dbLocalState p) = db_UID db")
    case True
    with p show ?thesis by (simp add: whenA_def returnA_def L_def)
  next
    case False
    obtain p' r where i: "initDB h io cd db p = (p', r)" by fastforce
    have "case r of Inr x \<Rightarrow> L k b (started_init db) p' | Inl e \<Rightarrow> L k b E p'"
      using L_initDB [OF assms, of k b h io cd] p i by (rule runsD)
    with False i show ?thesis by (cases r) (auto simp: whenA_def L_def dest: started_init_uid)
  qed
qed

definition converged_state :: "DB \<Rightarrow> DBLocalState set" where
  "converged_state db = {s. ls_UID s = db_UID db \<and> ls_Generation s = db_Generation db \<and> \<not> ls_Initializing s}"

lemma L_saveGeneration:
  assumes "\<forall>s\<in>S. ls_UID s = db_UID db" "S \<subseteq> E"
  shows "runs (L k b S) (saveGeneration io db) (\<lambda>_. L k b (converged_state db)) (L k b E)"
proof (unfold runs_def, intro allI impI)
  fix p :: "'a PostgresKeeper"
  assume p: "L k b S p"
  obtain p' r where s: "saveGeneration io db p = (p', r)" by fastforce
  then have "saveDBLocalState io ((pk_dbLocalState p)\<lparr>ls_Generation := db_Generation db, ls_Initializing := False\<rparr>) p = (p', r)"
    by (simp add: saveGeneration_def)
  then have "case r of Inr x \<Rightarrow> L k b {(pk_dbLocalState p)\<lparr>ls_Generation := db_Generation db, ls_Initializing := False\<rparr>} p' | Inl e \<Rightarrow> L k b E p'"
    by (rule runsD [OF L_save [OF assms(2)] p])
  then show "case saveGeneration io db p of (s', Inl e) \<Rightarrow> L k b E s' | (s', Inr x) \<Rightarrow> L k b (converged_state db) s'"
    using s p assms(1) by (cases r) (auto simp: L_def converged_state_def)
qed

lemma L_convergeDB:
  "runs (L k b {s0}) (convergeDB h io cd db) (\<lambda>_. L k b (converged_state db))
     (L k b ({s0, reset_state} \<union> started_init db))"
proof -
  let ?E = "{s0, reset_state} \<union> started_init db"
  let ?A = "{s \<in> after_cleanup s0 \<union> started_init db. ls_UID s = db_UID db}"
  have E: "{s0} \<subseteq> ?E" "after_cleanup s0 \<subseteq> ?E" "started_init db \<subseteq> ?E" "?A \<subseteq> ?E" by (auto simp: after_cleanup_def)
  have role: "stays (case dbs_Role (db_Spec db) of
      RoleMaster \<Rightarrow> masterRoleSM h db r | RoleStandby \<Rightarrow> standbyRoleSM h cd db r
    | RoleUndefined \<Rightarrow> failA e | RoleOther _ \<Rightarrow> returnA ())" for r e
    by (simp split: Role.splits)
  have save: "runs (L k b ?A) (saveGeneration io db) (\<lambda>_. L k b (converged_state db)) (L k b ?E)"
    by (rule L_saveGeneration) (use E in auto)
  show ?thesis
    unfolding convergeDB_def convergeRole_eq
    by (rule L_stays_bind [OF _ E(1)], simp, rule L_stays_then [OF _ E(1)], simp,
        rule runs_thenA [OF L_maybe_cleanup [OF E(1)]], rule runs_thenA [OF L_maybe_init [OF E(2,3)]],
        rule L_stays_bind [OF _ E(4)], simp, rule L_stays_then [OF _ E(4)], simp,
        rule L_stays_bind [OF _ E(4)], simp, rule L_stays_then [OF role E(4)],
        rule L_stays_then [OF _ E(4)], simp, rule save)
qed


text \<open>What the state machine never changes: the identity of the keeper and its last report.\<close>

definition keeper_id :: "'w PostgresKeeper \<Rightarrow> string \<times> string \<times> PostgresState option" where
  "keeper_id p = (kls_UID (pk_keeperLocalState p), pk_bootUUID p, pk_lastPGState p)"

lemma adoptCluster_keeps:
  assumes "adoptCluster io c spec p = (p', r)"
  shows "pk_dbLocalState p' = pk_dbLocalState p \<and> keeper_id p' = keeper_id p"
  using assms
  by (auto simp: keeper_id_def adoptCluster_def act_defs saveKeeperLocalState_def onDisk_def onPgm_def split: if_splits prod.splits)

text \<open>The database that a keeper works on.\<close>

definition assigned :: "'w Host \<Rightarrow> 'w PostgresKeeper \<Rightarrow> ClusterData \<Rightarrow> DB \<Rightarrow> bool" where
  "assigned h p cd db \<longleftrightarrow> (\<exists>k. fmlookup (cd_Keepers cd) (kls_UID (pk_keeperLocalState p)) = Some k \<and>
     FindDB (os_order h) cd k = Some db \<and> ks_BootUUID (k_Status k) = pk_bootUUID p)"

lemma SM_cases:
  assumes "postgresKeeperSM h io cdr p = (p', r)"
  shows "r \<noteq> Inr () \<and> pk_dbLocalState p' = pk_dbLocalState p \<and> keeper_id p' = keeper_id p \<or>
    (\<exists>cd db p1. cdr = Inr (Some cd) \<and> assigned h p cd db \<and> pk_dbLocalState p1 = pk_dbLocalState p \<and> keeper_id p1 = keeper_id p \<and>
       convergeDB h io cd db p1 = (p', r))"
proof -
  have stop: "pk_dbLocalState p2 = pk_dbLocalState p1 \<and> keeper_id p2 = keeper_id p1 \<and> r2 \<noteq> Inr ()"
    if "thenA (onPgm (StopIfStarted h True)) (failA e) p1 = (p2, r2 :: unit res)" for e p1 p2 r2
    using that by (auto simp: keeper_id_def act_defs onPgm_def split: prod.splits sum.splits)
  show ?thesis
  proof (cases "\<exists>cd c spec p1. cdr = Inr (Some cd) \<and> cluster_of cd = Inr c \<and> c_Spec c = Some spec \<and>
      cd_FormatVersion cd = CurrentCDFormatVersion \<and> Validate spec = None \<and> adoptCluster io c (WithDefaults spec) p = (p1, Inr ())")
    case False
    with assms show ?thesis
      unfolding postgresKeeperSM_def
      by (auto simp: act_defs liftA_def deref_def split: sum.splits option.splits prod.splits if_splits dest: adoptCluster_keeps)
  next
    case True
    then obtain cd c spec p1 where cd: "cdr = Inr (Some cd)" "cluster_of cd = Inr c" "c_Spec c = Some spec"
      "cd_FormatVersion cd = CurrentCDFormatVersion" "Validate spec = None" and ad: "adoptCluster io c (WithDefaults spec) p = (p1, Inr ())"
      by blast
    note keep = adoptCluster_keeps [OF ad]
    then have ids: "kls_UID (pk_keeperLocalState p1) = kls_UID (pk_keeperLocalState p)" "pk_bootUUID p1 = pk_bootUUID p"
      by (simp_all add: keeper_id_def)
    have "(case fmlookup (cd_Keepers cd) (kls_UID (pk_keeperLocalState p1)) of
                  None \<Rightarrow> failA ''our keeper data is not available, waiting for it to appear'' p1
                | Some k \<Rightarrow>
                    (case FindDB (os_order h) cd k of
                       None \<Rightarrow> thenA (onPgm (StopIfStarted h True)) (failA ''no db assigned'') p1
                     | Some db \<Rightarrow>
                         if pk_bootUUID p1 \<noteq> ks_BootUUID (k_Status k)
                         then thenA (onPgm (StopIfStarted h True)) (failA ''our db boot UID is different than the cluster data one'') p1
                         else convergeDB h io cd db p1)) = (p', r)"
      using assms cd ad unfolding postgresKeeperSM_def by (simp add: act_defs liftA_def deref_def)
    with keep ids stop cd(1) show ?thesis
      unfolding assigned_def by (fastforce simp: failA_def split: option.splits if_splits)
  qed
qed


section \<open>What the state machine guarantees\<close>

lemma SM_local_state:
  assumes "postgresKeeperSM h io cdr p = (p', r)"
  shows "r = Inr () \<longrightarrow> (\<exists>cd db. cdr = Inr (Some cd) \<and> assigned h p cd db \<and>
      ls_UID (pk_dbLocalState p') = db_UID db \<and> ls_Generation (pk_dbLocalState p') = db_Generation db \<and>
      \<not> ls_Initializing (pk_dbLocalState p'))" (is ?ended)
    and "r \<noteq> Inr () \<longrightarrow> pk_dbLocalState p' = pk_dbLocalState p \<or>
      pk_dbLocalState p' = newDBLocalState '''' False \<or>
      (\<exists>cd db. cdr = Inr (Some cd) \<and> assigned h p cd db \<and> ls_UID (pk_dbLocalState p') = db_UID db \<and>
        ls_Generation (pk_dbLocalState p') = NoGeneration \<and>
        (ls_Initializing (pk_dbLocalState p') \<longleftrightarrow> dbs_InitMode (db_Spec db) \<noteq> DBInitModeExisting))" (is ?stopped)
    and "keeper_id p' = keeper_id p" (is ?id)
proof -
  have "?ended \<and> ?stopped \<and> ?id"
    using SM_cases [OF assms]
  proof (elim disjE exE conjE)
    fix cd db p1
    assume cd: "cdr = Inr (Some cd)" "assigned h p cd db" "pk_dbLocalState p1 = pk_dbLocalState p" "convergeDB h io cd db p1 = (p', r)"
      "keeper_id p1 = keeper_id p"
    have "L (pk_keeperLocalState p1) (pk_bootUUID p1, pk_lastPGState p1) {pk_dbLocalState p} p1" using cd(3) by (simp add: L_def)
    note run = runsD [OF L_convergeDB this cd(4)]
    show ?thesis
    proof (cases r)
      case (Inr x)
      with run have "pk_dbLocalState p' \<in> converged_state db" "keeper_id p' = keeper_id p1" by (simp_all add: L_def keeper_id_def)
      with Inr cd show ?thesis by (auto simp: converged_state_def)
    next
      case (Inl e)
      with run have "pk_dbLocalState p' = pk_dbLocalState p \<or> pk_dbLocalState p' = reset_state \<or> pk_dbLocalState p' \<in> started_init db"
        "keeper_id p' = keeper_id p1"
        by (auto simp: L_def keeper_id_def)
      with Inl cd started_init_states [of "pk_dbLocalState p'" db] show ?thesis by (auto simp: reset_state_def)
    qed
  qed auto
  then show ?ended ?stopped ?id by simp_all
qed

text \<open>
  C23. The generation. A run that reaches its end has saved the generation of the database assigned to this boot of the keeper;
  a run that stops early has left the local state alone, has removed a failed database, or has left the mark of an
  initialization that has begun, which has no generation and (except for an existing instance) makes the next run start over.
\<close>

theorem keeper_generation_sound:
  assumes "postgresKeeperSM h io cdr p = (p', r)"
  shows "(r = Inr () \<longrightarrow> (\<exists>cd db. cdr = Inr (Some cd) \<and> assigned h p cd db \<and>
      ls_UID (pk_dbLocalState p') = db_UID db \<and> ls_Generation (pk_dbLocalState p') = db_Generation db \<and>
      \<not> ls_Initializing (pk_dbLocalState p'))) \<and>
    (r \<noteq> Inr () \<longrightarrow> pk_dbLocalState p' = pk_dbLocalState p \<or>
      pk_dbLocalState p' = newDBLocalState '''' False \<or>
      (\<exists>cd db. cdr = Inr (Some cd) \<and> assigned h p cd db \<and> ls_UID (pk_dbLocalState p') = db_UID db \<and>
        ls_Generation (pk_dbLocalState p') = NoGeneration \<and>
        (ls_Initializing (pk_dbLocalState p') \<longleftrightarrow> dbs_InitMode (db_Spec db) \<noteq> DBInitModeExisting)))"
  using SM_local_state(1,2) [OF assms] by (rule conjI)

text \<open>The end of a successful run.\<close>

lemma onPgm_Inr: "onPgm a p = (p', Inr x) \<longleftrightarrow> (\<exists>m. a (pk_pgm p) = (m, Inr x) \<and> p' = p\<lparr>pk_pgm := m\<rparr>)"
  by (auto simp: onPgm_def split: prod.splits)

lemma convergeDB_end:
  assumes "convergeDB h io cd db p = (p', Inr ())"
  shows "\<exists>p1 p2 p3 role.
    (snd (GetRole h (pk_pgm p1)) = Inr role \<or> role = RoleUndefined) \<and>
    (case dbs_Role (db_Spec db) of
       RoleMaster \<Rightarrow> masterRoleSM h db role p1 | RoleStandby \<Rightarrow> standbyRoleSM h cd db role p1
     | RoleUndefined \<Rightarrow> failA ''our db requested role is none'' p1 | RoleOther _ \<Rightarrow> returnA () p1) = (p2, Inr ()) \<and>
    updateConfiguration h cd db p2 = (p3, Inr ()) \<and> saveGeneration io db p3 = (p', Inr ())"
proof -
  from assms obtain p0 p1 p2 p3 initialized role where
    role: "(if initialized then onPgm (GetRole h) else returnA RoleUndefined) p0 = (p1, Inr role)" and
    sm: "(case dbs_Role (db_Spec db) of
       RoleMaster \<Rightarrow> masterRoleSM h db role | RoleStandby \<Rightarrow> standbyRoleSM h cd db role
     | RoleUndefined \<Rightarrow> failA ''our db requested role is none'' | RoleOther _ \<Rightarrow> returnA ()) p1 = (p2, Inr ())" and
    fin: "updateConfiguration h cd db p2 = (p3, Inr ())" "saveGeneration io db p3 = (p', Inr ())"
    unfolding convergeDB_def convergeRole_eq bindA_Inr thenA_Inr by auto
  have "snd (GetRole h (pk_pgm p1)) = Inr role \<or> role = RoleUndefined"
    using role by (auto simp: onPgm_Inr returnA_def GetRole_def split: if_splits)
  moreover have "(case dbs_Role (db_Spec db) of
       RoleMaster \<Rightarrow> masterRoleSM h db role p1 | RoleStandby \<Rightarrow> standbyRoleSM h cd db role p1
     | RoleUndefined \<Rightarrow> failA ''our db requested role is none'' p1 | RoleOther _ \<Rightarrow> returnA () p1) = (p2, Inr ())"
    using sm by (auto split: Role.splits)
  ultimately show ?thesis using fin by blast
qed

definition promoted :: "'w Host \<Rightarrow> DB \<Rightarrow> 'w PostgresKeeper \<Rightarrow> bool" where
  "promoted h db p \<longleftrightarrow> (\<exists>q q'. mg_recoveryParameters (pk_pgm q) = None \<and> onPgm (Promote h) q = (q', Inr ()) \<and>
     refreshReplicationSlots h db q' = (p, Inr ()))"

lemma masterRoleSM_Inr:
  assumes "masterRoleSM h db role p = (p', Inr ())"
  shows "role \<noteq> RoleUndefined \<and> (role = RoleStandby \<longrightarrow> promoted h db p')"
proof -
  have role: "role \<noteq> RoleUndefined" using assms by (auto simp: masterRoleSM_def failA_def)
  obtain s1 s2 where s: "whenA (role = RoleStandby) (thenA (setRecoveryParameters None) (onPgm (Promote h))) s1 = (s2, Inr ())"
    "refreshReplicationSlots h db s2 = (p', Inr ())"
    using assms role unfolding masterRoleSM_def by (auto simp: bindA_Inr thenA_Inr)
  have "promoted h db p'" if st: "role = RoleStandby"
  proof -
    obtain s3 where "setRecoveryParameters None s1 = (s3, Inr ())" "onPgm (Promote h) s3 = (s2, Inr ())"
      using s(1) st by (auto simp: whenA_def thenA_Inr)
    moreover from this(1) have "mg_recoveryParameters (pk_pgm s3) = None"
      by (auto simp: setRecoveryParameters_def modA_def SetRecoveryParameters_def)
    ultimately show ?thesis using s(2) unfolding promoted_def by blast
  qed
  with role show ?thesis by simp
qed

text \<open>
  C24. The role. A run reaches its end only with the role that is asked for: for a master the instance was found with a role and,
  if it was a standby, has been promoted; for a standby it was found a standby (a master never becomes one); then the
  configuration was brought up to date, and only then the generation was saved.
\<close>

theorem keeper_role_attained:
  assumes "convergeDB h io cd db p = (p', Inr ())"
  shows "\<exists>p1 p2 p3 role. dbs_Role (db_Spec db) \<noteq> RoleUndefined \<and>
    (dbs_Role (db_Spec db) = RoleMaster \<longrightarrow> snd (GetRole h (pk_pgm p1)) = Inr role \<and> masterRoleSM h db role p1 = (p2, Inr ()) \<and>
      (role = RoleStandby \<longrightarrow> promoted h db p2)) \<and>
    (dbs_Role (db_Spec db) = RoleStandby \<longrightarrow> snd (GetRole h (pk_pgm p1)) = Inr RoleStandby \<and> standbyRoleSM h cd db RoleStandby p1 = (p2, Inr ())) \<and>
    updateConfiguration h cd db p2 = (p3, Inr ()) \<and> saveGeneration io db p3 = (p', Inr ())"
proof -
  obtain p1 p2 p3 role where
    role: "snd (GetRole h (pk_pgm p1)) = Inr role \<or> role = RoleUndefined" and
    sm: "(case dbs_Role (db_Spec db) of
       RoleMaster \<Rightarrow> masterRoleSM h db role p1 | RoleStandby \<Rightarrow> standbyRoleSM h cd db role p1
     | RoleUndefined \<Rightarrow> failA ''our db requested role is none'' p1 | RoleOther _ \<Rightarrow> returnA () p1) = (p2, Inr ())" and
    fin: "updateConfiguration h cd db p2 = (p3, Inr ())" "saveGeneration io db p3 = (p', Inr ())"
    using convergeDB_end [OF assms] by blast
  have st: "role = RoleStandby" if "standbyRoleSM h cd db role p1 = (p2, Inr ())" "snd (GetRole h (pk_pgm p1)) = Inr role \<or> role = RoleUndefined"
    using that by (cases role) (auto simp: standbyRoleSM_def bindA_Inr failA_def GetRole_def split: sum.splits if_splits)
  show ?thesis
  proof (intro exI conjI)
    show "dbs_Role (db_Spec db) \<noteq> RoleUndefined" using sm by (auto simp: failA_def)
    show "dbs_Role (db_Spec db) = RoleMaster \<longrightarrow> snd (GetRole h (pk_pgm p1)) = Inr role \<and> masterRoleSM h db role p1 = (p2, Inr ()) \<and>
      (role = RoleStandby \<longrightarrow> promoted h db p2)"
      using sm role masterRoleSM_Inr [of h db role p1 p2] by auto
    show "dbs_Role (db_Spec db) = RoleStandby \<longrightarrow> snd (GetRole h (pk_pgm p1)) = Inr RoleStandby \<and> standbyRoleSM h cd db RoleStandby p1 = (p2, Inr ())"
      using sm role st by auto
  qed (use fin in simp_all)
qed


text \<open>
  C25. A failed initialization. While the local state carries the mark of an initialization that did not finish, a run changes
  the local state only after stopping the instance and removing its data directory, both successfully.
\<close>

theorem keeper_failed_init_removed:
  assumes "convergeDB h io cd db p = (p', r)" "ls_Initializing (pk_dbLocalState p)" "pk_dbLocalState p' \<noteq> pk_dbLocalState p"
  shows "\<exists>hba m1 m2. StopIfStarted h True (SetHba (Some hba) (pk_pgm p)) = (m1, Inr ()) \<and> RemoveAll h m1 = (m2, Inr ())"
proof (cases "generateHBA (os_order h) p cd db")
  case (Inl e)
  with assms(1,3) show ?thesis by (simp add: convergeDB_def convergeRole_eq bindA_def)
next
  case (Inr hba)
  let ?m = "SetHba (Some hba) (pk_pgm p)"
  obtain m1 r1 where s: "StopIfStarted h True ?m = (m1, r1)" by fastforce
  obtain m2 r2 where a: "RemoveAll h m1 = (m2, r2)" by fastforce
  show ?thesis
  proof (cases "r1 = Inr () \<and> r2 = Inr ()")
    case True
    with s a show ?thesis by blast
  next
    case False
    then consider e where "r1 = Inl e" | e where "r1 = Inr ()" "r2 = Inl e" by (cases r1; cases r2) auto
    then have "pk_dbLocalState p' = pk_dbLocalState p"
      using assms(1,2) Inr s a
      by cases (auto simp: convergeDB_def convergeRole_eq bindA_def thenA_def setHba_def modA_def whenA_def cleanupFailed_def onPgm_def)
    with assms(3) show ?thesis by simp
  qed
qed

section \<open>Replication slots of an instance\<close>









section \<open>What the keeper reports\<close>

text \<open>The fields that a report always has.\<close>

definition report_ok :: "'w PostgresKeeper \<Rightarrow> PostgresState \<Rightarrow> bool" where
  "report_ok p s \<longleftrightarrow> pst_UID s = ls_UID (pk_dbLocalState p) \<and> pst_Generation s = ls_Generation (pk_dbLocalState p) \<and>
     pst_ListenAddress s = pk_pgListenAddress p \<and> pst_Port s = pk_pgPort p \<and>
     (\<forall>k\<in>set managedPGParameters. fmlookup (params (pst_PGParameters s)) k = None) \<and>
     (pst_Healthy s \<longrightarrow> pst_PGParameters s \<noteq> None \<and> pst_SynchronousStandbys s \<noteq> None)"

lemma pgStateWal_ok:
  assumes "report_ok p s" "pst_PGParameters s \<noteq> None" "pst_SynchronousStandbys s \<noteq> None" "pgStateWal h s q = (q', Inr s')"
  shows "report_ok p s'"
proof -
  obtain r :: "string res" where "s' = (case r of Inl _ \<Rightarrow> s | Inr ow \<Rightarrow> s\<lparr>pst_OlderWalFile := ow\<rparr>)\<lparr>pst_Healthy := True\<rparr>"
    using assms(4) by (auto simp: pgStateWal_def tryA_Inr returnA_def)
  then show ?thesis using assms(1-3) by (cases r) (auto simp: report_ok_def)
qed

lemma pgStateHistory_ok:
  assumes "report_ok p s" "\<not> pst_Healthy s" "pst_PGParameters s \<noteq> None" "pst_SynchronousStandbys s \<noteq> None" "pgStateHistory h s q = (q', Inr s')"
  shows "report_ok p s'"
proof (cases "pst_TimelineID s > 1")
  case True
  have upd: "report_ok p (s\<lparr>pst_TimelinesHistory := t\<rparr>)" for t using assms(1) by (simp add: report_ok_def)
  show ?thesis
    using assms True pgStateWal_ok [OF upd]
    by (auto simp: pgStateHistory_def tryA_case_Inr returnA_def)
next
  case False
  then show ?thesis using assms pgStateWal_ok [OF assms(1)] by (simp add: pgStateHistory_def)
qed

lemma pgStateSystem_ok:
  assumes "report_ok p s" "\<not> pst_Healthy s" "pst_PGParameters s \<noteq> None" "pst_SynchronousStandbys s \<noteq> None" "pgStateSystem h s q = (q', Inr s')"
  shows "report_ok p s'"
proof -
  have upd: "report_ok p (s\<lparr>pst_SystemID := a, pst_TimelineID := t, pst_XLogPos := x\<rparr>)" for a t x
    using assms(1) by (simp add: report_ok_def)
  show ?thesis
    using assms pgStateHistory_ok [OF upd]
    by (auto simp: pgStateSystem_def tryA_case_Inr returnA_def)
qed

lemma basePGState_ok: "report_ok p (basePGState p)"
  by (simp add: report_ok_def basePGState_def params_def)

lemma GetPGState_report:
  assumes "GetPGState h p = (p', Inr s)"
  shows "report_ok p s \<and> pk_dbLocalState p' = pk_dbLocalState p"
proof
  show "pk_dbLocalState p' = pk_dbLocalState p"
    using stays_GetPGState [of h] assms unfolding stays_def local_of_def by (metis fst_conv)
  obtain p1 initialized where i: "onPgm (IsInitialized h) p = (p1, Inr initialized)"
    and rest: "(if \<not> initialized then returnA (basePGState p)
       else tryA (onPgm (GetConfigFilePGParameters h)) (\<lambda>r. case r of
         Inl _ \<Rightarrow> returnA (basePGState p)
       | Inr pgParameters \<Rightarrow>
           let pgState = (basePGState p)\<lparr>pst_PGParameters := Some (fmfilter (\<lambda>k. \<not> StringInSlice managedPGParameters k) pgParameters)\<rparr>
           in tryA (GetInSyncStandbys h) (\<lambda>r. case r of
                Inl _ \<Rightarrow> returnA pgState
              | Inr inSyncStandbys \<Rightarrow> pgStateSystem h (pgState\<lparr>pst_SynchronousStandbys := Some inSyncStandbys\<rparr>)))) p1 = (p', Inr s)"
    using assms unfolding GetPGState_def bindA_Inr by blast
  let ?s = "\<lambda>ps. (basePGState p)\<lparr>pst_PGParameters := Some (fmfilter (\<lambda>k. \<not> StringInSlice managedPGParameters k) ps)\<rparr>"
  have st: "report_ok p (?s ps)" "report_ok p (?s ps\<lparr>pst_SynchronousStandbys := Some ss\<rparr>)" for ps ss
    by (simp_all add: report_ok_def basePGState_def params_def)
  have fin: "report_ok p s" if "pgStateSystem h (?s ps\<lparr>pst_SynchronousStandbys := Some ss\<rparr>) q = (p', Inr s)" for ps ss q
    using that by (intro pgStateSystem_ok [OF st(2)]) (simp_all add: basePGState_def)
  show "report_ok p s"
    using rest basePGState_ok [of p] st(1) fin
    by (auto simp: returnA_def tryA_case_Inr Let_def split: if_split_asm)
qed

text \<open>
  The report. Whatever fails while it is collected, the state that a keeper reports carries the identity and the generation of
  its local state and its own address, never a parameter that stolon manages, and is healthy only if the parameters and the
  synchronous standbys of the instance could be read.
\<close>

theorem keeper_report_sound:
  assumes "GetPGState h p = (p', Inr s)"
  shows "report_ok p s \<and> pk_dbLocalState p' = pk_dbLocalState p"
  by (rule GetPGState_report [OF assms])

section \<open>Examples\<close>

text \<open>A machine with an initialized standby instance (running or not) and its slots.\<close>

definition slotName :: "string \<Rightarrow> string \<Rightarrow> string" where
  "slotName prefix q = butlast (butlast (drop (length prefix) q))"

definition createPrefix :: string where "createPrefix = ''select pg_create_physical_replication_slot('' @ [CHR 39]"
definition dropPrefix :: string where "dropPrefix = ''select pg_drop_replication_slot('' @ [CHR 39]"

definition slotHost :: "(bool \<times> string list) Host" where
  "slotHost = \<lparr>
     os_Run = (\<lambda>args (up, sl). case args of
        _ # cmd # _ \<Rightarrow> if cmd = ''stop'' then ((False, sl), Inr ()) else ((up, sl), Inr ())
      | _ \<Rightarrow> ((up, sl), Inl (Error ''no command''))),
     os_Output = (\<lambda>_ _. Inl (Error ''no output'')),
     os_Status = (\<lambda>_ (up, sl). if up then Exited 0 else Exited 3),
     os_Spawn = (\<lambda>_ (up, sl). ((True, sl), Inr 10)),
     os_Exited = (\<lambda>_ (up, sl). \<not> up),
     os_Exists = (\<lambda>_ _. Inr True),
     os_Size = (\<lambda>_ _. Inr 0),
     os_WriteFile = (\<lambda>_ _ w. (w, Inr ())),
     os_Remove = (\<lambda>_ w. (w, Inr ())),
     os_RemoveAll = (\<lambda>_ w. (w, Inr ())),
     os_MkdirAll = (\<lambda>_ w. (w, Inr ())),
     os_Symlink = (\<lambda>_ _ w. (w, Inr ())),
     os_TempFile = (\<lambda>name _ w. (w, Inr name)),
     os_ReadDir = (\<lambda>_ _. Inr []),
     os_FirstLine = (\<lambda>_ _. Inr ''10''),
     os_ReadFile = (\<lambda>_ _. Inr ''''),
     os_Now = (\<lambda>_. 0),
     os_Sleep = (\<lambda>_ w. w),
     os_order = (\<lambda>xs. xs),
     sql_Exec = (\<lambda>_ q (up, sl).
        if has_prefix q createPrefix then ((up, slotName createPrefix q # sl), Inr ())
        else if has_prefix q dropPrefix then ((up, filter (\<lambda>s. s \<noteq> slotName dropPrefix q) sl), Inr ())
        else ((up, sl), Inr ())),
     sql_Query = (\<lambda>_ q (up, sl). Inr (if has_prefix q ''select slot_name'' then map (\<lambda>s. [s]) sl else []))\<rparr>"

definition slotIO :: "(bool \<times> string list) KeeperIO" where
  "slotIO = \<lparr>io_saveDB = (\<lambda>_ w. (w, Inr ())), io_loadDB = (\<lambda>_. Inr None), io_saveKeeper = (\<lambda>_ w. (w, Inr ())),
     io_loadKeeper = (\<lambda>_. Inr None), io_putInfo = (\<lambda>_ _ _ w. (w, Inr ())), io_UID = ''uid''\<rparr>"

definition slot_pk :: "(bool \<times> string list) PostgresKeeper" where
  "slot_pk = keeperOn (managerOn (True, [''other'', ''stolon_db9'']))"


lemma slotHost_calls [simp]:
  "os_Exists slotHost f w = Inr True" "os_FirstLine slotHost f w = Inr ''10''" "os_WriteFile slotHost f c w = (w, Inr ())"
  "os_RemoveAll slotHost f w = (w, Inr ())" "os_Run slotHost (b # ''promote'' # args) w = (w, Inr ())"
  "os_Run slotHost (b # ''reload'' # args) w = (w, Inr ())"
  "os_Run slotHost (b # ''stop'' # args) (up, sl) = ((False, sl), Inr ())"
  "running slotHost m = Inr (fst (mg_machine m))"
  by (simp_all add: slotHost_def running_def IsStarted_def del: IsStarted_run split: prod.splits)

lemma version_10: "ParseVersion ''10'' = Inr (10, 0)"
  by (simp add: ParseVersion_def Split_def Atoi_def ParseUint_def digit_val_def)

lemma allExist_slotHost: "allExist slotHost fs m = (m, Inr True)"
  by (induction fs) (simp_all add: act_defs askHost_def)

lemma slotHost_ask [simp]:
  "IsInitialized slotHost m = (m, Inr True)" "GetRole slotHost m = (m, Inr RoleStandby)"
  by (simp_all add: IsInitialized_def PGDataVersion_def version_10 act_defs askHost_def allExist_slotHost GetRole_def)

lemma onHost_still: "f (mg_machine m) = (mg_machine m, r) \<Longrightarrow> onHost f m = (m, r)"
  by (simp add: onHost_def)

lemma slotHost_promote [simp]: "Promote slotHost m = (m, Inr ())"
  unfolding Promote_def by (rule onHost_still) simp

lemma slotHost_conf: "writeConfs slotHost m = (m, Inr ())"
  by (simp add: writeConfs_def writeConf_def writePgHba_def writeRecoveryConf_def act_defs onHost_still)

lemma slotHost_reload [simp]: "Reload slotHost m = (UpdateCur m, Inr ())"
  by (simp add: Reload_def thenA_def bindA_def slotHost_conf onHost_still modA_def)

lemma mapE_single: "mapE (\<lambda>row. case row of [x] \<Rightarrow> Inr x | _ \<Rightarrow> Inl e) (map (\<lambda>s. [s]) xs) = Inr xs"
  by (induction xs) auto

lemma slotHost_slots [simp]: "GetReplicationSlots slotHost m = (m, Inr (snd (mg_machine m)))"
proof -
  have "sql_Query slotHost c ''select slot_name from pg_replication_slots where temporary is false'' w = Inr (map (\<lambda>s. [s]) (snd w))" for c w
    by (simp add: slotHost_def split: prod.splits)
  then show ?thesis
    by (simp add: GetReplicationSlots_def getReplicationSlots_def PGDataVersion_def version_10 act_defs queryLocal_def mapE_single)
qed

lemma slotName_quoted: "slotName pre (pre @ name @ [c, d]) = name"
  by (simp add: slotName_def butlast_append)

lemma slotHost_create [simp]:
  "CreateReplicationSlot slotHost name m = (m\<lparr>mg_machine := (fst (mg_machine m), name # snd (mg_machine m))\<rparr>, Inr ())"
proof -
  have q: "''select pg_create_physical_replication_slot('' @ quoted name @ '')'' = createPrefix @ name @ [CHR 39, CHR 0x29]"
    by (simp add: quoted_def createPrefix_def)
  show ?thesis
    unfolding CreateReplicationSlot_def createReplicationSlot_def q
    by (simp add: execLocal_def onHost_def slotHost_def has_prefix_iff slotName_quoted split: prod.splits)
qed

lemma slotHost_drop [simp]:
  "DropReplicationSlot slotHost name m = (m\<lparr>mg_machine := (fst (mg_machine m), filter (\<lambda>s. s \<noteq> name) (snd (mg_machine m)))\<rparr>, Inr ())"
proof -
  have q: "''select pg_drop_replication_slot('' @ quoted name @ '')'' = dropPrefix @ name @ [CHR 39, CHR 0x29]"
    by (simp add: quoted_def dropPrefix_def)
  have "\<not> has_prefix (dropPrefix @ s) createPrefix" for s
    by (simp add: dropPrefix_def createPrefix_def)
  then show ?thesis
    unfolding DropReplicationSlot_def dropReplicationSlot_def q
    by (simp add: execLocal_def onHost_def slotHost_def has_prefix_iff [of _ dropPrefix] slotName_quoted split: prod.splits)
qed







text \<open>On this machine a keeper of the example's master database converges: the standby is promoted.\<close>

definition up :: "(bool \<times> string list) PostgresKeeper \<Rightarrow> bool" where
  "up p \<longleftrightarrow> fst (mg_machine (pk_pgm p)) \<and> ls_UID (pk_dbLocalState p) = ''db1'' \<and> \<not> ls_Initializing (pk_dbLocalState p)"

definition works :: "(bool \<times> string list, 'a) kact \<Rightarrow> bool" where
  "works a \<longleftrightarrow> runs up a (\<lambda>_. up) (\<lambda>_. False)"

lemma works_bindA: "works a \<Longrightarrow> (\<And>x. works (f x)) \<Longrightarrow> works (bindA a f)"
  unfolding works_def by (rule runs_bindA)

lemma works_thenA: "works a \<Longrightarrow> works b \<Longrightarrow> works (thenA a b)"
  unfolding works_def by (rule runs_thenA)

lemma works_basic [simp]:
  "works (onPgm (Promote slotHost))" "works (setHba hba)" "works (setRecoveryParameters ps)" "works (setParameters slotHost db)"
  "works (returnA x)" "works (onPgm (Reload slotHost))" "works (onPgm (DropReplicationSlot slotHost s))"
  "works (onPgm (CreateReplicationSlot slotHost s))" "works (onPgm (IsInitialized slotHost))" "works (onPgm (GetReplicationSlots slotHost))"
  "works (onPgm (GetRole slotHost))"
  by (simp_all add: works_def runs_def up_def onPgm_def setHba_def setRecoveryParameters_def setParameters_def act_defs
      SetHba_def SetRecoveryParameters_def SetParameters_def UpdateCur_def)

lemma works_tryA: "works a \<Longrightarrow> works (tryA a (\<lambda>_. returnA ()))"
  unfolding works_def runs_def tryA_def returnA_def by (fastforce split: prod.splits sum.splits)

lemma works_whenA: "works a \<Longrightarrow> works (whenA b a)"
  by (simp add: whenA_def)

lemma works_slots: "works (dropSlots slotHost wanted xs)" "works (createSlots slotHost cur xs)"
proof -
  have "works (tryA (onPgm (DropReplicationSlot slotHost s)) (\<lambda>_. a))" if "works a" for s and a :: "(bool \<times> string list, unit) kact"
    using that by (auto simp: works_def runs_def up_def tryA_def onPgm_def)
  then show "works (dropSlots slotHost wanted xs)" by (induction xs) auto
  show "works (createSlots slotHost cur xs)" by (induction xs) (auto intro: works_thenA)
qed

lemma works_refresh: "works (refreshReplicationSlots slotHost db)"
  by (auto simp: refreshReplicationSlots_def updateReplSlots_def Let_def intro!: works_bindA works_thenA works_slots)

lemma example_defspec: "\<exists>spec. defspec_of example_cd = Inr spec \<and> def_SUReplAccessMode spec = SUReplAccessAll"
  by (simp add: defspec_of_def example_cd_def cluster_of_def example_cluster_def DefSpec_def example_spec_def
      def_SUReplAccessMode_def WithDefaults_def or_default_def val_def DefaultSUReplAccess_def)

lemma example_hba: "\<exists>hba. generateHBA ord p example_cd db = Inr hba"
  using example_defspec by (auto simp: generateHBA_def Let_def)

lemma works_liftHBA: "works (\<lambda>p. (p, generateHBA ord p example_cd db))"
proof -
  have "case generateHBA ord p example_cd db of Inl e \<Rightarrow> False | Inr x \<Rightarrow> True" for p :: "(bool \<times> string list) PostgresKeeper"
    using example_hba [of ord p db] by auto
  then show ?thesis by (auto simp: works_def runs_def split: sum.splits)
qed

lemma works_master: "works (masterRoleSM slotHost example_master RoleStandby)"
proof (unfold works_def runs_def, intro allI impI)
  fix p assume p: "up p"
  have "works (thenA (setRecoveryParameters None) (onPgm (Promote slotHost)))" by (intro works_thenA) simp_all
  then have w: "works (thenA (whenA True (thenA (setRecoveryParameters None) (onPgm (Promote slotHost)))) (refreshReplicationSlots slotHost example_master))"
    by (intro works_thenA works_whenA works_refresh) simp_all
  have "onPgm (IsStarted slotHost) p = (p, Inr True)" using p by (simp add: onPgm_def up_def)
  note first = bindA_first [of "onPgm (IsStarted slotHost)" p p True, OF this]
  have "masterRoleSM slotHost example_master RoleStandby p =
      thenA (whenA True (thenA (setRecoveryParameters None) (onPgm (Promote slotHost)))) (refreshReplicationSlots slotHost example_master) p"
    by (simp add: masterRoleSM_def first thenA_skip)
  with w p show "case masterRoleSM slotHost example_master RoleStandby p of (s', Inl e) \<Rightarrow> False | (s', Inr x) \<Rightarrow> up s'"
    by (simp add: works_def runs_def)
qed

lemma bindA_liftA: "bindA (liftA (Inr x)) f = f x"
  by (rule ext) (simp add: bindA_def liftA_def getA_def)

lemma works_updateConfiguration: "works (updateConfiguration slotHost example_cd db)"
proof (unfold works_def runs_def, intro allI impI)
  fix p assume p: "up p"
  obtain hba where hba: "generateHBA (os_order slotHost) p example_cd db = Inr hba" using example_hba by blast
  have w: "works (thenA (whenA b (setParameters slotHost db)) (thenA (whenA c (setHba hba)) (whenA d (tryA (onPgm (Reload slotHost)) (\<lambda>_. returnA ())))))" for b c d
    by (intro works_thenA works_whenA works_tryA) simp_all
  have "updateConfiguration slotHost example_cd db p =
     (let b = (mg_curParameters (pk_pgm p) \<noteq> Some (createPGParameters slotHost p db)); c = (mg_curHba (pk_pgm p) \<noteq> Some hba)
      in thenA (whenA b (setParameters slotHost db)) (thenA (whenA c (setHba hba)) (whenA (b \<or> c) (tryA (onPgm (Reload slotHost)) (\<lambda>_. returnA ()))))) p"
    unfolding updateConfiguration_def Let_def hba bindA_liftA ..
  with w p show "case updateConfiguration slotHost example_cd db p of (s', Inl e) \<Rightarrow> False | (s', Inr x) \<Rightarrow> up s'"
    by (simp add: works_def runs_def Let_def)
qed


lemma bindA_ask:
  "bindA (onPgm (IsInitialized slotHost)) f = f True" "bindA (onPgm (GetRole slotHost)) g = g RoleStandby"
  by (rule ext, simp add: bindA_def onPgm_def)+

lemma example_converges: "up p \<Longrightarrow> \<exists>p'. convergeDB slotHost slotIO example_cd example_master p = (p', Inr ())"
proof -
  assume "up p"
  have gen: "runs up (saveGeneration slotIO example_master) (\<lambda>_ _. True) (\<lambda>_. False)"
    by (simp add: runs_def saveGeneration_def saveDBLocalState_def act_defs onDisk_def onPgm_def onHost_def slotIO_def)
  have skip: "works (\<lambda>p. whenA (ls_Initializing (pk_dbLocalState p)) (cleanupFailed slotHost slotIO) p)"
    "works (\<lambda>p. whenA (ls_UID (pk_dbLocalState p) \<noteq> db_UID example_master) (initDB slotHost slotIO example_cd example_master) p)"
    by (auto simp: works_def runs_def up_def whenA_def returnA_def example_master_def)
  have role: "dbs_Role (db_Spec example_master) = RoleMaster" by (simp add: example_master_def)
  have "runs up (convergeDB slotHost slotIO example_cd example_master) (\<lambda>_ _. True) (\<lambda>_. False)"
    unfolding convergeDB_def convergeRole_eq bindA_ask role if_True Role.case
    by (rule runs_bindA [OF works_liftHBA [unfolded works_def]], rule runs_thenA [OF works_basic(2) [unfolded works_def]],
        rule runs_thenA [OF skip(1) [unfolded works_def]], rule runs_thenA [OF skip(2) [unfolded works_def]],
        rule runs_thenA [OF works_basic(4) [unfolded works_def]], rule runs_thenA [OF works_master [unfolded works_def]],
        rule runs_thenA [OF works_updateConfiguration [unfolded works_def]], rule gen)
  from runs_success [OF this \<open>up p\<close>] show ?thesis by auto
qed

lemma up_slot_pk: "up slot_pk"
  by (simp add: up_def slot_pk_def keeperOn_def managerOn_def)

theorem keeper_role_attained_witness:
  "\<exists>p1 p2. snd (GetRole slotHost (pk_pgm p1)) = Inr RoleStandby \<and> masterRoleSM slotHost example_master RoleStandby p1 = (p2, Inr ()) \<and>
     promoted slotHost example_master p2"
proof -
  obtain p' where "convergeDB slotHost slotIO example_cd example_master slot_pk = (p', Inr ())" using example_converges [OF up_slot_pk] by blast
  from keeper_role_attained [OF this] show ?thesis by (auto simp: example_master_def)
qed

lemma example_adopts: "adoptCluster slotIO example_cluster spec slot_pk =
    (slot_pk\<lparr>pk_sleepInterval := def_SleepInterval spec, pk_requestTimeout := def_RequestTimeout spec\<rparr>, Inr ())"
  by (simp add: adoptCluster_def act_defs slot_pk_def keeperOn_def example_cluster_def)

lemma example_findDB: "FindDB (os_order slotHost) example_cd (example_keeper ''k1'') = Some example_master"
proof -
  have "FindDB (\<lambda>xs. xs) example_cd (example_keeper ''k1'') = Some example_master" by code_simp
  then show ?thesis by (simp add: slotHost_def)
qed

lemma example_SM: "\<exists>p'. postgresKeeperSM slotHost slotIO (Inr (Some example_cd)) slot_pk = (p', Inr ())"
proof -
  let ?p = "slot_pk\<lparr>pk_sleepInterval := def_SleepInterval (WithDefaults example_spec), pk_requestTimeout := def_RequestTimeout (WithDefaults example_spec)\<rparr>"
  have "up ?p" using up_slot_pk by (simp add: up_def)
  then obtain p' where p': "convergeDB slotHost slotIO example_cd example_master ?p = (p', Inr ())" using example_converges by blast
  have cd: "cd_FormatVersion example_cd = CurrentCDFormatVersion" "cluster_of example_cd = Inr example_cluster" "c_Spec example_cluster = Some example_spec"
    "fmlookup (cd_Keepers example_cd) ''k1'' = Some (example_keeper ''k1'')"
    by (simp_all add: example_cd_def CurrentCDFormatVersion_def cluster_of_def example_cluster_def)
  have p: "kls_UID (pk_keeperLocalState slot_pk) = ''k1''" "pk_bootUUID slot_pk = ''b''" "ks_BootUUID (k_Status (example_keeper ''k1'')) = ''b''"
    by (simp_all add: slot_pk_def keeperOn_def example_keeper_def)
  have "postgresKeeperSM slotHost slotIO (Inr (Some example_cd)) slot_pk = convergeDB slotHost slotIO example_cd example_master ?p"
    unfolding postgresKeeperSM_def bindA_liftA
    by (simp add: cd bindA_liftA deref_def example_spec_valid thenA_def bindA_def example_adopts p example_findDB)
  with p' show ?thesis by simp
qed

theorem keeper_generation_sound_witness:
  "\<exists>p' db. postgresKeeperSM slotHost slotIO (Inr (Some example_cd)) slot_pk = (p', Inr ()) \<and> assigned slotHost slot_pk example_cd db \<and>
     ls_Generation (pk_dbLocalState p') = db_Generation db \<and> \<not> ls_Initializing (pk_dbLocalState p')"
proof -
  obtain p' where p': "postgresKeeperSM slotHost slotIO (Inr (Some example_cd)) slot_pk = (p', Inr ())" using example_SM by blast
  with keeper_generation_sound [OF p'] show ?thesis by auto
qed


definition failed_pk :: "(bool \<times> string list) PostgresKeeper" where
  "failed_pk = slot_pk\<lparr>pk_dbLocalState := newDBLocalState ''db1'' True\<rparr>"

lemma failed_cleanup:
  "fst (mg_machine (pk_pgm p)) \<Longrightarrow>
   cleanupFailed slotHost slotIO p =
     (p\<lparr>pk_pgm := (pk_pgm p)\<lparr>mg_machine := (False, snd (mg_machine (pk_pgm p)))\<rparr>, pk_dbLocalState := reset_state\<rparr>, Inr ())"
  by (cases "mg_machine (pk_pgm p)")
    (simp add: cleanupFailed_def StopIfStarted_def Stop_def RemoveAll_def saveDBLocalState_def onDisk_def act_defs onPgm_def onHost_def slotIO_def reset_state_def)

lemma failed_init:
  "initDB slotHost slotIO cd example_master p =
     (p\<lparr>pk_pgm := SetRecoveryParameters None (pk_pgm p)\<rparr>, Inl (Error ''different local dbUID but init mode is none''))"
  unfolding initDB_def bindA_ask
  by (simp add: thenA_def bindA_def setRecoveryParameters_def modA_def failA_def example_master_def)

lemma failed_run: "\<exists>p' r. convergeDB slotHost slotIO example_cd example_master failed_pk = (p', r) \<and> pk_dbLocalState p' = reset_state"
proof -
  obtain hba where hba: "generateHBA (os_order slotHost) failed_pk example_cd example_master = Inr hba" using example_hba by blast
  let ?p = "failed_pk\<lparr>pk_pgm := SetHba (Some hba) (pk_pgm failed_pk)\<rparr>"
  have "fst (mg_machine (pk_pgm ?p))" "ls_Initializing (pk_dbLocalState ?p)"
    by (simp_all add: failed_pk_def slot_pk_def keeperOn_def managerOn_def SetHba_def newDBLocalState_def)
  moreover have "ls_UID reset_state \<noteq> db_UID example_master"
    by (simp add: reset_state_def newDBLocalState_def example_master_def)
  ultimately show ?thesis
    by (simp add: convergeDB_def convergeRole_eq hba bindA_def thenA_def setHba_def modA_def failed_cleanup whenA_def failed_init)
qed

theorem keeper_failed_init_removed_witness:
  "\<exists>hba m1 m2. StopIfStarted slotHost True (SetHba (Some hba) (pk_pgm failed_pk)) = (m1, Inr ()) \<and> RemoveAll slotHost m1 = (m2, Inr ())"
proof -
  obtain p' r where run: "convergeDB slotHost slotIO example_cd example_master failed_pk = (p', r)" "pk_dbLocalState p' = reset_state"
    using failed_run by blast
  have "ls_Initializing (pk_dbLocalState failed_pk)" "pk_dbLocalState p' \<noteq> pk_dbLocalState failed_pk"
    using run(2) by (simp_all add: failed_pk_def reset_state_def newDBLocalState_def)
  from keeper_failed_init_removed [OF run(1) this] show ?thesis .
qed

theorem keeper_report_sound_witness:
  "\<exists>p' s. GetPGState slotHost slot_pk = (p', Inr s) \<and> report_ok slot_pk s"
proof -
  have q: "sql_Query slotHost c q w = Inr (if has_prefix q ''select slot_name'' then map (\<lambda>s. [s]) (snd w) else [])" for c q w
    by (simp add: slotHost_def split: prod.splits)
  have "\<exists>p' s. GetPGState slotHost slot_pk = (p', Inr s)"
    unfolding GetPGState_def bindA_ask
    by (simp add: tryA_def onPgm_def GetConfigFilePGParameters_def getConfigFilePGParameters_def bindA_def queryLocal_def q getA_def GetInSyncStandbys_def
        GetSyncStandbys_def getSyncStandbys_def returnA_def pgStateSystem_def GetSystemData_def pg_GetSystemData_def queryRepl_def thenA_def modA_def Let_def)
  then show ?thesis using keeper_report_sound by blast
qed

end
