(* ===== verification/Keeper_Run.thy ===== *)
theory Keeper_Run
  imports Keeper_Correct Config
begin

text \<open>
  The process of a keeper: \<^verbatim>\<open>NewPostgresKeeper\<close> and \<^verbatim>\<open>Start\<close> of
  \<^verbatim>\<open>cmd/keeper/cmd/keeper.go\<close>. \<^verbatim>\<open>Start\<close> is a loop that starts three tasks, each when
  its timer fires: the state machine, the collection of the report, and its publication. A task runs in its own goroutine, tells the
  loop when it is done, and the loop arms the timer again.

  The events of the loop may come in any order. A task changes the keeper in one step (\<open>TaskRuns\<close>), at any time between
  its start and its end; what the store returns to the state machine is a parameter of that step. A panic of a task ends the
  process. When the context is cancelled, the loop stops the instance and ends, while tasks that were started may still run.
\<close>

section \<open>Creating a keeper\<close>

text \<open>There is no postgres manager before \<^verbatim>\<open>Start\<close>; the machine is there.\<close>

definition noManager :: "'w \<Rightarrow> 'w Manager" where
  "noManager w =
     \<lparr>mg_pgBinPath = '''', mg_dataDir = '''', mg_parameters = None, mg_recoveryParameters = None, mg_hba = None,
      mg_curParameters = None, mg_curRecoveryParameters = None, mg_curHba = None, mg_localConnParams = fmempty, mg_replConnParams = fmempty,
      mg_suAuthMethod = '''', mg_suUsername = '''', mg_suPassword = '''', mg_replAuthMethod = '''', mg_replUsername = '''', mg_replPassword = '''',
      mg_requestTimeout = 0, mg_machine = w\<rparr>"

definition newKeeper :: "KeeperConfig \<Rightarrow> string \<Rightarrow> string \<Rightarrow> 'w \<Rightarrow> 'w PostgresKeeper" where
  "newKeeper cfg dataDir bootUUID w =
     \<lparr>pk_bootUUID = bootUUID, pk_dataDir = dataDir, pk_pgBinPath = kf_pgBinPath cfg, pk_pgListenAddress = kf_pgListenAddress cfg,
      pk_pgPort = kf_pgPort cfg, pk_pgReplAuthMethod = kf_pgReplAuthMethod cfg, pk_pgReplUsername = kf_pgReplUsername cfg,
      pk_pgReplPassword = kf_pgReplPassword cfg, pk_pgSUAuthMethod = kf_pgSUAuthMethod cfg, pk_pgSUUsername = kf_pgSUUsername cfg,
      pk_pgSUPassword = kf_pgSUPassword cfg, pk_sleepInterval = DefaultSleepInterval, pk_requestTimeout = DefaultRequestTimeout,
      pk_keeperLocalState = \<lparr>kls_UID = '''', kls_ClusterUID = ''''\<rparr>,
      pk_dbLocalState = \<lparr>ls_UID = '''', ls_Generation = 0, ls_Initializing = False, ls_InitPGParameters = None\<rparr>,
      pk_lastPGState = None, pk_pgm = noManager w\<rparr>"

text \<open>
  \<open>storeRes\<close> is the result of creating the store, \<open>absDir\<close> that of making the data directory absolute.
\<close>

definition NewPostgresKeeper :: "'w KeeperIO \<Rightarrow> unit res \<Rightarrow> string res \<Rightarrow> string \<Rightarrow> KeeperConfig \<Rightarrow> 'w \<Rightarrow> 'w PostgresKeeper res" where
  "NewPostgresKeeper io storeRes absDir bootUUID cfg w =
     (case storeRes of
        Inl e \<Rightarrow> Inl (Error ''cannot create store'')
      | Inr _ \<Rightarrow>
          (case absDir of
             Inl e \<Rightarrow> Inl (Error ''cannot get absolute datadir path'')
           | Inr dataDir \<Rightarrow>
               (case loadLocalStates io (kf_uid cfg) (newKeeper cfg dataDir bootUUID w) of
                  (p, Inl e) \<Rightarrow> Inl e
                | (p, Inr _) \<Rightarrow> Inr p)))"

section \<open>The loop\<close>

datatype keeper_task = TaskSM | TaskPGState | TaskKeeperInfo

datatype task_phase = TimerArmed duration | Running | Ending

datatype keeper_event = TimerFires keeper_task | TaskRuns keeper_task "ClusterData option res" | TaskEnds keeper_task | ContextDone

record 'w KeeperLoop =
  kl_keeper :: "'w PostgresKeeper"
  kl_phase :: "keeper_task \<Rightarrow> task_phase"
  kl_ended :: bool

text \<open>The intervals of the cluster, if there is one.\<close>

definition initialIntervals :: "ClusterData option res \<Rightarrow> 'w PostgresKeeper \<Rightarrow> 'w PostgresKeeper res" where
  "initialIntervals cdr p =
     (case cdr of
        Inr (Some cd) \<Rightarrow>
          if cd_FormatVersion cd \<noteq> CurrentCDFormatVersion then Inr p
          else (case cd_Cluster cd of
                  None \<Rightarrow> Inr p
                | Some c \<Rightarrow> bindE (DefSpec c) (\<lambda>spec. Inr (p\<lparr>pk_sleepInterval := def_SleepInterval spec, pk_requestTimeout := def_RequestTimeout spec\<rparr>)))
      | _ \<Rightarrow> Inr p)"

definition newPgm :: "'w PostgresKeeper \<Rightarrow> 'w Manager" where
  "newPgm p =
     NewManager (pk_pgBinPath p) (pk_dataDir p) (getLocalConnParams p) (getLocalReplConnParams p) (pk_pgSUAuthMethod p) (pk_pgSUUsername p)
       (pk_pgSUPassword p) (pk_pgReplAuthMethod p) (pk_pgReplUsername p) (pk_pgReplPassword p) (pk_requestTimeout p) (mg_machine (pk_pgm p))"

text \<open>Before the loop: an instance that is still running is stopped (an error is ignored), and the timers fire at once.\<close>

definition keeper_Start :: "'w Host \<Rightarrow> ClusterData option res \<Rightarrow> 'w PostgresKeeper \<Rightarrow> 'w KeeperLoop res" where
  "keeper_Start h cdr p =
     bindE (initialIntervals cdr p) (\<lambda>p.
       Inr \<lparr>kl_keeper = fst (onPgm (StopIfStarted h True) (p\<lparr>pk_pgm := newPgm p\<rparr>)), kl_phase = (\<lambda>_. TimerArmed 0), kl_ended = False\<rparr>)"

definition runTask :: "'w Host \<Rightarrow> 'w KeeperIO \<Rightarrow> keeper_task \<Rightarrow> ClusterData option res \<Rightarrow> ('w, unit) kact" where
  "runTask h io t cdr =
     (case t of TaskSM \<Rightarrow> postgresKeeperSM h io cdr | TaskPGState \<Rightarrow> updatePGState h | TaskKeeperInfo \<Rightarrow> updateKeeperInfo h io)"

definition taskInterval :: "'w PostgresKeeper \<Rightarrow> keeper_task \<Rightarrow> duration" where
  "taskInterval p t =
     (case t of TaskSM \<Rightarrow> pk_sleepInterval p | TaskPGState \<Rightarrow> sgn (pk_sleepInterval p) * (\<bar>pk_sleepInterval p\<bar> div 2)
      | TaskKeeperInfo \<Rightarrow> pk_sleepInterval p)"

text \<open>One event; nothing if it is not possible, and the panic if a task panics.\<close>

definition keeperLoop :: "'w Host \<Rightarrow> 'w KeeperIO \<Rightarrow> keeper_event \<Rightarrow> 'w KeeperLoop \<Rightarrow> 'w KeeperLoop res option" where
  "keeperLoop h io ev l =
     (case ev of
        TimerFires t \<Rightarrow>
          (case kl_phase l t of
             TimerArmed _ \<Rightarrow> if kl_ended l then None else Some (Inr (l\<lparr>kl_phase := (kl_phase l)(t := Running)\<rparr>))
           | _ \<Rightarrow> None)
      | TaskRuns t cdr \<Rightarrow>
          if kl_phase l t \<noteq> Running then None
          else (case runTask h io t cdr (kl_keeper l) of
                  (p, Inl (Panic e)) \<Rightarrow> Some (Inl (Panic e))
                | (p, r) \<Rightarrow> Some (Inr (l\<lparr>kl_keeper := p, kl_phase := (kl_phase l)(t := Ending)\<rparr>)))
      | TaskEnds t \<Rightarrow>
          if kl_phase l t \<noteq> Ending \<or> kl_ended l then None
          else Some (Inr (l\<lparr>kl_phase := (kl_phase l)(t := TimerArmed (taskInterval (kl_keeper l) t))\<rparr>))
      | ContextDone \<Rightarrow>
          if kl_ended l then None
          else Some (Inr (l\<lparr>kl_keeper := fst (onPgm (StopIfStarted h True) (kl_keeper l)), kl_ended := True\<rparr>)))"

inductive keeper_run :: "'w Host \<Rightarrow> 'w KeeperIO \<Rightarrow> 'w KeeperLoop \<Rightarrow> keeper_event list \<Rightarrow> 'w KeeperLoop \<Rightarrow> bool" for h io l0 where
  start: "keeper_run h io l0 [] l0"
| step: "keeper_run h io l0 evs l \<Longrightarrow> keeperLoop h io ev l = Some (Inr l') \<Longrightarrow> keeper_run h io l0 (evs @ [ev]) l'"

section \<open>What a keeper reports was attained\<close>

text \<open>
  A generation is earned if a run of the state machine ended after converging the database with this generation, that was
  assigned to this keeper in the cluster data it read.
\<close>

definition earned :: "'w Host \<Rightarrow> 'w KeeperIO \<Rightarrow> 'w KeeperLoop \<Rightarrow> keeper_event list \<Rightarrow> string \<Rightarrow> int64 \<Rightarrow> bool" where
  "earned h io l0 evs uid gen \<longleftrightarrow>
     (\<exists>evs1 evs2 cd l p db. evs = evs1 @ TaskRuns TaskSM (Inr (Some cd)) # evs2 \<and> keeper_run h io l0 evs1 l \<and>
        postgresKeeperSM h io (Inr (Some cd)) (kl_keeper l) = (p, Inr ()) \<and> assigned h (kl_keeper l) cd db \<and>
        db_UID db = uid \<and> db_Generation db = gen)"

definition reportable :: "'w Host \<Rightarrow> 'w KeeperIO \<Rightarrow> 'w KeeperLoop \<Rightarrow> keeper_event list \<Rightarrow> string \<Rightarrow> int64 \<Rightarrow> bool" where
  "reportable h io l0 evs uid gen \<longleftrightarrow>
     gen = NoGeneration \<or>
     uid = ls_UID (pk_dbLocalState (kl_keeper l0)) \<and> gen = ls_Generation (pk_dbLocalState (kl_keeper l0)) \<or>
     earned h io l0 evs uid gen"

lemma reportable_append: "reportable h io l0 evs uid gen \<Longrightarrow> reportable h io l0 (evs @ evs2) uid gen"
  unfolding reportable_def earned_def by fastforce

lemmas reportable_snoc = reportable_append [where ?evs2.0 = "[ev]" for ev]

definition run_inv where
  "run_inv h io l0 evs l \<longleftrightarrow>
     kls_UID (pk_keeperLocalState (kl_keeper l)) = kls_UID (pk_keeperLocalState (kl_keeper l0)) \<and>
     pk_bootUUID (kl_keeper l) = pk_bootUUID (kl_keeper l0) \<and>
     reportable h io l0 evs (ls_UID (pk_dbLocalState (kl_keeper l))) (ls_Generation (pk_dbLocalState (kl_keeper l))) \<and>
     (\<forall>s. pk_lastPGState (kl_keeper l) = Some s \<longrightarrow> reportable h io l0 evs (pst_UID s) (pst_Generation s))"

lemma onPgm_keeps: "local_of (fst (onPgm a p)) = local_of p"
  by (simp add: onPgm_def split: prod.splits)

lemma updatePGState_cases:
  assumes "updatePGState h p = (p', r)"
  shows "local_of p' = local_of p \<or> (\<exists>q s. p' = q\<lparr>pk_lastPGState := Some s\<rparr> \<and> local_of q = local_of p \<and> report_ok p s)"
proof -
  obtain q r' where g: "GetPGState h p = (q, r')" by fastforce
  then have keep: "local_of q = local_of p" using stays_GetPGState [of h] unfolding stays_def by (metis fst_conv)
  show ?thesis
  proof (cases r')
    case (Inl e)
    then show ?thesis using assms g keep by (simp add: updatePGState_def tryA_def returnA_def)
  next
    case (Inr s)
    then have "report_ok p s" using GetPGState_report g by blast
    then show ?thesis using assms g keep Inr by (auto simp: updatePGState_def tryA_def modA_def)
  qed
qed

lemma updateKeeperInfo_keeps: "local_of (fst (updateKeeperInfo h io p)) = local_of p"
  by (simp add: updateKeeperInfo_def Let_def returnA_def onDisk_def onPgm_keeps split: prod.splits)

text \<open>A task keeps the invariant.\<close>

lemma run_inv_local:
  assumes "run_inv h io l0 evs l" "local_of (kl_keeper l') = local_of (kl_keeper l)"
  shows "run_inv h io l0 (evs @ [ev]) l'"
  using assms by (auto simp: run_inv_def local_of_def intro: reportable_snoc)

lemma run_inv_SM:
  assumes "keeper_run h io l0 evs l" "run_inv h io l0 evs l" "postgresKeeperSM h io cdr (kl_keeper l) = (p, r)" "kl_keeper l' = p"
  shows "run_inv h io l0 (evs @ [TaskRuns TaskSM cdr]) l'"
proof -
  note sm = SM_local_state [OF assms(3)]
  have "reportable h io l0 (evs @ [TaskRuns TaskSM cdr]) (ls_UID (pk_dbLocalState p)) (ls_Generation (pk_dbLocalState p))"
  proof (cases "r = Inr ()")
    case True
    with sm(1) obtain cd db where "cdr = Inr (Some cd)" "assigned h (kl_keeper l) cd db"
      "ls_UID (pk_dbLocalState p) = db_UID db" "ls_Generation (pk_dbLocalState p) = db_Generation db" by blast
    with True assms(1,3) have "earned h io l0 (evs @ [TaskRuns TaskSM cdr]) (ls_UID (pk_dbLocalState p)) (ls_Generation (pk_dbLocalState p))"
      unfolding earned_def by (intro exI [of _ evs] exI [of _ "[]"] exI [of _ cd] exI [of _ l] exI [of _ p] exI [of _ db]) simp
    then show ?thesis by (simp add: reportable_def)
  next
    case False
    with sm(2) consider "pk_dbLocalState p = pk_dbLocalState (kl_keeper l)" | "ls_Generation (pk_dbLocalState p) = NoGeneration"
      by (auto simp: newDBLocalState_def)
    then show ?thesis
      using assms(2) by cases (auto simp: run_inv_def reportable_def [of _ _ _ _ _ NoGeneration] intro: reportable_snoc)
  qed
  moreover have "keeper_id p = keeper_id (kl_keeper l)" by (rule sm(3))
  ultimately show ?thesis using assms(2,4) by (auto simp: run_inv_def keeper_id_def intro: reportable_snoc)
qed

lemma run_inv_PGState:
  assumes "run_inv h io l0 evs l" "updatePGState h (kl_keeper l) = (p, r)" "kl_keeper l' = p"
  shows "run_inv h io l0 (evs @ [ev]) l'"
  using updatePGState_cases [OF assms(2)]
proof (elim disjE exE conjE)
  assume "local_of p = local_of (kl_keeper l)"
  then show ?thesis using assms(3) by (intro run_inv_local [OF assms(1)]) simp
next
  fix q s
  assume p: "p = q\<lparr>pk_lastPGState := Some s\<rparr>" "local_of q = local_of (kl_keeper l)" "report_ok (kl_keeper l) s"
  have "run_inv h io l0 (evs @ [ev]) (l\<lparr>kl_keeper := q\<rparr>)" by (rule run_inv_local [OF assms(1)]) (simp add: p)
  moreover have "reportable h io l0 (evs @ [ev]) (pst_UID s) (pst_Generation s)"
    using assms(1) p(3) by (auto simp: run_inv_def report_ok_def intro: reportable_snoc)
  ultimately show ?thesis using p(1) assms(3) by (simp add: run_inv_def)
qed

lemma keeperLoop_run_inv:
  assumes "keeper_run h io l0 evs l" "run_inv h io l0 evs l" "keeperLoop h io ev l = Some (Inr l')"
  shows "run_inv h io l0 (evs @ [ev]) l'"
proof (cases ev)
  case (TaskRuns t cdr)
  obtain p r where r: "runTask h io t cdr (kl_keeper l) = (p, r)" by fastforce
  with assms(3) TaskRuns have l': "kl_keeper l' = p"
    by (auto simp: keeperLoop_def split: if_splits sum.splits go_error.splits)
  show ?thesis
  proof (cases t)
    case TaskSM
    then show ?thesis using run_inv_SM [OF assms(1,2) _ l'] r TaskRuns by (simp add: runTask_def)
  next
    case TaskPGState
    then show ?thesis using run_inv_PGState [OF assms(2) _ l'] r by (simp add: runTask_def)
  next
    case TaskKeeperInfo
    then have "local_of p = local_of (kl_keeper l)" using r updateKeeperInfo_keeps [of h io "kl_keeper l"] by (simp add: runTask_def)
    then show ?thesis using l' by (intro run_inv_local [OF assms(2)]) simp
  qed
qed (use assms(3) in \<open>auto simp: keeperLoop_def onPgm_keeps split: if_splits task_phase.splits intro!: run_inv_local [OF assms(2)]\<close>)

lemma keeper_run_inv:
  assumes "pk_lastPGState (kl_keeper l0) = None"
  shows "keeper_run h io l0 evs l \<Longrightarrow> run_inv h io l0 evs l"
proof (induction rule: keeper_run.induct)
  case start
  show ?case using assms by (simp add: run_inv_def reportable_def)
next
  case (step evs l ev l')
  then show ?case using keeperLoop_run_inv by blast
qed

lemma loadLocalStates_keeps:
  assumes "loadLocalStates io uid p = (p', r)"
  shows "pk_lastPGState p' = pk_lastPGState p" and "pk_bootUUID p' = pk_bootUUID p"
  using assms
  by (auto simp: loadLocalStates_def act_defs Let_def saveKeeperLocalState_def onDisk_def onPgm_def
      split: prod.splits sum.splits option.splits if_splits)

lemma NewPostgresKeeper_fresh:
  assumes "NewPostgresKeeper io storeRes absDir bootUUID cfg w = Inr p"
  shows "pk_lastPGState p = None \<and> pk_bootUUID p = bootUUID"
proof -
  from assms obtain dataDir u where "loadLocalStates io (kf_uid cfg) (newKeeper cfg dataDir bootUUID w) = (p, Inr u)"
    by (auto simp: NewPostgresKeeper_def split: sum.splits prod.splits)
  from loadLocalStates_keeps [OF this] show ?thesis by (simp add: newKeeper_def)
qed

lemma initialIntervals_keeps: "initialIntervals cdr p = Inr q \<Longrightarrow> local_of q = local_of p"
  by (auto simp: initialIntervals_def res_simps local_of_def split: sum.splits option.splits if_splits)

lemma keeper_Start_keeps: "keeper_Start h cdr p = Inr l \<Longrightarrow> local_of (kl_keeper l) = local_of p"
  by (auto simp: keeper_Start_def bindE_eq_Inr onPgm_keeps dest: initialIntervals_keeps)

text \<open>What is published.\<close>

lemma updateKeeperInfo_published:
  assumes "updateKeeperInfo h io p = (p', r)"
  shows "mg_machine (pk_pgm p') = mg_machine (pk_pgm p) \<or>
    (\<exists>ki ttl. mg_machine (pk_pgm p') = fst (io_putInfo io (kls_UID (pk_keeperLocalState p)) ki ttl (mg_machine (pk_pgm p))) \<and>
       ki_UID ki = kls_UID (pk_keeperLocalState p) \<and> ki_BootUUID ki = pk_bootUUID p \<and> ki_PostgresState ki = pk_lastPGState p)"
proof (cases "kls_ClusterUID (pk_keeperLocalState p) = ''''")
  case True
  then show ?thesis using assms by (simp add: updateKeeperInfo_def returnA_def)
next
  case False
  let ?v = "case snd (BinaryVersion h (pk_pgm p)) of Inl _ \<Rightarrow> (0, 0) | Inr v \<Rightarrow> v"
  let ?ki = "\<lparr>ki_InfoUID = io_UID io, ki_UID = kls_UID (pk_keeperLocalState p), ki_ClusterUID = kls_ClusterUID (pk_keeperLocalState p),
      ki_BootUUID = pk_bootUUID p, ki_PostgresBinaryVersion = \<lparr>pv_Maj = fst ?v, pv_Min = snd ?v\<rparr>, ki_PostgresState = pk_lastPGState p\<rparr>"
  have "mg_machine (pk_pgm p') = fst (io_putInfo io (kls_UID (pk_keeperLocalState p)) ?ki (pk_sleepInterval p) (mg_machine (pk_pgm p)))"
    using assms False
    by (auto simp: updateKeeperInfo_def Let_def onDisk_def onPgm_def onHost_def case_prod_unfold)
  then show ?thesis by (intro disjI2 exI [of _ ?ki] exI [of _ "pk_sleepInterval p"]) simp
qed

text \<open>
  C16. Reports are earned. Whatever the order in which the tasks of a keeper run, an information that it publishes carries its
  own uid and boot identifier, and the database and the generation in it are those of the local state that the keeper started
  with, or those of a database that was assigned to it in cluster data with which a run of the state machine ended, or there is
  no generation. So a sentinel that sees a database converged sees a convergence that has happened.
\<close>

theorem keeper_reports_earned:
  assumes "NewPostgresKeeper io storeRes absDir bootUUID cfg w = Inr p0" and "keeper_Start h cdr p0 = Inr l0"
    and "keeper_run h io l0 evs l" and "keeperLoop h io (TaskRuns TaskKeeperInfo cdr') l = Some (Inr l')"
  shows "mg_machine (pk_pgm (kl_keeper l')) = mg_machine (pk_pgm (kl_keeper l)) \<or>
    (\<exists>ki ttl. mg_machine (pk_pgm (kl_keeper l')) =
         fst (io_putInfo io (kls_UID (pk_keeperLocalState (kl_keeper l0))) ki ttl (mg_machine (pk_pgm (kl_keeper l)))) \<and>
       ki_UID ki = kls_UID (pk_keeperLocalState (kl_keeper l0)) \<and> ki_BootUUID ki = pk_bootUUID (kl_keeper l0) \<and>
       (\<forall>s. ki_PostgresState ki = Some s \<longrightarrow> reportable h io l0 evs (pst_UID s) (pst_Generation s)))"
proof -
  have "pk_lastPGState (kl_keeper l0) = None"
    using NewPostgresKeeper_fresh [OF assms(1)] keeper_Start_keeps [OF assms(2)] by (simp add: local_of_def)
  from keeper_run_inv [OF this assms(3)] have inv: "run_inv h io l0 evs l" .
  obtain p r where u: "updateKeeperInfo h io (kl_keeper l) = (p, r)" by fastforce
  with assms(4) have l': "kl_keeper l' = p"
    by (auto simp: keeperLoop_def runTask_def split: if_splits sum.splits go_error.splits)
  from updateKeeperInfo_published [OF u] inv show ?thesis unfolding l' run_inv_def by auto
qed

text \<open>The end of the loop stops the instance, if it can be stopped.\<close>

lemma keeper_shutdown:
  assumes "keeperLoop h io ContextDone l = Some (Inr l')" "StopIfStarted h True (pk_pgm (kl_keeper l)) = (m, Inr ())"
  shows "kl_ended l' \<and> running h (pk_pgm (kl_keeper l')) \<in> {Inr False, Inl ErrUnknownState}"
  using assms(1) StopIfStarted_stopped [OF assms(2)] assms(2) by (auto simp: keeperLoop_def onPgm_def split: if_splits)

section \<open>Example\<close>

text \<open>A keeper that was part of a cluster before; publishing leaves its uid on the machine.\<close>

definition runIO :: "(bool \<times> string list) KeeperIO" where
  "runIO = slotIO\<lparr>io_loadKeeper := (\<lambda>_. Inr (Some \<lparr>kls_UID = ''k1'', kls_ClusterUID = ''c''\<rparr>)),
     io_putInfo := (\<lambda>uid ki ttl (up, sl). ((up, uid # sl), Inr ()))\<rparr>"

definition run_p0 :: "(bool \<times> string list) PostgresKeeper" where
  "run_p0 = (newKeeper (example_config\<lparr>kf_uid := ''k1''\<rparr>) ''/data'' ''b'' (True, []))\<lparr>pk_keeperLocalState := \<lparr>kls_UID = ''k1'', kls_ClusterUID = ''c''\<rparr>\<rparr>"

definition run_l0 :: "(bool \<times> string list) KeeperLoop" where
  "run_l0 = \<lparr>kl_keeper = fst (onPgm (StopIfStarted slotHost True) (run_p0\<lparr>pk_pgm := newPgm run_p0\<rparr>)), kl_phase = (\<lambda>_. TimerArmed 0), kl_ended = False\<rparr>"

theorem keeper_reports_earned_witness:
  "\<exists>(ki :: KeeperInfo) l l'. keeper_run slotHost runIO run_l0 [TimerFires TaskKeeperInfo] l \<and>
     keeperLoop slotHost runIO (TaskRuns TaskKeeperInfo (Inr None)) l = Some (Inr l') \<and> ki_UID ki = ''k1'' \<and> ki_BootUUID ki = ''b''"
proof -
  have p0: "NewPostgresKeeper runIO (Inr ()) (Inr ''/data'') ''b'' (example_config\<lparr>kf_uid := ''k1''\<rparr>) (True, []) = Inr run_p0"
    by (simp add: NewPostgresKeeper_def loadLocalStates_def act_defs newKeeper_def run_p0_def runIO_def slotIO_def)
  have l0: "keeper_Start slotHost (Inr None) run_p0 = Inr run_l0"
    by (simp add: keeper_Start_def initialIntervals_def run_l0_def)
  let ?l = "run_l0\<lparr>kl_phase := (\<lambda>_. TimerArmed 0)(TaskKeeperInfo := Running)\<rparr>"
  have "keeperLoop slotHost runIO (TimerFires TaskKeeperInfo) run_l0 = Some (Inr ?l)" by (simp add: keeperLoop_def run_l0_def)
  from keeper_run.step [OF keeper_run.start this] have run: "keeper_run slotHost runIO run_l0 [TimerFires TaskKeeperInfo] ?l" by simp
  have local: "local_of (kl_keeper run_l0) = local_of run_p0" by (rule keeper_Start_keeps [OF l0])
  then have uid: "kls_UID (pk_keeperLocalState (kl_keeper run_l0)) = ''k1''" "kls_ClusterUID (pk_keeperLocalState (kl_keeper run_l0)) = ''c''"
    "pk_bootUUID (kl_keeper run_l0) = ''b''"
    by (simp_all add: local_of_def run_p0_def newKeeper_def)
  obtain up sl where m: "mg_machine (pk_pgm (kl_keeper run_l0)) = (up, sl)" by fastforce
  obtain p where p: "updateKeeperInfo slotHost runIO (kl_keeper run_l0) = (p, Inr ())" "mg_machine (pk_pgm p) = (up, ''k1'' # sl)"
    by (simp add: updateKeeperInfo_def uid Let_def onDisk_def onPgm_def onHost_def runIO_def m split: prod.splits)
  let ?l' = "?l\<lparr>kl_keeper := p, kl_phase := (kl_phase ?l)(TaskKeeperInfo := Ending)\<rparr>"
  have "keeperLoop slotHost runIO (TaskRuns TaskKeeperInfo (Inr None)) ?l = Some (Inr ?l')"
    by (simp add: keeperLoop_def runTask_def p(1))
  note l' = this
  from keeper_reports_earned [OF p0 l0 run l'] m p(2) uid obtain ki :: KeeperInfo where "ki_UID ki = ''k1''" "ki_BootUUID ki = ''b''" by auto
  with run l' show ?thesis by blast
qed

end
