(* ===== verification/Fencing.thy ===== *)
theory Fencing
  imports System Proxy
begin

text \<open>
  The sentinels and the proxies together. A failover changes the cluster data in two steps, with the proxies in between: the
  master is changed and the proxies are told that there is none; they close their connections and publish the generation
  they have seen; when every proxy that the sentinel counts as active has, the new master is published.

  The result is what these steps are for: a proxy that was counted when a master was published has no connection
  that is older than this, in every interleaving of checks, commands, reads, publications, timeouts and connections.
\<close>

section \<open>What the proxies are told\<close>

text \<open>The generation and the master of the proxy part of the cluster data.\<close>

definition proxyTold :: "ClusterData \<Rightarrow> (int64 \<times> string) option" where
  "proxyTold cd = map_option (\<lambda>p. (p_Generation p, ps_MasterDBUID (p_Spec p))) (cd_Proxy cd)"

lemma told_parts:
  assumes "proxyTold cd' = proxyTold cd"
  shows "proxyGeneration cd' = proxyGeneration cd" and "proxyMaster cd' = proxyMaster cd"
  using assms by (cases "cd_Proxy cd"; cases "cd_Proxy cd'"; simp add: proxyTold_def proxyGeneration_def proxyMaster_def)+

lemma told_json: "proxyTold (json_ClusterData cd) = proxyTold cd"
  by (cases "cd_Proxy cd") (simp_all add: proxyTold_def json_ClusterData_def json_Proxy_def)

lemma told_status:
  assumes "cluster_of cd = Inr c" and "updateKeepersStatus env s cd kis fr = Inr (s', cd', kihs)"
  shows "cd_Proxy cd' = cd_Proxy cd"
proof (cases fr)
  case True
  then show ?thesis using assms by (auto simp: updateKeepersStatus_def res_simps Let_def)
next
  case False
  then have "updateKeepersStatus env s cd kis False = Inr (s', cd', kihs)" using assms by simp
  from updateKeepersStatus_run(4) [OF this assms(1)] show ?thesis by (rule ssubst) simp
qed

lemma told_changeTimes:
  assumes "updateChangeTimes env cd newcd = Inr cd'"
  shows "proxyTold cd' = proxyTold newcd"
  using assms by (auto simp: updateChangeTimes_def proxyTold_def Let_def res_simps split: if_splits option.splits)

lemma told_init:
  assumes "updateClusterInit env s spec m cd = Inr cd'"
  shows "cd_Proxy cd' = cd_Proxy cd"
  using updateClusterInit_step [OF assms]
  by cases (simp_all add: addMasterDB_def dbInitialized_def initFailed_def setPhase_def modCluster_def Let_def)

text \<open>One check: nothing, or a new generation; a master is told after none only if all the active proxies have reported.\<close>

definition told_step :: "ProxiesInfo \<Rightarrow> ClusterData \<Rightarrow> ClusterData \<Rightarrow> bool" where
  "told_step act cd cd' \<longleftrightarrow>
     (proxyTold cd' = proxyTold cd \<or> proxyGeneration cd' = proxyGeneration cd + 1) \<and>
     (proxyMaster cd = Some '''' \<and> proxyMaster cd' \<noteq> Some '''' \<longrightarrow>
        (\<forall>u pi. fmlookup act u = Some pi \<longrightarrow> pi_Generation pi = proxyGeneration cd))"

lemma told_step_cong:
  assumes "proxyTold cd1 = proxyTold cd" and "proxyTold cd1' = proxyTold cd'"
  shows "told_step act cd1 cd1' \<longleftrightarrow> told_step act cd cd'"
  using told_parts [OF assms(1)] told_parts [OF assms(2)] assms by (simp add: told_step_def)

lemma updateCluster_told:
  assumes "updateCluster env s cd act = Inr cd'" and "wf_at b cd"
  shows "told_step act cd cd'"
proof (cases "phaseOf cd = Some ClusterPhaseNormal")
  case True
  show ?thesis
  proof (rule updateCluster_outcome [OF assms(1) True])
    fix cur p
    assume p: "cd_Proxy cd = Some p"
      "cd_Proxy cd' = Some (if masterUID cd' = masterUID cd then updateProxy act (masterUID cd) p else unsetProxyMaster p)"
    assume "fmlookup (cd_DBs cd) (masterUID cd) = Some cur"
    then have m: "masterUID cd \<noteq> ''''" using assms(2) by (auto elim: wf_cd_parts simp: wf_at_def split: option.splits)
    show ?thesis
    proof (cases "masterUID cd' = masterUID cd")
      case True
      have g: "if p_Spec (updateProxy act (masterUID cd) p) = p_Spec p then updateProxy act (masterUID cd) p = p
         else p_Generation (updateProxy act (masterUID cd) p) = p_Generation p + 1"
        by (rule updateProxy_generation [OF m])
      have "ps_MasterDBUID (p_Spec p) = '''' \<Longrightarrow> ps_MasterDBUID (p_Spec (updateProxy act (masterUID cd) p)) \<noteq> '''' \<Longrightarrow>
         fmlookup act u = Some pi \<Longrightarrow> pi_Generation pi = p_Generation p" for u pi
        by (auto simp: updateProxy_def filter_empty_conv split: if_splits)
      then show ?thesis using g p True
        by (auto simp: told_step_def proxyTold_def proxyGeneration_def proxyMaster_def split: if_splits)
    next
      case False
      then show ?thesis using p unsetProxyMaster_generation [of p]
        by (auto simp: told_step_def proxyTold_def proxyGeneration_def proxyMaster_def unsetProxyMaster_def split: if_splits)
    qed
  qed
next
  case False
  with assms(1) obtain m spec cd2 cd3 where
    u: "updateClusterInit env s spec m cd = Inr cd2"
    "setDBSpecFromClusterSpec cd2 = Inr cd3" "cd' = updateGenerations cd cd3"
    by (cases "cst_Phase (c_Status (the (cd_Cluster cd)))")
      (auto simp: updateCluster_def cluster_of_def phaseOf_def res_simps)
  have "cd_Proxy cd' = cd_Proxy cd" using told_init [OF u(1)] db_specs.frame [OF u(2)] u(3) by (simp add: same_frame_def)
  then have "proxyTold cd' = proxyTold cd" by (simp add: proxyTold_def)
  then show ?thesis using told_parts(2) [of cd' cd] by (simp add: told_step_def)
qed

text \<open>The proxies that a check counts as active. The first check after an election forgets what it knew of the proxies.\<close>

definition countedProxies :: "Env \<Rightarrow> Sentinel \<Rightarrow> ProxiesInfo \<Rightarrow> ProxiesInfo" where
  "countedProxies env s pis =
     snd (activeProxiesInfos env
       (if s_lastLeadershipCount s \<noteq> s_leadershipCount s then s\<lparr>s_proxyInfoHistories := fmempty\<rparr> else s) pis)"

lemma active_cong:
  "s_proxyInfoHistories s = s_proxyInfoHistories s' \<Longrightarrow>
   snd (activeProxiesInfos env s pis) = snd (activeProxiesInfos env s' pis)"
  by (simp add: activeProxiesInfos_def Let_def)

lemma timers_proxies [simp]:
  "s_proxyInfoHistories (SetKeeperError env u s) = s_proxyInfoHistories s"
  "s_proxyInfoHistories (CleanKeeperError u s) = s_proxyInfoHistories s"
  "s_proxyInfoHistories (SetDBError env u s) = s_proxyInfoHistories s"
  "s_proxyInfoHistories (CleanDBError u s) = s_proxyInfoHistories s"
  "s_proxyInfoHistories (SetDBNotIncreasingXLogPos u s) = s_proxyInfoHistories s"
  "s_proxyInfoHistories (CleanDBNotIncreasingXLogPos u s) = s_proxyInfoHistories s"
  by (simp_all add: SetKeeperError_def CleanKeeperError_def SetDBError_def CleanDBError_def
      SetDBNotIncreasingXLogPos_def CleanDBNotIncreasingXLogPos_def Let_def split: option.split)

lemma updateKeepersStatus_proxies:
  assumes "updateKeepersStatus env s cd kis fr = Inr (s', cd', kihs)"
  shows "s_proxyInfoHistories s' = s_proxyInfoHistories s"
proof -
  have k: "s_proxyInfoHistories (markKeepers env kis ks s) = s_proxyInfoHistories s" for kis ks s
    unfolding markKeepers_def by (rule fold_keeps) (auto split: prod.split)
  have d: "s_proxyInfoHistories (fold (\<lambda>(_, db). dbTimers env kis db) xs s) = s_proxyInfoHistories s" for kis xs s
    by (rule fold_keeps) (auto simp: dbTimers_def Let_def split: prod.split option.split)
  show ?thesis using assms by (auto simp: updateKeepersStatus_def Let_def res_simps k d split: if_splits)
qed

lemma resetTimers_proxies: "s_proxyInfoHistories (resetTimers env cd s) = fmempty"
proof -
  have "s_proxyInfoHistories (updateDBConvergenceInfos env cd s) = s_proxyInfoHistories s" for s
    unfolding updateDBConvergenceInfos_def
    by (rule fold_keeps) (auto simp: updateDBConvergenceInfo_def Let_def split: prod.splits option.splits)
  then show ?thesis by (simp add: resetTimers_def)
qed

lemma leaderCheck_counted:
  assumes "leaderCheck env s cd pair (s_leadershipCount s) kis pis = Inr (s', Some (cd', prev))"
  obtains s0 s1 cd1 kihs s2 cd2 where
    "updateKeepersStatus env s0 cd kis (s_lastLeadershipCount s \<noteq> s_leadershipCount s) = Inr (s1, cd1, kihs)"
    and "updateCluster env s2 cd1 (countedProxies env s pis) = Inr cd2" and "updateChangeTimes env cd cd2 = Inr cd'"
proof -
  let ?n = "s_leadershipCount s"
  let ?s = "if s_lastLeadershipCount s \<noteq> ?n then resetTimers env cd (s\<lparr>s_lastLeadershipCount := ?n\<rparr>)
      else s\<lparr>s_lastLeadershipCount := ?n\<rparr>"
  from assms obtain s1 cd1 kihs where
    u: "updateKeepersStatus env ?s cd kis (s_lastLeadershipCount s \<noteq> ?n) = Inr (s1, cd1, kihs)"
    by (auto simp: leaderCheck_def Let_def res_simps)
  have "s_proxyInfoHistories s1 = s_proxyInfoHistories ?s" by (rule updateKeepersStatus_proxies [OF u])
  then have a: "snd (activeProxiesInfos env s1 pis) = countedProxies env s pis"
    unfolding countedProxies_def by (intro active_cong) (simp add: resetTimers_proxies)
  obtain s2 act where act: "activeProxiesInfos env s1 pis = (s2, act)" by fastforce
  show ?thesis
  proof (cases "updateCluster env s2 cd1 act")
    case (Inl e)
    then show ?thesis using assms u act by (cases e) (auto simp: leaderCheck_def Let_def)
  next
    case (Inr cd2)
    moreover have "act = countedProxies env s pis" using a act by simp
    ultimately show ?thesis using assms u act that [OF u] by (auto simp: leaderCheck_def Let_def res_simps)
  qed
qed

lemma check_counted:
  assumes "ci_cd inp = Inr (Some (cd, pair))" and "clusterSentinelCheck env s inp = Inr (s', Some (cd', prev))"
    and "wf_at b cd" and "\<And>kis. ci_keepersInfo inp = Inr kis \<Longrightarrow> infos_ok kis" and "ci_proxiesInfo inp = Inr pis"
  shows "told_step (countedProxies env s pis) cd cd'"
proof -
  obtain c spec where c: "cluster_of cd = Inr c" "DefSpec c = Inr (WithDefaults spec)"
    using assms(3) by (auto elim: wf_cd_parts)
  define s0 where "s0 = s\<lparr>s_sleepInterval := def_SleepInterval (WithDefaults spec),
     s_requestTimeout := def_RequestTimeout (WithDefaults spec)\<rparr>"
  have s0: "s_leadershipCount s0 = s_leadershipCount s" "countedProxies env s0 pis = countedProxies env s pis"
    unfolding countedProxies_def by (simp add: s0_def, intro active_cong) (simp add: s0_def)
  have m: "checkMembers env s0 cd pair inp = Inr (s', Some (cd', prev))"
    using assms(1,2) c by (auto simp: clusterSentinelCheck_def res_simps s0_def split: if_splits)
  then have "checkMembers env s0 cd pair inp \<noteq> Inr (s0, None)" by simp
  with checkMembers_cases [of env s0 cd pair inp] m assms(5) obtain kis where
    l: "leaderCheck env s0 cd pair (s_leadershipCount s0) kis pis = Inr (s', Some (cd', prev))"
    and kis: "ci_keepersInfo inp = Inr kis" by auto
  from leaderCheck_counted [OF l] obtain s1 s2 cd1 kihs s3 cd2 fr where
    u: "updateKeepersStatus env s1 cd kis fr = Inr (s2, cd1, kihs)"
    "updateCluster env s3 cd1 (countedProxies env s0 pis) = Inr cd2" "updateChangeTimes env cd cd2 = Inr cd'" by metis
  have "wf_at b cd1" by (rule wf_updateKeepersStatus [OF assms(3) assms(4) [OF kis] u(1)])
  then have "told_step (countedProxies env s0 pis) cd1 cd2" by (rule updateCluster_told [OF u(2)])
  moreover have "proxyTold cd1 = proxyTold cd" using told_status [OF c(1) u(1)] by (simp add: proxyTold_def)
  ultimately show ?thesis using told_step_cong told_changeTimes [OF u(3)] s0(2) by metis
qed

lemma command_told:
  assumes "runCommand cmd cd = Inr (Some cd')"
  shows "proxyTold cd' = proxyTold cd"
proof (cases cmd)
  case (RemoveKeeper ord k)
  then show ?thesis using assms
    by (auto simp: removeKeeper_cd_def res_simps proxyTold_def split: option.splits if_splits prod.splits)
next
  case (FailKeeper k)
  then show ?thesis using assms by (auto simp: failKeeper_cd_def res_simps proxyTold_def split: option.splits)
next
  case Promote
  then show ?thesis using assms
    by (auto simp: promote_cd_def res_simps proxyTold_def Let_def split: if_splits)
next
  case (Update g)
  then show ?thesis using assms by (auto simp: update_cd_def res_simps proxyTold_def)
qed

section \<open>The fleet\<close>

text \<open>
  All the cluster data that has been in the store, oldest first, each with the proxies counted by the check that stored it; all the
  informations that proxies have published; the processes of the proxies by their UIDs. A proxy that is started again has a new UID.

  A change of the cluster data is made from the one in the store right then (the result of theory \<open>System\<close>), so that it
  can be taken at once; what it read of the proxies is anything they have ever published, and of any of them nothing. The proxies
  make the steps of theory \<open>Proxy\<close>; \<open>resolve\<close> is \<^verbatim>\<open>net.ResolveTCPAddr\<close>. A new
  cluster (\<^verbatim>\<open>stolonctl init\<close>) starts a new history.
\<close>

record Fleet =
  fl_history :: "(ClusterData \<times> ProxiesInfo) list"
  fl_published :: "ProxyInfo list"
  fl_proxies :: "string \<Rightarrow> ProxyProc"

text \<open>
  What the store makes of a call of a proxy. A read returns the cluster data or an error; a put that succeeds has stored the
  information, one that fails may have.
\<close>

fun store_call :: "Fleet \<Rightarrow> proxy_label \<Rightarrow> ProxyInfo list \<Rightarrow> bool" where
  "store_call f (Reads (Inl e)) published \<longleftrightarrow> published = fl_published f"
| "store_call f (Reads (Inr r)) published \<longleftrightarrow>
     published = fl_published f \<and> map_option fst r = Some (fst (last (fl_history f)))"
| "store_call f (Puts info ttl (Inl e)) published \<longleftrightarrow> published \<in> {fl_published f, info # fl_published f}"
| "store_call f (Puts info ttl (Inr r)) published \<longleftrightarrow> published = info # fl_published f"
| "store_call f Silent published \<longleftrightarrow> published = fl_published f"

inductive fleet_step :: "(string \<Rightarrow> string \<Rightarrow> addr res) \<Rightarrow> Fleet \<Rightarrow> Fleet \<Rightarrow> bool" for resolve where
  sentinel:
    "\<lbrakk>fst (last (fl_history f)) = cd; ci_cd inp = Inr (Some (cd, pair)); fresh_uids env cd;
      ci_keepersInfo inp = GetKeepersInfo (\<lambda>_ _. kinfos) path ();
      ci_proxiesInfo inp = GetProxiesInfo (\<lambda>_ _. Inr pinfos) path (); ci_proxiesInfo inp = Inr pis;
      list_all (\<lambda>kv. kv_Value kv \<in> JSON ` set (fl_published f)) pinfos;
      clusterSentinelCheck env s inp = Inr (s', Some (cd', Some pair))\<rbrakk> \<Longrightarrow>
     fleet_step resolve f (f\<lparr>fl_history := fl_history f @ [(json_ClusterData cd', countedProxies env s pis)]\<rparr>)"
| command:
    "\<lbrakk>fst (last (fl_history f)) = cd; runCommand cmd cd = Inr (Some cd')\<rbrakk> \<Longrightarrow>
     fleet_step resolve f (f\<lparr>fl_history := fl_history f @ [(json_ClusterData cd', fmempty)]\<rparr>)"
| proxy:
    "\<lbrakk>proxy_step resolve l (fl_proxies f u) x'; store_call f l published\<rbrakk> \<Longrightarrow>
     fleet_step resolve f (f\<lparr>fl_published := published, fl_proxies := (fl_proxies f)(u := x')\<rparr>)"

definition fleet_init :: "ClusterData \<Rightarrow> (string \<Rightarrow> gotime) \<Rightarrow> (string \<Rightarrow> bool) \<Rightarrow> Fleet" where
  "fleet_init cd starts stopListening =
     \<lparr>fl_history = [(cd, fmempty)], fl_published = [],
      fl_proxies = (\<lambda>u. proxy_Start (starts u) (NewClusterChecker u (stopListening u)))\<rparr>"

definition fleet_reachable :: "(string \<Rightarrow> string \<Rightarrow> addr res) \<Rightarrow> Fleet \<Rightarrow> bool" where
  "fleet_reachable resolve f \<longleftrightarrow> (\<exists>cd starts stop. sound_cd cd \<and> (fleet_step resolve)\<^sup>*\<^sup>* (fleet_init cd starts stop) f)"

section \<open>The history\<close>

text \<open>The cluster data that was stored as the \<open>v\<close>-th one.\<close>

definition version :: "Fleet \<Rightarrow> nat \<Rightarrow> ClusterData" where
  "version f v = fst (fl_history f ! v)"

definition counted :: "Fleet \<Rightarrow> nat \<Rightarrow> ProxiesInfo" where
  "counted f v = snd (fl_history f ! v)"

definition history_ok :: "Fleet \<Rightarrow> bool" where
  "history_ok f \<longleftrightarrow> fl_history f \<noteq> [] \<and> (\<forall>v < length (fl_history f). sound_cd (version f v)) \<and>
     (\<forall>v. Suc v < length (fl_history f) \<longrightarrow> told_step (counted f (Suc v)) (version f v) (version f (Suc v)) \<and>
        (\<forall>u pi. fmlookup (counted f (Suc v)) u = Some pi \<longrightarrow> pi \<in> set (fl_published f) \<and> pi_UID pi = u))"

text \<open>Fewer than \<open>2^64\<close> changes do not use a generation twice, so that it determines the master.\<close>

lemma told_between:
  assumes "history_ok f" and "v + n < length (fl_history f)"
  shows "\<exists>d \<le> n. proxyGeneration (version f (v + n)) = proxyGeneration (version f v) + of_nat d \<and>
    (d = 0 \<longrightarrow> proxyMaster (version f (v + n)) = proxyMaster (version f v))"
  using assms(2)
proof (induction n)
  case 0
  show ?case by simp
next
  case (Suc n)
  then obtain d where d: "d \<le> n" "proxyGeneration (version f (v + n)) = proxyGeneration (version f v) + of_nat d"
    "d = 0 \<longrightarrow> proxyMaster (version f (v + n)) = proxyMaster (version f v)" by auto
  have "told_step (counted f (Suc (v + n))) (version f (v + n)) (version f (Suc (v + n)))"
    using assms(1) Suc.prems by (simp add: history_ok_def)
  then consider "proxyTold (version f (Suc (v + n))) = proxyTold (version f (v + n))"
    | "proxyGeneration (version f (Suc (v + n))) = proxyGeneration (version f (v + n)) + 1"
    by (auto simp: told_step_def)
  then show ?case
  proof cases
    case 1
    then show ?thesis using d told_parts [OF 1] by (intro exI [of _ d]) simp
  next
    case 2
    then show ?thesis using d by (intro exI [of _ "Suc d"]) simp
  qed
qed

lemma small_generation: "n < 2 ^ 64 \<Longrightarrow> of_nat n = (0 :: int64) \<Longrightarrow> n = 0"
  by (auto simp: word_of_nat_eq_0_iff dest: nat_dvd_not_less)

lemma generation_master:
  assumes "history_ok f" and "length (fl_history f) < 2 ^ 64" and "v \<le> x" "x \<le> w" "w < length (fl_history f)"
    and "proxyGeneration (version f w) = proxyGeneration (version f v)"
  shows "proxyMaster (version f x) = proxyMaster (version f v)" and "proxyMaster (version f w) = proxyMaster (version f v)"
proof -
  from told_between [OF assms(1), of v "x - v"] assms(3-5) obtain d where
    d: "d \<le> x - v" "proxyGeneration (version f x) = proxyGeneration (version f v) + of_nat d"
      "d = 0 \<longrightarrow> proxyMaster (version f x) = proxyMaster (version f v)" by auto
  from told_between [OF assms(1), of x "w - x"] assms(3-5) obtain e where
    e: "e \<le> w - x" "proxyGeneration (version f w) = proxyGeneration (version f x) + of_nat e"
      "e = 0 \<longrightarrow> proxyMaster (version f w) = proxyMaster (version f x)" by auto
  have "of_nat (d + e) = (0 :: int64)" using d(2) e(2) assms(6) by (simp add: algebra_simps)
  moreover have "d + e < 2 ^ 64" using d(1) e(1) assms(2-5) by linarith
  ultimately have "d + e = 0" by (rule small_generation [rotated])
  then show "proxyMaster (version f x) = proxyMaster (version f v)" "proxyMaster (version f w) = proxyMaster (version f v)"
    using d(3) e(3) by simp_all
qed

section \<open>The proxies\<close>

text \<open>
  What a proxy forwards to was told by a version \<open>x\<close>, and by then it had not acknowledged a later one that told no master;
  everything that it has published and what its running check has read is not later than version \<open>r\<close>.
\<close>

definition acknowledged :: "Fleet \<Rightarrow> bool \<Rightarrow> nat \<Rightarrow> nat \<Rightarrow> ProxyInfo \<Rightarrow> bool" where
  "acknowledged f open r x pi \<longleftrightarrow>
     (\<exists>v \<le> r. pi_Generation pi = proxyGeneration (version f v) \<and> (open \<and> proxyMaster (version f v) = Some '''' \<longrightarrow> v \<le> x))"

definition follows :: "(string \<Rightarrow> string \<Rightarrow> addr res) \<Rightarrow> Fleet \<Rightarrow> string \<Rightarrow> nat \<Rightarrow> nat \<Rightarrow> bool" where
  "follows resolve f u r x \<longleftrightarrow> r < length (fl_history f) \<and> x \<le> r \<and>
     (\<forall>cd. px_cd (fl_proxies f u) = Some cd \<longrightarrow> cd = version f r) \<and>
     (\<forall>a. forwards (px_checker (fl_proxies f u)) = Some a \<longrightarrow> may_forward resolve u (version f x) a) \<and>
     (\<forall>pi \<in> set (fl_published f). pi_UID pi = u \<longrightarrow>
        acknowledged f (forwards (px_checker (fl_proxies f u)) \<noteq> None) r x pi)"

definition fleet_ok :: "(string \<Rightarrow> string \<Rightarrow> addr res) \<Rightarrow> Fleet \<Rightarrow> bool" where
  "fleet_ok resolve f \<longleftrightarrow> history_ok f \<and>
     (\<forall>u. cc_uid (px_checker (fl_proxies f u)) = u \<and> proxy_reachable resolve (fl_proxies f u) \<and> (\<exists>r x. follows resolve f u r x))"

lemma followsD:
  assumes "follows resolve f u r x"
  shows "r < length (fl_history f)" and "x \<le> r" and "px_cd (fl_proxies f u) = Some cd \<Longrightarrow> cd = version f r"
    and "forwards (px_checker (fl_proxies f u)) = Some a \<Longrightarrow> may_forward resolve u (version f x) a"
    and "pi \<in> set (fl_published f) \<Longrightarrow> pi_UID pi = u \<Longrightarrow>
        acknowledged f (forwards (px_checker (fl_proxies f u)) \<noteq> None) r x pi"
  using assms unfolding follows_def by blast+

text \<open>A new version.\<close>

lemma version_append:
  "v < length (fl_history f) \<Longrightarrow> version (f\<lparr>fl_history := fl_history f @ [e]\<rparr>) v = version f v"
  "v < length (fl_history f) \<Longrightarrow> counted (f\<lparr>fl_history := fl_history f @ [e]\<rparr>) v = counted f v"
  "version (f\<lparr>fl_history := fl_history f @ [e]\<rparr>) (length (fl_history f)) = fst e"
  "counted (f\<lparr>fl_history := fl_history f @ [e]\<rparr>) (length (fl_history f)) = snd e"
  by (simp_all add: version_def counted_def nth_append)

lemma version_last: "history_ok f \<Longrightarrow> fst (last (fl_history f)) = version f (length (fl_history f) - 1)"
  by (simp add: history_ok_def version_def last_conv_nth)

lemma history_append:
  assumes "history_ok f" and "sound_cd cd'" and "told_step act (fst (last (fl_history f))) cd'"
    and "\<And>u pi. fmlookup act u = Some pi \<Longrightarrow> pi \<in> set (fl_published f) \<and> pi_UID pi = u"
  shows "history_ok (f\<lparr>fl_history := fl_history f @ [(cd', act)]\<rparr>)" (is "history_ok ?f")
proof -
  let ?n = "length (fl_history f)"
  have "sound_cd (version ?f v)" if "v < Suc ?n" for v
    using that assms(1,2) by (cases "v = ?n") (simp_all add: version_append history_ok_def)
  moreover have "told_step (counted ?f (Suc v)) (version ?f v) (version ?f (Suc v)) \<and>
      (\<forall>u pi. fmlookup (counted ?f (Suc v)) u = Some pi \<longrightarrow> pi \<in> set (fl_published f) \<and> pi_UID pi = u)" if "v < ?n" for v
  proof (cases "Suc v = ?n")
    case True
    then have "version ?f v = fst (last (fl_history f))"
      using that version_last [OF assms(1)] by (metis version_append(1) diff_Suc_1)
    then show ?thesis using assms(3,4) version_append(3,4) [of f "(cd', act)"] True by simp
  next
    case False
    then have "Suc v < ?n" using that by simp
    then show ?thesis using that assms(1) unfolding history_ok_def by (simp add: version_append)
  qed
  ultimately show ?thesis by (simp add: history_ok_def)
qed

lemma follows_append:
  assumes "follows resolve f u r x"
  shows "follows resolve (f\<lparr>fl_history := fl_history f @ [e]\<rparr>) u r x"
proof -
  have v: "version (f\<lparr>fl_history := fl_history f @ [e]\<rparr>) v = version f v" if "v \<le> r" for v
    using that followsD(1) [OF assms] by (simp add: version_append)
  then have "acknowledged (f\<lparr>fl_history := fl_history f @ [e]\<rparr>) b r x pi = acknowledged f b r x pi" for b pi
    unfolding acknowledged_def by auto
  with v show ?thesis using assms followsD(2) [OF assms] unfolding follows_def by simp
qed

lemma fleet_append:
  assumes "fleet_ok resolve f" and "sound_cd cd'" and "told_step act (fst (last (fl_history f))) cd'"
    and "\<And>u pi. fmlookup act u = Some pi \<Longrightarrow> pi \<in> set (fl_published f) \<and> pi_UID pi = u"
  shows "fleet_ok resolve (f\<lparr>fl_history := fl_history f @ [(cd', act)]\<rparr>)"
  using assms history_append [OF _ assms(2-4)] follows_append unfolding fleet_ok_def by fastforce

text \<open>What the sentinel reads of the proxies, and counts, they have published.\<close>

lemma unmarshal_published:
  assumes "unmarshalAll ps = Inr is" and "list_all (\<lambda>kv. kv_Value kv \<in> JSON ` P) ps"
  shows "set is \<subseteq> P"
  using assms by (induction ps arbitrary: "is") (auto split: sum.splits bytes.splits)

lemma read_published:
  assumes "GetProxiesInfo (\<lambda>_ _. Inr pinfos) path () = Inr pis"
    and "list_all (\<lambda>kv. kv_Value kv \<in> JSON ` P) pinfos"
  shows "fmlookup pis u = Some pi \<Longrightarrow> pi \<in> P \<and> pi_UID pi = u"
proof -
  from assms(1) obtain "is" where r: "unmarshalAll pinfos = Inr is" "pis = fold (\<lambda>pi m. fmupd (pi_UID pi) pi m) is fmempty"
    by (auto simp: GetProxiesInfo_def listInfos_def split: sum.splits)
  have "fmpred (\<lambda>u pi. pi \<in> P \<and> pi_UID pi = u) (fold (\<lambda>pi m. fmupd (pi_UID pi) pi m) is m)"
    if "set is \<subseteq> P" "fmpred (\<lambda>u pi. pi \<in> P \<and> pi_UID pi = u) m" for m
    using that by (induction "is" arbitrary: m) (simp_all add: fmpred_upd)
  from this [OF unmarshal_published [OF r(1) assms(2)], of fmempty] r(2)
  show "fmlookup pis u = Some pi \<Longrightarrow> pi \<in> P \<and> pi_UID pi = u" by (auto dest: fmpredD)
qed

lemma counted_read: "fmlookup (countedProxies env s pis) u = Some pi \<Longrightarrow> fmlookup pis u = Some pi"
  unfolding countedProxies_def activeProxiesInfos_def Let_def snd_conv by (simp split: if_split_asm)

section \<open>A step of one proxy\<close>

lemma version_cong:
  assumes "fl_history f' = fl_history f"
  shows "version f' = version f" and "counted f' = counted f" and "acknowledged f' = acknowledged f"
  using assms by (simp_all add: version_def counted_def acknowledged_def fun_eq_iff)

lemma history_proxy:
  assumes "history_ok f" and "fl_history f' = fl_history f" and "set (fl_published f) \<subseteq> set (fl_published f')"
  shows "history_ok f'"
  unfolding history_ok_def assms(2) version_cong [OF assms(2)]
  using assms(1) [unfolded history_ok_def] assms(3) by blast

lemma follows_cong:
  assumes "follows resolve f u r x" and "fl_history f' = fl_history f" and "fl_proxies f' u = fl_proxies f u"
    and "\<And>pi. pi \<in> set (fl_published f') \<Longrightarrow> pi_UID pi = u \<Longrightarrow> pi \<in> set (fl_published f)"
  shows "follows resolve f' u r x"
  unfolding follows_def assms(2,3) version_cong [OF assms(2)]
  using assms(1) [unfolded follows_def] assms(4) by blast

lemma follows_quiet:
  assumes "follows resolve f u r x" and "fl_history f' = fl_history f" and "fl_published f' = fl_published f"
    and "px_cd (fl_proxies f' u) \<in> {None, px_cd (fl_proxies f u)}"
    and "forwards (px_checker (fl_proxies f' u)) \<in> {None, forwards (px_checker (fl_proxies f u))}"
  shows "follows resolve f' u r x"
proof -
  have "acknowledged f (forwards (px_checker (fl_proxies f' u)) \<noteq> None) r x pi"
    if "acknowledged f (forwards (px_checker (fl_proxies f u)) \<noteq> None) r x pi" for pi
    using that assms(5) by (auto simp: acknowledged_def)
  then show ?thesis
    unfolding follows_def assms(2,3) version_cong [OF assms(2)]
    using assms(1) [unfolded follows_def] assms(4,5) by (metis insert_iff option.distinct(1) singletonD)
qed

lemma proxy_step_uid:
  assumes "proxy_step resolve l x x'"
  shows "cc_uid (px_checker x') = cc_uid (px_checker x)"
  using assms by cases (auto simp: start_keeps(1) send_keeps(1) stop_keeps(1))

text \<open>A step that neither reads, nor publishes, nor begins to forward.\<close>

lemma proxy_step_cases:
  assumes "proxy_step resolve l x x'"
  obtains (reads) r where "l = Reads r" "px_cd x' = read_cd r" "px_checker x' = px_checker x"
  | (publishes) info ttl res g k where "l = Puts info ttl res" "px_check x = Some (Publishes g k)" "pi_Generation info = g"
      "pi_UID info = cc_uid (px_checker x)" "px_cd x' = px_cd x" "px_checker x' = px_checker x"
  | (sends) a k where "l = Silent" "px_check x = Some (Sends (Some a) k)" "forwards (px_checker x') \<in> {None, Some a}" "px_cd x' = px_cd x"
  | (quiet) "l = Silent" "px_cd x' \<in> {None, px_cd x}" "forwards (px_checker x') \<in> {None, forwards (px_checker x)}"
  using assms
proof cases
  case (check_sends dest k c')
  then show ?thesis using forwards_send [OF check_sends(4)] sends quiet by (cases dest) (auto split: if_splits)
next
  case (timer_sends c')
  then show ?thesis using forwards_send [OF timer_sends(4)] quiet by (auto split: if_splits)
next
  case (check_starts k listen c' e)
  then show ?thesis using start_keeps(4) [OF check_starts(4)] quiet by simp
next
  case timer_stops
  then show ?thesis using stop_keeps(4) quiet by simp
next
  case (pollon p p')
  then show ?thesis using pollon_keeps(1) [OF pollon(4,3)] quiet by simp
next
  case (stopped_pollon ps p qs p')
  then show ?thesis using stopped_keeps(1) [OF stopped_pollon(4,3)] quiet by simp
qed (use reads publishes quiet in \<open>auto simp: setProxyInfo_def\<close>)

lemma sound_tells: "sound_cd cd \<Longrightarrow> tells_master cd \<Longrightarrow> proxyMaster cd \<noteq> Some ''''"
  by (auto simp: tells_master_def proxyMaster_def wf_at_def split: option.splits)

text \<open>What a proxy publishes is of the version it has read, and what it forwards to too.\<close>

lemma follows_proxy:
  fixes f :: Fleet
  defines "f' \<equiv> \<lambda>u x' published. f\<lparr>fl_published := published, fl_proxies := (fl_proxies f)(u := x')\<rparr>"
  assumes ok: "fleet_ok resolve f" and fol: "follows resolve f u r x"
    and step: "proxy_step resolve l (fl_proxies f u) x'" and call: "store_call f l published"
  shows "(\<exists>r x. follows resolve (f' u x' published) u r x) \<and> set (fl_published f) \<subseteq> set published \<and>
    (\<forall>pi \<in> set published. pi_UID pi \<noteq> u \<longrightarrow> pi \<in> set (fl_published f))"
proof -
  let ?f = "f' u x' published" and ?x = "fl_proxies f u"
  have f: "fl_history ?f = fl_history f" "fl_published ?f = published" "fl_proxies ?f u = x'" by (simp_all add: f'_def)
  note v = version_cong [OF f(1)] and fD = followsD [OF fol]
  have uid: "cc_uid (px_checker ?x) = u" and ob: "check_obeys resolve ?x" and hist: "history_ok f"
    using ok check_obeys_reachable unfolding fleet_ok_def by blast+
  from step show ?thesis
  proof (cases rule: proxy_step_cases)
    case (reads res)
    have pub: "published = fl_published f" using call reads(1) by (cases res) auto
    show ?thesis
    proof (cases "px_cd x'")
      case None
      then have "follows resolve ?f u r x" by (intro follows_quiet [OF fol f(1)]) (use f pub reads(3) in auto)
      then show ?thesis using pub by blast
    next
      case (Some cd)
      let ?n = "length (fl_history f) - 1"
      have n: "?n < length (fl_history f)" "r \<le> ?n" "cd = version f ?n"
        using Some reads(1,2) call fD(1) version_last [OF hist] by (auto simp: read_cd_def split: sum.splits option.splits)
      have "acknowledged f b ?n x pi" if "acknowledged f b r x pi" for b pi
        using that n(2) by (auto simp: acknowledged_def intro: order_trans)
      then have "follows resolve ?f u ?n x"
        unfolding follows_def v f using n fD pub reads(3) Some by auto
      then show ?thesis using pub by blast
    qed
  next
    case (publishes info ttl res g k)
    have "obeys resolve u (px_cd ?x) (Publishes g k) (forwards (px_checker ?x) \<noteq> None)"
      using ob publishes(2) uid unfolding check_obeys_def by simp
    then have cd: "g = proxyGeneration (version f r)" "forwards (px_checker ?x) \<noteq> None \<Longrightarrow> tells_master (version f r)"
      using fD(3) by auto
    have "sound_cd (version f r)" using hist fD(1) by (simp add: history_ok_def)
    then have "acknowledged f (forwards (px_checker ?x) \<noteq> None) r x info"
      using cd publishes(3) sound_tells unfolding acknowledged_def by (intro exI [of _ r]) auto
    moreover have pub: "published = info # fl_published f \<or> published = fl_published f"
      using call publishes(1) by (cases res) auto
    ultimately have "follows resolve ?f u r x"
      unfolding follows_def v f using fD publishes(5,6) by auto
    then show ?thesis using pub uid publishes(4) by auto
  next
    case (sends a k)
    have "obeys resolve u (px_cd ?x) (Sends (Some a) k) (forwards (px_checker ?x) \<noteq> None)"
      using ob sends(2) uid unfolding check_obeys_def by simp
    then have "may_forward resolve u (version f r) a" using fD(3) by auto
    moreover have pub: "published = fl_published f" using call sends(1) by simp
    moreover have "acknowledged f b r r pi" if "pi \<in> set (fl_published f)" "pi_UID pi = u" for b pi
      using fD(5) [OF that] by (auto simp: acknowledged_def)
    ultimately have "follows resolve ?f u r r"
      unfolding follows_def v f using fD(1,3) sends(3,4) by auto
    then show ?thesis using pub by blast
  next
    case quiet
    have pub: "published = fl_published f" using call quiet(1) by simp
    have "follows resolve ?f u r x" by (rule follows_quiet [OF fol f(1)]) (use f pub quiet in auto)
    then show ?thesis using pub by blast
  qed
qed

lemma fleet_proxy:
  assumes ok: "fleet_ok resolve f" and step: "proxy_step resolve l (fl_proxies f u) x'" and call: "store_call f l published"
  shows "fleet_ok resolve (f\<lparr>fl_published := published, fl_proxies := (fl_proxies f)(u := x')\<rparr>)" (is "fleet_ok resolve ?f")
proof -
  obtain r x where "follows resolve f u r x" using ok unfolding fleet_ok_def by blast
  note u = follows_proxy [OF ok this step call]
  have pr: "cc_uid (px_checker (fl_proxies f w)) = w" "proxy_reachable resolve (fl_proxies f w)" for w
    using ok unfolding fleet_ok_def by blast+
  have "\<exists>r x. follows resolve ?f w r x" for w
  proof (cases "w = u")
    case True
    then show ?thesis using u by blast
  next
    case False
    obtain r x where "follows resolve f w r x" using ok unfolding fleet_ok_def by blast
    then have "follows resolve ?f w r x" by (rule follows_cong) (use u False in auto)
    then show ?thesis by blast
  qed
  moreover have "cc_uid (px_checker (fl_proxies ?f w)) = w" "proxy_reachable resolve (fl_proxies ?f w)" for w
    using pr proxy_step_uid [OF step] proxy_reachable.step [OF pr(2) step] by auto
  moreover have "history_ok ?f" by (rule history_proxy [of f]) (use ok u in \<open>auto simp: fleet_ok_def\<close>)
  ultimately show ?thesis unfolding fleet_ok_def by blast
qed

section \<open>Every step keeps the invariant\<close>

lemma fleet_ok_step:
  assumes "fleet_step resolve f f'" and ok: "fleet_ok resolve f"
  shows "fleet_ok resolve f'"
proof -
  have hist: "history_ok f" using ok unfolding fleet_ok_def by blast
  then have sound: "sound_cd (fst (last (fl_history f)))" using version_last [OF hist] by (simp add: history_ok_def)
  from assms(1) show ?thesis
  proof cases
    case (sentinel cd inp pair env kinfos path pinfos pis s s' cd')
    have k: "infos_ok kis" if "ci_keepersInfo inp = Inr kis" for kis using that sentinel(5) by (simp add: GetKeepersInfo_ok)
    have wf: "sound_cd cd" using sound sentinel(2) by simp
    from check_leads [OF sentinel(3,9)] obtain s0 kis pis' where
      l: "leaderCheck env s0 cd pair (s_leadershipCount s) kis pis' = Inr (s', Some (cd', Some pair))" "ci_keepersInfo inp = Inr kis"
      by blast
    have "sound_cd (json_ClusterData cd')"
      by (rule wf_json [OF wf_sound [OF wf_leaderCheck [OF l(1) wf sentinel(4) k [OF l(2)]]]])
    moreover have "told_step (countedProxies env s pis) cd (json_ClusterData cd')"
      using check_counted [OF sentinel(3,9) wf k sentinel(7)] told_step_cong [OF refl told_json] by blast
    moreover have "GetProxiesInfo (\<lambda>_ _. Inr pinfos) path () = Inr pis" using sentinel(6,7) by simp
    from read_published [OF this sentinel(8)] counted_read
    have "fmlookup (countedProxies env s pis) u = Some pi \<Longrightarrow> pi \<in> set (fl_published f) \<and> pi_UID pi = u" for u pi by blast
    ultimately show ?thesis unfolding sentinel(1) sentinel(2) [symmetric] by (rule fleet_append [OF ok])
  next
    case (command cd cmd cd')
    have "sound_cd (json_ClusterData cd')"
      by (rule wf_json [OF wf_runCommand [OF _ _ command(3)]]) (use sound command(2) in simp_all)
    moreover have t: "proxyTold (json_ClusterData cd') = proxyTold cd" using command_told [OF command(3)] told_json by simp
    have "told_step fmempty cd (json_ClusterData cd')" unfolding told_step_def told_parts [OF t] t by simp
    ultimately show ?thesis unfolding command(1) using fleet_append [OF ok, of _ fmempty] command(2) by simp
  next
    case (proxy l u x' published)
    from fleet_proxy [OF ok proxy(2,3)] show ?thesis unfolding proxy(1) .
  qed
qed

lemma fleet_ok_reachable:
  assumes "fleet_reachable resolve f"
  shows "fleet_ok resolve f"
proof -
  from assms obtain cd starts stop where wf: "sound_cd cd" and run: "(fleet_step resolve)\<^sup>*\<^sup>* (fleet_init cd starts stop) f"
    by (auto simp: fleet_reachable_def)
  have "follows resolve (fleet_init cd starts stop) u 0 0" for u
    by (simp add: follows_def fleet_init_def proxy_Start_def NewClusterChecker_def forwards_def)
  then have "fleet_ok resolve (fleet_init cd starts stop)"
    unfolding fleet_ok_def using wf proxy_reachable.start
    by (auto simp: history_ok_def fleet_init_def version_def) (auto simp: proxy_Start_def NewClusterChecker_def)
  with run show ?thesis by (induction rule: rtranclp_induct) (auto intro: fleet_ok_step)
qed

section \<open>No connection to a former master\<close>

text \<open>The \<open>w\<close>-th cluster data told the proxies a master after there had been none.\<close>

definition publishes_master :: "Fleet \<Rightarrow> nat \<Rightarrow> bool" where
  "publishes_master f w \<longleftrightarrow> w < length (fl_history f) \<and>
     proxyMaster (version f (w - 1)) = Some '''' \<and> proxyMaster (version f w) \<noteq> Some ''''"

text \<open>
  C2. Sentinels and proxies together. In every interleaving of the checks of sentinels, of commands, and of the goroutines of any
  number of proxies (checks, timeout checkers, pollon and its clients), a connection that is open in the pollon proxy in use of a
  proxy, and that pollon has not been told to close, goes to the master that some stored cluster data told this proxy, and since
  then no cluster data has told the proxies a new master in a check that counted this proxy as active: when a master is published
  after a failover, all proxies that the sentinel has counted have at least told pollon to close their connections to the former
  one. (For fewer than \<open>2^64\<close> changes, after which generations repeat. A pollon proxy that a timeout checker has
  stopped is not in use any more; without \<^verbatim>\<open>stopListening\<close> there is none. UIDs drawn at random are taken to
  be new.)
\<close>

theorem no_connection_to_former_master:
  assumes "fleet_reachable resolve f" and "length (fl_history f) < 2 ^ 64"
    and "cc_pp (px_checker (fl_proxies f u)) = Some p" and "a \<in> set (pol_conns p)" and "pol_received p \<in> {None, Some (Some a)}"
  shows "\<exists>v < length (fl_history f). may_forward resolve u (version f v) a \<and>
    (\<forall>w > v. publishes_master f w \<longrightarrow> fmlookup (counted f w) u = None)"
proof -
  have ok: "fleet_ok resolve f" by (rule fleet_ok_reachable [OF assms(1)])
  then obtain r x where hist: "history_ok f" and "proxy_reachable resolve (fl_proxies f u)" and fol: "follows resolve f u r x"
    unfolding fleet_ok_def by blast
  then have "conns_ok p" using proc_ok_reachable assms(3) by (auto simp: proc_ok_def all_conns_ok_def)
  then have fw: "forwards (px_checker (fl_proxies f u)) = Some a"
    using assms(3-5) by (auto simp: conns_ok_def forwards_def pol_next_def)
  note fD = followsD [OF fol]
  have mf: "may_forward resolve u (version f x) a" by (rule fD(4) [OF fw])
  have x: "x < length (fl_history f)" using fD(1,2) by simp
  then have "sound_cd (version f x)" using hist by (simp add: history_ok_def)
  moreover have "tells_master (version f x)" using mf by (auto simp: may_forward_def tells_master_def)
  ultimately have m: "proxyMaster (version f x) \<noteq> Some ''''" by (rule sound_tells)
  have "fmlookup (counted f w) u = None" if w: "x < w" "publishes_master f w" for w
  proof (rule ccontr)
    assume "fmlookup (counted f w) u \<noteq> None"
    then obtain pi where pi: "fmlookup (counted f w) u = Some pi" by blast
    have s: "Suc (w - 1) = w" "w < length (fl_history f)" using w by (auto simp: publishes_master_def)
    then have t: "told_step (counted f w) (version f (w - 1)) (version f w)" "pi \<in> set (fl_published f)" "pi_UID pi = u"
      using hist pi unfolding history_ok_def by metis+
    have g: "pi_Generation pi = proxyGeneration (version f (w - 1))"
      using t(1) w(2) pi unfolding told_step_def publishes_master_def by blast
    from fD(5) [OF t(2,3)] fw obtain v where
      v: "pi_Generation pi = proxyGeneration (version f v)" "proxyMaster (version f v) = Some '''' \<Longrightarrow> v \<le> x" "v \<le> r"
      by (auto simp: acknowledged_def)
    have e: "proxyMaster (version f (w - 1)) = Some ''''" using w(2) by (simp add: publishes_master_def)
    have vm: "proxyMaster (version f v) = Some ''''"
    proof (cases "v \<le> w - 1")
      case True
      then show ?thesis using generation_master(2) [OF hist assms(2), of v v "w - 1"] g v(1) e s by simp
    next
      case False
      then show ?thesis using generation_master(2) [OF hist assms(2), of "w - 1" v v] g v(1,3) e fD(1) by simp
    qed
    then have "v \<le> x" by (rule v(2))
    then have "proxyMaster (version f x) = proxyMaster (version f v)"
      using generation_master(1) [OF hist assms(2), of v x "w - 1"] g v(1) w(1) s by simp
    then show False using m vm by simp
  qed
  with mf x show ?thesis by blast
qed

section \<open>An execution\<close>

text \<open>
  The proxies have been told that there is no master. A proxy acknowledges it, the next check publishes the master, the proxy
  reads it and a client connects.
\<close>

definition told_sentinel :: Sentinel where
  "told_sentinel = example_sentinel\<lparr>s_keeperErrorTimers := fmempty, s_dbErrorTimers := fmempty\<rparr>"

definition told_pair :: "ClusterData KVPair" where
  "told_pair = \<lparr>kv_Key = ''stolon/clusterdata'', kv_Value = JSON fenced_cd, kv_LastIndex = 1\<rparr>"

definition p1_info :: ProxyInfo where
  "p1_info = \<lparr>pi_InfoUID = ''i'', pi_UID = ''p1'', pi_Generation = 3\<rparr>"

definition told_input :: CheckInput where
  "told_input = \<lparr>ci_cd = Inr (Some (fenced_cd, told_pair)), ci_setSentinelInfo = Inr (),
     ci_keepersInfo = GetKeepersInfo (\<lambda>_ _. Inr []) ''stolon'' (),
     ci_proxiesInfo = GetProxiesInfo (\<lambda>_ _. Inr [\<lparr>kv_Key = ''p1'', kv_Value = JSON p1_info, kv_LastIndex = 1\<rparr>]) ''stolon'' ()\<rparr>"

definition told_result where
  "told_result = projr (clusterSentinelCheck example_env told_sentinel told_input)"

definition told_cd :: ClusterData where "told_cd = json_ClusterData (fst (the (snd told_result)))"

definition told_counted :: ProxiesInfo where
  "told_counted = countedProxies example_env told_sentinel (projr (ci_proxiesInfo told_input))"

definition p1_check :: "ClusterData \<Rightarrow> ClusterChecker \<Rightarrow> ProxyInfo list \<Rightarrow> ClusterChecker \<times> ProxyInfo list \<times> unit res" where
  "p1_check cd = runCheck (Inr ()) example_put ''i'' (Check example_resolve ''p1'' (Inr (Some (cd, example_pair))))"

definition p1_closed :: ClusterChecker where "p1_closed = fst (p1_check fenced_cd example_checker [])"

definition p1_open :: ClusterChecker where "p1_open = fst (p1_check told_cd p1_closed [p1_info])"

definition p1_published :: "ProxyInfo list" where "p1_published = fst (snd (p1_check told_cd p1_closed [p1_info]))"

text \<open>The process of the proxy when it has read \<open>cd\<close>, and when this check is done.\<close>

definition p1_reads :: "ClusterData \<Rightarrow> ClusterChecker \<Rightarrow> ProxyProc" where
  "p1_reads cd c = (reading_run cd)\<lparr>px_checker := c\<rparr>"

definition p1_ends :: "ClusterData \<Rightarrow> ClusterChecker \<Rightarrow> ProxyProc" where
  "p1_ends cd c = (reading_run cd)\<lparr>px_checker := c, px_check := Some (Returns (Inr ()))\<rparr>"

definition f0 :: Fleet where "f0 = fleet_init fenced_cd (\<lambda>_. 0) (\<lambda>_. True)"

definition f1 :: Fleet where
  "f1 = f0\<lparr>fl_published := [p1_info], fl_proxies := (fl_proxies f0)(''p1'' := p1_ends fenced_cd p1_closed)\<rparr>"

definition f2 :: Fleet where "f2 = f1\<lparr>fl_history := fl_history f1 @ [(told_cd, told_counted)]\<rparr>"

definition f3 :: Fleet where
  "f3 = f2\<lparr>fl_published := p1_published, fl_proxies := (fl_proxies f2)(''p1'' := p1_ends told_cd p1_open)\<rparr>"

definition f4 :: Fleet where
  "f4 = f3\<lparr>fl_proxies := (fl_proxies f3)(''p1'' :=
     p1_ends told_cd (p1_open\<lparr>cc_pp := Some (pollon_proxyConn (the (cc_pp p1_open)))\<rparr>))\<rparr>"

lemma told_check:
  "clusterSentinelCheck example_env told_sentinel told_input =
     Inr (fst told_result, Some (fst (the (snd told_result)), Some told_pair))"
proof -
  have "is_ok (clusterSentinelCheck example_env told_sentinel told_input) \<and>
     snd (projr (clusterSentinelCheck example_env told_sentinel told_input)) \<noteq> None" by code_simp
  then obtain s' cd' prev where r: "clusterSentinelCheck example_env told_sentinel told_input = Inr (s', Some (cd', prev))"
    by (auto simp: is_ok_iff)
  have i: "ci_cd told_input = Inr (Some (fenced_cd, told_pair))" by (simp add: told_input_def)
  from check_leads [OF i r] obtain s0 kis pis where
    "leaderCheck example_env s0 fenced_cd told_pair (s_leadershipCount told_sentinel) kis pis = Inr (s', Some (cd', prev))"
    by blast
  then have "prev = Some told_pair" by (rule leaderCheck_put)
  then show ?thesis using r by (simp add: told_result_def)
qed

text \<open>Runs of one proxy are runs of the fleet.\<close>

lemma fleet_calls:
  assumes "(calls resolve example_put)\<^sup>*\<^sup>* (fl_proxies f u, fl_published f) (x', st')"
  shows "(fleet_step resolve)\<^sup>*\<^sup>* f (f\<lparr>fl_published := st', fl_proxies := (fl_proxies f)(u := x')\<rparr>)"
  using assms
proof (induction "(x', st')" arbitrary: x' st' rule: rtranclp_induct)
  case base
  then show ?case by (cases f) (simp add: fun_upd_idem)
next
  case (step y)
  obtain x1 st1 where y: "y = (x1, st1)" by fastforce
  let ?f = "f\<lparr>fl_published := st1, fl_proxies := (fl_proxies f)(u := x1)\<rparr>"
  from step(2) obtain l where "proxy_step resolve l (fl_proxies ?f u) x'" "store_call ?f l st'"
    unfolding y by (auto simp: calls_def example_put_def)
  from fleet_step.proxy [OF this] have "fleet_step resolve ?f (f\<lparr>fl_published := st', fl_proxies := (fl_proxies f)(u := x')\<rparr>)"
    by simp
  with step(3) [OF y] show ?case by (rule rtranclp.rtrancl_into_rtrancl)
qed

lemma fleet_reads:
  assumes "fst (last (fl_history f)) = cd" and "fl_proxies f u = x" and "px_check x = None" and "\<not> px_ok x" and "cc_uid (px_checker x) = ''p1''"
  shows "fleet_step example_resolve f (f\<lparr>fl_proxies := (fl_proxies f)(u := x\<lparr>px_check :=
    Some (Check example_resolve ''p1'' (Inr (Some (cd, example_pair)))), px_cd := Some cd\<rparr>)\<rparr>)"
proof -
  have "proxy_step example_resolve (Reads (Inr (Some (cd, example_pair)))) (fl_proxies f u)
     (x\<lparr>px_check := Some (Check example_resolve ''p1'' (Inr (Some (cd, example_pair)))), px_cd := Some cd\<rparr>)"
    using proxy_step.check_reads [OF assms(3,4), of example_resolve "Inr (Some (cd, example_pair))"] assms(2,5) by (simp add: read_cd_def)
  from fleet_step.proxy [OF this, of "fl_published f"] assms(1) show ?thesis by (cases f) simp
qed

lemma fleet_silent:
  assumes "proxy_step resolve Silent (fl_proxies f u) x'"
  shows "fleet_step resolve f (f\<lparr>fl_proxies := (fl_proxies f)(u := x')\<rparr>)"
  using fleet_step.proxy [OF assms, of "fl_published f"] by (cases f) simp

lemma p1_check_run:
  assumes "fl_proxies f ''p1'' = p1_reads cd c" and "p1_check cd c (fl_published f) = (c', published, Inr ())"
  shows "(fleet_step example_resolve)\<^sup>*\<^sup>* f (f\<lparr>fl_published := published, fl_proxies := (fl_proxies f)(''p1'' := p1_ends cd c')\<rparr>)"
proof -
  have "px_checker (p1_reads cd c) = c"
    "px_check (p1_reads cd c) = Some (Check example_resolve ''p1'' (Inr (Some (cd, example_pair))))"
    "(p1_reads cd c)\<lparr>px_checker := c', px_check := Some (Returns (Inr ()))\<rparr> = p1_ends cd c'"
    by (simp_all add: p1_reads_def p1_ends_def reading_run_def)
  with runCheck_run [OF assms(2) [unfolded p1_check_def], of "p1_reads cd c" example_resolve]
  show ?thesis by (intro fleet_calls) (simp add: assms(1))
qed

lemma f_steps:
  "(fleet_step example_resolve)\<^sup>*\<^sup>* f0 f1" "fleet_step example_resolve f1 f2" "(fleet_step example_resolve)\<^sup>*\<^sup>* f2 f3"
  "fleet_step example_resolve f3 f4"
proof -
  let ?run = "(fleet_step example_resolve)\<^sup>*\<^sup>*"
  have "snd (p1_check fenced_cd example_checker []) = ([p1_info], Inr ())" by code_simp
  then have c: "p1_check fenced_cd example_checker [] = (p1_closed, [p1_info], Inr ())" by (simp add: p1_closed_def prod_eq_iff)
  let ?g = "f0\<lparr>fl_proxies := (fl_proxies f0)(''p1'' := p1_reads fenced_cd example_checker)\<rparr>"
  have "fleet_step example_resolve f0 ?g"
    using fleet_reads [of f0 fenced_cd "''p1''"]
    by (simp add: f0_def fleet_init_def p1_reads_def reading_run_def proxy_Start_def example_checker_def NewClusterChecker_def)
  also have "?run ?g f1" using p1_check_run [of ?g fenced_cd example_checker p1_closed "[p1_info]"] c
    by (simp add: f1_def) (simp add: f0_def fleet_init_def)
  finally show "?run f0 f1" .
  have pis: "ci_proxiesInfo told_input = Inr (projr (ci_proxiesInfo told_input))" by code_simp
  have f1: "fst (last (fl_history f1)) = fenced_cd" "fl_published f1 = [p1_info]"
    by (simp_all add: f1_def f0_def fleet_init_def)
  have i: "ci_cd told_input = Inr (Some (fenced_cd, told_pair))" "ci_keepersInfo told_input = GetKeepersInfo (\<lambda>_ _. Inr []) ''stolon'' ()"
    "ci_proxiesInfo told_input = GetProxiesInfo (\<lambda>_ _. Inr [\<lparr>kv_Key = ''p1'', kv_Value = JSON p1_info, kv_LastIndex = 1\<rparr>]) ''stolon'' ()"
    by (simp_all add: told_input_def)
  have fr: "fresh_uids example_env fenced_cd" using example_cd_fresh by (simp add: fresh_uids_def fenced_cd_def)
  from fleet_step.sentinel [OF f1(1) i(1) fr i(2,3) pis _ told_check, of example_resolve] f1(2)
  show "fleet_step example_resolve f1 f2" by (simp add: f2_def told_cd_def told_counted_def)
  have "is_ok (snd (snd (p1_check told_cd p1_closed [p1_info])))" by code_simp
  then have d: "p1_check told_cd p1_closed [p1_info] = (p1_open, p1_published, Inr ())"
    by (simp add: p1_open_def p1_published_def prod_eq_iff is_ok_iff)
  let ?x = "(p1_ends fenced_cd p1_closed)\<lparr>px_check := None, px_cd := None, px_ok := True\<rparr>"
  let ?y = "?x\<lparr>px_ok := False, px_timer := Armed DefaultProxyTimeoutInterval\<rparr>"
  let ?h = "\<lambda>x. f2\<lparr>fl_proxies := (fl_proxies f2)(''p1'' := x)\<rparr>"
  have x: "px_check (p1_ends fenced_cd p1_closed) = Some (Returns (Inr ()))" "px_now (p1_ends fenced_cd p1_closed) = 0"
    "px_timer (p1_ends fenced_cd p1_closed) = Armed DefaultProxyTimeoutInterval" "px_checker (p1_ends fenced_cd p1_closed) = p1_closed"
    "fl_proxies f2 ''p1'' = p1_ends fenced_cd p1_closed"
    by (simp_all add: p1_ends_def reading_run_def proxy_Start_def f2_def f1_def)
  have r1: "fleet_step example_resolve f2 (?h ?x)"
    using fleet_silent [of example_resolve f2 "''p1''"] proxy_step.check_returns [OF x(1), of example_resolve] x(5) by (simp add: is_ok_def)
  have r2: "fleet_step example_resolve (?h ?x) (?h ?y)"
    using fleet_silent [of example_resolve "?h ?x" "''p1''" ?y] proxy_step.ok_reported [of ?x example_resolve] x(2,3) by simp
  have r3: "fleet_step example_resolve (?h ?y) (?h (p1_reads told_cd p1_closed))"
  proof -
    have "cc_uid p1_closed = ''p1''" by code_simp
    moreover have "?y\<lparr>px_check := Some (Check example_resolve ''p1'' (Inr (Some (told_cd, example_pair)))), px_cd := Some told_cd\<rparr> =
        p1_reads told_cd p1_closed"
      by (simp add: p1_reads_def p1_ends_def reading_run_def proxy_Start_def)
    ultimately show ?thesis using fleet_reads [of "?h ?y" told_cd "''p1''" ?y] x(4) by (simp add: f2_def)
  qed
  have r4: "?run (?h (p1_reads told_cd p1_closed)) f3"
    using p1_check_run [of "?h (p1_reads told_cd p1_closed)" told_cd p1_closed p1_open p1_published] d
    by (simp add: f3_def) (simp add: f2_def f1_def)
  show "?run f2 f3"
    by (rule converse_rtranclp_into_rtranclp [OF r1 converse_rtranclp_into_rtranclp [OF r2 converse_rtranclp_into_rtranclp [OF r3 r4]]])
  have "cc_pp p1_open \<noteq> None" by code_simp
  then have "cc_pp (px_checker (fl_proxies f3 ''p1'')) = Some (the (cc_pp p1_open))" by (simp add: f3_def p1_ends_def)
  from fleet_silent [OF proxy_step.pollon [OF this pollon_step.accepted]] show "fleet_step example_resolve f3 f4"
    by (simp add: f4_def f3_def p1_ends_def reading_run_def proxy_Start_def)
qed

lemma f4_reachable: "fleet_reachable example_resolve f4"
proof -
  have "(fleet_step example_resolve)\<^sup>*\<^sup>* f0 f4" using f_steps by (meson r_into_rtranclp rtranclp_trans)
  moreover have "sound_cd fenced_cd" by code_simp
  ultimately show ?thesis unfolding fleet_reachable_def f0_def by blast
qed

lemma f4_history: "fl_history f4 = [(fenced_cd, fmempty), (told_cd, told_counted)]"
  by (simp add: f4_def f3_def f2_def f1_def f0_def fleet_init_def)

theorem no_connection_to_former_master_witness:
  "may_forward example_resolve ''p1'' (version f4 1) '':'' \<and> publishes_master f4 1 \<and> fmlookup (counted f4 1) ''p1'' \<noteq> None"
proof -
  have "cc_pp p1_open \<noteq> None \<and> pol_conns (pollon_proxyConn (the (cc_pp p1_open))) = ['':''] \<and>
      pol_received (pollon_proxyConn (the (cc_pp p1_open))) = None" by code_simp
  then obtain p where p: "cc_pp (px_checker (fl_proxies f4 ''p1'')) = Some p" "'':'' \<in> set (pol_conns p)" "pol_received p \<in> {None, Some (Some '':'')}"
    by (auto simp: f4_def p1_ends_def)
  have m: "proxyMaster fenced_cd = Some ''''" "proxyMaster told_cd \<noteq> Some ''''" "fmlookup told_counted ''p1'' \<noteq> None" by code_simp+
  then have w: "publishes_master f4 1" "fmlookup (counted f4 1) ''p1'' \<noteq> None"
    by (simp_all add: publishes_master_def version_def counted_def f4_history)
  have "length (fl_history f4) < 2 ^ 64" by (simp add: f4_history)
  from no_connection_to_former_master [OF f4_reachable this p] obtain v where
    v: "v < length (fl_history f4)" "may_forward example_resolve ''p1'' (version f4 v) '':''"
      "\<forall>w > v. publishes_master f4 w \<longrightarrow> fmlookup (counted f4 w) ''p1'' = None" by blast
  then have "v \<noteq> 0" using w by auto
  then have "v = 1" using v(1) by (simp add: f4_history)
  then show ?thesis using v(2) w by simp
qed

end
