(* ===== verification/Files.thy ===== *)
theory Files
  imports Keeper_Run
begin

text \<open>
  The files of a keeper: \<^verbatim>\<open>WriteFileAtomic\<close> of \<^verbatim>\<open>internal/common/common.go\<close> and the
  local states that \<^verbatim>\<open>cmd/keeper/cmd/keeper.go\<close> saves and loads with it. A file is written to a temporary
  file that then takes its place, so that whenever the keeper dies, or the machine with it, a restart finds either the old or the
  new state, and never a part of one.

  A file system is a map from paths to files; what was not synced yet is arbitrary after a crash of the machine. Every call of the
  operating system may fail.
\<close>

section \<open>Writing a file atomically\<close>

record 'c File =
  fi_content :: 'c
  fi_synced :: bool
  fi_mode :: nat

type_synonym 'c fs = "string \<Rightarrow> 'c File option"

text \<open>
  The results of the calls: the random suffix of \<^verbatim>\<open>ioutil.TempFile\<close>, then an error or none of each other
  call; the error of the removal is ignored by the code.
\<close>

record Calls =
  ca_tempFile :: "string res"
  ca_sync :: "unit res"
  ca_close :: "unit res"
  ca_chmod :: "unit res"
  ca_rename :: "unit res"
  ca_remove :: "unit res"

text \<open>\<^verbatim>\<open>ioutil.TempFile\<close> creates a file that did not exist, and gives up after some attempts.\<close>

definition TempFile :: "Calls \<Rightarrow> string \<Rightarrow> 'c fs \<Rightarrow> string res" where
  "TempFile ca filename st =
     bindE (ca_tempFile ca) (\<lambda>suffix.
       if suffix = '''' \<or> st (filename @ suffix) \<noteq> None then Inl (Error ''file exists'') else Inr (filename @ suffix))"

text \<open>The first error, as in \<^verbatim>\<open>if closeErr := f.Close(); err == nil { err = closeErr }\<close>.\<close>

definition firstErr :: "unit res \<Rightarrow> unit res \<Rightarrow> unit res" where
  "firstErr err e = (case err of Inl x \<Rightarrow> Inl x | Inr _ \<Rightarrow> e)"

text \<open>
  All the states of the file system the call goes through, and its result. \<open>blank\<close> is the content of a new file;
  \<open>wr\<close> is what \<open>writeFunc\<close> has put into the file when it returns, with its error.
\<close>

definition WriteFileAtomicFunc :: "'c \<Rightarrow> Calls \<Rightarrow> string \<Rightarrow> nat \<Rightarrow> 'c \<times> unit res \<Rightarrow> 'c fs \<Rightarrow> 'c fs list \<times> unit res" where
  "WriteFileAtomicFunc blank ca filename perm wr st =
     (case TempFile ca filename st of
        Inl e \<Rightarrow> ([st], Inl e)
      | Inr f \<Rightarrow>
          let st1 = st(f \<mapsto> \<lparr>fi_content = blank, fi_synced = False, fi_mode = 384\<rparr>);
              st2 = st1(f \<mapsto> \<lparr>fi_content = fst wr, fi_synced = False, fi_mode = 384\<rparr>);
              err = snd wr;
              st3 = (if is_ok err \<and> is_ok (ca_sync ca) then st2(f \<mapsto> \<lparr>fi_content = fst wr, fi_synced = True, fi_mode = 384\<rparr>) else st2);
              err = (if is_ok err then ca_sync ca else err);
              err = firstErr err (ca_close ca);
              st4 = (if is_ok (ca_chmod ca) then st3(f := map_option (\<lambda>x. x\<lparr>fi_mode := perm\<rparr>) (st3 f)) else st3);
              err = firstErr err (ca_chmod ca);
              st5 = (if is_ok err \<and> is_ok (ca_rename ca) then st4(filename := st4 f, f := None) else st4);
              err = (if is_ok err then ca_rename ca else err);
              st6 = (if \<not> is_ok err \<and> is_ok (ca_remove ca) then st5(f := None) else st5)
          in ([st, st1, st2, st3, st4, st5, st6], err))"

definition WriteFileAtomic :: "'c \<Rightarrow> Calls \<Rightarrow> string \<Rightarrow> nat \<Rightarrow> 'c \<Rightarrow> 'c \<times> unit res \<Rightarrow> 'c fs \<Rightarrow> 'c fs list \<times> unit res" where
  "WriteFileAtomic blank ca filename perm data write st =
     WriteFileAtomicFunc blank ca filename perm (case write of (part, Inl e) \<Rightarrow> (part, Inl e) | (_, Inr u) \<Rightarrow> (data, Inr u)) st"

lemma TempFile_fresh: "TempFile ca filename st = Inr f \<Longrightarrow> f \<noteq> filename \<and> st f = None"
  by (auto simp: TempFile_def bindE_eq_Inr split: if_splits)

lemma firstErr_ok: "is_ok (firstErr a b) \<longleftrightarrow> is_ok a \<and> is_ok b"
  by (cases a) (simp_all add: firstErr_def is_ok_iff)

text \<open>The file at every moment, and what is left at the end.\<close>

lemma write_trace:
  assumes "WriteFileAtomicFunc blank ca filename perm wr st = (sts, res)"
  shows "(\<forall>st' \<in> set sts. st' filename = st filename \<or>
      is_ok (snd wr) \<and> st' filename = Some \<lparr>fi_content = fst wr, fi_synced = True, fi_mode = perm\<rparr>) \<and>
    sts \<noteq> [] \<and> hd sts = st \<and>
    (is_ok res \<longrightarrow> is_ok (snd wr) \<and>
      last sts = st(filename \<mapsto> \<lparr>fi_content = fst wr, fi_synced = True, fi_mode = perm\<rparr>)) \<and>
    (\<not> is_ok res \<longrightarrow> last sts filename = st filename \<and> (is_ok (ca_remove ca) \<longrightarrow> last sts = st))"
proof (cases "TempFile ca filename st")
  case (Inl e)
  then show ?thesis using assms by (auto simp: WriteFileAtomicFunc_def)
next
  case (Inr f)
  note fr = TempFile_fresh [OF Inr]
  show ?thesis
    using assms fr unfolding WriteFileAtomicFunc_def Inr Let_def
    by (auto simp: firstErr_ok fun_eq_iff split: if_splits)
qed

section \<open>A crash\<close>

text \<open>
  After a crash of the machine a file that was not synced may have any content. A change of a directory that had not reached the disk is
  undone, which is a crash at an earlier moment.
\<close>

definition crashed :: "'c fs \<Rightarrow> 'c fs \<Rightarrow> bool" where
  "crashed st st' \<longleftrightarrow>
     (\<forall>n. case st n of None \<Rightarrow> st' n = None | Some f \<Rightarrow> (\<exists>f'. st' n = Some f' \<and> (fi_synced f \<longrightarrow> f' = f)))"

definition durable :: "'c fs \<Rightarrow> string \<Rightarrow> bool" where
  "durable st n \<longleftrightarrow> (\<forall>f. st n = Some f \<longrightarrow> fi_synced f)"

lemma crashed_durable: "crashed st st' \<Longrightarrow> durable st n \<Longrightarrow> st' n = st n"
  unfolding crashed_def durable_def by (drule spec [of _ n]) (auto split: option.splits)

lemma crashed_refl: "crashed st st"
  by (simp add: crashed_def split: option.split)

text \<open>Whenever the machine stops, the file is the old one or the new one.\<close>

lemma write_crash:
  assumes "WriteFileAtomicFunc blank ca filename perm wr st = (sts, res)" and "durable st filename"
    and "st1 \<in> set sts" and "crashed st1 st2"
  shows "st2 filename = st1 filename" and "durable st2 filename"
    and "st2 filename = st filename \<or>
      is_ok (snd wr) \<and> st2 filename = Some \<lparr>fi_content = fst wr, fi_synced = True, fi_mode = perm\<rparr>"
proof -
  have w: "st1 filename = st filename \<or>
      is_ok (snd wr) \<and> st1 filename = Some \<lparr>fi_content = fst wr, fi_synced = True, fi_mode = perm\<rparr>"
    using write_trace [OF assms(1)] assms(3) by blast
  then have d: "durable st1 filename" using assms(2) by (auto simp: durable_def)
  then show e: "st2 filename = st1 filename" by (rule crashed_durable [OF assms(4)])
  show "durable st2 filename" using d e by (simp add: durable_def)
  show "st2 filename = st filename \<or>
      is_ok (snd wr) \<and> st2 filename = Some \<lparr>fi_content = fst wr, fi_synced = True, fi_mode = perm\<rparr>" using w e by simp
qed

section \<open>The local states\<close>

text \<open>What is in the files: the JSON of a state, or something else.\<close>

datatype state_content = KeeperState KeeperLocalState | DBState DBLocalState | OtherContent string

definition keeperLocalStateFilePath :: "string \<Rightarrow> string" where
  "keeperLocalStateFilePath dataDir = Join [dataDir, ''keeperstate'']"

definition dbLocalStateFilePath :: "string \<Rightarrow> string" where
  "dbLocalStateFilePath dataDir = Join [dataDir, ''dbstate'']"

text \<open>
  Loading; \<open>None\<close> if the file does not exist, which the caller does not take for an error. \<open>rd\<close> is the
  error of reading it.
\<close>

definition loadKeeperLocalState :: "unit res \<Rightarrow> string \<Rightarrow> state_content fs \<Rightarrow> KeeperLocalState option res" where
  "loadKeeperLocalState rd dataDir st =
     (case st (keeperLocalStateFilePath dataDir) of
        None \<Rightarrow> Inr None
      | Some f \<Rightarrow> bindE rd (\<lambda>_. case fi_content f of KeeperState s \<Rightarrow> Inr (Some s) | _ \<Rightarrow> Inl (Error ''unmarshal'')))"

definition loadDBLocalState :: "unit res \<Rightarrow> string \<Rightarrow> state_content fs \<Rightarrow> DBLocalState option res" where
  "loadDBLocalState rd dataDir st =
     (case st (dbLocalStateFilePath dataDir) of
        None \<Rightarrow> Inr None
      | Some f \<Rightarrow> bindE rd (\<lambda>_. case fi_content f of DBState s \<Rightarrow> Inr (Some s) | _ \<Rightarrow> Inl (Error ''unmarshal'')))"

text \<open>Saving: the last state of the file system, if the keeper does not die before.\<close>

definition writeKeeperState where
  "writeKeeperState ca write dataDir s st =
     WriteFileAtomic (OtherContent '''') ca (keeperLocalStateFilePath dataDir) 384 (KeeperState s) write st"

definition writeDBState where
  "writeDBState ca write dataDir s st =
     WriteFileAtomic (OtherContent '''') ca (dbLocalStateFilePath dataDir) 384 (DBState s) write st"

text \<open>The parameters of the keeper for its files; the rest are those of \<open>io\<close>.\<close>

definition file_io ::
  "Calls \<Rightarrow> state_content \<times> unit res \<Rightarrow> unit res \<Rightarrow> string \<Rightarrow> state_content fs KeeperIO \<Rightarrow> state_content fs KeeperIO" where
  "file_io ca write rd dataDir io = io\<lparr>
     io_saveDB := (\<lambda>s st. case writeDBState ca write dataDir s st of (sts, r) \<Rightarrow> (last sts, r)),
     io_loadDB := loadDBLocalState rd dataDir,
     io_saveKeeper := (\<lambda>s st. case writeKeeperState ca write dataDir s st of (sts, r) \<Rightarrow> (last sts, r)),
     io_loadKeeper := loadKeeperLocalState rd dataDir\<rparr>"

text \<open>
  C17. Saving the local state of the database is safe against crashes: whichever of the calls fail, after a crash of the machine at
  any moment of \<^verbatim>\<open>saveDBLocalState\<close> a restart loads the state that was saved before or the new one, never a
  part of it. If only the keeper dies, the save that has ended without an error has left the new state, and one that has ended with
  an error the old one. (The directory is not synced, so that a crash of the machine after the save may still take the file system
  back to an earlier moment of it.)
\<close>

theorem local_state_crash_safe:
  assumes "writeDBState ca write dataDir s st = (sts, res)" and "durable st (dbLocalStateFilePath dataDir)"
    and "st1 \<in> set sts" and "crashed st1 st2"
  shows "loadDBLocalState (Inr ()) dataDir st2 \<in> {loadDBLocalState (Inr ()) dataDir st, Inr (Some s)} \<and>
    loadDBLocalState (Inr ()) dataDir (last sts) = (if is_ok res then Inr (Some s) else loadDBLocalState (Inr ()) dataDir st)"
proof -
  let ?n = "dbLocalStateFilePath dataDir"
  define wr where "wr = (case write of (part, Inl e) \<Rightarrow> (part, Inl e) | (_, Inr u) \<Rightarrow> (DBState s, Inr u))"
  have w: "WriteFileAtomicFunc (OtherContent '''') ca ?n 384 wr st = (sts, res)"
    using assms(1) by (simp add: writeDBState_def WriteFileAtomic_def wr_def)
  have ok: "is_ok (snd wr) \<Longrightarrow> fst wr = DBState s" by (auto simp: wr_def is_ok_iff split: prod.splits sum.splits)
  note c = write_crash [OF w assms(2-4)]
  have l: "loadDBLocalState (Inr ()) dataDir st3 = Inr (Some s)"
    if "is_ok (snd wr)" "st3 ?n = Some \<lparr>fi_content = fst wr, fi_synced = True, fi_mode = 384\<rparr>" for st3
    using that ok by (simp add: loadDBLocalState_def)
  have o: "loadDBLocalState (Inr ()) dataDir st3 = loadDBLocalState (Inr ()) dataDir st" if "st3 ?n = st ?n" for st3
    using that by (simp add: loadDBLocalState_def)
  have "loadDBLocalState (Inr ()) dataDir (last sts) = (if is_ok res then Inr (Some s) else loadDBLocalState (Inr ()) dataDir st)"
    using write_trace [OF w] l [of "last sts"] o [of "last sts"] by (cases "is_ok res") auto
  then show ?thesis using c(3) l [of st2] o [of st2] by blast
qed

section \<open>Passwords\<close>

text \<open>
  The password is the whole content of the file; a file that others can read is only warned about (the first result).
  \<open>lstat\<close> gives the mode of a file.
\<close>

definition readPasswordFromFile :: "(string \<Rightarrow> nat res) \<Rightarrow> (string \<Rightarrow> string res) \<Rightarrow> string \<Rightarrow> bool \<times> string res" where
  "readPasswordFromFile lstat readFile filepath =
     (case lstat filepath of
        Inl _ \<Rightarrow> (False, Inl (Error ''unable to read password from file''))
      | Inr mode \<Rightarrow>
          (mode > 384,
           case readFile filepath of
             Inl _ \<Rightarrow> Inl (Error ''unable to read password from file'')
           | Inr pw \<Rightarrow> Inr pw))"

section \<open>A restart\<close>

lemma state_paths: "keeperLocalStateFilePath d \<noteq> dbLocalStateFilePath d"
proof (cases "d = ''''")
  case True
  then show ?thesis by (simp only: keeperLocalStateFilePath_def dbLocalStateFilePath_def) code_simp
next
  case False
  from Clean_snoc [OF this] obtain P where P: "\<And>u. plain u \<Longrightarrow> Clean (d @ CHR ''/'' # u) = P @ u" by blast
  have "plain ''keeperstate''" "plain ''dbstate''" by (simp_all add: plain_def)
  then have "keeperLocalStateFilePath d = P @ ''keeperstate''" "dbLocalStateFilePath d = P @ ''dbstate''"
    using P False by (simp_all add: keeperLocalStateFilePath_def dbLocalStateFilePath_def Join_def)
  then show ?thesis by simp
qed

text \<open>What is on the disk is what is in memory.\<close>

definition in_step :: "string \<Rightarrow> state_content fs PostgresKeeper \<Rightarrow> bool" where
  "in_step dataDir p \<longleftrightarrow>
     loadKeeperLocalState (Inr ()) dataDir (mg_machine (pk_pgm p)) = Inr (Some (pk_keeperLocalState p)) \<and>
     loadDBLocalState (Inr ()) dataDir (mg_machine (pk_pgm p)) = Inr (Some (pk_dbLocalState p))"

lemma write_result:
  assumes "WriteFileAtomic blank ca filename perm data write st = (sts, res)"
  shows "is_ok res \<Longrightarrow> last sts = st(filename \<mapsto> \<lparr>fi_content = data, fi_synced = True, fi_mode = perm\<rparr>)"
    and "\<not> is_ok res \<Longrightarrow> is_ok (ca_remove ca) \<Longrightarrow> last sts = st" and "\<not> is_ok res \<Longrightarrow> last sts filename = st filename"
proof -
  note w = write_trace [OF assms [unfolded WriteFileAtomic_def]]
  show "is_ok res \<Longrightarrow> last sts = st(filename \<mapsto> \<lparr>fi_content = data, fi_synced = True, fi_mode = perm\<rparr>)"
    using w by (auto simp: is_ok_iff split: prod.splits sum.splits)
  show "\<not> is_ok res \<Longrightarrow> is_ok (ca_remove ca) \<Longrightarrow> last sts = st" "\<not> is_ok res \<Longrightarrow> last sts filename = st filename"
    using w by simp_all
qed

text \<open>A save that fails changes neither the file nor the memory; one that succeeds changes both.\<close>

lemma saveDB_in_step:
  assumes "saveDBLocalState (file_io ca write rd dataDir io) s p = (p', r)" and "in_step dataDir p" and "is_ok (ca_remove ca)"
  shows "in_step dataDir p'" and "pk_dbLocalState p' = (if is_ok r then s else pk_dbLocalState p)"
    and "pk_keeperLocalState p' = pk_keeperLocalState p"
proof -
  let ?st = "mg_machine (pk_pgm p)"
  obtain sts res where w: "writeDBState ca write dataDir s ?st = (sts, res)" by fastforce
  note wr = write_result [OF w [unfolded writeDBState_def]]
  have p': "mg_machine (pk_pgm p') = last sts" "is_ok r = is_ok res" "pk_dbLocalState p' = (if is_ok r then s else pk_dbLocalState p)"
    "pk_keeperLocalState p' = pk_keeperLocalState p"
    using assms(1) w
    by (auto simp: saveDBLocalState_def onDisk_def onPgm_def onHost_def file_io_def act_defs is_ok_iff split: sum.splits)
  then show "pk_dbLocalState p' = (if is_ok r then s else pk_dbLocalState p)" "pk_keeperLocalState p' = pk_keeperLocalState p"
    by blast+
  show "in_step dataDir p'"
  proof (cases "is_ok res")
    case True
    then show ?thesis
      using assms(2) p' wr(1) state_paths [of dataDir]
      by (auto simp: in_step_def loadDBLocalState_def loadKeeperLocalState_def)
  next
    case False
    then show ?thesis using assms(2,3) p' wr(2) by (simp add: in_step_def)
  qed
qed

text \<open>
  A restart. A keeper whose files hold its local states saves a new state of its database; the save may fail at any call. If it
  dies then and is started again, with the same UID or none in its configuration, the new process has the local states that the old one had.
\<close>

theorem keeper_restart:
  assumes "in_step dataDir p" and "saveDBLocalState (file_io ca write rd dataDir io) s p = (p', r)" and "is_ok (ca_remove ca)"
    and "kls_UID (pk_keeperLocalState p) \<noteq> ''''" and "kf_uid cfg \<in> {'''', kls_UID (pk_keeperLocalState p)}"
  shows "\<exists>q. NewPostgresKeeper (file_io ca' write' (Inr ()) dataDir io') (Inr ()) (Inr absDir) bootUUID cfg (mg_machine (pk_pgm p')) = Inr q \<and>
    pk_keeperLocalState q = pk_keeperLocalState p' \<and> pk_dbLocalState q = pk_dbLocalState p' \<and>
    pk_dbLocalState p' = (if is_ok r then s else pk_dbLocalState p)"
proof -
  note sv = saveDB_in_step [OF assms(2,1,3)]
  have "NewPostgresKeeper (file_io ca' write' (Inr ()) dataDir io') (Inr ()) (Inr absDir) bootUUID cfg (mg_machine (pk_pgm p')) =
     Inr ((newKeeper cfg absDir bootUUID (mg_machine (pk_pgm p')))
       \<lparr>pk_keeperLocalState := pk_keeperLocalState p', pk_dbLocalState := pk_dbLocalState p'\<rparr>)"
    using sv(1,3) assms(4,5)
    by (auto simp: NewPostgresKeeper_def loadLocalStates_def act_defs file_io_def in_step_def newKeeper_def noManager_def Let_def)
  then show ?thesis using sv(2) by simp
qed

section \<open>Examples\<close>

definition good_calls :: Calls where
  "good_calls = \<lparr>ca_tempFile = Inr ''123'', ca_sync = Inr (), ca_close = Inr (), ca_chmod = Inr (), ca_rename = Inr (), ca_remove = Inr ()\<rparr>"

definition example_kls :: KeeperLocalState where "example_kls = \<lparr>kls_UID = ''k1'', kls_ClusterUID = ''c''\<rparr>"

definition example_dbls :: DBLocalState where
  "example_dbls = \<lparr>ls_UID = ''db1'', ls_Generation = 1, ls_Initializing = False, ls_InitPGParameters = None\<rparr>"

definition example_fs :: "state_content fs" where
  "example_fs = [keeperLocalStateFilePath ''/d'' \<mapsto> \<lparr>fi_content = KeeperState example_kls, fi_synced = True, fi_mode = 384\<rparr>,
     dbLocalStateFilePath ''/d'' \<mapsto> \<lparr>fi_content = DBState example_dbls, fi_synced = True, fi_mode = 384\<rparr>]"

definition new_dbls :: DBLocalState where "new_dbls = example_dbls\<lparr>ls_Generation := 2\<rparr>"

text \<open>The machine crashes when the content has been written, before the file is synced: a restart has the old state.\<close>

theorem local_state_crash_safe_witness:
  "\<exists>sts. writeDBState good_calls (OtherContent ''x'', Inr ()) ''/d'' new_dbls example_fs = (sts, Inr ()) \<and>
     loadDBLocalState (Inr ()) ''/d'' (last sts) = Inr (Some new_dbls) \<and>
     loadDBLocalState (Inr ()) ''/d'' (sts ! 2) \<in> {Inr (Some example_dbls), Inr (Some new_dbls)}"
proof -
  obtain sts res where w: "writeDBState good_calls (OtherContent ''x'', Inr ()) ''/d'' new_dbls example_fs = (sts, res)" by fastforce
  have "example_fs (dbLocalStateFilePath ''/d'' @ ''123'') = None" by code_simp
  then have "res = Inr () \<and> length sts = 7" using w
    by (auto simp: writeDBState_def WriteFileAtomic_def WriteFileAtomicFunc_def TempFile_def good_calls_def firstErr_def Let_def is_ok_def)
  then have r: "res = Inr ()" and n: "length sts = 7" by blast+
  have d: "durable example_fs (dbLocalStateFilePath ''/d'')" by (simp add: durable_def example_fs_def)
  have old: "loadDBLocalState (Inr ()) ''/d'' example_fs = Inr (Some example_dbls)"
    by (simp add: loadDBLocalState_def example_fs_def)
  have "last sts \<in> set sts" "sts ! 2 \<in> set sts" using n by (auto intro: last_in_set)
  then show ?thesis
    using local_state_crash_safe [OF w d _ crashed_refl] w r old by (auto simp: is_ok_def)
qed

definition files_keeper :: "state_content fs PostgresKeeper" where
  "files_keeper = (newKeeper (example_config) ''/d'' ''b'' example_fs)
     \<lparr>pk_keeperLocalState := example_kls, pk_dbLocalState := example_dbls\<rparr>"

definition plain_io :: "state_content fs KeeperIO" where
  "plain_io = \<lparr>io_saveDB = (\<lambda>_ st. (st, Inr ())), io_loadDB = (\<lambda>_. Inr None), io_saveKeeper = (\<lambda>_ st. (st, Inr ())),
     io_loadKeeper = (\<lambda>_. Inr None), io_putInfo = (\<lambda>_ _ _ st. (st, Inr ())), io_UID = ''u''\<rparr>"

theorem keeper_restart_witness:
  "\<exists>q p' r. saveDBLocalState (file_io good_calls (OtherContent ''x'', Inr ()) (Inr ()) ''/d'' plain_io) new_dbls files_keeper = (p', r) \<and>
     NewPostgresKeeper (file_io good_calls (OtherContent ''x'', Inr ()) (Inr ()) ''/d'' plain_io) (Inr ()) (Inr ''/d'') ''b2''
       (example_config\<lparr>kf_uid := ''k1''\<rparr>) (mg_machine (pk_pgm p')) = Inr q \<and>
     pk_dbLocalState q = new_dbls"
proof -
  let ?io = "file_io good_calls (OtherContent ''x'', Inr ()) (Inr ()) ''/d'' plain_io"
  have s: "in_step ''/d'' files_keeper"
    using state_paths [of "''/d''"]
    by (simp add: in_step_def files_keeper_def newKeeper_def noManager_def loadKeeperLocalState_def loadDBLocalState_def example_fs_def)
  obtain p' r where w: "saveDBLocalState ?io new_dbls files_keeper = (p', r)" by fastforce
  have c: "is_ok (ca_remove good_calls)" "kls_UID (pk_keeperLocalState files_keeper) \<noteq> ''''"
    "kf_uid (example_config\<lparr>kf_uid := ''k1''\<rparr>) \<in> {'''', kls_UID (pk_keeperLocalState files_keeper)}"
    by (simp_all add: good_calls_def files_keeper_def example_kls_def is_ok_def)
  have "example_fs (dbLocalStateFilePath ''/d'' @ ''123'') = None" by code_simp
  then have "is_ok r" using w
    by (auto simp: saveDBLocalState_def onDisk_def onPgm_def onHost_def act_defs file_io_def writeDBState_def WriteFileAtomic_def
        WriteFileAtomicFunc_def TempFile_def good_calls_def firstErr_def Let_def is_ok_def files_keeper_def newKeeper_def noManager_def)
  then show ?thesis using keeper_restart [OF s w c, of good_calls "(OtherContent ''x'', Inr ())" plain_io "''/d''" "''b2''"] w by auto
qed

end
