(* ===== verification/Flags.thy ===== *)
theory Flags
  imports Config "HOL-Library.Char_ord" "HOL-Library.List_Lexorder"
begin

text \<open>
  The flags of the programs: their names, defaults and the variables they set (\<^verbatim>\<open>AddCommonFlags\<close> of
  \<^verbatim>\<open>cmd/common.go\<close> and the functions \<^verbatim>\<open>init\<close> of the commands), what is taken from
  the environment (\<^verbatim>\<open>internal/flagutil/env.go\<close>), and what \<^verbatim>\<open>pflag\<close> does when a flag
  is set. Further the TLS configuration of the store client (\<^verbatim>\<open>internal/common/tls.go\<close>), the logging level
  and the name of the user.
\<close>

section \<open>Values of flags\<close>

datatype flag_value = StringV string | BoolV bool | IntV int

definition ParseBool :: "string \<Rightarrow> bool \<times> unit res" where
  "ParseBool s =
     (if s \<in> {''1'', ''t'', ''T'', ''true'', ''TRUE'', ''True''} then (True, Inr ())
      else if s \<in> {''0'', ''f'', ''F'', ''false'', ''FALSE'', ''False''} then (False, Inr ())
      else (False, Inl (Error ''invalid syntax'')))"

text \<open>
  \<^verbatim>\<open>strconv.ParseInt(s, 0, 64)\<close>: the base is that of the prefix. A number that is too big gives the biggest
  one, with the error.
\<close>

definition ParseInt0 :: "string \<Rightarrow> int \<times> unit res" where
  "ParseInt0 s =
     (let neg = (s \<noteq> '''' \<and> hd s = CHR ''-'');
          ds = (if s \<noteq> '''' \<and> (hd s = CHR ''-'' \<or> hd s = CHR ''+'') then tl s else s);
          n = (if take 2 ds \<in> {''0x'', ''0X''} then ParseUint (drop 2 ds) 16 64
               else if ds = ''0'' then Inr 0
               else if take 1 ds = ''0'' then ParseUint (tl ds) 8 64
               else ParseUint ds 10 64);
          bound = (if neg then - (2 ^ 63) else 2 ^ 63 - 1)
      in case n of
           Inl e \<Rightarrow> (if e = Error ''value out of range'' then bound else 0, Inl e)
         | Inr m \<Rightarrow>
             if \<not> neg \<and> m \<ge> 2 ^ 63 \<or> neg \<and> m > 2 ^ 63 then (bound, Inl (Error ''value out of range''))
             else (if neg then - int m else int m, Inr ()))"

text \<open>\<^verbatim>\<open>Set\<close> of the flag values: the variable is assigned even if the text is not valid.\<close>

fun setValue :: "flag_value \<Rightarrow> string \<Rightarrow> flag_value \<times> unit res" where
  "setValue (StringV _) s = (StringV s, Inr ())"
| "setValue (BoolV _) s = (case ParseBool s of (b, r) \<Rightarrow> (BoolV b, r))"
| "setValue (IntV _) s = (case ParseInt0 s of (i, r) \<Rightarrow> (IntV i, r))"

section \<open>Flag sets\<close>

text \<open>A flag has a name, the variable it sets and the default. Two flags may set the same variable.\<close>

record Flag =
  fg_name :: string
  fg_var :: string
  fg_default :: flag_value

record FlagSet =
  fs_formal :: "Flag list"
  fs_vars :: "string \<Rightarrow> flag_value"
  fs_actual :: "string list"

text \<open>Defining a flag sets its variable to the default.\<close>

definition newFlagSet :: "Flag list \<Rightarrow> FlagSet" where
  "newFlagSet fs =
     \<lparr>fs_formal = sort_key fg_name fs, fs_vars = fold (\<lambda>f vs. vs(fg_var f := fg_default f)) fs (\<lambda>_. StringV ''''), fs_actual = []\<rparr>"

definition pflag_Set :: "string \<Rightarrow> string \<Rightarrow> FlagSet \<Rightarrow> FlagSet \<times> unit res" where
  "pflag_Set name value s =
     (case find (\<lambda>f. fg_name f = name) (fs_formal s) of
        None \<Rightarrow> (s, Inl (Error ''no such flag''))
      | Some f \<Rightarrow>
          (case setValue (fg_default f) value of
             (v, Inl e) \<Rightarrow> (s\<lparr>fs_vars := (fs_vars s)(fg_var f := v)\<rparr>, Inl (Error ''invalid argument''))
           | (v, Inr _) \<Rightarrow> (s\<lparr>fs_vars := (fs_vars s)(fg_var f := v), fs_actual := name # fs_actual s\<rparr>, Inr ())))"

section \<open>The environment\<close>

definition upper :: "char \<Rightarrow> char" where
  "upper c = (let n = of_char c :: nat in if 97 \<le> n \<and> n \<le> 122 then char_of (n - 32) else c)"

definition envKey :: "string \<Rightarrow> string \<Rightarrow> string" where
  "envKey prefix name = prefix @ ''_'' @ map upper (map (\<lambda>c. if c = CHR ''-'' then CHR ''_'' else c) name)"

definition setFromEnv :: "(string \<Rightarrow> string) \<Rightarrow> string \<Rightarrow> string list \<Rightarrow> Flag \<Rightarrow> FlagSet \<times> unit res \<Rightarrow> FlagSet \<times> unit res" where
  "setFromEnv getenv prefix alreadySet f acc =
     (case acc of (s, err) \<Rightarrow>
       if fg_name f \<notin> set alreadySet then
         let key = envKey prefix (fg_name f); vtext = getenv key
         in if vtext \<noteq> '''' then
              (case pflag_Set (fg_name f) vtext s of
                 (s, Inl _) \<Rightarrow> (s, Inl (Error (''invalid value for '' @ key)))
               | (s, Inr _) \<Rightarrow> (s, err))
            else (s, err)
       else (s, err))"

definition SetFlagsFromEnv :: "(string \<Rightarrow> string) \<Rightarrow> string \<Rightarrow> FlagSet \<Rightarrow> FlagSet \<times> unit res" where
  "SetFlagsFromEnv getenv prefix s = fold (setFromEnv getenv prefix (fs_actual s)) (fs_formal s) (s, Inr ())"

text \<open>
  \<^verbatim>\<open>Execute\<close>: first the environment, whose errors are ignored, then the arguments of the command line, where
  an error ends the program. \<open>args\<close> are the flags that are given, in their order.
\<close>

fun parseArgs :: "(string \<times> string) list \<Rightarrow> FlagSet \<Rightarrow> FlagSet res" where
  "parseArgs [] s = Inr s"
| "parseArgs ((name, value) # args) s =
     (case pflag_Set name value s of (_, Inl e) \<Rightarrow> Inl e | (s, Inr _) \<Rightarrow> parseArgs args s)"

definition Execute :: "(string \<Rightarrow> string) \<Rightarrow> string \<Rightarrow> (string \<times> string) list \<Rightarrow> FlagSet \<Rightarrow> FlagSet res" where
  "Execute getenv prefix args s = parseArgs args (fst (SetFlagsFromEnv getenv prefix s))"

section \<open>Which value a flag has\<close>

definition names_distinct :: "FlagSet \<Rightarrow> bool" where
  "names_distinct s \<longleftrightarrow> distinct (map fg_name (fs_formal s))"

lemma find_flag:
  assumes "names_distinct s" and "f \<in> set (fs_formal s)"
  shows "find (\<lambda>g. fg_name g = fg_name f) (fs_formal s) = Some f"
proof -
  have "distinct (map fg_name xs) \<Longrightarrow> f \<in> set xs \<Longrightarrow> find (\<lambda>g. fg_name g = fg_name f) xs = Some f" for xs
    by (induction xs) (auto simp: image_iff)
  then show ?thesis using assms by (simp add: names_distinct_def)
qed

lemma pflag_Set_effect:
  assumes "names_distinct s" and "f \<in> set (fs_formal s)" and "pflag_Set (fg_name f) vtext s = (s', r)"
  shows "fs_formal s' = fs_formal s" and "fs_vars s' = (fs_vars s)(fg_var f := fst (setValue (fg_default f) vtext))"
    and "is_ok r \<longleftrightarrow> is_ok (snd (setValue (fg_default f) vtext))"
    and "fs_actual s' = (if is_ok r then fg_name f # fs_actual s else fs_actual s)"
  using assms(3) find_flag [OF assms(1,2)] by (auto simp: pflag_Set_def is_ok_iff split: prod.splits sum.splits)

definition fromEnv :: "(string \<Rightarrow> string) \<Rightarrow> string \<Rightarrow> Flag \<Rightarrow> flag_value \<Rightarrow> flag_value" where
  "fromEnv getenv prefix f old =
     (let vtext = getenv (envKey prefix (fg_name f)) in if vtext = '''' then old else fst (setValue (fg_default f) vtext))"

lemma setFromEnv_effect:
  assumes "names_distinct s" and "f \<in> set (fs_formal s)" and "fg_name f \<notin> set alreadySet"
    and "setFromEnv getenv prefix alreadySet f (s, err) = (s', err')"
  shows "fs_formal s' = fs_formal s" and "fs_vars s' = (fs_vars s)(fg_var f := fromEnv getenv prefix f (fs_vars s (fg_var f)))"
proof -
  let ?vtext = "getenv (envKey prefix (fg_name f))"
  obtain s1 r where p: "pflag_Set (fg_name f) ?vtext s = (s1, r)" by fastforce
  note e = pflag_Set_effect [OF assms(1,2) p]
  have "s' = (if ?vtext = '''' then s else s1)"
    using assms(3,4) p by (auto simp: setFromEnv_def Let_def split: sum.splits if_splits)
  then show "fs_formal s' = fs_formal s" "fs_vars s' = (fs_vars s)(fg_var f := fromEnv getenv prefix f (fs_vars s (fg_var f)))"
    using e(1,2) by (auto simp: fromEnv_def Let_def)
qed

lemma env_loop:
  assumes "names_distinct s" and "set xs \<subseteq> set (fs_formal s)" and "distinct xs"
    and "\<And>g. g \<in> set (fs_formal s) \<Longrightarrow> fg_var g = fg_var f \<Longrightarrow> g = f"
    and "fold (setFromEnv getenv prefix []) xs (s, err) = (s', err')"
  shows "fs_formal s' = fs_formal s \<and>
    fs_vars s' (fg_var f) = (if f \<in> set xs then fromEnv getenv prefix f (fs_vars s (fg_var f)) else fs_vars s (fg_var f))"
  using assms
proof (induction xs arbitrary: s err)
  case Nil
  then show ?case by simp
next
  case (Cons x xs)
  obtain s1 err1 where x: "setFromEnv getenv prefix [] x (s, err) = (s1, err1)" by fastforce
  have fx: "x \<in> set (fs_formal s)" using Cons.prems(2) by simp
  note e = setFromEnv_effect [OF Cons.prems(1) fx _ x]
  have s1: "names_distinct s1" "set xs \<subseteq> set (fs_formal s1)" "distinct xs"
    using Cons.prems(1-3) e(1) by (simp_all add: names_distinct_def)
  have u: "g = f" if "g \<in> set (fs_formal s1)" "fg_var g = fg_var f" for g using that Cons.prems(4) e(1) by simp
  from Cons.IH [OF s1 u] Cons.prems(5) x
  have i: "fs_formal s' = fs_formal s1 \<and>
    fs_vars s' (fg_var f) = (if f \<in> set xs then fromEnv getenv prefix f (fs_vars s1 (fg_var f)) else fs_vars s1 (fg_var f))"
    by simp
  show ?case
  proof (cases "x = f")
    case True
    then have "f \<notin> set xs" using Cons.prems(3) by simp
    then show ?thesis using i e True by simp
  next
    case False
    then have "fg_var x \<noteq> fg_var f" using Cons.prems(4) [OF fx] by blast
    then show ?thesis using i e False by auto
  qed
qed

text \<open>The last value that the command line gives to a flag.\<close>

definition lastArg :: "(string \<times> string) list \<Rightarrow> string \<Rightarrow> string option" where
  "lastArg args name = map_of (rev args) name"

lemma args_loop:
  assumes "names_distinct s" and "f \<in> set (fs_formal s)"
    and "\<And>g. g \<in> set (fs_formal s) \<Longrightarrow> fg_var g = fg_var f \<Longrightarrow> g = f"
    and "parseArgs args s = Inr s'"
  shows "fs_vars s' (fg_var f) =
    (case lastArg args (fg_name f) of None \<Rightarrow> fs_vars s (fg_var f) | Some v \<Rightarrow> fst (setValue (fg_default f) v))"
  using assms
proof (induction args arbitrary: s)
  case Nil
  then show ?case by (simp add: lastArg_def)
next
  case (Cons a args)
  obtain name vtext where a: "a = (name, vtext)" by fastforce
  from Cons.prems(4) a obtain s1 u where s1: "pflag_Set name vtext s = (s1, Inr u)" "parseArgs args s1 = Inr s'"
    by (auto split: prod.splits sum.splits)
  from s1(1) obtain g where "find (\<lambda>f. fg_name f = name) (fs_formal s) = Some g"
    by (auto simp: pflag_Set_def split: option.splits)
  then have g: "g \<in> set (fs_formal s)" "fg_name g = name" by (auto simp: find_Some_iff)
  note e = pflag_Set_effect [OF Cons.prems(1) g(1) s1(1) [folded g(2)]]
  have "names_distinct s1" "f \<in> set (fs_formal s1)" using Cons.prems(1,2) e(1) by (simp_all add: names_distinct_def)
  from Cons.IH [OF this _ s1(2)] Cons.prems(3) e(1)
  have i: "fs_vars s' (fg_var f) =
    (case lastArg args (fg_name f) of None \<Rightarrow> fs_vars s1 (fg_var f) | Some v \<Rightarrow> fst (setValue (fg_default f) v))" by simp
  show ?case
  proof (cases "g = f")
    case True
    then show ?thesis using i e(2) a g(2) by (auto simp: lastArg_def map_add_def split: option.splits)
  next
    case False
    then have "fg_var g \<noteq> fg_var f" using Cons.prems(3) [OF g(1)] by blast
    moreover have "name \<noteq> fg_name f"
      using find_flag [OF Cons.prems(1,2)] find_flag [OF Cons.prems(1) g(1)] g(2) False by auto
    ultimately show ?thesis using i e(2) a by (auto simp: lastArg_def map_add_def split: option.splits)
  qed
qed

lemma defaults_var:
  assumes "f \<in> set fs" and "\<And>g. g \<in> set fs \<Longrightarrow> fg_var g = fg_var f \<Longrightarrow> g = f"
  shows "fold (\<lambda>f vs. vs(fg_var f := fg_default f)) fs vs (fg_var f) = fg_default f"
proof -
  have "fold (\<lambda>f vs. vs(fg_var f := fg_default f)) xs vs (fg_var f) = (if f \<in> set xs then fg_default f else vs (fg_var f))"
    if "set xs \<subseteq> set fs" for xs
    using that assms(2) by (induction xs arbitrary: vs) (auto simp: fun_upd_def)
  then show ?thesis using assms(1) by simp
qed

text \<open>
  Which value a flag has: the last one on the command line; without one, that of the environment variable if it is not empty; without
  one, the default. (For a flag that does not share its variable with another one.) A text in the environment that is not valid is not
  reported but sets the variable to the zero value.
\<close>

theorem flags_precedence:
  assumes "Execute getenv prefix args (newFlagSet fs) = Inr s"
    and "distinct (map fg_name fs)" and "f \<in> set fs" and "\<And>g. g \<in> set fs \<Longrightarrow> fg_var g = fg_var f \<Longrightarrow> g = f"
  shows "fs_vars s (fg_var f) =
    (case lastArg args (fg_name f) of
       Some v \<Rightarrow> fst (setValue (fg_default f) v)
     | None \<Rightarrow> if getenv (envKey prefix (fg_name f)) = '''' then fg_default f
               else fst (setValue (fg_default f) (getenv (envKey prefix (fg_name f)))))"
proof -
  let ?s = "newFlagSet fs"
  have "distinct (map fg_name (sort_key fg_name fs))"
    using assms(2) by (metis distinct_map distinct_sort set_sort)
  then have d: "names_distinct ?s" "distinct (fs_formal ?s)"
    by (simp_all add: names_distinct_def newFlagSet_def distinct_map)
  have m: "set (fs_formal ?s) = set fs" "fs_actual ?s = []" "fs_vars ?s (fg_var f) = fg_default f"
    using defaults_var [OF assms(3,4)] by (simp_all add: newFlagSet_def)
  obtain s1 err where e: "SetFlagsFromEnv getenv prefix ?s = (s1, err)" by fastforce
  have u: "\<And>g. g \<in> set (fs_formal ?s) \<Longrightarrow> fg_var g = fg_var f \<Longrightarrow> g = f" using assms(4) m(1) by simp
  from env_loop [OF d(1) subset_refl d(2) u, of getenv prefix "Inr ()" s1 err] e m
  have s1: "fs_formal s1 = fs_formal ?s" "fs_vars s1 (fg_var f) = fromEnv getenv prefix f (fg_default f)"
    using assms(3) by (simp_all add: SetFlagsFromEnv_def)
  have "parseArgs args s1 = Inr s" using assms(1) e by (simp add: Execute_def)
  from args_loop [OF _ _ _ this, of f] d(1) m(1) assms(3,4) s1
  show ?thesis by (auto simp: names_distinct_def fromEnv_def Let_def split: option.splits)
qed

section \<open>The flags of the programs\<close>

definition stringFlag :: "string \<Rightarrow> string \<Rightarrow> string \<Rightarrow> Flag" where
  "stringFlag var name d = \<lparr>fg_name = name, fg_var = var, fg_default = StringV d\<rparr>"

definition boolFlag :: "string \<Rightarrow> string \<Rightarrow> bool \<Rightarrow> Flag" where
  "boolFlag var name d = \<lparr>fg_name = name, fg_var = var, fg_default = BoolV d\<rparr>"

definition intFlag :: "string \<Rightarrow> string \<Rightarrow> int \<Rightarrow> Flag" where
  "intFlag var name d = \<lparr>fg_name = name, fg_var = var, fg_default = IntV d\<rparr>"

definition AddCommonFlags :: "bool \<Rightarrow> Flag list" where
  "AddCommonFlags isStolonCtl =
     [stringFlag ''ClusterName'' ''cluster-name'' '''',
      stringFlag ''StoreBackend'' ''store-backend'' '''',
      stringFlag ''StoreEndpoints'' ''store-endpoints'' '''',
      stringFlag ''StorePrefix'' ''store-prefix'' ''stolon/cluster'',
      stringFlag ''StoreCertFile'' ''store-cert-file'' '''',
      stringFlag ''StoreKeyFile'' ''store-key'' '''',
      boolFlag ''StoreSkipTlsVerify'' ''store-skip-tls-verify'' False,
      stringFlag ''StoreCAFile'' ''store-ca-file'' '''',
      stringFlag ''MetricsListenAddress'' ''metrics-listen-address'' '''',
      stringFlag ''KubeResourceKind'' ''kube-resource-kind'' ''''] @
     (if \<not> isStolonCtl then
        [boolFlag ''LogColor'' ''log-color'' False,
         stringFlag ''LogLevel'' ''log-level'' ''info'']
      else
        [stringFlag ''LogLevel'' ''log-level'' ''info'',
         stringFlag ''KubeConfig'' ''kubeconfig'' '''',
         stringFlag ''KubeContext'' ''kube-context'' '''',
         stringFlag ''KubeNamespace'' ''kube-namespace'' ''''])"

text \<open>\<^verbatim>\<open>--id\<close> and \<^verbatim>\<open>--uid\<close> of the keeper set the same variable.\<close>

definition keeperFlags :: "string \<Rightarrow> Flag list" where
  "keeperFlags user =
     AddCommonFlags False @
     [stringFlag ''uid'' ''id'' '''',
      stringFlag ''uid'' ''uid'' '''',
      stringFlag ''dataDir'' ''data-dir'' '''',
      stringFlag ''pgListenAddress'' ''pg-listen-address'' '''',
      stringFlag ''pgPort'' ''pg-port'' ''5432'',
      stringFlag ''pgBinPath'' ''pg-bin-path'' '''',
      stringFlag ''pgReplAuthMethod'' ''pg-repl-auth-method'' ''md5'',
      stringFlag ''pgReplUsername'' ''pg-repl-username'' '''',
      stringFlag ''pgReplPassword'' ''pg-repl-password'' '''',
      stringFlag ''pgReplPasswordFile'' ''pg-repl-passwordfile'' '''',
      stringFlag ''pgSUAuthMethod'' ''pg-su-auth-method'' ''md5'',
      stringFlag ''pgSUUsername'' ''pg-su-username'' user,
      stringFlag ''pgSUPassword'' ''pg-su-password'' '''',
      stringFlag ''pgSUPasswordFile'' ''pg-su-passwordfile'' '''',
      boolFlag ''debug'' ''debug'' False]"

definition sentinelFlags :: "Flag list" where
  "sentinelFlags =
     AddCommonFlags False @
     [stringFlag ''initialClusterSpecFile'' ''initial-cluster-spec'' '''',
      boolFlag ''debug'' ''debug'' False]"

definition proxyFlags :: "Flag list" where
  "proxyFlags =
     AddCommonFlags False @
     [stringFlag ''listenAddress'' ''listen-address'' ''127.0.0.1'',
      stringFlag ''port'' ''port'' ''5432'',
      boolFlag ''stopListening'' ''stop-listening'' True,
      boolFlag ''debug'' ''debug'' False,
      intFlag ''keepAliveIdle'' ''tcp-keepalive-idle'' 0,
      intFlag ''keepAliveCount'' ''tcp-keepalive-count'' 0,
      intFlag ''keepAliveInterval'' ''tcp-keepalive-interval'' 0]"

definition stolonctlFlags :: "Flag list" where
  "stolonctlFlags = AddCommonFlags True"

definition keeper_Execute where "keeper_Execute getenv user args = Execute getenv ''STKEEPER'' args (newFlagSet (keeperFlags user))"
definition sentinel_Execute where "sentinel_Execute getenv args = Execute getenv ''STSENTINEL'' args (newFlagSet sentinelFlags)"
definition proxy_Execute where "proxy_Execute getenv args = Execute getenv ''STPROXY'' args (newFlagSet proxyFlags)"
definition stolonctl_Execute where "stolonctl_Execute getenv args = Execute getenv ''STOLONCTL'' args (newFlagSet stolonctlFlags)"

text \<open>The default of the superuser.\<close>

definition GetUser :: "string res \<Rightarrow> (string \<Rightarrow> string) \<Rightarrow> string res" where
  "GetUser current getenv =
     (case current of
        Inr u \<Rightarrow> Inr u
      | Inl _ \<Rightarrow>
          let name = getenv ''USER''
          in if name \<noteq> '''' then Inr name else Inl (Error ''cannot detect current user''))"

section \<open>Logging\<close>

datatype log_level = DebugLevel | InfoLevel | WarnLevel | ErrorLevel

definition SetDebug :: "log_level \<Rightarrow> log_level" where "SetDebug level = DebugLevel"

definition SetLevel :: "log_level \<Rightarrow> log_level \<Rightarrow> log_level" where "SetLevel lvl level = lvl"

definition IsDebug :: "log_level \<Rightarrow> bool" where "IsDebug level \<longleftrightarrow> level = DebugLevel"

text \<open>The start of the programs: the level of the flag, or debug with the deprecated flag.\<close>

definition startLevel :: "string \<Rightarrow> bool \<Rightarrow> log_level res" where
  "startLevel logLevel debug =
     bindE (if logLevel = ''error'' then Inr (SetLevel ErrorLevel InfoLevel)
            else if logLevel = ''warn'' then Inr (SetLevel WarnLevel InfoLevel)
            else if logLevel = ''info'' then Inr (SetLevel InfoLevel InfoLevel)
            else if logLevel = ''debug'' then Inr (SetLevel DebugLevel InfoLevel)
            else Inl (Error ''invalid log level'')) (\<lambda>level.
     Inr (if debug then SetDebug level else level))"

text \<open>A flag that was set, by the environment or on the command line, decides; otherwise whether there is a terminal.\<close>

definition IsColorLoggerEnable :: "FlagSet \<Rightarrow> bool \<Rightarrow> bool \<Rightarrow> bool" where
  "IsColorLoggerEnable s isTerminal isCygwinTerminal =
     (if ''log-color'' \<in> set (fs_actual s) then fs_vars s ''LogColor'' = BoolV True else isTerminal \<or> isCygwinTerminal)"

section \<open>The client of kubernetes\<close>

text \<open>What is overridden of the configuration that \<^verbatim>\<open>kubectl\<close> would use.\<close>

record KubeClientConfig =
  kcc_ExplicitPath :: "string option"
  kcc_CurrentContext :: "string option"
  kcc_Namespace :: "string option"

definition NewKubeClientConfig :: "string \<Rightarrow> string \<Rightarrow> string \<Rightarrow> KubeClientConfig" where
  "NewKubeClientConfig kubeconfigPath ctx namespace =
     \<lparr>kcc_ExplicitPath = (if kubeconfigPath \<noteq> '''' then Some kubeconfigPath else None),
      kcc_CurrentContext = (if ctx \<noteq> '''' then Some ctx else None),
      kcc_Namespace = (if namespace \<noteq> '''' then Some namespace else None)\<rparr>"

section \<open>TLS\<close>

record ('cert, 'key) TLSConfig =
  tls_RootCAs :: "'cert list option"
  tls_Certificates :: "'key list"
  tls_InsecureSkipVerify :: bool

text \<open>
  The loop over the PEM blocks of the CA file. \<open>decode\<close> is \<^verbatim>\<open>pem.Decode\<close>: the next block, if
  there is one, and the rest; \<open>parse\<close> is \<^verbatim>\<open>x509.ParseCertificate\<close>.
\<close>

partial_function (option) rootsLoop ::
  "(string \<Rightarrow> string option \<times> string) \<Rightarrow> (string \<Rightarrow> 'cert res) \<Rightarrow> string \<Rightarrow> 'cert list \<Rightarrow> 'cert list res option" where
  "rootsLoop decode parse pemBytes roots =
     (case decode pemBytes of
        (None, _) \<Rightarrow> Some (Inr roots)
      | (Some block, rest) \<Rightarrow>
          (case parse block of
             Inl e \<Rightarrow> Some (Inl e)
           | Inr cert \<Rightarrow> rootsLoop decode parse rest (roots @ [cert])))"

definition NewTLSConfig ::
  "(string \<Rightarrow> string res) \<Rightarrow> (string \<Rightarrow> string option \<times> string) \<Rightarrow> (string \<Rightarrow> 'cert res) \<Rightarrow> (string \<Rightarrow> string \<Rightarrow> 'key res) \<Rightarrow>
   string \<Rightarrow> string \<Rightarrow> string \<Rightarrow> bool \<Rightarrow> ('cert, 'key) TLSConfig res option" where
  "NewTLSConfig readFile decode parse loadKeyPair certFile keyFile caFile insecureSkipVerify =
     Option.bind
       (if caFile \<noteq> '''' then
          (case readFile caFile of
             Inl e \<Rightarrow> Some (Inl e)
           | Inr pemBytes \<Rightarrow> map_option (\<lambda>r. bindE r (\<lambda>roots. Inr (Some roots))) (rootsLoop decode parse pemBytes []))
        else Some (Inr None)) (\<lambda>roots.
     Some
       (bindE roots (\<lambda>roots.
        bindE (if certFile \<noteq> '''' \<and> keyFile \<noteq> '''' then bindE (loadKeyPair certFile keyFile) (\<lambda>cert. Inr [cert]) else Inr []) (\<lambda>certs.
          Inr \<lparr>tls_RootCAs = roots, tls_Certificates = certs, tls_InsecureSkipVerify = insecureSkipVerify\<rparr>))))"

text \<open>
  With a decoder that consumes something for each block (as \<^verbatim>\<open>pem.Decode\<close> does) the loop ends. The
  certificates of the servers are checked against the CA file exactly if one is given; a client certificate is used only if both
  files are given.
\<close>

lemma rootsLoop_ends:
  assumes "\<And>b block rest. decode b = (Some block, rest) \<Longrightarrow> length rest < length b"
  shows "\<exists>r. rootsLoop decode parse b roots = Some r \<and> (\<forall>cs. r = Inr cs \<longrightarrow> (\<exists>cs'. cs = roots @ cs'))"
proof (induction "length b" arbitrary: b roots rule: less_induct)
  case less
  obtain d rest where d: "decode b = (d, rest)" by fastforce
  show ?case
  proof (cases d)
    case None
    then show ?thesis using d by (subst rootsLoop.simps) simp
  next
    case (Some block)
    show ?thesis
    proof (cases "parse block")
      case (Inl e)
      then show ?thesis using d Some by (subst rootsLoop.simps) simp
    next
      case (Inr cert)
      have "length rest < length b" using assms d Some by blast
      from less [OF this, of "roots @ [cert]"] show ?thesis using d Some Inr by (subst rootsLoop.simps) auto
    qed
  qed
qed

lemma NewTLSConfig_total:
  assumes "\<And>b block rest. decode b = (Some block, rest) \<Longrightarrow> length rest < length b"
  shows "\<exists>r. NewTLSConfig readFile decode parse loadKeyPair certFile keyFile caFile skip = Some r \<and>
    (\<forall>cfg. r = Inr cfg \<longrightarrow> (tls_RootCAs cfg = None \<longleftrightarrow> caFile = '''') \<and>
       (tls_Certificates cfg = [] \<longleftrightarrow> certFile = '''' \<or> keyFile = '''') \<and> tls_InsecureSkipVerify cfg = skip)"
proof (cases "caFile = ''''")
  case True
  then show ?thesis by (auto simp: NewTLSConfig_def bindE_eq_Inr split: if_splits)
next
  case False
  show ?thesis
  proof (cases "readFile caFile")
    case (Inl e)
    then show ?thesis using False by (simp add: NewTLSConfig_def)
  next
    case (Inr b)
    have "\<exists>r. rootsLoop decode parse b [] = Some r \<and> (\<forall>cs. r = Inr cs \<longrightarrow> (\<exists>cs'. cs = [] @ cs'))"
      by (rule rootsLoop_ends) (rule assms)
    then obtain r where "rootsLoop decode parse b [] = Some r" by (elim exE conjE)
    then show ?thesis using False Inr by (auto simp: NewTLSConfig_def bindE_eq_Inr split: if_splits)
  qed
qed

section \<open>Examples\<close>

lemma proxyFlags_distinct: "distinct (map fg_name proxyFlags)" "distinct (map fg_var proxyFlags)"
  by code_simp+

lemma flags_distinct:
  "distinct (map fg_name (keeperFlags u))" "distinct (map fg_name sentinelFlags)" "distinct (map fg_name stolonctlFlags)"
proof -
  have "map fg_name (keeperFlags u) = map fg_name (keeperFlags '''')" by (simp add: keeperFlags_def stringFlag_def)
  moreover have "distinct (map fg_name (keeperFlags ''''))" by code_simp
  ultimately show "distinct (map fg_name (keeperFlags u))" by simp
  show "distinct (map fg_name sentinelFlags)" "distinct (map fg_name stolonctlFlags)" by code_simp+
qed

text \<open>A text that is no boolean turns a flag off whose default is on; the port of the command line wins.\<close>

definition example_env_vars :: "string \<Rightarrow> string" where
  "example_env_vars k = (if k = ''STPROXY_STOP_LISTENING'' then ''yes'' else if k = ''STPROXY_PORT'' then ''6432'' else '''')"

theorem flags_precedence_witness:
  "\<exists>s. proxy_Execute example_env_vars [(''port'', ''7432'')] = Inr s \<and> fs_vars s ''port'' = StringV ''7432'' \<and>
     fs_vars s ''stopListening'' = BoolV False"
proof -
  have "is_ok (proxy_Execute example_env_vars [(''port'', ''7432'')])" by code_simp
  then obtain s where s: "Execute example_env_vars ''STPROXY'' [(''port'', ''7432'')] (newFlagSet proxyFlags) = Inr s"
    by (auto simp: is_ok_iff proxy_Execute_def)
  let ?p = "stringFlag ''port'' ''port'' ''5432''" and ?l = "boolFlag ''stopListening'' ''stop-listening'' True"
  have m: "?p \<in> set proxyFlags" "?l \<in> set proxyFlags" by code_simp+
  have u: "g = f" if "f \<in> set proxyFlags" "g \<in> set proxyFlags" "fg_var g = fg_var f" for f g
    using that proxyFlags_distinct(2) by (auto simp: distinct_map inj_on_def)
  have k: "envKey ''STPROXY'' ''stop-listening'' = ''STPROXY_STOP_LISTENING''" by code_simp
  have "fs_vars s (fg_var ?p) = StringV ''7432''"
    using flags_precedence [OF s proxyFlags_distinct(1) m(1) u [OF m(1)]] by (simp add: lastArg_def stringFlag_def)
  moreover have "fs_vars s (fg_var ?l) = BoolV False"
    using flags_precedence [OF s proxyFlags_distinct(1) m(2) u [OF m(2)]]
    by (simp add: lastArg_def boolFlag_def k example_env_vars_def ParseBool_def)
  ultimately show ?thesis using s by (simp add: proxy_Execute_def stringFlag_def boolFlag_def)
qed

end
