(* ===== verification/Mains.thy ===== *)
theory Mains
  imports Prelude
begin

text \<open>
  The last part of the main functions \<^verbatim>\<open>keeper\<close>, \<^verbatim>\<open>sentinel\<close> and
  \<^verbatim>\<open>proxy\<close>: the server of the metrics and the handler of signals run in goroutines beside the creation and
  the loop of the component. A schedule is a sequence of the events of these goroutines; an event that cannot happen does nothing. A
  panic of the goroutine of \<^verbatim>\<open>Start\<close> ends the process. The write of a variable and the test of it are two
  events, so that another goroutine may write in between.
\<close>

section \<open>The three programs\<close>

datatype main_phase = NewRunning | NewReturned | StartRunning | MainReturned | Fatalf string go_error | Panicked string

datatype metrics_phase = NoMetrics | Serving | ServeReturned | ErrorLogged | ErrorMissed

record Main =
  ma_err :: "go_error option"
  ma_metricsErr :: "go_error option"
  ma_phase :: main_phase
  ma_metrics :: metrics_phase
  ma_cancelled :: bool

datatype main_event =
    New "unit res"
  | IfErr
  | ListenAndServe go_error
  | IfMetricsErr
  | Signal
  | StartEnds "unit res"
  | StartPanics string

fun err_of :: "unit res \<Rightarrow> go_error option" where
  "err_of (Inl e) = Some e"
| "err_of (Inr _) = None"

fun alive :: "main_phase \<Rightarrow> bool" where
  "alive MainReturned = False"
| "alive (Fatalf _ _) = False"
| "alive (Panicked _) = False"
| "alive _ = True"

definition main_init :: "string \<Rightarrow> Main" where
  "main_init metricsListenAddress =
     \<lparr>ma_err = None, ma_metricsErr = None, ma_phase = NewRunning,
      ma_metrics = (if metricsListenAddress \<noteq> '''' then Serving else NoMetrics), ma_cancelled = False\<rparr>"

definition ifErr :: "string \<Rightarrow> Main \<Rightarrow> Main" where
  "ifErr what m =
     (if ma_phase m = NewReturned
      then m\<lparr>ma_phase := (case ma_err m of None \<Rightarrow> StartRunning | Some e \<Rightarrow> Fatalf what e)\<rparr> else m)"

definition newReturns :: "unit res \<Rightarrow> Main \<Rightarrow> Main" where
  "newReturns r m = (if ma_phase m = NewRunning then m\<lparr>ma_err := err_of r, ma_phase := NewReturned\<rparr> else m)"

text \<open>\<^verbatim>\<open>sigHandler\<close> cancels the context.\<close>

definition sigHandler :: "Main \<Rightarrow> Main" where
  "sigHandler m = (if alive (ma_phase m) then m\<lparr>ma_cancelled := True\<rparr> else m)"

definition startPanics :: "string \<Rightarrow> Main \<Rightarrow> Main" where
  "startPanics msg m = (if ma_phase m = StartRunning then m\<lparr>ma_phase := Panicked msg\<rparr> else m)"

text \<open>
  The keeper: the goroutine of the metrics assigns to the variable \<^verbatim>\<open>err\<close> of the function it is in.
\<close>

fun keeper_tail :: "main_event \<Rightarrow> Main \<Rightarrow> Main" where
  "keeper_tail (New r) m = newReturns r m"
| "keeper_tail IfErr m = ifErr ''cannot create keeper'' m"
| "keeper_tail (ListenAndServe e) m =
     (if alive (ma_phase m) \<and> ma_metrics m = Serving then m\<lparr>ma_err := Some e, ma_metrics := ServeReturned\<rparr> else m)"
| "keeper_tail IfMetricsErr m =
     (if alive (ma_phase m) \<and> ma_metrics m = ServeReturned
      then if ma_err m \<noteq> None then m\<lparr>ma_metrics := ErrorLogged, ma_cancelled := True\<rparr> else m\<lparr>ma_metrics := ErrorMissed\<rparr>
      else m)"
| "keeper_tail Signal m = sigHandler m"
| "keeper_tail (StartEnds r) m = (if ma_phase m = StartRunning then m\<lparr>ma_phase := MainReturned\<rparr> else m)"
| "keeper_tail (StartPanics msg) m = startPanics msg m"

text \<open>The sentinel: the goroutine has a variable of its own.\<close>

fun sentinel_tail :: "main_event \<Rightarrow> Main \<Rightarrow> Main" where
  "sentinel_tail (New r) m = newReturns r m"
| "sentinel_tail IfErr m = ifErr ''cannot create sentinel'' m"
| "sentinel_tail (ListenAndServe e) m =
     (if alive (ma_phase m) \<and> ma_metrics m = Serving then m\<lparr>ma_metricsErr := Some e, ma_metrics := ServeReturned\<rparr> else m)"
| "sentinel_tail IfMetricsErr m =
     (if alive (ma_phase m) \<and> ma_metrics m = ServeReturned
      then if ma_metricsErr m \<noteq> None then m\<lparr>ma_metrics := ErrorLogged, ma_cancelled := True\<rparr> else m\<lparr>ma_metrics := ErrorMissed\<rparr>
      else m)"
| "sentinel_tail Signal m = sigHandler m"
| "sentinel_tail (StartEnds r) m = (if ma_phase m = StartRunning then m\<lparr>ma_phase := MainReturned\<rparr> else m)"
| "sentinel_tail (StartPanics msg) m = startPanics msg m"

text \<open>
  The proxy: a variable of its own too, and the program ends with the server of the metrics; there is no handler of signals.
\<close>

fun proxy_tail :: "main_event \<Rightarrow> Main \<Rightarrow> Main" where
  "proxy_tail (New r) m = newReturns r m"
| "proxy_tail IfErr m = ifErr ''cannot create cluster checker'' m"
| "proxy_tail (ListenAndServe e) m =
     (if alive (ma_phase m) \<and> ma_metrics m = Serving then m\<lparr>ma_metricsErr := Some e, ma_metrics := ServeReturned\<rparr> else m)"
| "proxy_tail IfMetricsErr m =
     (if alive (ma_phase m) \<and> ma_metrics m = ServeReturned
      then (case ma_metricsErr m of
              Some e \<Rightarrow> m\<lparr>ma_metrics := ErrorLogged, ma_phase := Fatalf ''metrics http server error'' e\<rparr>
            | None \<Rightarrow> m\<lparr>ma_metrics := ErrorMissed\<rparr>)
      else m)"
| "proxy_tail Signal m = m"
| "proxy_tail (StartEnds r) m =
     (if ma_phase m = StartRunning
      then m\<lparr>ma_phase := (case r of Inl e \<Rightarrow> Fatalf ''cluster checker ended with error'' e | Inr _ \<Rightarrow> MainReturned)\<rparr> else m)"
| "proxy_tail (StartPanics msg) m = startPanics msg m"

definition main_run :: "(main_event \<Rightarrow> Main \<Rightarrow> Main) \<Rightarrow> main_event list \<Rightarrow> string \<Rightarrow> Main" where
  "main_run tail evs metricsListenAddress = fold tail evs (main_init metricsListenAddress)"

section \<open>Errors reach the right place\<close>

definition created :: "main_event list \<Rightarrow> unit res option" where
  "created evs = map_option (\<lambda>ev. case ev of New r \<Rightarrow> r | _ \<Rightarrow> Inr ()) (List.find (\<lambda>ev. case ev of New _ \<Rightarrow> True | _ \<Rightarrow> False) evs)"

lemma created_snoc:
  "created (evs @ [ev]) = (case created evs of Some r \<Rightarrow> Some r | None \<Rightarrow> (case ev of New r \<Rightarrow> Some r | _ \<Rightarrow> None))"
  by (induction evs) (auto simp: created_def split: main_event.splits)

lemma err_of_iff:
  "err_of r = Some e \<longleftrightarrow> r = Inl e" "err_of r = None \<longleftrightarrow> r = Inr ()" "Some e = err_of r \<longleftrightarrow> r = Inl e" "None = err_of r \<longleftrightarrow> r = Inr ()"
  by (cases r; auto)+

text \<open>With a variable for each goroutine: the variable of the main function is the result of the creation.\<close>

fun own_err_ok :: "string \<Rightarrow> main_event list \<Rightarrow> Main \<Rightarrow> bool" where
  "own_err_ok cannotCreate evs m \<longleftrightarrow>
     (case ma_phase m of
        NewRunning \<Rightarrow> created evs = None
      | NewReturned \<Rightarrow> (\<exists>r. created evs = Some r \<and> ma_err m = err_of r)
      | StartRunning \<Rightarrow> created evs = Some (Inr ())
      | Fatalf what e \<Rightarrow> (what = cannotCreate \<longrightarrow> created evs = Some (Inl e))
      | _ \<Rightarrow> True) \<and>
     (ma_metrics m = ServeReturned \<longrightarrow> ma_metricsErr m \<noteq> None) \<and>
     ma_metrics m \<noteq> ErrorMissed"

lemma sentinel_step_ok:
  assumes "own_err_ok ''cannot create sentinel'' evs m"
  shows "own_err_ok ''cannot create sentinel'' (evs @ [ev]) (sentinel_tail ev m)"
  using assms
  by (cases ev; cases "ma_phase m"; cases "ma_metrics m")
     (auto simp: created_snoc newReturns_def ifErr_def sigHandler_def startPanics_def err_of_iff
        split: option.splits)

lemma proxy_step_ok:
  assumes "own_err_ok ''cannot create cluster checker'' evs m"
  shows "own_err_ok ''cannot create cluster checker'' (evs @ [ev]) (proxy_tail ev m)"
  using assms
  by (cases ev; cases "ma_phase m"; cases "ma_metrics m")
     (auto simp: created_snoc newReturns_def ifErr_def startPanics_def err_of_iff split: option.splits sum.splits)

lemma main_run_ok:
  assumes "\<And>evs m ev. own_err_ok what evs m \<Longrightarrow> own_err_ok what (evs @ [ev]) (tail ev m)"
  shows "own_err_ok what evs (main_run tail evs addr)"
proof (induction evs rule: rev_induct)
  case Nil
  then show ?case by (simp add: main_run_def main_init_def created_def)
next
  case (snoc ev evs)
  have "main_run tail (evs @ [ev]) addr = tail ev (main_run tail evs addr)" by (simp add: main_run_def)
  then show ?case using assms [OF snoc] by (simp only:)
qed

text \<open>In a sentinel a logged error of the metrics cancels, and the only fatal error is the one of the creation.\<close>

lemma sentinel_cancels:
  "(ma_metrics (main_run sentinel_tail evs addr) = ErrorLogged \<longrightarrow> ma_cancelled (main_run sentinel_tail evs addr)) \<and>
   (\<forall>what e. ma_phase (main_run sentinel_tail evs addr) = Fatalf what e \<longrightarrow> what = ''cannot create sentinel'')"
proof (induction evs rule: rev_induct)
  case Nil
  then show ?case by (simp add: main_run_def main_init_def)
next
  case (snoc ev evs)
  have "main_run sentinel_tail (evs @ [ev]) addr = sentinel_tail ev (main_run sentinel_tail evs addr)" by (simp add: main_run_def)
  then show ?case using snoc
    by (cases ev) (auto simp: newReturns_def ifErr_def sigHandler_def startPanics_def split: option.splits)
qed

text \<open>
  C40. The errors of the goroutines of a sentinel and of a proxy from the start of the server of the metrics on, in every schedule
  of them. The main function dies as having failed to create the component only with the error of that creation, and starts the
  component only if it was created; and an error of the server of the metrics is never taken for something else or lost: in a
  sentinel, it is logged and cancels the context.
\<close>

theorem startup_errors:
  shows "(\<forall>what e. ma_phase (main_run sentinel_tail evs addr) = Fatalf what e \<longrightarrow>
      what = ''cannot create sentinel'' \<and> created evs = Some (Inl e)) \<and>
    (ma_phase (main_run sentinel_tail evs addr) = StartRunning \<longrightarrow> created evs = Some (Inr ())) \<and>
    (ma_metrics (main_run sentinel_tail evs addr) = ErrorLogged \<longrightarrow> ma_cancelled (main_run sentinel_tail evs addr)) \<and>
    ma_metrics (main_run sentinel_tail evs addr) \<noteq> ErrorMissed \<and>
    (\<forall>e. ma_phase (main_run proxy_tail evs addr) = Fatalf ''cannot create cluster checker'' e \<longrightarrow> created evs = Some (Inl e)) \<and>
    (ma_phase (main_run proxy_tail evs addr) = StartRunning \<longrightarrow> created evs = Some (Inr ())) \<and>
    ma_metrics (main_run proxy_tail evs addr) \<noteq> ErrorMissed"
  using main_run_ok [where tail = sentinel_tail, OF sentinel_step_ok, of evs addr]
    main_run_ok [where tail = proxy_tail, OF proxy_step_ok, of evs addr] sentinel_cancels [of evs addr]
  by (auto split: main_phase.splits)

theorem startup_errors_witness:
  "let evs = [New (Inr ()), IfErr, ListenAndServe (Error ''address already in use''), IfMetricsErr]
   in ma_metrics (main_run sentinel_tail evs '':8080'') = ErrorLogged \<and> ma_cancelled (main_run sentinel_tail evs '':8080'')"
proof -
  let ?evs = "[New (Inr ()), IfErr, ListenAndServe (Error ''address already in use''), IfMetricsErr]"
  have "ma_metrics (main_run sentinel_tail ?evs '':8080'') = ErrorLogged"
    by (simp add: main_run_def main_init_def newReturns_def ifErr_def)
  then show ?thesis using startup_errors [of ?evs "'':8080''"] by (simp add: Let_def)
qed

text \<open>
  In the keeper the goroutine of the metrics shares the variable: an error of the metrics may be taken for one of the creation, or
  be lost.
\<close>

lemma keeper_shares_err:
  assumes "addr \<noteq> ''''"
  shows "ma_phase (main_run keeper_tail [New (Inr ()), ListenAndServe e, IfErr] addr) = Fatalf ''cannot create keeper'' e"
    and "ma_metrics (main_run keeper_tail [ListenAndServe e, New (Inr ()), IfMetricsErr, IfErr] addr) = ErrorMissed"
  using assms by (simp_all add: main_run_def main_init_def newReturns_def ifErr_def)

end
