(* ===== verification/Ctl_Show.thy ===== *)
theory Ctl_Show
  imports Stolonctl Config
begin

text \<open>
  The commands of \<^verbatim>\<open>stolonctl\<close> that print (\<^verbatim>\<open>cmd/stolonctl/cmd/spec.go\<close>,
  \<^verbatim>\<open>clusterdata.go\<close>, \<^verbatim>\<open>version\<close>), what runs before each command, and where
  \<^verbatim>\<open>update\<close> and \<^verbatim>\<open>init\<close> take the specification from. A document that is printed is
  its value and how it is printed; reading it gives the value again.
\<close>

section \<open>Printing\<close>

definition trimNewline :: "string \<Rightarrow> string" where
  "trimNewline s = (if s \<noteq> '''' \<and> last s = CHR 10 then butlast s else s)"

text \<open>
  What \<^verbatim>\<open>stdout\<close> and \<^verbatim>\<open>stderr\<close> write: one line, whether or not the text ends with a
  newline.
\<close>

definition stdout_text :: "string \<Rightarrow> string" where
  "stdout_text out = trimNewline out @ [CHR 10]"

definition stderr_text :: "string \<Rightarrow> string" where
  "stderr_text out = trimNewline out @ [CHR 10]"

text \<open>\<^verbatim>\<open>die\<close> writes to the error output and exits with status 1.\<close>

definition die :: "string \<Rightarrow> string \<times> nat" where
  "die message = (stderr_text message, 1)"

definition versionCommand :: "string \<Rightarrow> string" where
  "versionCommand version = stdout_text (''stolonctl version '' @ version)"

text \<open>Before every command but the main one and \<^verbatim>\<open>version\<close> the common configuration is checked.\<close>

definition PersistentPreRun :: "string \<Rightarrow> CommonConfig \<Rightarrow> CommonConfig res" where
  "PersistentPreRun name cfg = (if name \<noteq> ''stolonctl'' \<and> name \<noteq> ''version'' then CheckCommonConfig cfg else Inr cfg)"

section \<open>Showing the specification and the cluster data\<close>

datatype 'v document = Compact 'v | Indented 'v

fun readDocument :: "'v document \<Rightarrow> 'v" where
  "readDocument (Compact v) = v"
| "readDocument (Indented v) = v"

definition ctl_spec :: "unit res \<Rightarrow> (ClusterData \<times> ClusterData KVPair) option sres \<Rightarrow> bool \<Rightarrow> ClusterSpec document res" where
  "ctl_spec newStore r defaults =
     bindE newStore (\<lambda>_.
     bindE (getClusterData r) (\<lambda>(cd, _).
     bindE (ctlCluster cd) (\<lambda>(c, cs).
     bindE (if defaults then DefSpec c else Inr cs) (\<lambda>cs. Inr (Indented cs)))))"

definition ctl_clusterdata :: "unit res \<Rightarrow> (ClusterData \<times> ClusterData KVPair) option sres \<Rightarrow> bool \<Rightarrow> ClusterData document res" where
  "ctl_clusterdata newStore r pretty =
     bindE newStore (\<lambda>_.
     bindE (getClusterData r) (\<lambda>(cd, _).
       if cd_Cluster cd = None then Inl (Error ''no cluster clusterdata available'')
       else Inr (if pretty then Indented cd else Compact cd)))"

section \<open>The new specification of an update\<close>

text \<open>
  \<open>merge\<close> is \<^verbatim>\<open>strategicpatch.StrategicMergePatch\<close> on the document of the current
  specification, with the patch as a text.
\<close>

definition patchClusterSpec :: "(ClusterSpec document \<Rightarrow> string \<Rightarrow> ClusterSpec document res) \<Rightarrow> string \<Rightarrow> ClusterSpec \<Rightarrow> ClusterSpec res" where
  "patchClusterSpec merge p cs =
     (case merge (Compact cs) p of
        Inl _ \<Rightarrow> Inl (Error ''failed to merge patch cluster spec'')
      | Inr newcsj \<Rightarrow> Inr (readDocument newcsj))"

text \<open>The text: the argument, the standard input or a file.\<close>

definition updateData :: "string res \<Rightarrow> (string \<Rightarrow> string res) \<Rightarrow> string list \<Rightarrow> string \<Rightarrow> string res" where
  "updateData stdin readFile args file =
     (case args of
        [a] \<Rightarrow> Inr a
      | _ \<Rightarrow>
          if file = ''-'' then (case stdin of Inl _ \<Rightarrow> Inl (Error ''cannot read from stdin'') | Inr d \<Rightarrow> Inr d)
          else (case readFile file of Inl _ \<Rightarrow> Inl (Error ''cannot read file'') | Inr d \<Rightarrow> Inr d))"

text \<open>\<open>parse\<close> is the unmarshalling of a text to a specification.\<close>

definition updateNewSpec ::
  "(ClusterSpec document \<Rightarrow> string \<Rightarrow> ClusterSpec document res) \<Rightarrow> (string \<Rightarrow> ClusterSpec res) \<Rightarrow> bool \<Rightarrow> string \<Rightarrow> ClusterSpec \<Rightarrow> ClusterSpec res" where
  "updateNewSpec merge parse patch data cs =
     (if patch then
        (case patchClusterSpec merge data cs of Inl _ \<Rightarrow> Inl (Error ''failed to patch cluster spec'') | Inr newcs \<Rightarrow> Inr newcs)
      else (case parse data of Inl _ \<Rightarrow> Inl (Error ''failed to unmarshal cluster spec'') | Inr newcs \<Rightarrow> Inr newcs))"

section \<open>What is shown\<close>

lemma getClusterData_wf:
  assumes "wf_cd cd" and "cd_FormatVersion cd = CurrentCDFormatVersion"
  shows "getClusterData (Inr (Some (cd, pair))) = Inr (cd, pair)"
proof -
  obtain c spec where "cd_Cluster cd = Some c" "c_Spec c = Some spec" "Validate spec = None"
    using assms(1) by (auto elim: wf_cd_parts)
  then show ?thesis using assms(2) by (simp add: getClusterData_def cluster_of_def)
qed

lemma spec_shown:
  assumes "wf_cd cd" and "cd_FormatVersion cd = CurrentCDFormatVersion"
  shows "\<exists>c spec. cd_Cluster cd = Some c \<and> c_Spec c = Some spec \<and> Validate spec = None \<and>
    ctl_spec (Inr ()) (Inr (Some (cd, pair))) defaults = Inr (Indented (if defaults then WithDefaults spec else spec))"
proof -
  obtain c spec where c: "cd_Cluster cd = Some c" "c_Spec c = Some spec" "Validate spec = None" "DefSpec c = Inr (WithDefaults spec)"
    using assms(1) by (auto elim: wf_cd_parts)
  then show ?thesis using getClusterData_wf [OF assms]
    by (simp add: ctl_spec_def ctlCluster_def)
qed

lemma Validate_defaults: "Validate (WithDefaults s) = Validate s"
proof -
  have e: "def_SleepInterval (WithDefaults s) = def_SleepInterval s" "def_RequestTimeout (WithDefaults s) = def_RequestTimeout s"
    "def_ConvergenceTimeout (WithDefaults s) = def_ConvergenceTimeout s" "def_InitTimeout (WithDefaults s) = def_InitTimeout s"
    "def_SyncTimeout (WithDefaults s) = def_SyncTimeout s" "def_FailInterval (WithDefaults s) = def_FailInterval s"
    "def_DeadKeeperRemovalInterval (WithDefaults s) = def_DeadKeeperRemovalInterval s" "def_MaxStandbys (WithDefaults s) = def_MaxStandbys s"
    "def_MaxStandbysPerSender (WithDefaults s) = def_MaxStandbysPerSender s"
    "def_MinSynchronousStandbys (WithDefaults s) = def_MinSynchronousStandbys s"
    "def_MaxSynchronousStandbys (WithDefaults s) = def_MaxSynchronousStandbys s"
    "def_SUReplAccessMode (WithDefaults s) = def_SUReplAccessMode s" "def_Role (WithDefaults s) = def_Role s"
    by (simp_all add: def_field_defs WithDefaults_def)
  have f: "cs_InitMode (WithDefaults s) = cs_InitMode s" "cs_AdditionalMasterReplicationSlots (WithDefaults s) = cs_AdditionalMasterReplicationSlots s"
    "cs_PITRConfig (WithDefaults s) = cs_PITRConfig s" "cs_ExistingConfig (WithDefaults s) = cs_ExistingConfig s"
    "cs_StandbyConfig (WithDefaults s) = cs_StandbyConfig s" "cs_PGHBA (WithDefaults s) = cs_PGHBA s"
    by (simp_all add: WithDefaults_def)
  have g: "validateInitMode (WithDefaults s) = validateInitMode s" "validateAccessAndRole (WithDefaults s) = validateAccessAndRole s"
    unfolding fun_eq_iff validateInitMode_def validateAccessAndRole_def e f by simp_all
  show ?thesis unfolding Validate_def e f g by (rule refl)
qed

text \<open>
  What \<^verbatim>\<open>stolonctl spec\<close> prints can be given back to \<^verbatim>\<open>stolonctl update\<close>, with and
  without \<^verbatim>\<open>--defaults\<close>: the update is accepted, and \<^verbatim>\<open>spec\<close> then prints the same;
  without \<^verbatim>\<open>--defaults\<close> the cluster data is not changed at all.
\<close>

theorem spec_update_roundtrip:
  assumes "wf_cd cd" and "cd_FormatVersion cd = CurrentCDFormatVersion"
    and "ctl_spec (Inr ()) (Inr (Some (cd, pair))) defaults = Inr doc" and "parse json = Inr (readDocument doc)"
  shows "\<exists>cd'. update_cd (updateNewSpec merge parse False json) cd = Inr (Some cd') \<and>
    ctl_spec (Inr ()) (Inr (Some (cd', pair))) defaults = Inr doc \<and> (\<not> defaults \<longrightarrow> cd' = cd)"
proof -
  from spec_shown [OF assms(1,2), of pair defaults] assms(3) obtain c spec where
    c: "cd_Cluster cd = Some c" "c_Spec c = Some spec" "Validate spec = None"
      "doc = Indented (if defaults then WithDefaults spec else spec)" by auto
  let ?ns = "if defaults then WithDefaults spec else spec"
  have v: "Validate ?ns = None" using c(3) by (simp add: Validate_defaults)
  obtain m where "cs_InitMode spec = Some m" using c(3) by (fastforce simp: Validate_iff valid_modes_def split: option.splits)
  then have m: "cs_InitMode spec = Some m" "cs_InitMode ?ns = Some m" "def_Role ?ns = def_Role spec"
    by (simp_all add: WithDefaults_def def_Role_def)
  have up: "UpdateSpec c ?ns = Inr (c\<lparr>c_Spec := Some ?ns\<rparr>)" using c(2) v m by (simp add: UpdateSpec_def)
  have u: "update_cd (updateNewSpec merge parse False json) cd = Inr (Some (cd\<lparr>cd_Cluster := Some (c\<lparr>c_Spec := Some ?ns\<rparr>)\<rparr>))"
    using c assms(4) up by (simp add: update_cd_def updateNewSpec_def ctlCluster_def)
  have "WithDefaults (WithDefaults spec) = WithDefaults spec" using WithDefaults_total by blast
  then have "ctl_spec (Inr ()) (Inr (Some (cd\<lparr>cd_Cluster := Some (c\<lparr>c_Spec := Some ?ns\<rparr>)\<rparr>, pair))) defaults = Inr doc"
    using assms(2) v c(4) by (simp add: ctl_spec_def getClusterData_def cluster_of_def ctlCluster_def DefSpec_def)
  moreover have "cd\<lparr>cd_Cluster := Some (c\<lparr>c_Spec := Some ?ns\<rparr>)\<rparr> = cd" if "\<not> defaults"
    using that c(1,2) by (cases cd, cases c) simp
  ultimately show ?thesis using u by blast
qed

section \<open>Examples\<close>

theorem spec_update_roundtrip_witness:
  "\<exists>cd'. update_cd (updateNewSpec (\<lambda>d _. Inr d) (\<lambda>_. Inr (WithDefaults example_spec)) False ''json'') example_cd = Inr (Some cd') \<and>
     ctl_spec (Inr ()) (Inr (Some (cd', example_pair))) True = Inr (Indented (WithDefaults example_spec))"
proof -
  have v: "cd_FormatVersion example_cd = CurrentCDFormatVersion" by code_simp
  have s: "ctl_spec (Inr ()) (Inr (Some (example_cd, example_pair))) True = Inr (Indented (WithDefaults example_spec))"
    using spec_shown [OF example_cd_wf v, of example_pair True] example_facts(1) by (auto simp: example_cd_def example_cluster_def)
  from spec_update_roundtrip [OF example_cd_wf v s, of "\<lambda>_. Inr (WithDefaults example_spec)" "''json''" "\<lambda>d _. Inr d"]
  show ?thesis by auto
qed

end
