(* ===== verification/Durations.thy ===== *)
theory Durations
  imports Cluster Pgutils "HOL-Library.Log_Nat"
begin

text \<open>
  The durations of the cluster specification in JSON: \<^verbatim>\<open>MarshalJSON\<close> and
  \<^verbatim>\<open>UnmarshalJSON\<close> of \<^verbatim>\<open>Duration\<close> in
  \<^verbatim>\<open>internal/cluster/cluster.go\<close>, which write a duration as Go prints it
  (\<^verbatim>\<open>1h2m0.5s\<close>) and parse it again. \<^verbatim>\<open>String\<close> and
  \<^verbatim>\<open>ParseDuration\<close> are those of the package \<^verbatim>\<open>time\<close>. A duration is a number of
  nanoseconds; a character is a byte; the texts of the errors are shortened.
\<close>

section \<open>Printing\<close>

definition is_digit :: "char \<Rightarrow> bool" where
  "is_digit c \<longleftrightarrow> (let n = of_char c :: nat in 48 \<le> n \<and> n \<le> 57)"

definition digit_char :: "nat \<Rightarrow> char" where
  "digit_char d = char_of (48 + d)"

definition char_digit :: "char \<Rightarrow> nat" where
  "char_digit c = of_char c - 48"

fun fmtInt :: "nat \<Rightarrow> string" where
  "fmtInt v = (if v < 10 then [digit_char v] else fmtInt (v div 10) @ [digit_char (v mod 10)])"

declare fmtInt.simps [simp del]

text \<open>The fraction without its trailing zeros: the loop, from the last digit on, then the point.\<close>

fun fmtFracLoop :: "nat \<Rightarrow> nat \<Rightarrow> bool \<Rightarrow> string \<Rightarrow> string \<times> bool \<times> nat" where
  "fmtFracLoop 0 v prt buf = (buf, prt, v)"
| "fmtFracLoop (Suc n) v prt buf =
     (let digit = v mod 10; prt = (prt \<or> digit \<noteq> 0)
      in fmtFracLoop n (v div 10) prt (if prt then digit_char digit # buf else buf))"

definition fmtFrac :: "nat \<Rightarrow> nat \<Rightarrow> string \<times> nat" where
  "fmtFrac v prec = (case fmtFracLoop prec v False '''' of (buf, prt, v) \<Rightarrow> (if prt then CHR ''.'' # buf else buf, v))"

definition micro :: string where "micro = [char_of (194 :: nat), char_of (181 :: nat)]"

definition Duration_body :: "nat \<Rightarrow> string" where
  "Duration_body u =
     (if u < 10 ^ 9 then
        (if u = 0 then ''0s''
         else
           let (prec, unit) = (if u < 10 ^ 3 then (0, ''n'') else if u < 10 ^ 6 then (3, micro) else (6, ''m''));
               (fr, u) = fmtFrac u prec
           in fmtInt u @ fr @ unit @ ''s'')
      else
        let (fr, u) = fmtFrac u 9;
            seconds = fmtInt (u mod 60) @ fr @ ''s'';
            u = u div 60
        in if u > 0 then
             let minutes = fmtInt (u mod 60) @ ''m''; u = u div 60
             in (if u > 0 then fmtInt u @ ''h'' else '''') @ minutes @ seconds
           else seconds)"

definition Duration_String :: "duration \<Rightarrow> string" where
  "Duration_String d = (if d < 0 then CHR ''-'' # Duration_body (nat \<bar>d\<bar>) else Duration_body (nat \<bar>d\<bar>))"

section \<open>Floating point\<close>

text \<open>
  A nonnegative number rounded to the 53 bits of \<^verbatim>\<open>float64\<close>, to the nearest one and to the even one of two.
  \<open>ulp\<close> is the distance of the numbers of 53 bits at \<open>x\<close>. Overflow and underflow are not needed: where
  they happen below, the result is less than a nanosecond.
\<close>

definition ulp :: "rat \<Rightarrow> rat" where
  "ulp x = (if x \<ge> 1 then 2 powi (int (floorlog 2 (nat \<lfloor>x\<rfloor>)) - 53) else 2 powi (- int (floorlog 2 (nat \<lfloor>1 / x\<rfloor>)) - 52))"

definition round_half_even :: "rat \<Rightarrow> int" where
  "round_half_even x =
     (let n = \<lfloor>x\<rfloor>; d = x - of_int n
      in if d < 1 / 2 then n else if d > 1 / 2 then n + 1 else if even n then n else n + 1)"

definition float64 :: "rat \<Rightarrow> rat" where
  "float64 x = (if x = 0 then 0 else of_int (round_half_even (x / ulp x)) * ulp x)"

lemma ulp_nat:
  assumes "0 < n" and "n < 2 ^ 53"
  shows "\<exists>j. ulp (of_nat n) = inverse (2 ^ j)"
proof -
  have "floorlog 2 n \<le> 53" using assms(2) by (simp add: floorlog_le_iff)
  then have e: "int (floorlog 2 n) - 53 = - int (53 - floorlog 2 n)" by simp
  have "(1 :: rat) \<le> of_nat n" using assms(1) by simp
  then have "ulp (of_nat n) = inverse (2 ^ (53 - floorlog 2 n))"
    by (simp only: ulp_def if_True floor_of_nat nat_int e power_int_minus power_int_of_nat)
  then show ?thesis by blast
qed

lemma round_half_even_int: "round_half_even (of_int i) = i"
  by (simp add: round_half_even_def)

lemma float64_nat:
  assumes "n < 2 ^ 53"
  shows "float64 (of_nat n) = of_nat n"
proof (cases "n = 0")
  case False
  then obtain j where u: "ulp (of_nat n) = inverse (2 ^ j)" using ulp_nat [of n] assms by blast
  have "of_nat n / ulp (of_nat n) = of_int (int n * 2 ^ j)" unfolding u by (simp add: divide_inverse)
  then have "round_half_even (of_nat n / ulp (of_nat n)) = int n * 2 ^ j" by (simp only: round_half_even_int)
  then have "float64 (of_nat n) = of_int (int n * 2 ^ j) * inverse (2 ^ j)" using False by (simp only: float64_def u of_nat_eq_0_iff if_False)
  then show ?thesis by simp
qed (simp add: float64_def)

section \<open>Parsing\<close>

fun leadingInt :: "nat \<Rightarrow> string \<Rightarrow> (nat \<times> string) res" where
  "leadingInt x [] = Inr (x, [])"
| "leadingInt x (c # s) =
     (if \<not> is_digit c then Inr (x, c # s)
      else if x > (2 ^ 63 - 1) div 10 then Inl (Error ''bad [0-9]*'')
      else let x = x * 10 + char_digit c
           in if x \<ge> 2 ^ 63 then Inl (Error ''bad [0-9]*'') else leadingInt x s)"

fun leadingFraction :: "nat \<Rightarrow> rat \<Rightarrow> bool \<Rightarrow> string \<Rightarrow> nat \<times> rat \<times> string" where
  "leadingFraction x scale overflow [] = (x, scale, [])"
| "leadingFraction x scale overflow (c # s) =
     (if \<not> is_digit c then (x, scale, c # s)
      else if overflow then leadingFraction x scale overflow s
      else if x > (2 ^ 63 - 1) div 10 then leadingFraction x scale True s
      else let y = x * 10 + char_digit c
           in if y \<ge> 2 ^ 63 then leadingFraction x scale True s else leadingFraction y (float64 (scale * 10)) overflow s)"

definition unitMap :: "string \<Rightarrow> nat option" where
  "unitMap u =
     (if u = ''ns'' then Some 1
      else if u = ''us'' \<or> u = micro @ ''s'' \<or> u = [char_of (206 :: nat), char_of (188 :: nat)] @ ''s'' then Some (10 ^ 3)
      else if u = ''ms'' then Some (10 ^ 6)
      else if u = ''s'' then Some (10 ^ 9)
      else if u = ''m'' then Some (60 * 10 ^ 9)
      else if u = ''h'' then Some (3600 * 10 ^ 9)
      else None)"

text \<open>\<^verbatim>\<open>int64(float64(f) * (float64(unit) / scale))\<close>\<close>

definition fscale :: "nat \<Rightarrow> nat \<Rightarrow> rat \<Rightarrow> nat" where
  "fscale f unit scale = nat \<lfloor>float64 (float64 (of_nat f) * float64 (float64 (of_nat unit) / scale))\<rfloor>"

text \<open>One number with its unit, in nanoseconds.\<close>

definition unit_char :: "char \<Rightarrow> bool" where
  "unit_char c \<longleftrightarrow> c \<noteq> CHR ''.'' \<and> \<not> is_digit c"

definition parseStep :: "string \<Rightarrow> (nat \<times> string) res" where
  "parseStep s =
     (if s = '''' \<or> \<not> (hd s = CHR ''.'' \<or> is_digit (hd s)) then Inl (Error ''invalid duration'')
      else
        bindE (leadingInt 0 s) (\<lambda>(v, s1).
        let pre = (length s \<noteq> length s1);
            (f, scale, s2, post) =
              (if s1 \<noteq> '''' \<and> hd s1 = CHR ''.''
               then (case leadingFraction 0 1 False (tl s1) of (f, scale, r) \<Rightarrow> (f, scale, r, length (tl s1) \<noteq> length r))
               else (0, 1, s1, False));
            u = takeWhile unit_char s2
        in if \<not> pre \<and> \<not> post then Inl (Error ''invalid duration'')
           else if u = '''' then Inl (Error ''missing unit in duration'')
           else (case unitMap u of
                   None \<Rightarrow> Inl (Error ''unknown unit in duration'')
                 | Some unit \<Rightarrow>
                     if v > (2 ^ 63 - 1) div unit then Inl (Error ''invalid duration'')
                     else
                       let w = (if f > 0 then v * unit + fscale f unit scale else v * unit)
                       in if w \<ge> 2 ^ 63 then Inl (Error ''invalid duration'')
                          else Inr (w, dropWhile unit_char s2))))"

lemma leadingInt_length: "leadingInt x s = Inr (v, r) \<Longrightarrow> length r \<le> length s"
  by (induction x s rule: leadingInt.induct) (auto simp: Let_def split: if_splits)

lemma leadingFraction_length: "leadingFraction x scale ov s = (f, sc, r) \<Longrightarrow> length r \<le> length s"
  by (induction x scale ov s rule: leadingFraction.induct) (auto simp: Let_def split: if_splits)

lemma takeWhile_shorter: "takeWhile P s \<noteq> [] \<Longrightarrow> length (dropWhile P s) < length s"
  by (cases s) (auto simp: length_dropWhile_le le_imp_less_Suc split: if_splits)

lemma parseStep_shorter:
  assumes "parseStep s = Inr (w, r)"
  shows "length r < length s"
proof -
  from assms obtain v s1 where l: "leadingInt 0 s = Inr (v, s1)" by (auto simp: parseStep_def bindE_eq_Inr split: if_splits)
  have "length s1 \<le> length s" by (rule leadingInt_length [OF l])
  moreover obtain f scale r1 where fr: "leadingFraction 0 1 False (tl s1) = (f, scale, r1)" by (cases "leadingFraction 0 1 False (tl s1)")
  have "length r1 \<le> length s1" using leadingFraction_length [OF fr] by simp
  moreover define s2 where "s2 = (if s1 \<noteq> '''' \<and> hd s1 = CHR ''.'' then r1 else s1)"
  have "r = dropWhile unit_char s2 \<and> takeWhile unit_char s2 \<noteq> []"
    using assms l fr by (auto simp: parseStep_def Let_def s2_def split: if_splits option.splits)
  then have "length r < length s2" using takeWhile_shorter [of unit_char s2] by auto
  ultimately show ?thesis by (auto simp: s2_def split: if_splits)
qed

function (sequential) parseLoopD :: "nat \<Rightarrow> string \<Rightarrow> nat res" where
  "parseLoopD d s =
     (if s = '''' then Inr d
      else (case parseStep s of
              Inl e \<Rightarrow> Inl e
            | Inr (v, r) \<Rightarrow> if d + v \<ge> 2 ^ 63 then Inl (Error ''invalid duration'') else parseLoopD (d + v) r))"
  by pat_completeness auto
termination
  by (relation "measure (\<lambda>(_, s). length s)") (auto dest: parseStep_shorter)

declare parseLoopD.simps [simp del]

definition ParseDuration :: "string \<Rightarrow> duration res" where
  "ParseDuration orig =
     (let neg = (orig \<noteq> '''' \<and> hd orig = CHR ''-'');
          s = (if orig \<noteq> '''' \<and> (hd orig = CHR ''-'' \<or> hd orig = CHR ''+'') then tl orig else orig)
      in if s = ''0'' then Inr 0
         else if s = '''' then Inl (Error ''invalid duration'')
         else bindE (parseLoopD 0 s) (\<lambda>d. Inr (if neg then - int d else int d)))"

section \<open>JSON\<close>

definition quote :: char where "quote = CHR 34"

definition MarshalJSON :: "duration \<Rightarrow> string" where
  "MarshalJSON d = quote # Duration_String d @ [quote]"

definition trimQuotes :: "string \<Rightarrow> string" where
  "trimQuotes b = rev (dropWhile (\<lambda>c. c = quote) (rev (dropWhile (\<lambda>c. c = quote) b)))"

definition UnmarshalJSON :: "string \<Rightarrow> duration res" where
  "UnmarshalJSON b = ParseDuration (trimQuotes b)"

section \<open>Digits\<close>

lemma digit_char_facts:
  assumes "d < 10"
  shows "is_digit (digit_char d)" and "char_digit (digit_char d) = d" and "digit_char d \<noteq> CHR ''.''"
    and "digit_char d \<noteq> CHR ''-''" and "digit_char d \<noteq> CHR ''+''" and "digit_char d \<noteq> quote"
proof -
  have o: "of_char (digit_char d) = (48 + d :: nat)" using assms by (simp add: digit_char_def)
  then show "is_digit (digit_char d)" "char_digit (digit_char d) = d" using assms by (simp_all add: is_digit_def char_digit_def)
  have "of_char (CHR ''.'') = (46 :: nat)" "of_char (CHR ''-'') = (45 :: nat)" "of_char (CHR ''+'') = (43 :: nat)" "of_char quote = (34 :: nat)"
    by (simp_all add: quote_def)
  then show "digit_char d \<noteq> CHR ''.''" "digit_char d \<noteq> CHR ''-''" "digit_char d \<noteq> CHR ''+''" "digit_char d \<noteq> quote"
    using o by (metis add_leD1 le_add1 less_irrefl_nat numeral_less_iff order_less_le_trans semiring_norm)+
qed

text \<open>The number that a sequence of digits means.\<close>

definition digits_val :: "nat \<Rightarrow> string \<Rightarrow> nat" where
  "digits_val x ds = foldl (\<lambda>x c. x * 10 + char_digit c) x ds"

lemma digits_val_simps [simp]:
  "digits_val x [] = x" "digits_val x (c # ds) = digits_val (x * 10 + char_digit c) ds"
  "digits_val x (ds @ [c]) = digits_val x ds * 10 + char_digit c"
  by (simp_all add: digits_val_def)

lemma digits_val_mono: "x \<le> digits_val x ds"
proof (induction ds arbitrary: x)
  case (Cons c ds)
  have "x \<le> x * 10 + char_digit c" by simp
  also have "\<dots> \<le> digits_val (x * 10 + char_digit c) ds" by (rule Cons)
  finally show ?case by simp
qed simp

lemma digits_val_from: "digits_val x ds = x * 10 ^ length ds + digits_val 0 ds"
proof (induction ds arbitrary: x)
  case (Cons c ds)
  from Cons [of "x * 10 + char_digit c"] Cons [of "char_digit c"] show ?case by (simp add: algebra_simps)
qed simp

lemma fmtInt_digits: "list_all is_digit (fmtInt n) \<and> digits_val 0 (fmtInt n) = n \<and> fmtInt n \<noteq> []"
proof (induction n rule: fmtInt.induct)
  case (1 v)
  then show ?case
    by (cases "v < 10") (simp_all add: fmtInt.simps [of v] digit_char_facts div_mult_mod_eq)
qed

lemma fmtInt_hd: "is_digit (hd (fmtInt n))"
  using fmtInt_digits [of n] by (cases "fmtInt n") auto

lemma leadingInt_digits:
  assumes "list_all is_digit ds" and "digits_val x ds < 2 ^ 63" and "s = [] \<or> \<not> is_digit (hd s)"
  shows "leadingInt x (ds @ s) = Inr (digits_val x ds, s)"
  using assms
proof (induction ds arbitrary: x)
  case Nil
  then show ?case by (cases s) auto
next
  case (Cons c ds)
  let ?x = "x * 10 + char_digit c"
  have "?x \<le> digits_val ?x ds" by (rule digits_val_mono)
  then have b: "?x < 2 ^ 63" using Cons.prems(2) by simp
  then have "\<not> x > (2 ^ 63 - 1) div 10" by linarith
  then show ?case using Cons b by (simp add: Let_def)
qed

lemma leadingFraction_digits:
  assumes "list_all is_digit ds" and "digits_val x ds < 2 ^ 63" and "s = [] \<or> \<not> is_digit (hd s)" and "j + length ds \<le> 9"
  shows "leadingFraction x (10 ^ j) False (ds @ s) = (digits_val x ds, 10 ^ (j + length ds), s)"
  using assms
proof (induction ds arbitrary: x j)
  case Nil
  then show ?case by (cases s) auto
next
  case (Cons c ds)
  let ?x = "x * 10 + char_digit c"
  have "?x \<le> digits_val ?x ds" by (rule digits_val_mono)
  then have b: "?x < 2 ^ 63" using Cons.prems(2) by simp
  then have "\<not> x > (2 ^ 63 - 1) div 10" by linarith
  moreover have "(10 :: nat) ^ Suc j \<le> 10 ^ 9" using Cons.prems(4) by (intro power_increasing) auto
  then have "(10 :: nat) ^ Suc j < 2 ^ 53" by simp
  from float64_nat [OF this] have "float64 (10 ^ j * 10) = 10 ^ Suc j" by (simp add: mult.commute)
  ultimately show ?case using Cons.IH [of ?x "Suc j"] Cons.prems b by (simp add: Let_def del: power_Suc)
qed

section \<open>Fractions\<close>

lemma fmtFracLoop_on:
  assumes "list_all is_digit buf" and "fmtFracLoop n v True buf = (ds, prt, v')"
  shows "prt \<and> v' = v div 10 ^ n \<and> list_all is_digit ds \<and> length ds = n + length buf \<and>
    digits_val 0 ds = (v mod 10 ^ n) * 10 ^ length buf + digits_val 0 buf"
  using assms
proof (induction n arbitrary: v buf)
  case 0
  then show ?case by simp
next
  case (Suc n)
  let ?d = "v mod 10"
  have d: "is_digit (digit_char ?d)" "char_digit (digit_char ?d) = ?d" using digit_char_facts [of ?d] by simp_all
  have r: "fmtFracLoop n (v div 10) True (digit_char ?d # buf) = (ds, prt, v')" using Suc.prems(2) by simp
  from Suc.IH [OF _ r] Suc.prems(1) d(1) have i: "prt" "v' = v div 10 div 10 ^ n" "list_all is_digit ds" "length ds = n + Suc (length buf)"
    "digits_val 0 ds = (v div 10 mod 10 ^ n) * 10 ^ Suc (length buf) + digits_val 0 (digit_char ?d # buf)" by simp_all
  have "digits_val 0 (digit_char ?d # buf) = ?d * 10 ^ length buf + digits_val 0 buf"
    using digits_val_from [of ?d buf] d(2) by simp
  moreover have "v mod 10 ^ Suc n = 10 * (v div 10 mod 10 ^ n) + ?d" by (simp add: mod_mult2_eq)
  ultimately have "digits_val 0 ds = (v mod 10 ^ Suc n) * 10 ^ length buf + digits_val 0 buf" using i(5) by (simp add: algebra_simps)
  then show ?case using i by (simp add: div_mult2_eq)
qed

lemma fmtFracLoop_off:
  assumes "fmtFracLoop n v False [] = (ds, prt, v')"
  shows "v' = v div 10 ^ n \<and> list_all is_digit ds \<and> length ds \<le> n \<and> digits_val 0 ds * 10 ^ (n - length ds) = v mod 10 ^ n \<and>
    (prt \<longrightarrow> v mod 10 ^ n > 0 \<and> ds \<noteq> []) \<and> (\<not> prt \<longrightarrow> ds = [])"
  using assms
proof (induction n arbitrary: v)
  case 0
  then show ?case by simp
next
  case (Suc n)
  let ?d = "v mod 10"
  have m: "v mod 10 ^ Suc n = 10 * (v div 10 mod 10 ^ n) + ?d" by (simp add: mod_mult2_eq)
  show ?case
  proof (cases "?d = 0")
    case True
    then have r: "fmtFracLoop n (v div 10) False [] = (ds, prt, v')" using Suc.prems by simp
    note i = Suc.IH [OF r]
    have "digits_val 0 ds * 10 ^ (Suc n - length ds) = 10 * (digits_val 0 ds * 10 ^ (n - length ds))"
      using i by (simp add: Suc_diff_le)
    then show ?thesis using i m True by (auto simp: div_mult2_eq)
  next
    case False
    have d: "is_digit (digit_char ?d)" "char_digit (digit_char ?d) = ?d" using digit_char_facts [of ?d] by simp_all
    have "fmtFracLoop n (v div 10) True [digit_char ?d] = (ds, prt, v')" using Suc.prems False by simp
    from fmtFracLoop_on [OF _ this] d show ?thesis using m False by (auto simp: div_mult2_eq)
  qed
qed

section \<open>Round trip\<close>

text \<open>A fraction that is a whole number of nanoseconds below a second is exact.\<close>

lemma fscale_exact:
  assumes "scale dvd unit" and "f < scale" and "0 < unit" and "unit \<le> 10 ^ 9"
  shows "fscale f unit (of_nat scale) = f * (unit div scale)"
proof -
  obtain m where m: "unit = scale * m" using assms(1) by (rule dvdE)
  have sm: "0 < scale" "0 < m" using assms(3) m by auto
  have "scale \<le> scale * m" "m \<le> scale * m" "f * m \<le> scale * m" using sm assms(2) by simp_all
  then have "f < 10 ^ 9" "m \<le> 10 ^ 9" "f * m \<le> 10 ^ 9" using assms(2,4) m by linarith+
  then have b: "f < 2 ^ 53" "m < 2 ^ 53" "f * m < 2 ^ 53" "unit < 2 ^ 53" using assms(4) by simp_all
  have "of_nat unit / of_nat scale = (of_nat m :: rat)" using m sm by simp
  then have "fscale f unit (of_nat scale) = nat \<lfloor>float64 (of_nat f * of_nat m)\<rfloor>"
    using float64_nat [OF b(4)] float64_nat [OF b(1)] float64_nat [OF b(2)] by (simp add: fscale_def)
  also have "\<dots> = nat \<lfloor>of_nat (f * m) :: rat\<rfloor>" using float64_nat [OF b(3)] by (simp only: of_nat_mult)
  also have "\<dots> = f * m" by (simp only: floor_of_nat nat_int)
  finally show ?thesis using m sm by simp
qed

lemma digits_val_less: "list_all is_digit ds \<Longrightarrow> digits_val 0 ds < 10 ^ length ds"
proof (induction ds rule: rev_induct)
  case (snoc c ds)
  then have "48 \<le> (of_char c :: nat)" "of_char c \<le> (57 :: nat)" by (simp_all add: is_digit_def Let_def)
  then have "char_digit c < 10" unfolding char_digit_def by linarith
  then show ?case using snoc by simp
qed simp

lemma unit_end: "list_all unit_char u \<Longrightarrow> rest = [] \<or> is_digit (hd rest) \<Longrightarrow>
    takeWhile unit_char (u @ rest) = u \<and> dropWhile unit_char (u @ rest) = rest"
  by (cases rest) (auto simp: list_all_iff unit_char_def takeWhile_append2 dropWhile_append2)

lemma unitMap_units:
  "unitMap ''ns'' = Some (10 ^ 0)" "unitMap (micro @ ''s'') = Some (10 ^ 3)" "unitMap ''ms'' = Some (10 ^ 6)" "unitMap ''s'' = Some (10 ^ 9)"
  "unitMap ''m'' = Some (60 * 10 ^ 9)" "unitMap ''h'' = Some (3600 * 10 ^ 9)"
  by (simp_all add: unitMap_def micro_def)

lemma unit_chars:
  "list_all unit_char ''ns''" "list_all unit_char (micro @ ''s'')" "list_all unit_char ''ms''" "list_all unit_char ''s''"
  "list_all unit_char ''m''" "list_all unit_char ''h''"
  by code_simp+

lemma unit_hd: "list_all unit_char u \<Longrightarrow> u \<noteq> [] \<Longrightarrow> \<not> is_digit (hd (u @ rest)) \<and> hd (u @ rest) \<noteq> CHR ''.''"
  by (cases u) (auto simp: unit_char_def)

text \<open>A whole number with its unit.\<close>

lemma parse_whole:
  assumes "list_all unit_char u" and "u \<noteq> []" and "unitMap u = Some unit" and "n * unit < 2 ^ 63" and "0 < unit"
    and "rest = [] \<or> is_digit (hd rest)"
  shows "parseStep (fmtInt n @ u @ rest) = Inr (n * unit, rest)"
proof -
  note d = fmtInt_digits [of n]
  note h = unit_hd [OF assms(1,2), of rest]
  have "n \<le> n * unit" using assms(5) by (cases unit) auto
  then have "n < 2 ^ 63" using assms(4) by (rule le_less_trans)
  then have l: "leadingInt 0 (fmtInt n @ u @ rest) = Inr (n, u @ rest)"
    using leadingInt_digits [of "fmtInt n" 0 "u @ rest"] d h by simp
  have "n \<le> (2 ^ 63 - 1) div unit" using assms(4,5) by (simp add: less_eq_div_iff_mult_less_eq)
  then show ?thesis
    using l d h unit_end [OF assms(1,6)] assms(2-4) fmtInt_hd [of n]
    by (simp add: parseStep_def Let_def hd_append not_less)
qed

text \<open>A number with a fraction, as \<open>fmtFrac\<close> prints it.\<close>

lemma parse_fraction:
  assumes "fmtFrac v prec = (fr, v')" and "prec \<le> 9"
    and "list_all unit_char u" and "u \<noteq> []" and "unitMap u = Some (10 ^ prec)" and "n * 10 ^ prec + v mod 10 ^ prec < 2 ^ 63"
    and "rest = [] \<or> is_digit (hd rest)"
  shows "parseStep (fmtInt n @ fr @ u @ rest) = Inr (n * 10 ^ prec + v mod 10 ^ prec, rest)" and "v' = v div 10 ^ prec"
proof -
  obtain ds prt where l: "fmtFracLoop prec v False [] = (ds, prt, v')" and fr: "fr = (if prt then CHR ''.'' # ds else ds)"
    using assms(1) by (auto simp: fmtFrac_def split: prod.splits)
  note f = fmtFracLoop_off [OF l]
  then show "v' = v div 10 ^ prec" by simp
  show "parseStep (fmtInt n @ fr @ u @ rest) = Inr (n * 10 ^ prec + v mod 10 ^ prec, rest)"
  proof (cases prt)
    case False
    then have "ds = []" "v mod 10 ^ prec = 0" using f by auto
    then show ?thesis using parse_whole [OF assms(3-5) _ _ assms(7), of n] assms(6) fr False by simp
  next
    case True
    note d = fmtInt_digits [of n]
    note h = unit_hd [OF assms(3,4), of rest]
    let ?x = "digits_val 0 ds" and ?s = "CHR ''.'' # ds @ u @ rest"
    have dot: "\<not> is_digit (CHR ''.'')" by code_simp
    have ds: "list_all is_digit ds" "length ds \<le> prec" "?x * 10 ^ (prec - length ds) = v mod 10 ^ prec" "0 < v mod 10 ^ prec" "ds \<noteq> []"
      using f True by auto
    have xs: "?x < 10 ^ length ds" by (rule digits_val_less [OF ds(1)])
    have p: "10 ^ length ds \<le> (10 ^ prec :: nat)" "10 ^ prec \<le> (10 ^ 9 :: nat)"
      using power_increasing [of "length ds" prec "10 :: nat"] power_increasing [of prec 9 "10 :: nat"] ds(2) assms(2) by simp_all
    have n: "n < 2 ^ 63"
    proof -
      have "n \<le> n * 10 ^ prec" by simp
      then show ?thesis using assms(6) by linarith
    qed
    then have li: "leadingInt 0 (fmtInt n @ ?s) = Inr (n, ?s)"
      using leadingInt_digits [of "fmtInt n" 0 ?s] d dot by simp
    have "?x < 10 ^ 9" using xs p(1) p(2) by (meson less_le_trans)
    then have "?x < 2 ^ 63" by simp
    then have lf: "leadingFraction 0 1 False (ds @ u @ rest) = (?x, 10 ^ length ds, u @ rest)"
      using leadingFraction_digits [OF ds(1), of 0 "u @ rest" 0] h ds(2) assms(2) by simp
    have q: "10 ^ prec div 10 ^ length ds = (10 ^ (prec - length ds) :: nat)" using ds(2) by (simp add: power_diff)
    have dv: "(10 ^ length ds :: nat) dvd 10 ^ prec" using ds(2) by (simp add: le_imp_power_dvd)
    have sc: "fscale ?x (10 ^ prec) (10 ^ length ds) = v mod 10 ^ prec"
      using fscale_exact [OF dv xs _ p(2)] q ds(3) by simp
    have x: "0 < ?x" using ds(3,4) by (cases ?x) auto
    have nn: "n \<le> (2 ^ 63 - 1) div 10 ^ prec" using assms(6) by (simp add: less_eq_div_iff_mult_less_eq)
    have e: "fmtInt n @ fr @ u @ rest = fmtInt n @ ?s" using fr True by simp
    have st: "fmtInt n @ ?s \<noteq> []" "is_digit (hd (fmtInt n @ ?s))" "length (fmtInt n @ ?s) \<noteq> length ?s"
      using d fmtInt_hd [of n] by simp_all
    show ?thesis
      unfolding e using st li lf unit_end [OF assms(3,7)] assms(4-6) nn x sc
      by (simp add: parseStep_def Let_def not_less)
  qed
qed


lemma parse_next:
  assumes "parseStep s = Inr (v, r)" and "d + v < 2 ^ 63"
  shows "parseLoopD d s = parseLoopD (d + v) r"
proof -
  have "s \<noteq> ''''" using parseStep_shorter [OF assms(1)] by auto
  then show ?thesis using assms by (simp add: parseLoopD.simps [of d s])
qed

lemma parse_end: "parseLoopD d [] = Inr d"
  by (simp add: parseLoopD.simps)

text \<open>One number with its unit, at the end of the text.\<close>

lemma parse_last:
  assumes "fmtFrac v prec = (fr, v')" and "prec \<le> 9"
    and "list_all unit_char u" and "u \<noteq> []" and "unitMap u = Some (10 ^ prec)" and "d + n * 10 ^ prec + v mod 10 ^ prec < 2 ^ 63"
  shows "parseLoopD d (fmtInt n @ fr @ u) = Inr (d + n * 10 ^ prec + v mod 10 ^ prec)"
proof -
  have "n * 10 ^ prec + v mod 10 ^ prec < 2 ^ 63" using assms(6) by linarith
  from parse_fraction(1) [OF assms(1-5) this, of "[]"]
  have "parseStep (fmtInt n @ fr @ u) = Inr (n * 10 ^ prec + v mod 10 ^ prec, [])" by simp
  from parse_next [OF this, of d] show ?thesis using assms(6) by (simp add: parse_end add.assoc)
qed

lemma fmtFrac_quotient: "fmtFrac v prec = (fr, v') \<Longrightarrow> v' = v div 10 ^ prec"
  using fmtFracLoop_off [of prec v] by (auto simp: fmtFrac_def split: prod.splits)

lemma body_small:
  assumes "u < 10 ^ 9"
  shows "parseLoopD 0 (Duration_body u) = Inr u"
proof -
  have part: "parseLoopD 0 (case fmtFrac u prec of (fr, v) \<Rightarrow> fmtInt v @ fr @ t) = Inr u"
    if "prec \<le> 9" "list_all unit_char t" "t \<noteq> []" "unitMap t = Some (10 ^ prec)" for prec t
  proof -
    obtain fr v where f: "fmtFrac u prec = (fr, v)" by (cases "fmtFrac u prec")
    have "v = u div 10 ^ prec" by (rule fmtFrac_quotient [OF f])
    then have e: "v * 10 ^ prec + u mod 10 ^ prec = u" by (simp only: div_mult_mod_eq)
    then have "0 + v * 10 ^ prec + u mod 10 ^ prec < 2 ^ 63" using assms by simp
    from parse_last [OF f that this] show ?thesis using f e by simp
  qed
  have "fmtInt 0 = ''0''" by code_simp
  then have zero: "parseLoopD 0 ''0s'' = Inr 0"
    using parse_next [OF parse_whole [OF unit_chars(4) _ unitMap_units(4), of 0 "[]"], of 0]
    by (simp add: parse_end)
  consider "u = 0" | "u \<noteq> 0" "u < 10 ^ 3" | "10 ^ 3 \<le> u" "u < 10 ^ 6" | "10 ^ 6 \<le> u" by linarith
  then show ?thesis
  proof cases
    case 1 then show ?thesis using zero by (simp add: Duration_body_def)
  next
    case 2 then show ?thesis using part [of 0 "''ns''"] unit_chars unitMap_units by (simp add: Duration_body_def)
  next
    case 3 then show ?thesis using part [of 3 "micro @ ''s''"] unit_chars unitMap_units assms by (simp add: Duration_body_def micro_def)
  next
    case 4 then show ?thesis using part [of 6 "''ms''"] unit_chars unitMap_units assms by (simp add: Duration_body_def)
  qed
qed

lemma body_large:
  assumes "10 ^ 9 \<le> u" and "u < 2 ^ 63"
  shows "parseLoopD 0 (Duration_body u) = Inr u"
proof -
  obtain fr q where f: "fmtFrac u 9 = (fr, q)" by (cases "fmtFrac u 9")
  have "q = u div 10 ^ 9" by (rule fmtFrac_quotient [OF f])
  then have u: "u = q * 10 ^ 9 + u mod 10 ^ 9" by (simp only: div_mult_mod_eq)
  let ?s = "q mod 60" and ?m = "q div 60 mod 60" and ?h = "q div 60 div 60"
  let ?secs = "fmtInt ?s @ fr @ ''s''" and ?mins = "fmtInt ?m @ ''m''"
  have q: "q = ?h * 3600 + ?m * 60 + ?s"
    using div_mult_mod_eq [of q 60] div_mult_mod_eq [of "q div 60" 60] by linarith
  have sum: "x = h * (3600 * 10 ^ 9) + m * (60 * 10 ^ 9) + s * 10 ^ 9 + r" if "x = y * 10 ^ 9 + r" "y = h * 3600 + m * 60 + s"
    for x y h m s r :: nat using that by simp
  note e = sum [OF u q]
  have secs: "parseLoopD d ?secs = Inr (d + ?s * 10 ^ 9 + u mod 10 ^ 9)" if "d + ?s * 10 ^ 9 + u mod 10 ^ 9 < 2 ^ 63" for d
    using parse_last [OF f order_refl unit_chars(4) _ unitMap_units(4) that] by simp
  have mins: "parseLoopD d (?mins @ ?secs) = Inr (d + ?m * (60 * 10 ^ 9) + ?s * 10 ^ 9 + u mod 10 ^ 9)"
    if b: "d + ?m * (60 * 10 ^ 9) + ?s * 10 ^ 9 + u mod 10 ^ 9 < 2 ^ 63" for d
  proof -
    have "?m * (60 * 10 ^ 9) < 2 ^ 63" "d + ?m * (60 * 10 ^ 9) < 2 ^ 63" using b by linarith+
    from parse_next [OF parse_whole [OF unit_chars(5) _ unitMap_units(5) this(1)] this(2)]
    show ?thesis using secs [OF b] fmtInt_hd [of ?s] fmtInt_digits [of ?s] by (simp add: hd_append)
  qed
  consider "q div 60 = 0" | "q div 60 > 0" "?h = 0" | "?h > 0" by linarith
  then show ?thesis
  proof cases
    case 1
    then show ?thesis using secs [of 0] e assms f by (simp add: Duration_body_def)
  next
    case 2
    then show ?thesis using mins [of 0] e assms f by (simp add: Duration_body_def Let_def)
  next
    case 3
    then have nz: "q div 60 > 0" by (cases "q div 60") auto
    have "?h * (3600 * 10 ^ 9) < 2 ^ 63" using e assms(2) by linarith
    from parse_next [where d = 0, OF parse_whole [where rest = "?mins @ ?secs", OF unit_chars(6) _ unitMap_units(6) this]] this
    have "parseLoopD 0 ((fmtInt ?h @ ''h'') @ ?mins @ ?secs) = parseLoopD (?h * (3600 * 10 ^ 9)) (?mins @ ?secs)"
      using fmtInt_hd [of ?m] fmtInt_digits [of ?m] by (simp add: hd_append)
    also have "\<dots> = Inr u" using mins [of "?h * (3600 * 10 ^ 9)"] e assms(2) by simp
    finally show ?thesis using 3 nz assms(1) f by (simp add: Duration_body_def Let_def)
  qed
qed

lemma body_hd: "Duration_body u \<noteq> [] \<and> is_digit (hd (Duration_body u)) \<and> Duration_body u \<noteq> ''0'' \<and> last (Duration_body u) = CHR ''s''"
proof -
  have "is_digit (CHR ''0'')" by code_simp
  moreover have "fmtInt n @ r \<noteq> []" "is_digit (hd (fmtInt n @ r))" for n r
    using fmtInt_digits [of n] fmtInt_hd [of n] by auto
  moreover have "x @ ''s'' \<noteq> ''0''" for x by (cases x) auto
  ultimately show ?thesis
    using fmtInt_digits fmtInt_hd by (auto simp: Duration_body_def Let_def split: prod.splits)
qed

lemma trimQuotes_quoted:
  assumes "s \<noteq> []" and "hd s \<noteq> quote" and "last s \<noteq> quote"
  shows "trimQuotes (quote # s @ [quote]) = s"
proof -
  have "dropWhile (\<lambda>c. c = quote) (s @ [quote]) = s @ [quote]" using assms(1,2) by (cases s) auto
  moreover have "dropWhile (\<lambda>c. c = quote) (rev s) = rev s" using assms(1,3) by (cases s rule: rev_cases) auto
  ultimately show ?thesis by (simp add: trimQuotes_def)
qed

lemma parse_body:
  assumes "u < 2 ^ 63"
  shows "parseLoopD 0 (Duration_body u) = Inr u"
  using body_small body_large [OF _ assms] by (cases "u < 10 ^ 9") auto

lemma ParseDuration_String:
  assumes "\<bar>d\<bar> < 2 ^ 63"
  shows "ParseDuration (Duration_String d) = Inr d"
proof -
  let ?u = "nat \<bar>d\<bar>"
  have "?u < 2 ^ 63" using assms by (simp add: nat_less_iff)
  note p = parse_body [OF this]
  note h = body_hd [of ?u]
  have "\<not> is_digit (CHR ''-'')" "\<not> is_digit (CHR ''+'')" by code_simp+
  then have "hd (Duration_body ?u) \<noteq> CHR ''-''" "hd (Duration_body ?u) \<noteq> CHR ''+''" using h by auto
  then show ?thesis using p h by (auto simp: ParseDuration_def Duration_String_def)
qed

text \<open>
  C36. A duration of the cluster specification survives its JSON text: the parser reads back the printed duration, to the
  nanosecond, for every duration of 64 bits but the least one, whose absolute value has no 64-bit representation. The floating point
  arithmetic of the parser is exact for the fractions that are printed.
\<close>

theorem duration_json_roundtrip:
  assumes "\<bar>d\<bar> < 2 ^ 63"
  shows "UnmarshalJSON (MarshalJSON d) = Inr d"
proof -
  have "\<not> is_digit quote" "CHR ''-'' \<noteq> quote" "CHR ''s'' \<noteq> quote" by code_simp+
  then have "Duration_String d \<noteq> []" "hd (Duration_String d) \<noteq> quote" "last (Duration_String d) \<noteq> quote"
    using body_hd [of "nat \<bar>d\<bar>"] by (auto simp: Duration_String_def)
  from trimQuotes_quoted [OF this] ParseDuration_String [OF assms] show ?thesis
    by (simp add: UnmarshalJSON_def MarshalJSON_def)
qed

lemma fmtFracLoop_9: "fmtFracLoop 9 = fmtFracLoop (Suc (Suc (Suc (Suc (Suc (Suc (Suc (Suc (Suc 0)))))))))"
  by (simp add: numeral_eq_Suc)

lemma char_digits: "char_of (49 :: nat) = CHR ''1''" "char_of (50 :: nat) = CHR ''2''" "char_of (51 :: nat) = CHR ''3''" "char_of (53 :: nat) = CHR ''5''"
  by code_simp+

theorem duration_json_roundtrip_witness:
  "MarshalJSON (- 3723500000000) = [quote] @ ''-1h2m3.5s'' @ [quote] \<and>
   UnmarshalJSON (MarshalJSON (- 3723500000000)) = Inr (- 3723500000000)"
proof -
  have "MarshalJSON (- 3723500000000) = [quote] @ ''-1h2m3.5s'' @ [quote]"
    by (simp add: MarshalJSON_def Duration_String_def Duration_body_def fmtFrac_def fmtInt.simps digit_char_def Let_def fmtFracLoop_9 char_digits)
  then show ?thesis using duration_json_roundtrip [of "- 3723500000000"] by simp
qed

end
