(* ===== verification/Conn_Url.thy ===== *)
theory Conn_Url
  imports Connstring
begin

text \<open>
  Connection parameters from a URL and their copies: \<^verbatim>\<open>URLToConnParams\<close>, \<^verbatim>\<open>Equals\<close>
  and \<^verbatim>\<open>Copy\<close> of \<^verbatim>\<open>internal/postgresql/connstring.go\<close>. The parser of the URL,
  \<^verbatim>\<open>url.Parse\<close>, is an argument. A loop over a Go map visits the keys in any order, so that an enumeration of
  the keys is an argument of each loop, and the lemmas hold for every enumeration.
\<close>

section \<open>Copies\<close>

definition ConnParams_Equals :: "ConnParams \<Rightarrow> ConnParams \<Rightarrow> bool" where
  "ConnParams_Equals cp cp2 \<longleftrightarrow> cp = cp2"

definition enumerates :: "string list \<Rightarrow> (string, 'v) fmap \<Rightarrow> bool" where
  "enumerates ks m \<longleftrightarrow> distinct ks \<and> set ks = fset (fmdom m)"

definition ConnParams_Copy :: "string list \<Rightarrow> ConnParams \<Rightarrow> ConnParams" where
  "ConnParams_Copy ks cp = fold (\<lambda>k. ConnParams_Set k (ConnParams_Get cp k)) ks fmempty"

text \<open>A loop that sets each of its keys to a value that depends on the key alone.\<close>

lemma fold_set_lookup:
  "fmlookup (fold (\<lambda>k. ConnParams_Set k (f k)) ks p) k = (if k \<in> set ks then Some (f k) else fmlookup p k)"
  by (induction ks arbitrary: p) (auto simp: ConnParams_Set_def)

theorem ConnParams_Copy_equals:
  assumes "enumerates ks cp"
  shows "ConnParams_Equals (ConnParams_Copy ks cp) cp"
proof -
  have "fmlookup (ConnParams_Copy ks cp) k = fmlookup cp k" for k
    using assms by (auto simp: ConnParams_Copy_def fold_set_lookup enumerates_def ConnParams_Get_def fmlookup_dom_iff fmdom_notI split: option.splits)
  then show ?thesis unfolding ConnParams_Equals_def by (rule fmap_ext)
qed

section \<open>URLs\<close>

text \<open>
  What the code reads of a \<^verbatim>\<open>url.URL\<close>: the user with an optional password, and the values of each key of the
  query.
\<close>

record URL =
  u_Scheme :: string
  u_User :: "(string \<times> string option) option"
  u_Host :: string
  u_Path :: string
  u_Query :: "(string, string list) fmap"

definition Values_Get :: "(string, string list) fmap \<Rightarrow> string \<Rightarrow> string" where
  "Values_Get q k = (case fmlookup q k of Some (v # _) \<Rightarrow> v | _ \<Rightarrow> '''')"

fun Index :: "string \<Rightarrow> char \<Rightarrow> nat option" where
  "Index [] c = None"
| "Index (x # s) c = (if x = c then Some 0 else map_option Suc (Index s c))"

definition url_user :: "URL \<Rightarrow> ConnParams \<Rightarrow> ConnParams" where
  "url_user u p =
     (case u_User u of
        None \<Rightarrow> p
      | Some (name, pw) \<Rightarrow> ConnParams_Set ''password'' (case pw of None \<Rightarrow> '''' | Some v \<Rightarrow> v) (ConnParams_Set ''user'' name p))"

definition url_host :: "URL \<Rightarrow> ConnParams \<Rightarrow> ConnParams" where
  "url_host u p =
     (case Index (u_Host u) (CHR '':'') of
        None \<Rightarrow> ConnParams_Set ''host'' (u_Host u) p
      | Some i \<Rightarrow> ConnParams_Set ''port'' (drop (i + 1) (u_Host u)) (ConnParams_Set ''host'' (take i (u_Host u)) p))"

definition URLToConnParams :: "(string \<Rightarrow> URL res) \<Rightarrow> string list \<Rightarrow> string \<Rightarrow> ConnParams res" where
  "URLToConnParams url_Parse ks urlStr =
     bindE (url_Parse urlStr) (\<lambda>u.
       if u_Scheme u \<noteq> ''postgres'' then Inl (Error (''invalid connection protocol: '' @ u_Scheme u))
       else
         let p = url_host u (url_user u fmempty);
             p = (if u_Path u \<noteq> '''' then ConnParams_Set ''dbname'' (tl (u_Path u)) p else p)
         in Inr (fold (\<lambda>k. ConnParams_Set k (Values_Get (u_Query u) k)) ks p))"

lemma Index_append: "c \<notin> set s \<Longrightarrow> Index (s @ c # r) c = Some (length s)"
  by (induction s) auto

lemma Index_None: "c \<notin> set s \<Longrightarrow> Index s c = None"
  by (induction s) auto

text \<open>
  The parameters of a URL: the query wins over the rest of the URL; the host and the port are split at the first colon; a user
  without a password has the empty password. The order in which the query is visited does not matter.
\<close>

theorem URLToConnParams_lookup:
  assumes "url_Parse s = Inr u" and "u_Scheme u = ''postgres''" and "enumerates ks (u_Query u)"
    and "u_Host u = h @ CHR '':'' # pt" and "CHR '':'' \<notin> set h"
  shows "\<exists>p. URLToConnParams url_Parse ks s = Inr p \<and>
    (\<forall>k. fmlookup p k =
      (if k |\<in>| fmdom (u_Query u) then Some (Values_Get (u_Query u) k)
       else if k = ''host'' then Some h
       else if k = ''port'' then Some pt
       else if k = ''dbname'' \<and> u_Path u \<noteq> '''' then Some (tl (u_Path u))
       else if k = ''user'' then map_option fst (u_User u)
       else if k = ''password'' then map_option (\<lambda>(_, pw). case pw of None \<Rightarrow> '''' | Some v \<Rightarrow> v) (u_User u)
       else None))"
  using assms by (auto simp: URLToConnParams_def Let_def fold_set_lookup enumerates_def url_host_def url_user_def ConnParams_Set_def Index_append
      split: option.splits)

text \<open>
  The first colon of an IPv6 address is not the one before the port: the host of \<^verbatim>\<open>postgres://[::1]:5432\<close>
  becomes a bracket.
\<close>

lemma URL_ipv6:
  assumes "url_Parse s = Inr \<lparr>u_Scheme = ''postgres'', u_User = None, u_Host = ''[::1]:5432'', u_Path = '''', u_Query = fmempty\<rparr>"
  shows "\<exists>p. URLToConnParams url_Parse [] s = Inr p \<and> ConnParams_Get p ''host'' = ''['' \<and> ConnParams_Get p ''port'' = '':1]:5432''"
  using assms by (simp add: URLToConnParams_def url_host_def url_user_def ConnParams_Set_def ConnParams_Get_def)

end
