(* ===== verification/Db_Calls.thy ===== *)
theory Db_Calls
  imports Manager
begin

text \<open>
  The statements a keeper sends to its postgres, with their timeouts: \<^verbatim>\<open>dbExec\<close> and
  \<^verbatim>\<open>query\<close> of \<^verbatim>\<open>internal/postgresql/utils.go\<close>. Both run the statement in a goroutine
  that hands the answer over a channel without a buffer, and select between the answer and the end of the context. The theory
  \<open>Manager\<close> takes the call as one step with one result; here its interleavings are explicit: a schedule is the sequence
  of what happens, and an event that cannot happen in a state does nothing there.
\<close>

section \<open>The goroutine and its caller\<close>

datatype 'r goroutine = Executing | Sending 'r | Exited

datatype 'r caller = Selecting | ReturnedAnswer 'r | ReturnedErr go_error

record ('w, 'r) DbCall =
  dc_database :: 'w
  dc_goroutine :: "'r goroutine"
  dc_caller :: "'r caller"
  dc_ctx :: "go_error option"

datatype event =
    Executed
  | CtxDone go_error
  | SelectCtx
  | SelectAnswer

definition dbExec_start :: "'w \<Rightarrow> ('w, 'r) DbCall" where
  "dbExec_start w = \<lparr>dc_database = w, dc_goroutine = Executing, dc_caller = Selecting, dc_ctx = None\<rparr>"

text \<open>
  \<open>exec\<close> is \<^verbatim>\<open>db.Exec\<close> or \<^verbatim>\<open>db.Query\<close> with the statement and its
  arguments: what it does to the database and what it answers. The send of the goroutine ends only together with the receive of the
  select.
\<close>

fun dbExec_step :: "('w \<Rightarrow> 'w \<times> 'r) \<Rightarrow> event \<Rightarrow> ('w, 'r) DbCall \<Rightarrow> ('w, 'r) DbCall" where
  "dbExec_step exec Executed st =
     (case dc_goroutine st of
        Executing \<Rightarrow> (case exec (dc_database st) of (w, r) \<Rightarrow> st\<lparr>dc_database := w, dc_goroutine := Sending r\<rparr>)
      | _ \<Rightarrow> st)"
| "dbExec_step exec (CtxDone e) st = (if dc_ctx st = None then st\<lparr>dc_ctx := Some e\<rparr> else st)"
| "dbExec_step exec SelectCtx st =
     (case (dc_caller st, dc_ctx st) of
        (Selecting, Some e) \<Rightarrow> st\<lparr>dc_caller := ReturnedErr e\<rparr>
      | _ \<Rightarrow> st)"
| "dbExec_step exec SelectAnswer st =
     (case (dc_caller st, dc_goroutine st) of
        (Selecting, Sending r) \<Rightarrow> st\<lparr>dc_caller := ReturnedAnswer r, dc_goroutine := Exited\<rparr>
      | _ \<Rightarrow> st)"

definition dbExec_run :: "('w \<Rightarrow> 'w \<times> 'r) \<Rightarrow> event list \<Rightarrow> ('w, 'r) DbCall \<Rightarrow> ('w, 'r) DbCall" where
  "dbExec_run exec evs st = fold (dbExec_step exec) evs st"

text \<open>
  The two functions: the goroutine is started and the caller selects; \<^verbatim>\<open>query\<close> differs in the call only.
\<close>

definition dbExec :: "('w \<Rightarrow> 'w \<times> 'res res) \<Rightarrow> event list \<Rightarrow> 'w \<Rightarrow> ('w, 'res res) DbCall" where
  "dbExec db_Exec evs w = dbExec_run db_Exec evs (dbExec_start w)"

definition query :: "('w \<Rightarrow> 'w \<times> 'rows res) \<Rightarrow> event list \<Rightarrow> 'w \<Rightarrow> ('w, 'rows res) DbCall" where
  "query db_Query evs w = dbExec_run db_Query evs (dbExec_start w)"

section \<open>What holds at every moment\<close>

text \<open>
  The statement has run at most once. The goroutine has ended exactly when the caller has the answer.
\<close>

fun call_ok :: "('w \<Rightarrow> 'w \<times> 'r) \<Rightarrow> 'w \<Rightarrow> ('w, 'r) DbCall \<Rightarrow> bool" where
  "call_ok exec w st \<longleftrightarrow>
     (dc_goroutine st = Executing \<longrightarrow> dc_database st = w) \<and>
     (\<forall>r. dc_goroutine st = Sending r \<longrightarrow> exec w = (dc_database st, r)) \<and>
     (dc_goroutine st = Exited \<longrightarrow> dc_caller st = ReturnedAnswer (snd (exec w)) \<and> dc_database st = fst (exec w)) \<and>
     (\<forall>r. dc_caller st = ReturnedAnswer r \<longrightarrow> dc_goroutine st = Exited) \<and>
     (\<forall>e. dc_caller st = ReturnedErr e \<longrightarrow> dc_ctx st = Some e)"

lemma call_ok_step: "call_ok exec w st \<Longrightarrow> call_ok exec w (dbExec_step exec ev st)"
  by (cases ev; cases "dc_goroutine st"; cases "dc_caller st"; cases "dc_ctx st") (auto split: prod.splits)

lemma call_ok_run: "call_ok exec w st \<Longrightarrow> call_ok exec w (dbExec_run exec evs st)"
  unfolding dbExec_run_def by (induction evs arbitrary: st) (simp_all only: fold.simps id_apply comp_apply call_ok_step)

lemma call_ok_start: "call_ok exec w (dbExec_start w)"
  by (simp add: dbExec_start_def)

text \<open>A return is final.\<close>

lemma returned_step: "dc_caller st \<noteq> Selecting \<Longrightarrow> dc_caller (dbExec_step exec ev st) = dc_caller st"
  by (cases ev) (auto split: goroutine.splits caller.splits option.splits prod.splits)

lemma returned_run: "dc_caller st \<noteq> Selecting \<Longrightarrow> dc_caller (dbExec_run exec evs st) = dc_caller st"
  unfolding dbExec_run_def by (induction evs arbitrary: st) (simp_all add: returned_step)

section \<open>Timeouts\<close>

text \<open>
  C39. A statement with a timeout: in every schedule the caller gets either the answer of the statement, which then has run once, or
  the error of its context, and it never waits longer than the context lasts. An error of the context says nothing about the
  statement, which may still run afterwards, and the goroutine it leaves behind never ends, whatever happens later, for nobody
  receives its answer.
\<close>

theorem db_call_timeout:
  fixes exec :: "'w \<Rightarrow> 'w \<times> 'r res"
  assumes "st = dbExec exec evs w"
  shows "(\<forall>r. dc_caller st = ReturnedAnswer r \<longrightarrow> exec w = (dc_database st, r)) \<and>
    (dc_caller st = Selecting \<and> dc_ctx st = Some e \<longrightarrow> dc_caller (dbExec_step exec SelectCtx st) = ReturnedErr e) \<and>
    (dc_caller st = ReturnedErr e \<longrightarrow> dc_ctx st = Some e \<and>
           (\<forall>more. dc_goroutine (dbExec_run exec more st) \<noteq> Exited \<and> dc_caller (dbExec_run exec more st) = ReturnedErr e) \<and>
           (\<exists>more. dc_database (dbExec_run exec more st) = fst (exec w)))"
proof -
  have ok: "call_ok exec w st" unfolding assms dbExec_def by (rule call_ok_run [OF call_ok_start])
  show ?thesis
  proof (intro impI conjI allI)
    show "exec w = (dc_database st, r)" if "dc_caller st = ReturnedAnswer r" for r using ok that by auto
    show "dc_caller (dbExec_step exec SelectCtx st) = ReturnedErr e" if "dc_caller st = Selecting \<and> dc_ctx st = Some e" using that by simp
  next
    assume c: "dc_caller st = ReturnedErr e"
    show "dc_ctx st = Some e" using ok c by simp
    fix more
    have "dc_caller (dbExec_run exec more st) = ReturnedErr e" using returned_run [of st] c by simp
    moreover have "call_ok exec w (dbExec_run exec more st)" by (rule call_ok_run [OF ok])
    ultimately show "dc_caller (dbExec_run exec more st) = ReturnedErr e" "dc_goroutine (dbExec_run exec more st) \<noteq> Exited" by auto
  next
    assume c: "dc_caller st = ReturnedErr e"
    have "dc_database (dbExec_run exec [Executed] st) = fst (exec w)"
      using ok c by (cases "dc_goroutine st") (auto simp: dbExec_run_def split: prod.splits)
    then show "\<exists>more. dc_database (dbExec_run exec more st) = fst (exec w)" by blast
  qed
qed

text \<open>A statement that sets a row runs after its timeout: the caller has the error, the row is set and the goroutine is stuck.\<close>

theorem db_call_timeout_witness:
  "let exec = (\<lambda>w :: nat. (w + 1, Inr () :: unit res)); st = dbExec exec [CtxDone (Error ''context deadline exceeded''), SelectCtx] 0
   in dc_caller st = ReturnedErr (Error ''context deadline exceeded'') \<and> dc_database st = 0 \<and>
      dc_goroutine (dbExec_run exec [Executed, SelectAnswer] st) \<noteq> Exited \<and>
      (\<exists>more. dc_database (dbExec_run exec more st) = 1)"
proof -
  let ?exec = "\<lambda>w :: nat. (w + 1, Inr () :: unit res)" and ?e = "Error ''context deadline exceeded''"
  define st where "st = dbExec ?exec [CtxDone ?e, SelectCtx] 0"
  have c: "dc_caller st = ReturnedErr ?e" "dc_database st = 0"
    by (simp_all add: st_def dbExec_def dbExec_run_def dbExec_start_def)
  from db_call_timeout [OF st_def, of ?e] c
  show ?thesis unfolding Let_def st_def [symmetric] by simp
qed

end
