(* ===== verification/Spec2Isabelle.thy ===== *)
theory Spec2Isabelle
  imports Util Postgres Pgutils Connstring Cluster Cluster_V0 Sentinel_State Sentinel_Select Sentinel_Update Sentinel_Steps
    Sentinel_Failover Sentinel_Invariant Sentinel_Sync Sentinel_Check Store Stolonctl Status System Libkv Kube_Store Kube_System
    Election Sentinel_Run Config Proxy Actions Manager Keeper_Conf Keeper_SM Keeper_Correct Keeper_Run Fencing Files Flags Mains Ctl_Show Durations
    Conn_Url Db_Calls
begin

text \<open>
  A verification of stolon, a manager of highly available PostgreSQL clusters.

  \<^bold>\<open>The program.\<close> A store (etcd, consul or kubernetes) holds the cluster data: the specification of the cluster,
  the keepers, the databases with their specifications, status and generations, and what the proxies shall do. Every postgres
  instance has a \<^emph>\<open>keeper\<close>, which reads the cluster data, brings its instance into the state that the
  specification of its database asks for, and publishes what it sees of the instance. The \<^emph>\<open>sentinels\<close> elect a
  leader, which reads the information of the keepers and proxies and computes new cluster data: it decides which database is the
  master and which ones follow it. The \<^emph>\<open>proxies\<close> forward connections to the master that the cluster data names.
  \<^emph>\<open>stolonctl\<close> changes the cluster data on behalf of an operator. The components share no state but the store;
  what makes the whole correct is that cluster data is written by compare and swap, that a new master is announced to the proxies
  only after all of them have been told to drop the old one, and that the generation of a database tells when its keeper has done
  what was asked for.

  \<^bold>\<open>The theories and the code they model.\<close>

  \<^item> \<open>Prelude\<close>: results with errors and panics, maps with an order of iteration, loops that may fail, strings.
    \<open>Actions\<close>: sequences of calls with state and errors, with a calculus of pre- and postconditions.
  \<^item> \<open>Util\<close>, \<open>Postgres\<close>, \<open>Pgutils\<close>, \<open>Connstring\<close>:
    \<^verbatim>\<open>internal/util/slice.go\<close>, the names of \<^verbatim>\<open>internal/common/common.go\<close>, the pure
    functions of \<^verbatim>\<open>internal/postgresql/utils.go\<close> (WAL file names, log positions, timeline histories,
    versions) and the connection strings of \<^verbatim>\<open>connstring.go\<close>, with round trips of the parsers and printers.
    \<open>Conn_Url\<close>: connection parameters from a URL.
  \<^item> \<open>Cluster\<close>: the types of \<^verbatim>\<open>internal/cluster/cluster.go\<close> and
    \<^verbatim>\<open>member.go\<close>, their defaults, \<^verbatim>\<open>Validate\<close> and
    \<^verbatim>\<open>UpdateSpec\<close>. \<open>Durations\<close>: the text of a duration in JSON, with the printer and the parser
    of the package \<^verbatim>\<open>time\<close>. \<open>Cluster_V0\<close>: the format of an earlier release,
    \<^verbatim>\<open>internal/cluster/v0\<close>.
  \<^item> \<open>Sentinel_State\<close>, \<open>Sentinel_Select\<close>, \<open>Sentinel_Update\<close>:
    \<^verbatim>\<open>cmd/sentinel/cmd/sentinel.go\<close> in the order of the code: timers and the status of the keepers, the
    choice of standbys and masters, \<^verbatim>\<open>updateCluster\<close>. \<open>Sentinel_Steps\<close> splits
    \<^verbatim>\<open>updateCluster\<close> into its phases; \<open>Sentinel_Failover\<close> has the safety of a failover and of
    the proxies, \<open>Sentinel_Invariant\<close> that cluster data stays well-formed, \<open>Sentinel_Sync\<close> the synchronous
    standbys.
  \<^item> \<open>Sentinel_Check\<close>: \<^verbatim>\<open>clusterSentinelCheck\<close> as a function of what the store returns,
    with the write it asks for. \<open>Election\<close>: the elections of \<^verbatim>\<open>etcdv3.go\<close> and
    \<^verbatim>\<open>k8s.go\<close> and the loop of the sentinel that listens to them. \<open>Sentinel_Run\<close>: the process of
    a sentinel, with checks and election in any order; the election goes on between the test of a check for the leadership and its
    put.
  \<^item> \<open>Store\<close>: \<^verbatim>\<open>KVBackedStore\<close> of \<^verbatim>\<open>internal/store/kvbacked.go\<close>
    over \<^verbatim>\<open>etcdv3.go\<close>. \<open>Libkv\<close>: \<^verbatim>\<open>libkv.go\<close>. \<open>Kube_Store\<close>:
    \<^verbatim>\<open>k8s.go\<close> with the retry loop of the vendored client library.
  \<^item> \<open>Stolonctl\<close>, \<open>Status\<close>: the commands of \<^verbatim>\<open>cmd/stolonctl/cmd\<close> that write,
    and \<^verbatim>\<open>status\<close>. \<open>Ctl_Show\<close>: the ones that print, and where \<^verbatim>\<open>update\<close>
    takes the new specification from.
  \<^item> \<open>System\<close>, \<open>Kube_System\<close>: the interleavings of any number of sentinels and commands over a
    store. The step relation is parametric in the store; the locale \<open>cluster_store\<close> has what the results need of it,
    and is interpreted for etcd, libkv and kubernetes.
  \<^item> \<open>Proxy\<close>: \<^verbatim>\<open>cmd/proxy/cmd/proxy.go\<close> with the vendored
    \<^verbatim>\<open>pollon\<close>. The check is a program, and every call of the store and every section under the mutex of the
    checker, of the check or of the timeout checker, is a step, as are the configurations that pollon applies and the connections of
    its clients. \<open>Fencing\<close>: the sentinels and any number of proxies together, with the connections that the proxies
    forward.
  \<^item> \<open>Manager\<close>: \<^verbatim>\<open>internal/postgresql/postgresql.go\<close>, as actions over a record of the
    calls to the operating system and to the SQL server. \<open>Db_Calls\<close>: a statement with a timeout,
    \<^verbatim>\<open>dbExec\<close> and \<^verbatim>\<open>query\<close>. \<open>Keeper_Conf\<close>, \<open>Keeper_SM\<close>:
    \<^verbatim>\<open>cmd/keeper/cmd/keeper.go\<close>, the configuration of an instance and the state machine;
    \<open>Keeper_Correct\<close> what the state machine guarantees; \<open>Keeper_Run\<close> the process of a keeper, with its
    three tasks in any order. \<open>Files\<close>: \<^verbatim>\<open>WriteFileAtomic\<close> and the files with the local states,
    over a file system that may crash.
  \<^item> \<open>Flags\<close>: the flags of the four programs, the environment
    (\<^verbatim>\<open>internal/flagutil/env.go\<close>), the log level and the TLS configuration. \<open>Mains\<close>: the
    goroutines of the main functions.
  \<^item> \<open>Config\<close>: the checks of the command lines of keeper, sentinel and proxy, and the choice of store and
    election (\<^verbatim>\<open>cmd/common.go\<close>, \<^verbatim>\<open>NewKVStore\<close>).

  \<^bold>\<open>How the code is read.\<close> Structs are records, enumerations are datatypes with the constructors of the source
  and one for any other string. Errors are values: \<open>Error\<close> for an error or a fatal exit, \<open>Panic\<close> for a
  panic, in particular a nil dereference. A map is a finite map, and every loop over a map takes its order from a parameter, so that
  the results hold for every order. 64 bit and 16 bit integers whose overflow matters are words, times and durations are integers.
  Values that are encoded as JSON and read back stand for their encoding; where the encoding loses something, this is a function
  (\<open>json_ClusterData\<close>). Code that is not in the repository, or only calls a library, is a parameter: the clients of the
  stores, the operating system, the SQL server, random identifiers, the clock. What is needed of it is the assumptions of a locale
  (\<open>etcd_client\<close>, \<open>libkv_client\<close>, \<open>kube_client\<close>) or a premise of the theorem, and an instance
  shows that it can hold.

  \<^bold>\<open>What is shown.\<close>

  \<^item> Failover: a master is replaced only when it has failed, by a healthy and converged database on its timeline, in sync if
    replication is synchronous (\<open>failover_safe\<close>); the proxies are told in the same write that there is no master
    (\<open>failover_fences_proxies\<close>) and learn the new one only when all active ones have confirmed
    (\<open>proxy_master_sound\<close>).
  \<^item> The system: with every store, the cluster data in the store is sound (\<open>sound_cd\<close>), every change of it is a
    check of a leader or a command applied to the current cluster data, and a change of the master fences the proxies, in every
    interleaving; it is also well-formed (\<open>wf_cd\<close>: sound, and a database that follows an external instance has the
    settings for it), so that a check can process it, until an update drops the settings of standby clusters
    (\<open>system_invariant\<close>, \<open>system_lineage\<close>, \<open>system_fencing\<close>,
    \<open>libkv_system_correct\<close>, \<open>kube_system_correct\<close>). Underneath are the compare and swap of the stores
    (\<open>store_cas_correct\<close>, \<open>kube_cas_correct\<close>) and the preservation of well-formedness by every check
    (\<open>wf_preserved\<close>, \<open>check_safe\<close>, \<open>check_returns\<close>).
  \<^item> Leadership: \<open>election_leader_sound\<close>, \<open>kube_election_sound\<close>,
    \<open>sentinel_writes_leading\<close>.
  \<^item> Proxies: connections of the pollon proxy in use go only to the current destination and are closed in time
    (\<open>proxy_check_correct\<close>, \<open>proxy_timeout_closes\<close>, \<open>proxy_acknowledges_closed\<close>). With the
    sentinels: when a new master is published, a proxy that the sentinel has counted has told pollon to close its connections to the
    former one (\<open>no_connection_to_former_master\<close>). The exception is a pollon proxy that the timeout checker has
    stopped: \<open>orphan_run\<close> and \<open>orphan_forwards\<close> have a connection that outlives everything.
  \<^item> Keepers: the local state, the role, failed initializations and slots (theory \<open>Keeper_Correct\<close>); what is
    reported was attained (\<open>keeper_reports_earned\<close>), and so is what a sentinel takes for converged
    (\<open>convergence_earned\<close>, below). The local states survive crashes and restarts
    (\<open>local_state_crash_safe\<close>, \<open>keeper_restart\<close>). What a timeout of a statement means is
    \<open>db_call_timeout\<close>.
  \<^item> Commands: \<open>command_no_lost_update\<close>, \<open>removeKeeper_correct\<close>, \<open>UpdateSpec_correct\<close>,
    \<open>status_total\<close>, \<open>keeper_config_sound\<close>, \<open>spec_update_roundtrip\<close>.
  \<^item> Programs: where the value of a flag comes from (\<open>flags_precedence\<close>), what becomes of the errors of a program
    that starts (\<open>startup_errors\<close>; \<open>keeper_shares_err\<close> for the keeper).
  \<^item> Texts: \<open>ConnString_roundtrip\<close>, \<open>duration_json_roundtrip\<close>.

  \<^bold>\<open>Bounds.\<close> The waiting loops of the manager have fuel \<open>waitFuel\<close>, computed from the timeout, and
  are shown to end with the timeout or the last answer (\<open>manager_waits_end\<close>). Retries are bounded as in the code:
  \<open>maxRetries\<close> for commands, \<open>DefaultRetrySteps\<close> for kubernetes. \<^verbatim>\<open>printTree\<close> has
  a bound on the depth; \<open>status_total\<close> shows that any bound above the depth of the tree of followers is enough. All
  other functions are total.

  \<^bold>\<open>Not modelled.\<close> The output of the logger, the counters of the metrics, the access to the clock, the
  resolution of addresses, and the encoding of JSON but for durations: calls of libraries without logic of stolon. Deep copies are
  the identity, for values have no aliases here. A check of a sentinel up to its put, and a task of a keeper, do not interleave with
  other goroutines of the same process; the steps of a proxy do, and so do the steps of different processes, at every call of the
  store. The fields of a sentinel that its election changes are read by a check once, at its test for the leadership. Identifiers
  drawn at random are assumed to be new. Time is what the parameters say it is: there is no assumption that clocks agree.
\<close>

section \<open>Keepers and sentinels\<close>

text \<open>
  C15. Convergence is earned. When a check of a sentinel records a new generation as the one that a database has attained, this is
  the generation that the keeper of the database had when it was started, or one that a run of the keeper's state machine has
  attained before the keeper published the information that the check has read (or none at all).
\<close>

theorem convergence_earned:
  assumes "wf_cd cd" and "infos_ok kis" and "updateKeepersStatus env s cd kis firstRun = Inr (s', newcd, kihs)"
    and "fmlookup (cd_DBs cd) u = Some db" and "fmlookup (cd_DBs newcd) u = Some db'"
    and "pk_lastPGState (kl_keeper l0) = None"
    and "\<forall>ki. fmlookup kis (dbs_KeeperUID (db_Spec db)) = Some ki \<longrightarrow>
      (\<exists>evs' evs'' l. evs = evs' @ evs'' \<and> keeper_run h io l0 evs' l \<and> ki_PostgresState ki = pk_lastPGState (kl_keeper l))"
  shows "st_CurrentGeneration (db_Status db') = st_CurrentGeneration (db_Status db) \<or>
    reportable h io l0 evs u (st_CurrentGeneration (db_Status db'))"
proof (cases firstRun)
  case True
  then show ?thesis using assms(3-5) by (auto simp: updateKeepersStatus_def Let_def bindE_eq_Inr)
next
  case False
  obtain c where c: "cluster_of cd = Inr c" using assms(1) by (auto elim: wf_cd_parts)
  have uid: "db_UID db = u" using wf_cd_dbs [OF assms(1)] assms(4) by (auto simp: uids_ok_def)
  let ?fi = "freshInfos env s c kis"
  have g: "st_CurrentGeneration (db_Status db') = st_CurrentGeneration (db_Status (dbStatusFromInfo ?fi db))"
    using updateKeepersStatus_dbs [of env s cd kis s' newcd kihs c u db] assms(3-5) False c by auto
  show ?thesis
  proof (cases "reportedState ?fi db")
    case None
    then show ?thesis using g by (simp add: dbStatusFromInfo_def)
  next
    case (Some st)
    then obtain ki where "fmlookup kis (dbs_KeeperUID (db_Spec db)) = Some ki" and st: "ki_PostgresState ki = Some st" "pst_UID st = u"
      using reportedState_fresh [OF assms(2) Some] uid by (auto simp: reportedState_def split: option.splits if_splits)
    with assms(7) obtain evs' evs'' l where l: "evs = evs' @ evs''" "keeper_run h io l0 evs' l" "ki_PostgresState ki = pk_lastPGState (kl_keeper l)"
      by blast
    from keeper_run_inv [OF assms(6) l(2)] l(3) st have "reportable h io l0 evs' u (pst_Generation st)" by (auto simp: run_inv_def)
    then have "reportable h io l0 evs u (pst_Generation st)" unfolding l(1) by (rule reportable_append)
    then show ?thesis using g Some by (simp add: dbStatusFromInfo_def Let_def)
  qed
qed

text \<open>A keeper collects its report and publishes it; the sentinel reads it.\<close>

definition reporting_l0 :: "(bool \<times> string list) KeeperLoop" where
  "reporting_l0 = \<lparr>kl_keeper = slot_pk, kl_phase = (\<lambda>_. Running), kl_ended = False\<rparr>"

lemma reporting_run:
  "\<exists>l st. keeper_run slotHost slotIO reporting_l0 [TaskRuns TaskPGState (Inr None)] l \<and> pk_lastPGState (kl_keeper l) = Some st"
proof -
  have q: "sql_Query slotHost c q w = Inr (if has_prefix q ''select slot_name'' then map (\<lambda>s. [s]) (snd w) else [])" for c q w
    by (simp add: slotHost_def split: prod.splits)
  have "\<exists>p' s. GetPGState slotHost slot_pk = (p', Inr s)"
    unfolding GetPGState_def bindA_ask
    by (simp add: tryA_def onPgm_def GetConfigFilePGParameters_def getConfigFilePGParameters_def bindA_def queryLocal_def q getA_def GetInSyncStandbys_def
        GetSyncStandbys_def getSyncStandbys_def returnA_def pgStateSystem_def GetSystemData_def pg_GetSystemData_def queryRepl_def thenA_def modA_def Let_def)
  then obtain p st where "GetPGState slotHost slot_pk = (p, Inr st)" by blast
  then have "updatePGState slotHost slot_pk = (p\<lparr>pk_lastPGState := Some st\<rparr>, Inr ())" by (simp add: updatePGState_def tryA_def modA_def)
  then have "\<exists>l. keeperLoop slotHost slotIO (TaskRuns TaskPGState (Inr None)) reporting_l0 = Some (Inr l) \<and> pk_lastPGState (kl_keeper l) = Some st"
    by (simp add: keeperLoop_def runTask_def reporting_l0_def)
  then obtain l where l: "keeperLoop slotHost slotIO (TaskRuns TaskPGState (Inr None)) reporting_l0 = Some (Inr l)" "pk_lastPGState (kl_keeper l) = Some st"
    by blast
  from keeper_run.step [OF keeper_run.start l(1)] l(2) show ?thesis by auto
qed

theorem convergence_earned_witness:
  "\<exists>kis st s' newcd kihs db'. fmlookup kis ''k1'' = Some st \<and>
     updateKeepersStatus example_env example_sentinel example_cd kis False = Inr (s', newcd, kihs) \<and> fmlookup (cd_DBs newcd) ''db1'' = Some db' \<and>
     (st_CurrentGeneration (db_Status db') = st_CurrentGeneration (db_Status example_master) \<or>
      reportable slotHost slotIO reporting_l0 [TaskRuns TaskPGState (Inr None)] ''db1'' (st_CurrentGeneration (db_Status db')))"
proof -
  obtain l st where l: "keeper_run slotHost slotIO reporting_l0 [TaskRuns TaskPGState (Inr None)] l" "pk_lastPGState (kl_keeper l) = Some st"
    using reporting_run by blast
  define ki where "ki = \<lparr>ki_InfoUID = ''i'', ki_UID = ''k1'', ki_ClusterUID = ''c'', ki_BootUUID = ''b'',
    ki_PostgresBinaryVersion = \<lparr>pv_Maj = 10, pv_Min = 0\<rparr>, ki_PostgresState = Some st\<rparr>"
  define kis where "kis = fmap_of_list [(''k1'', ki)]"
  have ok: "infos_ok kis" by (auto simp: infos_ok_def kis_def ki_def)
  obtain c spec where c: "cluster_of example_cd = Inr c" "DefSpec c = Inr spec" using example_cd_wf by (auto elim: wf_cd_parts)
  have "is_ok (updateKeepersStatus example_env example_sentinel example_cd kis False)"
    by (rule is_ok_updateKeepersStatus [OF c wf_cd_dbs(2) [OF example_cd_wf] ok])
  then obtain s' newcd kihs where u: "updateKeepersStatus example_env example_sentinel example_cd kis False = Inr (s', newcd, kihs)"
    by (auto simp: is_ok_iff)
  have db: "fmlookup (cd_DBs example_cd) ''db1'' = Some example_master" "dbs_KeeperUID (db_Spec example_master) = ''k1''"
    by (simp_all add: example_cd_def example_master_def)
  from updateKeepersStatus_dbs [OF u c(1) db(1)] obtain db' where db': "fmlookup (cd_DBs newcd) ''db1'' = Some db'" by blast
  have none: "pk_lastPGState (kl_keeper reporting_l0) = None" by (simp add: reporting_l0_def slot_pk_def keeperOn_def)
  have pub: "\<forall>ki. fmlookup kis (dbs_KeeperUID (db_Spec example_master)) = Some ki \<longrightarrow>
      (\<exists>evs' evs'' l. [TaskRuns TaskPGState (Inr None)] = evs' @ evs'' \<and> keeper_run slotHost slotIO reporting_l0 evs' l \<and>
         ki_PostgresState ki = pk_lastPGState (kl_keeper l))"
    using l by (intro allI impI exI [of _ "[TaskRuns TaskPGState (Inr None)]"] exI [of _ "[]"] exI [of _ l]) (auto simp: db(2) kis_def ki_def)
  have "fmlookup kis ''k1'' = Some ki" by (simp add: kis_def)
  with convergence_earned [OF example_cd_wf ok u db(1) db' none pub] u db' show ?thesis by blast
qed

end
